(* ===== verification/Prelude.thy ===== *)
theory Prelude
  imports Complex_Main "HOL-Library.AList"
begin

text \<open>
  Shared vocabulary of the development: the Python values the components exchange, exceptions,
  the text normalisation every component uses, insertion-ordered dictionaries, and the
  state-and-exception monad in which the stateful components are written, with the generic
  lemmas about them.

  Strings are lists of code points below 256.  Floats are exact rationals together with the
  three non-finite values; IEEE rounding is not modelled.
\<close>


subsection \<open>Exceptions and Python values\<close>

text \<open>An exception carries its class name, the names of its base classes and its message.\<close>

datatype exn = Exn (exn_type: string) (exn_bases: "string list") (exn_msg: string)

definition exn_isinstance :: "exn \<Rightarrow> string list \<Rightarrow> bool" where
  "exn_isinstance e classes =
     list_ex (\<lambda>c. c = exn_type e \<or> List.member (exn_bases e) c) classes"

definition ValueError :: "string \<Rightarrow> exn" where
  "ValueError msg = Exn ''ValueError'' [''Exception'', ''BaseException''] msg"

definition TypeError :: "string \<Rightarrow> exn" where
  "TypeError msg = Exn ''TypeError'' [''Exception'', ''BaseException''] msg"

definition KeyError :: "string \<Rightarrow> exn" where
  "KeyError msg = Exn ''KeyError'' [''LookupError'', ''Exception'', ''BaseException''] msg"

definition OverflowError :: exn where
  "OverflowError = Exn ''OverflowError'' [''ArithmeticError'', ''Exception'', ''BaseException'']
     ''int too large to convert to float''"

datatype fval = Fin rat | PInf | MInf | NaN

datatype pyval =
    VNone
  | VBool bool
  | VInt int
  | VFloat fval
  | VStr string
  | VList "pyval list"
  | VDict "(string \<times> pyval) list"
  | VType string "string list" \<comment> \<open>a class object: its name and its bases\<close>
  | VObj string \<comment> \<open>any other object, by the name of its class\<close>

type_synonym dict = "(string \<times> pyval) list"

text \<open>An integer this large cannot be converted to a float; the conversion raises.\<close>

definition int_overflows :: "int \<Rightarrow> bool" where
  "int_overflows n \<longleftrightarrow> 2 ^ 1024 - 2 ^ 970 \<le> \<bar>n\<bar>"

text \<open>
  The check \<open>isinstance(v, (int, float)) and not isinstance(v, bool) and isfinite(v)\<close>:
  \<open>Some r\<close> for a finite number, \<open>None\<close> for a value that fails the check.
\<close>

definition finite_number :: "pyval \<Rightarrow> exn + rat option" where
  "finite_number v =
     (case v of
        VInt n \<Rightarrow> (if int_overflows n then Inl OverflowError else Inr (Some (of_int n)))
      | VFloat (Fin r) \<Rightarrow> Inr (Some r)
      | _ \<Rightarrow> Inr None)"

text \<open>The check \<open>isinstance(v, int) and not isinstance(v, bool)\<close>.\<close>

definition plain_int :: "pyval \<Rightarrow> int option" where
  "plain_int v = (case v of VInt n \<Rightarrow> Some n | _ \<Rightarrow> None)"

subsection \<open>Results\<close>

fun bindE :: "'e + 'a \<Rightarrow> ('a \<Rightarrow> 'e + 'b) \<Rightarrow> 'e + 'b" where
  "bindE (Inl e) f = Inl e"
| "bindE (Inr x) f = f x"

lemma bindE_Inr_iff: "bindE m f = Inr y \<longleftrightarrow> (\<exists>x. m = Inr x \<and> f x = Inr y)"
  by (cases m) auto

lemma bindE_InrE: "bindE m f = Inr y \<Longrightarrow> (\<And>x. m = Inr x \<Longrightarrow> f x = Inr y \<Longrightarrow> P) \<Longrightarrow> P"
  by (cases m) auto

lemma bindE_Inl_iff:
  "bindE m f = Inl e \<longleftrightarrow> m = Inl e \<or> (\<exists>x. m = Inr x \<and> f x = Inl e)"
  by (cases m) auto

lemma bindE_cong [fundef_cong]:
  "m = m' \<Longrightarrow> (\<And>x. m' = Inr x \<Longrightarrow> f x = g x) \<Longrightarrow> bindE m f = bindE m' g"
  by (cases m') auto

subsection \<open>Text\<close>

definition is_space :: "char \<Rightarrow> bool" where
  "is_space c = (let n = of_char c :: nat in
     (9 \<le> n \<and> n \<le> 13) \<or> (28 \<le> n \<and> n \<le> 32) \<or> n = 133 \<or> n = 160)"

definition strip :: "string \<Rightarrow> string" where
  "strip s = rev (dropWhile is_space (rev (dropWhile is_space s)))"

definition quoted :: "string \<Rightarrow> string" where
  "quoted s = [CHR 0x27] @ s @ [CHR 0x27]"

definition ascii_upper :: "char \<Rightarrow> bool" where
  "ascii_upper c \<longleftrightarrow> (let n = of_char c :: nat in 65 \<le> n \<and> n \<le> 90)"

definition ascii_lower :: "char \<Rightarrow> bool" where
  "ascii_lower c \<longleftrightarrow> (let n = of_char c :: nat in 97 \<le> n \<and> n \<le> 122)"

definition ascii_digit :: "char \<Rightarrow> bool" where
  "ascii_digit c \<longleftrightarrow> (let n = of_char c :: nat in 48 \<le> n \<and> n \<le> 57)"

fun decimal :: "nat \<Rightarrow> string" where
  "decimal n = (if n < 10 then [char_of (48 + n)] else decimal (n div 10) @ [char_of (48 + n mod 10)])"

declare decimal.simps [simp del]

definition show_int :: "int \<Rightarrow> string" where
  "show_int n = (if n < 0 then ''-'' @ decimal (nat (- n)) else decimal (nat n))"

text \<open>
  \<^verbatim>\<open>int(text)\<close>: blanks around, a sign, digits with single underscores between them, at most
  4300 digits; and \<^verbatim>\<open>int(value)\<close>, which cuts the fraction of a float.
\<close>

fun digits_value :: "int \<Rightarrow> bool \<Rightarrow> string \<Rightarrow> int option" where
  "digits_value acc after_digit [] = (if after_digit then Some acc else None)"
| "digits_value acc after_digit (c # s) =
     (if ascii_digit c then digits_value (10 * acc + (of_char c - 48)) True s
      else if c = CHR ''_'' \<and> after_digit then digits_value acc False s else None)"

definition int_of_text :: "string \<Rightarrow> int option" where
  "int_of_text s =
     (let t = strip s; negative = (take 1 t = ''-''); u = (if take 1 t = ''-'' \<or> take 1 t = ''+'' then drop 1 t else t) in
      if 4300 < length (filter ascii_digit u) then None
      else map_option (\<lambda>n. if negative then - n else n) (digits_value 0 False u))"

definition python_int :: "pyval \<Rightarrow> exn + int" where
  "python_int v =
     (case v of
        VInt n \<Rightarrow> Inr n
      | VBool b \<Rightarrow> Inr (if b then 1 else 0)
      | VFloat (Fin r) \<Rightarrow> Inr (if r < 0 then - \<lfloor>- r\<rfloor> else \<lfloor>r\<rfloor>)
      | VFloat NaN \<Rightarrow> Inl (ValueError ''cannot convert float NaN to integer'')
      | VFloat _ \<Rightarrow> Inl (Exn ''OverflowError'' [''ArithmeticError'', ''Exception'', ''BaseException'']
          ''cannot convert float infinity to integer'')
      | VStr s \<Rightarrow> (case int_of_text s of Some n \<Rightarrow> Inr n | None \<Rightarrow> Inl (ValueError ''invalid literal for int()''))
      | _ \<Rightarrow> Inl (TypeError ''int() argument must be a string or a real number''))"

lemma python_int_VInt [simp]: "python_int (VInt n) = Inr n"
  by (simp add: python_int_def)

lemma dropWhile_idem: "dropWhile P (dropWhile P xs) = dropWhile P xs"
  by (induction xs) auto

lemma dropWhile_rev_hd:
  assumes "ys = dropWhile P xs"
  shows "dropWhile P (rev (dropWhile P (rev ys))) = rev (dropWhile P (rev ys))"
proof (cases "rev (dropWhile P (rev ys))")
  case Nil
  then show ?thesis by (simp only: dropWhile.simps)
next
  case (Cons z zs)
  have "\<exists>ws. rev ys = ws @ dropWhile P (rev ys)"
    by (metis takeWhile_dropWhile_id)
  then obtain ws where "rev ys = ws @ dropWhile P (rev ys)" by blast
  then have "ys = rev (dropWhile P (rev ys)) @ rev ws"
    by (metis rev_append rev_rev_ident)
  with Cons have "ys = z # zs @ rev ws" by simp
  then have "\<not> P z" using assms hd_dropWhile [of P xs] by (metis list.distinct(1) list.sel(1))
  then show ?thesis using Cons by simp
qed

lemma strip_strip [simp]: "strip (strip s) = strip s"
proof -
  have "dropWhile is_space (strip s) = strip s"
    unfolding strip_def using dropWhile_rev_hd [OF refl] by blast
  then show ?thesis
    unfolding strip_def [of "strip s"] by (simp add: strip_def dropWhile_idem)
qed

lemma strip_Nil [simp]: "strip [] = []"
  by (simp add: strip_def)

text \<open>
  \<open>_required_text\<close>: a string whose stripped form is not empty, in its stripped form.
  The workflow contracts and the graph builder raise different errors; the caller gives them.
\<close>

definition text_or :: "exn \<Rightarrow> exn \<Rightarrow> pyval \<Rightarrow> exn + string" where
  "text_or not_str blank v =
     (case v of
        VStr s \<Rightarrow> (if strip s = [] then Inl blank else Inr (strip s))
      | _ \<Rightarrow> Inl not_str)"

lemma text_or_Inr: "text_or e1 e2 v = Inr t \<Longrightarrow> t \<noteq> [] \<and> strip t = t"
  by (auto simp: text_or_def split: pyval.splits if_splits)

lemma text_or_normal: "t \<noteq> [] \<Longrightarrow> strip t = t \<Longrightarrow> text_or e1 e2 (VStr t) = Inr t"
  by (simp add: text_or_def)

subsection \<open>Dictionaries\<close>

text \<open>
  A dictionary keeps its insertion order: an association list with distinct keys, read with
  \<open>map_of\<close> and written with \<open>AList.update\<close>, which replaces a value in place and
  appends a new key.  \<open>dict_merge a b\<close> is the display \<open>{**a, **b}\<close>.
\<close>

abbreviation dict_put :: "'k \<Rightarrow> 'v \<Rightarrow> ('k \<times> 'v) list \<Rightarrow> ('k \<times> 'v) list" where
  "dict_put \<equiv> AList.update"

definition dict_merge :: "('k \<times> 'v) list \<Rightarrow> ('k \<times> 'v) list \<Rightarrow> ('k \<times> 'v) list" where
  "dict_merge a b = foldl (\<lambda>d (k, v). dict_put k v d) a b"

definition dict_wf :: "('k \<times> 'v) list \<Rightarrow> bool" where
  "dict_wf d \<longleftrightarrow> distinct (map fst d)"

lemma dict_put_get [simp]: "map_of (dict_put k v d) = (map_of d)(k \<mapsto> v)"
  by (rule update_conv')

lemma dict_put_wf [simp, intro]: "dict_wf d \<Longrightarrow> dict_wf (dict_put k v d)"
  by (simp add: dict_wf_def distinct_update)

lemma dict_wf_Nil [simp]: "dict_wf []"
  by (simp add: dict_wf_def)

lemma dict_put_keys [simp]: "fst ` set (dict_put k v d) = insert k (fst ` set d)"
  using dom_update [of k v d] by simp

lemma dict_put_values: "(k', v') \<in> set (dict_put k v d) \<Longrightarrow> (k' = k \<and> v' = v) \<or> (k', v') \<in> set d"
  by (induction d) (auto split: if_splits)

lemma dict_merge_get: "map_of (dict_merge a b) = map_of a ++ map_of (rev b)"
proof (induction b arbitrary: a)
  case Nil
  then show ?case by (simp add: dict_merge_def)
next
  case (Cons p b)
  obtain k v where p: "p = (k, v)" by (cases p)
  have "map_of (dict_merge a (p # b)) = map_of (dict_merge (dict_put k v a) b)"
    by (simp add: dict_merge_def p)
  also have "\<dots> = map_of (dict_put k v a) ++ map_of (rev b)" by (rule Cons.IH)
  also have "\<dots> = map_of a ++ map_of (rev (p # b))"
    by (simp add: p map_add_def fun_eq_iff split: option.splits)
  finally show ?case .
qed

lemma dict_merge_wf: "dict_wf a \<Longrightarrow> dict_wf (dict_merge a b)"
proof (induction b arbitrary: a)
  case Nil
  then show ?case by (simp add: dict_merge_def)
next
  case (Cons p b)
  then show ?case
    by (cases p) (auto simp: dict_merge_def dict_put_wf)
qed

lemma dict_wf_lookup: "dict_wf d \<Longrightarrow> map_of d k = Some v \<longleftrightarrow> (k, v) \<in> set d"
  by (simp add: dict_wf_def)

subsection \<open>The state and exception monad\<close>

text \<open>
  A computation takes the state and returns an exception or a value, with the state it leaves
  behind: an exception does not undo the changes made before it.
\<close>

type_synonym ('s, 'e, 'a) sem = "'s \<Rightarrow> ('e + 'a) \<times> 's"

definition returnM :: "'a \<Rightarrow> ('s, 'e, 'a) sem" where
  "returnM x = (\<lambda>s. (Inr x, s))"

definition throwM :: "'e \<Rightarrow> ('s, 'e, 'a) sem" where
  "throwM e = (\<lambda>s. (Inl e, s))"

definition bindM :: "('s, 'e, 'a) sem \<Rightarrow> ('a \<Rightarrow> ('s, 'e, 'b) sem) \<Rightarrow> ('s, 'e, 'b) sem" where
  "bindM m f = (\<lambda>s. case m s of (Inl e, t) \<Rightarrow> (Inl e, t) | (Inr x, t) \<Rightarrow> f x t)"

definition getM :: "('s \<Rightarrow> 'a) \<Rightarrow> ('s, 'e, 'a) sem" where
  "getM f = (\<lambda>s. (Inr (f s), s))"

definition updM :: "('s \<Rightarrow> 's) \<Rightarrow> ('s, 'e, unit) sem" where
  "updM f = (\<lambda>s. (Inr (), f s))"

definition liftE :: "('x \<Rightarrow> 'e) \<Rightarrow> 'x + 'a \<Rightarrow> ('s, 'e, 'a) sem" where
  "liftE w r = (case r of Inl e \<Rightarrow> throwM (w e) | Inr x \<Rightarrow> returnM x)"

lemma returnM_app: "returnM x s = (Inr x, s)" by (simp add: returnM_def)
lemma throwM_app: "throwM e s = (Inl e, s)" by (simp add: throwM_def)
lemma getM_app: "getM f s = (Inr (f s), s)" by (simp add: getM_def)
lemma updM_app: "updM f s = (Inr (), f s)" by (simp add: updM_def)
lemma liftE_Inl [simp]: "liftE w (Inl e) = throwM (w e)" by (simp add: liftE_def)
lemma liftE_Inr [simp]: "liftE w (Inr x) = returnM x" by (simp add: liftE_def)

lemma liftE_snd [simp]: "snd (liftE w r s) = s"
  by (cases r) (simp_all add: returnM_app throwM_app)

lemma bindM_returnM [simp]: "bindM (returnM x) f = f x"
  by (simp add: bindM_def returnM_def)

lemma bindM_throwM [simp]: "bindM (throwM e) f = throwM e"
  by (simp add: bindM_def throwM_def)

lemma bindM_getM: "bindM (getM g) f s = f (g s) s"
  by (simp add: bindM_def getM_app)

lemma bindM_updM: "bindM (updM g) f s = f () (g s)"
  by (simp add: bindM_def updM_app)

text \<open>
  Evaluation of the primitive computations on a state.  The rules are not simp rules: they would
  also rewrite a computation that is not applied to a state.
\<close>

lemmas sem_simps = returnM_app throwM_app getM_app updM_app bindM_getM bindM_updM

lemma bindM_Inr: "m s = (Inr x, t) \<Longrightarrow> bindM m f s = f x t"
  by (simp add: bindM_def)

lemma bindM_Inl: "m s = (Inl e, t) \<Longrightarrow> bindM m f s = (Inl e, t)"
  by (simp add: bindM_def)

lemma bindM_Inr_iff:
  "bindM m f s = (Inr y, u) \<longleftrightarrow> (\<exists>x t. m s = (Inr x, t) \<and> f x t = (Inr y, u))"
  by (auto simp: bindM_def split: prod.splits sum.splits)

lemma bindM_InrE:
  "bindM m f s = (Inr y, u) \<Longrightarrow> (\<And>x t. m s = (Inr x, t) \<Longrightarrow> f x t = (Inr y, u) \<Longrightarrow> P) \<Longrightarrow> P"
  by (auto simp: bindM_Inr_iff)

lemma bindM_Inl_iff:
  "bindM m f s = (Inl e, u) \<longleftrightarrow>
     m s = (Inl e, u) \<or> (\<exists>x t. m s = (Inr x, t) \<and> f x t = (Inl e, u))"
  by (auto simp: bindM_def split: prod.splits sum.splits)

lemma bindM_cong [fundef_cong]:
  "m s = m' s' \<Longrightarrow> (\<And>x t. m' s' = (Inr x, t) \<Longrightarrow> f x t = g x t) \<Longrightarrow>
   bindM m f s = bindM m' g s'"
  by (auto simp: bindM_def split: prod.splits sum.splits)

text \<open>
  \<open>post Q E\<close> holds of the outcome of a computation when a returned value satisfies \<open>Q\<close> and an
  exception \<open>E\<close>, each together with the state that is left.  Its equations compute the weakest
  precondition of the primitive computations.
\<close>

definition post :: "('a \<Rightarrow> 's \<Rightarrow> bool) \<Rightarrow> ('e \<Rightarrow> 's \<Rightarrow> bool) \<Rightarrow> ('e + 'a) \<times> 's \<Rightarrow> bool" where
  "post Q E r = (case r of (Inl e, t) \<Rightarrow> E e t | (Inr x, t) \<Rightarrow> Q x t)"

lemma post_Inl [simp]: "post Q E (Inl e, t) = E e t" by (simp add: post_def)
lemma post_Inr [simp]: "post Q E (Inr x, t) = Q x t" by (simp add: post_def)

lemma post_returnM [simp]: "post Q E (returnM x s) = Q x s" by (simp add: returnM_app)
lemma post_throwM [simp]: "post Q E (throwM e s) = E e s" by (simp add: throwM_app)
lemma post_getM [simp]: "post Q E (getM f s) = Q (f s) s" by (simp add: getM_app)
lemma post_updM [simp]: "post Q E (updM f s) = Q () (f s)" by (simp add: updM_app)

lemma post_liftE: "post Q E (liftE w r s) = (case r of Inl e \<Rightarrow> E (w e) s | Inr x \<Rightarrow> Q x s)"
  by (cases r) simp_all

lemma post_bindM [simp]: "post Q E (bindM m f s) = post (\<lambda>x t. post Q E (f x t)) E (m s)"
  by (auto simp: post_def bindM_def split: prod.splits sum.splits)

lemma post_mono:
  "post P F r \<Longrightarrow> (\<And>x t. P x t \<Longrightarrow> Q x t) \<Longrightarrow> (\<And>e t. F e t \<Longrightarrow> E e t) \<Longrightarrow> post Q E r"
  by (auto simp: post_def split: prod.splits sum.splits)

lemma post_conj: "post P E r \<Longrightarrow> post Q F r \<Longrightarrow> post (\<lambda>x t. P x t \<and> Q x t) (\<lambda>e t. E e t \<and> F e t) r"
  by (auto simp: post_def split: prod.splits sum.splits)

lemma post_bindI:
  "post P E (m s) \<Longrightarrow> (\<And>x t. P x t \<Longrightarrow> post Q E (f x t)) \<Longrightarrow> post Q E (bindM m f s)"
  by (simp add: post_mono)

lemma postD_Inr: "post Q E r \<Longrightarrow> r = (Inr x, t) \<Longrightarrow> Q x t" by simp
lemma postD_Inl: "post Q E r \<Longrightarrow> r = (Inl e, t) \<Longrightarrow> E e t" by simp

text \<open>
  What a computation does to the state, whatever it returns.  A relation that is reflexive and
  transitive is kept by a composition when every part keeps it.
\<close>

locale state_preorder =
  fixes R :: "'s \<Rightarrow> 's \<Rightarrow> bool"
  assumes R_refl: "R s s"
    and R_trans: "R s t \<Longrightarrow> R t u \<Longrightarrow> R s u"
begin

definition keeps :: "('s, 'e, 'a) sem \<Rightarrow> bool" where
  "keeps m \<longleftrightarrow> (\<forall>s. R s (snd (m s)))"

lemma keepsI: "(\<And>s. R s (snd (m s))) \<Longrightarrow> keeps m"
  by (simp add: keeps_def)

lemma keepsD: "keeps m \<Longrightarrow> m s = (r, t) \<Longrightarrow> R s t"
  by (metis keeps_def snd_conv)

lemma keeps_post: "keeps m \<Longrightarrow> post (\<lambda>_ t. R s t) (\<lambda>_ t. R s t) (m s)"
  by (auto simp: keeps_def post_def split: prod.splits sum.splits) (metis snd_conv)+

lemma keeps_returnM: "keeps (returnM x)"
  by (simp add: keeps_def R_refl returnM_app)

lemma keeps_throwM: "keeps (throwM e)"
  by (simp add: keeps_def R_refl throwM_app)

lemma keeps_getM: "keeps (getM g)"
  by (simp add: keeps_def R_refl getM_app)

lemma keeps_liftE: "keeps (liftE w r)"
  by (simp add: keeps_def R_refl)

lemma keeps_updM: "(\<And>s. R s (f s)) \<Longrightarrow> keeps (updM f)"
  by (simp add: keeps_def updM_app)

lemma keeps_bindM: "keeps m \<Longrightarrow> (\<And>x. keeps (f x)) \<Longrightarrow> keeps (bindM m f)"
proof (rule keepsI)
  fix s
  assume m: "keeps m" and f: "\<And>x. keeps (f x)"
  obtain r t where ms: "m s = (r, t)" by fastforce
  show "R s (snd (bindM m f s))"
  proof (cases r)
    case (Inl e)
    then show ?thesis using keepsD [OF m ms] ms by (simp add: bindM_Inl)
  next
    case (Inr x)
    then have "bindM m f s = f x t" using ms by (simp add: bindM_Inr)
    moreover have "R t (snd (f x t))" using f by (simp add: keeps_def)
    ultimately show ?thesis using keepsD [OF m ms] R_trans by simp
  qed
qed

lemma keeps_if: "(b \<Longrightarrow> keeps m) \<Longrightarrow> (\<not> b \<Longrightarrow> keeps n) \<Longrightarrow> keeps (if b then m else n)"
  by simp

lemmas keeps_intros =
  keeps_returnM keeps_throwM keeps_getM keeps_liftE keeps_bindM keeps_if

end

text \<open>Any field the computations leave alone gives such a relation.\<close>

lemma state_preorder_field: "state_preorder (\<lambda>s t. f t = f s)"
  by unfold_locales auto

lemma state_preorder_prefix: "state_preorder (\<lambda>s t. \<exists>xs. f t = f s @ xs)"
  by (unfold_locales, simp, metis append_assoc)

end
