(* ===== verification/WF_Contracts.thy ===== *)
theory WF_Contracts
  imports Prelude
begin

text \<open>
  \<^verbatim>\<open>vidbyte/workflows/contracts.py\<close>: the value types the workflow components
  exchange.  A frozen dataclass is a record; its \<^verbatim>\<open>__post_init__\<close> is a
  constructor \<open>mk_C\<close> that takes the Python arguments and returns the exception it raises or the
  normalised record.  Measured durations and time stamps are left out of the records.
  The lemmas say what a constructed value satisfies and that every rejected argument is
  rejected.
\<close>

subsection \<open>Enumerations\<close>

datatype ValidationPhase = STAGE | TRANSITION

datatype ValidationStatus = PASS | REJECT | ABSTAIN | ERROR

datatype ValidatorErrorPolicy = FAIL_CLOSED | FAIL_OPEN | RAISE

datatype MachineStatus = SUCCEEDED | FAILED

datatype WorkflowEventType =
    RUN_STARTED | STAGE_STARTED | STAGE_FINISHED | VALIDATION_FINISHED | TRANSITION_SELECTED
  | TRANSITION_REJECTED | STATE_COMMITTED | RUN_FINISHED | RUN_FAILED

fun phase_value :: "ValidationPhase \<Rightarrow> string" where
  "phase_value STAGE = ''stage''"
| "phase_value TRANSITION = ''transition''"

fun status_value :: "ValidationStatus \<Rightarrow> string" where
  "status_value PASS = ''pass''"
| "status_value REJECT = ''reject''"
| "status_value ABSTAIN = ''abstain''"
| "status_value ERROR = ''error''"

fun machine_status_value :: "MachineStatus \<Rightarrow> string" where
  "machine_status_value SUCCEEDED = ''succeeded''"
| "machine_status_value FAILED = ''failed''"

text \<open>\<open>ValidationStatus(v)\<close> and its kin: the member with that value, or ValueError.\<close>

definition ValidationStatus_of :: "pyval \<Rightarrow> exn + ValidationStatus" where
  "ValidationStatus_of v =
     (if v = VStr ''pass'' then Inr PASS
      else if v = VStr ''reject'' then Inr REJECT
      else if v = VStr ''abstain'' then Inr ABSTAIN
      else if v = VStr ''error'' then Inr ERROR
      else Inl (ValueError ''not a valid ValidationStatus''))"

definition ValidatorErrorPolicy_of :: "pyval \<Rightarrow> exn + ValidatorErrorPolicy" where
  "ValidatorErrorPolicy_of v =
     (if v = VStr ''fail_closed'' then Inr FAIL_CLOSED
      else if v = VStr ''fail_open'' then Inr FAIL_OPEN
      else if v = VStr ''raise'' then Inr RAISE
      else Inl (ValueError ''not a valid ValidatorErrorPolicy''))"

definition MachineStatus_of :: "pyval \<Rightarrow> exn + MachineStatus" where
  "MachineStatus_of v =
     (if v = VStr ''succeeded'' then Inr SUCCEEDED
      else if v = VStr ''failed'' then Inr FAILED
      else Inl (ValueError ''not a valid MachineStatus''))"

text \<open>An argument that may already be a member: \<open>x if isinstance(x, E) else E(x)\<close>.\<close>

definition coerce_member :: "(pyval \<Rightarrow> exn + 'e) \<Rightarrow> pyval + 'e \<Rightarrow> exn + 'e" where
  "coerce_member of_value v = (case v of Inr m \<Rightarrow> Inr m | Inl raw \<Rightarrow> of_value raw)"

lemma ValidationStatus_roundtrip: "ValidationStatus_of (VStr (status_value s)) = Inr s"
  by (cases s) (simp_all add: ValidationStatus_of_def)

lemma MachineStatus_roundtrip: "MachineStatus_of (VStr (machine_status_value s)) = Inr s"
  by (cases s) (simp_all add: MachineStatus_of_def)

subsection \<open>Identifiers and mappings\<close>

definition required_text :: "pyval \<Rightarrow> string \<Rightarrow> exn + string" where
  "required_text value field_name =
     text_or (TypeError (field_name @ '' must be a string.''))
             (ValueError (field_name @ '' cannot be empty.'')) value"

definition freeze_mapping :: "pyval \<Rightarrow> exn + dict" where
  "freeze_mapping v =
     (case v of
        VDict d \<Rightarrow> Inr d
      | VNone \<Rightarrow> Inr []
      | _ \<Rightarrow> Inl (TypeError ''Workflow mapping fields require Mapping values.''))"

lemma required_text_Inr: "required_text v f = Inr t \<Longrightarrow> t \<noteq> [] \<and> strip t = t"
  unfolding required_text_def by (rule text_or_Inr)

lemma required_text_normal [simp]:
  "t \<noteq> [] \<Longrightarrow> strip t = t \<Longrightarrow> required_text (VStr t) f = Inr t"
  unfolding required_text_def by (rule text_or_normal)

lemma freeze_mapping_dict [simp]: "freeze_mapping (VDict d) = Inr d"
  by (simp add: freeze_mapping_def)

subsection \<open>Policies\<close>

record RetryPolicy =
  max_attempts :: int
  delay_seconds :: rat
  backoff_multiplier :: rat
  retry_for :: "string list"

text \<open>\<open>tuple(v)\<close> for the iterables of the model.\<close>

definition py_iter :: "pyval \<Rightarrow> pyval list option" where
  "py_iter v =
     (case v of
        VList xs \<Rightarrow> Some xs
      | VStr s \<Rightarrow> Some (map (\<lambda>c. VStr [c]) s)
      | VDict d \<Rightarrow> Some (map (VStr \<circ> fst) d)
      | _ \<Rightarrow> None)"

definition exception_class :: "pyval \<Rightarrow> string option" where
  "exception_class v =
     (case v of
        VType name bases \<Rightarrow>
          (if name = ''Exception'' \<or> List.member bases ''Exception'' then Some name else None)
      | _ \<Rightarrow> None)"

definition retry_classes :: "pyval \<Rightarrow> exn + string list" where
  "retry_classes v =
     (case py_iter v of
        None \<Rightarrow> Inl (ValueError ''RetryPolicy.retry_for must contain one or more Exception subclasses.'')
      | Some xs \<Rightarrow>
          (if xs = [] \<or> list_ex (\<lambda>x. exception_class x = None) xs
           then Inl (ValueError ''RetryPolicy.retry_for must contain one or more Exception subclasses.'')
           else Inr (map (\<lambda>x. the (exception_class x)) xs)))"

definition mk_RetryPolicy :: "pyval \<Rightarrow> pyval \<Rightarrow> pyval \<Rightarrow> pyval \<Rightarrow> exn + RetryPolicy" where
  "mk_RetryPolicy attempts delay mult classes =
     (case plain_int attempts of
        None \<Rightarrow> Inl (ValueError ''RetryPolicy.max_attempts must be an integer greater than zero.'')
      | Some n \<Rightarrow>
     if n \<le> 0 then Inl (ValueError ''RetryPolicy.max_attempts must be an integer greater than zero.'')
     else bindE (finite_number delay) (\<lambda>d. case d of
        None \<Rightarrow> Inl (ValueError ''RetryPolicy.delay_seconds must be a finite non-negative number.'')
      | Some ds \<Rightarrow>
     if ds < 0 then Inl (ValueError ''RetryPolicy.delay_seconds must be a finite non-negative number.'')
     else bindE (finite_number mult) (\<lambda>b. case b of
        None \<Rightarrow> Inl (ValueError ''RetryPolicy.backoff_multiplier must be a finite number greater than zero.'')
      | Some bm \<Rightarrow>
     if bm \<le> 0 then Inl (ValueError ''RetryPolicy.backoff_multiplier must be a finite number greater than zero.'')
     else bindE (retry_classes classes) (\<lambda>cs.
       Inr \<lparr>max_attempts = n, delay_seconds = ds, backoff_multiplier = bm, retry_for = cs\<rparr>))))"

definition retry_policy_wf :: "RetryPolicy \<Rightarrow> bool" where
  "retry_policy_wf p \<longleftrightarrow>
     0 < max_attempts p \<and> 0 \<le> delay_seconds p \<and> 0 < backoff_multiplier p \<and> retry_for p \<noteq> []"

definition default_RetryPolicy :: RetryPolicy where
  "default_RetryPolicy =
     \<lparr>max_attempts = 1, delay_seconds = 0, backoff_multiplier = 1, retry_for = [''Exception'']\<rparr>"

record StagePolicy =
  retry :: RetryPolicy
  stage_timeout :: "rat option"
  error_outcome :: "string option"

text \<open>An optional timeout: \<open>None\<close>, or a finite number greater than zero.\<close>

definition optional_timeout :: "string \<Rightarrow> pyval \<Rightarrow> exn + rat option" where
  "optional_timeout msg v =
     (if v = VNone then Inr None
      else bindE (finite_number v) (\<lambda>r. case r of
             None \<Rightarrow> Inl (ValueError msg)
           | Some x \<Rightarrow> if x \<le> 0 then Inl (ValueError msg) else Inr (Some x)))"

definition mk_StagePolicy :: "pyval + RetryPolicy \<Rightarrow> pyval \<Rightarrow> pyval \<Rightarrow> exn + StagePolicy" where
  "mk_StagePolicy retry_arg timeout outcome =
     (case retry_arg of
        Inl _ \<Rightarrow> Inl (TypeError ''StagePolicy.retry must be a RetryPolicy instance.'')
      | Inr r \<Rightarrow>
     bindE (optional_timeout
              ''StagePolicy.timeout_seconds must be a finite number greater than zero when provided.''
              timeout) (\<lambda>t.
     if outcome = VNone then Inr \<lparr>retry = r, stage_timeout = t, error_outcome = None\<rparr>
     else bindE (text_or (TypeError ''StagePolicy.error_outcome must be a string when provided.'')
                         (ValueError ''StagePolicy.error_outcome cannot be empty when provided.'')
                         outcome) (\<lambda>o'.
       Inr \<lparr>retry = r, stage_timeout = t, error_outcome = Some o'\<rparr>)))"

definition default_StagePolicy :: StagePolicy where
  "default_StagePolicy = \<lparr>retry = default_RetryPolicy, stage_timeout = None, error_outcome = None\<rparr>"

record StateMachineSettings =
  max_transitions :: int
  run_timeout :: "rat option"
  validator_error_policy :: ValidatorErrorPolicy
  validation_error_outcome :: string
  record_state_snapshots :: bool

definition mk_StateMachineSettings ::
  "pyval \<Rightarrow> pyval \<Rightarrow> pyval + ValidatorErrorPolicy \<Rightarrow> pyval \<Rightarrow> pyval \<Rightarrow> exn + StateMachineSettings" where
  "mk_StateMachineSettings transitions timeout policy outcome snapshots =
     (case plain_int transitions of
        None \<Rightarrow> Inl (ValueError ''StateMachineSettings.max_transitions must be an integer greater than zero.'')
      | Some n \<Rightarrow>
     if n \<le> 0 then Inl (ValueError ''StateMachineSettings.max_transitions must be an integer greater than zero.'')
     else bindE (optional_timeout
                   ''StateMachineSettings.timeout_seconds must be a finite number greater than zero when provided.''
                   timeout) (\<lambda>t.
     case snapshots of
        VBool b \<Rightarrow>
          bindE (coerce_member ValidatorErrorPolicy_of policy) (\<lambda>p.
          bindE (text_or (TypeError ''StateMachineSettings.validation_error_outcome must be a string.'')
                         (ValueError ''StateMachineSettings.validation_error_outcome cannot be empty.'')
                         outcome) (\<lambda>out.
          Inr \<lparr>max_transitions = n, run_timeout = t, validator_error_policy = p,
               validation_error_outcome = out, record_state_snapshots = b\<rparr>))
      | _ \<Rightarrow> Inl (TypeError ''StateMachineSettings.record_state_snapshots must be a boolean.'')))"

definition settings_wf :: "StateMachineSettings \<Rightarrow> bool" where
  "settings_wf s \<longleftrightarrow> 0 < max_transitions s \<and> validation_error_outcome s \<noteq> [] \<and>
     strip (validation_error_outcome s) = validation_error_outcome s"

definition default_settings :: StateMachineSettings where
  "default_settings =
     \<lparr>max_transitions = 100, run_timeout = None, validator_error_policy = FAIL_CLOSED,
      validation_error_outcome = ''validation_error'', record_state_snapshots = False\<rparr>"

lemma mk_RetryPolicy_wf: "mk_RetryPolicy a d m c = Inr p \<Longrightarrow> retry_policy_wf p"
  by (auto simp: mk_RetryPolicy_def retry_policy_wf_def retry_classes_def elim!: bindE_InrE
           split: option.splits if_splits)

lemma mk_RetryPolicy_exception_classes:
  assumes "mk_RetryPolicy a d m c = Inr p" and "k \<in> set (retry_for p)"
  shows "\<exists>bases. exception_class (VType k bases) = Some k"
proof -
  from assms(1) obtain xs where xs: "\<not> list_ex (\<lambda>x. exception_class x = None) xs"
    and p: "retry_for p = map (\<lambda>x. the (exception_class x)) xs"
    by (auto simp: mk_RetryPolicy_def retry_classes_def elim!: bindE_InrE
             split: option.splits if_splits)
  from p assms(2) obtain x where x: "x \<in> set xs" and k: "k = the (exception_class x)" by auto
  from xs x have "exception_class x \<noteq> None" by (auto simp: list_ex_iff)
  then show ?thesis using k
    by (auto simp: exception_class_def split: pyval.splits if_splits)
qed

lemma mk_StageMachineSettings_wf: "mk_StateMachineSettings n t p out b = Inr s \<Longrightarrow> settings_wf s"
  by (auto simp: mk_StateMachineSettings_def settings_wf_def elim!: bindE_InrE dest!: text_or_Inr
           split: option.splits if_splits pyval.splits)

lemma mk_StagePolicy_outcome:
  "mk_StagePolicy r t out = Inr p \<Longrightarrow> error_outcome p = Some c \<Longrightarrow> c \<noteq> [] \<and> strip c = c"
  by (auto simp: mk_StagePolicy_def elim!: bindE_InrE dest!: text_or_Inr
           split: sum.splits if_splits)

lemma mk_StagePolicy_retry:
  "mk_StagePolicy (Inr r) t out = Inr p \<Longrightarrow> retry p = r"
  by (auto simp: mk_StagePolicy_def elim!: bindE_InrE split: if_splits)


subsection \<open>Feedback, stage results and gate decisions\<close>

record WorkflowFeedback =
  fb_kind :: string
  fb_source :: string
  fb_code :: string
  fb_message :: string
  fb_details :: dict

definition mk_WorkflowFeedback ::
  "pyval \<Rightarrow> pyval \<Rightarrow> pyval \<Rightarrow> pyval \<Rightarrow> pyval \<Rightarrow> exn + WorkflowFeedback" where
  "mk_WorkflowFeedback kind source code message details =
     bindE (required_text kind ''WorkflowFeedback.kind'') (\<lambda>k.
     bindE (required_text source ''WorkflowFeedback.source'') (\<lambda>s.
     bindE (required_text code ''WorkflowFeedback.code'') (\<lambda>c.
     case message of
       VStr m \<Rightarrow> bindE (freeze_mapping details) (\<lambda>d.
         Inr \<lparr>fb_kind = k, fb_source = s, fb_code = c, fb_message = strip m, fb_details = d\<rparr>)
     | _ \<Rightarrow> Inl (TypeError ''WorkflowFeedback.message must be a string.''))))"

record 'v StageResult =
  sr_state :: 'v
  sr_outcome :: string
  sr_metadata :: dict

definition mk_StageResult :: "'v \<Rightarrow> pyval \<Rightarrow> pyval \<Rightarrow> exn + 'v StageResult" where
  "mk_StageResult state outcome metadata =
     bindE (required_text outcome ''StageResult.outcome'') (\<lambda>o'.
     bindE (freeze_mapping metadata) (\<lambda>m.
     Inr \<lparr>sr_state = state, sr_outcome = o', sr_metadata = m\<rparr>))"

record ValidationResult =
  vr_status :: ValidationStatus
  vr_code :: string
  vr_feedback :: string
  vr_score :: "rat option"
  vr_details :: dict

definition score_error :: exn where
  "score_error = ValueError
     ''ValidationResult.score must be a finite number between 0.0 and 1.0 when provided.''"

definition unit_score :: "pyval \<Rightarrow> exn + rat option" where
  "unit_score v =
     (if v = VNone then Inr None
      else bindE (finite_number v) (\<lambda>r. case r of
             None \<Rightarrow> Inl score_error
           | Some x \<Rightarrow> if 0 \<le> x \<and> x \<le> 1 then Inr (Some x) else Inl score_error))"

definition mk_ValidationResult ::
  "pyval + ValidationStatus \<Rightarrow> pyval \<Rightarrow> pyval \<Rightarrow> pyval \<Rightarrow> pyval \<Rightarrow> exn + ValidationResult" where
  "mk_ValidationResult status_arg code feedback score details =
     bindE (coerce_member ValidationStatus_of status_arg) (\<lambda>status.
     case (code, feedback) of
       (VStr c, VStr f) \<Rightarrow>
         bindE (unit_score score) (\<lambda>sc.
         bindE (freeze_mapping details) (\<lambda>d.
         Inr \<lparr>vr_status = status,
              vr_code = (if strip c = [] then status_value status else strip c),
              vr_feedback = strip f, vr_score = sc, vr_details = d\<rparr>))
     | _ \<Rightarrow> Inl (TypeError ''ValidationResult.code and feedback must be strings.''))"

definition score_value :: "rat option \<Rightarrow> pyval" where
  "score_value sc = (case sc of None \<Rightarrow> VNone | Some x \<Rightarrow> VFloat (Fin x))"

text \<open>The class methods, on the typed arguments the workflow code passes them.\<close>

definition vr_passed :: "string \<Rightarrow> string \<Rightarrow> rat option \<Rightarrow> dict \<Rightarrow> exn + ValidationResult" where
  "vr_passed code feedback score details =
     mk_ValidationResult (Inr PASS) (VStr code) (VStr feedback) (score_value score) (VDict details)"

definition vr_rejected :: "string \<Rightarrow> string \<Rightarrow> rat option \<Rightarrow> dict \<Rightarrow> exn + ValidationResult" where
  "vr_rejected code feedback score details =
     mk_ValidationResult (Inr REJECT) (VStr code) (VStr feedback) (score_value score) (VDict details)"

definition vr_abstained :: "string \<Rightarrow> string \<Rightarrow> dict \<Rightarrow> exn + ValidationResult" where
  "vr_abstained code feedback details =
     mk_ValidationResult (Inr ABSTAIN) (VStr code) (VStr feedback) VNone (VDict details)"

definition vr_errored :: "string \<Rightarrow> string \<Rightarrow> dict \<Rightarrow> exn + ValidationResult" where
  "vr_errored code feedback details =
     mk_ValidationResult (Inr ERROR) (VStr code) (VStr feedback) VNone (VDict details)"

text \<open>What every constructed decision satisfies.\<close>

definition vr_wf :: "ValidationResult \<Rightarrow> bool" where
  "vr_wf r \<longleftrightarrow> vr_code r \<noteq> [] \<and> strip (vr_code r) = vr_code r \<and> strip (vr_feedback r) = vr_feedback r \<and>
     (case vr_score r of None \<Rightarrow> True | Some x \<Rightarrow> 0 \<le> x \<and> x \<le> 1)"

definition sr_wf :: "'v StageResult \<Rightarrow> bool" where
  "sr_wf r \<longleftrightarrow> sr_outcome r \<noteq> [] \<and> strip (sr_outcome r) = sr_outcome r"

lemma finite_number_fin [simp]: "finite_number (VFloat (Fin r)) = Inr (Some r)"
  by (simp add: finite_number_def)

lemma status_value_normal [simp]:
  "status_value s \<noteq> []" "strip (status_value s) = status_value s"
  by (cases s; simp add: strip_def is_space_def)+

lemma unit_score_Inr:
  "unit_score v = Inr sc \<Longrightarrow> case sc of None \<Rightarrow> True | Some x \<Rightarrow> 0 \<le> x \<and> x \<le> 1"
  by (auto simp: unit_score_def elim!: bindE_InrE split: if_splits option.splits)

lemma mk_ValidationResult_wf: "mk_ValidationResult s c f sc d = Inr r \<Longrightarrow> vr_wf r"
  by (auto simp: mk_ValidationResult_def vr_wf_def elim!: bindE_InrE dest!: unit_score_Inr
           split: pyval.splits if_splits)

lemma mk_ValidationResult_status: "mk_ValidationResult (Inr s) c f sc d = Inr r \<Longrightarrow> vr_status r = s"
  by (auto simp: mk_ValidationResult_def coerce_member_def elim!: bindE_InrE split: pyval.splits)

lemma unit_score_value [simp]:
  "(case sc of None \<Rightarrow> True | Some x \<Rightarrow> 0 \<le> x \<and> x \<le> 1) \<Longrightarrow> unit_score (score_value sc) = Inr sc"
  by (auto simp: unit_score_def score_value_def split: option.splits)

lemma mk_ValidationResult_typed:
  "(case sc of None \<Rightarrow> True | Some x \<Rightarrow> 0 \<le> x \<and> x \<le> 1) \<Longrightarrow>
   mk_ValidationResult (Inr s) (VStr c) (VStr f) (score_value sc) (VDict d) =
     Inr \<lparr>vr_status = s, vr_code = (if strip c = [] then status_value s else strip c),
          vr_feedback = strip f, vr_score = sc, vr_details = d\<rparr>"
  by (simp add: mk_ValidationResult_def coerce_member_def)

text \<open>Rebuilding a constructed decision from its own fields gives it back.\<close>

lemma mk_ValidationResult_rebuild:
  "vr_wf r \<Longrightarrow>
   mk_ValidationResult (Inr (vr_status r)) (VStr (vr_code r)) (VStr (vr_feedback r))
     (score_value (vr_score r)) (VDict d) = Inr (r\<lparr>vr_details := d\<rparr>)"
  by (simp add: mk_ValidationResult_typed vr_wf_def)

lemma vr_errored_typed:
  "vr_errored c f d = Inr \<lparr>vr_status = ERROR, vr_code = (if strip c = [] then ''error'' else strip c),
     vr_feedback = strip f, vr_score = None, vr_details = d\<rparr>"
  using mk_ValidationResult_typed [of None ERROR c f d] by (simp add: vr_errored_def score_value_def)

lemma vr_abstained_typed:
  "vr_abstained c f d = Inr \<lparr>vr_status = ABSTAIN, vr_code = (if strip c = [] then ''abstain'' else strip c),
     vr_feedback = strip f, vr_score = None, vr_details = d\<rparr>"
  using mk_ValidationResult_typed [of None ABSTAIN c f d] by (simp add: vr_abstained_def score_value_def)

lemma mk_StageResult_wf: "mk_StageResult v o' m = Inr r \<Longrightarrow> sr_wf r \<and> sr_state r = v"
  by (auto simp: mk_StageResult_def sr_wf_def elim!: bindE_InrE dest!: required_text_Inr)

lemma mk_StageResult_rebuild:
  "sr_wf r \<Longrightarrow> mk_StageResult v (VStr (sr_outcome r)) (VDict (sr_metadata r)) = Inr (r\<lparr>sr_state := v\<rparr>)"
  by (simp add: mk_StageResult_def sr_wf_def)

subsection \<open>Callback contexts and evidence\<close>

record ValidationRecord =
  vrec_phase :: ValidationPhase
  vrec_validator :: string
  vrec_result :: ValidationResult
  vrec_target :: "string option"

record 'v StageExecution =
  se_stage :: string
  se_visit :: int
  se_attempt :: int
  se_outcome :: "string option"
  se_accepted :: bool
  se_metadata :: dict
  se_validations :: "ValidationRecord list"
  se_error_type :: "string option"
  se_error_message :: "string option"
  se_state_before :: "'v option"
  se_candidate_state :: "'v option"

record TransitionRecord =
  tr_sequence :: int
  tr_source :: string
  tr_target :: string
  tr_outcome :: string
  tr_accepted :: bool
  tr_trigger :: string
  tr_validations :: "ValidationRecord list"

record WorkflowEvent =
  ev_sequence :: int
  ev_type :: WorkflowEventType
  ev_run_id :: string
  ev_stage :: "string option"
  ev_payload :: dict

text \<open>
  The callback contexts.  The ledger a context carries is the shared mutable mapping of the run:
  it belongs to the world that is threaded through every callback, not to the context.
\<close>

record 'v StageContext =
  sc_run_id :: string
  sc_stage :: string
  sc_state :: 'v
  sc_visit :: int
  sc_attempt :: int
  sc_transition_count :: int
  sc_feedback :: "WorkflowFeedback list"
  sc_history :: "'v StageExecution list"
  sc_metadata :: dict

record 'v ValidationContext =
  vc_run_id :: string
  vc_phase :: ValidationPhase
  vc_stage :: string
  vc_state_before :: 'v
  vc_candidate_state :: 'v
  vc_stage_result :: "'v StageResult"
  vc_outcome :: string
  vc_target :: "string option"
  vc_feedback :: "WorkflowFeedback list"
  vc_metadata :: dict

record 'v RoutingContext =
  rc_run_id :: string
  rc_stage :: string
  rc_candidate_state :: 'v
  rc_stage_result :: "'v StageResult"
  rc_feedback :: "WorkflowFeedback list"
  rc_metadata :: dict

definition mk_StageContext ::
  "pyval \<Rightarrow> pyval \<Rightarrow> 'v \<Rightarrow> int \<Rightarrow> int \<Rightarrow> int \<Rightarrow> WorkflowFeedback list \<Rightarrow> 'v StageExecution list \<Rightarrow> pyval
   \<Rightarrow> exn + 'v StageContext" where
  "mk_StageContext run_id stage state visit attempt count fbs history metadata =
     bindE (required_text run_id ''StageContext.run_id'') (\<lambda>r.
     bindE (required_text stage ''StageContext.stage'') (\<lambda>s.
     if visit \<le> 0 \<or> attempt \<le> 0 \<or> count < 0
     then Inl (ValueError ''StageContext visit/attempt must be positive and transition_count cannot be negative.'')
     else bindE (freeze_mapping metadata) (\<lambda>m.
       Inr \<lparr>sc_run_id = r, sc_stage = s, sc_state = state, sc_visit = visit, sc_attempt = attempt,
            sc_transition_count = count, sc_feedback = fbs, sc_history = history, sc_metadata = m\<rparr>)))"

definition mk_ValidationContext ::
  "pyval \<Rightarrow> ValidationPhase \<Rightarrow> pyval \<Rightarrow> 'v \<Rightarrow> 'v \<Rightarrow> 'v StageResult \<Rightarrow> pyval \<Rightarrow> string option
   \<Rightarrow> WorkflowFeedback list \<Rightarrow> pyval \<Rightarrow> exn + 'v ValidationContext" where
  "mk_ValidationContext run_id phase stage before candidate result outcome target fbs metadata =
     bindE (required_text run_id ''ValidationContext.run_id'') (\<lambda>r.
     bindE (required_text stage ''ValidationContext.stage'') (\<lambda>s.
     bindE (required_text outcome ''ValidationContext.outcome'') (\<lambda>out.
     bindE (freeze_mapping metadata) (\<lambda>m.
       Inr \<lparr>vc_run_id = r, vc_phase = phase, vc_stage = s, vc_state_before = before,
            vc_candidate_state = candidate, vc_stage_result = result, vc_outcome = out,
            vc_target = map_option strip target, vc_feedback = fbs, vc_metadata = m\<rparr>))))"

definition mk_RoutingContext ::
  "pyval \<Rightarrow> pyval \<Rightarrow> 'v \<Rightarrow> 'v StageResult \<Rightarrow> WorkflowFeedback list \<Rightarrow> pyval
   \<Rightarrow> exn + 'v RoutingContext" where
  "mk_RoutingContext run_id stage candidate result fbs metadata =
     bindE (required_text run_id ''RoutingContext.run_id'') (\<lambda>r.
     bindE (required_text stage ''RoutingContext.stage'') (\<lambda>s.
     bindE (freeze_mapping metadata) (\<lambda>m.
       Inr \<lparr>rc_run_id = r, rc_stage = s, rc_candidate_state = candidate, rc_stage_result = result,
            rc_feedback = fbs, rc_metadata = m\<rparr>)))"

text \<open>
  A user callback returns a value, returns a value of another type, raises an Exception, or
  lets a BaseException such as CancelledError through.
\<close>

datatype 'a outcome = Returned 'a | WrongType string | Raised exn | Interrupted exn

record ('w, 'v) Validator =
  v_type_name :: string
  v_name :: "exn + string" \<comment> \<open>\<open>str(validator.name)\<close>, or what reading it raises\<close>
  v_callable :: bool \<comment> \<open>has a callable validate\<close>
  v_validate :: "'v ValidationContext \<Rightarrow> 'w \<Rightarrow> ValidationResult outcome \<times> 'w"

text \<open>\<open>_validator_name\<close> of machine.py and of validation.py.\<close>

definition validator_name :: "('w, 'v) Validator \<Rightarrow> string" where
  "validator_name v =
     (case v_name v of
        Inl _ \<Rightarrow> v_type_name v
      | Inr n \<Rightarrow> if strip n = [] then v_type_name v else strip n)"

record 'v StateContract =
  sc_type_name :: string
  sc_validator :: "('v \<Rightarrow> exn + 'v) option" \<comment> \<open>state_validator, when given\<close>
  sc_adapter :: "('v \<Rightarrow> exn + 'v) option" \<comment> \<open>the Pydantic adapter of the type, when it can be built\<close>
  sc_isinstance :: "'v \<Rightarrow> bool" \<comment> \<open>\<open>isinstance(v, state_type)\<close>\<close>
  sc_cloner :: "'v \<Rightarrow> exn + 'v"

end
