(* ===== verification/WF_Graph.thy ===== *)
theory WF_Graph
  imports WF_Contracts
begin

text \<open>
  \<^verbatim>\<open>vidbyte/workflows/graph.py\<close>: the builder \<open>StateGraph\<close>, whose operations
  return the changed graph or the WorkflowDefinitionError they raise, and the compiler, whose
  checks run in the order of the code.  \<open>graph_ok\<close> states declaratively what a compiled
  graph must satisfy; the lemmas show that compilation succeeds exactly on such graphs, and that
  the breadth-first traversal computes the nodes reachable from the entry.
\<close>

definition definition_error :: "string \<Rightarrow> exn" where
  "definition_error msg =
     Exn ''WorkflowDefinitionError''
       [''WorkflowError'', ''VidbyteSdkError'', ''Exception'', ''BaseException''] msg"

definition graph_text :: "pyval \<Rightarrow> string \<Rightarrow> exn + string" where
  "graph_text value field_name =
     text_or (definition_error (''Workflow '' @ field_name @ '' must be a string.''))
             (definition_error (''Workflow '' @ field_name @ '' cannot be empty.'')) value"

subsection \<open>Declarations\<close>

record ('w, 'v) StageDefinition =
  sd_stage :: "'v StageContext \<Rightarrow> 'w \<Rightarrow> 'v StageResult outcome \<times> 'w"
  sd_validators :: "('w, 'v) Validator list"
  sd_policy :: StagePolicy

record ('w, 'v) DirectRoute =
  dr_target :: string
  dr_guards :: "('w, 'v) Validator list"

record ('w, 'v) Router =
  r_type_name :: string
  r_name :: "exn + string"
  r_callable :: bool
  r_route :: "'v RoutingContext \<Rightarrow> 'w \<Rightarrow> pyval outcome \<times> 'w"

datatype ('w, 'v) Route =
    Direct "('w, 'v) DirectRoute"
  | Branch "('w, 'v) Router" "(string \<times> ('w, 'v) DirectRoute) list"

record ('w, 'v) StateGraph =
  g_name :: string
  g_contract :: "'v StateContract"
  g_stages :: "(string \<times> ('w, 'v) StageDefinition) list"
  g_entry :: "string option"
  g_terminals :: "(string \<times> MachineStatus) list"
  g_routes :: "((string \<times> string) \<times> ('w, 'v) Route) list"

record ('w, 'v) CompiledGraph =
  cg_name :: string
  cg_contract :: "'v StateContract"
  cg_stages :: "(string \<times> ('w, 'v) StageDefinition) list"
  cg_entry :: string
  cg_terminals :: "(string \<times> MachineStatus) list"
  cg_routes :: "((string \<times> string) \<times> ('w, 'v) Route) list"
  cg_settings :: StateMachineSettings

definition contract_validate :: "'v StateContract \<Rightarrow> 'v \<Rightarrow> exn + 'v" where
  "contract_validate c value =
     bindE (case sc_validator c of
              Some f \<Rightarrow> f value
            | None \<Rightarrow> (case sc_adapter c of Some f \<Rightarrow> f value | None \<Rightarrow> Inr value))
       (\<lambda>resolved. if sc_isinstance c resolved then Inr resolved
         else Inl (TypeError (''Expected workflow state '' @ sc_type_name c @ ''.'')))"

definition new_StateGraph :: "pyval \<Rightarrow> 'v StateContract \<Rightarrow> exn + ('w, 'v) StateGraph" where
  "new_StateGraph name contract =
     bindE (graph_text name ''graph name'') (\<lambda>n.
     Inr \<lparr>g_name = n, g_contract = contract, g_stages = [], g_entry = None,
          g_terminals = [], g_routes = []\<rparr>)"

subsection \<open>The builder\<close>

definition assert_name_is_available :: "('w, 'v) StateGraph \<Rightarrow> string \<Rightarrow> exn + unit" where
  "assert_name_is_available g name =
     (if List.member (map fst (g_stages g)) name \<or> List.member (map fst (g_terminals g)) name
      then Inl (definition_error ''Workflow node names must be unique across stages and terminals.'')
      else Inr ())"

definition validated_guards :: "('w, 'v) Validator list \<Rightarrow> exn + ('w, 'v) Validator list" where
  "validated_guards validators =
     (if list_all v_callable validators then Inr validators
      else Inl (definition_error ''Workflow validators must provide a callable validate(context) method.''))"

text \<open>
  The stage argument is \<open>None\<close> when it has no callable run; the policy is not given, another
  object, or a StagePolicy.
\<close>

definition add_stage ::
  "pyval \<Rightarrow> ('v StageContext \<Rightarrow> 'w \<Rightarrow> 'v StageResult outcome \<times> 'w) option \<Rightarrow> ('w, 'v) Validator list
   \<Rightarrow> pyval + StagePolicy \<Rightarrow> ('w, 'v) StateGraph \<Rightarrow> exn + ('w, 'v) StateGraph" where
  "add_stage name stage validators policy g =
     bindE (graph_text name ''stage name'') (\<lambda>stage_name.
     bindE (assert_name_is_available g stage_name) (\<lambda>_.
     case stage of
       None \<Rightarrow> Inl (definition_error ''Workflow stage must provide a callable run(context) method.'')
     | Some run \<Rightarrow>
     bindE (validated_guards validators) (\<lambda>vs.
     bindE (case policy of
              Inr p \<Rightarrow> Inr p
            | Inl v \<Rightarrow> if v = VNone then Inr default_StagePolicy
                       else Inl (definition_error ''StateGraph.add_stage policy must be StagePolicy.''))
       (\<lambda>p.
     Inr (g\<lparr>g_stages := dict_put stage_name
            \<lparr>sd_stage = run, sd_validators = vs, sd_policy = p\<rparr> (g_stages g)\<rparr>)))))"

definition set_entry :: "pyval \<Rightarrow> ('w, 'v) StateGraph \<Rightarrow> exn + ('w, 'v) StateGraph" where
  "set_entry name g =
     bindE (graph_text name ''entry stage'') (\<lambda>n. Inr (g\<lparr>g_entry := Some n\<rparr>))"

definition add_terminal ::
  "pyval \<Rightarrow> pyval + MachineStatus \<Rightarrow> ('w, 'v) StateGraph \<Rightarrow> exn + ('w, 'v) StateGraph" where
  "add_terminal name status g =
     bindE (graph_text name ''terminal name'') (\<lambda>terminal.
     bindE (assert_name_is_available g terminal) (\<lambda>_.
     case coerce_member MachineStatus_of status of
       Inl _ \<Rightarrow> Inl (definition_error ''StateGraph terminal status must be 'succeeded' or 'failed'.'')
     | Inr st \<Rightarrow> Inr (g\<lparr>g_terminals := dict_put terminal st (g_terminals g)\<rparr>)))"

definition route_key :: "pyval \<Rightarrow> pyval \<Rightarrow> exn + string \<times> string" where
  "route_key source outcome =
     bindE (graph_text source ''route source'') (\<lambda>s.
     bindE (graph_text outcome ''route outcome'') (\<lambda>out. Inr (s, out)))"

definition assert_route_is_available ::
  "('w, 'v) StateGraph \<Rightarrow> string \<times> string \<Rightarrow> exn + unit" where
  "assert_route_is_available g key =
     (if List.member (map fst (g_routes g)) key
      then Inl (definition_error ''A source/outcome pair can have only one direct transition or branch.'')
      else Inr ())"

definition add_transition ::
  "pyval \<Rightarrow> pyval \<Rightarrow> pyval \<Rightarrow> ('w, 'v) Validator list \<Rightarrow> ('w, 'v) StateGraph
   \<Rightarrow> exn + ('w, 'v) StateGraph" where
  "add_transition source target on guards g =
     bindE (route_key source on) (\<lambda>key.
     bindE (assert_route_is_available g key) (\<lambda>_.
     bindE (graph_text target ''transition target'') (\<lambda>t.
     bindE (validated_guards guards) (\<lambda>gs.
     Inr (g\<lparr>g_routes := dict_put key (Direct \<lparr>dr_target = t, dr_guards = gs\<rparr>) (g_routes g)\<rparr>)))))"

text \<open>A branch destination is a RouteTarget, whose constructor has normalised it, or a bare value.\<close>

datatype ('w, 'v) BranchTarget = BareTarget pyval | GuardedTarget string "('w, 'v) Validator list"

definition mk_RouteTarget ::
  "pyval \<Rightarrow> ('w, 'v) Validator list \<Rightarrow> exn + ('w, 'v) BranchTarget" where
  "mk_RouteTarget target guards =
     bindE (required_text target ''RouteTarget.target'') (\<lambda>t. Inr (GuardedTarget t guards))"

definition normalize_route_target ::
  "('w, 'v) BranchTarget \<Rightarrow> exn + ('w, 'v) DirectRoute" where
  "normalize_route_target value =
     (case value of
        GuardedTarget t guards \<Rightarrow>
          bindE (validated_guards guards) (\<lambda>gs. Inr \<lparr>dr_target = t, dr_guards = gs\<rparr>)
      | BareTarget (VStr s) \<Rightarrow>
          bindE (graph_text (VStr s) ''branch target'') (\<lambda>t. Inr \<lparr>dr_target = t, dr_guards = []\<rparr>)
      | BareTarget _ \<Rightarrow>
          Inl (definition_error ''Branch targets must be stage names or RouteTarget values.''))"

fun normalize_branches ::
  "(pyval \<times> ('w, 'v) BranchTarget) list \<Rightarrow> (string \<times> ('w, 'v) DirectRoute) list
   \<Rightarrow> exn + (string \<times> ('w, 'v) DirectRoute) list" where
  "normalize_branches [] normalized = Inr normalized"
| "normalize_branches ((raw_branch, raw_target) # rest) normalized =
     bindE (graph_text raw_branch ''branch key'') (\<lambda>branch.
     if List.member (map fst normalized) branch
     then Inl (definition_error ''Normalized branch keys must be unique.'')
     else bindE (normalize_route_target raw_target) (\<lambda>r.
       normalize_branches rest (dict_put branch r normalized)))"

definition normalize_branch_routes ::
  "(pyval \<times> ('w, 'v) BranchTarget) list \<Rightarrow> exn + (string \<times> ('w, 'v) DirectRoute) list" where
  "normalize_branch_routes routes =
     (if routes = [] then Inl (definition_error ''StateGraph.add_branch requires at least one branch key.'')
      else normalize_branches routes [])"

definition add_branch ::
  "pyval \<Rightarrow> ('w, 'v) Router \<Rightarrow> (pyval \<times> ('w, 'v) BranchTarget) list option \<Rightarrow> pyval
   \<Rightarrow> ('w, 'v) StateGraph \<Rightarrow> exn + ('w, 'v) StateGraph" where
  "add_branch source router routes on g =
     bindE (route_key source on) (\<lambda>key.
     bindE (assert_route_is_available g key) (\<lambda>_.
     if \<not> r_callable router
     then Inl (definition_error ''Workflow router must provide a callable route(context) method.'')
     else case routes of
       None \<Rightarrow> Inl (definition_error ''StateGraph.add_branch routes must be a mapping of branch keys to targets.'')
     | Some rs \<Rightarrow>
     bindE (normalize_branch_routes rs) (\<lambda>normalized.
     Inr (g\<lparr>g_routes := dict_put key (Branch router normalized) (g_routes g)\<rparr>))))"

subsection \<open>The compiler\<close>

definition route_targets :: "('w, 'v) Route \<Rightarrow> string list" where
  "route_targets route =
     (case route of
        Direct d \<Rightarrow> [dr_target d]
      | Branch _ routes \<Rightarrow> map (dr_target \<circ> snd) routes)"

definition validate_required_nodes :: "('w, 'v) StateGraph \<Rightarrow> exn + unit" where
  "validate_required_nodes g =
     (if g_stages g = [] then Inl (definition_error ''StateGraph requires at least one stage before compile().'')
      else if (case g_entry g of None \<Rightarrow> True | Some e \<Rightarrow> \<not> List.member (map fst (g_stages g)) e)
      then Inl (definition_error ''StateGraph entry must name a declared stage.'')
      else if g_terminals g = [] then Inl (definition_error ''StateGraph requires at least one terminal before compile().'')
      else if filter (\<lambda>s. \<not> List.member (map (fst \<circ> fst) (g_routes g)) s) (map fst (g_stages g)) \<noteq> []
      then Inl (definition_error ''Every nonterminal stage requires at least one outgoing route.'')
      else Inr ())"

fun check_routes :: "string list \<Rightarrow> string list \<Rightarrow> ((string \<times> string) \<times> ('w, 'v) Route) list \<Rightarrow> exn + unit" where
  "check_routes stages known [] = Inr ()"
| "check_routes stages known (((source, outcome), route) # rest) =
     (if \<not> List.member stages source
      then Inl (definition_error ''Workflow route source must be a declared stage.'')
      else if list_ex (\<lambda>t. \<not> List.member known t) (route_targets route)
      then Inl (definition_error ''Workflow route target must be a declared stage or terminal.'')
      else check_routes stages known rest)"

definition validate_routes :: "('w, 'v) StateGraph \<Rightarrow> exn + unit" where
  "validate_routes g =
     check_routes (map fst (g_stages g)) (map fst (g_stages g) @ map fst (g_terminals g)) (g_routes g)"

fun check_recovery :: "(string \<times> string) list \<Rightarrow> (string \<times> ('w, 'v) StageDefinition) list \<Rightarrow> exn + unit" where
  "check_recovery keys [] = Inr ()"
| "check_recovery keys ((stage_name, d) # rest) =
     (case error_outcome (sd_policy d) of
        None \<Rightarrow> check_recovery keys rest
      | Some out \<Rightarrow>
          if List.member keys (stage_name, out) then check_recovery keys rest
          else Inl (definition_error ''StagePolicy.error_outcome requires a declared route from its stage.''))"

definition validate_stage_recovery_routes :: "('w, 'v) StateGraph \<Rightarrow> exn + unit" where
  "validate_stage_recovery_routes g = check_recovery (map fst (g_routes g)) (g_stages g)"

text \<open>\<open>adjacency.setdefault(source, []).extend(_route_targets(route))\<close> over the routes.\<close>

definition targets_of :: "(string \<times> string list) list \<Rightarrow> string \<Rightarrow> string list" where
  "targets_of adjacency node = (case map_of adjacency node of None \<Rightarrow> [] | Some ts \<Rightarrow> ts)"

definition adjacency_of :: "((string \<times> string) \<times> ('w, 'v) Route) list \<Rightarrow> (string \<times> string list) list" where
  "adjacency_of routes =
     foldl (\<lambda>adj ((source, _), route).
       dict_put source (targets_of adj source @ route_targets route) adj) [] routes"

text \<open>The traversal: the queue is a list taken from the front, the visited nodes a set.\<close>

function reach_loop :: "(string \<times> string list) list \<Rightarrow> string list \<Rightarrow> string set \<Rightarrow> string set" where
  "reach_loop adjacency [] reachable = reachable"
| "reach_loop adjacency (node # pending) reachable =
     (if node \<in> reachable then reach_loop adjacency pending reachable
      else let reachable' = insert node reachable
           in reach_loop adjacency
                (pending @ filter (\<lambda>t. t \<notin> reachable') (targets_of adjacency node)) reachable')"
  by pat_completeness auto
termination
proof (relation "measures [\<lambda>(adj, pending, seen). card (fst ` set adj - seen),
                           \<lambda>(adj, pending, seen). length pending]", goal_cases)
  case 1
  show ?case by simp
next
  case (2 adj node pending seen)
  then show ?case by simp
next
  case (3 adj node pending seen seen')
  show ?case
  proof (cases "node \<in> fst ` set adj")
    case True
    have "card (fst ` set adj - insert node seen) < card (fst ` set adj - seen)"
      by (rule psubset_card_mono) (use 3 True in auto)
    then show ?thesis using 3 by simp
  next
    case False
    then have "targets_of adj node = []"
      by (simp add: targets_of_def map_of_eq_None_iff [THEN iffD2])
    moreover have "fst ` set adj - insert node seen = fst ` set adj - seen" using False by auto
    ultimately show ?thesis using 3 by simp
  qed
qed

definition reachable_nodes :: "('w, 'v) StateGraph \<Rightarrow> string \<Rightarrow> string set" where
  "reachable_nodes g entry = reach_loop (adjacency_of (g_routes g)) [entry] {}"

definition entry_or_blank :: "('w, 'v) StateGraph \<Rightarrow> string" where
  "entry_or_blank g = (case g_entry g of None \<Rightarrow> [] | Some e \<Rightarrow> e)"

definition validate_reachability :: "('w, 'v) StateGraph \<Rightarrow> exn + unit" where
  "validate_reachability g =
     (let reachable = reachable_nodes g (entry_or_blank g) in
      if filter (\<lambda>s. s \<notin> reachable) (map fst (g_stages g)) \<noteq> []
      then Inl (definition_error ''Every declared stage must be reachable from the entry stage.'')
      else if filter (\<lambda>t. t \<in> reachable) (map fst (g_terminals g)) = []
      then Inl (definition_error ''At least one terminal must be reachable from the entry stage.'')
      else Inr ())"

definition compile_graph ::
  "pyval + StateMachineSettings \<Rightarrow> ('w, 'v) StateGraph \<Rightarrow> exn + ('w, 'v) CompiledGraph" where
  "compile_graph settings g =
     bindE (case settings of
              Inr s \<Rightarrow> Inr s
            | Inl v \<Rightarrow> if v = VNone then Inr default_settings
                       else Inl (definition_error ''StateGraph.compile settings must be StateMachineSettings.''))
       (\<lambda>s.
     bindE (validate_required_nodes g) (\<lambda>_.
     bindE (validate_routes g) (\<lambda>_.
     bindE (validate_stage_recovery_routes g) (\<lambda>_.
     bindE (validate_reachability g) (\<lambda>_.
     Inr \<lparr>cg_name = g_name g, cg_contract = g_contract g, cg_stages = g_stages g,
          cg_entry = entry_or_blank g, cg_terminals = g_terminals g, cg_routes = g_routes g,
          cg_settings = s\<rparr>)))))"


subsection \<open>The traversal computes reachability\<close>

definition graph_edges :: "('w, 'v) StateGraph \<Rightarrow> (string \<times> string) set" where
  "graph_edges g = {(s, t). \<exists>out r. ((s, out), r) \<in> set (g_routes g) \<and> t \<in> set (route_targets r)}"

lemma targets_of_put:
  "targets_of (dict_put k v adj) s = (if s = k then v else targets_of adj s)"
  by (simp add: targets_of_def)

lemma adjacency_fold:
  "t \<in> set (targets_of (foldl (\<lambda>adj ((source, _), route).
       dict_put source (targets_of adj source @ route_targets route) adj) adj0 routes) s) \<longleftrightarrow>
   t \<in> set (targets_of adj0 s) \<or> (\<exists>out r. ((s, out), r) \<in> set routes \<and> t \<in> set (route_targets r))"
proof (induction routes arbitrary: adj0)
  case Nil
  then show ?case by simp
next
  case (Cons x routes)
  obtain src out r where x: "x = ((src, out), r)" by (metis surj_pair)
  show ?case
    by (simp only: foldl_Cons x case_prod_conv Cons.IH targets_of_put) auto
qed

lemma adjacency_of_edges:
  "t \<in> set (targets_of (adjacency_of (g_routes g)) s) \<longleftrightarrow> (s, t) \<in> graph_edges g"
  unfolding adjacency_of_def adjacency_fold graph_edges_def by (simp add: targets_of_def)

lemma reach_loop_superset: "reachable \<union> set pending \<subseteq> reach_loop adj pending reachable"
  by (induction adj pending reachable rule: reach_loop.induct) (auto simp: Let_def)

lemma reach_loop_sound:
  assumes "\<And>s t. s \<in> R \<Longrightarrow> t \<in> set (targets_of adj s) \<Longrightarrow> t \<in> R"
  shows "reachable \<union> set pending \<subseteq> R \<Longrightarrow> reach_loop adj pending reachable \<subseteq> R"
  using assms
proof (induction adj pending reachable rule: reach_loop.induct)
  case (1 adj reachable)
  then show ?case by simp
next
  case (2 adj node pending reachable)
  show ?case
  proof (cases "node \<in> reachable")
    case True
    then show ?thesis using "2.IH"(1) [OF True] "2.prems" by simp
  next
    case False
    have "set (targets_of adj node) \<subseteq> R" using "2.prems" by auto
    then have "insert node reachable \<union>
        set (pending @ filter (\<lambda>t. t \<notin> insert node reachable) (targets_of adj node)) \<subseteq> R"
      using "2.prems"(1) by auto
    then show ?thesis using "2.IH"(2) [OF False refl] "2.prems"(2) False by (simp add: Let_def)
  qed
qed

lemma reach_loop_closed:
  "(\<And>s. s \<in> reachable \<Longrightarrow> set (targets_of adj s) \<subseteq> reachable \<union> set pending) \<Longrightarrow>
   s \<in> reach_loop adj pending reachable \<Longrightarrow>
   set (targets_of adj s) \<subseteq> reach_loop adj pending reachable"
proof (induction adj pending reachable arbitrary: s rule: reach_loop.induct)
  case (1 adj reachable)
  then show ?case by auto
next
  case (2 adj node pending reachable)
  show ?case
  proof (cases "node \<in> reachable")
    case True
    have "set (targets_of adj u) \<subseteq> reachable \<union> set pending" if "u \<in> reachable" for u
      using "2.prems"(1) [OF that] True by auto
    then show ?thesis using "2.IH"(1) [OF True] "2.prems"(2) True by simp
  next
    case False
    let ?seen = "insert node reachable"
    let ?pend = "pending @ filter (\<lambda>t. t \<notin> ?seen) (targets_of adj node)"
    have "set (targets_of adj u) \<subseteq> ?seen \<union> set ?pend" if "u \<in> ?seen" for u
    proof (cases "u = node")
      case True
      then show ?thesis by auto
    next
      case False
      then show ?thesis using "2.prems"(1) [of u] that by auto
    qed
    then show ?thesis
      using "2.IH"(2) [OF False refl, of s] "2.prems"(2) False by (simp add: Let_def)
  qed
qed

lemma reachable_nodes_rtrancl:
  "reachable_nodes g entry = {n. (entry, n) \<in> (graph_edges g)\<^sup>*}"
proof (rule equalityI)
  show "reachable_nodes g entry \<subseteq> {n. (entry, n) \<in> (graph_edges g)\<^sup>*}"
    unfolding reachable_nodes_def
    by (rule reach_loop_sound) (auto simp: adjacency_of_edges intro: rtrancl_into_rtrancl)
next
  let ?adj = "adjacency_of (g_routes g)"
  let ?R = "reach_loop ?adj [entry] {}"
  have closed: "set (targets_of ?adj s) \<subseteq> ?R" if "s \<in> ?R" for s
    by (rule reach_loop_closed [OF _ that]) simp
  have "n \<in> ?R" if "(entry, n) \<in> (graph_edges g)\<^sup>*" for n
    using that
  proof induction
    case base
    show ?case using reach_loop_superset [of "{}" "[entry]" ?adj] by auto
  next
    case (step s t)
    then show ?case using closed adjacency_of_edges by blast
  qed
  then show "{n. (entry, n) \<in> (graph_edges g)\<^sup>*} \<subseteq> reachable_nodes g entry"
    by (auto simp: reachable_nodes_def)
qed

subsection \<open>What compilation accepts\<close>

abbreviation stage_names :: "('w, 'v) StateGraph \<Rightarrow> string set" where
  "stage_names g \<equiv> fst ` set (g_stages g)"

abbreviation terminal_names :: "('w, 'v) StateGraph \<Rightarrow> string set" where
  "terminal_names g \<equiv> fst ` set (g_terminals g)"

definition graph_ok :: "('w, 'v) StateGraph \<Rightarrow> bool" where
  "graph_ok g \<longleftrightarrow>
     (\<exists>entry. g_entry g = Some entry \<and> entry \<in> stage_names g \<and>
        (\<forall>s \<in> stage_names g. (entry, s) \<in> (graph_edges g)\<^sup>*) \<and>
        (\<exists>t \<in> terminal_names g. (entry, t) \<in> (graph_edges g)\<^sup>*)) \<and>
     (\<forall>s \<in> stage_names g. \<exists>out r. ((s, out), r) \<in> set (g_routes g)) \<and>
     (\<forall>((s, out), r) \<in> set (g_routes g).
        s \<in> stage_names g \<and> set (route_targets r) \<subseteq> stage_names g \<union> terminal_names g) \<and>
     (\<forall>(s, d) \<in> set (g_stages g). \<forall>out. error_outcome (sd_policy d) = Some out \<longrightarrow>
        (s, out) \<in> fst ` set (g_routes g))"

lemma check_routes_Inr:
  "check_routes stages known routes = Inr u \<longleftrightarrow>
     (\<forall>((s, out), r) \<in> set routes. s \<in> set stages \<and> set (route_targets r) \<subseteq> set known)"
  by (induction stages known routes rule: check_routes.induct) (auto simp: list_ex_iff)

lemma check_recovery_Inr:
  "check_recovery keys stages = Inr u \<longleftrightarrow>
     (\<forall>(s, d) \<in> set stages. \<forall>out. error_outcome (sd_policy d) = Some out \<longrightarrow> (s, out) \<in> set keys)"
  by (induction keys stages rule: check_recovery.induct) (auto split: option.splits)

lemma validate_required_nodes_Inr:
  "validate_required_nodes g = Inr u \<longleftrightarrow>
     g_stages g \<noteq> [] \<and> (\<exists>e. g_entry g = Some e \<and> e \<in> stage_names g) \<and> g_terminals g \<noteq> [] \<and>
     (\<forall>s \<in> stage_names g. \<exists>out r. ((s, out), r) \<in> set (g_routes g))"
proof -
  have src: "s \<in> (fst \<circ> fst) ` set (g_routes g) \<longleftrightarrow> (\<exists>out r. ((s, out), r) \<in> set (g_routes g))" for s
    by force
  have "filter (\<lambda>s. \<not> List.member (map (fst \<circ> fst) (g_routes g)) s) (map fst (g_stages g)) = [] \<longleftrightarrow>
      (\<forall>s \<in> stage_names g. \<exists>out r. ((s, out), r) \<in> set (g_routes g))"
    unfolding filter_empty_conv by (simp add: src [symmetric] del: comp_apply)
  then show ?thesis
    by (simp add: validate_required_nodes_def split: option.splits del: filter_map)
qed

lemma validate_reachability_Inr:
  "validate_reachability g = Inr u \<longleftrightarrow>
     stage_names g \<subseteq> reachable_nodes g (entry_or_blank g) \<and>
     terminal_names g \<inter> reachable_nodes g (entry_or_blank g) \<noteq> {}"
  by (auto simp: validate_reachability_def Let_def filter_empty_conv)

lemma compile_checks:
  "(\<exists>c. compile_graph (Inr st) g = Inr c) \<longleftrightarrow>
     validate_required_nodes g = Inr () \<and> validate_routes g = Inr () \<and>
     validate_stage_recovery_routes g = Inr () \<and> validate_reachability g = Inr ()"
  by (auto simp: compile_graph_def bindE_Inr_iff)

lemma compile_iff_graph_ok: "(\<exists>c. compile_graph (Inr st) g = Inr c) \<longleftrightarrow> graph_ok g"
proof -
  have t: "g_terminals g \<noteq> []" if "t \<in> terminal_names g" for t using that by auto
  have n: "g_stages g \<noteq> []" if "s \<in> stage_names g" for s using that by auto
  have rec: "validate_stage_recovery_routes g = Inr () \<longleftrightarrow>
      (\<forall>(s, d) \<in> set (g_stages g). \<forall>out. error_outcome (sd_policy d) = Some out \<longrightarrow>
        (s, out) \<in> fst ` set (g_routes g))"
    by (simp add: validate_stage_recovery_routes_def check_recovery_Inr)
  have rts: "validate_routes g = Inr () \<longleftrightarrow>
      (\<forall>((s, out), r) \<in> set (g_routes g).
        s \<in> stage_names g \<and> set (route_targets r) \<subseteq> stage_names g \<union> terminal_names g)"
    by (simp add: validate_routes_def check_routes_Inr)
  have reach: "validate_reachability g = Inr () \<longleftrightarrow>
      (\<forall>s \<in> stage_names g. (entry_or_blank g, s) \<in> (graph_edges g)\<^sup>*) \<and>
      (\<exists>t \<in> terminal_names g. (entry_or_blank g, t) \<in> (graph_edges g)\<^sup>*)"
    unfolding validate_reachability_Inr reachable_nodes_rtrancl by blast
  have blank: "entry_or_blank g = e" if "g_entry g = Some e" for e
    using that by (simp add: entry_or_blank_def)
  show ?thesis
  proof (cases "g_entry g")
    case None
    then show ?thesis
      unfolding compile_checks validate_required_nodes_Inr graph_ok_def by simp
  next
    case (Some e)
    show ?thesis
      unfolding compile_checks rec rts reach validate_required_nodes_Inr graph_ok_def
        blank [OF Some] Some
      using t n by (simp only: option.inject simp_thms) blast
  qed
qed


lemma compile_graph_ok: "compile_graph st g = Inr c \<Longrightarrow> graph_ok g"
  using compile_iff_graph_ok [of _ g]
  by (auto simp: compile_graph_def elim!: bindE_InrE)

lemma compile_graph_fields:
  assumes "compile_graph st g = Inr c"
  shows "cg_contract c = g_contract g" "cg_stages c = g_stages g" "cg_terminals c = g_terminals g"
    "cg_routes c = g_routes g" "g_entry g = Some (cg_entry c)"
proof -
  have "\<exists>e. g_entry g = Some e" using compile_graph_ok [OF assms] by (auto simp: graph_ok_def)
  with assms show "cg_contract c = g_contract g" "cg_stages c = g_stages g" "cg_terminals c = g_terminals g"
    "cg_routes c = g_routes g" "g_entry g = Some (cg_entry c)"
    by (auto simp: compile_graph_def entry_or_blank_def elim!: bindE_InrE)
qed

subsection \<open>What the builder keeps\<close>

definition normal_text :: "string \<Rightarrow> bool" where
  "normal_text t \<longleftrightarrow> t \<noteq> [] \<and> strip t = t"

lemma graph_text_Inr: "graph_text v f = Inr t \<Longrightarrow> normal_text t"
  unfolding graph_text_def normal_text_def by (rule text_or_Inr)

lemma required_text_normal_text: "required_text v f = Inr t \<Longrightarrow> normal_text t"
  unfolding normal_text_def by (rule required_text_Inr)

definition target_wf :: "('w, 'v) BranchTarget \<Rightarrow> bool" where
  "target_wf t \<longleftrightarrow> (case t of BareTarget _ \<Rightarrow> True | GuardedTarget s _ \<Rightarrow> normal_text s)"

definition graph_wf :: "('w, 'v) StateGraph \<Rightarrow> bool" where
  "graph_wf g \<longleftrightarrow>
     dict_wf (g_stages g) \<and> dict_wf (g_terminals g) \<and> dict_wf (g_routes g) \<and>
     stage_names g \<inter> terminal_names g = {} \<and>
     (\<forall>n \<in> stage_names g \<union> terminal_names g. normal_text n) \<and>
     (\<forall>((s, out), r) \<in> set (g_routes g). normal_text s \<and> normal_text out \<and>
        (\<forall>t \<in> set (route_targets r). normal_text t))"

lemma mk_RouteTarget_wf: "mk_RouteTarget t gs = Inr x \<Longrightarrow> target_wf x"
  by (auto simp: mk_RouteTarget_def target_wf_def elim!: bindE_InrE dest: required_text_normal_text)

lemma normalize_route_target_wf:
  "target_wf v \<Longrightarrow> normalize_route_target v = Inr r \<Longrightarrow> normal_text (dr_target r)"
  by (auto simp: normalize_route_target_def target_wf_def elim!: bindE_InrE dest: graph_text_Inr
           split: BranchTarget.splits pyval.splits)

lemma normalize_branches_wf:
  "normalize_branches rs acc = Inr out \<Longrightarrow> \<forall>(k, t) \<in> set rs. target_wf t \<Longrightarrow>
   \<forall>(b, r) \<in> set acc. normal_text (dr_target r) \<Longrightarrow> dict_wf acc \<Longrightarrow>
   dict_wf out \<and> (\<forall>(b, r) \<in> set out. normal_text (dr_target r))"
proof (induction rs acc rule: normalize_branches.induct)
  case (1 acc)
  then show ?case by simp
next
  case (2 raw_branch raw_target rest acc)
  from "2.prems"(1) obtain b r where b: "graph_text raw_branch ''branch key'' = Inr b"
    and nb: "b \<notin> set (map fst acc)" and r: "normalize_route_target raw_target = Inr r"
    and rest: "normalize_branches rest (dict_put b r acc) = Inr out"
    by (auto elim!: bindE_InrE split: if_splits)
  have "\<forall>(b, r) \<in> set (dict_put b r acc). normal_text (dr_target r)"
    using "2.prems"(2,3) normalize_route_target_wf [OF _ r] by (auto dest!: dict_put_values)
  with "2.IH" [OF b] nb r rest "2.prems"(2,4) show ?case by auto
qed

inductive build_step :: "('w, 'v) StateGraph \<Rightarrow> ('w, 'v) StateGraph \<Rightarrow> bool" where
  stage: "add_stage n st vs p g = Inr g' \<Longrightarrow> build_step g g'"
| entry: "set_entry n g = Inr g' \<Longrightarrow> build_step g g'"
| terminal: "add_terminal n st g = Inr g' \<Longrightarrow> build_step g g'"
| transition: "add_transition s t on gs g = Inr g' \<Longrightarrow> build_step g g'"
| branch: "add_branch s r (Some rs) on g = Inr g' \<Longrightarrow> \<forall>(k, t) \<in> set rs. target_wf t \<Longrightarrow> build_step g g'"

inductive built :: "('w, 'v) StateGraph \<Rightarrow> bool" where
  new: "new_StateGraph n c = Inr g \<Longrightarrow> built g"
| step: "built g \<Longrightarrow> build_step g g' \<Longrightarrow> built g'"

lemma route_key_Inr: "route_key s out = Inr (a, b) \<Longrightarrow> normal_text a \<and> normal_text b"
  by (auto simp: route_key_def elim!: bindE_InrE dest: graph_text_Inr)

lemma assert_name_Inr:
  "assert_name_is_available g n = Inr u \<longleftrightarrow> n \<notin> stage_names g \<and> n \<notin> terminal_names g"
  by (auto simp: assert_name_is_available_def)

lemma put_route_wf:
  assumes "graph_wf g" "normal_text s" "normal_text out" "\<forall>t \<in> set (route_targets r). normal_text t"
  shows "graph_wf (g\<lparr>g_routes := dict_put (s, out) r (g_routes g)\<rparr>)"
  using assms unfolding graph_wf_def by (auto dest!: dict_put_values)

lemma put_stage_wf:
  assumes "graph_wf g" "normal_text n" "assert_name_is_available g n = Inr u"
  shows "graph_wf (g\<lparr>g_stages := dict_put n d (g_stages g)\<rparr>)"
  using assms unfolding graph_wf_def assert_name_Inr by auto

lemma put_terminal_wf:
  assumes "graph_wf g" "normal_text n" "assert_name_is_available g n = Inr u"
  shows "graph_wf (g\<lparr>g_terminals := dict_put n st (g_terminals g)\<rparr>)"
  using assms unfolding graph_wf_def assert_name_Inr by auto

lemma build_step_wf: "build_step g g' \<Longrightarrow> graph_wf g \<Longrightarrow> graph_wf g'"
proof (induction rule: build_step.induct)
  case (stage n st vs p g g')
  then show ?case
    by (auto simp: add_stage_def elim!: bindE_InrE dest!: graph_text_Inr intro: put_stage_wf
             split: option.splits)
next
  case (entry n g g')
  then obtain x where "g' = g\<lparr>g_entry := Some x\<rparr>"
    by (auto simp: set_entry_def elim!: bindE_InrE)
  with entry show ?case by (simp add: graph_wf_def)
next
  case (terminal n st g g')
  then show ?case
    by (auto simp: add_terminal_def elim!: bindE_InrE dest!: graph_text_Inr intro: put_terminal_wf
             split: sum.splits)
next
  case (transition s t on gs g g')
  then show ?case
    by (auto simp: add_transition_def route_targets_def elim!: bindE_InrE
             dest!: graph_text_Inr route_key_Inr intro!: put_route_wf)
next
  case (branch s r rs on g g')
  then obtain a b ns where key: "route_key s on = Inr (a, b)"
    and ns: "normalize_branches rs [] = Inr ns"
    and g': "g' = g\<lparr>g_routes := dict_put (a, b) (Branch r ns) (g_routes g)\<rparr>"
    by (auto simp: add_branch_def normalize_branch_routes_def elim!: bindE_InrE split: if_splits)
  have "\<forall>(b, d) \<in> set ns. normal_text (dr_target d)"
    using normalize_branches_wf [OF ns branch(2)] by simp
  then have "\<forall>t \<in> set (route_targets (Branch r ns)). normal_text t"
    by (auto simp: route_targets_def)
  then show ?case
    using put_route_wf [OF branch(3)] route_key_Inr [OF key] g' by simp
qed

lemma built_wf: "built g \<Longrightarrow> graph_wf g"
proof (induction rule: built.induct)
  case (new n c g)
  then show ?case by (auto simp: new_StateGraph_def graph_wf_def elim!: bindE_InrE)
next
  case (step g g')
  then show ?case by (blast intro: build_step_wf)
qed

text \<open>What the machine relies on in a compiled graph.\<close>

definition compiled_ok :: "('w, 'v) CompiledGraph \<Rightarrow> bool" where
  "compiled_ok c \<longleftrightarrow>
     cg_entry c \<in> fst ` set (cg_stages c) \<and>
     fst ` set (cg_stages c) \<inter> fst ` set (cg_terminals c) = {} \<and>
     (\<forall>n \<in> fst ` set (cg_stages c). normal_text n) \<and>
     (\<forall>((s, out), r) \<in> set (cg_routes c).
        set (route_targets r) \<subseteq> fst ` set (cg_stages c) \<union> fst ` set (cg_terminals c))"

lemma compile_compiled_ok:
  assumes "built g" and "compile_graph st g = Inr c"
  shows "compiled_ok c"
proof -
  note fs = compile_graph_fields [OF assms(2)]
  have ok: "graph_ok g" using assms(2) by (rule compile_graph_ok)
  have wf: "graph_wf g" using assms(1) by (rule built_wf)
  from ok fs(5) have entry: "cg_entry c \<in> stage_names g"
    and targets: "\<forall>((s, out), r) \<in> set (g_routes g). set (route_targets r) \<subseteq> stage_names g \<union> terminal_names g"
    unfolding graph_ok_def by auto
  from wf have "stage_names g \<inter> terminal_names g = {}" "\<forall>n \<in> stage_names g. normal_text n"
    unfolding graph_wf_def by blast+
  with entry targets show ?thesis unfolding compiled_ok_def fs by blast
qed

end
