(* ===== verification/WF_Machine.thy ===== *)
theory WF_Machine
  imports WF_Graph
begin

text \<open>
  \<^verbatim>\<open>vidbyte/workflows/machine.py\<close>: one run of a compiled graph, in the
  state-and-exception monad of the prelude.  The run-local objects \<open>_RunRecorder\<close> and
  \<open>_RunState\<close> are one state; user callbacks (stages, validators, routers, observers), the
  event loop's sleep and wait_for, and the mutable ledger live in a world \<open>'w\<close> that every
  callback receives and may change.  A callback may return anything, raise, or let a control
  signal through.  The two loops of the machine (\<open>_advance\<close> and \<open>_execute_stages\<close>) are total
  functions: their termination rests on the transition budget.
\<close>

subsection \<open>State of a run\<close>

record 'w Recorder =
  rec_world :: 'w
  rec_events :: "WorkflowEvent list"
  rec_observer_errors :: "string list"

record ('w, 'v) RunState = "'w Recorder" +
  committed_state :: 'v
  current_stage :: string
  feedback :: "WorkflowFeedback list"
  transition_count :: int
  visits :: "(string \<times> int) list"
  stages :: "'v StageExecution list"
  transitions :: "TransitionRecord list"

record 'w Observer =
  ob_type_name :: string
  ob_on_event :: "WorkflowEvent \<Rightarrow> 'w \<Rightarrow> unit outcome \<times> 'w"

text \<open>
  The event loop is not part of the program: \<open>re_sleep\<close> is asyncio.sleep, which may be
  interrupted, and \<open>re_wait_for\<close> is asyncio.wait_for around one stage invocation.
\<close>

record ('w, 'v) RunEnv =
  re_def :: "('w, 'v) CompiledGraph"
  re_run_id :: string
  re_metadata :: dict
  re_observers :: "'w Observer list"
  re_sleep :: "rat \<Rightarrow> 'w \<Rightarrow> exn option \<times> 'w"
  re_wait_for :: "rat \<Rightarrow> ('w \<Rightarrow> 'v StageResult outcome \<times> 'w) \<Rightarrow> 'w \<Rightarrow> 'v StageResult outcome \<times> 'w"

text \<open>
  The errors a run ends with.  The first eight are WorkflowErrors; \<open>CandidateStateError\<close> is the
  WorkflowStateError of \<open>_normalize_stage_result\<close> and \<open>RunTimeout\<close> the WorkflowExecutionError of
  the run timeout.  \<open>PlainError\<close> is any other Exception, \<open>BaseError\<close> a control signal.
\<close>

datatype wf_error =
    WorkflowStateError string string \<comment> \<open>boundary, error type\<close>
  | CandidateStateError string string \<comment> \<open>stage, error type\<close>
  | StageExecutionError string "int option" string \<comment> \<open>stage, attempts, error type\<close>
  | WorkflowValidationError string ValidationPhase "string option" ValidationStatus string
  | WorkflowRoutingError string string "string option" "string option" \<comment> \<open>stage, outcome, router, key\<close>
  | TransitionLimitError string string string int int
  | WorkflowExecutionError string
  | RunTimeout
  | PlainError exn
  | BaseError exn

fun error_type_name :: "wf_error \<Rightarrow> string" where
  "error_type_name (WorkflowStateError _ _) = ''WorkflowStateError''"
| "error_type_name (CandidateStateError _ _) = ''WorkflowStateError''"
| "error_type_name (StageExecutionError _ _ _) = ''StageExecutionError''"
| "error_type_name (WorkflowValidationError _ _ _ _ _) = ''WorkflowValidationError''"
| "error_type_name (WorkflowRoutingError _ _ _ _) = ''WorkflowRoutingError''"
| "error_type_name (TransitionLimitError _ _ _ _ _) = ''TransitionLimitError''"
| "error_type_name (WorkflowExecutionError _) = ''WorkflowExecutionError''"
| "error_type_name RunTimeout = ''WorkflowExecutionError''"
| "error_type_name (PlainError e) = exn_type e"
| "error_type_name (BaseError e) = exn_type e"

definition is_workflow_error :: "wf_error \<Rightarrow> bool" where
  "is_workflow_error e \<longleftrightarrow> (case e of PlainError _ \<Rightarrow> False | BaseError _ \<Rightarrow> False | _ \<Rightarrow> True)"

type_synonym ('w, 'v, 'a) run = "(('w, 'v) RunState, wf_error, 'a) sem"

definition callM :: "('w \<Rightarrow> 'a \<times> 'w) \<Rightarrow> (('w, 'z) Recorder_scheme, wf_error, 'a) sem" where
  "callM f = (\<lambda>st. case f (rec_world st) of (r, w) \<Rightarrow> (Inr r, st\<lparr>rec_world := w\<rparr>))"

subsection \<open>The recorder\<close>

fun notify_observers ::
  "'w Observer list \<Rightarrow> WorkflowEvent \<Rightarrow> (('w, 'z) Recorder_scheme, wf_error, unit) sem" where
  "notify_observers [] ev = returnM ()"
| "notify_observers (ob # obs) ev =
     bindM (callM (ob_on_event ob ev)) (\<lambda>r.
     case r of
       Raised e \<Rightarrow>
         bindM (updM (\<lambda>st. st\<lparr>rec_observer_errors :=
                  rec_observer_errors st @ [ob_type_name ob @ '': '' @ exn_type e]\<rparr>)) (\<lambda>_.
         notify_observers obs ev)
     | Interrupted e \<Rightarrow> throwM (BaseError e)
     | _ \<Rightarrow> notify_observers obs ev)"

definition emit ::
  "('w, 'v) RunEnv \<Rightarrow> WorkflowEventType \<Rightarrow> string option \<Rightarrow> dict
   \<Rightarrow> (('w, 'z) Recorder_scheme, wf_error, unit) sem" where
  "emit env event_type stage payload = (\<lambda>st.
     let ev = \<lparr>ev_sequence = int (length (rec_events st)) + 1, ev_type = event_type,
               ev_run_id = re_run_id env, ev_stage = map_option strip stage, ev_payload = payload\<rparr>
     in notify_observers (re_observers env) ev (st\<lparr>rec_events := rec_events st @ [ev]\<rparr>))"

subsection \<open>Run state operations\<close>

definition next_visit :: "string \<Rightarrow> ('w, 'v, int) run" where
  "next_visit stage = (\<lambda>st.
     let visit = (case map_of (visits st) stage of None \<Rightarrow> 0 | Some n \<Rightarrow> n) + 1
     in (Inr visit, st\<lparr>visits := dict_put stage visit (visits st)\<rparr>))"

definition add_stage_record :: "'v StageExecution \<Rightarrow> ('w, 'v, nat) run" where
  "add_stage_record r = (\<lambda>st. (Inr (length (stages st)), st\<lparr>stages := stages st @ [r]\<rparr>))"

definition attach_stage_validations :: "nat \<Rightarrow> ValidationRecord list \<Rightarrow> ('w, 'v, unit) run" where
  "attach_stage_validations i vs =
     updM (\<lambda>st. st\<lparr>stages := (stages st)[i := (stages st ! i)\<lparr>se_validations := vs\<rparr>]\<rparr>)"

definition accept_stage :: "nat \<Rightarrow> ('w, 'v, unit) run" where
  "accept_stage i =
     updM (\<lambda>st. st\<lparr>stages := (stages st)[i := (stages st ! i)\<lparr>se_accepted := True\<rparr>]\<rparr>)"

subsection \<open>State boundaries\<close>

definition normalize_clone :: "('w, 'v) RunEnv \<Rightarrow> 'v \<Rightarrow> string \<Rightarrow> wf_error + 'v" where
  "normalize_clone env value boundary =
     (case bindE (contract_validate (cg_contract (re_def env)) value) (\<lambda>normalized.
           bindE (sc_cloner (cg_contract (re_def env)) normalized) (\<lambda>cloned.
           contract_validate (cg_contract (re_def env)) cloned)) of
        Inl e \<Rightarrow> Inl (WorkflowStateError boundary (exn_type e))
      | Inr v \<Rightarrow> Inr v)"

definition cloneM :: "('w, 'v) RunEnv \<Rightarrow> 'v \<Rightarrow> string \<Rightarrow> (('w, 'z) Recorder_scheme, wf_error, 'v) sem" where
  "cloneM env value boundary = liftE (\<lambda>e. e) (normalize_clone env value boundary)"

definition boundary_name :: "string \<Rightarrow> string \<Rightarrow> string" where
  "boundary_name stage place = ''stage:'' @ stage @ '':'' @ place"

definition snapshot :: "('w, 'v) RunEnv \<Rightarrow> 'v \<Rightarrow> string \<Rightarrow> ('w, 'v, 'v option) run" where
  "snapshot env value boundary =
     (if \<not> record_state_snapshots (cg_settings (re_def env)) then returnM None
      else bindM (cloneM env value boundary) (\<lambda>v. returnM (Some v)))"

definition inspection_result ::
  "('w, 'v) RunEnv \<Rightarrow> 'v StageResult \<Rightarrow> string \<Rightarrow> ('w, 'v, 'v StageResult) run" where
  "inspection_result env result boundary =
     bindM (cloneM env (sr_state result) boundary) (\<lambda>state.
     liftE PlainError (mk_StageResult state (VStr (sr_outcome result)) (VDict (sr_metadata result))))"

subsection \<open>Validators\<close>

record ValidationDecision =
  vd_passed :: bool
  vd_result :: "ValidationResult option"
  vd_records :: "ValidationRecord list"
  vd_must_raise :: bool

definition invoke_validator ::
  "('w, 'v) RunEnv \<Rightarrow> ('w, 'v) Validator \<Rightarrow> 'v ValidationContext \<Rightarrow> string
   \<Rightarrow> ('w, 'v, ValidationResult) run" where
  "invoke_validator env validator ctx name =
     bindM (callM (v_validate validator ctx)) (\<lambda>r.
     case r of
       Returned result \<Rightarrow> returnM result
     | Raised e \<Rightarrow>
         liftE PlainError (vr_errored (validation_error_outcome (cg_settings (re_def env)))
           (''Validator '' @ quoted name @ '' raised '' @ exn_type e @ ''.'')
           [(''validator'', VStr name), (''error_type'', VStr (exn_type e))])
     | WrongType t \<Rightarrow>
         liftE PlainError (vr_errored (validation_error_outcome (cg_settings (re_def env)))
           (''Validator '' @ quoted name @ '' returned '' @ t @ '', expected ValidationResult.'')
           [(''validator'', VStr name), (''actual_type'', VStr t)])
     | Interrupted e \<Rightarrow> throwM (BaseError e))"

definition opt_str :: "string option \<Rightarrow> pyval" where
  "opt_str t = (case t of None \<Rightarrow> VNone | Some s \<Rightarrow> VStr s)"

definition evaluate_one ::
  "('w, 'v) RunEnv \<Rightarrow> ('w, 'v) Validator \<Rightarrow> 'v ValidationContext \<Rightarrow> ('w, 'v, ValidationRecord) run" where
  "evaluate_one env validator ctx =
     bindM (invoke_validator env validator ctx (validator_name validator)) (\<lambda>result.
     bindM (liftE PlainError (required_text (VStr (validator_name validator)) ''ValidationRecord.validator'')) (\<lambda>name.
     bindM (emit env VALIDATION_FINISHED (Some (vc_stage ctx))
              [(''phase'', VStr (phase_value (vc_phase ctx))), (''validator'', VStr (validator_name validator)),
               (''status'', VStr (status_value (vr_status result))), (''code'', VStr (vr_code result)),
               (''target'', opt_str (vc_target ctx))]) (\<lambda>_.
     returnM \<lparr>vrec_phase = vc_phase ctx, vrec_validator = name, vrec_result = result,
              vrec_target = vc_target ctx\<rparr>)))"

definition interpret_result ::
  "StateMachineSettings \<Rightarrow> ValidationResult \<Rightarrow> ValidationRecord list \<Rightarrow> exn + ValidationDecision option" where
  "interpret_result settings result records =
     (if vr_status result = PASS then Inr None
      else if vr_status result = REJECT
      then Inr (Some \<lparr>vd_passed = False, vd_result = Some result, vd_records = records, vd_must_raise = False\<rparr>)
      else if validator_error_policy settings = FAIL_OPEN then Inr None
      else if validator_error_policy settings = RAISE
      then Inr (Some \<lparr>vd_passed = False, vd_result = Some result, vd_records = records, vd_must_raise = True\<rparr>)
      else bindE (vr_rejected
                    (if vr_code result = [] then validation_error_outcome settings else vr_code result)
                    (if vr_feedback result = [] then ''Validator did not produce a passing decision.''
                     else vr_feedback result)
                    (vr_score result) (vr_details result)) (\<lambda>effective.
        Inr (Some \<lparr>vd_passed = False, vd_result = Some effective, vd_records = records, vd_must_raise = False\<rparr>)))"

fun evaluate_from ::
  "('w, 'v) RunEnv \<Rightarrow> 'v ValidationContext \<Rightarrow> ('w, 'v) Validator list \<Rightarrow> ValidationRecord list
   \<Rightarrow> ('w, 'v, ValidationDecision) run" where
  "evaluate_from env ctx [] records =
     returnM \<lparr>vd_passed = True, vd_result = None, vd_records = records, vd_must_raise = False\<rparr>"
| "evaluate_from env ctx (v # vs) records =
     bindM (evaluate_one env v ctx) (\<lambda>r.
     bindM (liftE PlainError
       (interpret_result (cg_settings (re_def env)) (vrec_result r) (records @ [r]))) (\<lambda>decision.
     case decision of
       Some d \<Rightarrow> returnM d
     | None \<Rightarrow> evaluate_from env ctx vs (records @ [r])))"

definition evaluate ::
  "('w, 'v) RunEnv \<Rightarrow> ('w, 'v) Validator list \<Rightarrow> 'v ValidationContext \<Rightarrow> ('w, 'v, ValidationDecision) run" where
  "evaluate env validators ctx = evaluate_from env ctx validators []"


subsection \<open>One stage visit\<close>

record 'v StageAttempt =
  sa_state_before :: 'v
  sa_stage_result :: "'v StageResult"
  sa_record_index :: "nat option"
  sa_handled_error :: "WorkflowFeedback option"

record 'v StageDecision =
  d_source :: string
  d_state_before :: 'v
  d_candidate_state :: 'v
  d_stage_result :: "'v StageResult"
  d_can_commit :: bool
  d_trigger :: string
  d_feedback :: "WorkflowFeedback list"
  d_record_index :: "nat option"

definition record_stage_failure ::
  "('w, 'v) RunEnv \<Rightarrow> string \<Rightarrow> int \<Rightarrow> int \<Rightarrow> string \<Rightarrow> ('w, 'v, unit) run" where
  "record_stage_failure env stage visit n error_type =
     bindM (add_stage_record
       \<lparr>se_stage = stage, se_visit = visit, se_attempt = n, se_outcome = None, se_accepted = False,
        se_metadata = [], se_validations = [], se_error_type = Some error_type,
        se_error_message = Some (''Stage attempt failed with '' @ error_type @ ''.''),
        se_state_before = None, se_candidate_state = None\<rparr>) (\<lambda>_.
     emit env STAGE_FINISHED (Some stage)
       [(''visit'', VInt visit), (''attempt'', VInt n), (''status'', VStr ''error''),
        (''error_type'', VStr error_type)])"

definition invoke_stage ::
  "('w, 'v) RunEnv \<Rightarrow> ('w, 'v) StageDefinition \<Rightarrow> 'v StageContext \<Rightarrow> ('w, 'v, 'v StageResult outcome) run" where
  "invoke_stage env d ctx =
     (case stage_timeout (sd_policy d) of
        None \<Rightarrow> callM (sd_stage d ctx)
      | Some t \<Rightarrow> callM (re_wait_for env t (sd_stage d ctx)))"

text \<open>A value that is not a StageResult arrives here as \<open>WrongType\<close> with the name of its class.\<close>

definition normalize_stage_result ::
  "('w, 'v) RunEnv \<Rightarrow> string \<Rightarrow> string + 'v StageResult \<Rightarrow> wf_error + 'v StageResult" where
  "normalize_stage_result env stage value =
     (case value of
        Inl t \<Rightarrow> Inl (StageExecutionError stage None t)
      | Inr sr \<Rightarrow>
         (case contract_validate (cg_contract (re_def env)) (sr_state sr) of
            Inl e \<Rightarrow> Inl (CandidateStateError stage (exn_type e))
          | Inr candidate \<Rightarrow>
             (case mk_StageResult candidate (VStr (sr_outcome sr)) (VDict (sr_metadata sr)) of
                Inl e \<Rightarrow> Inl (PlainError e)
              | Inr r \<Rightarrow> Inr r)))"

definition successful_stage_record ::
  "('w, 'v) RunEnv \<Rightarrow> string \<Rightarrow> int \<Rightarrow> int \<Rightarrow> 'v \<Rightarrow> 'v StageResult \<Rightarrow> ('w, 'v, 'v StageExecution) run" where
  "successful_stage_record env stage visit n before result =
     bindM (snapshot env before ''stage_state_before'') (\<lambda>b.
     bindM (snapshot env (sr_state result) ''stage_candidate_state'') (\<lambda>c.
     returnM \<lparr>se_stage = stage, se_visit = visit, se_attempt = n, se_outcome = Some (sr_outcome result),
        se_accepted = False, se_metadata = sr_metadata result, se_validations = [],
        se_error_type = None, se_error_message = None, se_state_before = b, se_candidate_state = c\<rparr>))"

text \<open>
  One attempt.  The result is \<open>Inl e\<close> when the callback raised the Exception \<open>e\<close>
  (\<open>_StageCallbackFailure\<close>), which the retry loop handles; every other failure is an exception of
  the monad.
\<close>

definition execute_attempt ::
  "('w, 'v) RunEnv \<Rightarrow> string \<Rightarrow> ('w, 'v) StageDefinition \<Rightarrow> int \<Rightarrow> int \<Rightarrow> 'v \<Rightarrow> 'v
   \<Rightarrow> ('w, 'v, exn + 'v StageAttempt) run" where
  "execute_attempt env stage d visit n before input =
     bindM (getM (\<lambda>st. st)) (\<lambda>st.
     bindM (liftE PlainError (mk_StageContext (VStr (re_run_id env)) (VStr stage) input visit n
              (transition_count st) (feedback st) (stages st) (VDict (re_metadata env)))) (\<lambda>ctx.
     bindM (emit env STAGE_STARTED (Some stage) [(''visit'', VInt visit), (''attempt'', VInt n)]) (\<lambda>_.
     bindM (invoke_stage env d ctx) (\<lambda>raw.
     case raw of
       Raised e \<Rightarrow> returnM (Inl e)
     | Interrupted e \<Rightarrow> throwM (BaseError e)
     | _ \<Rightarrow>
       (case normalize_stage_result env stage
               (case raw of WrongType t \<Rightarrow> Inl t | Returned sr \<Rightarrow> Inr sr) of
          Inl err \<Rightarrow>
            if is_workflow_error err
            then bindM (record_stage_failure env stage visit n (error_type_name err)) (\<lambda>_. throwM err)
            else throwM err
        | Inr result \<Rightarrow>
            bindM (successful_stage_record env stage visit n before result) (\<lambda>r.
            bindM (add_stage_record r) (\<lambda>index.
            bindM (emit env STAGE_FINISHED (Some stage)
                     [(''visit'', VInt visit), (''attempt'', VInt n), (''outcome'', VStr (sr_outcome result)),
                      (''status'', VStr ''candidate'')]) (\<lambda>_.
            returnM (Inr \<lparr>sa_state_before = before, sa_stage_result = result,
                          sa_record_index = Some index, sa_handled_error = None\<rparr>))))))))) "

definition should_retry :: "exn \<Rightarrow> StagePolicy \<Rightarrow> int \<Rightarrow> bool" where
  "should_retry e policy n \<longleftrightarrow>
     n < max_attempts (retry policy) \<and> exn_isinstance e (retry_for (retry policy))"

definition wait_before_retry :: "('w, 'v) RunEnv \<Rightarrow> StagePolicy \<Rightarrow> nat \<Rightarrow> ('w, 'v, unit) run" where
  "wait_before_retry env policy n =
     (let delay = delay_seconds (retry policy) * backoff_multiplier (retry policy) ^ (n - 1) in
      if 0 < delay
      then bindM (callM (re_sleep env delay)) (\<lambda>r.
             case r of None \<Rightarrow> returnM () | Some e \<Rightarrow> throwM (BaseError e))
      else returnM ())"

text \<open>The loop over \<open>range(1, max_attempts + 1)\<close>.\<close>

fun execute_attempts_from ::
  "('w, 'v) RunEnv \<Rightarrow> string \<Rightarrow> ('w, 'v) StageDefinition \<Rightarrow> int \<Rightarrow> nat list
   \<Rightarrow> ('w, 'v, 'v StageAttempt) run" where
  "execute_attempts_from env stage d visit [] = throwM (StageExecutionError stage None [])"
| "execute_attempts_from env stage d visit (n # ns) =
     bindM (getM committed_state) (\<lambda>committed.
     bindM (cloneM env committed (boundary_name stage ''input'')) (\<lambda>before.
     bindM (cloneM env before (boundary_name stage ''attempt_input'')) (\<lambda>input.
     bindM (execute_attempt env stage d visit (int n) before input) (\<lambda>r.
     case r of
       Inr attempt \<Rightarrow> returnM attempt
     | Inl e \<Rightarrow>
       bindM (record_stage_failure env stage visit (int n) (exn_type e)) (\<lambda>_.
       if should_retry e (sd_policy d) (int n)
       then bindM (wait_before_retry env (sd_policy d) n) (\<lambda>_. execute_attempts_from env stage d visit ns)
       else
        (case error_outcome (sd_policy d) of
           Some out \<Rightarrow>
             bindM (liftE PlainError (mk_WorkflowFeedback (VStr ''stage_error'') (VStr stage) (VStr out)
                      (VStr (''Stage '' @ quoted stage @ '' exhausted its execution policy.''))
                      (VDict [(''error_type'', VStr (exn_type e)), (''attempts'', VInt (int n))]))) (\<lambda>fb.
             bindM (getM committed_state) (\<lambda>c.
             bindM (liftE PlainError (mk_StageResult c (VStr out) (VDict []))) (\<lambda>sr.
             returnM \<lparr>sa_state_before = c, sa_stage_result = sr, sa_record_index = None,
                      sa_handled_error = Some fb\<rparr>)))
         | None \<Rightarrow> throwM (StageExecutionError stage (Some (int n)) (exn_type e))))))))"

definition execute_attempts ::
  "('w, 'v) RunEnv \<Rightarrow> string \<Rightarrow> ('w, 'v) StageDefinition \<Rightarrow> int \<Rightarrow> ('w, 'v, 'v StageAttempt) run" where
  "execute_attempts env stage d visit =
     execute_attempts_from env stage d visit [1..<nat (max_attempts (retry (sd_policy d))) + 1]"

definition validation_feedback ::
  "string \<Rightarrow> string \<Rightarrow> ValidationResult \<Rightarrow> ValidationRecord list \<Rightarrow> exn + WorkflowFeedback" where
  "validation_feedback kind source result records =
     mk_WorkflowFeedback (VStr kind) (VStr source) (VStr (vr_code result)) (VStr (vr_feedback result))
       (VDict (dict_merge (vr_details result)
          [(''validators'', VList (map (VStr \<circ> vrec_validator) records)),
           (''status'', VStr (status_value (vr_status result))),
           (''score'', score_value (vr_score result))]))"

definition raise_validation_error ::
  "('w, 'v) RunEnv \<Rightarrow> string \<Rightarrow> ValidationResult option \<Rightarrow> ValidationPhase \<Rightarrow> string option \<Rightarrow> ('w, 'v, 'a) run" where
  "raise_validation_error env stage result phase target =
     bindM (case result of
              Some r \<Rightarrow> returnM r
            | None \<Rightarrow> liftE PlainError (vr_errored (validation_error_outcome (cg_settings (re_def env)))
                        ''Validator did not produce a result.'' [])) (\<lambda>r.
     throwM (WorkflowValidationError stage phase target (vr_status r) (vr_code r)))"

definition rejected_stage_decision ::
  "('w, 'v) RunEnv \<Rightarrow> string \<Rightarrow> 'v StageAttempt \<Rightarrow> ValidationDecision \<Rightarrow> ('w, 'v, 'v StageDecision) run" where
  "rejected_stage_decision env stage attempt validation =
     bindM (case vd_result validation of
              Some r \<Rightarrow> returnM r
            | None \<Rightarrow> liftE PlainError (vr_rejected (validation_error_outcome (cg_settings (re_def env)))
                        ''Stage validation rejected the candidate.'' None [])) (\<lambda>result.
     bindM (liftE PlainError (validation_feedback ''stage_validation'' stage result (vd_records validation))) (\<lambda>fb.
     bindM (getM committed_state) (\<lambda>c.
     bindM (liftE PlainError (mk_StageResult c (VStr (vr_code result))
              (VDict (sr_metadata (sa_stage_result attempt))))) (\<lambda>synthetic.
     returnM \<lparr>d_source = stage, d_state_before = c, d_candidate_state = c, d_stage_result = synthetic,
        d_can_commit = False, d_trigger = ''stage_validation'', d_feedback = [fb],
        d_record_index = sa_record_index attempt\<rparr>))))"

definition handled_stage_error :: "string \<Rightarrow> 'v StageAttempt \<Rightarrow> ('w, 'v, 'v StageDecision) run" where
  "handled_stage_error stage attempt =
     bindM (getM committed_state) (\<lambda>c.
     returnM \<lparr>d_source = stage, d_state_before = c, d_candidate_state = c,
        d_stage_result = sa_stage_result attempt, d_can_commit = False, d_trigger = ''stage_error'',
        d_feedback = (case sa_handled_error attempt of None \<Rightarrow> [] | Some fb \<Rightarrow> [fb]),
        d_record_index = None\<rparr>)"

definition validate_stage ::
  "('w, 'v) RunEnv \<Rightarrow> string \<Rightarrow> ('w, 'v) StageDefinition \<Rightarrow> 'v StageAttempt \<Rightarrow> ('w, 'v, 'v StageDecision) run" where
  "validate_stage env stage d attempt =
     bindM (inspection_result env (sa_stage_result attempt) (boundary_name stage ''validation_candidate'')) (\<lambda>inspected.
     bindM (cloneM env (sa_state_before attempt) (boundary_name stage ''validation_before'')) (\<lambda>before.
     bindM (getM feedback) (\<lambda>fbs.
     bindM (liftE PlainError (mk_ValidationContext (VStr (re_run_id env)) STAGE (VStr stage) before
              (sr_state inspected) inspected (VStr (sr_outcome inspected)) None fbs
              (VDict (re_metadata env)))) (\<lambda>ctx.
     bindM (evaluate env (sd_validators d) ctx) (\<lambda>validation.
     bindM (case sa_record_index attempt of
              None \<Rightarrow> returnM ()
            | Some i \<Rightarrow> attach_stage_validations i (vd_records validation)) (\<lambda>_.
     if vd_must_raise validation then raise_validation_error env stage (vd_result validation) STAGE None
     else if vd_passed validation
     then bindM (getM feedback) (\<lambda>fbs.
       returnM \<lparr>d_source = stage, d_state_before = sa_state_before attempt,
          d_candidate_state = sr_state (sa_stage_result attempt), d_stage_result = sa_stage_result attempt,
          d_can_commit = True, d_trigger = ''stage_outcome'', d_feedback = fbs,
          d_record_index = sa_record_index attempt\<rparr>)
     else rejected_stage_decision env stage attempt validation))))))"

definition run_stage :: "('w, 'v) RunEnv \<Rightarrow> string \<Rightarrow> ('w, 'v, 'v StageDecision) run" where
  "run_stage env stage =
     (case map_of (cg_stages (re_def env)) stage of
        None \<Rightarrow> throwM (PlainError (KeyError stage))
      | Some d \<Rightarrow>
        bindM (next_visit stage) (\<lambda>visit.
        bindM (execute_attempts env stage d visit) (\<lambda>attempt.
        case sa_handled_error attempt of
          Some _ \<Rightarrow> handled_stage_error stage attempt
        | None \<Rightarrow> validate_stage env stage d attempt)))"


subsection \<open>Transitions\<close>

record ('w, 'v) SelectedRoute =
  sel_target :: string
  sel_guards :: "('w, 'v) Validator list"
  sel_branch_key :: "string option"
  sel_router :: "string option"

definition router_name :: "('w, 'v) Router \<Rightarrow> string" where
  "router_name r =
     (case r_name r of
        Inl _ \<Rightarrow> r_type_name r
      | Inr n \<Rightarrow> if strip n = [] then r_type_name r else strip n)"

definition select_branch ::
  "('w, 'v) RunEnv \<Rightarrow> 'v StageDecision \<Rightarrow> ('w, 'v) Router \<Rightarrow> (string \<times> ('w, 'v) DirectRoute) list
   \<Rightarrow> ('w, 'v, ('w, 'v) SelectedRoute) run" where
  "select_branch env decision router routes =
     bindM (inspection_result env (d_stage_result decision)
              (boundary_name (d_source decision) ''routing_candidate'')) (\<lambda>inspected.
     bindM (liftE PlainError (mk_RoutingContext (VStr (re_run_id env)) (VStr (d_source decision))
              (sr_state inspected) inspected (d_feedback decision) (VDict (re_metadata env)))) (\<lambda>ctx.
     bindM (callM (r_route router ctx)) (\<lambda>raw.
     case raw of
       Interrupted e \<Rightarrow> throwM (BaseError e)
     | Raised e \<Rightarrow> throwM (WorkflowRoutingError (d_source decision) (sr_outcome (d_stage_result decision))
                             (Some (router_name router)) None)
     | _ \<Rightarrow>
       (let key = (case raw of Returned (VStr s) \<Rightarrow> strip s | _ \<Rightarrow> []) in
        case map_of routes key of
          None \<Rightarrow> throwM (WorkflowRoutingError (d_source decision) (sr_outcome (d_stage_result decision))
                             (Some (router_name router)) (Some key))
        | Some destination \<Rightarrow>
            returnM \<lparr>sel_target = dr_target destination, sel_guards = dr_guards destination,
                     sel_branch_key = Some key, sel_router = Some (router_name router)\<rparr>))))"

definition select_route ::
  "('w, 'v) RunEnv \<Rightarrow> 'v StageDecision \<Rightarrow> ('w, 'v, ('w, 'v) SelectedRoute) run" where
  "select_route env decision =
     (case map_of (cg_routes (re_def env)) (d_source decision, sr_outcome (d_stage_result decision)) of
        None \<Rightarrow> throwM (WorkflowRoutingError (d_source decision) (sr_outcome (d_stage_result decision)) None None)
      | Some (Direct r) \<Rightarrow>
          returnM \<lparr>sel_target = dr_target r, sel_guards = dr_guards r, sel_branch_key = None, sel_router = None\<rparr>
      | Some (Branch router routes) \<Rightarrow> select_branch env decision router routes)"

definition consume_transition :: "('w, 'v, int) run" where
  "consume_transition = (\<lambda>st.
     let n = transition_count st + 1 in (Inr n, st\<lparr>transition_count := n\<rparr>))"

definition emit_transition_selected ::
  "('w, 'v) RunEnv \<Rightarrow> 'v StageDecision \<Rightarrow> ('w, 'v) SelectedRoute \<Rightarrow> int \<Rightarrow> ('w, 'v, unit) run" where
  "emit_transition_selected env decision sel sequence =
     emit env TRANSITION_SELECTED (Some (d_source decision))
       [(''sequence'', VInt sequence), (''outcome'', VStr (sr_outcome (d_stage_result decision))),
        (''target'', VStr (sel_target sel)), (''branch_key'', opt_str (sel_branch_key sel)),
        (''router'', opt_str (sel_router sel)), (''trigger'', VStr (d_trigger decision))]"

definition run_guards ::
  "('w, 'v) RunEnv \<Rightarrow> 'v StageDecision \<Rightarrow> ('w, 'v) SelectedRoute \<Rightarrow> ('w, 'v, ValidationDecision) run" where
  "run_guards env decision sel =
     bindM (inspection_result env (d_stage_result decision)
              (boundary_name (d_source decision) ''guard_candidate'')) (\<lambda>inspected.
     bindM (getM committed_state) (\<lambda>c.
     bindM (cloneM env c (boundary_name (d_source decision) ''guard_before'')) (\<lambda>before.
     bindM (liftE PlainError (mk_ValidationContext (VStr (re_run_id env)) TRANSITION
              (VStr (d_source decision)) before (sr_state inspected) inspected
              (VStr (sr_outcome (d_stage_result decision))) (Some (sel_target sel)) (d_feedback decision)
              (VDict (re_metadata env)))) (\<lambda>ctx.
     evaluate env (sel_guards sel) ctx))))"

definition append_transition_record ::
  "int \<Rightarrow> 'v StageDecision \<Rightarrow> ('w, 'v) SelectedRoute \<Rightarrow> ValidationRecord list \<Rightarrow> bool \<Rightarrow> ('w, 'v, unit) run" where
  "append_transition_record sequence decision sel validations accepted =
     updM (\<lambda>st. st\<lparr>transitions := transitions st @
       [\<lparr>tr_sequence = sequence, tr_source = d_source decision, tr_target = sel_target sel,
         tr_outcome = sr_outcome (d_stage_result decision), tr_accepted = accepted,
         tr_trigger = d_trigger decision, tr_validations = validations\<rparr>]\<rparr>)"

definition commit_candidate ::
  "('w, 'v) RunEnv \<Rightarrow> 'v StageDecision \<Rightarrow> ('w, 'v) SelectedRoute \<Rightarrow> ('w, 'v, unit) run" where
  "commit_candidate env decision sel =
     bindM (cloneM env (d_candidate_state decision) ''state_commit'') (\<lambda>v.
     bindM (updM (\<lambda>st. st\<lparr>committed_state := v\<rparr>)) (\<lambda>_.
     bindM (case d_record_index decision of None \<Rightarrow> returnM () | Some i \<Rightarrow> accept_stage i) (\<lambda>_.
     bindM (getM transition_count) (\<lambda>n.
     bindM (emit env STATE_COMMITTED (Some (d_source decision))
              [(''transition'', VInt n), (''target'', VStr (sel_target sel))]) (\<lambda>_.
     updM (\<lambda>st. st\<lparr>feedback := []\<rparr>))))))"

definition accept_transition ::
  "('w, 'v) RunEnv \<Rightarrow> 'v StageDecision \<Rightarrow> ('w, 'v) SelectedRoute \<Rightarrow> ('w, 'v, string option) run" where
  "accept_transition env decision sel =
     bindM (if d_can_commit decision then commit_candidate env decision sel
            else updM (\<lambda>st. st\<lparr>feedback := d_feedback decision\<rparr>)) (\<lambda>_.
     if List.member (map fst (cg_terminals (re_def env))) (sel_target sel)
     then returnM (Some (sel_target sel))
     else bindM (updM (\<lambda>st. st\<lparr>current_stage := sel_target sel\<rparr>)) (\<lambda>_. returnM None))"

definition redirect_guard_rejection ::
  "('w, 'v) RunEnv \<Rightarrow> 'v StageDecision \<Rightarrow> ('w, 'v) SelectedRoute \<Rightarrow> ValidationDecision
   \<Rightarrow> ('w, 'v, 'v StageDecision) run" where
  "redirect_guard_rejection env decision sel validation =
     bindM (case vd_result validation of
              Some r \<Rightarrow> returnM r
            | None \<Rightarrow> liftE PlainError (vr_rejected (validation_error_outcome (cg_settings (re_def env)))
                        ''Transition guard rejected the candidate.'' None [])) (\<lambda>result.
     bindM (getM transition_count) (\<lambda>n.
     bindM (emit env TRANSITION_REJECTED (Some (d_source decision))
              [(''transition'', VInt n), (''target'', VStr (sel_target sel)), (''code'', VStr (vr_code result))]) (\<lambda>_.
     bindM (liftE PlainError (validation_feedback ''transition_guard'' (d_source decision) result
              (vd_records validation))) (\<lambda>fb.
     bindM (getM committed_state) (\<lambda>c.
     bindM (liftE PlainError (mk_StageResult c (VStr (vr_code result))
              (VDict (sr_metadata (d_stage_result decision))))) (\<lambda>synthetic.
     returnM \<lparr>d_source = d_source decision, d_state_before = c, d_candidate_state = c,
        d_stage_result = synthetic, d_can_commit = False, d_trigger = ''transition_guard'',
        d_feedback = (if d_can_commit decision then [] else d_feedback decision) @ [fb],
        d_record_index = d_record_index decision\<rparr>))))))"

text \<open>
  The body of the loop of \<open>_advance\<close>: \<open>Inl terminal\<close> is its return, \<open>Inr decision\<close> the decision of
  the next iteration.  Every selection takes one unit of the transition budget, and a selection
  beyond the budget raises.
\<close>

definition advance_step ::
  "('w, 'v) RunEnv \<Rightarrow> 'v StageDecision \<Rightarrow> ('w, 'v, string option + 'v StageDecision) run" where
  "advance_step env decision =
     bindM (select_route env decision) (\<lambda>sel.
     bindM consume_transition (\<lambda>n.
     bindM (emit_transition_selected env decision sel n) (\<lambda>_.
     if max_transitions (cg_settings (re_def env)) < n
     then bindM (append_transition_record n decision sel [] False) (\<lambda>_.
          throwM (TransitionLimitError (d_source decision) (sr_outcome (d_stage_result decision))
                    (sel_target sel) n (max_transitions (cg_settings (re_def env)))))
     else bindM (run_guards env decision sel) (\<lambda>g.
       if vd_must_raise g
       then bindM (append_transition_record n decision sel (vd_records g) False) (\<lambda>_.
            raise_validation_error env (d_source decision) (vd_result g) TRANSITION (Some (sel_target sel)))
       else if vd_passed g
       then bindM (accept_transition env decision sel) (\<lambda>terminal.
            bindM (append_transition_record n decision sel (vd_records g) True) (\<lambda>_.
            returnM (Inl terminal)))
       else bindM (append_transition_record n decision sel (vd_records g) False) (\<lambda>_.
            bindM (redirect_guard_rejection env decision sel g) (\<lambda>decision'.
            returnM (Inr decision')))))))"

end
