(* ===== verification/WF_Effects.thy ===== *)
theory WF_Effects
  imports WF_Machine
begin

text \<open>
  What the operations of the machine do to the state of a run, whatever they return.  Three
  locales name the kinds of change an operation may make: \<open>run_effect\<close> (callbacks and events
  only), \<open>stage_effect\<close> (also visits and stage records) and \<open>machine_effect\<close> (any change of
  the machine).  Inside each, the operations that make only such changes are shown to keep the
  relation, once for all relations.  The interpretations give the frame of the operations
  (\<open>rec_only\<close>, \<open>quiet\<close>) and the discipline of the event log (\<open>log_grows\<close>).
\<close>

locale run_effect = state_preorder R
  for R :: "('w, 'v) RunState \<Rightarrow> ('w, 'v) RunState \<Rightarrow> bool" +
  assumes R_world: "R s (s\<lparr>rec_world := w\<rparr>)"
    and R_event: "ev_sequence ev = int (length (rec_events s)) + 1 \<Longrightarrow>
      R s (s\<lparr>rec_events := rec_events s @ [ev]\<rparr>)"
    and R_observer_error: "R s (s\<lparr>rec_observer_errors := rec_observer_errors s @ [x]\<rparr>)"
begin

lemma keeps_callM: "keeps (callM f)"
  by (rule keepsI) (simp add: callM_def R_world split: prod.split)

lemma keeps_notify: "keeps (notify_observers obs ev)"
  by (induction obs)
    (auto intro!: keeps_intros keeps_callM keeps_updM R_observer_error split: outcome.split)

lemma keeps_emit: "keeps (emit env ty stage payload)"
proof (rule keepsI)
  fix s :: "('w, 'v) RunState"
  define ev where "ev = \<lparr>ev_sequence = int (length (rec_events s)) + 1, ev_type = ty,
     ev_run_id = re_run_id env, ev_stage = map_option strip stage, ev_payload = payload\<rparr>"
  then have ev: "ev_sequence ev = int (length (rec_events s)) + 1" by simp
  have e: "emit env ty stage payload s =
      notify_observers (re_observers env) ev (s\<lparr>rec_events := rec_events s @ [ev]\<rparr>)"
    by (simp add: emit_def Let_def ev_def)
  show "R s (snd (emit env ty stage payload s))"
    unfolding e using R_event [OF ev] keeps_notify [of "re_observers env" ev] R_trans
    by (metis keeps_def)
qed

lemma keeps_cloneM: "keeps (cloneM env v b)"
  by (simp add: cloneM_def keeps_liftE)

lemma keeps_snapshot: "keeps (snapshot env v b)"
  unfolding snapshot_def by (intro keeps_intros keeps_cloneM)

lemma keeps_inspection: "keeps (inspection_result env r b)"
  unfolding inspection_result_def by (intro keeps_intros keeps_cloneM)

lemmas keeps_basic = keeps_intros keeps_callM keeps_emit keeps_cloneM keeps_snapshot keeps_inspection

lemma keeps_evaluate_one: "keeps (evaluate_one env v ctx)"
  unfolding evaluate_one_def invoke_validator_def
  by (auto intro!: keeps_basic split: outcome.split)

lemma keeps_evaluate_from: "keeps (evaluate_from env ctx vs recs)"
  by (induction vs arbitrary: recs)
    (auto intro!: keeps_intros keeps_evaluate_one split: option.split)

lemma keeps_evaluate: "keeps (evaluate env vs ctx)"
  unfolding evaluate_def by (rule keeps_evaluate_from)

lemma keeps_raise_validation_error: "keeps (raise_validation_error env stage r ph t)"
  unfolding raise_validation_error_def by (auto intro!: keeps_intros split: option.split)

lemma keeps_rejected_stage_decision: "keeps (rejected_stage_decision env stage attempt v)"
  unfolding rejected_stage_decision_def by (auto intro!: keeps_intros split: option.split)

lemma keeps_wait: "keeps (wait_before_retry env p n)"
  unfolding wait_before_retry_def Let_def by (auto intro!: keeps_basic split: option.split)

lemma keeps_invoke_stage: "keeps (invoke_stage env d ctx)"
  unfolding invoke_stage_def by (auto intro!: keeps_basic split: option.split)

lemma keeps_successful_record: "keeps (successful_stage_record env stage visit n b r)"
  unfolding successful_stage_record_def by (intro keeps_basic)

lemma keeps_select_route: "keeps (select_route env decision)"
  unfolding select_route_def select_branch_def Let_def
  by (auto intro!: keeps_basic split: option.split outcome.split Route.split)

lemma keeps_run_guards: "keeps (run_guards env decision sel)"
  unfolding run_guards_def by (intro keeps_basic keeps_evaluate)

lemma keeps_redirect: "keeps (redirect_guard_rejection env decision sel v)"
  unfolding redirect_guard_rejection_def by (auto intro!: keeps_basic split: option.split)

lemma keeps_emit_selected: "keeps (emit_transition_selected env decision sel n)"
  unfolding emit_transition_selected_def by (rule keeps_emit)

end

locale stage_effect = run_effect +
  assumes R_visits: "R s (s\<lparr>visits := vs\<rparr>)"
    and R_add_stage: "R s (s\<lparr>stages := stages s @ [r]\<rparr>)"
    and R_set_stage: "R s (s\<lparr>stages := (stages s)[i := r]\<rparr>)"
begin

lemma keeps_next_visit: "keeps (next_visit stage)"
  by (rule keepsI) (simp add: next_visit_def R_visits Let_def)

lemma keeps_add_stage: "keeps (add_stage_record r)"
  by (rule keepsI) (simp add: add_stage_record_def R_add_stage)

lemma keeps_attach: "keeps (attach_stage_validations i vs)"
  unfolding attach_stage_validations_def by (rule keeps_updM) (rule R_set_stage)

lemma keeps_record_failure: "keeps (record_stage_failure env stage visit n ty)"
  unfolding record_stage_failure_def by (intro keeps_basic keeps_add_stage)

lemma keeps_execute_attempt: "keeps (execute_attempt env stage d visit n before input)"
  unfolding execute_attempt_def
  by (auto intro!: keeps_basic keeps_invoke_stage keeps_successful_record keeps_add_stage
             keeps_record_failure split: outcome.split option.split sum.split)

lemma keeps_execute_attempts_from: "keeps (execute_attempts_from env stage d visit ns)"
  by (induction ns)
    (auto intro!: keeps_basic keeps_record_failure keeps_execute_attempt keeps_wait
          split: option.split sum.split)

lemma keeps_validate_stage: "keeps (validate_stage env stage d attempt)"
  unfolding validate_stage_def
  by (auto intro!: keeps_basic keeps_attach keeps_evaluate keeps_raise_validation_error
             keeps_rejected_stage_decision split: option.split)

lemma keeps_run_stage: "keeps (run_stage env stage)"
  unfolding run_stage_def handled_stage_error_def execute_attempts_def
  by (auto intro!: keeps_basic keeps_next_visit keeps_execute_attempts_from keeps_validate_stage
           split: option.split)

end

locale machine_effect = stage_effect +
  assumes R_count: "R s (s\<lparr>transition_count := transition_count s + 1\<rparr>)"
    and R_transition: "R s (s\<lparr>transitions := transitions s @ [tr]\<rparr>)"
    and R_commit: "R s (s\<lparr>committed_state := v\<rparr>)"
    and R_feedback: "R s (s\<lparr>feedback := fbs\<rparr>)"
    and R_current: "R s (s\<lparr>current_stage := c\<rparr>)"
begin

lemma keeps_consume: "keeps consume_transition"
  by (rule keepsI) (simp add: consume_transition_def R_count Let_def)

lemma keeps_append: "keeps (append_transition_record n decision sel vs acc)"
  unfolding append_transition_record_def by (rule keeps_updM) (rule R_transition)

lemma keeps_accept_stage: "keeps (accept_stage i)"
  unfolding accept_stage_def by (rule keeps_updM) (rule R_set_stage)

lemma keeps_accept: "keeps (accept_transition env decision sel)"
  unfolding accept_transition_def commit_candidate_def
  by (auto intro!: keeps_basic keeps_updM keeps_accept_stage R_commit R_feedback R_current
           split: option.split)

lemma keeps_advance_step: "keeps (advance_step env decision)"
  unfolding advance_step_def
  by (intro keeps_intros keeps_select_route keeps_consume keeps_emit_selected keeps_append
      keeps_run_guards keeps_raise_validation_error keeps_accept keeps_redirect)

end

subsection \<open>Frames\<close>

text \<open>\<open>rec_only\<close>: only the recorder differs.  \<open>quiet\<close>: also visits and stage records.\<close>

definition quiet :: "('w, 'v) RunState \<Rightarrow> ('w, 'v) RunState \<Rightarrow> bool" where
  "quiet s t \<longleftrightarrow> transition_count t = transition_count s \<and> transitions t = transitions s \<and>
     committed_state t = committed_state s \<and> current_stage t = current_stage s \<and>
     feedback t = feedback s"

definition rec_only :: "('w, 'v) RunState \<Rightarrow> ('w, 'v) RunState \<Rightarrow> bool" where
  "rec_only s t \<longleftrightarrow> quiet s t \<and> visits t = visits s \<and> stages t = stages s"

interpretation ro: run_effect rec_only
  by unfold_locales (auto simp: rec_only_def quiet_def)

interpretation qt: stage_effect quiet
  by unfold_locales (auto simp: quiet_def)

text \<open>Events are numbered 1, 2, \<dots> in the order they are recorded, and never removed.\<close>

definition events_numbered :: "('w, 'z) Recorder_scheme \<Rightarrow> bool" where
  "events_numbered s \<longleftrightarrow> map ev_sequence (rec_events s) = [1..int (length (rec_events s))]"

definition log_grows :: "('w, 'v) RunState \<Rightarrow> ('w, 'v) RunState \<Rightarrow> bool" where
  "log_grows s t \<longleftrightarrow> (events_numbered s \<longrightarrow> events_numbered t) \<and>
     (\<exists>evs. rec_events t = rec_events s @ evs) \<and>
     (\<exists>es. rec_observer_errors t = rec_observer_errors s @ es)"

lemma upto_snoc: "[1..int n] @ [int n + 1] = [1..int n + 1]"
  by (simp add: upto_rec2)

lemma events_numbered_snoc:
  "events_numbered s \<Longrightarrow> ev_sequence ev = int (length (rec_events s)) + 1 \<Longrightarrow>
   events_numbered (s\<lparr>rec_events := rec_events s @ [ev]\<rparr>)"
  by (simp add: events_numbered_def upto_snoc add.commute [of 1])

interpretation lg: machine_effect log_grows
proof unfold_locales
  fix s t u :: "('a, 'b) RunState"
  show "log_grows s t \<Longrightarrow> log_grows t u \<Longrightarrow> log_grows s u"
    unfolding log_grows_def by (metis append_assoc)
next
  fix ev :: WorkflowEvent and s :: "('a, 'b) RunState"
  assume "ev_sequence ev = int (length (rec_events s)) + 1"
  then show "log_grows s (s\<lparr>rec_events := rec_events s @ [ev]\<rparr>)"
    using events_numbered_snoc by (auto simp: log_grows_def)
qed (auto simp: log_grows_def events_numbered_def)

end
