(* ===== verification/WF_Run.thy ===== *)
theory WF_Run
  imports WF_Effects
begin

text \<open>
  \<^verbatim>\<open>vidbyte/workflows/machine.py\<close>, the loops and the entry points: \<open>_advance\<close>,
  \<open>_execute_stages\<close>, \<open>_finish\<close>, \<open>execute\<close> and \<open>StateMachine.arun\<close>.  Both loops are accepted as
  total functions because every iteration takes a unit of the transition budget.
\<close>

definition budget :: "('w, 'v) RunEnv \<Rightarrow> int" where
  "budget env = max_transitions (cg_settings (re_def env))"

subsection \<open>The transition budget\<close>

definition same_count :: "('w, 'v) RunState \<Rightarrow> ('w, 'v) RunState \<Rightarrow> bool" where
  "same_count s t \<longleftrightarrow> transition_count t = transition_count s \<and> transitions t = transitions s"

interpretation sc: stage_effect same_count
  by unfold_locales (auto simp: same_count_def)

lemma same_count_accept: "sc.keeps (accept_transition env decision sel)"
proof -
  have upd: "sc.keeps (updM (\<lambda>st. st\<lparr>committed_state := v\<rparr>))"
    "sc.keeps (updM (\<lambda>st. st\<lparr>feedback := fb\<rparr>))" "sc.keeps (updM (\<lambda>st. st\<lparr>current_stage := c\<rparr>))"
    "sc.keeps (accept_stage i)" for v fb c i
    unfolding accept_stage_def by (rule sc.keeps_updM, simp add: same_count_def)+
  show ?thesis
    unfolding accept_transition_def commit_candidate_def
    by (auto intro!: sc.keeps_basic upd split: option.split)
qed

lemmas same_count_frames =
  sc.keepsD [OF sc.keeps_select_route] sc.keepsD [OF sc.keeps_emit_selected]
  sc.keepsD [OF sc.keeps_run_guards] sc.keepsD [OF same_count_accept]
  sc.keepsD [OF sc.keeps_redirect] sc.keepsD [OF sc.keeps_raise_validation_error]

lemma consume_transitionE:
  "consume_transition s = (r, t) \<Longrightarrow>
   r = Inr (transition_count s + 1) \<and> t = s\<lparr>transition_count := transition_count s + 1\<rparr>"
  by (auto simp: consume_transition_def Let_def)

lemma append_transition_recordE:
  "append_transition_record n d sel vs acc s = (r, t) \<Longrightarrow>
   r = Inr () \<and> t = s\<lparr>transitions := transitions s @
     [\<lparr>tr_sequence = n, tr_source = d_source d, tr_target = sel_target sel,
       tr_outcome = sr_outcome (d_stage_result d), tr_accepted = acc,
       tr_trigger = d_trigger d, tr_validations = vs\<rparr>]\<rparr>"
  by (auto simp: append_transition_record_def updM_app)

lemma raise_validation_error_Inl: "raise_validation_error env stage r ph t s = (x, u) \<Longrightarrow> \<exists>e. x = Inl e"
  by (cases x) (auto simp: raise_validation_error_def throwM_app elim!: bindM_InrE split: option.splits)

lemma advance_step_count:
  assumes "advance_step env decision s = (Inr r, t)"
  shows "transition_count t = transition_count s + 1 \<and> transition_count t \<le> budget env"
  using assms unfolding advance_step_def budget_def
  by (auto simp: throwM_app returnM_app same_count_def elim!: bindM_InrE split: if_splits
           dest!: same_count_frames consume_transitionE append_transition_recordE
                  raise_validation_error_Inl)

subsection \<open>The two loops\<close>

function advance :: "('w, 'v) RunEnv \<Rightarrow> 'v StageDecision \<Rightarrow> ('w, 'v, string option) run" where
  "advance env decision st =
     bindM (advance_step env decision) (\<lambda>r t.
       case r of Inl terminal \<Rightarrow> (Inr terminal, t) | Inr decision' \<Rightarrow> advance env decision' t) st"
  by pat_completeness auto
termination
proof (relation "measure (\<lambda>(env, decision, st). nat (budget env + 1 - transition_count st))", goal_cases)
  case 1
  show ?case by simp
next
  case (2 env decision st r t decision')
  then show ?case using advance_step_count [of env decision st r t] by simp
qed

declare advance.simps [simp del]

lemma advance_count:
  "advance env decision s = (Inr r, t) \<Longrightarrow>
   transition_count s < transition_count t \<and> transition_count t \<le> budget env"
proof (induction env decision s arbitrary: r t rule: advance.induct)
  case (1 env decision st)
  from "1.prems" [unfolded advance.simps [of env decision st]]
  obtain x u where step: "advance_step env decision st = (Inr x, u)"
    and rest: "(case x of Inl terminal \<Rightarrow> (Inr terminal, u) | Inr d \<Rightarrow> advance env d u) = (Inr r, t)"
    by (elim bindM_InrE)
  show ?case
  proof (cases x)
    case (Inl terminal)
    then show ?thesis using rest advance_step_count [OF step] by simp
  next
    case (Inr d)
    then show ?thesis using rest "1.IH" [OF step Inr] advance_step_count [OF step] by fastforce
  qed
qed

record ('w, 'v) StateMachineResult =
  smr_run_id :: string
  smr_status :: MachineStatus
  smr_terminal :: string
  smr_state :: 'v
  smr_ledger :: 'w \<comment> \<open>the world, which holds the ledger\<close>
  smr_metadata :: dict
  smr_stages :: "'v StageExecution list"
  smr_transitions :: "TransitionRecord list"
  smr_events :: "WorkflowEvent list"
  smr_observer_errors :: "string list"

definition finish :: "('w, 'v) RunEnv \<Rightarrow> string \<Rightarrow> ('w, 'v, ('w, 'v) StateMachineResult) run" where
  "finish env terminal =
     (case map_of (cg_terminals (re_def env)) terminal of
        None \<Rightarrow> throwM (PlainError (KeyError terminal))
      | Some status \<Rightarrow>
        bindM (getM transition_count) (\<lambda>n.
        bindM (emit env RUN_FINISHED (Some terminal)
                 [(''workflow'', VStr (cg_name (re_def env))), (''terminal'', VStr terminal),
                  (''status'', VStr (machine_status_value status)), (''transitions'', VInt n)]) (\<lambda>_.
        bindM (getM (\<lambda>st. st)) (\<lambda>st.
        returnM \<lparr>smr_run_id = re_run_id env, smr_status = status, smr_terminal = terminal,
           smr_state = committed_state st, smr_ledger = rec_world st, smr_metadata = re_metadata env,
           smr_stages = stages st, smr_transitions = transitions st, smr_events = rec_events st,
           smr_observer_errors = rec_observer_errors st\<rparr>))))"

function execute_stages :: "('w, 'v) RunEnv \<Rightarrow> ('w, 'v, ('w, 'v) StateMachineResult) run" where
  "execute_stages env st =
     bindM (getM current_stage) (\<lambda>stage.
     bindM (run_stage env stage) (\<lambda>decision.
     bindM (advance env decision) (\<lambda>terminal t.
       case terminal of
         Some name \<Rightarrow> finish env name t
       | None \<Rightarrow> execute_stages env t))) st"
  by pat_completeness auto
termination
proof (relation "measure (\<lambda>(env, st). nat (budget env + 1 - transition_count st))", goal_cases)
  case 1
  show ?case by simp
next
  case (2 env st stage t0 decision t1 terminal t2)
  have "transition_count t1 = transition_count st"
    using 2(1) qt.keepsD [OF qt.keeps_run_stage 2(2)] by (auto simp: quiet_def getM_app)
  then show ?case using advance_count [OF 2(3)] by simp
qed

declare execute_stages.simps [simp del]

subsection \<open>The run and its entry point\<close>

text \<open>
  \<open>execute\<close> starts from the recorder alone; the run state exists once the initial state has passed
  the contract.  A failure is reported by a last event, whose own failure is swallowed, and the
  original error is raised again.
\<close>

definition init_run :: "('w, 'v) RunEnv \<Rightarrow> 'w Recorder \<Rightarrow> 'v \<Rightarrow> ('w, 'v) RunState" where
  "init_run env rec v =
     \<lparr>rec_world = rec_world rec, rec_events = rec_events rec,
      rec_observer_errors = rec_observer_errors rec, committed_state = v,
      current_stage = cg_entry (re_def env), feedback = [], transition_count = 0, visits = [],
      stages = [], transitions = []\<rparr>"

definition emit_failure ::
  "('w, 'v) RunEnv \<Rightarrow> string \<Rightarrow> wf_error \<Rightarrow> ('w, 'z) Recorder_scheme \<Rightarrow> ('w, 'z) Recorder_scheme" where
  "emit_failure env stage err st =
     snd (emit env RUN_FAILED (Some stage)
            [(''workflow'', VStr (cg_name (re_def env))), (''error_type'', VStr (error_type_name err))] st)"

definition prepare ::
  "('w, 'v) RunEnv \<Rightarrow> 'v \<Rightarrow> ('w Recorder, wf_error, 'v) sem" where
  "prepare env initial_state =
     bindM (emit env RUN_STARTED (Some (cg_entry (re_def env)))
              [(''workflow'', VStr (cg_name (re_def env))), (''entry'', VStr (cg_entry (re_def env)))]) (\<lambda>_.
     cloneM env initial_state ''initial_state'')"

definition execute ::
  "('w, 'v) RunEnv \<Rightarrow> 'v \<Rightarrow> 'w \<Rightarrow> (wf_error + ('w, 'v) StateMachineResult) \<times> 'w Recorder" where
  "execute env initial_state world =
     (case prepare env initial_state \<lparr>rec_world = world, rec_events = [], rec_observer_errors = []\<rparr> of
        (Inl err, rec) \<Rightarrow> (Inl err, emit_failure env (cg_entry (re_def env)) err rec)
      | (Inr committed, rec) \<Rightarrow>
         (case execute_stages env (init_run env rec committed) of
            (Inr result, st) \<Rightarrow> (Inr result, Recorder.truncate st)
          | (Inl err, st) \<Rightarrow>
              (Inl err, Recorder.truncate (emit_failure env (current_stage st) err st))))"

text \<open>
  \<open>StateMachine.arun\<close>.  \<open>fresh\<close> is the identifier uuid4 gives when none is passed; \<open>expired w\<close>
  says that the deadline of asyncio.timeout has passed, which turns its cancellation into a
  TimeoutError.  The ledger and metadata arguments are given by their class names when they are
  not mappings.
\<close>

definition TimeoutError :: exn where
  "TimeoutError = Exn ''TimeoutError'' [''OSError'', ''Exception'', ''BaseException''] []"

definition convert_error :: "('w, 'v) RunEnv \<Rightarrow> bool \<Rightarrow> wf_error \<Rightarrow> wf_error" where
  "convert_error env timed_out err =
     (if is_workflow_error err then err
      else case err of
        BaseError e \<Rightarrow>
          (if run_timeout (cg_settings (re_def env)) \<noteq> None \<and> exn_type e = ''CancelledError'' \<and> timed_out
           then RunTimeout else BaseError e)
      | PlainError e \<Rightarrow>
          (if exn_isinstance e [''TimeoutError''] then RunTimeout
           else WorkflowExecutionError (''Workflow '' @ quoted (cg_name (re_def env)) @
                  '' failed with an unexpected machine error.''))
      | _ \<Rightarrow> err)"

definition arun ::
  "('w, 'v) CompiledGraph \<Rightarrow> 'w Observer list \<Rightarrow> (rat \<Rightarrow> 'w \<Rightarrow> exn option \<times> 'w) \<Rightarrow>
   (rat \<Rightarrow> ('w \<Rightarrow> 'v StageResult outcome \<times> 'w) \<Rightarrow> 'w \<Rightarrow> 'v StageResult outcome \<times> 'w) \<Rightarrow>
   string \<Rightarrow> ('w \<Rightarrow> bool) \<Rightarrow> 'v \<Rightarrow> pyval \<Rightarrow> string + unit \<Rightarrow> pyval \<Rightarrow> 'w
   \<Rightarrow> wf_error + ('w, 'v) StateMachineResult" where
  "arun graph observers sleep wait_for fresh expired initial_state run_id ledger metadata world =
     (case (case run_id of VNone \<Rightarrow> Some fresh | VStr s \<Rightarrow> Some (strip s) | _ \<Rightarrow> None) of
        None \<Rightarrow> Inl (WorkflowExecutionError ''StateMachine run_id must be a string when provided.'')
      | Some rid \<Rightarrow>
     if rid = [] then Inl (WorkflowExecutionError ''StateMachine run_id cannot be empty.'')
     else case ledger of
        Inl _ \<Rightarrow> Inl (WorkflowExecutionError ''StateMachine ledger must be a mutable mapping.'')
      | Inr () \<Rightarrow>
     (case (case metadata of VNone \<Rightarrow> Some [] | VDict d \<Rightarrow> Some d | _ \<Rightarrow> None) of
        None \<Rightarrow> Inl (WorkflowExecutionError ''StateMachine metadata must be a mapping.'')
      | Some md \<Rightarrow>
        (let env = \<lparr>re_def = graph, re_run_id = rid, re_metadata = md, re_observers = observers,
                    re_sleep = sleep, re_wait_for = wait_for\<rparr> in
         case execute env initial_state world of
           (Inr result, rec) \<Rightarrow> Inr result
         | (Inl err, rec) \<Rightarrow> Inl (convert_error env (expired (rec_world rec)) err))))"

end
