(* ===== verification/WF_Props.thy ===== *)
theory WF_Props
  imports WF_Run
begin

text \<open>
  What a run of a workflow guarantees: the transition budget, the numbering of the evidence, the
  gates before every commit, the walk of the accepted transitions through the declared routes,
  the state contract, and the outcome of validator sequences, retries and observers.
\<close>

subsection \<open>Gates\<close>

definition lets_pass :: "StateMachineSettings \<Rightarrow> ValidationResult \<Rightarrow> bool" where
  "lets_pass settings r \<longleftrightarrow> vr_status r = PASS \<or>
     (validator_error_policy settings = FAIL_OPEN \<and> vr_status r \<noteq> REJECT)"

text \<open>Every declared validator was run, in order, and each let the candidate pass.\<close>

definition gate_ok :: "('w, 'v) RunEnv \<Rightarrow> ('w, 'v) Validator list \<Rightarrow> ValidationRecord list \<Rightarrow> bool" where
  "gate_ok env vs recs \<longleftrightarrow> map vrec_validator recs = map (strip \<circ> validator_name) vs \<and>
     (\<forall>r \<in> set recs. lets_pass (cg_settings (re_def env)) (vrec_result r))"

lemma required_text_strip: "required_text (VStr s) f = Inr t \<Longrightarrow> t = strip s"
  by (auto simp: required_text_def text_or_def split: if_splits)

lemma interpret_result_None:
  "interpret_result st r recs = Inr None \<longleftrightarrow> lets_pass st r"
  by (cases "vr_status r")
    (auto simp: interpret_result_def lets_pass_def vr_rejected_def bindE_Inr_iff)

lemma interpret_result_Some:
  "interpret_result st r recs = Inr (Some d) \<Longrightarrow> \<not> vd_passed d \<and> vd_records d = recs \<and>
     (vd_must_raise d \<longrightarrow> validator_error_policy st = RAISE)"
  by (auto simp: interpret_result_def bindE_Inr_iff split: if_splits)

lemma evaluate_one_post:
  "post (\<lambda>r t. rec_only s t \<and> vrec_validator r = strip (validator_name v) \<and> vrec_phase r = vc_phase ctx)
        (\<lambda>_ t. rec_only s t) (evaluate_one env v ctx s)"
proof -
  have "post (\<lambda>r _. vrec_validator r = strip (validator_name v) \<and> vrec_phase r = vc_phase ctx) (\<lambda>_ _. True)
      (evaluate_one env v ctx s)"
    unfolding evaluate_one_def
    by (auto simp: post_def bindM_def liftE_def returnM_app throwM_app
             dest!: required_text_strip split: prod.splits sum.splits)
  from post_conj [OF ro.keeps_post [OF ro.keeps_evaluate_one] this] show ?thesis by simp
qed

lemma evaluate_from_post:
  "post (\<lambda>d t. rec_only s t \<and> (\<exists>new. vd_records d = recs @ new \<and>
           (vd_passed d \<longrightarrow> gate_ok env vs new)) \<and> \<not> (vd_passed d \<and> vd_must_raise d))
        (\<lambda>_ t. rec_only s t) (evaluate_from env ctx vs recs s)"
proof (induction vs arbitrary: recs s)
  case Nil
  show ?case by (simp add: gate_ok_def ro.R_refl)
next
  case (Cons v vs)
  show ?case
    unfolding evaluate_from.simps
  proof (rule post_bindI [OF evaluate_one_post])
    fix r :: ValidationRecord and t
    assume r: "rec_only s t \<and> vrec_validator r = strip (validator_name v) \<and> vrec_phase r = vc_phase ctx"
    let ?i = "interpret_result (cg_settings (re_def env)) (vrec_result r) (recs @ [r])"
    show "post (\<lambda>d t. rec_only s t \<and> (\<exists>new. vd_records d = recs @ new \<and>
             (vd_passed d \<longrightarrow> gate_ok env (v # vs) new)) \<and> \<not> (vd_passed d \<and> vd_must_raise d))
           (\<lambda>_ t. rec_only s t)
           (bindM (liftE PlainError ?i)
             (\<lambda>decision. case decision of Some d \<Rightarrow> returnM d | None \<Rightarrow> evaluate_from env ctx vs (recs @ [r])) t)"
    proof (cases ?i)
      case (Inl e)
      then show ?thesis using r by simp
    next
      case (Inr o')
      show ?thesis
      proof (cases o')
        case (Some d)
        then show ?thesis using Inr interpret_result_Some [of _ _ _ d] r by auto
      next
        case None
        then have pass: "lets_pass (cg_settings (re_def env)) (vrec_result r)"
          using Inr by (simp add: interpret_result_None)
        show ?thesis
          using Inr None r pass ro.R_trans [of s t]
          by (auto simp: gate_ok_def intro!: post_mono [OF Cons.IH [where recs = "recs @ [r]" and s = t]])
      qed
    qed
  qed
qed

lemma evaluate_post:
  "post (\<lambda>d t. rec_only s t \<and> (vd_passed d \<longrightarrow> gate_ok env vs (vd_records d) \<and> \<not> vd_must_raise d))
        (\<lambda>_ t. rec_only s t) (evaluate env vs ctx s)"
  unfolding evaluate_def by (rule post_mono [OF evaluate_from_post]) auto


subsection \<open>Stage visits\<close>

text \<open>
  A visit of a stage only appends records of that stage, none of them accepted.
\<close>

definition appends :: "string \<Rightarrow> nat \<Rightarrow> ('w, 'v) RunState \<Rightarrow> ('w, 'v) RunState \<Rightarrow> bool" where
  "appends stage k s t \<longleftrightarrow> (\<exists>new. stages t = stages s @ new \<and> length new \<le> k \<and>
     (\<forall>se \<in> set new. \<not> se_accepted se \<and> se_stage se = stage))"

lemma appends_refl [simp]: "appends stage k s s"
  by (simp add: appends_def)

lemma appends_trans: "appends stage k s t \<Longrightarrow> appends stage l t u \<Longrightarrow> appends stage (k + l) s u"
  by (fastforce simp: appends_def)

lemma appends_mono: "appends stage k s t \<Longrightarrow> k \<le> l \<Longrightarrow> appends stage l s t"
  by (auto simp: appends_def)

lemma rec_only_stages: "rec_only s t \<Longrightarrow> stages t = stages s"
  by (simp add: rec_only_def)

lemma rec_only_appends: "rec_only s t \<Longrightarrow> appends stage k s t"
  by (simp add: appends_def rec_only_def)

lemma rec_only_left: "rec_only s t \<Longrightarrow> appends stage k t u \<Longrightarrow> appends stage k s u"
  by (simp add: appends_def rec_only_def)

lemma post_add_stage [simp]:
  "post Q E (add_stage_record r s) = Q (length (stages s)) (s\<lparr>stages := stages s @ [r]\<rparr>)"
  by (simp add: add_stage_record_def)

lemma post_cloneM:
  "post Q E (cloneM env v b s) = (case normalize_clone env v b of Inl e \<Rightarrow> E e s | Inr x \<Rightarrow> Q x s)"
  by (simp add: cloneM_def post_liftE)

lemma add_stage_post:
  "\<not> se_accepted r \<Longrightarrow> se_stage r = stage \<Longrightarrow>
   post (\<lambda>i t. i = length (stages s) \<and> stages t = stages s @ [r] \<and> appends stage 1 s t) E
     (add_stage_record r s)"
  by (simp add: add_stage_record_def appends_def)

lemma record_stage_failure_post:
  "post (\<lambda>_ t. appends stage 1 s t) (\<lambda>_ t. appends stage 1 s t)
     (record_stage_failure env stage visit n ty s)"
  unfolding record_stage_failure_def
  by (rule post_bindI [OF add_stage_post [where stage = stage]],
      simp, simp, rule post_mono [OF ro.keeps_post [OF ro.keeps_emit]])
    (auto simp: appends_def rec_only_def)

lemma ro_post:
  assumes "ro.keeps m" and "\<And>t. rec_only s t \<Longrightarrow> P t"
  shows "post (\<lambda>_ t. P t) (\<lambda>_ t. P t) (m s)"
  by (rule post_mono [OF ro.keeps_post [OF assms(1)]]) (use assms(2) in auto)


text \<open>What one attempt leaves: a candidate and its record, or the exception of the callback.\<close>

definition attempt_ok :: "string \<Rightarrow> ('w, 'v) RunState \<Rightarrow> 'v StageAttempt \<Rightarrow> bool" where
  "attempt_ok stage t a \<longleftrightarrow> (case sa_record_index a of
       None \<Rightarrow> sa_handled_error a \<noteq> None
     | Some i \<Rightarrow> sa_handled_error a = None \<and> i < length (stages t) \<and> se_stage (stages t ! i) = stage \<and>
         \<not> se_accepted (stages t ! i) \<and> se_outcome (stages t ! i) = Some (sr_outcome (sa_stage_result a)))"

lemma attempt_ok_handled [simp]:
  "attempt_ok stage t \<lparr>sa_state_before = c, sa_stage_result = r, sa_record_index = None,
     sa_handled_error = Some fb\<rparr>"
  by (simp add: attempt_ok_def)

lemma attempt_ok_rec_only: "rec_only s t \<Longrightarrow> attempt_ok stage s a \<Longrightarrow> attempt_ok stage t a"
  by (simp add: attempt_ok_def rec_only_def split: option.splits)

lemma successful_record_post:
  "post (\<lambda>r t. rec_only s t \<and> \<not> se_accepted r \<and> se_stage r = stage \<and> se_outcome r = Some (sr_outcome result))
        (\<lambda>_ t. rec_only s t) (successful_stage_record env stage visit n before result s)"
proof -
  have "post (\<lambda>r t. \<not> se_accepted r \<and> se_stage r = stage \<and> se_outcome r = Some (sr_outcome result))
      (\<lambda>_ t. True) (successful_stage_record env stage visit n before result s)"
    unfolding successful_stage_record_def
    by (auto simp: post_def bindM_def returnM_app split: prod.splits sum.splits)
  from post_conj [OF ro.keeps_post [OF ro.keeps_successful_record] this] show ?thesis by simp
qed

lemma candidate_post:
  fixes env :: "('w, 'v) RunEnv"
  shows "post (\<lambda>r t. appends stage 1 s t \<and> (case r of Inl _ \<Rightarrow> False | Inr a \<Rightarrow> attempt_ok stage t a))
        (\<lambda>_ t. appends stage 1 s t)
     (bindM (successful_stage_record env stage visit n before result) (\<lambda>r.
      bindM (add_stage_record r) (\<lambda>index.
      bindM (emit env STAGE_FINISHED (Some stage) payload) (\<lambda>_.
      returnM (Inr \<lparr>sa_state_before = before, sa_stage_result = result,
                    sa_record_index = Some index, sa_handled_error = None\<rparr>)))) s)"
proof -
  have 1: "post (\<lambda>r t. stages t = stages s \<and> \<not> se_accepted r \<and> se_stage r = stage \<and>
       se_outcome r = Some (sr_outcome result)) (\<lambda>_ t. appends stage 1 s t)
     (successful_stage_record env stage visit n before result s)"
    by (rule post_mono [OF successful_record_post]) (auto simp: rec_only_stages rec_only_appends)
  show ?thesis
  proof (rule post_bindI, rule 1)
    fix r :: "'v StageExecution" and t :: "('w, 'v) RunState"
    let ?a = "\<lparr>sa_state_before = before, sa_stage_result = result,
      sa_record_index = Some (length (stages t)), sa_handled_error = None\<rparr>"
    let ?t = "t\<lparr>stages := stages t @ [r]\<rparr>"
    assume r: "stages t = stages s \<and> \<not> se_accepted r \<and> se_stage r = stage \<and>
       se_outcome r = Some (sr_outcome result)"
    have 3: "post (\<lambda>_ u. stages u = stages s @ [r]) (\<lambda>_ u. stages u = stages s @ [r])
        (emit env STAGE_FINISHED (Some stage) payload ?t)"
      by (rule ro_post [OF ro.keeps_emit]) (use r in \<open>simp add: rec_only_stages\<close>)
    show "post (\<lambda>r t. appends stage 1 s t \<and> (case r of Inl _ \<Rightarrow> False | Inr a \<Rightarrow> attempt_ok stage t a))
        (\<lambda>_ t. appends stage 1 s t)
        (bindM (add_stage_record r) (\<lambda>index.
          bindM (emit env STAGE_FINISHED (Some stage) payload) (\<lambda>_.
          returnM (Inr \<lparr>sa_state_before = before, sa_stage_result = result,
                        sa_record_index = Some index, sa_handled_error = None\<rparr>))) t)"
      unfolding post_bindM post_add_stage
      by (rule post_mono [OF 3]) (use r in \<open>auto simp: appends_def attempt_ok_def nth_append\<close>)
  qed
qed

text \<open>After a callback failure nothing has been recorded yet; a candidate has its record.\<close>

definition attempted :: "string \<Rightarrow> ('w, 'v) RunState \<Rightarrow> exn + 'v StageAttempt \<Rightarrow> ('w, 'v) RunState \<Rightarrow> bool" where
  "attempted stage s r t \<longleftrightarrow> (case r of
       Inl _ \<Rightarrow> appends stage 0 s t
     | Inr a \<Rightarrow> appends stage 1 s t \<and> attempt_ok stage t a)"

lemma execute_attempt_post:
  "post (attempted stage s) (\<lambda>_ t. appends stage 1 s t)
     (execute_attempt env stage d visit n before input s)"
proof -
  let ?Q = "attempted stage s"
  let ?E = "\<lambda>_ t. appends stage 1 s t"
  have fail: "post ?Q ?E (bindM (record_stage_failure env stage visit n ty) (\<lambda>_. throwM err) t)"
    if "rec_only s t" for ty err t
    unfolding post_bindM post_throwM
    by (rule post_mono [OF record_stage_failure_post]) (rule rec_only_left [OF that], assumption)+
  have cand: "post ?Q ?E
     (bindM (successful_stage_record env stage visit n before result) (\<lambda>r.
      bindM (add_stage_record r) (\<lambda>index.
      bindM (emit env STAGE_FINISHED (Some stage) payload) (\<lambda>_.
      returnM (Inr \<lparr>sa_state_before = before, sa_stage_result = result,
                    sa_record_index = Some index, sa_handled_error = None\<rparr>)))) t)"
    if "rec_only s t" for result payload t
    by (rule post_mono [OF candidate_post])
      (simp_all add: attempted_def rec_only_left [OF that] split: sum.splits)
  have em: "post (\<lambda>_ t. rec_only s t) ?E (emit env STAGE_STARTED (Some stage) payload s)" for payload
    by (rule post_mono [OF ro.keeps_post [OF ro.keeps_emit]]) (auto intro: rec_only_appends)
  have inv: "post (\<lambda>_ u. rec_only s u) ?E (invoke_stage env d ctx t)" if "rec_only s t" for ctx t
    by (rule post_mono [OF ro.keeps_post [OF ro.keeps_invoke_stage]])
      (use that ro.R_trans in \<open>blast intro: rec_only_appends\<close>)+
  show ?thesis
    unfolding execute_attempt_def
    apply (rule post_bindI [where P = "\<lambda>x t. t = s"], simp)
    apply (rule post_bindI [where P = "\<lambda>x t. t = s"], simp add: post_liftE split: sum.split)
    apply (rule post_bindI [where P = "\<lambda>x t. rec_only s t"], simp only: em)
    apply (rule post_bindI [where P = "\<lambda>x t. rec_only s t"], rule inv, assumption)
    apply (auto split: outcome.split sum.split intro!: fail cand
        simp: rec_only_appends attempted_def [where r = "Inl _"] simp del: post_bindM One_nat_def)
    done
qed

text \<open>The retry loop records at most one execution per attempt number.\<close>

lemma execute_attempts_from_post:
  "post (\<lambda>a t. appends stage (length ns) s t \<and> attempt_ok stage t a)
        (\<lambda>_ t. appends stage (length ns) s t)
     (execute_attempts_from env stage d visit ns s)"
proof (induction ns arbitrary: s)
  case Nil
  show ?case by simp
next
  case (Cons n ns)
  let ?Q = "\<lambda>a t. appends stage (Suc (length ns)) s t \<and> attempt_ok stage t a"
  let ?E = "\<lambda>_ t. appends stage (Suc (length ns)) s t"
  have up: "appends stage 1 s t \<Longrightarrow> appends stage (Suc (length ns)) s t" for t
    by (erule appends_mono) simp
  have rest: "post ?Q ?E (execute_attempts_from env stage d visit ns t)" if "appends stage 1 s t" for t
    by (rule post_mono [OF Cons.IH]) (use that in \<open>auto dest: appends_trans\<close>)
  have att: "post (attempted stage s) ?E (execute_attempt env stage d visit (int n) b i s)" for b i
    by (rule post_mono [OF execute_attempt_post]) (auto intro: up simp del: One_nat_def)
  have fail: "post (\<lambda>_ t. appends stage 1 s t) ?E (record_stage_failure env stage visit (int n) ty t)"
    if "appends stage 0 s t" for t ty
    by (rule post_mono [OF record_stage_failure_post])
      (use appends_trans [OF that, of 1] up in auto)
  have wait: "post (\<lambda>_ t. appends stage 1 s t) ?E (wait_before_retry env p n t)"
    if "appends stage 1 s t" for t p
    by (rule post_mono [OF ro.keeps_post [OF ro.keeps_wait]])
      (use that up in \<open>auto simp: appends_def rec_only_stages\<close>)
  show ?case
    unfolding execute_attempts_from.simps list.size(4) add.commute [of _ "Suc 0"] plus_1_eq_Suc add_Suc add_0
    apply (rule post_bindI [where P = "\<lambda>x t. t = s"], simp)
    apply (rule post_bindI [where P = "\<lambda>x t. t = s"], simp add: post_cloneM split: sum.split)
    apply (rule post_bindI [where P = "\<lambda>x t. t = s"], simp add: post_cloneM split: sum.split)
    apply (rule post_bindI [where P = "attempted stage s"], simp only: att)
    subgoal for c ta b tb i tc r t
    proof (cases r)
      case (Inr a)
      then show "attempted stage s r t \<Longrightarrow> ?thesis"
        using up by (simp add: attempted_def)
    next
      case (Inl e)
      assume "attempted stage s r t"
      then have t: "appends stage 0 s t" using Inl by (simp add: attempted_def)
      show ?thesis
        unfolding Inl sum.case
        apply (rule post_bindI, rule fail, rule t)
        using up
        apply (auto intro!: post_mono [OF wait] rest simp: post_liftE
            simp del: One_nat_def split: sum.split option.split)
        done
    qed
    done
qed

end
