(* ===== verification/WF_Invariant.thy ===== *)
theory WF_Invariant
  imports WF_Props
begin

text \<open>
  The invariant of a run, carried through a stage visit (\<open>run_stage_post\<close>), one selection
  (\<open>advance_step_post\<close>) and the two loops (\<open>advance_post\<close>, \<open>execute_stages_post\<close>).  It ties the
  evidence the machine records to the graph: numbering, gates, the walk of the accepted
  transitions, the committed state and the number of stage executions.
\<close>

definition destinations :: "('w, 'v) Route \<Rightarrow> (string \<times> ('w, 'v) Validator list) list" where
  "destinations r = (case r of
       Direct d \<Rightarrow> [(dr_target d, dr_guards d)]
     | Branch _ rs \<Rightarrow> map (\<lambda>(_, d). (dr_target d, dr_guards d)) rs)"

definition declared ::
  "('w, 'v) RunEnv \<Rightarrow> string \<Rightarrow> string \<Rightarrow> string \<Rightarrow> ('w, 'v) Validator list \<Rightarrow> bool" where
  "declared env source out target guards \<longleftrightarrow>
     (case map_of (cg_routes (re_def env)) (source, out) of
        None \<Rightarrow> False
      | Some r \<Rightarrow> List.member (destinations r) (target, guards))"

lemma destinations_targets: "(t, gs) \<in> set (destinations r) \<Longrightarrow> t \<in> set (route_targets r)"
  by (force simp: destinations_def route_targets_def split: Route.splits)

text \<open>An accepted transition passed the guards of its declared route, an accepted stage its validators.\<close>

definition transition_gated :: "('w, 'v) RunEnv \<Rightarrow> TransitionRecord \<Rightarrow> bool" where
  "transition_gated env tr \<longleftrightarrow> (\<exists>guards.
     declared env (tr_source tr) (tr_outcome tr) (tr_target tr) guards \<and>
     (tr_accepted tr \<longrightarrow> gate_ok env guards (tr_validations tr)))"

definition stage_gated :: "('w, 'v) RunEnv \<Rightarrow> 'v StageExecution \<Rightarrow> bool" where
  "stage_gated env se \<longleftrightarrow> (\<exists>d. map_of (cg_stages (re_def env)) (se_stage se) = Some d \<and>
     gate_ok env (sd_validators d) (se_validations se))"

definition accepted_stages_gated :: "('w, 'v) RunEnv \<Rightarrow> 'v StageExecution list \<Rightarrow> bool" where
  "accepted_stages_gated env ss \<longleftrightarrow> (\<forall>se \<in> set ss. se_accepted se \<longrightarrow> stage_gated env se)"

definition contract_ok :: "('w, 'v) RunEnv \<Rightarrow> 'v \<Rightarrow> bool" where
  "contract_ok env v \<longleftrightarrow> (\<exists>u. contract_validate (cg_contract (re_def env)) u = Inr v)"

fun walk :: "string \<Rightarrow> (string \<times> string) list \<Rightarrow> string \<Rightarrow> bool" where
  "walk a [] b \<longleftrightarrow> a = b"
| "walk a ((x, y) # ps) b \<longleftrightarrow> a = x \<and> walk y ps b"

lemma walk_append: "walk a (ps @ qs) b \<longleftrightarrow> (\<exists>c. walk a ps c \<and> walk c qs b)"
  by (induction a ps b rule: walk.induct) auto

definition taken :: "TransitionRecord list \<Rightarrow> (string \<times> string) list" where
  "taken trs = map (\<lambda>tr. (tr_source tr, tr_target tr)) (filter tr_accepted trs)"

lemma taken_snoc:
  "taken (trs @ [tr]) = taken trs @ (if tr_accepted tr then [(tr_source tr, tr_target tr)] else [])"
  by (simp add: taken_def)

definition attempts_bound :: "('w, 'v) RunEnv \<Rightarrow> nat" where
  "attempts_bound env = foldr max (map (\<lambda>(_, d). nat (max_attempts (retry (sd_policy d))))
     (cg_stages (re_def env))) 0"

lemma foldr_max: "x \<in> set xs \<Longrightarrow> x \<le> foldr max xs (0::nat)"
  by (induction xs) auto

lemma attempts_bound:
  "map_of (cg_stages (re_def env)) stage = Some d \<Longrightarrow>
   nat (max_attempts (retry (sd_policy d))) \<le> attempts_bound env"
  unfolding attempts_bound_def by (rule foldr_max) (force dest: map_of_SomeD)

subsection \<open>The invariant\<close>

text \<open>\<open>k\<close> is the number of stage visits begun, \<open>pos\<close> where the accepted transitions have led.\<close>

definition run_inv :: "('w, 'v) RunEnv \<Rightarrow> nat \<Rightarrow> string \<Rightarrow> ('w, 'v) RunState \<Rightarrow> bool" where
  "run_inv env k pos s \<longleftrightarrow>
     map tr_sequence (transitions s) = [1..transition_count s] \<and>
     0 \<le> transition_count s \<and> transition_count s \<le> budget env \<and>
     list_all (transition_gated env) (transitions s) \<and>
     accepted_stages_gated env (stages s) \<and>
     contract_ok env (committed_state s) \<and>
     walk (cg_entry (re_def env)) (taken (transitions s)) pos \<and>
     length (stages s) \<le> k * attempts_bound env"

definition decision_ok :: "('w, 'v) RunEnv \<Rightarrow> ('w, 'v) RunState \<Rightarrow> 'v StageDecision \<Rightarrow> bool" where
  "decision_ok env s d \<longleftrightarrow> (d_can_commit d \<longrightarrow>
     (\<exists>i. d_record_index d = Some i \<and> i < length (stages s) \<and> stage_gated env (stages s ! i)))"

lemma rec_only_inv: "rec_only s t \<Longrightarrow> run_inv env k pos t \<longleftrightarrow> run_inv env k pos s"
  by (simp add: rec_only_def quiet_def run_inv_def)

lemma rec_only_taken: "rec_only s t \<Longrightarrow> taken (transitions t) = taken (transitions s)"
  by (simp add: rec_only_def quiet_def)

lemma rec_only_decision: "rec_only s t \<Longrightarrow> decision_ok env t d \<longleftrightarrow> decision_ok env s d"
  by (simp add: rec_only_def decision_ok_def)

lemma normalize_clone_contract: "normalize_clone env v b = Inr x \<Longrightarrow> contract_ok env x"
  by (auto simp: normalize_clone_def contract_ok_def split: sum.splits elim!: bindE_InrE)

lemma accepted_stages_update:
  "accepted_stages_gated env ss \<Longrightarrow> (i < length ss \<Longrightarrow> se_accepted r \<Longrightarrow> stage_gated env r) \<Longrightarrow>
   accepted_stages_gated env (ss[i := r])"
  unfolding accepted_stages_gated_def
  by (metis in_set_conv_nth length_list_update nth_list_update_eq nth_list_update_neq)

lemma appends_accepted:
  "appends stage k s t \<Longrightarrow> accepted_stages_gated env (stages s) \<Longrightarrow> accepted_stages_gated env (stages t)"
  by (auto simp: appends_def accepted_stages_gated_def)

subsection \<open>A stage visit\<close>

lemma post_attach [simp]:
  "post Q E (attach_stage_validations i vs s) =
   Q () (s\<lparr>stages := (stages s)[i := (stages s ! i)\<lparr>se_validations := vs\<rparr>]\<rparr>)"
  by (simp add: attach_stage_validations_def)

text \<open>The stage records after a visit: the new ones carry no acceptance, the candidate's is gated.\<close>

definition visited ::
  "('w, 'v) RunEnv \<Rightarrow> nat \<Rightarrow> ('w, 'v) RunState \<Rightarrow> ('w, 'v) RunState \<Rightarrow> bool" where
  "visited env k s t \<longleftrightarrow>
     (accepted_stages_gated env (stages s) \<longrightarrow> accepted_stages_gated env (stages t)) \<and>
     length (stages t) \<le> length (stages s) + k"

lemma appends_visited: "appends stage k s t \<Longrightarrow> visited env k s t"
  using appends_accepted [of stage k s t env] by (auto simp: visited_def appends_def)

lemma visited_rec_only: "visited env k s t \<Longrightarrow> rec_only t u \<Longrightarrow> visited env k s u"
  by (simp add: visited_def rec_only_stages)

lemma post_raise_validation_error:
  "(\<And>e. E e s) \<Longrightarrow> post Q E (raise_validation_error env stage r ph t s)"
  by (auto simp: raise_validation_error_def post_liftE split: option.split sum.split)

lemma post_rejected_decision:
  "(\<And>d. \<not> d_can_commit d \<Longrightarrow> d_source d = stage \<Longrightarrow> Q d s) \<Longrightarrow> (\<And>e. E e s) \<Longrightarrow>
   post Q E (rejected_stage_decision env stage attempt v s)"
  by (auto simp: rejected_stage_decision_def post_liftE split: option.split sum.split)


lemma validate_stage_post:
  assumes d: "map_of (cg_stages (re_def env)) stage = Some d"
    and a: "attempt_ok stage s a" "sa_handled_error a = None"
    and A: "\<And>d t. visited env 0 s t \<Longrightarrow> decision_ok env t d \<Longrightarrow> d_source d = stage \<Longrightarrow> Q d t"
  shows "post Q (\<lambda>_ _. True) (validate_stage env stage d a s)"
proof -
  obtain i where i: "sa_record_index a = Some i" "i < length (stages s)" "se_stage (stages s ! i) = stage"
    "\<not> se_accepted (stages s ! i)"
    using a by (auto simp: attempt_ok_def split: option.splits)
  have ins: "post (\<lambda>_ t. rec_only s t) (\<lambda>_ _. True) (inspection_result env r b s)" for r b
    by (rule post_mono [OF ro.keeps_post [OF ro.keeps_inspection]]) auto
  have ev: "post (\<lambda>v u. rec_only t u \<and> (vd_passed v \<longrightarrow> gate_ok env vs (vd_records v) \<and> \<not> vd_must_raise v))
      (\<lambda>_ _. True) (evaluate env vs ctx t)" for vs ctx t
    by (rule post_mono [OF evaluate_post]) auto
  have decide: "post Q (\<lambda>_ _. True)
      (bindM (case sa_record_index a of None \<Rightarrow> returnM ()
                | Some i \<Rightarrow> attach_stage_validations i (vd_records v)) (\<lambda>_.
         if vd_must_raise v then raise_validation_error env stage (vd_result v) STAGE None
         else if vd_passed v
         then bindM (getM feedback) (\<lambda>fbs.
           returnM \<lparr>d_source = stage, d_state_before = sa_state_before a,
              d_candidate_state = sr_state (sa_stage_result a), d_stage_result = sa_stage_result a,
              d_can_commit = True, d_trigger = ''stage_outcome'', d_feedback = fbs,
              d_record_index = sa_record_index a\<rparr>)
         else rejected_stage_decision env stage a v) u)"
    if t: "rec_only s t" and u: "rec_only t u"
      and v: "vd_passed v \<longrightarrow> gate_ok env (sd_validators d) (vd_records v) \<and> \<not> vd_must_raise v" for t u v
  proof -
    from t u have su: "stages u = stages s" by (metis rec_only_stages)
    let ?r = "(stages u ! i)\<lparr>se_validations := vd_records v\<rparr>"
    let ?u = "u\<lparr>stages := (stages u)[i := ?r]\<rparr>"
    have vis: "visited env 0 s ?u"
      using i by (auto simp: visited_def su intro: accepted_stages_update)
    have ok: "decision_ok env ?u dec" if "d_record_index dec = Some i" "vd_passed v" for dec
      using that i d v by (auto simp: decision_ok_def stage_gated_def su)
    have rej: "decision_ok env ?u dec" if "\<not> d_can_commit dec" for dec
      using that by (simp add: decision_ok_def)
    show ?thesis
    proof (cases "vd_passed v")
      case True
      then show ?thesis using v by (auto intro!: A vis ok simp: i)
    next
      case False
      then show ?thesis
        unfolding i(1) option.case
        by (auto intro!: post_raise_validation_error post_rejected_decision A vis rej simp: i)
    qed
  qed
  show ?thesis
    unfolding validate_stage_def
    apply (rule post_bindI, rule ins)
    apply (rule post_bindI [where P = "\<lambda>_ t. rec_only s t"], simp add: post_cloneM split: sum.split)
    apply (rule post_bindI [where P = "\<lambda>_ t. rec_only s t"], simp)
    apply (rule post_bindI [where P = "\<lambda>_ t. rec_only s t"], simp add: post_liftE split: sum.split)
    apply (rule post_bindI, rule ev)
    apply (elim conjE, rule decide [rotated], assumption+)
    done
qed

lemma run_stage_post:
  "post (\<lambda>d t. quiet s t \<and> visited env (attempts_bound env) s t \<and> decision_ok env t d \<and> d_source d = stage)
     (\<lambda>_ _. True) (run_stage env stage s)"
proof (cases "map_of (cg_stages (re_def env)) stage")
  case None
  then show ?thesis by (simp add: run_stage_def)
next
  case (Some d)
  let ?m = "nat (max_attempts (retry (sd_policy d)))"
  let ?Q = "\<lambda>d t. visited env ?m s t \<and> decision_ok env t d \<and> d_source d = stage"
  have up: "visited env (attempts_bound env) s t" if "visited env ?m s t" for t
    using that attempts_bound [OF Some] by (auto simp: visited_def)
  have visit: "post (\<lambda>_ t. stages t = stages s) E (next_visit stage s)" for E
    by (simp add: next_visit_def Let_def)
  have attempts: "post (\<lambda>a t. visited env ?m s t \<and> attempt_ok stage t a) (\<lambda>_ _. True)
      (execute_attempts env stage d v t)" if "stages t = stages s" for v t
  proof -
    have len: "length [1..<?m + 1] = ?m" by (simp only: length_upt diff_add_inverse2)
    show ?thesis
      unfolding execute_attempts_def
      by (rule post_mono [OF execute_attempts_from_post], unfold len)
        (use that appends_visited [of stage ?m t _ env] in \<open>auto simp: visited_def\<close>)
  qed
  have "post ?Q (\<lambda>_ _. True) (run_stage env stage s)"
    unfolding run_stage_def Some option.case
    apply (rule post_bindI, rule visit)
    apply (rule post_bindI, rule attempts, assumption)
    subgoal for v t0 a t
      by (auto split: option.split simp: handled_stage_error_def decision_ok_def visited_def
          intro!: validate_stage_post [OF Some])
    done
  from post_conj [OF this qt.keeps_post [OF qt.keeps_run_stage, of _ env stage]]
  show ?thesis by (rule post_mono) (auto intro: up)
qed


subsection \<open>One selection\<close>

text \<open>The destination chosen is declared for the decision's source and outcome.\<close>

lemma select_route_post:
  "post (\<lambda>sel t. rec_only s t \<and>
       declared env (d_source d) (sr_outcome (d_stage_result d)) (sel_target sel) (sel_guards sel))
     (\<lambda>_ _. True) (select_route env d s)"
proof -
  let ?D = "\<lambda>sel t. declared env (d_source d) (sr_outcome (d_stage_result d)) (sel_target sel) (sel_guards sel)"
  have branch: "post ?D (\<lambda>_ _. True) (select_branch env d router rs t)"
    if r: "map_of (cg_routes (re_def env)) (d_source d, sr_outcome (d_stage_result d)) = Some (Branch router rs)"
    for router rs t
  proof -
    have dest: "declared env (d_source d) (sr_outcome (d_stage_result d)) (dr_target x) (dr_guards x)"
      if "map_of rs key = Some x" for key x
      using r map_of_SomeD [OF that] by (force simp: declared_def destinations_def)
    show ?thesis
      unfolding select_branch_def
      by (auto simp: post_def bindM_def returnM_app throwM_app Let_def intro!: dest
          split: prod.splits sum.splits outcome.splits option.splits)
  qed
  have "post ?D (\<lambda>_ _. True) (select_route env d s)"
    unfolding select_route_def
    by (auto split: option.split Route.split intro!: branch)
      (simp add: declared_def destinations_def)
  from post_conj [OF this ro.keeps_post [OF ro.keeps_select_route, of s env d]]
  show ?thesis by (rule post_mono) auto
qed

lemma run_guards_post:
  "post (\<lambda>g t. rec_only s t \<and> (vd_passed g \<longrightarrow> gate_ok env (sel_guards sel) (vd_records g) \<and> \<not> vd_must_raise g))
     (\<lambda>_ _. True) (run_guards env d sel s)"
proof -
  have "post (\<lambda>g t. vd_passed g \<longrightarrow> gate_ok env (sel_guards sel) (vd_records g) \<and> \<not> vd_must_raise g)
     (\<lambda>_ _. True) (run_guards env d sel s)"
    unfolding run_guards_def
    apply (rule post_bindI [where P = "\<lambda>_ _. True"], simp add: post_def split: prod.split sum.split)
    apply (rule post_bindI [where P = "\<lambda>_ _. True"], simp)
    apply (rule post_bindI [where P = "\<lambda>_ _. True"], simp add: post_cloneM split: sum.split)
    apply (rule post_bindI [where P = "\<lambda>_ _. True"], simp add: post_liftE split: sum.split)
    apply (rule post_mono [OF evaluate_post])
     apply auto
    done
  from post_conj [OF this ro.keeps_post [OF ro.keeps_run_guards, of s env d sel]]
  show ?thesis by (rule post_mono) auto
qed

text \<open>An accepted transition: a candidate is committed only with a gated record.\<close>

lemma post_emit_rec_only:
  "(\<And>t. rec_only s t \<Longrightarrow> P () t) \<Longrightarrow> post P (\<lambda>_ _. True) (emit env ty stage payload s)"
  by (rule post_mono [OF ro.keeps_post [OF ro.keeps_emit]]) auto

definition arrived :: "('w, 'v) RunEnv \<Rightarrow> string \<Rightarrow> string option \<Rightarrow> ('w, 'v) RunState \<Rightarrow> bool" where
  "arrived env target terminal t \<longleftrightarrow> (case terminal of
        Some name \<Rightarrow> name = target \<and> name \<in> fst ` set (cg_terminals (re_def env))
      | None \<Rightarrow> current_stage t = target \<and> target \<notin> fst ` set (cg_terminals (re_def env)))"

definition after_accept ::
  "('w, 'v) RunEnv \<Rightarrow> string \<Rightarrow> string option \<Rightarrow> ('w, 'v) RunState \<Rightarrow> ('w, 'v) RunState \<Rightarrow> bool" where
  "after_accept env target terminal s t \<longleftrightarrow>
     transition_count t = transition_count s \<and> transitions t = transitions s \<and>
     length (stages t) = length (stages s) \<and>
     (accepted_stages_gated env (stages s) \<longrightarrow> accepted_stages_gated env (stages t)) \<and>
     (contract_ok env (committed_state s) \<longrightarrow> contract_ok env (committed_state t)) \<and>
     arrived env target terminal t"

lemma commit_post:
  assumes "d_can_commit d" "decision_ok env s d"
  shows "post (\<lambda>_ t. transition_count t = transition_count s \<and> transitions t = transitions s \<and>
       length (stages t) = length (stages s) \<and>
       (accepted_stages_gated env (stages s) \<longrightarrow> accepted_stages_gated env (stages t)) \<and>
       contract_ok env (committed_state t))
     (\<lambda>_ _. True) (commit_candidate env d sel s)"
proof -
  obtain i where i: "d_record_index d = Some i" "i < length (stages s)" "stage_gated env (stages s ! i)"
    using assms by (auto simp: decision_ok_def)
  have acc: "accepted_stages_gated env (stages s) \<Longrightarrow>
      accepted_stages_gated env ((stages s)[i := (stages s ! i)\<lparr>se_accepted := True\<rparr>])"
    using i by (auto intro!: accepted_stages_update simp: stage_gated_def)
  show ?thesis
    unfolding commit_candidate_def i(1) option.case
    by (auto simp: post_cloneM accept_stage_def rec_only_def quiet_def acc
        intro!: post_emit_rec_only normalize_clone_contract split: sum.split)
qed

lemma accept_transition_post:
  assumes "decision_ok env s d"
  shows "post (\<lambda>terminal t. after_accept env (sel_target sel) terminal s t) (\<lambda>_ _. True)
     (accept_transition env d sel s)"
proof -
  let ?P = "\<lambda>_ t. transition_count t = transition_count s \<and> transitions t = transitions s \<and>
       length (stages t) = length (stages s) \<and>
       (accepted_stages_gated env (stages s) \<longrightarrow> accepted_stages_gated env (stages t)) \<and>
       (contract_ok env (committed_state s) \<longrightarrow> contract_ok env (committed_state t))"
  have "post ?P (\<lambda>_ _. True)
      ((if d_can_commit d then commit_candidate env d sel else updM (\<lambda>st. st\<lparr>feedback := d_feedback d\<rparr>)) s)"
    using assms by (auto intro!: post_mono [OF commit_post])
  then show ?thesis
    unfolding accept_transition_def
    by (rule post_bindI) (auto simp: after_accept_def arrived_def)
qed


text \<open>
  One iteration of \<open>_advance\<close>.  It ends the selection (\<open>Inl\<close>), with an accepted transition to a
  terminal or to the next stage, or turns a rejection into the next decision (\<open>Inr\<close>).
\<close>

definition advanced ::
  "('w, 'v) RunEnv \<Rightarrow> nat \<Rightarrow> string option + 'v StageDecision \<Rightarrow> ('w, 'v) RunState \<Rightarrow> bool" where
  "advanced env k r t \<longleftrightarrow> (case r of
       Inl None \<Rightarrow> run_inv env k (current_stage t) t \<and> k = length (taken (transitions t)) \<and>
         current_stage t \<notin> fst ` set (cg_terminals (re_def env)) \<and>
         (\<exists>src out gs. declared env src out (current_stage t) gs)
     | Inl (Some name) \<Rightarrow> run_inv env k name t \<and> k = length (taken (transitions t)) \<and> name \<in> fst ` set (cg_terminals (re_def env))
     | Inr d \<Rightarrow> run_inv env k (d_source d) t \<and> k = length (taken (transitions t)) + 1 \<and> decision_ok env t d)"

text \<open>The state between the selection of a destination and its record.\<close>

definition selecting ::
  "('w, 'v) RunEnv \<Rightarrow> nat \<Rightarrow> 'v StageDecision \<Rightarrow> int \<Rightarrow> ('w, 'v) RunState \<Rightarrow> bool" where
  "selecting env k d n s \<longleftrightarrow> transition_count s = n \<and> 0 < n \<and> n \<le> budget env \<and>
     map tr_sequence (transitions s) = [1..n - 1] \<and>
     list_all (transition_gated env) (transitions s) \<and>
     accepted_stages_gated env (stages s) \<and> contract_ok env (committed_state s) \<and>
     walk (cg_entry (re_def env)) (taken (transitions s)) (d_source d) \<and>
     k = length (taken (transitions s)) + 1 \<and> length (stages s) \<le> k * attempts_bound env"

lemma selecting_rec_only: "rec_only s t \<Longrightarrow> selecting env k d n t \<longleftrightarrow> selecting env k d n s"
  by (simp add: rec_only_def quiet_def selecting_def)

lemma upto_snoc_int: "0 < n \<Longrightarrow> [1..n - 1] @ [n] = [1..(n::int)]"
  by (simp add: upto_rec2 [of 1 n])

lemma post_append_transition [simp]:
  "post Q E (append_transition_record n d sel vs acc s) = Q () (s\<lparr>transitions := transitions s @
     [\<lparr>tr_sequence = n, tr_source = d_source d, tr_target = sel_target sel,
       tr_outcome = sr_outcome (d_stage_result d), tr_accepted = acc,
       tr_trigger = d_trigger d, tr_validations = vs\<rparr>]\<rparr>)"
  by (simp add: append_transition_record_def)

lemma post_consume [simp]:
  "post Q E (consume_transition s) =
   Q (transition_count s + 1) (s\<lparr>transition_count := transition_count s + 1\<rparr>)"
  by (simp add: consume_transition_def Let_def)

lemma redirect_post:
  "post (\<lambda>d' t. rec_only s t \<and> \<not> d_can_commit d' \<and> d_source d' = d_source d) (\<lambda>_ _. True)
     (redirect_guard_rejection env d sel g s)"
proof -
  have "post (\<lambda>d' t. \<not> d_can_commit d' \<and> d_source d' = d_source d) (\<lambda>_ _. True)
     (redirect_guard_rejection env d sel g s)"
    unfolding redirect_guard_rejection_def
    by (auto simp: post_def bindM_def returnM_app throwM_app split: prod.split sum.split)
  from post_conj [OF this ro.keeps_post [OF ro.keeps_redirect, of s env d sel g]]
  show ?thesis by (rule post_mono) auto
qed

lemma selecting_record:
  assumes "selecting env k d n s"
    and "transition_gated env \<lparr>tr_sequence = n, tr_source = d_source d, tr_target = target,
           tr_outcome = out, tr_accepted = acc, tr_trigger = trig, tr_validations = vs\<rparr>"
  shows "run_inv env k (if acc then target else d_source d)
    (s\<lparr>transitions := transitions s @ [\<lparr>tr_sequence = n, tr_source = d_source d, tr_target = target,
           tr_outcome = out, tr_accepted = acc, tr_trigger = trig, tr_validations = vs\<rparr>]\<rparr>) \<and>
    k = length (taken (transitions s @ [\<lparr>tr_sequence = n, tr_source = d_source d, tr_target = target,
           tr_outcome = out, tr_accepted = acc, tr_trigger = trig, tr_validations = vs\<rparr>])) + (if acc then 0 else 1)"
  using assms by (auto simp: selecting_def run_inv_def upto_snoc_int taken_snoc walk_append)

lemma advance_step_post:
  assumes "run_inv env k (d_source d) s" "k = length (taken (transitions s)) + 1" "decision_ok env s d"
  shows "post (advanced env k) (\<lambda>_ _. True) (advance_step env d s)"
proof -
  let ?D = "\<lambda>sel. declared env (d_source d) (sr_outcome (d_stage_result d)) (sel_target sel) (sel_guards sel)"
  let ?S = "\<lambda>n t. selecting env k d n t \<and> decision_ok env t d"
  have start: "?S (transition_count t + 1) (t\<lparr>transition_count := transition_count t + 1\<rparr>)"
    if "rec_only s t" "transition_count t + 1 \<le> budget env" for t
    using that assms by (auto simp: rec_only_def quiet_def selecting_def run_inv_def decision_ok_def)
  have frame: "?S n u" if "rec_only t u" "?S n t" for t u n
    using that by (simp add: selecting_rec_only rec_only_decision)
  have emitted: "post (\<lambda>_ u. rec_only t u) (\<lambda>_ _. True) (emit_transition_selected env d sel n t)" for sel n t
    by (rule post_mono [OF ro.keeps_post [OF ro.keeps_emit_selected]]) auto
  have guarded: "post (\<lambda>g u. ?S n u \<and> (vd_passed g \<longrightarrow> gate_ok env (sel_guards sel) (vd_records g) \<and> \<not> vd_must_raise g))
      (\<lambda>_ _. True) (run_guards env d sel t)" if "?S n t" for n sel t
    by (rule post_mono [OF run_guards_post]) (use frame that in blast)+
  have accepted: "post (\<lambda>terminal u. selecting env k d n u \<and> arrived env (sel_target sel) terminal u)
      (\<lambda>_ _. True) (accept_transition env d sel t)" if "?S n t" for n sel t
    by (rule post_mono [OF accept_transition_post])
      (use that in \<open>auto simp: selecting_def after_accept_def\<close>)
  have gated: "transition_gated env \<lparr>tr_sequence = n, tr_source = d_source d, tr_target = sel_target sel,
      tr_outcome = sr_outcome (d_stage_result d), tr_accepted = acc, tr_trigger = trig, tr_validations = vs\<rparr>"
    if "?D sel" "acc \<longrightarrow> gate_ok env (sel_guards sel) vs" for n sel acc trig vs
    using that by (auto simp: transition_gated_def)
  have rejected: "post (advanced env k) (\<lambda>_ _. True)
      (bindM (append_transition_record n d sel (vd_records g) False) (\<lambda>_.
       bindM (redirect_guard_rejection env d sel g) (\<lambda>d'. returnM (Inr d'))) t)"
    if "?S n t" "?D sel" for n sel t g
    unfolding post_bindM post_append_transition
    by (rule post_mono [OF redirect_post])
      (use that selecting_record [of env k d n t "sel_target sel" _ False, OF _ gated]
        in \<open>auto simp: advanced_def decision_ok_def rec_only_inv rec_only_taken\<close>)
  have done_: "post (advanced env k) (\<lambda>_ _. True)
      (bindM (accept_transition env d sel) (\<lambda>terminal.
       bindM (append_transition_record n d sel (vd_records g) True) (\<lambda>_. returnM (Inl terminal))) t)"
    if "?S n t" "?D sel" "gate_ok env (sel_guards sel) (vd_records g)" for n sel t g
    by (rule post_bindI, rule accepted, rule that)
      (use that selecting_record [of env k d n _ "sel_target sel" _ True, OF _ gated]
        in \<open>auto simp: advanced_def arrived_def split: option.splits\<close>)
  show ?thesis
    unfolding advance_step_def
    apply (rule post_bindI, rule select_route_post)
    apply (rule post_bindI [where P = "\<lambda>n u. n \<le> budget env \<longrightarrow> ?S n u"], simp add: start)
    apply (rule post_bindI [where P = "\<lambda>_ u. xa \<le> budget env \<longrightarrow> ?S xa u" for xa])
     apply (rule post_mono [OF emitted])
    using frame apply blast
     apply simp
    apply (simp only: budget_def [symmetric] split: if_split)
    apply (intro conjI impI)
     apply simp
    apply (rule post_bindI, rule guarded, simp)
    apply (auto simp del: post_bindM intro: done_ rejected intro!: post_raise_validation_error)
    apply (auto intro!: post_raise_validation_error)
    done
qed


subsection \<open>The loops\<close>

lemma advance_post:
  "run_inv env k (d_source d) s \<Longrightarrow> k = length (taken (transitions s)) + 1 \<Longrightarrow> decision_ok env s d \<Longrightarrow>
   post (\<lambda>r. advanced env k (Inl r :: string option + 'v StageDecision)) (\<lambda>_ _. True) (advance env (d :: 'v StageDecision) s)"
proof (induction env d s rule: advance.induct)
  case (1 env d s)
  obtain r t where step: "advance_step env d s = (r, t)" by fastforce
  show ?case
  proof (cases r)
    case (Inl e)
    then show ?thesis using step by (simp add: advance.simps [of env d s] bindM_Inl)
  next
    case (Inr x)
    with step have ok: "advance_step env d s = (Inr x, t)" by simp
    have adv: "advanced env k x t" by (rule postD_Inr [OF advance_step_post [OF 1(2-4)] ok])
    show ?thesis
    proof (cases x)
      case (Inl terminal)
      then show ?thesis using ok adv by (simp add: advance.simps [of env d s] bindM_Inr)
    next
      case (Inr d')
      then show ?thesis
        using ok adv "1.IH" [OF ok Inr]
        by (auto simp: advance.simps [of env d s] bindM_Inr advanced_def [of _ _ "Inr _"])
    qed
  qed
qed

text \<open>
  A complete result: every part of the invariant holds of the evidence it carries, and it ends
  at a declared terminal with that terminal's status.
\<close>

definition evidence_ok :: "('w, 'v) RunEnv \<Rightarrow> ('w, 'v) StateMachineResult \<Rightarrow> bool" where
  "evidence_ok env res \<longleftrightarrow>
     map tr_sequence (smr_transitions res) = [1..int (length (smr_transitions res))] \<and>
     int (length (smr_transitions res)) \<le> budget env \<and>
     list_all (transition_gated env) (smr_transitions res) \<and>
     accepted_stages_gated env (smr_stages res) \<and>
     contract_ok env (smr_state res) \<and>
     walk (cg_entry (re_def env)) (taken (smr_transitions res)) (smr_terminal res) \<and>
     length (smr_stages res) \<le> length (taken (smr_transitions res)) * attempts_bound env \<and>
     map_of (cg_terminals (re_def env)) (smr_terminal res) = Some (smr_status res)"

lemma sequence_length: "map f xs = [1..n] \<Longrightarrow> 0 \<le> n \<Longrightarrow> int (length xs) = (n::int)"
  by (drule arg_cong [where f = length]) simp

lemma finish_post:
  assumes "run_inv env k name s" "k = length (taken (transitions s))"
  shows "post (\<lambda>res _. evidence_ok env res) (\<lambda>_ _. True) (finish env name s)"
  unfolding finish_def
  using assms sequence_length [of tr_sequence "transitions s" "transition_count s"]
  by (auto split: option.split intro!: post_emit_rec_only
      simp: run_inv_def evidence_ok_def rec_only_def quiet_def)

lemma quiet_inv:
  "quiet s t \<Longrightarrow> visited env (attempts_bound env) s t \<Longrightarrow> run_inv env k pos s \<Longrightarrow> run_inv env (Suc k) pos t"
  by (auto simp: quiet_def visited_def run_inv_def)

lemma execute_stages_post:
  "run_inv env k (current_stage s) s \<Longrightarrow> k = length (taken (transitions s)) \<Longrightarrow>
   post (\<lambda>res _. evidence_ok env res) (\<lambda>_ _. True) (execute_stages env s)"
proof (induction env s arbitrary: k rule: execute_stages.induct)
  case (1 env s)
  let ?stage = "current_stage s"
  obtain r t where visit: "run_stage env ?stage s = (r, t)" by fastforce
  show ?case
  proof (cases r)
    case (Inl e)
    then show ?thesis using visit by (simp add: execute_stages.simps [of env s] bindM_def getM_app)
  next
    case (Inr d)
    with visit have ok: "run_stage env ?stage s = (Inr d, t)" by simp
    from postD_Inr [OF run_stage_post ok]
    have t: "quiet s t" "visited env (attempts_bound env) s t" "decision_ok env t d" "d_source d = ?stage"
      by auto
    have inv: "run_inv env (Suc k) (d_source d) t"
      using quiet_inv [OF t(1,2) "1.prems"(1)] t by simp
    have k: "Suc k = length (taken (transitions t)) + 1" using t 1 by (simp add: quiet_def)
    obtain r' u where adv: "advance env d t = (r', u)" by fastforce
    show ?thesis
    proof (cases r')
      case (Inl e)
      then show ?thesis using ok adv by (simp add: execute_stages.simps [of env s] bindM_def getM_app)
    next
      case (Inr terminal)
      with adv have ok2: "advance env d t = (Inr terminal, u)" by simp
      from postD_Inr [OF advance_post [OF inv k t(3)] ok2]
      have a: "advanced env (Suc k) (Inl terminal :: string option + 'b StageDecision) u" .
      have e: "execute_stages env s =
          (case terminal of Some name \<Rightarrow> finish env name u | None \<Rightarrow> execute_stages env u)"
        using ok ok2 by (simp add: execute_stages.simps [of env s] bindM_def getM_app)
      show ?thesis
        unfolding e using a "1.IH" [OF getM_app ok ok2]
        by (auto simp: advanced_def split: option.split intro!: finish_post)
    qed
  qed
qed

lemma init_run_inv:
  "contract_ok env v \<Longrightarrow> 0 \<le> budget env \<Longrightarrow>
   run_inv env 0 (cg_entry (re_def env)) (init_run env rec v)"
  by (simp add: run_inv_def init_run_def taken_def accepted_stages_gated_def)

lemma execute_evidence:
  assumes "execute env v w = (Inr res, rec)" "0 \<le> budget env"
  shows "evidence_ok env res"
proof -
  obtain c r0 st where p: "prepare env v \<lparr>rec_world = w, rec_events = [], rec_observer_errors = []\<rparr> = (Inr c, r0)"
    and e: "execute_stages env (init_run env r0 c) = (Inr res, st)"
    using assms(1) by (auto simp: execute_def split: prod.splits sum.splits)
  from p have c: "contract_ok env c"
    by (auto simp: prepare_def cloneM_def liftE_def returnM_app throwM_app
        elim!: bindM_InrE split: sum.splits dest: normalize_clone_contract)
  have "run_inv env 0 (current_stage (init_run env r0 c)) (init_run env r0 c)"
    using init_run_inv [OF c assms(2), of r0] by (simp add: init_run_def)
  from postD_Inr [OF execute_stages_post [OF this] e] show ?thesis
    by (simp add: init_run_def taken_def)
qed

end
