(* ===== verification/WF_Events.thy ===== *)
theory WF_Events
  imports WF_Invariant
begin

text \<open>
  The event log of a run.  Every operation extends the log with events numbered in sequence
  (the interpretation \<open>lg\<close> of \<open>machine_effect\<close>); here the loops and the run are added, and the
  first and last event of a run identified.
\<close>

context machine_effect
begin

lemma keeps_advance_app: "R s (snd (advance env d s))"
proof (induction env d s rule: advance.induct)
  case (1 env d s)
  obtain r t where step: "advance_step env d s = (r, t)" by fastforce
  have st: "R s t" by (rule keepsD [OF keeps_advance_step step])
  show ?case
  proof (cases r)
    case (Inl e)
    then show ?thesis using step st by (simp add: advance.simps [of env d s] bindM_Inl)
  next
    case (Inr x)
    then show ?thesis
      using step st "1.IH" [of x t] R_trans [OF st]
      by (cases x) (auto simp: advance.simps [of env d s] bindM_Inr)
  qed
qed

lemma keeps_advance: "keeps (advance env d)"
  by (rule keepsI) (rule keeps_advance_app)

lemma keeps_finish: "keeps (finish env name)"
  unfolding finish_def by (auto intro!: keeps_basic split: option.split)

lemma keeps_execute_stages_app: "R s (snd (execute_stages env s))"
proof (induction env s rule: execute_stages.induct)
  case (1 env s)
  obtain r t where visit: "run_stage env (current_stage s) s = (r, t)" by fastforce
  have st: "R s t" by (rule keepsD [OF keeps_run_stage visit])
  show ?case
  proof (cases r)
    case (Inl e)
    then show ?thesis using visit st by (simp add: execute_stages.simps [of env s] bindM_def getM_app)
  next
    case (Inr d)
    obtain r' u where adv: "advance env d t = (r', u)" by fastforce
    have su: "R s u" using R_trans [OF st] keepsD [OF keeps_advance adv] by blast
    show ?thesis
    proof (cases r')
      case (Inl e)
      then show ?thesis using visit Inr adv su by (simp add: execute_stages.simps [of env s] bindM_def getM_app)
    next
      case r': (Inr terminal)
      show ?thesis
      proof (cases terminal)
        case None
        then show ?thesis
          using visit Inr adv r' R_trans [OF su] "1.IH" [OF getM_app visit [unfolded Inr] adv [unfolded r'] None]
          by (simp add: execute_stages.simps [of env s] bindM_def getM_app)
      next
        case (Some name)
        obtain q w where fin: "finish env name u = (q, w)" by fastforce
        then have "R s w" using R_trans [OF su] keepsD [OF keeps_finish] by blast
        then show ?thesis
          using visit Inr adv r' Some fin by (simp add: execute_stages.simps [of env s] bindM_def getM_app)
      qed
    qed
  qed
qed

end

subsection \<open>The first and the last event\<close>

text \<open>Emitting from the recorder alone: the log gains exactly the event, whatever the observers do.\<close>

lemma notify_events: "rec_events (snd (notify_observers obs ev s)) = rec_events s"
  by (induction obs arbitrary: s)
    (auto simp: returnM_app throwM_app updM_app bindM_def callM_def split: prod.splits sum.splits outcome.splits)

lemma emit_events:
  "rec_events (snd (emit env ty stage payload s)) = rec_events s @
     [\<lparr>ev_sequence = int (length (rec_events s)) + 1, ev_type = ty, ev_run_id = re_run_id env,
       ev_stage = map_option strip stage, ev_payload = payload\<rparr>]"
  by (simp add: emit_def Let_def notify_events)

lemma emit_numbered: "events_numbered s \<Longrightarrow> events_numbered (snd (emit env ty stage payload s))"
  using events_numbered_snoc by (simp add: events_numbered_def emit_events upto_snoc add.commute [of 1])

definition log_from :: "('w, 'v) RunEnv \<Rightarrow> WorkflowEvent list \<Rightarrow> WorkflowEventType \<Rightarrow> bool" where
  "log_from env evs final \<longleftrightarrow>
     map ev_sequence evs = [1..int (length evs)] \<and>
     evs \<noteq> [] \<and> ev_type (hd evs) = RUN_STARTED \<and> ev_type (last evs) = final \<and>
     ev_run_id (last evs) = re_run_id env"

lemma finish_last:
  "finish env name s = (Inr res, t) \<Longrightarrow> rec_events t \<noteq> [] \<and> ev_type (last (rec_events t)) = RUN_FINISHED \<and>
     ev_run_id (last (rec_events t)) = re_run_id env \<and> smr_events res = rec_events t"
proof -
  assume a: "finish env name s = (Inr res, t)"
  from a obtain status payload u where
    em: "emit env RUN_FINISHED (Some name) payload s = (Inr (), u)" and t: "t = u" "smr_events res = rec_events u"
    by (auto simp: finish_def throwM_app getM_app returnM_app elim!: bindM_InrE split: option.splits)
  from em emit_events [of env RUN_FINISHED "Some name" payload s] t show ?thesis by simp
qed

lemma execute_stages_last:
  "execute_stages env s = (Inr res, t) \<Longrightarrow> rec_events t \<noteq> [] \<and> ev_type (last (rec_events t)) = RUN_FINISHED \<and>
     ev_run_id (last (rec_events t)) = re_run_id env \<and> smr_events res = rec_events t"
proof (induction env s rule: execute_stages.induct)
  case (1 env s)
  from "1.prems" [unfolded execute_stages.simps [of env s]]
  obtain d t1 terminal t2 where
    a: "run_stage env (current_stage s) s = (Inr d, t1)" "advance env d t1 = (Inr terminal, t2)"
    and b: "(case terminal of None \<Rightarrow> execute_stages env t2 | Some name \<Rightarrow> finish env name t2) = (Inr res, t)"
    by (auto simp: getM_app elim!: bindM_InrE)
  show ?case
    using b "1.IH" [OF getM_app a] by (cases terminal) (auto dest: finish_last)
qed

lemma execute_log:
  assumes "execute env v w = (r, rec)"
  shows "log_from env (rec_events rec) (case r of Inl _ \<Rightarrow> RUN_FAILED | Inr _ \<Rightarrow> RUN_FINISHED)"
proof -
  let ?r0 = "\<lparr>rec_world = w, rec_events = [], rec_observer_errors = []\<rparr>"
  obtain p r1 where p: "prepare env v ?r0 = (p, r1)" by fastforce
  let ?pay = "[(''workflow'', VStr (cg_name (re_def env))), (''entry'', VStr (cg_entry (re_def env)))]"
  obtain q r1' where em: "emit env RUN_STARTED (Some (cg_entry (re_def env))) ?pay ?r0 = (q, r1')" by fastforce
  have "r1 = r1'"
    using p em by (cases q) (auto simp: prepare_def bindM_def cloneM_def liftE_def returnM_app throwM_app split: sum.splits)
  with em emit_events [of env RUN_STARTED "Some (cg_entry (re_def env))" ?pay ?r0]
    emit_numbered [of ?r0 env RUN_STARTED "Some (cg_entry (re_def env))" ?pay]
  have r1: "rec_events r1 \<noteq> []" "ev_type (hd (rec_events r1)) = RUN_STARTED" "events_numbered r1"
    by (auto simp: events_numbered_def)
  show ?thesis
  proof (cases p)
    case (Inl err)
    then have "rec_events rec = rec_events (emit_failure env (cg_entry (re_def env)) err r1)" "r = Inl err"
      using assms p by (auto simp: execute_def)
    with r1 emit_numbered [OF r1(3)] show ?thesis
      by (simp add: log_from_def emit_failure_def emit_events events_numbered_def)
  next
    case (Inr c)
    let ?s = "init_run env r1 c"
    obtain x st where x: "execute_stages env ?s = (x, st)" by fastforce
    have "log_grows ?s st" using lg.keeps_execute_stages_app [of ?s env] x by simp
    then obtain evs where evs: "rec_events st = rec_events r1 @ evs" "events_numbered st"
      using r1(3) by (auto simp: log_grows_def init_run_def events_numbered_def)
    show ?thesis
    proof (cases x)
      case (Inl err)
      then have "rec_events rec = rec_events (emit_failure env (current_stage st) err st)" "r = Inl err"
        using assms p Inr x by (auto simp: execute_def Recorder.defs)
      with r1 evs emit_numbered [OF evs(2)] show ?thesis
        by (simp add: log_from_def emit_failure_def emit_events events_numbered_def)
    next
      case (Inr res)
      then have "rec_events rec = rec_events st" "r = Inr res"
        using assms p \<open>p = Inr c\<close> x by (auto simp: execute_def Recorder.defs)
      with r1 evs execute_stages_last [OF x [unfolded Inr]] show ?thesis
        by (simp add: log_from_def events_numbered_def)
    qed
  qed
qed

end
