(* ===== verification/WF_Observers.thy ===== *)
theory WF_Observers
  imports WF_Events
begin

text \<open>
  Observers are isolated.  An observer that leaves the world alone and lets no control signal
  through is \<open>polite\<close>, whatever exceptions it raises.  A run with polite observers and the same
  run without observers go through the same states, but for the list of observer errors:
  \<open>mute m0 m\<close> says this of two computations, and is shown for every operation of the machine.
\<close>

definition polite :: "('w, 'v) RunEnv \<Rightarrow> bool" where
  "polite env \<longleftrightarrow> (\<forall>ob \<in> set (re_observers env). \<forall>ev w.
     snd (ob_on_event ob ev w) = w \<and> (\<forall>e. fst (ob_on_event ob ev w) \<noteq> Interrupted e))"

definition silent :: "('w, 'v) RunEnv \<Rightarrow> ('w, 'v) RunEnv" where
  "silent env = env\<lparr>re_observers := []\<rparr>"

definition forget :: "('w, 'z) Recorder_scheme \<Rightarrow> ('w, 'z) Recorder_scheme" where
  "forget s = s\<lparr>rec_observer_errors := []\<rparr>"

definition mute ::
  "(('w, 'z) Recorder_scheme, 'e, 'a) sem \<Rightarrow> (('w, 'z) Recorder_scheme, 'e, 'a) sem \<Rightarrow> bool" where
  "mute m0 m \<longleftrightarrow> (\<forall>s. m0 (forget s) = map_prod id forget (m s))"

lemma silent_simps [simp]:
  "re_def (silent env) = re_def env" "re_run_id (silent env) = re_run_id env"
  "re_metadata (silent env) = re_metadata env" "re_sleep (silent env) = re_sleep env"
  "re_wait_for (silent env) = re_wait_for env" "re_observers (silent env) = []"
  by (simp_all add: silent_def)

lemma forget_simps [simp]:
  "rec_world (forget s) = rec_world s" "rec_events (forget s) = rec_events s"
  "rec_observer_errors (forget s) = []"
  "committed_state (forget t) = committed_state t" "current_stage (forget t) = current_stage t"
  "feedback (forget t) = feedback t" "transition_count (forget t) = transition_count t"
  "visits (forget t) = visits t" "stages (forget t) = stages t" "transitions (forget t) = transitions t"
  by (simp_all add: forget_def)

lemma forget_idem [simp]: "forget (forget s) = forget s"
  by (simp add: forget_def)

lemma muteD: "mute m0 m \<Longrightarrow> m s = (r, t) \<Longrightarrow> m0 (forget s) = (r, forget t)"
  by (simp add: mute_def)

lemma mute_returnM: "mute (returnM x) (returnM x)"
  by (simp add: mute_def returnM_app)

lemma mute_throwM: "mute (throwM e) (throwM e)"
  by (simp add: mute_def throwM_app)

lemma mute_liftE: "mute (liftE w r) (liftE w r)"
  by (cases r) (simp_all add: mute_returnM mute_throwM)

lemma mute_bindM: "mute m0 m \<Longrightarrow> (\<And>x. mute (f0 x) (f x)) \<Longrightarrow> mute (bindM m0 f0) (bindM m f)"
  by (auto simp: mute_def bindM_def split: prod.splits sum.splits)

lemma mute_getM: "(\<And>s. g (forget s) = g s) \<Longrightarrow> mute (getM g) (getM g)"
  by (simp add: mute_def getM_app)

lemma mute_bind_state:
  "(\<And>s. mute (f0 (forget s)) (f s)) \<Longrightarrow> mute (bindM (getM (\<lambda>s. s)) f0) (bindM (getM (\<lambda>s. s)) f)"
  by (simp add: mute_def bindM_getM)

lemma mute_updM: "(\<And>s. f (forget s) = forget (f s)) \<Longrightarrow> mute (updM f) (updM f)"
  by (simp add: mute_def updM_app)

lemma mute_callM: "mute (callM f) (callM f)"
  by (simp add: mute_def callM_def forget_def split: prod.split)

lemma mute_if: "mute a b \<Longrightarrow> mute c d \<Longrightarrow> mute (if p then a else c) (if p then b else d)"
  by simp

lemma polite_notify:
  fixes s :: "('w, 'z) Recorder_scheme"
  shows "(\<forall>ob \<in> set obs. \<forall>ev w. snd (ob_on_event ob ev w) = w \<and> (\<forall>e. fst (ob_on_event ob ev w) \<noteq> Interrupted e)) \<Longrightarrow>
    \<exists>t. notify_observers obs ev s = (Inr (), t) \<and> forget t = forget s"
proof (induction obs arbitrary: s)
  case Nil
  show ?case by (simp add: returnM_app)
next
  case (Cons ob obs)
  obtain r w where call: "ob_on_event ob ev (rec_world s) = (r, w)" by fastforce
  from Cons.prems have "snd (ob_on_event ob ev (rec_world s)) = rec_world s"
    "\<And>e. fst (ob_on_event ob ev (rec_world s)) \<noteq> Interrupted e" by auto
  with call have w: "w = rec_world s" and r: "\<And>e. r \<noteq> Interrupted e" by auto
  have step: "bindM (callM (ob_on_event ob ev)) f s = f r s" for f :: "_ \<Rightarrow> (('w, 'z) Recorder_scheme, wf_error, unit) sem"
    using call w by (simp add: callM_def bindM_def)
  have IH: "\<exists>t. notify_observers obs ev u = (Inr (), t) \<and> forget t = forget u"
    for u :: "('w, 'z) Recorder_scheme" using Cons by auto
  show ?case
    unfolding notify_observers.simps step
  proof (cases r)
    case (Raised e)
    let ?u = "s\<lparr>rec_observer_errors := rec_observer_errors s @ [ob_type_name ob @ '': '' @ exn_type e]\<rparr>"
    have "forget ?u = forget s" by (simp add: forget_def)
    with IH [of ?u] show "\<exists>t. (case r of
        Raised e \<Rightarrow>
         bindM (updM (\<lambda>st. st\<lparr>rec_observer_errors :=
                  rec_observer_errors st @ [ob_type_name ob @ '': '' @ exn_type e]\<rparr>)) (\<lambda>_.
         notify_observers obs ev)
      | Interrupted e \<Rightarrow> throwM (BaseError e)
      | _ \<Rightarrow> notify_observers obs ev) s = (Inr (), t) \<and> forget t = forget s"
      by (simp add: Raised bindM_updM)
  qed (use r IH in auto)
qed

lemma mute_emit:
  fixes env :: "('w, 'v) RunEnv"
  assumes "polite env"
  shows "mute (emit (silent env) ty stage payload) (emit env ty stage payload)"
  unfolding mute_def
proof
  fix s :: "('w, 'z) Recorder_scheme"
  let ?ev = "\<lparr>ev_sequence = int (length (rec_events s)) + 1, ev_type = ty,
               ev_run_id = re_run_id env, ev_stage = map_option strip stage, ev_payload = payload\<rparr>"
  obtain t where "notify_observers (re_observers env) ?ev (s\<lparr>rec_events := rec_events s @ [?ev]\<rparr>) = (Inr (), t)"
    "forget t = forget (s\<lparr>rec_events := rec_events s @ [?ev]\<rparr>)"
    using polite_notify [OF assms [unfolded polite_def]] by blast
  then show "emit (silent env) ty stage payload (forget s) = map_prod id forget (emit env ty stage payload s)"
    by (simp add: emit_def Let_def returnM_app forget_def)
qed


lemmas mute_intros = mute_returnM mute_throwM mute_liftE mute_bindM mute_if mute_callM

subsection \<open>The operations of the machine\<close>

lemma silent_pure [simp]:
  "normalize_clone (silent env) = normalize_clone env"
  "normalize_stage_result (silent env) = normalize_stage_result env"
  "budget (silent env) = budget env"
  unfolding normalize_clone_def normalize_stage_result_def budget_def fun_eq_iff silent_simps
  by (rule refl allI)+

lemma mute_cloneM: "mute (cloneM (silent env) v b) (cloneM env v b)"
  by (simp add: cloneM_def mute_liftE)

lemma mute_snapshot: "mute (snapshot (silent env) v b) (snapshot env v b)"
  unfolding snapshot_def silent_simps by (intro mute_intros mute_cloneM)

lemma mute_inspection: "mute (inspection_result (silent env) r b) (inspection_result env r b)"
  unfolding inspection_result_def by (intro mute_intros mute_cloneM)

lemmas mute_basic = mute_intros mute_cloneM mute_snapshot mute_inspection mute_getM

lemma mute_evaluate:
  assumes "polite env"
  shows "mute (evaluate (silent env) vs ctx) (evaluate env vs ctx)"
proof -
  have one: "mute (evaluate_one (silent env) v ctx) (evaluate_one env v ctx)" for v
    unfolding evaluate_one_def invoke_validator_def silent_simps
    by (auto intro!: mute_basic mute_emit [OF assms] split: outcome.split)
  have "mute (evaluate_from (silent env) ctx vs recs) (evaluate_from env ctx vs recs)" for recs
    by (induction vs arbitrary: recs) (auto intro!: mute_intros one split: option.split)
  then show ?thesis by (simp add: evaluate_def)
qed

lemma mute_add_stage: "mute (add_stage_record r) (add_stage_record r)"
  by (simp add: mute_def add_stage_record_def forget_def)

lemma mute_next_visit: "mute (next_visit stage) (next_visit stage)"
  by (simp add: mute_def next_visit_def forget_def Let_def)

lemma mute_attach: "mute (attach_stage_validations i vs) (attach_stage_validations i vs)"
  unfolding attach_stage_validations_def by (rule mute_updM) (simp add: forget_def)

lemma mute_append: "mute (append_transition_record n d sel vs acc) (append_transition_record n d sel vs acc)"
  unfolding append_transition_record_def by (rule mute_updM) (simp add: forget_def)

lemma mute_consume: "mute consume_transition consume_transition"
  by (simp add: mute_def consume_transition_def forget_def Let_def)

lemma mute_record_failure:
  "polite env \<Longrightarrow> mute (record_stage_failure (silent env) stage visit n ty) (record_stage_failure env stage visit n ty)"
  unfolding record_stage_failure_def by (intro mute_basic mute_add_stage mute_emit)

lemma mute_execute_attempt:
  assumes "polite env"
  shows "mute (execute_attempt (silent env) stage d visit n before input) (execute_attempt env stage d visit n before input)"
  unfolding execute_attempt_def invoke_stage_def successful_stage_record_def silent_simps silent_pure
  by (rule mute_bind_state)
    (auto intro!: mute_basic mute_emit [OF assms] mute_add_stage mute_record_failure [OF assms]
       split: outcome.split option.split sum.split)

lemma mute_execute_attempts:
  assumes "polite env"
  shows "mute (execute_attempts (silent env) stage d visit) (execute_attempts env stage d visit)"
proof -
  have wait: "mute (wait_before_retry (silent env) p n) (wait_before_retry env p n)" for p n
    unfolding wait_before_retry_def Let_def silent_simps by (auto intro!: mute_basic split: option.split)
  have "mute (execute_attempts_from (silent env) stage d visit ns) (execute_attempts_from env stage d visit ns)" for ns
    by (induction ns)
      (auto intro!: mute_basic mute_execute_attempt [OF assms] mute_record_failure [OF assms] wait
         split: option.split sum.split)
  then show ?thesis by (simp add: execute_attempts_def)
qed

lemma mute_raise: "mute (raise_validation_error (silent env) stage r ph t) (raise_validation_error env stage r ph t)"
  unfolding raise_validation_error_def silent_simps by (auto intro!: mute_basic split: option.split)

lemma mute_run_stage:
  assumes "polite env"
  shows "mute (run_stage (silent env) stage) (run_stage env stage)"
proof -
  have rejected: "mute (rejected_stage_decision (silent env) stage a v) (rejected_stage_decision env stage a v)" for a v
    unfolding rejected_stage_decision_def silent_simps by (auto intro!: mute_basic split: option.split)
  have validate: "mute (validate_stage (silent env) stage d a) (validate_stage env stage d a)" for d a
    unfolding validate_stage_def silent_simps
    by (auto intro!: mute_basic mute_evaluate [OF assms] mute_attach mute_raise rejected split: option.split)
  show ?thesis
    unfolding run_stage_def silent_simps handled_stage_error_def
    by (auto intro!: mute_basic mute_next_visit mute_execute_attempts [OF assms] validate split: option.split)
qed

lemma mute_select_route: "mute (select_route (silent env) d) (select_route env d)"
  unfolding select_route_def select_branch_def silent_simps Let_def
  by (auto intro!: mute_basic split: option.split Route.split outcome.split)

lemma mute_accept:
  assumes "polite env"
  shows "mute (accept_transition (silent env) d sel) (accept_transition env d sel)"
  unfolding accept_transition_def commit_candidate_def accept_stage_def silent_simps
  by (auto intro!: mute_basic mute_updM mute_emit [OF assms] simp: forget_def split: option.split)

lemma mute_advance_step:
  assumes "polite env"
  shows "mute (advance_step (silent env) d) (advance_step env d)"
proof -
  have selected: "mute (emit_transition_selected (silent env) d sel n) (emit_transition_selected env d sel n)" for sel n
    unfolding emit_transition_selected_def by (rule mute_emit [OF assms])
  have guards: "mute (run_guards (silent env) d sel) (run_guards env d sel)" for sel
    unfolding run_guards_def silent_simps by (intro mute_basic mute_evaluate [OF assms]) simp
  have redirect: "mute (redirect_guard_rejection (silent env) d sel g) (redirect_guard_rejection env d sel g)" for sel g
    unfolding redirect_guard_rejection_def silent_simps
    by (auto intro!: mute_basic mute_emit [OF assms] split: option.split)
  show ?thesis
    unfolding advance_step_def silent_simps
    by (intro mute_basic mute_select_route mute_consume selected mute_append guards mute_raise
        mute_accept [OF assms] redirect)
qed

lemma mute_advance:
  assumes "polite env"
  shows "mute (advance (silent env) d) (advance env d)"
  unfolding mute_def
proof
  fix s
  show "advance (silent env) d (forget s) = map_prod id forget (advance env d s)"
    using assms
  proof (induction env d s rule: advance.induct)
    case (1 env d s)
    obtain r t where step: "advance_step env d s = (r, t)" by fastforce
    note step0 = muteD [OF mute_advance_step [OF "1.prems"] step]
    show ?case
    proof (cases r)
      case (Inl e)
      then show ?thesis
        using step step0 by (simp add: advance.simps [of env d s] advance.simps [of "silent env" d "forget s"] bindM_Inl)
    next
      case (Inr x)
      then show ?thesis
        using step step0 "1.IH" [of x t] "1.prems"
        by (cases x) (simp_all add: advance.simps [of env d s] advance.simps [of "silent env" d "forget s"] bindM_Inr)
    qed
  qed
qed

lemma mute_finish:
  assumes "polite env"
  shows "finish (silent env) name (forget s) =
    map_prod (map_sum id (\<lambda>res. res\<lparr>smr_observer_errors := []\<rparr>)) forget (finish env name s)"
proof (cases "map_of (cg_terminals (re_def env)) name")
  case None
  then show ?thesis by (simp add: finish_def throwM_app)
next
  case (Some status)
  let ?pay = "[(''workflow'', VStr (cg_name (re_def env))), (''terminal'', VStr name),
    (''status'', VStr (machine_status_value status)), (''transitions'', VInt (transition_count s))]"
  obtain r t where em: "emit env RUN_FINISHED (Some name) ?pay s = (r, t)" by fastforce
  from muteD [OF mute_emit [OF assms] em]
  have "emit (silent env) RUN_FINISHED (Some name) ?pay (forget s) = (r, forget t)" .
  with em Some show ?thesis
    by (cases r) (simp_all add: finish_def bindM_def getM_app returnM_app)
qed


definition forget_result :: "wf_error + ('w, 'v) StateMachineResult \<Rightarrow> wf_error + ('w, 'v) StateMachineResult" where
  "forget_result = map_sum id (\<lambda>res. res\<lparr>smr_observer_errors := []\<rparr>)"

lemma mute_execute_stages:
  "polite env \<Longrightarrow> execute_stages (silent env) (forget s) = map_prod forget_result forget (execute_stages env s)"
proof (induction env s rule: execute_stages.induct)
  case (1 env s)
  note pol = "1.prems"
  note unfold_both = execute_stages.simps [of env s] execute_stages.simps [of "silent env" "forget s"]
  obtain r t where visit: "run_stage env (current_stage s) s = (r, t)" by fastforce
  note visit0 = muteD [OF mute_run_stage [OF pol] visit]
  show ?case
  proof (cases r)
    case (Inl e)
    then show ?thesis using visit visit0
      by (simp add: unfold_both bindM_def getM_app forget_result_def)
  next
    case (Inr d)
    obtain r' u where adv: "advance env d t = (r', u)" by fastforce
    note adv0 = muteD [OF mute_advance [OF pol] adv]
    show ?thesis
    proof (cases r')
      case (Inl e)
      then show ?thesis using visit visit0 Inr adv adv0
        by (simp add: unfold_both bindM_def getM_app forget_result_def)
    next
      case r': (Inr terminal)
      have eqs: "execute_stages env s = (case terminal of Some name \<Rightarrow> finish env name u | None \<Rightarrow> execute_stages env u)"
        "execute_stages (silent env) (forget s) =
           (case terminal of Some name \<Rightarrow> finish (silent env) name (forget u) | None \<Rightarrow> execute_stages (silent env) (forget u))"
        using visit visit0 Inr adv adv0 r' by (simp_all add: unfold_both bindM_def getM_app)
      show ?thesis
      proof (cases terminal)
        case None
        show ?thesis
          using "1.IH" [OF getM_app visit [unfolded Inr] adv [unfolded r'] None pol]
          by (simp add: eqs None)
      next
        case (Some name)
        then show ?thesis using mute_finish [OF pol] by (simp add: eqs forget_result_def)
      qed
    qed
  qed
qed

lemma forget_truncate: "Recorder.truncate (forget s) = forget (Recorder.truncate s)"
  by (cases s) (simp add: forget_def Recorder.defs)

lemma mute_emit_failure:
  assumes "polite env"
  shows "emit_failure (silent env) stage err (forget s) = forget (emit_failure env stage err s)"
proof -
  have "snd (emit (silent env) ty stg pay (forget s)) = forget (snd (emit env ty stg pay s))" for ty stg pay
    using mute_emit [OF assms, unfolded mute_def, rule_format, of ty stg pay s] by simp
  then show ?thesis by (simp add: emit_failure_def)
qed

lemma mute_prepare:
  assumes "polite env"
  shows "mute (prepare (silent env) v) (prepare env v)"
  unfolding prepare_def silent_simps by (intro mute_basic mute_emit [OF assms])

lemma execute_silent:
  assumes "polite env"
  shows "execute (silent env) v w = map_prod forget_result forget (execute env v w)"
proof -
  let ?r0 = "\<lparr>rec_world = w, rec_events = [], rec_observer_errors = []\<rparr>"
  have f0: "forget ?r0 = ?r0" by (simp add: forget_def)
  obtain p r1 where p: "prepare env v ?r0 = (p, r1)" by fastforce
  have p0: "prepare (silent env) v ?r0 = (p, forget r1)"
    using muteD [OF mute_prepare [OF assms] p] by (simp add: f0)
  have init0: "init_run (silent env) (forget r1) c = forget (init_run env r1 c)" for c
    by (simp add: init_run_def forget_def)
  show ?thesis
  proof (cases p)
    case (Inl e)
    then show ?thesis
      using p p0 by (simp add: execute_def forget_result_def mute_emit_failure [OF assms])
  next
    case (Inr c)
    obtain x st where x: "execute_stages env (init_run env r1 c) = (x, st)" by fastforce
    have x0: "execute_stages (silent env) (forget (init_run env r1 c)) = (forget_result x, forget st)"
      using mute_execute_stages [OF assms, of "init_run env r1 c"] x by simp
    show ?thesis
      using p p0 Inr x x0
      by (cases x) (simp_all add: execute_def init0 forget_result_def forget_truncate mute_emit_failure [OF assms])
  qed
qed

end
