(* ===== verification/WF_Guarantees.thy ===== *)
theory WF_Guarantees
  imports WF_Observers
begin

text \<open>
  The guarantees of the workflow state machine, stated for \<open>execute\<close> and for the operations it is
  made of, and an example graph, built with the builder of the program, on which each of them is
  applied.
\<close>

subsection \<open>Validator sequences\<close>

definition blocking_shape ::
  "StateMachineSettings \<Rightarrow> ('w, 'v) Validator list \<Rightarrow> ValidationDecision \<Rightarrow> bool" where
  "blocking_shape st vs d \<longleftrightarrow>
     map vrec_validator (vd_records d) = map (strip \<circ> validator_name) (take (length (vd_records d)) vs) \<and>
     (if vd_passed d
      then length (vd_records d) = length vs \<and> list_all (lets_pass st \<circ> vrec_result) (vd_records d)
      else vd_records d \<noteq> [] \<and> list_all (lets_pass st \<circ> vrec_result) (butlast (vd_records d)) \<and>
        \<not> lets_pass st (vrec_result (last (vd_records d))) \<and>
        (vd_must_raise d \<longleftrightarrow> validator_error_policy st = RAISE \<and>
           vr_status (vrec_result (last (vd_records d))) \<noteq> REJECT))"

lemma interpret_result_blocks:
  "interpret_result st r recs = Inr (Some d) \<Longrightarrow> \<not> lets_pass st r \<and> \<not> vd_passed d \<and> vd_records d = recs \<and>
     (vd_must_raise d \<longleftrightarrow> validator_error_policy st = RAISE \<and> vr_status r \<noteq> REJECT)"
  by (auto simp: interpret_result_def lets_pass_def bindE_Inr_iff split: if_splits)

lemma evaluate_from_shape:
  "evaluate_from env ctx vs recs s = (Inr d, t) \<Longrightarrow>
   \<exists>new. vd_records d = recs @ new \<and> blocking_shape (cg_settings (re_def env)) vs (d\<lparr>vd_records := new\<rparr>)"
proof (induction vs arbitrary: recs s)
  case Nil
  then show ?case by (auto simp: returnM_app blocking_shape_def)
next
  case (Cons v vs)
  let ?st = "cg_settings (re_def env)"
  from Cons.prems obtain r u opt where
    r: "evaluate_one env v ctx s = (Inr r, u)"
    and i: "interpret_result ?st (vrec_result r) (recs @ [r]) = Inr opt"
    and rest: "(case opt of Some d \<Rightarrow> returnM d | None \<Rightarrow> evaluate_from env ctx vs (recs @ [r])) u = (Inr d, t)"
    by (auto simp: liftE_def throwM_app returnM_app elim!: bindM_InrE split: sum.splits)
  have name: "vrec_validator r = strip (validator_name v)"
    using postD_Inr [OF evaluate_one_post r] by simp
  show ?case
  proof (cases opt)
    case (Some d')
    with rest have "d' = d" by (simp add: returnM_app)
    with i Some interpret_result_blocks [of ?st _ _ d] name show ?thesis
      by (intro exI [of _ "[r]"]) (auto simp: blocking_shape_def)
  next
    case None
    with i have pass: "lets_pass ?st (vrec_result r)" by (simp add: interpret_result_None)
    from None rest Cons.IH [of "recs @ [r]" u] obtain new where
      new: "vd_records d = recs @ r # new" "blocking_shape ?st vs (d\<lparr>vd_records := new\<rparr>)" by auto
    then show ?thesis
      using pass name by (intro exI [of _ "r # new"]) (auto simp: blocking_shape_def split: if_splits)
  qed
qed

subsection \<open>Commits\<close>

definition commits ::
  "('w, 'v) RunEnv \<Rightarrow> 'v StageDecision \<Rightarrow> ('w, 'v) RunState \<Rightarrow> ('w, 'v) RunState \<Rightarrow> bool" where
  "commits env d s t \<longleftrightarrow>
     (if d_can_commit d
      then normalize_clone env (d_candidate_state d) ''state_commit'' = Inr (committed_state t) \<and> feedback t = []
      else committed_state t = committed_state s \<and> feedback t = d_feedback d)"

lemma accept_commits:
  "accept_transition env d sel s = (Inr terminal, t) \<Longrightarrow> commits env d s t"
proof -
  assume a: "accept_transition env d sel s = (Inr terminal, t)"
  have "post (\<lambda>_ t. commits env d s t) (\<lambda>_ _. True) (accept_transition env d sel s)"
    unfolding accept_transition_def commit_candidate_def
    by (auto simp: commits_def post_cloneM accept_stage_def rec_only_def quiet_def
        intro!: post_emit_rec_only split: sum.split option.split)
  from postD_Inr [OF this a] show ?thesis .
qed

lemma advance_step_effect:
  assumes "advance_step env d s = (Inr r, t)"
  shows "case r of
      Inl _ \<Rightarrow> commits env d s t
    | Inr d' \<Rightarrow> committed_state t = committed_state s \<and> feedback t = feedback s \<and> stages t = stages s \<and>
        \<not> d_can_commit d' \<and> d_source d' = d_source d"
proof -
  have ro: "rec_only s u \<Longrightarrow> committed_state u = committed_state s \<and> feedback u = feedback s \<and> stages u = stages s" for s u
    by (simp add: rec_only_def quiet_def)
  note frames = ro.keepsD [OF ro.keeps_select_route] ro.keepsD [OF ro.keeps_emit_selected]
    ro.keepsD [OF ro.keeps_run_guards]
  note redirect = postD_Inr [OF redirect_post]
  show ?thesis
    using assms unfolding advance_step_def
    by (auto simp: throwM_app returnM_app commits_def elim!: bindM_InrE split: if_splits
        dest!: frames redirect accept_commits consume_transitionE append_transition_recordE
          raise_validation_error_Inl ro)
qed

end
