(* ===== verification/WF_Example.thy ===== *)
theory WF_Example
  imports WF_Guarantees
begin

text \<open>
  A workflow built with the operations of the graph builder and run by the machine: a draft is
  rejected once with feedback, revised, and accepted through a guard.  The world counts the
  callback invocations.  The witnesses apply the guarantees to its run.
\<close>

definition draft_stage :: "int StageContext \<Rightarrow> nat \<Rightarrow> int StageResult outcome \<times> nat" where
  "draft_stage ctx w =
     (Returned \<lparr>sr_state = (if sc_feedback ctx = [] then 1 else 5), sr_outcome = ''done'', sr_metadata = []\<rparr>, w + 1)"

definition at_least :: "string \<Rightarrow> int \<Rightarrow> (nat, int) Validator" where
  "at_least name n =
     \<lparr>v_type_name = ''CallableValidator'', v_name = Inr name, v_callable = True,
      v_validate = (\<lambda>ctx w. (case (if n \<le> vc_candidate_state ctx
          then vr_passed ''ok'' [] None [] else vr_rejected ''low'' ''too low'' None []) of
            Inr r \<Rightarrow> Returned r | Inl e \<Rightarrow> Raised e, w + 1))\<rparr>"

definition int_contract :: "int StateContract" where
  "int_contract = \<lparr>sc_type_name = ''int'', sc_validator = None, sc_adapter = None,
     sc_isinstance = (\<lambda>_. True), sc_cloner = Inr\<rparr>"

definition demo_graph :: "exn + (nat, int) StateGraph" where
  "demo_graph =
     bindE (new_StateGraph (VStr ''demo'') int_contract) (\<lambda>g.
     bindE (add_stage (VStr ''draft'') (Some draft_stage) [at_least ''minimum'' 2] (Inl VNone) g) (\<lambda>g.
     bindE (add_terminal (VStr ''end'') (Inr SUCCEEDED) g) (\<lambda>g.
     bindE (set_entry (VStr ''draft'') g) (\<lambda>g.
     bindE (add_transition (VStr ''draft'') (VStr ''end'') (VStr ''done'') [at_least ''final'' 3] g) (\<lambda>g.
     add_transition (VStr ''draft'') (VStr ''draft'') (VStr ''low'') [] g)))))"

definition demo_compiled :: "(nat, int) CompiledGraph" where
  "demo_compiled =
     \<lparr>cg_name = ''demo'', cg_contract = int_contract,
      cg_stages = [(''draft'', \<lparr>sd_stage = draft_stage, sd_validators = [at_least ''minimum'' 2],
                               sd_policy = default_StagePolicy\<rparr>)],
      cg_entry = ''draft'', cg_terminals = [(''end'', SUCCEEDED)],
      cg_routes = [((''draft'', ''done''), Direct \<lparr>dr_target = ''end'', dr_guards = [at_least ''final'' 3]\<rparr>),
                   ((''draft'', ''low''), Direct \<lparr>dr_target = ''draft'', dr_guards = []\<rparr>)],
      cg_settings = default_settings\<rparr>"

definition demo_declared :: "(nat, int) StateGraph" where
  "demo_declared =
     \<lparr>g_name = cg_name demo_compiled, g_contract = cg_contract demo_compiled,
      g_stages = cg_stages demo_compiled, g_entry = Some ''draft'',
      g_terminals = cg_terminals demo_compiled, g_routes = cg_routes demo_compiled\<rparr>"

definition noisy_observer :: "nat Observer" where
  "noisy_observer = \<lparr>ob_type_name = ''Printer'',
     ob_on_event = (\<lambda>ev w. (Raised (ValueError ''closed''), w))\<rparr>"

definition demo_env :: "(nat, int) RunEnv" where
  "demo_env = \<lparr>re_def = demo_compiled, re_run_id = ''run-1'', re_metadata = [],
     re_observers = [noisy_observer], re_sleep = (\<lambda>_ w. (None, w)), re_wait_for = (\<lambda>_ f w. f w)\<rparr>"

definition demo_result :: "(nat, int) StateMachineResult" where
  "demo_result = (case execute demo_env 0 0 of (Inr r, _) \<Rightarrow> r)"

lemma bindM_weak_cong: "m = m' \<Longrightarrow> bindM m f = bindM m' f"
  by simp

lemma bindM_app: "bindM m f s = (case m s of (Inl e, t) \<Rightarrow> (Inl e, t) | (Inr x, t) \<Rightarrow> f x t)"
  by (simp add: bindM_def)

lemmas run_simps =
  bindM_app sem_simps Let_def emit_def callM_def next_visit_def add_stage_record_def
  attach_stage_validations_def accept_stage_def normalize_clone_def cloneM_def snapshot_def
  inspection_result_def invoke_validator_def evaluate_one_def interpret_result_def evaluate_def
  record_stage_failure_def invoke_stage_def normalize_stage_result_def successful_stage_record_def
  execute_attempt_def execute_attempts_def validate_stage_def run_stage_def
  handled_stage_error_def rejected_stage_decision_def select_route_def consume_transition_def
  emit_transition_selected_def run_guards_def append_transition_record_def commit_candidate_def
  accept_transition_def redirect_guard_rejection_def advance_step_def advance.simps
  execute_stages.simps finish_def init_run_def prepare_def execute_def validation_feedback_def
  Recorder.truncate_def

lemmas contract_simps =
  contract_validate_def mk_StageResult_def mk_StageContext_def mk_ValidationContext_def
  mk_WorkflowFeedback_def mk_ValidationResult_def required_text_def text_or_def strip_def
  is_space_def freeze_mapping_def coerce_member_def unit_score_def score_value_def vr_passed_def
  vr_rejected_def vr_errored_def validator_name_def opt_str_def boundary_name_def quoted_def
  default_StagePolicy_def default_RetryPolicy_def default_settings_def dict_merge_def

lemmas demo_defs = draft_stage_def at_least_def int_contract_def demo_compiled_def
  noisy_observer_def demo_env_def demo_declared_def

lemmas builder_simps =
  new_StateGraph_def add_stage_def add_terminal_def set_entry_def add_transition_def
  graph_text_def assert_name_is_available_def validated_guards_def route_key_def
  assert_route_is_available_def compile_graph_def validate_required_nodes_def validate_routes_def
  validate_stage_recovery_routes_def validate_reachability_def route_targets_def
  entry_or_blank_def reachable_nodes_def adjacency_of_def targets_of_def reach_loop.simps

lemma demo_graph_built: "built demo_declared"
proof -
  let ?g0 = "\<lparr>g_name = ''demo'', g_contract = int_contract, g_stages = [], g_entry = None,
    g_terminals = [], g_routes = []\<rparr> :: (nat, int) StateGraph"
  let ?g1 = "?g0\<lparr>g_stages := cg_stages demo_compiled\<rparr>"
  let ?g2 = "?g1\<lparr>g_terminals := cg_terminals demo_compiled\<rparr>"
  let ?g3 = "?g2\<lparr>g_entry := Some ''draft''\<rparr>"
  let ?g4 = "?g3\<lparr>g_routes := [hd (cg_routes demo_compiled)]\<rparr>"
  have "new_StateGraph (VStr ''demo'') int_contract = Inr ?g0"
    by (simp add: builder_simps contract_simps)
  then have b0: "built ?g0" by (rule built.new)
  have "add_stage (VStr ''draft'') (Some draft_stage) [at_least ''minimum'' 2] (Inl VNone) ?g0 = Inr ?g1"
    by (simp add: builder_simps contract_simps demo_defs)
  then have b1: "built ?g1" by (rule built.step [OF b0 build_step.stage])
  have "add_terminal (VStr ''end'') (Inr SUCCEEDED) ?g1 = Inr ?g2"
    by (simp add: builder_simps contract_simps demo_defs)
  then have b2: "built ?g2" by (rule built.step [OF b1 build_step.terminal])
  have "set_entry (VStr ''draft'') ?g2 = Inr ?g3"
    by (simp add: builder_simps contract_simps)
  then have b3: "built ?g3" by (rule built.step [OF b2 build_step.entry])
  have "add_transition (VStr ''draft'') (VStr ''end'') (VStr ''done'') [at_least ''final'' 3] ?g3 = Inr ?g4"
    by (simp add: builder_simps contract_simps demo_defs)
  then have b4: "built ?g4" by (rule built.step [OF b3 build_step.transition])
  have "add_transition (VStr ''draft'') (VStr ''draft'') (VStr ''low'') [] ?g4 = Inr demo_declared"
    by (simp add: builder_simps contract_simps demo_defs)
  then show ?thesis by (rule built.step [OF b4 build_step.transition])
qed

lemma demo_graph_compiles: "compile_graph (Inl VNone) demo_declared = Inr demo_compiled"
  by (simp add: builder_simps contract_simps demo_defs)

lemma demo_run:
  "map_sum id (\<lambda>r. (smr_terminal r, smr_state r, smr_ledger r, taken (smr_transitions r)))
     (fst (execute demo_env 0 0)) =
   Inr (''end'', 5, 5, [(''draft'', ''draft''), (''draft'', ''end'')])"
  by (simp add: run_simps contract_simps demo_defs taken_def cong: bindM_weak_cong)

lemma demo_execute: "\<exists>rec. execute demo_env 0 0 = (Inr demo_result, rec)"
  using demo_run unfolding demo_result_def
  by (cases "execute demo_env 0 0"; cases "fst (execute demo_env 0 0)") simp_all

lemma demo_budget: "budget demo_env = 100"
  by (simp add: budget_def demo_defs default_settings_def)

lemma demo_polite: "polite demo_env"
  by (simp add: polite_def demo_defs)


text \<open>A decision of the draft stage, and the state in which it is taken.\<close>

definition demo_state :: "(nat, int) RunState" where
  "demo_state = init_run demo_env \<lparr>rec_world = 0, rec_events = [], rec_observer_errors = []\<rparr> 0"

definition demo_decision :: "int StageDecision" where
  "demo_decision = \<lparr>d_source = ''draft'', d_state_before = 0, d_candidate_state = 5,
     d_stage_result = \<lparr>sr_state = 5, sr_outcome = ''done'', sr_metadata = []\<rparr>, d_can_commit = True,
     d_trigger = ''stage_outcome'', d_feedback = [], d_record_index = None\<rparr>"

definition demo_context :: "int ValidationContext" where
  "demo_context = \<lparr>vc_run_id = ''run-1'', vc_phase = STAGE, vc_stage = ''draft'', vc_state_before = 0,
     vc_candidate_state = 4, vc_stage_result = \<lparr>sr_state = 4, sr_outcome = ''done'', sr_metadata = []\<rparr>,
     vc_outcome = ''done'', vc_target = None, vc_feedback = [], vc_metadata = []\<rparr>"

lemma demo_step: "\<exists>t. advance_step demo_env demo_decision demo_state = (Inr (Inl (Some ''end'')), t)"
  by (simp add: run_simps contract_simps demo_defs demo_decision_def demo_state_def cong: bindM_weak_cong)

lemma demo_advance: "\<exists>t. advance demo_env demo_decision demo_state = (Inr (Some ''end''), t)"
  using demo_step by (auto simp: advance.simps bindM_def)

lemma demo_evaluate:
  "\<exists>d t. evaluate demo_env [at_least ''small'' 3, at_least ''large'' 9, at_least ''unused'' 1] demo_context demo_state =
     (Inr d, t) \<and> \<not> vd_passed d \<and> map vrec_validator (vd_records d) = [''small'', ''large'']"
  by (simp add: run_simps contract_simps demo_defs demo_context_def demo_state_def cong: bindM_weak_cong)

end
