(* ===== verification/WF_Claims.thy ===== *)
theory WF_Claims
  imports WF_Example
begin

text \<open>The properties of the workflow state machine, each applied to the run of the example.\<close>

text \<open>C1: the accepted transitions of a successful run are a walk through declared routes from the
  entry stage to a declared terminal, whose status is the status of the result.\<close>

theorem run_walks_declared_graph:
  assumes "execute env v w = (Inr res, rec)" and "0 \<le> max_transitions (cg_settings (re_def env))"
  shows "walk (cg_entry (re_def env)) (taken (smr_transitions res)) (smr_terminal res) \<and>
    list_all (\<lambda>tr. \<exists>guards. declared env (tr_source tr) (tr_outcome tr) (tr_target tr) guards)
      (smr_transitions res) \<and>
    map_of (cg_terminals (re_def env)) (smr_terminal res) = Some (smr_status res)"
  using execute_evidence [OF assms(1)] assms(2)
  by (auto simp: evidence_ok_def budget_def list_all_iff transition_gated_def)

lemma run_walks_declared_graph_witness:
  "walk ''draft'' (taken (smr_transitions demo_result)) (smr_terminal demo_result)"
proof -
  obtain rec where "execute demo_env 0 0 = (Inr demo_result, rec)" using demo_execute by blast
  from run_walks_declared_graph [OF this] show ?thesis
    by (simp add: demo_env_def demo_compiled_def default_settings_def)
qed

text \<open>C2: every accepted transition of a successful run passed all guards of its declared route, and
  every accepted stage execution passed all validators of its stage, in order, under the run's
  error policy.\<close>

theorem accepted_evidence_is_gated:
  assumes "execute env v w = (Inr res, rec)" and "0 \<le> max_transitions (cg_settings (re_def env))"
  shows "list_all (\<lambda>tr. tr_accepted tr \<longrightarrow> (\<exists>guards.
        declared env (tr_source tr) (tr_outcome tr) (tr_target tr) guards \<and>
        gate_ok env guards (tr_validations tr))) (smr_transitions res) \<and>
    list_all (\<lambda>se. se_accepted se \<longrightarrow> (\<exists>d.
        map_of (cg_stages (re_def env)) (se_stage se) = Some d \<and>
        gate_ok env (sd_validators d) (se_validations se))) (smr_stages res)"
  using execute_evidence [OF assms(1)] assms(2)
  by (auto simp: evidence_ok_def budget_def list_all_iff transition_gated_def
      accepted_stages_gated_def stage_gated_def)

lemma accepted_evidence_is_gated_witness:
  "list_all (\<lambda>se. se_accepted se \<longrightarrow> (\<exists>d. map_of (cg_stages demo_compiled) (se_stage se) = Some d \<and>
     gate_ok demo_env (sd_validators d) (se_validations se))) (smr_stages demo_result)"
proof -
  obtain rec where "execute demo_env 0 0 = (Inr demo_result, rec)" using demo_execute by blast
  from accepted_evidence_is_gated [OF this] show ?thesis
    by (simp add: demo_env_def demo_compiled_def default_settings_def)
qed

text \<open>C18: the transition records are numbered 1, 2, and so on, their number is within the
  transition budget, and the stage executions are at most one retry policy per accepted
  transition.\<close>

theorem run_within_budget:
  assumes "execute env v w = (Inr res, rec)" and "0 \<le> max_transitions (cg_settings (re_def env))"
  shows "map tr_sequence (smr_transitions res) = [1..int (length (smr_transitions res))] \<and>
    int (length (smr_transitions res)) \<le> max_transitions (cg_settings (re_def env)) \<and>
    length (smr_stages res) \<le> length (taken (smr_transitions res)) * attempts_bound env"
  using execute_evidence [OF assms(1)] assms(2) by (auto simp: evidence_ok_def budget_def)

lemma run_within_budget_witness: "length (smr_transitions demo_result) \<le> 100"
proof -
  obtain rec where "execute demo_env 0 0 = (Inr demo_result, rec)" using demo_execute by blast
  from run_within_budget [OF this] show ?thesis
    by (simp add: demo_env_def demo_compiled_def default_settings_def)
qed

text \<open>The state a successful run returns has passed the state contract.\<close>

theorem final_state_satisfies_contract:
  assumes "execute env v w = (Inr res, rec)" and "0 \<le> max_transitions (cg_settings (re_def env))"
  shows "\<exists>u. contract_validate (cg_contract (re_def env)) u = Inr (smr_state res)"
  using execute_evidence [OF assms(1)] assms(2) by (auto simp: evidence_ok_def budget_def contract_ok_def)

lemma final_state_satisfies_contract_witness:
  "\<exists>u. contract_validate int_contract u = Inr (smr_state demo_result)"
proof -
  obtain rec where "execute demo_env 0 0 = (Inr demo_result, rec)" using demo_execute by blast
  from final_state_satisfies_contract [OF this] show ?thesis
    by (simp add: demo_env_def demo_compiled_def default_settings_def)
qed

text \<open>C3: a committed state changes only when a transition is accepted for a decision that may
  commit; then it is the candidate, cloned and validated at the commit boundary, and the feedback
  is cleared.  A rejected transition leaves state, feedback and stage records as they are.\<close>

theorem advance_step_commits_only_accepted_candidates:
  assumes "advance_step env d s = (Inr r, t)"
  shows "case r of
      Inl _ \<Rightarrow> (if d_can_commit d
        then normalize_clone env (d_candidate_state d) ''state_commit'' = Inr (committed_state t) \<and> feedback t = []
        else committed_state t = committed_state s \<and> feedback t = d_feedback d)
    | Inr d' \<Rightarrow> committed_state t = committed_state s \<and> feedback t = feedback s \<and> stages t = stages s \<and>
        \<not> d_can_commit d' \<and> d_source d' = d_source d"
  using advance_step_effect [OF assms] by (auto simp: commits_def split: sum.splits)

lemma advance_step_commits_witness:
  "\<exists>t. normalize_clone demo_env 5 ''state_commit'' = Inr (committed_state (t :: (nat, int) RunState))"
  using demo_step advance_step_commits_only_accepted_candidates [of demo_env demo_decision demo_state "Inl (Some ''end'')"]
  by (auto simp: demo_decision_def)



text \<open>C19: the events of a run are numbered in order, the first is RUN_STARTED, and the last is
  RUN_FINISHED when the run returns and RUN_FAILED when it raises.\<close>

theorem run_events_are_complete:
  "case execute env v w of (r, rec) \<Rightarrow>
     map ev_sequence (rec_events rec) = [1..int (length (rec_events rec))] \<and>
     rec_events rec \<noteq> [] \<and> ev_type (hd (rec_events rec)) = RUN_STARTED \<and>
     ev_type (last (rec_events rec)) = (if isl r then RUN_FAILED else RUN_FINISHED)"
  using execute_log [of env v w] by (auto simp: log_from_def isl_def split: prod.split sum.splits)



text \<open>A validator sequence stops at the first result that does not let the candidate pass:
  the records are those of the validators up to there, and the decision says whether it raises.\<close>

theorem evaluate_stops_at_first_blocker:
  assumes "evaluate env vs ctx s = (Inr d, t)"
  shows "map vrec_validator (vd_records d) = map (strip \<circ> validator_name) (take (length (vd_records d)) vs) \<and>
     (if vd_passed d
      then length (vd_records d) = length vs \<and>
        list_all (lets_pass (cg_settings (re_def env)) \<circ> vrec_result) (vd_records d)
      else vd_records d \<noteq> [] \<and>
        list_all (lets_pass (cg_settings (re_def env)) \<circ> vrec_result) (butlast (vd_records d)) \<and>
        \<not> lets_pass (cg_settings (re_def env)) (vrec_result (last (vd_records d))) \<and>
        (vd_must_raise d \<longleftrightarrow> validator_error_policy (cg_settings (re_def env)) = RAISE \<and>
           vr_status (vrec_result (last (vd_records d))) \<noteq> REJECT))"
  using evaluate_from_shape [OF assms [unfolded evaluate_def]] by (auto simp: blocking_shape_def)

lemma evaluate_stops_at_first_blocker_witness:
  "\<exists>d t. evaluate demo_env [at_least ''small'' 3, at_least ''large'' 9, at_least ''unused'' 1] demo_context demo_state =
     (Inr d, t) \<and> \<not> lets_pass (cg_settings (re_def demo_env)) (vrec_result (last (vd_records d)))"
proof -
  obtain d t where "evaluate demo_env [at_least ''small'' 3, at_least ''large'' 9, at_least ''unused'' 1]
      demo_context demo_state = (Inr d, t)" "\<not> vd_passed d"
    using demo_evaluate by blast
  then show ?thesis using evaluate_stops_at_first_blocker by fastforce
qed

text \<open>C16: \<open>compile\<close> accepts a graph exactly when it has an entry among its stages, every stage is
  reachable and has an outgoing route, a terminal is reachable, every route starts at a stage and
  ends at a declared node, and every recovery outcome has a route.\<close>

theorem compile_accepts_exactly:
  "(\<exists>c. compile_graph (Inr settings) g = Inr c) \<longleftrightarrow>
     (\<exists>entry. g_entry g = Some entry \<and> entry \<in> stage_names g \<and>
        (\<forall>s \<in> stage_names g. (entry, s) \<in> (graph_edges g)\<^sup>*) \<and>
        (\<exists>t \<in> terminal_names g. (entry, t) \<in> (graph_edges g)\<^sup>*)) \<and>
     (\<forall>s \<in> stage_names g. \<exists>out r. ((s, out), r) \<in> set (g_routes g)) \<and>
     (\<forall>((s, out), r) \<in> set (g_routes g).
        s \<in> stage_names g \<and> set (route_targets r) \<subseteq> stage_names g \<union> terminal_names g) \<and>
     (\<forall>(s, d) \<in> set (g_stages g). \<forall>out. error_outcome (sd_policy d) = Some out \<longrightarrow>
        (s, out) \<in> fst ` set (g_routes g))"
  using compile_iff_graph_ok [of settings g] unfolding graph_ok_def .

lemma compile_accepts_exactly_witness:
  "\<exists>entry. g_entry demo_declared = Some entry \<and>
     (\<forall>s \<in> stage_names demo_declared. (entry, s) \<in> (graph_edges demo_declared)\<^sup>*)"
proof -
  have "compile_graph (Inr default_settings) demo_declared = Inr demo_compiled"
    using demo_graph_compiles by (simp add: compile_graph_def)
  then show ?thesis using compile_accepts_exactly [of default_settings demo_declared] by blast
qed

text \<open>C17: a graph made with the builder and accepted by \<open>compile\<close> is closed: its entry is a stage,
  stages and terminals do not overlap, and every route leads to one of them.\<close>

theorem built_graph_compiles_closed:
  assumes "built g" and "compile_graph st g = Inr c"
  shows "cg_entry c \<in> fst ` set (cg_stages c) \<and>
     fst ` set (cg_stages c) \<inter> fst ` set (cg_terminals c) = {} \<and>
     (\<forall>((s, out), r) \<in> set (cg_routes c).
        set (route_targets r) \<subseteq> fst ` set (cg_stages c) \<union> fst ` set (cg_terminals c))"
  using compile_compiled_ok [OF assms] unfolding compiled_ok_def by blast

lemma built_graph_compiles_closed_witness:
  "cg_entry demo_compiled \<in> fst ` set (cg_stages demo_compiled)"
  using built_graph_compiles_closed [OF demo_graph_built demo_graph_compiles] by blast

lemma convert_error_not_plain: "convert_error env b err \<noteq> PlainError e"
  by (cases err) (auto simp: convert_error_def is_workflow_error_def)

text \<open>C21: a run raises only the errors of the workflow package or a control signal, never a bare
  exception.\<close>

theorem arun_raises_workflow_errors:
  "arun graph observers sleep wait_for fresh expired v run_id ledger metadata w \<noteq> Inl (PlainError e)"
  unfolding arun_def Let_def
  by (cases ledger) (simp_all add: convert_error_not_plain split: option.split sum.split prod.split unit.split)

text \<open>A constructed validation decision is normal, and constructing it again from its fields
  returns it unchanged.\<close>

theorem ValidationResult_normal_form:
  assumes "mk_ValidationResult st c f sc d = Inr r"
  shows "vr_code r \<noteq> [] \<and> strip (vr_code r) = vr_code r \<and>
    (case vr_score r of None \<Rightarrow> True | Some x \<Rightarrow> 0 \<le> x \<and> x \<le> 1) \<and>
    mk_ValidationResult (Inr (vr_status r)) (VStr (vr_code r)) (VStr (vr_feedback r))
      (score_value (vr_score r)) (VDict (vr_details r)) = Inr r"
  using mk_ValidationResult_wf [OF assms] mk_ValidationResult_rebuild [of r] by (auto simp: vr_wf_def)

lemma ValidationResult_normal_form_witness:
  "mk_ValidationResult (Inr PASS) (VStr ''pass'') (VStr ''fine'') (VFloat (Fin (1 / 2))) (VDict []) =
    Inr \<lparr>vr_status = PASS, vr_code = ''pass'', vr_feedback = ''fine'', vr_score = Some (1 / 2), vr_details = []\<rparr>"
proof -
  have "mk_ValidationResult (Inl (VStr ''pass'')) (VStr '' '') (VStr ''fine '') (VFloat (Fin (1 / 2))) VNone =
    Inr \<lparr>vr_status = PASS, vr_code = ''pass'', vr_feedback = ''fine'', vr_score = Some (1 / 2), vr_details = []\<rparr>"
    by (simp add: contract_simps ValidationStatus_of_def)
  from ValidationResult_normal_form [OF this] show ?thesis by (simp add: score_value_def)
qed

end
