(* ===== verification/WF_Validation.thy ===== *)
theory WF_Validation
  imports WF_Contracts
begin

text \<open>
  \<^verbatim>\<open>vidbyte/workflows/validation.py\<close>: the adapters that turn a callback, a schema, a
  grader or a verifier agent into a validator, and the three composite validators.  A validator
  is the record of the contracts theory; its validate runs in the world of the callbacks.  The
  Pydantic adapter, the grader and the agent are not part of this file and are parameters: the
  functions the code calls on them, with the world they may change.
\<close>

subsection \<open>Running callbacks\<close>

datatype failure = Failure exn \<comment> \<open>an Exception\<close> | Signal exn \<comment> \<open>a control signal\<close>

type_synonym ('w, 'a) act = "('w, failure, 'a) sem"

definition call_outcome :: "('w \<Rightarrow> 'a outcome \<times> 'w) \<Rightarrow> (string \<Rightarrow> exn) \<Rightarrow> ('w, 'a) act" where
  "call_outcome f wrong = (\<lambda>w. case f w of
       (Returned x, u) \<Rightarrow> (Inr x, u)
     | (WrongType t, u) \<Rightarrow> (Inl (Failure (wrong t)), u)
     | (Raised e, u) \<Rightarrow> (Inl (Failure e), u)
     | (Interrupted e, u) \<Rightarrow> (Inl (Signal e), u))"

definition to_outcome :: "('w, 'a) act \<Rightarrow> 'w \<Rightarrow> 'a outcome \<times> 'w" where
  "to_outcome m = (\<lambda>w. case m w of
       (Inr x, u) \<Rightarrow> (Returned x, u)
     | (Inl (Failure e), u) \<Rightarrow> (Raised e, u)
     | (Inl (Signal e), u) \<Rightarrow> (Interrupted e, u))"

subsection \<open>Names and codes\<close>

definition definition_failure :: "string \<Rightarrow> exn" where
  "definition_failure msg = Exn ''WorkflowDefinitionError''
     [''WorkflowError'', ''VidbyteSdkError'', ''Exception'', ''BaseException''] msg"

definition required_code :: "pyval \<Rightarrow> string \<Rightarrow> exn + string" where
  "required_code value field_name =
     text_or (definition_failure (field_name @ '' must be a string.''))
             (definition_failure (field_name @ '' cannot be empty.'')) value"

text \<open>
  \<open>_resolved_name\<close>: the source is given by its name and \<^verbatim>\<open>__name__\<close> attributes, as
  text, absent when they are missing or falsy.
\<close>

definition resolved_name :: "pyval \<Rightarrow> string option \<Rightarrow> string option \<Rightarrow> string \<Rightarrow> exn + string" where
  "resolved_name name source_name source_dunder fallback =
     (if name \<noteq> VNone then required_code name ''validator name''
      else case (case source_name of None \<Rightarrow> source_dunder | Some n \<Rightarrow> Some n) of
             Some candidate \<Rightarrow> Inr (if strip candidate = [] then fallback else strip candidate)
           | None \<Rightarrow> Inr fallback)"

definition required_validators :: "('w, 'v) Validator list \<Rightarrow> string \<Rightarrow> exn + ('w, 'v) Validator list" where
  "required_validators vs owner =
     (if vs = [] then Inl (definition_failure (owner @ '' requires at least one child validator.'')) else Inr vs)"

definition optional_name :: "pyval \<Rightarrow> string \<Rightarrow> string \<Rightarrow> exn + string" where
  "optional_name name field_name fallback =
     (if name = VNone then Inr fallback else required_code name field_name)"

subsection \<open>Adapters\<close>

record ('w, 'v) CallableValidator =
  cv_callback :: "'v ValidationContext \<Rightarrow> 'w \<Rightarrow> (bool + ValidationResult) outcome \<times> 'w"
  cv_name :: string
  cv_reject_code :: string
  cv_reject_feedback :: string

definition mk_CallableValidator ::
  "('v ValidationContext \<Rightarrow> 'w \<Rightarrow> (bool + ValidationResult) outcome \<times> 'w) option \<Rightarrow>
   string option \<Rightarrow> string option \<Rightarrow> pyval \<Rightarrow> pyval \<Rightarrow> pyval \<Rightarrow> exn + ('w, 'v) CallableValidator" where
  "mk_CallableValidator callback source_name source_dunder name reject_code reject_feedback =
     (case callback of
        None \<Rightarrow> Inl (definition_failure ''CallableValidator callback must be callable.'')
      | Some f \<Rightarrow>
     (case reject_feedback of
        VStr fb \<Rightarrow>
          bindE (resolved_name name source_name source_dunder ''callable_validator'') (\<lambda>n.
          bindE (required_code reject_code ''CallableValidator.reject_code'') (\<lambda>c.
          Inr \<lparr>cv_callback = f, cv_name = n, cv_reject_code = c, cv_reject_feedback = strip fb\<rparr>))
      | _ \<Rightarrow> Inl (definition_failure ''CallableValidator.reject_feedback must be a string.'')))"

definition callable_validate ::
  "('w, 'v) CallableValidator \<Rightarrow> 'v ValidationContext \<Rightarrow> ('w, ValidationResult) act" where
  "callable_validate cv ctx =
     bindM (call_outcome (cv_callback cv ctx) (\<lambda>t. TypeError (''CallableValidator '' @ quoted (cv_name cv) @
              '' must return bool or ValidationResult, got '' @ t @ ''.''))) (\<lambda>value.
     case value of
       Inr r \<Rightarrow> returnM r
     | Inl b \<Rightarrow> liftE Failure (if b then vr_passed ''pass'' [] None []
                             else vr_rejected (cv_reject_code cv) (cv_reject_feedback cv) None []))"

text \<open>
  The schema adapter answers \<open>None\<close> for a value that conforms, and the details of the rejection
  for a ValidationError; any other exception passes through.
\<close>

record ('w, 'v, 'x) SchemaValidator =
  sv_adapter :: "'x \<Rightarrow> bool \<Rightarrow> exn + dict option"
  sv_selector :: "('v ValidationContext \<Rightarrow> 'w \<Rightarrow> 'x outcome \<times> 'w)"
  sv_strict :: bool
  sv_name :: string
  sv_reject_code :: string

definition schema_validate ::
  "('w, 'v, 'x) SchemaValidator \<Rightarrow> 'v ValidationContext \<Rightarrow> ('w, ValidationResult) act" where
  "schema_validate sv ctx =
     bindM (call_outcome (sv_selector sv ctx) TypeError) (\<lambda>value.
     bindM (liftE Failure (sv_adapter sv value (sv_strict sv))) (\<lambda>verdict.
     liftE Failure (case verdict of
         Some details \<Rightarrow> vr_rejected (sv_reject_code sv)
           ''Candidate value did not satisfy the declared schema.'' (Some 0) details
       | None \<Rightarrow> vr_passed ''pass'' [] (Some 1) [])))"

record GraderResult =
  gr_score :: pyval
  gr_passed :: bool
  gr_reason :: string

record ('w, 'v) GraderValidator =
  gv_grade :: "'v ValidationContext \<Rightarrow> 'w \<Rightarrow> GraderResult outcome \<times> 'w"
    \<comment> \<open>the builders and the grader's agrade\<close>
  gv_grader_name :: string
  gv_name :: string
  gv_reject_code :: string

definition grader_validate ::
  "('w, 'v) GraderValidator \<Rightarrow> 'v ValidationContext \<Rightarrow> ('w, ValidationResult) act" where
  "grader_validate gv ctx =
     bindM (call_outcome (gv_grade gv ctx) (\<lambda>t. TypeError (''GraderValidator '' @ quoted (gv_name gv) @
              '' expected GraderResult, got '' @ t @ ''.''))) (\<lambda>result.
     let details = VDict [(''grader'', VStr (gv_grader_name gv))] in
     liftE Failure
       (if gr_passed result
        then mk_ValidationResult (Inr PASS) (VStr ''pass'') (VStr (gr_reason result)) (gr_score result) details
        else mk_ValidationResult (Inr REJECT) (VStr (gv_reject_code gv))
               (VStr (if gr_reason result = [] then ''Grader rejected the candidate.'' else gr_reason result))
               (gr_score result) details))"

text \<open>
  The verifier agent.  \<open>av_resolve\<close> resolves (and forks) the agent, \<open>av_run\<close> is its run under the
  verifier's timeout, \<open>av_close\<close> closes the MCP servers of a fork, \<open>av_verdict\<close> revalidates the
  structured reply and maps it.
\<close>

record ('w, 'v, 'ag, 'p, 'y) AgentValidator =
  av_resolve :: "'v ValidationContext \<Rightarrow> 'w \<Rightarrow> 'ag outcome \<times> 'w"
  av_prompt :: "'v ValidationContext \<Rightarrow> 'w \<Rightarrow> 'p outcome \<times> 'w"
  av_run :: "'ag \<Rightarrow> 'p \<Rightarrow> 'w \<Rightarrow> 'y option outcome \<times> 'w"
  av_close :: "'ag \<Rightarrow> 'w \<Rightarrow> unit outcome \<times> 'w"
  av_verdict :: "'y \<Rightarrow> 'v ValidationContext \<Rightarrow> 'w \<Rightarrow> ValidationResult outcome \<times> 'w"
  av_fresh_fork :: bool
  av_max_attempts :: nat
  av_fail_closed :: bool
  av_error_code :: string
  av_name :: string

text \<open>The finally clause: the closing runs on every exit, and its own failure replaces the outcome.\<close>

definition finallyM :: "('w, 'a) act \<Rightarrow> ('w, unit) act \<Rightarrow> ('w, 'a) act" where
  "finallyM m c = (\<lambda>w. case m w of (r, u) \<Rightarrow> (case c u of (Inl e, x) \<Rightarrow> (Inl e, x) | (Inr _, x) \<Rightarrow> (r, x)))"

definition validate_once ::
  "('w, 'v, 'ag, 'p, 'y) AgentValidator \<Rightarrow> 'v ValidationContext \<Rightarrow> ('w, ValidationResult) act" where
  "validate_once av ctx =
     bindM (call_outcome (av_resolve av ctx) (\<lambda>t. TypeError
              (''AgentValidator agent factory must return BaseAgent, got '' @ t @ ''.''))) (\<lambda>agent.
     bindM (call_outcome (av_prompt av ctx) TypeError) (\<lambda>prompt.
     bindM (finallyM (call_outcome (av_run av agent prompt) TypeError)
              (if av_fresh_fork av then call_outcome (av_close av agent) TypeError else returnM ())) (\<lambda>structured.
     case structured of
       None \<Rightarrow> throwM (Failure (ValueError ''Verifier reply did not include metadata['structured'].''))
     | Some y \<Rightarrow> call_outcome (av_verdict av y ctx) (\<lambda>t. TypeError
         (''AgentValidator verdict_mapper must return ValidationResult, got '' @ t @ ''.'')))))"

fun agent_attempts ::
  "('w, 'v, 'ag, 'p, 'y) AgentValidator \<Rightarrow> 'v ValidationContext \<Rightarrow> nat \<Rightarrow> string
   \<Rightarrow> ('w, string + ValidationResult) act" where
  "agent_attempts av ctx 0 last_error = returnM (Inl last_error)"
| "agent_attempts av ctx (Suc n) last_error = (\<lambda>w.
     case validate_once av ctx w of
       (Inr r, u) \<Rightarrow> (Inr (Inr r), u)
     | (Inl (Failure e), u) \<Rightarrow> agent_attempts av ctx n (exn_type e) u
     | (Inl (Signal e), u) \<Rightarrow> (Inl (Signal e), u))"

definition exhausted :: "('w, 'v, 'ag, 'p, 'y) AgentValidator \<Rightarrow> string \<Rightarrow> exn + ValidationResult" where
  "exhausted av error_type =
     (let feedback = ''Agent validator '' @ quoted (av_name av) @ '' failed after '' @
            decimal (av_max_attempts av) @ '' attempt(s).'';
          details = [(''attempts'', VInt (int (av_max_attempts av))), (''error_type'', VStr error_type)] in
      if av_fail_closed av then vr_rejected (av_error_code av) feedback (Some 0) details
      else vr_errored (av_error_code av) feedback details)"

definition agent_validate ::
  "('w, 'v, 'ag, 'p, 'y) AgentValidator \<Rightarrow> 'v ValidationContext \<Rightarrow> ('w, ValidationResult) act" where
  "agent_validate av ctx =
     bindM (agent_attempts av ctx (av_max_attempts av) ''UnknownVerifierError'') (\<lambda>r.
     case r of
       Inr result \<Rightarrow> returnM result
     | Inl error_type \<Rightarrow> liftE Failure (exhausted av error_type))"


text \<open>
  The checks of the constructor.  The three callables are given by whether they are callable, the
  agent by whether it is a BaseAgent or a factory, the schema by whether it is a model class.
\<close>

definition check_AgentValidator ::
  "bool \<Rightarrow> bool \<Rightarrow> bool \<Rightarrow> pyval \<Rightarrow> pyval \<Rightarrow> pyval \<Rightarrow> pyval \<Rightarrow> pyval \<Rightarrow> exn + bool \<times> nat \<times> rat option \<times> bool \<times> string" where
  "check_AgentValidator agent_ok callables_ok schema_ok fresh_fork attempts timeout fail_closed error_code =
     (if \<not> agent_ok
      then Inl (definition_failure ''AgentValidator agent must be BaseAgent or a callable factory.'')
      else if \<not> callables_ok
      then Inl (definition_failure ''AgentValidator prompt_builder and verdict_mapper must be callable.'')
      else if \<not> schema_ok
      then Inl (definition_failure ''AgentValidator.verdict_schema must be a Pydantic BaseModel subclass.'')
      else case (fresh_fork, fail_closed) of
        (VBool fork, VBool closes) \<Rightarrow>
          (case plain_int attempts of
             Some n \<Rightarrow>
               if n \<le> 0
               then Inl (definition_failure ''AgentValidator.max_attempts must be an integer greater than zero.'')
               else bindE (if timeout = VNone then Inr None
                           else bindE (finite_number timeout) (\<lambda>t. case t of
                             Some r \<Rightarrow> if r \<le> 0
                               then Inl (definition_failure ''AgentValidator.timeout_seconds must be a finite number greater than zero when provided.'')
                               else Inr (Some r)
                           | None \<Rightarrow> Inl (definition_failure ''AgentValidator.timeout_seconds must be a finite number greater than zero when provided.'')))
                    (\<lambda>tm.
                    bindE (required_code error_code ''AgentValidator.error_code'') (\<lambda>code.
                    Inr (fork, nat n, tm, closes, code)))
           | None \<Rightarrow> Inl (definition_failure ''AgentValidator.max_attempts must be an integer greater than zero.''))
      | _ \<Rightarrow> Inl (definition_failure ''AgentValidator fresh_fork and fail_closed must be booleans.''))"

subsection \<open>Composite validators\<close>

definition invoke_child ::
  "('w, 'v) Validator \<Rightarrow> 'v ValidationContext \<Rightarrow> ('w, ValidationResult) act" where
  "invoke_child v ctx = (\<lambda>w. case v_validate v ctx w of
       (Returned r, u) \<Rightarrow> (Inr r, u)
     | (Raised e, u) \<Rightarrow> (case vr_errored ''validator_exception''
          (''Child validator '' @ quoted (validator_name v) @ '' raised '' @ exn_type e @ ''.'')
          [(''error_type'', VStr (exn_type e))] of Inl e' \<Rightarrow> (Inl (Failure e'), u) | Inr r \<Rightarrow> (Inr r, u))
     | (WrongType t, u) \<Rightarrow> (case vr_errored ''invalid_validator_result''
          (''Child validator '' @ quoted (validator_name v) @ '' returned '' @ t @ ''.'') [] of
            Inl e' \<Rightarrow> (Inl (Failure e'), u) | Inr r \<Rightarrow> (Inr r, u))
     | (Interrupted e, u) \<Rightarrow> (Inl (Signal e), u))"

definition result_payload :: "('w, 'v) Validator \<Rightarrow> ValidationResult \<Rightarrow> rat option \<Rightarrow> dict" where
  "result_payload v r weight =
     [(''validator'', VStr (validator_name v)), (''status'', VStr (status_value (vr_status r))),
      (''code'', VStr (vr_code r)), (''feedback'', VStr (vr_feedback r)),
      (''score'', score_value (vr_score r)), (''details'', VDict (vr_details r))] @
     (case weight of None \<Rightarrow> [] | Some q \<Rightarrow> [(''weight'', VFloat (Fin q))])"

definition with_children :: "ValidationResult \<Rightarrow> dict list \<Rightarrow> exn + ValidationResult" where
  "with_children r children =
     mk_ValidationResult (Inr (vr_status r)) (VStr (vr_code r)) (VStr (vr_feedback r))
       (score_value (vr_score r)) (VDict (dict_put ''children'' (VList (map VDict children)) (vr_details r)))"

definition effective_score :: "ValidationResult \<Rightarrow> rat" where
  "effective_score r = (case vr_score r of
       Some x \<Rightarrow> x
     | None \<Rightarrow> if vr_status r = PASS then 1 else 0)"

definition child_score :: "dict \<Rightarrow> rat option" where
  "child_score child = (case map_of child ''score'' of Some (VFloat (Fin q)) \<Rightarrow> Some q | _ \<Rightarrow> None)"

definition mean_score :: "dict list \<Rightarrow> rat \<Rightarrow> rat" where
  "mean_score children dflt =
     (let scores = List.map_filter child_score children in
      if scores = [] then dflt else sum_list scores / of_nat (length scores))"

definition children_value :: "dict list \<Rightarrow> pyval" where
  "children_value children = VList (map VDict children)"

fun all_of_from ::
  "'v ValidationContext \<Rightarrow> ('w, 'v) Validator list \<Rightarrow> dict list \<Rightarrow> ('w, ValidationResult) act" where
  "all_of_from ctx [] children =
     liftE Failure (vr_passed ''pass'' [] (Some (mean_score children 1)) [(''children'', children_value children)])"
| "all_of_from ctx (v # vs) children =
     bindM (invoke_child v ctx) (\<lambda>r.
     let children' = children @ [result_payload v r None] in
     if vr_status r \<noteq> PASS then liftE Failure (with_children r children')
     else all_of_from ctx vs children')"

definition all_of_validate ::
  "('w, 'v) Validator list \<Rightarrow> 'v ValidationContext \<Rightarrow> ('w, ValidationResult) act" where
  "all_of_validate vs ctx = all_of_from ctx vs []"

definition aggregate_non_pass ::
  "string \<Rightarrow> ValidationResult list \<Rightarrow> dict list \<Rightarrow> exn + ValidationResult" where
  "aggregate_non_pass reject_code results children =
     (if list_ex (\<lambda>r. vr_status r = ERROR) results
      then vr_errored ''child_validator_error'' ''At least one child validator errored and none passed.''
             [(''children'', children_value children)]
      else if list_all (\<lambda>r. vr_status r = ABSTAIN) results
      then vr_abstained ''all_validators_abstained'' ''Every child validator abstained.''
             [(''children'', children_value children)]
      else vr_rejected reject_code ''No child validator passed.'' (Some 0)
             [(''children'', children_value children)])"

fun any_of_from ::
  "string \<Rightarrow> 'v ValidationContext \<Rightarrow> ('w, 'v) Validator list \<Rightarrow> ValidationResult list \<Rightarrow> dict list
   \<Rightarrow> ('w, ValidationResult) act" where
  "any_of_from reject_code ctx [] results children =
     liftE Failure (aggregate_non_pass reject_code results children)"
| "any_of_from reject_code ctx (v # vs) results children =
     bindM (invoke_child v ctx) (\<lambda>r.
     let children' = children @ [result_payload v r None] in
     if vr_status r = PASS
     then liftE Failure (vr_passed ''pass'' (vr_feedback r) (vr_score r) [(''children'', children_value children')])
     else any_of_from reject_code ctx vs (results @ [r]) children')"

definition any_of_validate ::
  "('w, 'v) Validator list \<Rightarrow> string \<Rightarrow> 'v ValidationContext \<Rightarrow> ('w, ValidationResult) act" where
  "any_of_validate vs reject_code ctx = any_of_from reject_code ctx vs [] []"

text \<open>
  The weighted validator.  \<open>py_float\<close> is the float constructor; the text it accepts is given by
  \<open>parse\<close>.
\<close>

definition py_float :: "(string \<Rightarrow> fval option) \<Rightarrow> pyval \<Rightarrow> exn + fval" where
  "py_float parse v =
     (case v of
        VInt n \<Rightarrow> if int_overflows n then Inl OverflowError else Inr (Fin (of_int n))
      | VFloat x \<Rightarrow> Inr x
      | VBool b \<Rightarrow> Inr (Fin (if b then 1 else 0))
      | VStr s \<Rightarrow> (case parse s of Some x \<Rightarrow> Inr x | None \<Rightarrow> Inl (ValueError ''could not convert string to float''))
      | _ \<Rightarrow> Inl (TypeError ''float() argument must be a string or a real number''))"

fun float_weights ::
  "(string \<Rightarrow> fval option) \<Rightarrow> (pyval \<times> ('w, 'v) Validator) list \<Rightarrow> exn + (fval \<times> ('w, 'v) Validator) list" where
  "float_weights parse [] = Inr []"
| "float_weights parse ((q, v) # rest) =
     bindE (py_float parse q) (\<lambda>x. bindE (float_weights parse rest) (\<lambda>xs. Inr ((x, v) # xs)))"

definition finite_weight :: "fval \<Rightarrow> rat option" where
  "finite_weight x = (case x of Fin q \<Rightarrow> if q \<le> 0 then None else Some q | _ \<Rightarrow> None)"

record ('w, 'v) WeightedValidator =
  wv_validators :: "(rat \<times> ('w, 'v) Validator) list"
  wv_threshold :: rat
  wv_name :: string
  wv_reject_code :: string

definition mk_WeightedValidator ::
  "(string \<Rightarrow> fval option) \<Rightarrow> (pyval \<times> ('w, 'v) Validator) list \<Rightarrow> pyval \<Rightarrow> pyval \<Rightarrow> pyval
   \<Rightarrow> exn + ('w, 'v) WeightedValidator" where
  "mk_WeightedValidator parse validators threshold name reject_code =
     (case float_weights parse validators of
        Inl e \<Rightarrow> Inl (if exn_isinstance e [''TypeError'', ''ValueError'']
                     then definition_failure ''WeightedValidator entries must be (numeric weight, validator) pairs.''
                     else e)
      | Inr ws \<Rightarrow>
     if ws = [] \<or> list_ex (\<lambda>(x, _). finite_weight x = None) ws
     then Inl (definition_failure ''WeightedValidator requires one or more positive validator weights.'')
     else bindE (finite_number threshold) (\<lambda>t. case t of
        None \<Rightarrow> Inl (definition_failure ''WeightedValidator.threshold must be a finite number between 0.0 and 1.0.'')
      | Some th \<Rightarrow>
     if \<not> (0 \<le> th \<and> th \<le> 1)
     then Inl (definition_failure ''WeightedValidator.threshold must be a finite number between 0.0 and 1.0.'')
     else bindE (optional_name name ''WeightedValidator.name'' ''weighted'') (\<lambda>n.
          bindE (required_code reject_code ''WeightedValidator.reject_code'') (\<lambda>c.
          Inr \<lparr>wv_validators = map (\<lambda>(x, v). (the (finite_weight x), v)) ws, wv_threshold = th,
               wv_name = n, wv_reject_code = c\<rparr>))))"

fun evaluate_weighted ::
  "'v ValidationContext \<Rightarrow> (rat \<times> ('w, 'v) Validator) list
   \<Rightarrow> ('w, (rat \<times> ('w, 'v) Validator \<times> ValidationResult) list) act" where
  "evaluate_weighted ctx [] = returnM []"
| "evaluate_weighted ctx ((q, v) # rest) =
     bindM (invoke_child v ctx) (\<lambda>r.
     bindM (evaluate_weighted ctx rest) (\<lambda>rs. returnM ((q, v, r) # rs)))"

definition weighted_score :: "(rat \<times> ('w, 'v) Validator \<times> ValidationResult) list \<Rightarrow> rat" where
  "weighted_score evaluated =
     sum_list (map (\<lambda>(q, _, r). q * effective_score r) evaluated) / sum_list (map fst evaluated)"

text \<open>The format \<open>.3f\<close> of a number in the unit interval: rounded half to even.\<close>

definition thousandths :: "rat \<Rightarrow> nat" where
  "thousandths x =
     (let n = nat \<lfloor>1000 * x\<rfloor>; rest = 1000 * x - of_nat n in
      if rest < 1 / 2 \<or> (rest = 1 / 2 \<and> even n) then n else n + 1)"

definition fixed3 :: "rat \<Rightarrow> string" where
  "fixed3 x = (let n = thousandths x in
     decimal (n div 1000) @ ''.'' @ decimal (n div 100 mod 10) @ decimal (n div 10 mod 10) @ decimal (n mod 10))"

definition below_threshold :: "rat \<Rightarrow> rat \<Rightarrow> string" where
  "below_threshold score threshold =
     ''Weighted validation score '' @ fixed3 score @ '' is below threshold '' @ fixed3 threshold @ ''.''"

definition weighted_decision ::
  "('w, 'v) WeightedValidator \<Rightarrow> (rat \<times> ('w, 'v) Validator \<times> ValidationResult) list
   \<Rightarrow> exn + ValidationResult" where
  "weighted_decision wv evaluated =
     (let children = children_value (map (\<lambda>(q, v, r). result_payload v r (Some q)) evaluated);
          score = weighted_score evaluated in
      if list_ex (\<lambda>(_, _, r). vr_status r = ERROR) evaluated
      then vr_errored ''child_validator_error'' ''A weighted child validator errored.'' [(''children'', children)]
      else if list_ex (\<lambda>(_, _, r). vr_status r = ABSTAIN) evaluated
      then vr_abstained ''child_validator_abstained'' ''A weighted child validator abstained.'' [(''children'', children)]
      else if wv_threshold wv \<le> score
      then vr_passed ''pass'' [] (Some score)
             [(''threshold'', VFloat (Fin (wv_threshold wv))), (''children'', children)]
      else vr_rejected (wv_reject_code wv)
             (below_threshold score (wv_threshold wv)) (Some score)
             [(''threshold'', VFloat (Fin (wv_threshold wv))), (''children'', children)])"

definition weighted_validate ::
  "('w, 'v) WeightedValidator \<Rightarrow> 'v ValidationContext \<Rightarrow> ('w, ValidationResult) act" where
  "weighted_validate wv ctx =
     bindM (evaluate_weighted ctx (wv_validators wv)) (\<lambda>evaluated.
     liftE Failure (weighted_decision wv evaluated))"

subsection \<open>What the composites decide\<close>

text \<open>The children are run one after the other, each in the world the previous one left.\<close>

inductive children_run ::
  "'v ValidationContext \<Rightarrow> ('w, 'v) Validator list \<Rightarrow> ValidationResult list \<Rightarrow> 'w \<Rightarrow> 'w \<Rightarrow> bool"
  for ctx where
  none: "children_run ctx [] [] w w"
| more: "invoke_child v ctx w = (Inr r, t) \<Longrightarrow> children_run ctx vs rs t u \<Longrightarrow>
    children_run ctx (v # vs) (r # rs) w u"

inductive_cases children_run_NilE: "children_run ctx [] rs w u"
inductive_cases children_run_ConsE: "children_run ctx (v # vs) rs w u"
inductive_simps children_run_Nil [simp]: "children_run ctx [] rs w u"

text \<open>
  A validator returns results made by the constructor of ValidationResult, which checks them: the
  class is a frozen dataclass.
\<close>

definition results_checked :: "('w, 'v) Validator list \<Rightarrow> bool" where
  "results_checked vs \<longleftrightarrow>
     (\<forall>v \<in> set vs. \<forall>ctx w r u. v_validate v ctx w = (Returned r, u) \<longrightarrow> vr_wf r)"

lemma vr_errored_checked: "vr_errored c f d = Inr r \<Longrightarrow> vr_wf r"
  unfolding vr_errored_def by (rule mk_ValidationResult_wf)

lemma vr_errored_Inl: "vr_errored c f d \<noteq> Inl e"
  by (simp add: vr_errored_typed)

lemma invoke_child_post:
  "results_checked (v # vs) \<Longrightarrow>
   post (\<lambda>r _. vr_wf r) (\<lambda>e _. \<exists>x. e = Signal x) (invoke_child v ctx w)"
proof -
  assume checked: "results_checked (v # vs)"
  obtain out u where out: "v_validate v ctx w = (out, u)" by fastforce
  show ?thesis
  proof (cases out)
    case (Returned r)
    then have "vr_wf r" using checked out by (auto simp: results_checked_def)
    then show ?thesis using out Returned by (simp add: invoke_child_def)
  qed (use vr_errored_checked in \<open>auto simp: invoke_child_def out split: sum.split simp: vr_errored_Inl\<close>)
qed

lemma passed_status: "vr_passed c f sc d = Inr r \<Longrightarrow> vr_status r = PASS \<and> vr_score r = sc"
  unfolding vr_passed_def
  by (auto simp: mk_ValidationResult_def coerce_member_def score_value_def unit_score_def
      elim!: bindE_InrE split: option.splits if_splits)

lemma rejected_status: "vr_rejected c f sc d = Inr r \<Longrightarrow> vr_status r = REJECT \<and> vr_score r = sc"
  unfolding vr_rejected_def
  by (auto simp: mk_ValidationResult_def coerce_member_def score_value_def unit_score_def
      elim!: bindE_InrE split: option.splits if_splits)

lemma passed_typed: "0 \<le> x \<Longrightarrow> x \<le> 1 \<Longrightarrow> vr_passed c f (Some x) d \<noteq> Inl e"
  unfolding vr_passed_def by (subst mk_ValidationResult_typed) auto

lemma rejected_typed: "0 \<le> x \<Longrightarrow> x \<le> 1 \<Longrightarrow> vr_rejected c f (Some x) d \<noteq> Inl e"
  unfolding vr_rejected_def by (subst mk_ValidationResult_typed) auto

lemma with_children_typed:
  "vr_wf r \<Longrightarrow> with_children r children =
     Inr (r\<lparr>vr_details := dict_put ''children'' (VList (map VDict children)) (vr_details r)\<rparr>)"
  unfolding with_children_def by (rule mk_ValidationResult_rebuild)

text \<open>Scores are numbers of the unit interval, and so are their means.\<close>

lemma effective_score_unit: "vr_wf r \<Longrightarrow> 0 \<le> effective_score r \<and> effective_score r \<le> 1"
  by (auto simp: effective_score_def vr_wf_def split: option.splits)

lemma sum_list_weighted:
  fixes ps :: "(rat \<times> rat) list"
  assumes "\<forall>(q, x) \<in> set ps. 0 \<le> q \<and> 0 \<le> x \<and> x \<le> 1"
  shows "0 \<le> sum_list (map (\<lambda>(q, x). q * x) ps) \<and>
    sum_list (map (\<lambda>(q, x). q * x) ps) \<le> sum_list (map fst ps)"
  using assms
proof (induction ps)
  case (Cons p ps)
  obtain q x where p: "p = (q, x)" by (cases p)
  with Cons.prems have "0 \<le> q * x" "q * x \<le> q" by (auto simp: mult_left_le)
  with Cons p show ?case by auto
qed simp

lemma weighted_score_unit:
  assumes "evaluated \<noteq> []" and "\<forall>(q, v, r) \<in> set evaluated. 0 < q \<and> vr_wf r"
  shows "0 \<le> weighted_score evaluated \<and> weighted_score evaluated \<le> 1"
proof -
  let ?ps = "map (\<lambda>(q, v, r). (q, effective_score r)) evaluated"
  have "\<forall>(q, x) \<in> set ?ps. 0 \<le> q \<and> 0 \<le> x \<and> x \<le> 1"
    using assms(2) effective_score_unit by fastforce
  from sum_list_weighted [OF this]
  have b: "0 \<le> sum_list (map (\<lambda>(q, _, r). q * effective_score r) evaluated)"
    "sum_list (map (\<lambda>(q, _, r). q * effective_score r) evaluated) \<le> sum_list (map fst evaluated)"
    unfolding map_map comp_def case_prod_beta fst_conv snd_conv by blast+
  have "0 < sum_list (map fst evaluated)"
    using assms
  proof (induction evaluated)
    case (Cons p ps)
    then show ?case by (cases ps) (auto intro: add_pos_pos)
  qed simp
  with b show ?thesis by (simp add: weighted_score_def)
qed

definition child_unit :: "dict \<Rightarrow> bool" where
  "child_unit c \<longleftrightarrow> (case child_score c of None \<Rightarrow> True | Some x \<Rightarrow> 0 \<le> x \<and> x \<le> 1)"

lemma payload_unit: "vr_wf r \<Longrightarrow> child_unit (result_payload v r weight)"
  by (auto simp: child_unit_def child_score_def result_payload_def score_value_def vr_wf_def
      split: option.splits)

lemma mean_score_unit:
  assumes "\<forall>c \<in> set children. child_unit c" and "0 \<le> dflt" "dflt \<le> 1"
  shows "0 \<le> mean_score children dflt \<and> mean_score children dflt \<le> 1"
proof (cases "List.map_filter child_score children")
  case Nil
  then show ?thesis using assms by (simp add: mean_score_def)
next
  case (Cons x xs)
  have "0 \<le> sum_list ys \<and> sum_list ys \<le> of_nat (length ys)" if "\<forall>y \<in> set ys. 0 \<le> y \<and> y \<le> (1::rat)" for ys
    using that by (induction ys) auto
  moreover have "\<forall>y \<in> set (List.map_filter child_score children). 0 \<le> y \<and> y \<le> 1"
    using assms(1) by (fastforce simp: List.map_filter_def child_unit_def split: option.splits)
  ultimately have "0 \<le> sum_list (x # xs) \<and> sum_list (x # xs) \<le> of_nat (length (x # xs))"
    unfolding Cons by blast
  then show ?thesis using Cons by (simp add: mean_score_def Let_def divide_le_eq)
qed


lemma results_checked_Cons: "results_checked (v # vs) \<Longrightarrow> results_checked vs"
  by (simp add: results_checked_def)

lemma all_of_from_no_failure:
  "results_checked vs \<Longrightarrow> \<forall>c \<in> set children. child_unit c \<Longrightarrow>
   post (\<lambda>_ _. True) (\<lambda>e _. \<exists>x. e = Signal x) (all_of_from ctx vs children w)"
proof (induction vs arbitrary: children w)
  case Nil
  then show ?case
    using passed_typed [of "mean_score children 1"] mean_score_unit [of children 1]
    by (auto simp: post_liftE split: sum.split)
next
  case (Cons v vs)
  show ?case
    unfolding all_of_from.simps Let_def
    by (rule post_bindI, rule invoke_child_post [OF Cons.prems(1)])
      (use Cons.prems payload_unit in \<open>auto simp: with_children_typed
         intro!: Cons.IH results_checked_Cons [OF Cons.prems(1)]\<close>)
qed

lemma any_of_from_no_failure:
  "results_checked vs \<Longrightarrow>
   post (\<lambda>_ _. True) (\<lambda>e _. \<exists>x. e = Signal x) (any_of_from code ctx vs results children w)"
proof (induction vs arbitrary: results children w)
  case Nil
  then show ?case
    using rejected_typed [of 0 code "''No child validator passed.''"]
    by (auto simp: aggregate_non_pass_def vr_errored_typed vr_abstained_typed post_liftE split: sum.split)
next
  case (Cons v vs)
  have pass: "vr_passed ''pass'' (vr_feedback r) (vr_score r) d \<noteq> Inl e" if "vr_wf r" for r d e
    using that by (auto simp: vr_passed_def mk_ValidationResult_typed vr_wf_def)
  show ?case
    unfolding any_of_from.simps Let_def
    by (rule post_bindI, rule invoke_child_post [OF Cons.prems])
      (use pass in \<open>auto simp: post_liftE intro!: Cons.IH results_checked_Cons [OF Cons.prems] split: sum.split\<close>)
qed

lemma evaluate_weighted_post:
  "results_checked (map snd qvs) \<Longrightarrow>
   post (\<lambda>ev _. map fst ev = map fst qvs \<and> (\<forall>(q, v, r) \<in> set ev. vr_wf r)) (\<lambda>e _. \<exists>x. e = Signal x)
     (evaluate_weighted ctx qvs w)"
proof (induction qvs arbitrary: w)
  case Nil
  show ?case by simp
next
  case (Cons qv qvs)
  obtain q v where qv: "qv = (q, v)" by (cases qv)
  have checked: "results_checked (v # map snd qvs)" using Cons.prems qv by simp
  show ?case
    unfolding qv evaluate_weighted.simps
    by (rule post_bindI, rule invoke_child_post [OF checked])
      (auto intro!: post_mono [OF Cons.IH] results_checked_Cons [OF checked])
qed

lemma all_of_from_spec:
  "all_of_from ctx vs children w = (Inr r, u) \<Longrightarrow>
   \<exists>k rs. k \<le> length vs \<and> children_run ctx (take k vs) rs w u \<and>
     (if list_all (\<lambda>x. vr_status x = PASS) rs then k = length vs \<and> vr_status r = PASS
      else list_all (\<lambda>x. vr_status x = PASS) (butlast rs) \<and> vr_status (last rs) \<noteq> PASS \<and>
        vr_status r = vr_status (last rs))"
proof (induction vs arbitrary: children w)
  case Nil
  then show ?case
    by (intro exI [of _ 0] exI [of _ "[]"])
      (auto simp: liftE_def returnM_app throwM_app dest: passed_status split: sum.splits)
next
  case (Cons v vs)
  from Cons.prems obtain x t where
    x: "invoke_child v ctx w = (Inr x, t)"
    and rest: "(if vr_status x \<noteq> PASS then liftE Failure (with_children x (children @ [result_payload v x None]))
        else all_of_from ctx vs (children @ [result_payload v x None])) t = (Inr r, u)"
    by (auto simp: Let_def elim!: bindM_InrE)
  show ?case
  proof (cases "vr_status x = PASS")
    case False
    with rest have "t = u" "vr_status r = vr_status x"
      by (auto simp: liftE_def returnM_app throwM_app with_children_def
          dest: mk_ValidationResult_status split: sum.splits)
    with x False show ?thesis
      by (intro exI [of _ 1] exI [of _ "[x]"]) (auto intro: children_run.intros)
  next
    case True
    with rest Cons.IH obtain k rs where
      "k \<le> length vs" "children_run ctx (take k vs) rs t u"
      "if list_all (\<lambda>x. vr_status x = PASS) rs then k = length vs \<and> vr_status r = PASS
      else list_all (\<lambda>x. vr_status x = PASS) (butlast rs) \<and> vr_status (last rs) \<noteq> PASS \<and>
        vr_status r = vr_status (last rs)" by (fastforce simp only: True not_True_eq_False if_False)
    with x True show ?thesis
      by (intro exI [of _ "Suc k"] exI [of _ "x # rs"]) (auto intro: children_run.intros split: if_splits)
  qed
qed

lemma any_of_from_spec:
  "any_of_from code ctx vs results children w = (Inr r, u) \<Longrightarrow>
   \<exists>k rs. k \<le> length vs \<and> children_run ctx (take k vs) rs w u \<and>
     (if list_ex (\<lambda>x. vr_status x = PASS) rs
      then vr_status (last rs) = PASS \<and> list_all (\<lambda>x. vr_status x \<noteq> PASS) (butlast rs) \<and>
        vr_status r = PASS \<and> vr_score r = vr_score (last rs)
      else k = length vs \<and> vr_status r =
        (if list_ex (\<lambda>x. vr_status x = ERROR) (results @ rs) then ERROR
         else if list_all (\<lambda>x. vr_status x = ABSTAIN) (results @ rs) then ABSTAIN else REJECT))"
proof (induction vs arbitrary: results children w)
  case Nil
  then show ?case
    by (intro exI [of _ 0] exI [of _ "[]"])
      (auto simp: liftE_def returnM_app throwM_app aggregate_non_pass_def vr_errored_typed vr_abstained_typed
        dest: rejected_status split: sum.splits if_splits)
next
  case (Cons v vs)
  from Cons.prems obtain x t where
    x: "invoke_child v ctx w = (Inr x, t)"
    and rest: "(if vr_status x = PASS
        then liftE Failure (vr_passed ''pass'' (vr_feedback x) (vr_score x)
               [(''children'', children_value (children @ [result_payload v x None]))])
        else any_of_from code ctx vs (results @ [x]) (children @ [result_payload v x None])) t = (Inr r, u)"
    by (auto simp: Let_def elim!: bindM_InrE)
  show ?case
  proof (cases "vr_status x = PASS")
    case True
    with rest have "t = u" "vr_status r = PASS" "vr_score r = vr_score x"
      by (auto simp: liftE_def returnM_app throwM_app dest: passed_status split: sum.splits)
    with x True show ?thesis
      by (intro exI [of _ 1] exI [of _ "[x]"]) (auto intro: children_run.intros)
  next
    case False
    then have "any_of_from code ctx vs (results @ [x]) (children @ [result_payload v x None]) t = (Inr r, u)"
      using rest by simp
    from Cons.IH [OF this] obtain k rs where
      k: "k \<le> length vs" "children_run ctx (take k vs) rs t u"
      "if list_ex (\<lambda>x. vr_status x = PASS) rs
      then vr_status (last rs) = PASS \<and> list_all (\<lambda>x. vr_status x \<noteq> PASS) (butlast rs) \<and>
        vr_status r = PASS \<and> vr_score r = vr_score (last rs)
      else k = length vs \<and> vr_status r =
        (if list_ex (\<lambda>x. vr_status x = ERROR) (results @ x # rs) then ERROR
         else if list_all (\<lambda>x. vr_status x = ABSTAIN) (results @ x # rs) then ABSTAIN else REJECT)" by auto
    with x False show ?thesis
      by (intro exI [of _ "Suc k"] exI [of _ "x # rs"])
        (auto intro: children_run.intros split: if_splits)
  qed
qed


lemma evaluate_weighted_run:
  "evaluate_weighted ctx qvs w = (Inr ev, u) \<Longrightarrow>
   children_run ctx (map snd qvs) (map (snd \<circ> snd) ev) w u \<and> map (\<lambda>(q, v, _). (q, v)) ev = qvs"
proof (induction qvs arbitrary: w ev)
  case Nil
  then show ?case by (auto simp: returnM_app)
next
  case (Cons qv qvs)
  obtain q v where qv: "qv = (q, v)" by (cases qv)
  with Cons.prems obtain r t rs where
    "invoke_child v ctx w = (Inr r, t)" "evaluate_weighted ctx qvs t = (Inr rs, u)" "ev = (q, v, r) # rs"
    by (auto simp: returnM_app elim!: bindM_InrE)
  with Cons.IH [of t rs] qv show ?case by (auto intro: children_run.intros)
qed

lemma weighted_decision_total:
  assumes "0 \<le> weighted_score ev" "weighted_score ev \<le> 1"
  shows "weighted_decision wv ev \<noteq> Inl e"
  using passed_typed [OF assms] rejected_typed [OF assms]
  by (simp add: weighted_decision_def Let_def vr_errored_typed vr_abstained_typed)

lemma weighted_decision_status:
  "weighted_decision wv ev = Inr r \<Longrightarrow> vr_status r =
     (if list_ex (\<lambda>(_, _, x). vr_status x = ERROR) ev then ERROR
      else if list_ex (\<lambda>(_, _, x). vr_status x = ABSTAIN) ev then ABSTAIN
      else if wv_threshold wv \<le> weighted_score ev then PASS else REJECT)"
  by (auto simp: weighted_decision_def Let_def vr_errored_typed vr_abstained_typed
      dest: passed_status rejected_status split: if_splits)

lemma weighted_no_failure:
  assumes "results_checked (map snd (wv_validators wv))" "wv_validators wv \<noteq> []"
    and "\<forall>(q, v) \<in> set (wv_validators wv). 0 < q"
  shows "post (\<lambda>_ _. True) (\<lambda>e _. \<exists>x. e = Signal x) (weighted_validate wv ctx w)"
proof -
  have score: "0 \<le> weighted_score ev \<and> weighted_score ev \<le> 1"
    if "map fst ev = map fst (wv_validators wv)" "\<forall>(q, v, r) \<in> set ev. vr_wf r"
    for ev :: "(rat \<times> ('a, 'b) Validator \<times> ValidationResult) list"
  proof (rule weighted_score_unit)
    show "ev \<noteq> []" using that(1) assms(2) by auto
    have "\<forall>q \<in> set (map fst ev). 0 < q" unfolding that(1) using assms(3) by auto
    then show "\<forall>(q, v, r) \<in> set ev. 0 < q \<and> vr_wf r" using that(2) by fastforce
  qed
  show ?thesis
    unfolding weighted_validate_def
    by (rule post_bindI, rule evaluate_weighted_post [OF assms(1)])
      (use score weighted_decision_total [of _ wv] in \<open>auto simp: post_liftE split: sum.split\<close>)
qed

lemma weighted_spec:
  assumes "weighted_validate wv ctx w = (Inr r, u)"
  shows "\<exists>ev. children_run ctx (map snd (wv_validators wv)) (map (snd \<circ> snd) ev) w u \<and>
     map (\<lambda>(q, v, _). (q, v)) ev = wv_validators wv \<and>
     vr_status r =
       (if list_ex (\<lambda>(_, _, x). vr_status x = ERROR) ev then ERROR
        else if list_ex (\<lambda>(_, _, x). vr_status x = ABSTAIN) ev then ABSTAIN
        else if wv_threshold wv \<le> weighted_score ev then PASS else REJECT)"
proof -
  from assms obtain ev where "evaluate_weighted ctx (wv_validators wv) w = (Inr ev, u)"
    and "weighted_decision wv ev = Inr r"
    by (auto simp: weighted_validate_def liftE_def returnM_app throwM_app elim!: bindM_InrE split: sum.splits)
  then show ?thesis
    by (intro exI [of _ ev] conjI weighted_decision_status)
      (simp_all add: evaluate_weighted_run [of ctx "wv_validators wv" w ev u])
qed

subsection \<open>The verifier agent\<close>

lemma rejected_ex: "0 \<le> x \<Longrightarrow> x \<le> 1 \<Longrightarrow> \<exists>r. vr_rejected c f (Some x) d = Inr r \<and> vr_status r = REJECT"
  using rejected_typed [of x c f d] by (cases "vr_rejected c f (Some x) d") (auto dest: rejected_status)

lemma exhausted_status:
  "\<exists>r. exhausted av t = Inr r \<and> vr_status r = (if av_fail_closed av then REJECT else ERROR)"
proof (cases "av_fail_closed av")
  case True
  then show ?thesis unfolding exhausted_def Let_def using rejected_ex [of 0] by simp
next
  case False
  then show ?thesis unfolding exhausted_def Let_def vr_errored_typed by simp
qed

text \<open>\<open>failing n w u\<close>: the verifier fails \<open>n\<close> times in a row, from the world \<open>w\<close> to \<open>u\<close>.\<close>

inductive failing ::
  "('w, 'v, 'ag, 'p, 'y) AgentValidator \<Rightarrow> 'v ValidationContext \<Rightarrow> nat \<Rightarrow> 'w \<Rightarrow> 'w \<Rightarrow> bool"
  for av ctx where
  zero: "failing av ctx 0 w w"
| Suc: "validate_once av ctx w = (Inl (Failure e), t) \<Longrightarrow> failing av ctx n t u \<Longrightarrow> failing av ctx (Suc n) w u"

lemma agent_attempts_spec:
  "agent_attempts av ctx n le w = (r, u) \<Longrightarrow>
   case r of
     Inr (Inr res) \<Rightarrow> \<exists>k t. k < n \<and> failing av ctx k w t \<and> validate_once av ctx t = (Inr res, u)
   | Inr (Inl _) \<Rightarrow> failing av ctx n w u
   | Inl e \<Rightarrow> \<exists>x k t. e = Signal x \<and> k < n \<and> failing av ctx k w t \<and> validate_once av ctx t = (Inl e, u)"
proof (induction n arbitrary: le w)
  case 0
  then show ?case by (auto simp: returnM_app intro: failing.zero)
next
  case (Suc n)
  obtain x t where once: "validate_once av ctx w = (x, t)" by fastforce
  show ?case
  proof (cases x)
    case (Inr res)
    then show ?thesis using Suc.prems once by (auto intro!: exI [of _ 0] failing.zero)
  next
    case (Inl e)
    show ?thesis
    proof (cases e)
      case (Signal s)
      then show ?thesis using Suc.prems once Inl by (auto intro!: exI [of _ 0] failing.zero)
    next
      case (Failure f)
      with Suc.prems once Inl have "agent_attempts av ctx n (exn_type f) t = (r, u)" by simp
      from Suc.IH [OF this] failing.Suc [of av ctx w f t] once Inl Failure show ?thesis
        by (fastforce split: sum.splits)
    qed
  qed
qed


subsection \<open>Properties\<close>

text \<open>Three children with fixed decisions; the world counts their invocations.\<close>

definition fixed_child :: "string \<Rightarrow> ValidationStatus \<Rightarrow> rat \<Rightarrow> (nat, int) Validator" where
  "fixed_child name st x =
     \<lparr>v_type_name = ''Fixed'', v_name = Inr name, v_callable = True,
      v_validate = (\<lambda>_ w. (Returned \<lparr>vr_status = st, vr_code = status_value st, vr_feedback = [],
        vr_score = Some x, vr_details = []\<rparr>, w + 1))\<rparr>"

definition demo_children :: "(nat, int) Validator list" where
  "demo_children = [fixed_child ''a'' REJECT (1 / 4), fixed_child ''b'' PASS 1, fixed_child ''c'' PASS (1 / 2)]"

definition demo_weighted :: "(nat, int) WeightedValidator" where
  "demo_weighted = \<lparr>wv_validators = zip [1, 2, 1] demo_children, wv_threshold = 1 / 2,
     wv_name = ''weighted'', wv_reject_code = ''low''\<rparr>"

definition demo_ctx :: "int ValidationContext" where
  "demo_ctx = \<lparr>vc_run_id = ''r'', vc_phase = STAGE, vc_stage = ''s'', vc_state_before = 0,
     vc_candidate_state = 1, vc_stage_result = \<lparr>sr_state = 1, sr_outcome = ''done'', sr_metadata = []\<rparr>,
     vc_outcome = ''done'', vc_target = None, vc_feedback = [], vc_metadata = []\<rparr>"

lemmas demo_validation_simps = demo_children_def fixed_child_def invoke_child_def bindM_def Let_def
  returnM_app vr_passed_def vr_rejected_def with_children_def mk_ValidationResult_def coerce_member_def
  unit_score_def score_value_def finite_number_def strip_def is_space_def vr_errored_def

lemma demo_checked: "results_checked demo_children"
  by (auto simp: results_checked_def demo_children_def fixed_child_def vr_wf_def strip_def is_space_def)

definition demo_all_result :: ValidationResult where
  "demo_all_result = (case all_of_validate demo_children demo_ctx 0 of (Inr r, _) \<Rightarrow> r)"

definition demo_any_result :: ValidationResult where
  "demo_any_result = (case any_of_validate demo_children ''none'' demo_ctx 0 of (Inr r, _) \<Rightarrow> r)"

definition demo_weighted_result :: ValidationResult where
  "demo_weighted_result = (case weighted_validate demo_weighted demo_ctx 0 of (Inr r, _) \<Rightarrow> r)"

lemma demo_all_of: "all_of_validate demo_children demo_ctx 0 = (Inr demo_all_result, 1)"
  by (simp add: demo_all_result_def all_of_validate_def demo_validation_simps)

lemma demo_any_of: "any_of_validate demo_children ''none'' demo_ctx 0 = (Inr demo_any_result, 2)"
  by (simp add: demo_any_result_def any_of_validate_def demo_validation_simps)

lemma demo_weighted_run: "weighted_validate demo_weighted demo_ctx 0 = (Inr demo_weighted_result, 3)"
  by (simp add: demo_weighted_result_def weighted_validate_def weighted_decision_def weighted_score_def
      effective_score_def demo_weighted_def demo_validation_simps)

text \<open>A conjunction runs its children in order up to the first that does not pass, and passes
  exactly when all pass; otherwise it has the status of the child that stopped it.\<close>

theorem all_of_is_ordered_conjunction:
  assumes "all_of_validate vs ctx w = (Inr r, u)"
  shows "\<exists>k rs. k \<le> length vs \<and> children_run ctx (take k vs) rs w u \<and>
     (if list_all (\<lambda>x. vr_status x = PASS) rs then k = length vs \<and> vr_status r = PASS
      else list_all (\<lambda>x. vr_status x = PASS) (butlast rs) \<and> vr_status (last rs) \<noteq> PASS \<and>
        vr_status r = vr_status (last rs))"
  using all_of_from_spec [OF assms [unfolded all_of_validate_def]] .

lemma all_of_witness:
  "(\<exists>k rs. k \<le> length demo_children \<and> children_run demo_ctx (take k demo_children) rs 0 1 \<and>
     (if list_all (\<lambda>x. vr_status x = PASS) rs then k = length demo_children \<and> vr_status demo_all_result = PASS
      else list_all (\<lambda>x. vr_status x = PASS) (butlast rs) \<and> vr_status (last rs) \<noteq> PASS \<and>
        vr_status demo_all_result = vr_status (last rs))) \<and> vr_status demo_all_result = REJECT"
  using all_of_is_ordered_conjunction [OF demo_all_of]
  by (intro conjI) (assumption, simp add: demo_all_result_def all_of_validate_def demo_validation_simps)

text \<open>A disjunction runs its children in order up to the first that passes, and then passes with
  that child's score; when none passes, an error of a child comes before abstention of all, and
  that before rejection.\<close>

theorem any_of_is_ordered_disjunction:
  assumes "any_of_validate vs code ctx w = (Inr r, u)"
  shows "\<exists>k rs. k \<le> length vs \<and> children_run ctx (take k vs) rs w u \<and>
     (if list_ex (\<lambda>x. vr_status x = PASS) rs
      then vr_status (last rs) = PASS \<and> list_all (\<lambda>x. vr_status x \<noteq> PASS) (butlast rs) \<and>
        vr_status r = PASS \<and> vr_score r = vr_score (last rs)
      else k = length vs \<and> vr_status r =
        (if list_ex (\<lambda>x. vr_status x = ERROR) rs then ERROR
         else if list_all (\<lambda>x. vr_status x = ABSTAIN) rs then ABSTAIN else REJECT))"
  using any_of_from_spec [OF assms [unfolded any_of_validate_def]] unfolding append_Nil .

lemma any_of_witness:
  "\<exists>k rs. k \<le> length demo_children \<and> children_run demo_ctx (take k demo_children) rs 0 2 \<and>
     (if list_ex (\<lambda>x. vr_status x = PASS) rs
      then vr_status (last rs) = PASS \<and> list_all (\<lambda>x. vr_status x \<noteq> PASS) (butlast rs) \<and>
        vr_status demo_any_result = PASS \<and> vr_score demo_any_result = vr_score (last rs)
      else k = length demo_children \<and> vr_status demo_any_result =
        (if list_ex (\<lambda>x. vr_status x = ERROR) rs then ERROR
         else if list_all (\<lambda>x. vr_status x = ABSTAIN) rs then ABSTAIN else REJECT))"
  by (rule any_of_is_ordered_disjunction [OF demo_any_of])

text \<open>A weighted validator runs every child, and without an error or abstention passes exactly
  when the weighted mean of the scores reaches the threshold.\<close>

theorem weighted_compares_mean_with_threshold:
  assumes "weighted_validate wv ctx w = (Inr r, u)"
  shows "\<exists>ev. children_run ctx (map snd (wv_validators wv)) (map (snd \<circ> snd) ev) w u \<and>
     map (\<lambda>(q, v, _). (q, v)) ev = wv_validators wv \<and>
     vr_status r =
       (if list_ex (\<lambda>(_, _, x). vr_status x = ERROR) ev then ERROR
        else if list_ex (\<lambda>(_, _, x). vr_status x = ABSTAIN) ev then ABSTAIN
        else if wv_threshold wv \<le>
            sum_list (map (\<lambda>(q, _, x). q * effective_score x) ev) / sum_list (map fst ev) then PASS
        else REJECT)"
  using weighted_spec [OF assms] unfolding weighted_score_def .

lemma weighted_witness:
  "\<exists>ev. children_run demo_ctx demo_children (map (snd \<circ> snd) ev) 0 (3 :: nat) \<and>
     map (\<lambda>(q, v, _). (q, v)) ev = wv_validators demo_weighted"
  using weighted_compares_mean_with_threshold [OF demo_weighted_run]
  by (auto simp: demo_weighted_def demo_children_def)

text \<open>The composite validators never raise an exception, whatever their children do: a child
  that raises or returns a wrong value becomes an ERROR decision, and every score they compute is
  accepted by the constructor of ValidationResult.\<close>

theorem composites_never_raise:
  assumes "results_checked vs" and "results_checked (map snd (wv_validators wv))"
    and "wv_validators wv \<noteq> []" and "\<forall>(q, v) \<in> set (wv_validators wv). 0 < q"
  shows "fst (all_of_validate vs ctx w) \<noteq> Inl (Failure e) \<and>
    fst (any_of_validate vs code ctx w) \<noteq> Inl (Failure e) \<and>
    fst (weighted_validate wv ctx w) \<noteq> Inl (Failure e)"
proof -
  have no: "fst x \<noteq> Inl (Failure e)" if "post (\<lambda>_ _. True) (\<lambda>e _. \<exists>x. e = Signal x) x"
    for x :: "(failure + ValidationResult) \<times> 'a"
    using that by (auto simp: post_def split: prod.splits)
  show ?thesis
    unfolding all_of_validate_def any_of_validate_def
    by (intro conjI no all_of_from_no_failure any_of_from_no_failure weighted_no_failure assms) simp
qed

lemma composites_witness: "fst (weighted_validate demo_weighted demo_ctx 5) \<noteq> Inl (Failure (KeyError ''a''))"
  using composites_never_raise [of demo_children demo_weighted] demo_checked
  by (simp add: demo_weighted_def demo_children_def)

text \<open>An agent validator runs the verifier at most \<open>max_attempts\<close> times: it returns the result of
  the first attempt that does not fail, or, after that many failures, its own rejection or error;
  it never raises an exception.\<close>

theorem agent_validator_is_bounded:
  "case agent_validate av ctx w of
     (Inr res, u) \<Rightarrow>
       (\<exists>k t. k < av_max_attempts av \<and> failing av ctx k w t \<and> validate_once av ctx t = (Inr res, u)) \<or>
       failing av ctx (av_max_attempts av) w u \<and> vr_status res = (if av_fail_closed av then REJECT else ERROR)
   | (Inl e, u) \<Rightarrow> \<exists>x k t. e = Signal x \<and> k < av_max_attempts av \<and> failing av ctx k w t \<and>
       validate_once av ctx t = (Inl e, u)"
proof -
  let ?le = "''UnknownVerifierError''"
  obtain r u where a: "agent_attempts av ctx (av_max_attempts av) ?le w = (r, u)" by fastforce
  note spec = agent_attempts_spec [OF a]
  show ?thesis
  proof (cases r)
    case (Inl e)
    with a have "agent_validate av ctx w = (Inl e, u)" by (simp add: agent_validate_def bindM_Inl)
    with spec Inl show ?thesis by simp
  next
    case r: (Inr x)
    show ?thesis
    proof (cases x)
      case (Inr res)
      with a r have "agent_validate av ctx w = (Inr res, u)"
        by (simp add: agent_validate_def bindM_def returnM_app)
      with spec r Inr show ?thesis by simp
    next
      case (Inl t)
      have "\<exists>res. agent_validate av ctx w = (Inr res, u) \<and>
          vr_status res = (if av_fail_closed av then REJECT else ERROR)"
      proof -
        have "agent_validate av ctx w = liftE Failure (exhausted av t) u"
          using a r Inl by (simp add: agent_validate_def bindM_def)
        moreover obtain res where "exhausted av t = Inr res"
          "vr_status res = (if av_fail_closed av then REJECT else ERROR)"
          using exhausted_status by blast
        ultimately show ?thesis by (simp add: returnM_app)
      qed
      then show ?thesis using spec r Inl by auto
    qed
  qed
qed

end
