(* ===== verification/MW_Core.thy ===== *)
theory MW_Core
  imports Prelude
begin

text \<open>
  \<^verbatim>\<open>vidbyte/lib/dataclasses/middleware.py\<close> and
  \<^verbatim>\<open>vidbyte/middleware/pipeline.py\<close>: the decisions a middleware hook may return, and
  the pipeline that runs the hooks of a lifecycle point in order and combines their decisions.
  The middlewares, the clock and the sleeper run in a world \<open>'w\<close>.
\<close>

subsection \<open>Decisions\<close>

datatype MiddlewareHook =
    BEFORE_RUN | BEFORE_ITERATION | BEFORE_MODEL_CALL | AFTER_MODEL_RESPONSE | ON_MODEL_ERROR
  | BEFORE_TOOL_CALL | AFTER_TOOL_CALL | AFTER_ITERATION | AFTER_RUN | REVIEW_FINISH

datatype MiddlewareAction = CONTINUE | SLEEP | ABORT_RUN | DENY_TOOL | RETRY

datatype ToolStatus = SUCCESS | ERROR

record ToolCall =
  tc_tool_name :: string
  tc_arguments :: dict
  tc_call_id :: "string option"
  tc_metadata :: dict
  tc_activity :: "(dict \<times> dict) option"

record ToolResult =
  tres_tool_name :: string
  tres_status :: ToolStatus
  tres_output :: string
  tres_metadata :: dict

record MiddlewareTransform =
  tf_tool_result :: "ToolResult option"
  tf_messages :: "dict list option"
  tf_system :: "string option"
  tf_metadata :: dict

record MiddlewareDecision =
  md_action :: MiddlewareAction
  md_reason :: "string option"
  md_sleep_seconds :: rat
  md_metadata :: dict
  md_transform :: "MiddlewareTransform option"

definition action_value :: "MiddlewareAction \<Rightarrow> string" where
  "action_value a = (case a of CONTINUE \<Rightarrow> ''continue'' | SLEEP \<Rightarrow> ''sleep'' | ABORT_RUN \<Rightarrow> ''abort_run''
     | DENY_TOOL \<Rightarrow> ''deny_tool'' | RETRY \<Rightarrow> ''retry'')"

text \<open>\<open>MiddlewareAction(v)\<close>, for a member or its text.\<close>

definition MiddlewareAction_of :: "string + MiddlewareAction \<Rightarrow> exn + MiddlewareAction" where
  "MiddlewareAction_of v = (case v of
       Inr a \<Rightarrow> Inr a
     | Inl s \<Rightarrow> (case List.find (\<lambda>a. action_value a = s) [CONTINUE, SLEEP, ABORT_RUN, DENY_TOOL, RETRY] of
                  Some a \<Rightarrow> Inr a
                | None \<Rightarrow> Inl (ValueError ''not a valid MiddlewareAction'')))"

definition mk_MiddlewareDecision ::
  "string + MiddlewareAction \<Rightarrow> string option \<Rightarrow> rat \<Rightarrow> dict \<Rightarrow> MiddlewareTransform option
   \<Rightarrow> exn + MiddlewareDecision" where
  "mk_MiddlewareDecision action reason seconds metadata transform =
     bindE (MiddlewareAction_of action) (\<lambda>a.
     if seconds < 0 then Inl (ValueError ''sleep_seconds cannot be negative.'')
     else if transform \<noteq> None \<and> a \<noteq> CONTINUE
     then Inl (ValueError ''Middleware transforms are only valid for continue decisions.'')
     else Inr \<lparr>md_action = a, md_reason = reason, md_sleep_seconds = seconds, md_metadata = metadata,
               md_transform = transform\<rparr>)"

text \<open>The class methods.  Only \<open>sleep\<close> and \<open>retry\<close> can raise, for a negative number of seconds.\<close>

definition continue_decision :: "dict \<Rightarrow> MiddlewareTransform option \<Rightarrow> MiddlewareDecision" where
  "continue_decision metadata transform =
     \<lparr>md_action = CONTINUE, md_reason = None, md_sleep_seconds = 0, md_metadata = metadata,
      md_transform = transform\<rparr>"

definition sleep_decision :: "rat \<Rightarrow> string option \<Rightarrow> dict \<Rightarrow> exn + MiddlewareDecision" where
  "sleep_decision seconds reason metadata = mk_MiddlewareDecision (Inr SLEEP) reason seconds metadata None"

definition abort :: "string \<Rightarrow> dict \<Rightarrow> MiddlewareDecision" where
  "abort reason metadata =
     \<lparr>md_action = ABORT_RUN, md_reason = Some reason, md_sleep_seconds = 0, md_metadata = metadata,
      md_transform = None\<rparr>"

definition deny_tool :: "string \<Rightarrow> dict \<Rightarrow> MiddlewareDecision" where
  "deny_tool reason metadata =
     \<lparr>md_action = DENY_TOOL, md_reason = Some reason, md_sleep_seconds = 0, md_metadata = metadata,
      md_transform = None\<rparr>"

definition retry_decision :: "string \<Rightarrow> rat \<Rightarrow> dict \<Rightarrow> exn + MiddlewareDecision" where
  "retry_decision reason seconds metadata = mk_MiddlewareDecision (Inr RETRY) (Some reason) seconds metadata None"

definition decision_wf :: "MiddlewareDecision \<Rightarrow> bool" where
  "decision_wf d \<longleftrightarrow> 0 \<le> md_sleep_seconds d \<and> (md_transform d \<noteq> None \<longrightarrow> md_action d = CONTINUE)"

lemma mk_MiddlewareDecision_wf: "mk_MiddlewareDecision a r s m t = Inr d \<Longrightarrow> decision_wf d"
  by (auto simp: mk_MiddlewareDecision_def decision_wf_def elim!: bindE_InrE split: if_splits)

lemma mk_MiddlewareDecision_value:
  "mk_MiddlewareDecision (Inl (action_value a)) = mk_MiddlewareDecision (Inr a)"
  by (cases a) (simp_all add: mk_MiddlewareDecision_def MiddlewareAction_of_def action_value_def fun_eq_iff)

lemma constructors_are_checked:
  "mk_MiddlewareDecision (Inr CONTINUE) None 0 m t = Inr (continue_decision m t)"
  "mk_MiddlewareDecision (Inr ABORT_RUN) (Some r) 0 m None = Inr (abort r m)"
  "mk_MiddlewareDecision (Inr DENY_TOOL) (Some r) 0 m None = Inr (deny_tool r m)"
  by (simp_all add: mk_MiddlewareDecision_def MiddlewareAction_of_def continue_decision_def abort_def deny_tool_def)

subsection \<open>Contexts and the records of the pipeline\<close>

text \<open>
  The facts a hook receives.  The per-run state dictionary is part of the world.  A model
  response is given by its \<^verbatim>\<open>text\<close> attribute, when that is a string, and its
  \<^verbatim>\<open>str\<close>.
\<close>

record MiddlewareContext =
  cx_agent_name :: string
  cx_message :: string
  cx_iteration_count :: int
  cx_model_call_count :: int
  cx_tool_call_count :: int
  cx_elapsed_seconds :: rat
  cx_tokens_used :: "int option"
  cx_tool_call :: "ToolCall option"
  cx_tool_result :: "ToolResult option"
  cx_model_response :: "(string option \<times> string) option"
  cx_error :: "exn option"
  cx_messages :: "dict list"
  cx_system :: "string option"
  cx_tool_is_internal :: bool
  cx_metadata :: dict

record MiddlewareEvent =
  me_name :: string
  me_hook :: MiddlewareHook
  me_action :: MiddlewareAction
  me_reason :: "string option"
  me_metadata :: dict

record MiddlewareHookInvocation =
  hi_name :: string
  hi_hook :: MiddlewareHook
  hi_action :: MiddlewareAction
  hi_duration :: rat
  hi_reason :: "string option"
  hi_metadata :: dict
  hi_error_type :: "string option"

datatype FinishReview = Accept | ContinueWith string | Stop string

text \<open>What a hook leaves: a decision, no decision, an exception, or a control signal.\<close>

datatype 'a hook_outcome = Answer "'a option" | HookRaised exn | HookSignal exn

record 'w AgentMiddleware =
  mw_name :: string
  mw_fail_closed :: bool
  mw_hook :: "MiddlewareHook \<Rightarrow> MiddlewareContext \<Rightarrow> 'w \<Rightarrow> MiddlewareDecision hook_outcome \<times> 'w"
  mw_review :: "MiddlewareContext \<Rightarrow> 'w \<Rightarrow> (exn + FinishReview) \<times> 'w"

record 'w Pipeline =
  pl_world :: 'w
  pl_events :: "MiddlewareEvent list"
  pl_invocations :: "MiddlewareHookInvocation list"

record 'w PipelineConfig =
  pc_middleware :: "'w AgentMiddleware list"
  pc_sleeper :: "rat \<Rightarrow> 'w \<Rightarrow> exn option \<times> 'w"
  pc_clock :: "'w \<Rightarrow> rat \<times> 'w"

type_synonym ('w, 'a) pipe = "('w Pipeline, exn, 'a) sem"

definition worldM :: "('w \<Rightarrow> 'a \<times> 'w) \<Rightarrow> ('w, 'a) pipe" where
  "worldM f = (\<lambda>p. case f (pl_world p) of (r, w) \<Rightarrow> (Inr r, p\<lparr>pl_world := w\<rparr>))"

subsection \<open>Transforms\<close>

definition apply_transform :: "MiddlewareContext \<Rightarrow> MiddlewareTransform option \<Rightarrow> MiddlewareContext" where
  "apply_transform ctx transform =
     (case transform of
        None \<Rightarrow> ctx
      | Some t \<Rightarrow> ctx\<lparr>
          cx_messages := (case tf_messages t of None \<Rightarrow> cx_messages ctx | Some m \<Rightarrow> m),
          cx_system := (case tf_system t of None \<Rightarrow> cx_system ctx | Some s \<Rightarrow> Some s),
          cx_tool_result := (case tf_tool_result t of None \<Rightarrow> cx_tool_result ctx | Some r \<Rightarrow> Some r)\<rparr>)"

definition or_else :: "'a option \<Rightarrow> 'a option \<Rightarrow> 'a option" where
  "or_else a b = (case a of None \<Rightarrow> b | Some x \<Rightarrow> Some x)"

definition merge_transforms ::
  "MiddlewareTransform option \<Rightarrow> MiddlewareTransform option \<Rightarrow> MiddlewareTransform option" where
  "merge_transforms current next_transform =
     (case (current, next_transform) of
        (None, n) \<Rightarrow> n
      | (c, None) \<Rightarrow> c
      | (Some c, Some n) \<Rightarrow> Some
          \<lparr>tf_tool_result = or_else (tf_tool_result n) (tf_tool_result c),
           tf_messages = or_else (tf_messages n) (tf_messages c),
           tf_system = or_else (tf_system n) (tf_system c),
           tf_metadata = dict_merge (tf_metadata c) (tf_metadata n)\<rparr>)"

definition merge_continue_decisions ::
  "MiddlewareDecision \<Rightarrow> MiddlewareDecision \<Rightarrow> MiddlewareDecision" where
  "merge_continue_decisions current d =
     continue_decision (dict_merge (md_metadata current) (md_metadata d))
       (merge_transforms (md_transform current) (md_transform d))"

subsection \<open>One lifecycle point\<close>

definition record_event :: "'w AgentMiddleware \<Rightarrow> MiddlewareHook \<Rightarrow> MiddlewareDecision \<Rightarrow> ('w, unit) pipe" where
  "record_event m hook d = updM (\<lambda>p. p\<lparr>pl_events := pl_events p @
     [\<lparr>me_name = mw_name m, me_hook = hook, me_action = md_action d, me_reason = md_reason d,
       me_metadata = md_metadata d\<rparr>]\<rparr>)"

definition exception_decision ::
  "'w AgentMiddleware \<Rightarrow> MiddlewareHook \<Rightarrow> exn \<Rightarrow> ('w, MiddlewareDecision) pipe" where
  "exception_decision m hook e =
     (let metadata = [(''error_type'', VStr (exn_type e)), (''error'', VStr (exn_msg e))] in
      if mw_fail_closed m then returnM (abort ''middleware_error'' metadata)
      else let d = \<lparr>md_action = CONTINUE, md_reason = Some ''middleware_error_fail_open'',
                    md_sleep_seconds = 0, md_metadata = metadata, md_transform = None\<rparr> in
           bindM (record_event m hook d) (\<lambda>_. returnM d))"

definition record_hook_invocation ::
  "'w AgentMiddleware \<Rightarrow> MiddlewareHook \<Rightarrow> MiddlewareDecision \<Rightarrow> rat \<Rightarrow> string option \<Rightarrow> ('w, unit) pipe" where
  "record_hook_invocation m hook d duration error_type = updM (\<lambda>p. p\<lparr>pl_invocations := pl_invocations p @
     [\<lparr>hi_name = mw_name m, hi_hook = hook, hi_action = md_action d, hi_duration = duration,
       hi_reason = md_reason d, hi_metadata = filter (\<lambda>(k, _). k \<noteq> ''error'') (md_metadata d),
       hi_error_type = error_type\<rparr>]\<rparr>)"

text \<open>The call of one hook: the decision it stands for, and the class of its exception.\<close>

definition ask ::
  "'w AgentMiddleware \<Rightarrow> MiddlewareHook \<Rightarrow> MiddlewareContext \<Rightarrow> ('w, MiddlewareDecision \<times> string option) pipe" where
  "ask m hook ctx =
     bindM (worldM (mw_hook m hook ctx)) (\<lambda>out.
     case out of
       Answer None \<Rightarrow> returnM (continue_decision [] None, None)
     | Answer (Some d) \<Rightarrow> returnM (d, None)
     | HookSignal e \<Rightarrow> throwM e
     | HookRaised e \<Rightarrow>
         if exn_isinstance e [''FailureRaisedError''] then throwM e
         else bindM (exception_decision m hook e) (\<lambda>d. returnM (d, Some (exn_type e))))"

definition ask_timed ::
  "'w PipelineConfig \<Rightarrow> 'w AgentMiddleware \<Rightarrow> MiddlewareHook \<Rightarrow> MiddlewareContext \<Rightarrow> ('w, MiddlewareDecision) pipe" where
  "ask_timed cfg m hook ctx =
     bindM (worldM (pc_clock cfg)) (\<lambda>started.
     bindM (ask m hook ctx) (\<lambda>(d, error_type).
     bindM (worldM (pc_clock cfg)) (\<lambda>now.
     bindM (record_hook_invocation m hook d (max 0 (now - started)) error_type) (\<lambda>_.
     returnM d))))"

fun run_from ::
  "'w PipelineConfig \<Rightarrow> MiddlewareHook \<Rightarrow> MiddlewareDecision \<Rightarrow> MiddlewareContext \<Rightarrow> 'w AgentMiddleware list
   \<Rightarrow> ('w, MiddlewareDecision) pipe" where
  "run_from cfg hook aggregate ctx [] = returnM aggregate"
| "run_from cfg hook aggregate ctx (m # ms) =
     bindM (ask_timed cfg m hook ctx) (\<lambda>d.
     if md_action d = CONTINUE
     then run_from cfg hook (merge_continue_decisions aggregate d) (apply_transform ctx (md_transform d)) ms
     else bindM (record_event m hook d) (\<lambda>_.
       if md_action d = SLEEP
       then bindM (worldM (pc_sleeper cfg (md_sleep_seconds d))) (\<lambda>r.
            case r of Some e \<Rightarrow> throwM e | None \<Rightarrow> run_from cfg hook aggregate ctx ms)
       else returnM d))"

definition run_hook ::
  "'w PipelineConfig \<Rightarrow> MiddlewareHook \<Rightarrow> MiddlewareContext \<Rightarrow> ('w, MiddlewareDecision) pipe" where
  "run_hook cfg hook ctx = run_from cfg hook (continue_decision [] None) ctx (pc_middleware cfg)"

fun review_from :: "MiddlewareContext \<Rightarrow> 'w AgentMiddleware list \<Rightarrow> ('w, FinishReview) pipe" where
  "review_from ctx [] = returnM Accept"
| "review_from ctx (m # ms) =
     bindM (worldM (mw_review m ctx)) (\<lambda>r.
     case r of
       Inl e \<Rightarrow> throwM e
     | Inr review \<Rightarrow> if review \<noteq> Accept then returnM review else review_from ctx ms)"

definition review_finish :: "'w PipelineConfig \<Rightarrow> MiddlewareContext \<Rightarrow> ('w, FinishReview) pipe" where
  "review_finish cfg ctx = review_from ctx (pc_middleware cfg)"

definition hook_value :: "MiddlewareHook \<Rightarrow> string" where
  "hook_value h = (case h of
       BEFORE_RUN \<Rightarrow> ''before_run'' | BEFORE_ITERATION \<Rightarrow> ''before_iteration''
     | BEFORE_MODEL_CALL \<Rightarrow> ''before_model_call'' | AFTER_MODEL_RESPONSE \<Rightarrow> ''after_model_response''
     | ON_MODEL_ERROR \<Rightarrow> ''on_model_error'' | BEFORE_TOOL_CALL \<Rightarrow> ''before_tool_call''
     | AFTER_TOOL_CALL \<Rightarrow> ''after_tool_call'' | AFTER_ITERATION \<Rightarrow> ''after_iteration''
     | AFTER_RUN \<Rightarrow> ''after_run'' | REVIEW_FINISH \<Rightarrow> ''review_finish'')"

definition pipeline_metadata :: "'w Pipeline \<Rightarrow> dict" where
  "pipeline_metadata p =
     [(''event_count'', VInt (int (length (pl_events p)))),
      (''events'', VList (map (\<lambda>e. VDict
         [(''middleware_name'', VStr (me_name e)), (''hook'', VStr (hook_value (me_hook e))),
          (''action'', VStr (action_value (me_action e))),
          (''reason'', case me_reason e of None \<Rightarrow> VNone | Some r \<Rightarrow> VStr r),
          (''metadata'', VDict (me_metadata e))]) (pl_events p)))]"

subsection \<open>Transforms compose\<close>

lemma or_else_assoc: "or_else a (or_else b c) = or_else (or_else a b) c"
  by (simp add: or_else_def split: option.split)

lemma merge_transforms_None [simp]: "merge_transforms None t = t" "merge_transforms t None = t"
  by (simp_all add: merge_transforms_def split: option.split)

text \<open>Applying a merged transform is applying one after the other.\<close>

lemma apply_merge:
  "apply_transform ctx (merge_transforms a b) = apply_transform (apply_transform ctx a) b"
  by (cases a; cases b) (simp_all add: merge_transforms_def apply_transform_def or_else_def split: option.split)

subsection \<open>What a lifecycle point does\<close>

text \<open>
  The invocations of one run of the pipeline: \<open>asked ms invs\<close> says that exactly the first
  middlewares were asked, in order, each once.
\<close>

definition asked :: "'w AgentMiddleware list \<Rightarrow> MiddlewareHook \<Rightarrow> MiddlewareHookInvocation list \<Rightarrow> bool" where
  "asked ms hook invs \<longleftrightarrow> length invs \<le> length ms \<and>
     map hi_name invs = map mw_name (take (length invs) ms) \<and>
     list_all (\<lambda>i. hi_hook i = hook \<and> 0 \<le> hi_duration i \<and> ''error'' \<notin> fst ` set (hi_metadata i)) invs"

definition passing :: "MiddlewareHookInvocation \<Rightarrow> bool" where
  "passing i \<longleftrightarrow> hi_action i = CONTINUE \<or> hi_action i = SLEEP"

lemma ask_timed_post:
  "post (\<lambda>d q. \<exists>i. pl_invocations q = pl_invocations p @ [i] \<and> hi_name i = mw_name m \<and> hi_hook i = hook \<and>
       hi_action i = md_action d \<and> 0 \<le> hi_duration i \<and> ''error'' \<notin> fst ` set (hi_metadata i))
     (\<lambda>_ q. pl_invocations q = pl_invocations p) (ask_timed cfg m hook ctx p)"
proof -
  let ?X = "pl_invocations p"
  have w: "post (\<lambda>_ q. pl_invocations q = ?X) E (worldM f s)" if "pl_invocations s = ?X" for f s E
    using that by (simp add: worldM_def split: prod.split)
  have a: "post (\<lambda>_ q. pl_invocations q = ?X) (\<lambda>_ q. pl_invocations q = ?X) (ask m hook ctx s)"
    if "pl_invocations s = ?X" for s
    unfolding ask_def
    by (rule post_bindI, rule w, rule that)
      (auto simp: exception_decision_def Let_def record_event_def split: hook_outcome.split option.split)
  show ?thesis
    unfolding ask_timed_def
    apply (rule post_bindI, rule w, rule refl)
    apply (rule post_bindI, rule a, assumption)
    apply (clarsimp simp del: post_bindM)
    apply (rule post_bindI, rule w, assumption)
    apply (auto simp: record_hook_invocation_def)
    done
qed

lemma run_from_post:
  "md_action agg = CONTINUE \<Longrightarrow>
   post (\<lambda>d q. \<exists>new. pl_invocations q = pl_invocations p @ new \<and> asked ms hook new \<and>
       (if md_action d = CONTINUE then length new = length ms \<and> list_all passing new
        else new \<noteq> [] \<and> list_all passing (butlast new) \<and> hi_action (last new) = md_action d \<and> \<not> passing (last new)))
     (\<lambda>_ q. \<exists>new. pl_invocations q = pl_invocations p @ new \<and> asked ms hook new \<and> list_all passing new)
     (run_from cfg hook agg ctx ms p)"
proof (induction ms arbitrary: agg ctx p)
  case Nil
  then show ?case by (simp add: asked_def)
next
  case (Cons m ms)
  let ?Q = "\<lambda>d q. \<exists>new. pl_invocations q = pl_invocations p @ new \<and> asked (m # ms) hook new \<and>
       (if md_action d = CONTINUE then length new = length (m # ms) \<and> list_all passing new
        else new \<noteq> [] \<and> list_all passing (butlast new) \<and> hi_action (last new) = md_action d \<and> \<not> passing (last new))"
  let ?E = "\<lambda>_ q. \<exists>new. pl_invocations q = pl_invocations p @ new \<and> asked (m # ms) hook new \<and> list_all passing new"
  let ?I = "\<lambda>d q i. pl_invocations q = pl_invocations p @ [i] \<and> hi_name i = mw_name m \<and> hi_hook i = hook \<and>
       hi_action i = md_action d \<and> 0 \<le> hi_duration i \<and> ''error'' \<notin> fst ` set (hi_metadata i)"
  have first: "post (\<lambda>d q. \<exists>i. ?I d q i) ?E (ask_timed cfg m hook ctx p)"
    by (rule post_mono [OF ask_timed_post]) (auto simp: asked_def)
  have one: "asked (m # ms) hook [i]" if "?I d q i" for d q i
    using that by (simp add: asked_def)
  have more: "asked (m # ms) hook (i # new)" if "?I d q i" "asked ms hook new" for d q i new
    using that by (simp add: asked_def)
  have rest: "post ?Q ?E (run_from cfg hook agg' ctx' ms q')"
    if "?I d q i" "passing i" "pl_invocations q' = pl_invocations q" "md_action agg' = CONTINUE" for d q i q' agg' ctx'
    by (rule post_mono [OF Cons.IH [OF that(4)]])
      (use that more [OF that(1)] in \<open>fastforce split: if_splits\<close>)+
  show ?case
    unfolding run_from.simps
  proof (rule post_bindI, rule first)
    fix d :: MiddlewareDecision and q :: "'a Pipeline"
    assume "\<exists>i. ?I d q i"
    then obtain i where i: "?I d q i" by blast
    have event: "record_event m hook d q = (Inr (), q\<lparr>pl_events := pl_events q @
        [\<lparr>me_name = mw_name m, me_hook = hook, me_action = md_action d, me_reason = md_reason d,
          me_metadata = md_metadata d\<rparr>]\<rparr>)" (is "_ = (_, ?q)")
      by (simp add: record_event_def updM_app)
    let ?tail = "if md_action d = SLEEP
       then bindM (worldM (pc_sleeper cfg (md_sleep_seconds d))) (\<lambda>r.
            case r of Some e \<Rightarrow> throwM e | None \<Rightarrow> run_from cfg hook agg ctx ms)
       else returnM d"
    have tail: "post ?Q ?E (?tail ?q)" if "md_action d \<noteq> CONTINUE"
    proof (cases "md_action d = SLEEP")
      case True
      have woken: "post ?Q ?E ((case r of Some e \<Rightarrow> throwM e | None \<Rightarrow> run_from cfg hook agg ctx ms) u)"
        if "pl_invocations u = pl_invocations q" for r u
      proof (cases r)
        case None
        have "post ?Q ?E (run_from cfg hook agg ctx ms u)"
          by (rule rest [OF i]) (use i that True Cons.prems in \<open>simp_all add: passing_def\<close>)
        then show ?thesis by (simp only: None option.case)
      next
        case (Some e)
        then show ?thesis using i that True one [OF i] by (auto simp: passing_def)
      qed
      obtain r w where sl: "pc_sleeper cfg (md_sleep_seconds d) (pl_world ?q) = (r, w)" by fastforce
      have "?tail ?q = (case r of Some e \<Rightarrow> throwM e | None \<Rightarrow> run_from cfg hook agg ctx ms) (?q\<lparr>pl_world := w\<rparr>)"
        unfolding if_P [OF True] bindM_def worldM_def sl prod.case sum.case ..
      then show ?thesis using woken by (simp only:) simp
    next
      case False
      then show ?thesis using i that one [OF i] by (auto simp: passing_def)
    qed
    show "post ?Q ?E ((if md_action d = CONTINUE
      then run_from cfg hook (merge_continue_decisions agg d) (apply_transform ctx (md_transform d)) ms
      else bindM (record_event m hook d) (\<lambda>_. ?tail)) q)"
    proof (cases "md_action d = CONTINUE")
      case True
      then have "post ?Q ?E (run_from cfg hook (merge_continue_decisions agg d)
          (apply_transform ctx (md_transform d)) ms q)"
        using i by (intro rest [OF i])
          (simp_all add: passing_def merge_continue_decisions_def continue_decision_def)
      then show ?thesis using True by simp
    next
      case False
      then show ?thesis using tail by (simp add: bindM_def event)
    qed
  qed
qed

text \<open>A sleep is served by the pipeline itself and never handed to the caller.\<close>

lemma run_from_never_sleeps:
  "md_action agg = CONTINUE \<Longrightarrow> run_from cfg hook agg ctx ms p = (Inr d, q) \<Longrightarrow> md_action d \<noteq> SLEEP"
  using postD_Inr [OF run_from_post] by (fastforce simp: passing_def split: if_splits)


inductive accepting ::
  "MiddlewareContext \<Rightarrow> 'w AgentMiddleware list \<Rightarrow> 'w \<Rightarrow> 'w \<Rightarrow> bool" for ctx where
  none: "accepting ctx [] w w"
| more: "mw_review m ctx w = (Inr Accept, t) \<Longrightarrow> accepting ctx ms t u \<Longrightarrow> accepting ctx (m # ms) w u"

inductive_simps accepting_simps [simp]: "accepting ctx [] w u" "accepting ctx (m # ms) w u"

lemma review_from_spec:
  "review_from ctx ms p = (Inr r, q) \<Longrightarrow>
   pl_events q = pl_events p \<and> pl_invocations q = pl_invocations p \<and>
   (if r = Accept then accepting ctx ms (pl_world p) (pl_world q)
    else \<exists>k t. k < length ms \<and> accepting ctx (take k ms) (pl_world p) t \<and>
      mw_review (ms ! k) ctx t = (Inr r, pl_world q))"
proof (induction ms arbitrary: p)
  case Nil
  then show ?case by (auto simp: returnM_app)
next
  case (Cons m ms)
  obtain x w where x: "mw_review m ctx (pl_world p) = (x, w)" by fastforce
  let ?p = "p\<lparr>pl_world := w\<rparr>"
  from Cons.prems x obtain review where r: "x = Inr review"
    and rest: "(if review \<noteq> Accept then returnM review else review_from ctx ms) ?p = (Inr r, q)"
    by (auto simp: bindM_def worldM_def throwM_app split: sum.splits)
  show ?case
  proof (cases "review = Accept")
    case False
    with rest have "r = review" "q = ?p" by (auto simp: returnM_app)
    with x r False show ?thesis by (auto intro!: exI [of _ 0])
  next
    case True
    with rest Cons.IH [of ?p] have IH: "pl_events q = pl_events p \<and> pl_invocations q = pl_invocations p \<and>
       (if r = Accept then accepting ctx ms w (pl_world q)
        else \<exists>k t. k < length ms \<and> accepting ctx (take k ms) w t \<and>
          mw_review (ms ! k) ctx t = (Inr r, pl_world q))" by (simp cong: if_cong)
    show ?thesis
    proof (cases "r = Accept")
      case True
      with IH x r \<open>review = Accept\<close> show ?thesis by auto
    next
      case False
      with IH obtain k t where "k < length ms" "accepting ctx (take k ms) w t"
        "mw_review (ms ! k) ctx t = (Inr r, pl_world q)" by auto
      with False IH x r \<open>review = Accept\<close> show ?thesis
        by (auto intro!: exI [of _ "Suc k"] exI [of _ t])
    qed
  qed
qed

subsection \<open>The contract of a budget\<close>

text \<open>
  Several middlewares grant an action while a counter is below a limit and count every action
  they grant.  Whatever sequence of requests is made, the grants fit in what is left of the limit.
\<close>

fun grants :: "('i \<Rightarrow> 's \<Rightarrow> bool \<times> 's) \<Rightarrow> 'i list \<Rightarrow> 's \<Rightarrow> nat" where
  "grants step [] s = 0"
| "grants step (i # is) s = (case step i s of (b, t) \<Rightarrow> (if b then 1 else 0) + grants step is t)"

locale call_budget =
  fixes step :: "'i \<Rightarrow> 's \<Rightarrow> bool \<times> 's"
    and used :: "'s \<Rightarrow> nat"
    and limit :: nat
  assumes granted: "step i s = (True, t) \<Longrightarrow> used s < limit \<and> used t = Suc (used s)"
    and refused: "step i s = (False, t) \<Longrightarrow> used s \<le> used t"
begin

lemma grants_fit: "grants step is s \<le> limit - used s"
proof (induction "is" arbitrary: s)
  case Nil
  show ?case by simp
next
  case (Cons i "is")
  obtain b t where st: "step i s = (b, t)" by fastforce
  have IH: "grants step is t \<le> limit - used t" by (rule Cons.IH)
  show ?case
  proof (cases b)
    case True
    with granted [of i s t] st IH show ?thesis by auto
  next
    case False
    with refused [of i s t] st IH show ?thesis by auto
  qed
qed

lemma exhausted_refuses: "limit \<le> used s \<Longrightarrow> \<not> fst (step i s)"
  using granted [of i s "snd (step i s)"] by (cases "step i s") auto

end

locale eager_budget = call_budget step used limit
  for step :: "'i \<Rightarrow> 's \<Rightarrow> bool \<times> 's" and used limit +
  assumes eager: "step i s = (False, t) \<Longrightarrow> limit \<le> used s"
begin

lemma exhausted_stays: "limit \<le> used s \<Longrightarrow> grants step is s = 0"
  using grants_fit [of "is" s] by simp

lemma grants_all: "grants step is s = min (length is) (limit - used s)"
proof (induction "is" arbitrary: s)
  case Nil
  show ?case by simp
next
  case (Cons i "is")
  obtain b t where st: "step i s = (b, t)" by fastforce
  show ?case
  proof (cases b)
    case True
    with granted [of i s t] st Cons.IH [of t] show ?thesis by (auto simp: min_def)
  next
    case False
    with eager [of i s t] st exhausted_stays [of s "i # is"] show ?thesis by simp
  qed
qed

end

subsection \<open>Properties\<close>

text \<open>Three middlewares: one that transforms, one that sleeps, one that fails and is fail-closed.\<close>

definition demo_mw :: "string \<Rightarrow> bool \<Rightarrow> MiddlewareDecision hook_outcome \<Rightarrow> FinishReview \<Rightarrow> nat AgentMiddleware" where
  "demo_mw name closes out review = \<lparr>mw_name = name, mw_fail_closed = closes,
     mw_hook = (\<lambda>_ _ w. (out, w + 1)), mw_review = (\<lambda>_ w. (Inr review, w + 1))\<rparr>"

definition demo_config :: "nat PipelineConfig" where
  "demo_config = \<lparr>pc_middleware =
       [demo_mw ''notice'' True (Answer (Some (continue_decision [(''seen'', VBool True)] (Some
          \<lparr>tf_tool_result = None, tf_messages = None, tf_system = Some ''careful'', tf_metadata = []\<rparr>)))) Accept,
        demo_mw ''pause'' True (Answer (Some \<lparr>md_action = SLEEP, md_reason = None, md_sleep_seconds = 2,
          md_metadata = [], md_transform = None\<rparr>)) (ContinueWith ''run the tests''),
        demo_mw ''broken'' True (HookRaised (ValueError ''bad'')) Accept,
        demo_mw ''unreached'' True (Answer None) Accept],
     pc_sleeper = (\<lambda>_ w. (None, w)), pc_clock = (\<lambda>w. (of_nat w, w))\<rparr>"

definition demo_mw_context :: MiddlewareContext where
  "demo_mw_context = \<lparr>cx_agent_name = ''agent'', cx_message = ''hello'', cx_iteration_count = 0,
     cx_model_call_count = 0, cx_tool_call_count = 0, cx_elapsed_seconds = 0, cx_tokens_used = None,
     cx_tool_call = None, cx_tool_result = None, cx_model_response = None, cx_error = None,
     cx_messages = [], cx_system = None, cx_tool_is_internal = False, cx_metadata = []\<rparr>"

definition demo_pipeline :: "nat Pipeline" where
  "demo_pipeline = \<lparr>pl_world = 0, pl_events = [], pl_invocations = []\<rparr>"

lemmas pipeline_simps = run_hook_def ask_timed_def ask_def worldM_def bindM_def sem_simps
  record_event_def record_hook_invocation_def exception_decision_def Let_def
  merge_continue_decisions_def merge_transforms_def apply_transform_def continue_decision_def abort_def
  exn_isinstance_def ValueError_def demo_mw_def demo_config_def demo_pipeline_def

lemma demo_pipeline_run:
  "\<exists>q. run_hook demo_config BEFORE_RUN demo_mw_context demo_pipeline =
     (Inr (abort ''middleware_error'' [(''error_type'', VStr ''ValueError''), (''error'', VStr ''bad'')]), q) \<and>
     map hi_name (pl_invocations q) = [''notice'', ''pause'', ''broken'']"
  by (simp add: pipeline_simps demo_mw_context_def)

lemma demo_pipeline_review:
  "\<exists>q. review_finish demo_config demo_mw_context demo_pipeline = (Inr (ContinueWith ''run the tests''), q)"
  by (simp add: pipeline_simps review_finish_def)



text \<open>The transform the pipeline returns is the composition of the transforms of the middlewares: to
  apply it is to apply each after the other, in order.\<close>

theorem merged_transform_composes:
  "apply_transform ctx (md_transform (merge_continue_decisions current d)) =
   apply_transform (apply_transform ctx (md_transform current)) (md_transform d)"
  by (simp add: merge_continue_decisions_def continue_decision_def apply_merge)

text \<open>An exception of a fail-closed middleware aborts the run, and the middlewares after it are not
  asked; only a FailureRaisedError reaches the caller.\<close>

theorem fail_closed_middleware_aborts:
  assumes "mw_fail_closed m" and "mw_hook m hook ctx (snd (pc_clock cfg (pl_world p))) = (HookRaised e, w)"
  shows "case run_from cfg hook agg ctx (m # ms) p of
      (Inl e', q) \<Rightarrow> e' = e \<and> exn_isinstance e [''FailureRaisedError'']
    | (Inr d, q) \<Rightarrow> \<not> exn_isinstance e [''FailureRaisedError''] \<and> md_action d = ABORT_RUN \<and>
        md_reason d = Some ''middleware_error'' \<and> length (pl_invocations q) = length (pl_invocations p) + 1"
  using assms
  by (cases "exn_isinstance e [''FailureRaisedError'']"; cases "pc_clock cfg (pl_world p)")
    (auto simp: ask_timed_def ask_def worldM_def bindM_def sem_simps exception_decision_def Let_def
      abort_def record_hook_invocation_def record_event_def split: prod.split)

lemma fail_closed_middleware_aborts_witness:
  "case run_from demo_config BEFORE_RUN (continue_decision [] None) demo_mw_context
       [demo_mw ''broken'' True (HookRaised (ValueError ''bad'')) Accept] demo_pipeline of
     (Inl e', q) \<Rightarrow> e' = ValueError ''bad'' \<and> exn_isinstance (ValueError ''bad'') [''FailureRaisedError'']
   | (Inr d, q) \<Rightarrow> \<not> exn_isinstance (ValueError ''bad'') [''FailureRaisedError''] \<and> md_action d = ABORT_RUN \<and>
       md_reason d = Some ''middleware_error'' \<and> length (pl_invocations q) = length (pl_invocations demo_pipeline) + 1"
  by (rule fail_closed_middleware_aborts) (simp_all add: demo_mw_def demo_config_def demo_pipeline_def)

text \<open>A finish attempt is reviewed in order, and the first review that does not accept decides: the
  later reviewers are not asked, and nothing is recorded.\<close>

theorem first_refusal_decides_finish:
  assumes "review_finish cfg ctx p = (Inr r, q)"
  shows "pl_events q = pl_events p \<and> pl_invocations q = pl_invocations p \<and>
   (if r = Accept then accepting ctx (pc_middleware cfg) (pl_world p) (pl_world q)
    else \<exists>k t. k < length (pc_middleware cfg) \<and> accepting ctx (take k (pc_middleware cfg)) (pl_world p) t \<and>
      mw_review (pc_middleware cfg ! k) ctx t = (Inr r, pl_world q))"
  using review_from_spec [OF assms [unfolded review_finish_def]] .

lemma first_refusal_decides_finish_witness:
  "\<exists>q. review_finish demo_config demo_mw_context demo_pipeline = (Inr (ContinueWith ''run the tests''), q) \<and>
     pl_events q = [] \<and> (\<exists>k t. k < length (pc_middleware demo_config) \<and>
       accepting demo_mw_context (take k (pc_middleware demo_config)) 0 t)"
  using demo_pipeline_review first_refusal_decides_finish by (fastforce simp: demo_pipeline_def)

end
