(* ===== verification/MW_Limits.thy ===== *)
theory MW_Limits
  imports MW_Core
begin

text \<open>
  The budget middlewares of \<^verbatim>\<open>vidbyte/middleware/builtins\<close>: runtime limits, the
  token and cost budgets and the token rate limiter.  Each keeps its per-run state in the run
  state of the context, under its own key; here that entry is the state of the hooks
  (\<open>None\<close> when the run has none yet).  The clock readings are arguments.
\<close>

subsection \<open>Checks of the limits\<close>

definition positive_integer :: "pyval \<Rightarrow> string \<Rightarrow> exn + int" where
  "positive_integer value name =
     (case value of
        VInt n \<Rightarrow> if n \<le> 0 then Inl (ValueError (name @ '' must be a positive integer.'')) else Inr n
      | _ \<Rightarrow> Inl (ValueError (name @ '' must be a positive integer.'')))"

definition positive_real :: "pyval \<Rightarrow> string \<Rightarrow> exn + rat" where
  "positive_real value name =
     bindE (finite_number value) (\<lambda>r. case r of
        None \<Rightarrow> Inl (ValueError (name @ '' must be a finite positive number.''))
      | Some x \<Rightarrow> if x \<le> 0 then Inl (ValueError (name @ '' must be a finite positive number.'')) else Inr x)"

definition optional_limit :: "(pyval \<Rightarrow> string \<Rightarrow> exn + 'a) \<Rightarrow> pyval \<Rightarrow> string \<Rightarrow> exn + 'a option" where
  "optional_limit check v name = (if v = VNone then Inr None else bindE (check v name) (\<lambda>x. Inr (Some x)))"

lemma positive_integer_Inr: "positive_integer v n = Inr x \<Longrightarrow> 0 < x"
  by (auto simp: positive_integer_def split: pyval.splits if_splits)

lemma positive_real_Inr: "positive_real v n = Inr x \<Longrightarrow> 0 < x"
  by (auto simp: positive_real_def elim!: bindE_InrE split: option.splits if_splits)

subsection \<open>Runtime limits\<close>

record RuntimeLimit =
  rl_max_elapsed :: "rat option"
  rl_max_model_calls :: "int option"
  rl_max_tool_calls :: "int option"

definition mk_RuntimeLimit :: "pyval \<Rightarrow> pyval \<Rightarrow> pyval \<Rightarrow> exn + RuntimeLimit" where
  "mk_RuntimeLimit elapsed model_calls tool_calls =
     bindE (optional_limit positive_real elapsed ''max_elapsed_seconds'') (\<lambda>e.
     bindE (optional_limit positive_integer model_calls ''max_model_calls'') (\<lambda>m.
     bindE (optional_limit positive_integer tool_calls ''max_tool_calls'') (\<lambda>t.
     Inr \<lparr>rl_max_elapsed = e, rl_max_model_calls = m, rl_max_tool_calls = t\<rparr>)))"

definition reached :: "'a::linorder option \<Rightarrow> 'a \<Rightarrow> bool" where
  "reached limit x = (case limit of None \<Rightarrow> False | Some l \<Rightarrow> l \<le> x)"

definition rat_value :: "rat option \<Rightarrow> pyval" where
  "rat_value r = (case r of None \<Rightarrow> VNone | Some x \<Rightarrow> VFloat (Fin x))"

definition int_value :: "int option \<Rightarrow> pyval" where
  "int_value n = (case n of None \<Rightarrow> VNone | Some x \<Rightarrow> VInt x)"

definition rl_before_iteration :: "RuntimeLimit \<Rightarrow> MiddlewareContext \<Rightarrow> MiddlewareDecision" where
  "rl_before_iteration l ctx =
     (if reached (rl_max_elapsed l) (cx_elapsed_seconds ctx)
      then abort ''runtime_elapsed_limit'' [(''max_elapsed_seconds'', rat_value (rl_max_elapsed l))]
      else if reached (rl_max_model_calls l) (cx_model_call_count ctx)
      then abort ''runtime_model_call_limit'' [(''max_model_calls'', int_value (rl_max_model_calls l))]
      else if reached (rl_max_tool_calls l) (cx_tool_call_count ctx)
      then abort ''runtime_tool_call_limit'' [(''max_tool_calls'', int_value (rl_max_tool_calls l))]
      else continue_decision [] None)"

definition rl_before_model_call :: "RuntimeLimit \<Rightarrow> MiddlewareContext \<Rightarrow> MiddlewareDecision" where
  "rl_before_model_call l ctx =
     (if reached (rl_max_model_calls l) (cx_model_call_count ctx)
      then abort ''runtime_model_call_limit'' [(''max_model_calls'', int_value (rl_max_model_calls l))]
      else continue_decision [] None)"

definition rl_before_tool_call :: "RuntimeLimit \<Rightarrow> MiddlewareContext \<Rightarrow> MiddlewareDecision" where
  "rl_before_tool_call l ctx =
     (if rl_max_tool_calls l \<noteq> None \<and> \<not> cx_tool_is_internal ctx \<and>
         reached (rl_max_tool_calls l) (cx_tool_call_count ctx)
      then abort ''runtime_tool_call_limit'' [(''max_tool_calls'', int_value (rl_max_tool_calls l))]
      else continue_decision [] None)"

subsection \<open>Token budget\<close>

definition final_response_notice :: string where
  "final_response_notice = ''Token budget notice: this run has reached or exceeded its configured token budget. '' @
     ''Do not call additional tools or continue exploring. Provide the best final answer now, '' @
     ''using only the information already available in the conversation.''"

record TokenBudget =
  tb_max_tokens :: int
  tb_abort_reason :: string
  tb_allow_final :: bool

text \<open>The state: whether the one final answer was asked for, and the published result metadata.\<close>

record TokenBudgetState =
  tbs_requested :: "bool option"
  tbs_published :: "dict option"

definition budget_metadata :: "TokenBudget \<Rightarrow> int \<Rightarrow> bool \<Rightarrow> dict" where
  "budget_metadata b used requested =
     [(''max_tokens'', VInt (tb_max_tokens b)), (''tokens_used'', VInt used)] @
     (if requested then [(''final_response_requested'', VBool True)] else [])"

definition tb_before_run :: "TokenBudgetState \<Rightarrow> MiddlewareDecision \<times> TokenBudgetState" where
  "tb_before_run s = (continue_decision [] None, s\<lparr>tbs_requested := Some False\<rparr>)"

definition state_for :: "TokenBudgetState \<Rightarrow> bool" where
  "state_for s = (case tbs_requested s of None \<Rightarrow> False | Some b \<Rightarrow> b)"

definition tb_before_iteration ::
  "TokenBudget \<Rightarrow> MiddlewareContext \<Rightarrow> TokenBudgetState \<Rightarrow> MiddlewareDecision \<times> TokenBudgetState" where
  "tb_before_iteration b ctx s =
     (case cx_tokens_used ctx of
        None \<Rightarrow> (continue_decision [] None, s)
      | Some used \<Rightarrow>
        if used < tb_max_tokens b then (continue_decision [] None, s)
        else let s' = s\<lparr>tbs_requested := Some (state_for s)\<rparr> in
        if tb_allow_final b \<and> \<not> state_for s
        then (continue_decision (budget_metadata b used True) None, s')
        else (abort (tb_abort_reason b) (budget_metadata b used False), s'))"

definition system_with_notice :: "string option \<Rightarrow> string" where
  "system_with_notice system =
     (case system of
        None \<Rightarrow> final_response_notice
      | Some t \<Rightarrow> if t = [] then final_response_notice
                  else t @ [CHR 0x0A, CHR 0x0A] @ final_response_notice)"

definition tb_before_model_call ::
  "TokenBudget \<Rightarrow> MiddlewareContext \<Rightarrow> TokenBudgetState \<Rightarrow> MiddlewareDecision \<times> TokenBudgetState" where
  "tb_before_model_call b ctx s =
     (if \<not> tb_allow_final b then (continue_decision [] None, s)
      else case cx_tokens_used ctx of
        None \<Rightarrow> (continue_decision [] None, s)
      | Some used \<Rightarrow>
        if used < tb_max_tokens b then (continue_decision [] None, s)
        else if state_for s
        then (abort (tb_abort_reason b) (budget_metadata b used False), s\<lparr>tbs_requested := Some True\<rparr>)
        else (continue_decision (budget_metadata b used True)
                (Some \<lparr>tf_tool_result = None, tf_messages = None,
                       tf_system = Some (system_with_notice (cx_system ctx)), tf_metadata = []\<rparr>),
              s\<lparr>tbs_requested := Some True,
                tbs_published := Some (dict_put ''token_budget'' (VDict (budget_metadata b used True))
                  (case tbs_published s of None \<Rightarrow> [] | Some d \<Rightarrow> d))\<rparr>))"

subsection \<open>Cost budget\<close>

record CostBudget =
  cb_max_spend :: rat
  cb_cost_per_million :: rat

record CostBudgetRunState =
  cs_accumulated :: int
  cs_last_seen :: "int option"
  cs_spend :: rat

definition cost_fresh :: CostBudgetRunState where
  "cost_fresh = \<lparr>cs_accumulated = 0, cs_last_seen = None, cs_spend = 0\<rparr>"

definition cost_state_for :: "CostBudgetRunState option \<Rightarrow> CostBudgetRunState" where
  "cost_state_for s = (case s of None \<Rightarrow> cost_fresh | Some x \<Rightarrow> x)"

definition cost_after_model_response ::
  "CostBudget \<Rightarrow> MiddlewareContext \<Rightarrow> CostBudgetRunState option
   \<Rightarrow> MiddlewareDecision \<times> CostBudgetRunState option" where
  "cost_after_model_response b ctx s =
     (case cx_tokens_used ctx of
        None \<Rightarrow> (continue_decision [] None, s)
      | Some used \<Rightarrow>
        let st = cost_state_for s;
            delta = max 0 (used - (case cs_last_seen st of None \<Rightarrow> 0 | Some n \<Rightarrow> n));
            acc = cs_accumulated st + delta in
        (continue_decision [] None,
         Some \<lparr>cs_accumulated = acc, cs_last_seen = Some used,
               cs_spend = of_int acc / 1000000 * cb_cost_per_million b\<rparr>))"

definition cost_before_iteration ::
  "CostBudget \<Rightarrow> MiddlewareContext \<Rightarrow> CostBudgetRunState option
   \<Rightarrow> MiddlewareDecision \<times> CostBudgetRunState option" where
  "cost_before_iteration b ctx s =
     (let st = cost_state_for s in
      (if cb_max_spend b \<le> cs_spend st
       then abort ''cost_budget_exceeded''
              [(''max_spend_usd'', VFloat (Fin (cb_max_spend b))),
               (''estimated_spend_usd'', VFloat (Fin (cs_spend st))),
               (''tokens_used'', int_value (cx_tokens_used ctx))]
       else continue_decision [] None, Some st))"

subsection \<open>Token rate limit\<close>

record TokenRateLimit =
  tr_max_tokens :: int
  tr_per_seconds :: rat

record TokenWindow =
  tw_started :: rat
  tw_tokens :: int
  tw_last_seen :: "int option"

definition rate_before_run :: "rat \<Rightarrow> TokenWindow" where
  "rate_before_run now = \<lparr>tw_started = now, tw_tokens = 0, tw_last_seen = None\<rparr>"

text \<open>The window the step works on: a new one when the current one has run out.\<close>

definition open_window :: "TokenRateLimit \<Rightarrow> rat \<Rightarrow> TokenWindow \<Rightarrow> TokenWindow" where
  "open_window l now st =
     (if tr_per_seconds l \<le> now - tw_started st then st\<lparr>tw_started := now, tw_tokens := 0\<rparr> else st)"

text \<open>\<open>first\<close> is the reading that starts a missing state, \<open>now\<close> the one of the step.\<close>

definition rate_before_iteration ::
  "TokenRateLimit \<Rightarrow> rat \<Rightarrow> rat \<Rightarrow> MiddlewareContext \<Rightarrow> TokenWindow option
   \<Rightarrow> (exn + MiddlewareDecision) \<times> TokenWindow option" where
  "rate_before_iteration l first now ctx s =
     (case cx_tokens_used ctx of
        None \<Rightarrow> (Inr (continue_decision [] None), s)
      | Some used \<Rightarrow>
        let st0 = (case s of None \<Rightarrow> rate_before_run first | Some x \<Rightarrow> x);
            st1 = open_window l now st0;
            previous = (case tw_last_seen st1 of None \<Rightarrow> 0 | Some n \<Rightarrow> n);
            st2 = st1\<lparr>tw_tokens := tw_tokens st1 + max 0 (used - previous), tw_last_seen := Some used\<rparr> in
        if tw_tokens st2 \<le> tr_max_tokens l then (Inr (continue_decision [] None), Some st2)
        else let seconds = max 0 (tr_per_seconds l - (now - tw_started st2)) in
             (sleep_decision seconds (Some ''token_rate_limit'')
                [(''max_tokens'', VInt (tr_max_tokens l)), (''per_seconds'', VFloat (Fin (tr_per_seconds l)))],
              Some (st2\<lparr>tw_started := now + seconds, tw_tokens := 0\<rparr>)))"


subsection \<open>The limits as budgets\<close>

text \<open>
  The runtime counts a model call when the hook lets it through, and a developer tool call
  likewise; the requests are the contexts, whose counts are the state.
\<close>

definition model_call_step :: "RuntimeLimit \<Rightarrow> MiddlewareContext \<Rightarrow> nat \<Rightarrow> bool \<times> nat" where
  "model_call_step l ctx n =
     (let ok = md_action (rl_before_model_call l (ctx\<lparr>cx_model_call_count := int n\<rparr>)) = CONTINUE
      in (ok, if ok then Suc n else n))"

definition tool_call_step :: "RuntimeLimit \<Rightarrow> MiddlewareContext \<Rightarrow> nat \<Rightarrow> bool \<times> nat" where
  "tool_call_step l ctx n =
     (let ok = md_action (rl_before_tool_call l
            (ctx\<lparr>cx_tool_call_count := int n, cx_tool_is_internal := False\<rparr>)) = CONTINUE
      in (ok, if ok then Suc n else n))"

text \<open>The requests of a run under a token budget, and the model calls granted over the budget.\<close>

datatype budget_request = Iteration MiddlewareContext | ModelCall MiddlewareContext

definition over_budget :: "TokenBudget \<Rightarrow> MiddlewareContext \<Rightarrow> bool" where
  "over_budget b ctx = reached (Some (tb_max_tokens b)) (case cx_tokens_used ctx of None \<Rightarrow> tb_max_tokens b - 1 | Some n \<Rightarrow> n)"

definition token_step :: "TokenBudget \<Rightarrow> budget_request \<Rightarrow> TokenBudgetState \<Rightarrow> bool \<times> TokenBudgetState" where
  "token_step b req s =
     (case req of
        Iteration ctx \<Rightarrow> (False, snd (tb_before_iteration b ctx s))
      | ModelCall ctx \<Rightarrow>
          (case tb_before_model_call b ctx s of
             (d, s') \<Rightarrow> (tb_allow_final b \<and> over_budget b ctx \<and> md_action d = CONTINUE, s')))"

lemmas limit_simps = reached_def continue_decision_def abort_def Let_def

interpretation model_calls: call_budget
  "model_call_step (l\<lparr>rl_max_model_calls := Some m\<rparr>)" "\<lambda>n. n" "nat m" for l m
  by unfold_locales
    (auto simp: model_call_step_def rl_before_model_call_def limit_simps split: if_splits)

interpretation tool_calls: call_budget
  "tool_call_step (l\<lparr>rl_max_tool_calls := Some m\<rparr>)" "\<lambda>n. n" "nat m" for l m
  by unfold_locales
    (auto simp: tool_call_step_def rl_before_tool_call_def limit_simps split: if_splits)

interpretation final_answer: call_budget
  "token_step b" "\<lambda>s. if state_for s then 1 else 0" 1 for b
proof unfold_locales
  fix req s t
  assume "token_step b req s = (True, t)"
  then show "(if state_for s then 1 else 0) < (1::nat) \<and>
      (if state_for t then 1 else 0) = Suc (if state_for s then 1 else 0)"
    by (auto simp: token_step_def tb_before_model_call_def over_budget_def state_for_def limit_simps
        split: budget_request.splits option.splits if_splits)
next
  fix req s t
  assume "token_step b req s = (False, t)"
  then show "(if state_for s then 1 else 0) \<le> (if state_for t then 1 else (0::nat))"
    by (auto simp: token_step_def tb_before_model_call_def tb_before_iteration_def over_budget_def
        state_for_def limit_simps split: budget_request.splits option.splits if_splits)
qed

subsection \<open>Accounting\<close>

text \<open>The responses of a run, each with the cumulative token count the provider reports.\<close>

definition cost_run :: "CostBudget \<Rightarrow> MiddlewareContext \<Rightarrow> int list \<Rightarrow> CostBudgetRunState option" where
  "cost_run b ctx us =
     foldl (\<lambda>s u. snd (cost_after_model_response b (ctx\<lparr>cx_tokens_used := Some u\<rparr>) s)) (Some cost_fresh) us"

lemma cost_run_snoc:
  "cost_run b ctx (us @ [u]) =
   snd (cost_after_model_response b (ctx\<lparr>cx_tokens_used := Some u\<rparr>) (cost_run b ctx us))"
  by (simp add: cost_run_def)

lemma cost_run_monotone:
  "sorted us \<Longrightarrow> \<forall>u \<in> set us. 0 \<le> u \<Longrightarrow> us \<noteq> [] \<Longrightarrow>
   cost_run b ctx us = Some \<lparr>cs_accumulated = last us, cs_last_seen = Some (last us),
     cs_spend = of_int (last us) / 1000000 * cb_cost_per_million b\<rparr>"
proof (induction us rule: rev_induct)
  case Nil
  then show ?case by simp
next
  case (snoc u us)
  show ?case
  proof (cases "us = []")
    case True
    then show ?thesis using snoc.prems
      by (simp add: cost_run_def cost_after_model_response_def cost_state_for_def cost_fresh_def Let_def)
  next
    case False
    then have "last us \<le> u" using snoc.prems by (simp add: sorted_append)
    then show ?thesis using False snoc
      by (simp add: cost_run_snoc cost_after_model_response_def cost_state_for_def Let_def sorted_append)
  qed
qed

lemma rate_step_bounds:
  assumes "rate_before_iteration l first now ctx s = (r, s')" "0 \<le> tr_max_tokens l"
    and "case s of None \<Rightarrow> True | Some x \<Rightarrow> 0 \<le> tw_tokens x \<and> tw_tokens x \<le> tr_max_tokens l"
  shows "(case s' of None \<Rightarrow> True | Some x \<Rightarrow> 0 \<le> tw_tokens x \<and> tw_tokens x \<le> tr_max_tokens l) \<and>
    (\<exists>d. r = Inr d \<and> decision_wf d)"
  using assms
  by (auto simp: rate_before_iteration_def rate_before_run_def open_window_def continue_decision_def Let_def
      sleep_decision_def mk_MiddlewareDecision_def MiddlewareAction_of_def decision_wf_def
      split: option.splits if_splits)


subsection \<open>Properties\<close>

text \<open>A runtime limit caps the calls themselves, whatever requests are made: a run that has made
  \<open>n\<close> model calls is granted at most \<open>m - n\<close> more, and likewise its developer tool calls.\<close>

theorem runtime_limit_caps_calls:
  "grants (model_call_step (l\<lparr>rl_max_model_calls := Some m\<rparr>)) ctxs n \<le> nat m - n \<and>
   grants (tool_call_step (l\<lparr>rl_max_tool_calls := Some m\<rparr>)) ctxs n \<le> nat m - n"
  by (rule conjI, rule model_calls.grants_fit, rule tool_calls.grants_fit)

text \<open>C23: under a token budget that allows a final response, at most one model call is let through once
  the budget is spent, in any order of iterations and model calls, and after it both hooks abort.\<close>

theorem token_budget_grants_one_final_answer:
  "grants (token_step b) reqs s \<le> 1 \<and>
   (state_for s \<longrightarrow> tb_allow_final b \<longrightarrow> over_budget b ctx \<longrightarrow>
      md_action (fst (tb_before_model_call b ctx s)) = ABORT_RUN \<and>
      md_action (fst (tb_before_iteration b ctx s)) = ABORT_RUN)"
proof
  have "grants (token_step b) reqs s \<le> 1 - (if state_for s then 1 else 0)" by (rule final_answer.grants_fit)
  then show "grants (token_step b) reqs s \<le> 1" by (simp split: if_splits)
qed (auto simp: tb_before_model_call_def tb_before_iteration_def over_budget_def limit_simps
      split: option.splits)

definition demo_budget :: TokenBudget where
  "demo_budget = \<lparr>tb_max_tokens = 100, tb_abort_reason = ''spent'', tb_allow_final = True\<rparr>"

lemma token_budget_witness:
  "md_action (fst (tb_before_model_call demo_budget (demo_mw_context\<lparr>cx_tokens_used := Some 120\<rparr>)
     \<lparr>tbs_requested = Some True, tbs_published = None\<rparr>)) = ABORT_RUN"
  using token_budget_grants_one_final_answer [of demo_budget "[]" "\<lparr>tbs_requested = Some True, tbs_published = None\<rparr>"
      "demo_mw_context\<lparr>cx_tokens_used := Some 120\<rparr>"]
  by (simp add: state_for_def demo_budget_def over_budget_def reached_def)

text \<open>The provider reports a cumulative token count that does not decrease.  The cost budget then
  charges every token once: the estimate is the price of the last count, and the next iteration is
  aborted exactly when that price has reached the ceiling.\<close>

theorem cost_budget_charges_each_token_once:
  assumes "sorted us" and "\<forall>u \<in> set us. 0 \<le> u" and "us \<noteq> []"
  shows "md_action (fst (cost_before_iteration b ctx (cost_run b ctx us))) = ABORT_RUN \<longleftrightarrow>
    cb_max_spend b \<le> of_int (last us) / 1000000 * cb_cost_per_million b"
  unfolding cost_run_monotone [OF assms]
  by (simp add: cost_before_iteration_def cost_state_for_def limit_simps)

lemma cost_budget_witness:
  "md_action (fst (cost_before_iteration \<lparr>cb_max_spend = 3, cb_cost_per_million = 2\<rparr> demo_mw_context
     (cost_run \<lparr>cb_max_spend = 3, cb_cost_per_million = 2\<rparr> demo_mw_context [500000, 1500000]))) = ABORT_RUN"
  using cost_budget_charges_each_token_once [of "[500000, 1500000]" "\<lparr>cb_max_spend = 3, cb_cost_per_million = 2\<rparr>" demo_mw_context]
  by simp

text \<open>The rate limiter never carries more than the limit from one iteration to the next: an
  iteration that would exceed it is answered with a valid sleep decision and an empty window.\<close>

theorem rate_limit_window_within_limit:
  assumes "rate_before_iteration l first now ctx s = (r, s')" and "0 \<le> tr_max_tokens l"
    and "case s of None \<Rightarrow> True | Some x \<Rightarrow> 0 \<le> tw_tokens x \<and> tw_tokens x \<le> tr_max_tokens l"
  shows "(case s' of None \<Rightarrow> True | Some x \<Rightarrow> 0 \<le> tw_tokens x \<and> tw_tokens x \<le> tr_max_tokens l) \<and>
    (\<exists>d. r = Inr d \<and> decision_wf d)"
  using rate_step_bounds [OF assms] .

lemma rate_limit_witness:
  "\<exists>d. fst (rate_before_iteration \<lparr>tr_max_tokens = 10, tr_per_seconds = 60\<rparr> 0 5
     (demo_mw_context\<lparr>cx_tokens_used := Some 25\<rparr>) (Some (rate_before_run 0))) = Inr d \<and> decision_wf d"
proof -
  let ?l = "\<lparr>tr_max_tokens = 10, tr_per_seconds = 60\<rparr>"
  let ?c = "demo_mw_context\<lparr>cx_tokens_used := Some 25\<rparr>"
  obtain r s where e: "rate_before_iteration ?l 0 5 ?c (Some (rate_before_run 0)) = (r, s)" by fastforce
  from rate_limit_window_within_limit [OF e] have "\<exists>d. r = Inr d \<and> decision_wf d"
    by (simp add: rate_before_run_def)
  then show ?thesis unfolding e by simp
qed

end
