(* ===== verification/MW_Retry.thy ===== *)
theory MW_Retry
  imports MW_Core
begin

text \<open>
  The retry middlewares of \<^verbatim>\<open>vidbyte/middleware/builtins\<close>: the model retry, the
  exponential backoff retry, the tool error policy and the circuit breaker.  Their per-run state
  is the state of the hooks; the jitter of the backoff and the readings of the clock are
  arguments.
\<close>

subsection \<open>Model retry\<close>

record ModelRetry =
  mr_max_attempts :: int
  mr_sleep_seconds :: rat

definition mk_ModelRetry :: "int \<Rightarrow> rat \<Rightarrow> exn + ModelRetry" where
  "mk_ModelRetry attempts seconds =
     (if attempts \<le> 0 then Inl (ValueError ''max_attempts must be greater than zero.'')
      else if seconds < 0 then Inl (ValueError ''sleep_seconds cannot be negative.'')
      else Inr \<lparr>mr_max_attempts = attempts, mr_sleep_seconds = seconds\<rparr>)"

definition error_type_value :: "exn option \<Rightarrow> pyval" where
  "error_type_value e = (case e of None \<Rightarrow> VNone | Some x \<Rightarrow> VStr (exn_type x))"

definition attempts_so_far :: "nat option \<Rightarrow> nat" where
  "attempts_so_far s = (case s of None \<Rightarrow> 0 | Some n \<Rightarrow> n)"

definition mr_on_model_error ::
  "ModelRetry \<Rightarrow> MiddlewareContext \<Rightarrow> nat option \<Rightarrow> (exn + MiddlewareDecision) \<times> nat option" where
  "mr_on_model_error r ctx s =
     (let n = attempts_so_far s + 1;
          metadata = [(''attempt'', VInt (int n)), (''max_attempts'', VInt (mr_max_attempts r)),
                      (''error_type'', error_type_value (cx_error ctx))] in
      (if int n < mr_max_attempts r then retry_decision ''model_retry'' (mr_sleep_seconds r) metadata
       else Inr (abort ''model_retry_exhausted'' metadata), Some n))"

subsection \<open>Exponential backoff\<close>

record BackoffRetry =
  br_max_attempts :: int
  br_base :: rat
  br_cap :: rat
  br_jitter :: bool
  br_retry_on :: "string list option"

text \<open>\<open>retry_on\<close> is one class, an iterable of entries, or absent.\<close>

definition normalize_retry_on :: "pyval \<Rightarrow> exn + string list option" where
  "normalize_retry_on v =
     (if v = VNone then Inr None
      else let entries = (case v of VList xs \<Rightarrow> xs | VDict d \<Rightarrow> map (VStr \<circ> fst) d | x \<Rightarrow> [x]);
               check = (\<lambda>x. case x of VType n bases \<Rightarrow>
                   if n = ''BaseException'' \<or> List.member bases ''BaseException'' then Some n else None
                 | _ \<Rightarrow> None) in
           if list_ex (\<lambda>x. check x = None) entries
           then Inl (ValueError ''retry_on entries must be exception classes'')
           else Inr (Some (map (\<lambda>x. the (check x)) entries)))"

definition mk_BackoffRetry :: "int \<Rightarrow> rat \<Rightarrow> rat \<Rightarrow> bool \<Rightarrow> pyval \<Rightarrow> exn + BackoffRetry" where
  "mk_BackoffRetry attempts base cap jitter retry_on =
     (if attempts \<le> 0 then Inl (ValueError ''max_attempts must be greater than zero.'')
      else if base \<le> 0 then Inl (ValueError ''base_seconds must be greater than zero.'')
      else if cap < base then Inl (ValueError ''cap_seconds must be greater than or equal to base_seconds.'')
      else bindE (normalize_retry_on retry_on) (\<lambda>ro.
        Inr \<lparr>br_max_attempts = attempts, br_base = base, br_cap = cap, br_jitter = jitter, br_retry_on = ro\<rparr>))"

definition error_is_retryable :: "BackoffRetry \<Rightarrow> exn option \<Rightarrow> bool" where
  "error_is_retryable r e =
     (case br_retry_on r of
        None \<Rightarrow> True
      | Some classes \<Rightarrow> (case e of None \<Rightarrow> False | Some x \<Rightarrow> exn_isinstance x classes))"

text \<open>\<open>u\<close> is the number that \<^verbatim>\<open>random.uniform(0.5, 1.0)\<close> gives.\<close>

definition backoff_delay :: "BackoffRetry \<Rightarrow> rat \<Rightarrow> nat \<Rightarrow> rat" where
  "backoff_delay r u attempts =
     (let raw = min (br_cap r) (br_base r * 2 ^ (attempts - 1)) in
      if br_jitter r then raw * u else raw)"

definition br_on_model_error ::
  "BackoffRetry \<Rightarrow> rat \<Rightarrow> MiddlewareContext \<Rightarrow> nat option \<Rightarrow> (exn + MiddlewareDecision) \<times> nat option" where
  "br_on_model_error r u ctx s =
     (if \<not> error_is_retryable r (cx_error ctx)
      then (Inr (abort ''model_error_not_retryable'' [(''error_type'', error_type_value (cx_error ctx))]), s)
      else let n = attempts_so_far s + 1 in
        if br_max_attempts r \<le> int n
        then (Inr (abort ''model_retry_exhausted''
               [(''attempt'', VInt (int n)), (''max_attempts'', VInt (br_max_attempts r)),
                (''error_type'', error_type_value (cx_error ctx))]), Some n)
        else let delay = backoff_delay r u n in
          (retry_decision ''model_retry_backoff'' delay
             [(''attempt'', VInt (int n)), (''max_attempts'', VInt (br_max_attempts r)),
              (''delay_seconds'', VFloat (Fin delay)), (''error_type'', error_type_value (cx_error ctx))], Some n))"

subsection \<open>Tool errors\<close>

datatype UnrecoverableAction = CONTINUE_RUN | ABORT_ON_ERROR

record ToolErrorPolicy =
  tp_max_retries :: int
  tp_retry_on :: "string list"
  tp_base :: rat
  tp_multiplier :: rat
  tp_cap :: rat
  tp_only_idempotent :: bool
  tp_on_unrecoverable :: UnrecoverableAction
  tp_max_total :: "int option"

record ToolErrorState =
  te_attempts :: "(string \<times> int) list"
  te_total :: int

definition te_fresh :: ToolErrorState where
  "te_fresh = \<lparr>te_attempts = [], te_total = 0\<rparr>"

definition lower_char :: "char \<Rightarrow> char" where
  "lower_char c = (let n = of_char c :: nat in
     if (65 \<le> n \<and> n \<le> 90) \<or> (192 \<le> n \<and> n \<le> 222 \<and> n \<noteq> 215) then char_of (n + 32) else c)"

definition lower :: "string \<Rightarrow> string" where
  "lower = map lower_char"

text \<open>
  The text of a metadata value that is not falsy.  \<open>show\<close> is \<^verbatim>\<open>str\<close> of a value that
  is not a string.
\<close>

definition truthy_text :: "(pyval \<Rightarrow> string) \<Rightarrow> pyval option \<Rightarrow> string option" where
  "truthy_text show v =
     (case v of
        None \<Rightarrow> None
      | Some VNone \<Rightarrow> None
      | Some (VStr s) \<Rightarrow> if s = [] then None else Some s
      | Some (VBool b) \<Rightarrow> if b then Some ''True'' else None
      | Some (VInt n) \<Rightarrow> if n = 0 then None else Some (show (VInt n))
      | Some (VFloat x) \<Rightarrow> if x = Fin 0 then None else Some (show (VFloat x))
      | Some (VList xs) \<Rightarrow> if xs = [] then None else Some (show (VList xs))
      | Some (VDict d) \<Rightarrow> if d = [] then None else Some (show (VDict d))
      | Some x \<Rightarrow> Some (show x))"

definition text_of :: "(pyval \<Rightarrow> string) \<Rightarrow> pyval option \<Rightarrow> string" where
  "text_of show v = (case v of None \<Rightarrow> [] | Some (VStr s) \<Rightarrow> s | Some x \<Rightarrow> show x)"

text \<open>
  The settings object checks its arguments one by one.  \<open>_finite_real\<close> also answers False for an
  integer that no float can hold.
\<close>

definition ConfigurationError :: "string \<Rightarrow> exn" where
  "ConfigurationError msg = Exn ''ConfigurationError'' [''VidbyteSdkError'', ''Exception'', ''BaseException''] msg"

definition finite_real :: "pyval \<Rightarrow> rat option" where
  "finite_real v = (case finite_number v of Inr r \<Rightarrow> r | Inl e \<Rightarrow> None)"

definition normalize_retry_kind :: "(pyval \<Rightarrow> string) \<Rightarrow> pyval \<Rightarrow> string" where
  "normalize_retry_kind show v = lower (strip (text_of show (Some v)))"

definition default_retry_on :: "string list" where
  "default_retry_on = [''timeout'', ''rate_limited'', ''upstream_error'']"

definition normalize_retry_kinds :: "(pyval \<Rightarrow> string) \<Rightarrow> pyval \<Rightarrow> exn + string list" where
  "normalize_retry_kinds show v =
     (case v of
        VNone \<Rightarrow> Inr default_retry_on
      | VStr s \<Rightarrow> Inl (ConfigurationError ''ToolErrorPolicy.retry_on must be an iterable of error kinds, not a string.'')
      | VList xs \<Rightarrow> Inr (filter (\<lambda>k. k \<noteq> []) (map (normalize_retry_kind show) xs))
      | VDict d \<Rightarrow> Inr (filter (\<lambda>k. k \<noteq> []) (map (normalize_retry_kind show \<circ> VStr \<circ> fst) d))
      | _ \<Rightarrow> Inl (TypeError ''object is not iterable''))"

definition normalize_unrecoverable ::
  "(pyval \<Rightarrow> string) \<Rightarrow> UnrecoverableAction + pyval \<Rightarrow> exn + UnrecoverableAction" where
  "normalize_unrecoverable show v =
     (case v of
        Inl a \<Rightarrow> Inr a
      | Inr x \<Rightarrow> (let t = lower (text_of show (Some x)) in
          if t = ''continue'' then Inr CONTINUE_RUN
          else if t = ''abort_run'' then Inr ABORT_ON_ERROR
          else Inl (ConfigurationError (''ToolErrorPolicy.on_unrecoverable must be one of ['' @ quoted ''continue''
                 @ '', '' @ quoted ''abort_run'' @ ''].''))))"

definition require_at_least :: "string \<Rightarrow> pyval \<Rightarrow> rat \<Rightarrow> string \<Rightarrow> exn + rat" where
  "require_at_least name v minimum target =
     (case finite_real v of
        Some r \<Rightarrow> if minimum \<le> r then Inr r
          else Inl (ConfigurationError (''ToolErrorPolicy.'' @ name @ '' must be greater than or equal to '' @ target @ ''.''))
      | None \<Rightarrow> Inl (ConfigurationError (''ToolErrorPolicy.'' @ name @ '' must be greater than or equal to '' @ target @ ''.'')))"

definition require_retries :: "pyval \<Rightarrow> exn + int" where
  "require_retries v =
     (case plain_int v of
        Some n \<Rightarrow> if 0 \<le> n then Inr n
          else Inl (ConfigurationError ''ToolErrorPolicy.max_retries_per_tool_call must be a finite non-negative integer.'')
      | None \<Rightarrow> Inl (ConfigurationError ''ToolErrorPolicy.max_retries_per_tool_call must be a finite non-negative integer.''))"

definition require_base :: "pyval \<Rightarrow> exn + rat" where
  "require_base v =
     (case finite_real v of
        Some r \<Rightarrow> if 0 \<le> r then Inr r
          else Inl (ConfigurationError ''ToolErrorPolicy.retry_backoff_base_seconds must be a finite non-negative number.'')
      | None \<Rightarrow> Inl (ConfigurationError ''ToolErrorPolicy.retry_backoff_base_seconds must be a finite non-negative number.''))"

definition require_total :: "pyval \<Rightarrow> exn + int option" where
  "require_total v =
     (if v = VNone then Inr None
      else case plain_int v of
        Some n \<Rightarrow> if 0 < n then Inr (Some n)
          else Inl (ConfigurationError ''ToolErrorPolicy.max_total_tool_errors must be a positive integer when provided.'')
      | None \<Rightarrow> Inl (ConfigurationError ''ToolErrorPolicy.max_total_tool_errors must be a positive integer when provided.''))"

definition mk_ToolErrorPolicy ::
  "(pyval \<Rightarrow> string) \<Rightarrow> pyval \<Rightarrow> pyval \<Rightarrow> pyval \<Rightarrow> pyval \<Rightarrow> pyval \<Rightarrow> bool \<Rightarrow> UnrecoverableAction + pyval \<Rightarrow> pyval
   \<Rightarrow> exn + ToolErrorPolicy" where
  "mk_ToolErrorPolicy show retries retry_on base multiplier cap idempotent action most =
     bindE (normalize_retry_kinds show retry_on) (\<lambda>kinds.
     bindE (normalize_unrecoverable show action) (\<lambda>act.
     bindE (require_retries retries) (\<lambda>n.
     bindE (require_base base) (\<lambda>b.
     bindE (require_at_least ''retry_backoff_multiplier'' multiplier 1 ''1'') (\<lambda>m.
     bindE (require_at_least ''retry_backoff_cap_seconds'' cap b ''retry_backoff_base_seconds'') (\<lambda>c.
     bindE (require_total most) (\<lambda>t.
     Inr \<lparr>tp_max_retries = n, tp_retry_on = kinds, tp_base = b, tp_multiplier = m, tp_cap = c,
          tp_only_idempotent = idempotent, tp_on_unrecoverable = act, tp_max_total = t\<rparr>)))))))"

definition policy_ok :: "ToolErrorPolicy \<Rightarrow> bool" where
  "policy_ok p \<longleftrightarrow> 0 \<le> tp_max_retries p \<and> 0 \<le> tp_base p \<and> 1 \<le> tp_multiplier p \<and> tp_base p \<le> tp_cap p \<and>
     (case tp_max_total p of None \<Rightarrow> True | Some m \<Rightarrow> 0 < m)"

lemma mk_ToolErrorPolicy_ok:
  "mk_ToolErrorPolicy show retries retry_on base multiplier cap idempotent action most = Inr p \<Longrightarrow> policy_ok p"
  by (auto simp: mk_ToolErrorPolicy_def policy_ok_def require_retries_def require_base_def
      require_at_least_def require_total_def elim!: bindE_InrE split: option.splits if_splits)

definition error_kind :: "(pyval \<Rightarrow> string) \<Rightarrow> dict \<Rightarrow> string" where
  "error_kind show metadata =
     (let raw = lower (strip (case or_else (truthy_text show (map_of metadata ''error''))
                                           (truthy_text show (map_of metadata ''error_type'')) of
                  Some s \<Rightarrow> s | None \<Rightarrow> ''execution_error'')) in
      if List.member [''validation'', ''validation_error'', ''argument_error'', ''arguments_error''] raw
      then ''invalid_arguments'' else if raw = [] then ''execution_error'' else raw)"

definition retryable_flag :: "dict \<Rightarrow> bool option" where
  "retryable_flag metadata =
     (case map_of metadata ''retryable'' of
        Some (VBool b) \<Rightarrow> Some b
      | Some (VStr s) \<Rightarrow>
          (let t = lower (strip s) in
           if List.member [''true'', ''1'', ''yes''] t then Some True
           else if List.member [''false'', ''0'', ''no''] t then Some False else None)
      | _ \<Rightarrow> None)"

text \<open>\<open>dumps\<close> is json.dumps of the arguments with sorted keys.\<close>

definition call_key :: "(dict \<Rightarrow> string) \<Rightarrow> ToolCall \<Rightarrow> string" where
  "call_key dumps c =
     (case tc_call_id c of
        Some i \<Rightarrow> if i = [] then tc_tool_name c @ '':'' @ dumps (tc_arguments c) else i
      | None \<Rightarrow> tc_tool_name c @ '':'' @ dumps (tc_arguments c))"

definition denied_kinds :: "string list" where
  "denied_kinds = [''middleware_denied'', ''permission_denied'']"

definition permission_allows_retry :: "(pyval \<Rightarrow> string) \<Rightarrow> ToolErrorPolicy \<Rightarrow> MiddlewareContext \<Rightarrow> bool" where
  "permission_allows_retry show p ctx =
     (\<not> tp_only_idempotent p \<or>
      List.member [''safe'', ''read''] (lower (text_of show (map_of (cx_metadata ctx) ''tool_permission''))))"

definition retries_of :: "ToolErrorState \<Rightarrow> string \<Rightarrow> int" where
  "retries_of s key = (case map_of (te_attempts s) key of None \<Rightarrow> 0 | Some n \<Rightarrow> n)"

definition tool_should_retry ::
  "(pyval \<Rightarrow> string) \<Rightarrow> ToolErrorPolicy \<Rightarrow> MiddlewareContext \<Rightarrow> string \<Rightarrow> string \<Rightarrow> bool option \<Rightarrow> ToolErrorState \<Rightarrow> bool" where
  "tool_should_retry show p ctx key kind retryable s =
     (if tp_max_retries p \<le> 0 then False
      else if List.member denied_kinds kind then False
      else if \<not> List.member (tp_retry_on p) kind then False
      else if retryable = Some False then False
      else if \<not> permission_allows_retry show p ctx then False
      else retries_of s key < tp_max_retries p)"

definition tool_delay :: "ToolErrorPolicy \<Rightarrow> int \<Rightarrow> rat" where
  "tool_delay p attempt = min (tp_cap p) (tp_base p * tp_multiplier p ^ nat (max 0 (attempt - 1)))"

definition circuit_tripped :: "ToolErrorPolicy \<Rightarrow> ToolErrorState \<Rightarrow> bool" where
  "circuit_tripped p s = (case tp_max_total p of None \<Rightarrow> False | Some m \<Rightarrow> m \<le> te_total s)"

definition release :: "string \<Rightarrow> ToolErrorState \<Rightarrow> ToolErrorState" where
  "release key s = s\<lparr>te_attempts := filter (\<lambda>(k, _). k \<noteq> key) (te_attempts s)\<rparr>"

definition tool_retry ::
  "ToolErrorPolicy \<Rightarrow> ToolCall \<Rightarrow> string \<Rightarrow> string \<Rightarrow> ToolErrorState \<Rightarrow> (exn + MiddlewareDecision) \<times> ToolErrorState" where
  "tool_retry p c key kind s =
     (let attempt = retries_of s key + 1; delay = tool_delay p attempt in
      (retry_decision ''tool_error_retry'' delay
         [(''tool_name'', VStr (tc_tool_name c)), (''error'', VStr kind), (''attempt'', VInt attempt),
          (''max_retries_per_tool_call'', VInt (tp_max_retries p)), (''delay_seconds'', VFloat (Fin delay))],
       s\<lparr>te_attempts := dict_put key attempt (te_attempts s)\<rparr>))"

definition te_after_tool_call ::
  "(pyval \<Rightarrow> string) \<Rightarrow> (dict \<Rightarrow> string) \<Rightarrow> ToolErrorPolicy \<Rightarrow> MiddlewareContext \<Rightarrow> ToolErrorState option
   \<Rightarrow> (exn + MiddlewareDecision) \<times> ToolErrorState option" where
  "te_after_tool_call show dumps p ctx s0 =
     (case (cx_tool_call ctx, cx_tool_result ctx) of
        (Some c, Some result) \<Rightarrow>
         (let s = (case s0 of None \<Rightarrow> te_fresh | Some x \<Rightarrow> x); key = call_key dumps c in
          if tres_status result \<noteq> ERROR then (Inr (continue_decision [] None), Some (release key s))
          else let kind = error_kind show (tres_metadata result) in
          if List.member denied_kinds kind then (Inr (continue_decision [] None), Some s)
          else let s1 = s\<lparr>te_total := te_total s + 1\<rparr> in
          if circuit_tripped p s1
          then (Inr (abort ''tool_error_circuit_break''
                  [(''tool_name'', VStr (tc_tool_name c)), (''error'', VStr kind),
                   (''total_tool_errors'', VInt (te_total s1)),
                   (''max_total_tool_errors'', case tp_max_total p of None \<Rightarrow> VNone | Some m \<Rightarrow> VInt m)]),
                Some (release key s1))
          else if tool_should_retry show p ctx key kind (retryable_flag (tres_metadata result)) s1
          then (case tool_retry p c key kind s1 of (d, s2) \<Rightarrow> (d, Some s2))
          else if tp_on_unrecoverable p = ABORT_ON_ERROR
          then (Inr (abort ''tool_error_unrecoverable''
                  [(''tool_name'', VStr (tc_tool_name c)), (''error'', VStr kind),
                   (''total_tool_errors'', VInt (te_total s1))]), Some (release key s1))
          else (Inr (continue_decision [(''tool_error'', VStr kind), (''total_tool_errors'', VInt (te_total s1))] None),
                Some (release key s1)))
      | _ \<Rightarrow> (Inr (continue_decision [] None), s0))"


subsection \<open>Circuit breaker\<close>

datatype CircuitState = CLOSED | OPEN | HALF_OPEN

record CircuitConfig =
  cc_threshold :: nat
  cc_window :: rat
  cc_recovery :: rat
  cc_max_probes :: nat

record Circuit =
  ci_state :: CircuitState
  ci_errors :: "rat list"
  ci_opened_at :: "rat option"
  ci_probes :: nat
  ci_probes_started :: "rat option"

definition mk_CircuitConfig :: "int \<Rightarrow> rat \<Rightarrow> rat \<Rightarrow> int \<Rightarrow> exn + CircuitConfig" where
  "mk_CircuitConfig threshold window recovery probes =
     (if threshold \<le> 0 then Inl (ValueError ''failure_threshold must be greater than zero.'')
      else if window \<le> 0 then Inl (ValueError ''window_seconds must be greater than zero.'')
      else if recovery \<le> 0 then Inl (ValueError ''recovery_timeout must be greater than zero.'')
      else if probes \<le> 0 then Inl (ValueError ''half_open_max_calls must be greater than zero.'')
      else Inr \<lparr>cc_threshold = nat threshold, cc_window = window, cc_recovery = recovery, cc_max_probes = nat probes\<rparr>)"

definition circuit_start :: Circuit where
  "circuit_start = \<lparr>ci_state = CLOSED, ci_errors = [], ci_opened_at = None, ci_probes = 0, ci_probes_started = None\<rparr>"

definition transition_to_open :: "rat \<Rightarrow> Circuit \<Rightarrow> Circuit" where
  "transition_to_open now c = c\<lparr>ci_state := OPEN, ci_opened_at := Some now, ci_probes_started := None\<rparr>"

definition transition_to_closed :: "Circuit \<Rightarrow> Circuit" where
  "transition_to_closed c = c\<lparr>ci_state := CLOSED, ci_errors := [], ci_opened_at := None, ci_probes := 0,
     ci_probes_started := None\<rparr>"

definition elapsed :: "rat option \<Rightarrow> rat \<Rightarrow> rat \<Rightarrow> bool" where
  "elapsed since now period = (case since of None \<Rightarrow> False | Some t \<Rightarrow> period \<le> now - t)"

definition handle_open :: "CircuitConfig \<Rightarrow> rat \<Rightarrow> Circuit \<Rightarrow> MiddlewareDecision \<times> Circuit" where
  "handle_open cfg now c =
     (if elapsed (ci_opened_at c) now (cc_recovery cfg)
      then (continue_decision [] None, c\<lparr>ci_state := HALF_OPEN, ci_probes := 1, ci_probes_started := Some now\<rparr>)
      else (abort ''circuit_open''
              [(''recovery_timeout'', VFloat (Fin (cc_recovery cfg))),
               (''opened_at'', case ci_opened_at c of None \<Rightarrow> VNone | Some t \<Rightarrow> VFloat (Fin t))], c))"

definition handle_half_open :: "CircuitConfig \<Rightarrow> rat \<Rightarrow> Circuit \<Rightarrow> MiddlewareDecision \<times> Circuit" where
  "handle_half_open cfg now c =
     (if cc_max_probes cfg \<le> ci_probes c \<and> elapsed (ci_probes_started c) now (cc_recovery cfg)
      then (continue_decision [] None, c\<lparr>ci_probes := 1, ci_probes_started := Some now\<rparr>)
      else if cc_max_probes cfg \<le> ci_probes c
      then (abort ''circuit_half_open_limit'' [(''half_open_max_calls'', VInt (int (cc_max_probes cfg)))], c)
      else (continue_decision [] None, c\<lparr>ci_probes := ci_probes c + 1\<rparr>))"

definition circuit_before_model_call :: "CircuitConfig \<Rightarrow> rat \<Rightarrow> Circuit \<Rightarrow> MiddlewareDecision \<times> Circuit" where
  "circuit_before_model_call cfg now c =
     (case ci_state c of
        CLOSED \<Rightarrow> (continue_decision [] None, c)
      | OPEN \<Rightarrow> handle_open cfg now c
      | HALF_OPEN \<Rightarrow> handle_half_open cfg now c)"

definition circuit_after_model_response :: "Circuit \<Rightarrow> MiddlewareDecision \<times> Circuit" where
  "circuit_after_model_response c =
     (continue_decision [] None, if ci_state c = HALF_OPEN then transition_to_closed c else c)"

definition prune_error_window :: "CircuitConfig \<Rightarrow> rat \<Rightarrow> rat list \<Rightarrow> rat list" where
  "prune_error_window cfg now errors = filter (\<lambda>t. now - cc_window cfg < t) errors"

text \<open>\<open>now\<close> is the reading that stamps the error, \<open>opening\<close> the one that stamps the opening.\<close>

definition record_error :: "CircuitConfig \<Rightarrow> rat \<Rightarrow> rat \<Rightarrow> Circuit \<Rightarrow> Circuit" where
  "record_error cfg now opening c =
     (let c' = c\<lparr>ci_errors := prune_error_window cfg now (ci_errors c @ [now])\<rparr> in
      if cc_threshold cfg \<le> length (ci_errors c') then transition_to_open opening c' else c')"

definition circuit_on_model_error :: "CircuitConfig \<Rightarrow> rat \<Rightarrow> rat \<Rightarrow> Circuit \<Rightarrow> MiddlewareDecision \<times> Circuit" where
  "circuit_on_model_error cfg now opening c =
     (continue_decision [] None,
      case ci_state c of
        HALF_OPEN \<Rightarrow> transition_to_open opening c
      | CLOSED \<Rightarrow> record_error cfg now opening c
      | OPEN \<Rightarrow> c)"


text \<open>The hooks as steps of a state machine, at any readings of the clock.\<close>

inductive circuit_step :: "CircuitConfig \<Rightarrow> Circuit \<Rightarrow> Circuit \<Rightarrow> bool" for cfg where
  call: "circuit_step cfg c (snd (circuit_before_model_call cfg now c))"
| response: "circuit_step cfg c (snd (circuit_after_model_response c))"
| error: "circuit_step cfg c (snd (circuit_on_model_error cfg now opening c))"

inductive circuit_reachable :: "CircuitConfig \<Rightarrow> Circuit \<Rightarrow> bool" for cfg where
  start: "circuit_reachable cfg circuit_start"
| step: "circuit_reachable cfg c \<Longrightarrow> circuit_step cfg c d \<Longrightarrow> circuit_reachable cfg d"

inductive_cases circuit_stepE: "circuit_step cfg c d"

definition circuit_inv :: "CircuitConfig \<Rightarrow> Circuit \<Rightarrow> bool" where
  "circuit_inv cfg c \<longleftrightarrow> (case ci_state c of
       CLOSED \<Rightarrow> length (ci_errors c) < cc_threshold cfg \<and> ci_opened_at c = None \<and> ci_probes c = 0 \<and>
         ci_probes_started c = None
     | OPEN \<Rightarrow> ci_opened_at c \<noteq> None \<and> ci_probes_started c = None
     | HALF_OPEN \<Rightarrow> ci_opened_at c \<noteq> None \<and> ci_probes_started c \<noteq> None \<and> 1 \<le> ci_probes c \<and>
         ci_probes c \<le> cc_max_probes cfg)"

lemmas circuit_simps = circuit_before_model_call_def circuit_after_model_response_def
  circuit_on_model_error_def handle_open_def handle_half_open_def record_error_def
  transition_to_open_def transition_to_closed_def continue_decision_def abort_def

lemma circuit_step_inv:
  "0 < cc_threshold cfg \<Longrightarrow> 0 < cc_max_probes cfg \<Longrightarrow> circuit_step cfg c d \<Longrightarrow>
   circuit_inv cfg c \<Longrightarrow> circuit_inv cfg d"
  by (elim circuit_stepE; cases "ci_state c")
    (auto simp: circuit_inv_def circuit_simps Let_def split: if_splits)

lemma circuit_reachable_inv:
  "circuit_reachable cfg c \<Longrightarrow> 0 < cc_threshold cfg \<Longrightarrow> 0 < cc_max_probes cfg \<Longrightarrow> circuit_inv cfg c"
proof (induction rule: circuit_reachable.induct)
  case start
  then show ?case by (simp add: circuit_inv_def circuit_start_def)
next
  case (step c d)
  then show ?case by (blast intro: circuit_step_inv)
qed

text \<open>Errors at the times \<open>ts\<close>, with no response in between.\<close>

definition after_errors :: "CircuitConfig \<Rightarrow> rat list \<Rightarrow> Circuit" where
  "after_errors cfg ts = foldl (\<lambda>c t. snd (circuit_on_model_error cfg t t c)) circuit_start ts"

definition in_window :: "CircuitConfig \<Rightarrow> rat list \<Rightarrow> rat list" where
  "in_window cfg ts = filter (\<lambda>t. last ts - cc_window cfg < t) ts"

definition trips :: "CircuitConfig \<Rightarrow> rat list \<Rightarrow> bool" where
  "trips cfg ts \<longleftrightarrow> ts \<noteq> [] \<and> cc_threshold cfg \<le> length (in_window cfg ts)"

definition tripped :: "CircuitConfig \<Rightarrow> rat list \<Rightarrow> bool" where
  "tripped cfg ts \<longleftrightarrow> list_ex (\<lambda>k. trips cfg (take k ts)) [0..<Suc (length ts)]"

lemma tripped_iff:
  "tripped cfg ts \<longleftrightarrow> (\<exists>k \<le> length ts. take k ts \<noteq> [] \<and>
     cc_threshold cfg \<le> length (filter (\<lambda>t. last (take k ts) - cc_window cfg < t) (take k ts)))"
  by (simp only: tripped_def trips_def in_window_def list_ex_iff Bex_def set_upt atLeastLessThan_iff less_Suc_eq_le) simp

lemma tripped_snoc: "tripped cfg (ts @ [t]) \<longleftrightarrow> tripped cfg ts \<or> trips cfg (ts @ [t])"
  by (auto simp: tripped_def list_ex_iff less_Suc_eq)

lemma after_errors_state:
  "sorted ts \<Longrightarrow>
   (if tripped cfg ts then ci_state (after_errors cfg ts) = OPEN
    else ci_state (after_errors cfg ts) = CLOSED \<and>
      ci_errors (after_errors cfg ts) = (if ts = [] then [] else in_window cfg ts))"
proof (induction ts rule: rev_induct)
  case Nil
  show ?case by (simp add: tripped_def trips_def after_errors_def circuit_start_def)
next
  case (snoc t ts)
  let ?c = "after_errors cfg ts"
  have step: "after_errors cfg (ts @ [t]) = snd (circuit_on_model_error cfg t t ?c)"
    by (simp add: after_errors_def)
  from snoc.prems have le: "\<forall>x \<in> set ts. x \<le> t" and "sorted ts" by (auto simp: sorted_append)
  note IH = snoc.IH [OF \<open>sorted ts\<close>]
  show ?case
  proof (cases "tripped cfg ts")
    case True
    then show ?thesis using IH by (simp add: step circuit_simps tripped_snoc)
  next
    case False
    with IH have closed: "ci_state ?c = CLOSED"
      and errs: "ci_errors ?c = (if ts = [] then [] else in_window cfg ts)" by auto
    have win: "prune_error_window cfg t (ci_errors ?c @ [t]) = in_window cfg (ts @ [t])"
    proof (cases "ts = []")
      case True
      with errs have "ci_errors ?c = []" by simp
      then show ?thesis using True by (simp add: prune_error_window_def in_window_def)
    next
      case False
      then have "last ts \<le> t" using le by simp
      then have "x \<in> set ts \<Longrightarrow> t - cc_window cfg < x \<Longrightarrow> last ts - cc_window cfg < x" for x by linarith
      then have "filter (\<lambda>x. t - cc_window cfg < x) (in_window cfg ts) = filter (\<lambda>x. t - cc_window cfg < x) ts"
        by (auto simp: in_window_def filter_filter intro!: filter_cong)
      then show ?thesis using False errs
        by (simp add: prune_error_window_def in_window_def [of cfg "ts @ [t]"])
    qed
    show ?thesis
      using False closed by (simp add: step circuit_simps Let_def win tripped_snoc trips_def)
  qed
qed

subsection \<open>Retries as budgets\<close>

definition model_retry_step :: "ModelRetry \<Rightarrow> MiddlewareContext \<Rightarrow> nat option \<Rightarrow> bool \<times> nat option" where
  "model_retry_step r ctx s = (case mr_on_model_error r ctx s of
     (d, t) \<Rightarrow> (case d of Inl _ \<Rightarrow> False | Inr x \<Rightarrow> md_action x = RETRY, t))"

definition backoff_step :: "BackoffRetry \<Rightarrow> rat \<times> MiddlewareContext \<Rightarrow> nat option \<Rightarrow> bool \<times> nat option" where
  "backoff_step r req s = (case br_on_model_error r (fst req) (snd req) s of
     (d, t) \<Rightarrow> (case d of Inl _ \<Rightarrow> False | Inr x \<Rightarrow> md_action x = RETRY, t))"

lemmas retry_simps = Let_def retry_decision_def mk_MiddlewareDecision_def MiddlewareAction_of_def
  abort_def continue_decision_def attempts_so_far_def

interpretation model_retries: call_budget
  "model_retry_step r" "\<lambda>s. attempts_so_far s" "nat (mr_max_attempts r) - 1" for r
  by unfold_locales
    (auto simp: model_retry_step_def mr_on_model_error_def retry_simps split: if_splits option.splits sum.splits)

interpretation backoff_retries: call_budget
  "backoff_step r" "\<lambda>s. attempts_so_far s" "nat (br_max_attempts r) - 1" for r
  by unfold_locales
    (auto simp: backoff_step_def br_on_model_error_def retry_simps split: if_splits option.splits sum.splits)

definition backoff_ok :: "BackoffRetry \<Rightarrow> bool" where
  "backoff_ok r \<longleftrightarrow> 0 < br_max_attempts r \<and> 0 < br_base r \<and> br_base r \<le> br_cap r"

lemma mk_BackoffRetry_ok: "mk_BackoffRetry n b c j ro = Inr r \<Longrightarrow> backoff_ok r"
  by (auto simp: mk_BackoffRetry_def backoff_ok_def elim!: bindE_InrE split: if_splits)

lemma backoff_delay_bounds:
  assumes "backoff_ok r" and "0 < u" and "u \<le> 1"
  shows "0 < backoff_delay r u n \<and> backoff_delay r u n \<le> br_cap r"
proof -
  define raw where "raw = min (br_cap r) (br_base r * 2 ^ (n - 1))"
  have raw: "0 < raw" "raw \<le> br_cap r" using assms(1) by (auto simp: raw_def backoff_ok_def)
  then have "raw * u \<le> raw" using assms by (simp add: mult_left_le)
  moreover have "backoff_delay r u n = (if br_jitter r then raw * u else raw)"
    by (simp only: backoff_delay_def raw_def Let_def)
  moreover have "0 < raw * u" using raw assms(2) by simp
  moreover have "raw * u \<le> br_cap r" using calculation(1) raw(2) by (rule order_trans)
  ultimately show ?thesis using raw by simp
qed

lemma backoff_delay_grows:
  assumes "backoff_ok r" and "m \<le> n" and "\<not> br_jitter r"
  shows "backoff_delay r u m \<le> backoff_delay r u n"
proof -
  have "(2::rat) ^ (m - 1) \<le> 2 ^ (n - 1)" using assms(2) by (intro power_increasing) auto
  then have "br_base r * 2 ^ (m - 1) \<le> br_base r * 2 ^ (n - 1)"
    using assms(1) by (simp add: backoff_ok_def)
  then show ?thesis using assms(3) by (auto simp: backoff_delay_def Let_def)
qed

lemma tool_delay_bounds: "policy_ok p \<Longrightarrow> 0 \<le> tool_delay p n \<and> tool_delay p n \<le> tp_cap p"
  by (auto simp: tool_delay_def policy_ok_def)

text \<open>A retry that is granted whenever the budget is not spent uses all of it.\<close>

interpretation model_retries_eager: eager_budget
  "model_retry_step \<lparr>mr_max_attempts = n, mr_sleep_seconds = \<bar>q\<bar>\<rparr>" "\<lambda>s. attempts_so_far s" "nat n - 1" for n q
  by unfold_locales
    (auto simp: model_retry_step_def mr_on_model_error_def retry_simps split: if_splits option.splits sum.splits)

lemma mk_ModelRetry_abs:
  "mk_ModelRetry n q = Inr r \<Longrightarrow> r = \<lparr>mr_max_attempts = n, mr_sleep_seconds = \<bar>q\<bar>\<rparr>"
  by (auto simp: mk_ModelRetry_def split: if_splits)

lemma before_model_call_aborts:
  assumes "circuit_inv cfg c"
  shows "md_action (fst (circuit_before_model_call cfg now c)) = ABORT_RUN \<longleftrightarrow>
    (ci_state c = OPEN \<and> now - the (ci_opened_at c) < cc_recovery cfg) \<or>
    (ci_state c = HALF_OPEN \<and> ci_probes c = cc_max_probes cfg \<and>
       now - the (ci_probes_started c) < cc_recovery cfg)"
  using assms
  by (cases "ci_state c") (auto simp: circuit_inv_def circuit_simps elapsed_def split: if_splits)

lemma mk_CircuitConfig_ok:
  "mk_CircuitConfig n w rt p = Inr cfg \<Longrightarrow> 0 < cc_threshold cfg \<and> 0 < cc_max_probes cfg"
  by (auto simp: mk_CircuitConfig_def split: if_splits)

definition tool_decision_retries :: "(exn + MiddlewareDecision) \<times> ToolErrorState option \<Rightarrow> bool" where
  "tool_decision_retries r = (case fst r of Inl e \<Rightarrow> False | Inr d \<Rightarrow> md_action d = RETRY)"

lemma tool_retry_outcome:
  "policy_ok p \<Longrightarrow> \<exists>d. tool_retry p c key kind s =
     (Inr d, s\<lparr>te_attempts := dict_put key (retries_of s key + 1) (te_attempts s)\<rparr>) \<and>
     md_action d = RETRY \<and> md_sleep_seconds d \<le> tp_cap p \<and> decision_wf d"
  using tool_delay_bounds [of p "retries_of s key + 1"]
  by (auto simp: tool_retry_def retry_simps decision_wf_def)

lemma te_after_tool_call_retries:
  assumes "policy_ok p" and "cx_tool_call ctx = Some c" and "cx_tool_result ctx = Some result"
    and "te_after_tool_call show dumps p ctx (Some s) = r" and "tool_decision_retries r"
  shows "\<exists>kind. kind = error_kind show (tres_metadata result) \<and> tres_status result = ERROR \<and>
      kind \<in> set (tp_retry_on p) \<and> kind \<notin> set denied_kinds \<and>
      retryable_flag (tres_metadata result) \<noteq> Some False \<and> permission_allows_retry show p ctx \<and>
      retries_of s (call_key dumps c) < tp_max_retries p"
proof -
  let ?s1 = "s\<lparr>te_total := te_total s + 1\<rparr>"
  obtain d where "tool_retry p c (call_key dumps c) (error_kind show (tres_metadata result)) ?s1 =
     (Inr d, ?s1\<lparr>te_attempts := dict_put (call_key dumps c) (retries_of ?s1 (call_key dumps c) + 1) (te_attempts ?s1)\<rparr>)"
    using tool_retry_outcome [OF assms(1)] by blast
  then show ?thesis using assms(2-)
    by (auto simp: te_after_tool_call_def Let_def tool_decision_retries_def continue_decision_def abort_def
        tool_should_retry_def retries_of_def split: if_splits)
qed

lemma te_after_tool_call_retry_state:
  assumes "policy_ok p" and "cx_tool_call ctx = Some c" and "cx_tool_result ctx = Some result"
    and "te_after_tool_call show dumps p ctx (Some s) = (Inr d, Some s')" and "md_action d = RETRY"
  shows "s' = \<lparr>te_attempts = dict_put (call_key dumps c) (retries_of s (call_key dumps c) + 1) (te_attempts s),
           te_total = te_total s + 1\<rparr> \<and> md_sleep_seconds d \<le> tp_cap p"
proof -
  let ?s1 = "s\<lparr>te_total := te_total s + 1\<rparr>"
  obtain d' where "tool_retry p c (call_key dumps c) (error_kind show (tres_metadata result)) ?s1 =
     (Inr d', ?s1\<lparr>te_attempts := dict_put (call_key dumps c) (retries_of ?s1 (call_key dumps c) + 1) (te_attempts ?s1)\<rparr>)"
     "md_sleep_seconds d' \<le> tp_cap p"
    using tool_retry_outcome [OF assms(1)] by blast
  then show ?thesis using assms(2-)
    by (auto simp: te_after_tool_call_def Let_def continue_decision_def abort_def retries_of_def split: if_splits)
qed

subsection \<open>Properties\<close>

text \<open>The model retry grants exactly the first \<open>max_attempts - 1\<close> errors of a run a retry, the
  exponential backoff never grants more, and every backoff delay is positive, within the cap and,
  without jitter, does not shrink from one attempt to the next.\<close>

theorem retries_within_max_attempts:
  assumes "mk_ModelRetry n q = Inr r" and "mk_BackoffRetry m base cap jitter ro = Inr b" and "0 < u" and "u \<le> 1"
  shows "grants (model_retry_step r) ctxs None = min (length ctxs) (nat n - 1) \<and>
    grants (backoff_step b) reqs None \<le> nat m - 1 \<and>
    0 < backoff_delay b u k \<and> backoff_delay b u k \<le> cap \<and>
    (\<not> jitter \<longrightarrow> i \<le> k \<longrightarrow> backoff_delay b u i \<le> backoff_delay b u k)"
proof -
  have ok: "backoff_ok b" and b: "br_cap b = cap" "br_max_attempts b = m" "br_jitter b = jitter"
    using assms(2) mk_BackoffRetry_ok by (auto simp: mk_BackoffRetry_def elim!: bindE_InrE split: if_splits)
  then show ?thesis
    using model_retries_eager.grants_all [of n q ctxs None] mk_ModelRetry_abs [OF assms(1)]
      backoff_retries.grants_fit [of b reqs None] backoff_delay_bounds [OF ok assms(3,4), of k] b
      backoff_delay_grows [OF ok, of i k u]
    by (auto simp: attempts_so_far_def)
qed

lemma retries_witness:
  "grants (model_retry_step \<lparr>mr_max_attempts = 3, mr_sleep_seconds = 1\<rparr>) (replicate 5 demo_mw_context) None = 2"
  using retries_within_max_attempts [of 3 1 "\<lparr>mr_max_attempts = 3, mr_sleep_seconds = 1\<rparr>" 4 1 60 False VNone
    "\<lparr>br_max_attempts = 4, br_base = 1, br_cap = 60, br_jitter = False, br_retry_on = None\<rparr>" 1
    "replicate 5 demo_mw_context" "[]" 1 1]
  by (simp add: mk_ModelRetry_def mk_BackoffRetry_def normalize_retry_on_def)

text \<open>C24: a failed tool call is retried only when its error kind is listed and not a denial, its
  metadata does not say otherwise, its permission allows it and its retry budget is not spent; a
  retry then adds one to the budget of this call alone, and its delay is within the cap.\<close>

theorem tool_retry_only_when_allowed:
  assumes "mk_ToolErrorPolicy show retries retry_on base multiplier cap idempotent action most = Inr p"
    and "cx_tool_call ctx = Some c" and "cx_tool_result ctx = Some result"
    and "te_after_tool_call show dumps p ctx (Some s) = (Inr d, Some s')" and "md_action d = RETRY"
  shows "error_kind show (tres_metadata result) \<in> set (tp_retry_on p) - set denied_kinds \<and>
    retryable_flag (tres_metadata result) \<noteq> Some False \<and> permission_allows_retry show p ctx \<and>
    retries_of s (call_key dumps c) < tp_max_retries p \<and> te_total s' = te_total s + 1 \<and>
    (\<forall>key. retries_of s' key = (if key = call_key dumps c then retries_of s key + 1 else retries_of s key)) \<and>
    md_sleep_seconds d \<le> tp_cap p"
proof -
  note ok = mk_ToolErrorPolicy_ok [OF assms(1)]
  have "tool_decision_retries (Inr d, Some s')" using assms(5) by (simp add: tool_decision_retries_def)
  note allowed = te_after_tool_call_retries [OF ok assms(2-4) this]
  from te_after_tool_call_retry_state [OF ok assms(2-5)] allowed show ?thesis
    by (auto simp: retries_of_def)
qed

definition demo_policy :: ToolErrorPolicy where
  "demo_policy = \<lparr>tp_max_retries = 2, tp_retry_on = default_retry_on, tp_base = 1, tp_multiplier = 2, tp_cap = 30,
     tp_only_idempotent = True, tp_on_unrecoverable = CONTINUE_RUN, tp_max_total = None\<rparr>"

definition demo_call :: ToolCall where
  "demo_call = \<lparr>tc_tool_name = ''search'', tc_arguments = [], tc_call_id = Some ''c1'', tc_metadata = [], tc_activity = None\<rparr>"

definition demo_failure :: ToolResult where
  "demo_failure = \<lparr>tres_tool_name = ''search'', tres_status = ERROR, tres_output = ''timed out'',
     tres_metadata = [(''error'', VStr ''timeout'')]\<rparr>"

definition demo_failed_call :: MiddlewareContext where
  "demo_failed_call = demo_mw_context\<lparr>cx_tool_call := Some demo_call, cx_tool_result := Some demo_failure,
     cx_metadata := [(''tool_permission'', VStr ''read'')]\<rparr>"

lemma tool_retry_witness:
  "\<exists>d s'. te_after_tool_call (\<lambda>_. []) (\<lambda>_. []) demo_policy demo_failed_call (Some te_fresh) = (Inr d, Some s') \<and>
     retries_of s' ''c1'' = 1 \<and> retries_of s' ''c2'' = 0"
proof -
  let ?f = "\<lambda>_. []"
  have made: "mk_ToolErrorPolicy ?f (VInt 2) VNone (VInt 1) (VInt 2) (VInt 30) True (Inl CONTINUE_RUN) VNone = Inr demo_policy"
    by (simp add: mk_ToolErrorPolicy_def demo_policy_def normalize_retry_kinds_def normalize_unrecoverable_def
        require_retries_def plain_int_def require_base_def require_at_least_def require_total_def
        finite_real_def finite_number_def int_overflows_def)
  have ctx: "cx_tool_call demo_failed_call = Some demo_call" "cx_tool_result demo_failed_call = Some demo_failure"
    by (simp_all add: demo_failed_call_def)
  have call: "call_key ?f demo_call = ''c1''" by (simp add: call_key_def demo_call_def)
  have kind: "tres_status demo_failure = ERROR" "error_kind ?f (tres_metadata demo_failure) = ''timeout''"
      "''timeout'' \<notin> set denied_kinds" "retryable_flag (tres_metadata demo_failure) = None"
    by code_simp+
  have retry: "tool_should_retry ?f demo_policy demo_failed_call ''c1'' ''timeout'' None (te_fresh\<lparr>te_total := 1\<rparr>)"
    and free: "\<not> circuit_tripped demo_policy (te_fresh\<lparr>te_total := 1\<rparr>)" "te_total te_fresh = 0"
    by code_simp+
  have "policy_ok demo_policy" using made by (rule mk_ToolErrorPolicy_ok)
  then obtain d where "tool_retry demo_policy demo_call ''c1'' ''timeout'' (te_fresh\<lparr>te_total := 1\<rparr>) = (Inr d,
      te_fresh\<lparr>te_total := 1, te_attempts := dict_put ''c1'' (retries_of (te_fresh\<lparr>te_total := 1\<rparr>) ''c1'' + 1)
        (te_attempts (te_fresh\<lparr>te_total := 1\<rparr>))\<rparr>)" "md_action d = RETRY"
    using tool_retry_outcome [of demo_policy demo_call "''c1''" "''timeout''"] by blast
  then obtain s' where e: "te_after_tool_call ?f ?f demo_policy demo_failed_call (Some te_fresh) = (Inr d, Some s')"
    and r: "md_action d = RETRY"
    by (simp add: te_after_tool_call_def ctx kind call retry free Let_def cong: if_cong)
  show ?thesis
    using tool_retry_only_when_allowed [OF made ctx e r] e call by (simp add: retries_of_def te_fresh_def)
qed

text \<open>In every state the circuit breaker can reach, a model call is refused exactly when the circuit
  is open and the recovery time has not passed, or when all probes of a half-open circuit are out
  and have not expired.\<close>

theorem circuit_refuses_exactly:
  assumes "mk_CircuitConfig n w rt p = Inr cfg" and "circuit_reachable cfg c"
  shows "md_action (fst (circuit_before_model_call cfg now c)) = ABORT_RUN \<longleftrightarrow>
    (ci_state c = OPEN \<and> now - the (ci_opened_at c) < cc_recovery cfg) \<or>
    (ci_state c = HALF_OPEN \<and> ci_probes c = cc_max_probes cfg \<and>
       now - the (ci_probes_started c) < cc_recovery cfg)"
  using mk_CircuitConfig_ok [OF assms(1)] circuit_reachable_inv [OF assms(2)]
  by (simp add: before_model_call_aborts)

text \<open>After a sequence of errors with no response in between, the circuit is open exactly when at
  some error the last \<open>failure_threshold\<close> errors lay within one window.\<close>

theorem circuit_opens_on_threshold_in_window:
  assumes "sorted ts"
  shows "ci_state (after_errors cfg ts) = OPEN \<longleftrightarrow>
    (\<exists>k \<le> length ts. take k ts \<noteq> [] \<and>
       cc_threshold cfg \<le> length (filter (\<lambda>t. last (take k ts) - cc_window cfg < t) (take k ts)))"
  unfolding tripped_iff [symmetric] using after_errors_state [OF assms, of cfg] by (simp split: if_splits)

definition demo_circuit :: CircuitConfig where
  "demo_circuit = \<lparr>cc_threshold = 2, cc_window = 60, cc_recovery = 30, cc_max_probes = 1\<rparr>"

lemma circuit_opens_witness: "ci_state (after_errors demo_circuit [0, 70, 100]) = OPEN"
proof -
  have "\<exists>k \<le> length [0, 70, 100 :: rat]. take k [0, 70, 100 :: rat] \<noteq> [] \<and> cc_threshold demo_circuit \<le>
     length (filter (\<lambda>t. last (take k [0, 70, 100]) - cc_window demo_circuit < t) (take k [0, 70, 100]))"
    by (rule exI [of _ 3]) (simp add: demo_circuit_def)
  then show ?thesis
    using circuit_opens_on_threshold_in_window [of "[0, 70, 100]" demo_circuit] by simp
qed

definition demo_open :: Circuit where
  "demo_open = \<lparr>ci_state = OPEN, ci_errors = [5, 10], ci_opened_at = Some 10, ci_probes = 0, ci_probes_started = None\<rparr>"

lemma demo_open_reachable: "circuit_reachable demo_circuit demo_open"
proof -
  have "snd (circuit_on_model_error demo_circuit 5 5 circuit_start) = circuit_start\<lparr>ci_errors := [5]\<rparr>"
    by (simp add: circuit_on_model_error_def circuit_start_def record_error_def prune_error_window_def
        demo_circuit_def)
  moreover have "snd (circuit_on_model_error demo_circuit 10 10 (circuit_start\<lparr>ci_errors := [5]\<rparr>)) = demo_open"
    by (simp add: circuit_on_model_error_def circuit_start_def record_error_def prune_error_window_def
        demo_circuit_def transition_to_open_def demo_open_def)
  ultimately show ?thesis by (metis circuit_reachable.intros circuit_step.error)
qed

lemma circuit_refuses_witness:
  "md_action (fst (circuit_before_model_call demo_circuit 20 demo_open)) = ABORT_RUN"
proof -
  have "mk_CircuitConfig 2 60 30 1 = Inr demo_circuit"
    by (simp add: mk_CircuitConfig_def demo_circuit_def)
  from circuit_refuses_exactly [OF this demo_open_reachable, of 20] show ?thesis
    by (simp add: demo_open_def demo_circuit_def)
qed

end
