(* ===== verification/MW_Tools.thy ===== *)
theory MW_Tools
  imports MW_Core "HOL-Library.Sublist" "HOL-Library.Multiset"
begin

text \<open>
  The middlewares of \<^verbatim>\<open>vidbyte/middleware/builtins\<close> that watch tool calls: loop
  detection, tool policy, honeypot, delegation limits, canary tripwire and the confused deputy
  guard, with the verification command that reviews a finish and the audit log.  The hash of a text, the
  JSON text of a value, the identity of a call object and the random draws are arguments.
\<close>

subsection \<open>Texts\<close>

definition newline :: string where
  "newline = [char_of (10 :: nat)]"

definition contains :: "string \<Rightarrow> string \<Rightarrow> bool" where
  "contains sub s = list_ex (\<lambda>k. take (length sub) (drop k s) = sub) [0..<Suc (length s)]"

lemma contains_sublist: "contains sub s \<longleftrightarrow> sublist sub s"
proof
  assume "contains sub s"
  then obtain k where "take (length sub) (drop k s) = sub" by (auto simp: contains_def list_ex_iff)
  then show "sublist sub s"
    by (metis append_take_drop_id sublist_appendI)
next
  assume "sublist sub s"
  then obtain a b where "s = a @ sub @ b" by (auto simp: sublist_def)
  then have "length a < Suc (length s)" "take (length sub) (drop (length a) s) = sub" by auto
  then show "contains sub s" by (force simp: contains_def list_ex_iff)
qed

subsection \<open>Loop detection\<close>

record LoopDetection =
  ld_max_calls :: nat
  ld_window :: nat
  ld_skip_internal :: bool
  ld_soft :: "int option"
  ld_hard :: "int option"

record LoopState =
  ls_history :: "string list"
  ls_counts :: "(string \<times> int) list"
  ls_counted :: "(nat \<times> string) option"

definition mk_LoopDetection :: "int \<Rightarrow> int \<Rightarrow> bool \<Rightarrow> int option \<Rightarrow> int option \<Rightarrow> exn + LoopDetection" where
  "mk_LoopDetection calls window skip soft hard =
     (if calls < 2 then Inl (ValueError ''max_repeated_calls must be at least 2.'')
      else if window < calls then Inl (ValueError ''window must be greater than or equal to max_repeated_calls.'')
      else if (case soft of None \<Rightarrow> False | Some s \<Rightarrow> s < 2)
      then Inl (ValueError ''soft_max_repeated_outputs must be at least 2.'')
      else if (case hard of None \<Rightarrow> False | Some h \<Rightarrow> h < 2)
      then Inl (ValueError ''hard_max_repeated_outputs must be at least 2.'')
      else if (case (soft, hard) of (Some s, Some h) \<Rightarrow> h \<le> s | _ \<Rightarrow> False)
      then Inl (ValueError (''soft_max_repeated_outputs must be less than hard_max_repeated_outputs '' @
             ''so the soft nudge fires before the hard abort.''))
      else Inr \<lparr>ld_max_calls = nat calls, ld_window = nat window, ld_skip_internal = skip, ld_soft = soft, ld_hard = hard\<rparr>)"

definition loop_fresh :: LoopState where
  "loop_fresh = \<lparr>ls_history = [], ls_counts = [], ls_counted = None\<rparr>"

text \<open>\<open>digest\<close> is the first sixteen hex digits of the SHA-256 of a text.\<close>

definition make_key :: "(string \<Rightarrow> string) \<Rightarrow> (dict \<Rightarrow> string) \<Rightarrow> string \<Rightarrow> dict \<Rightarrow> string" where
  "make_key digest dumps tool arguments = tool @ '':'' @ digest (dumps arguments)"

definition make_output_key :: "(string \<Rightarrow> string) \<Rightarrow> string \<Rightarrow> string \<Rightarrow> string" where
  "make_output_key digest tool output = tool @ '':'' @ digest output"

definition count_consecutive_tail :: "string \<Rightarrow> string list \<Rightarrow> nat" where
  "count_consecutive_tail key history = length (takeWhile (\<lambda>x. x = key) (rev history))"

definition push_bounded :: "nat \<Rightarrow> 'a \<Rightarrow> 'a list \<Rightarrow> 'a list" where
  "push_bounded n x xs = drop (Suc (length xs) - n) (xs @ [x])"

definition ld_before_tool_call ::
  "(string \<Rightarrow> string) \<Rightarrow> (dict \<Rightarrow> string) \<Rightarrow> LoopDetection \<Rightarrow> MiddlewareContext \<Rightarrow> LoopState option
   \<Rightarrow> MiddlewareDecision \<times> LoopState option" where
  "ld_before_tool_call digest dumps d ctx s0 =
     (case cx_tool_call ctx of
        None \<Rightarrow> (continue_decision [] None, s0)
      | Some c \<Rightarrow>
          if ld_skip_internal d \<and> cx_tool_is_internal ctx then (continue_decision [] None, s0)
          else let s = (case s0 of None \<Rightarrow> loop_fresh | Some x \<Rightarrow> x);
                   key = make_key digest dumps (tc_tool_name c) (tc_arguments c);
                   history = push_bounded (ld_window d) key (ls_history s);
                   n = count_consecutive_tail key history in
            (if ld_max_calls d \<le> n
             then abort ''tool_loop_detected''
                    [(''tool_name'', VStr (tc_tool_name c)), (''repeated_count'', VInt (int n)),
                     (''max_repeated_calls'', VInt (int (ld_max_calls d)))]
             else continue_decision [] None,
             Some (s\<lparr>ls_history := history, ls_counted := None\<rparr>)))"

definition count_of :: "(string \<times> int) list \<Rightarrow> string \<Rightarrow> int" where
  "count_of counts key = (case map_of counts key of None \<Rightarrow> 0 | Some n \<Rightarrow> n)"

text \<open>
  The counting part of the hook.  \<open>i\<close> is the identity of the call object of the context, if
  there is one: a retry of the same call replaces the output counted before.
\<close>

definition count_output :: "nat option \<Rightarrow> string \<Rightarrow> LoopState \<Rightarrow> int \<times> LoopState" where
  "count_output i key s =
     (let counts = (case ls_counted s of
            Some (j, k) \<Rightarrow> if i = Some j then dict_put k (count_of (ls_counts s) k - 1) (ls_counts s) else ls_counts s
          | None \<Rightarrow> ls_counts s);
          n = count_of counts key + 1 in
      (n, s\<lparr>ls_counts := dict_put key n counts,
            ls_counted := (case i of None \<Rightarrow> None | Some j \<Rightarrow> Some (j, key))\<rparr>))"

definition output_hash :: "string \<Rightarrow> string" where
  "output_hash key = (if List.member key (CHR '':'') then tl (dropWhile (\<lambda>c. c \<noteq> CHR '':'') key) else key)"

definition reached_int :: "int option \<Rightarrow> int \<Rightarrow> bool" where
  "reached_int limit n = (case limit of None \<Rightarrow> False | Some m \<Rightarrow> m \<le> n)"

text \<open>\<open>notice\<close> is the constant \<open>REPEATED_OUTPUT_LOOP_NOTICE\<close>, which has a character beyond those of \<open>char\<close>.\<close>

definition ld_after_tool_call ::
  "(string \<Rightarrow> string) \<Rightarrow> string \<Rightarrow> LoopDetection \<Rightarrow> MiddlewareContext \<Rightarrow> nat \<Rightarrow> LoopState option
   \<Rightarrow> MiddlewareDecision \<times> LoopState option" where
  "ld_after_tool_call digest notice d ctx i s0 =
     (if ld_soft d = None \<and> ld_hard d = None then (continue_decision [] None, s0)
      else case cx_tool_result ctx of
        None \<Rightarrow> (continue_decision [] None, s0)
      | Some r \<Rightarrow>
          if ld_skip_internal d \<and> cx_tool_is_internal ctx then (continue_decision [] None, s0)
          else let s = (case s0 of None \<Rightarrow> loop_fresh | Some x \<Rightarrow> x);
                   key = make_output_key digest (tres_tool_name r) (tres_output r) in
            (case count_output (if cx_tool_call ctx = None then None else Some i) key s of (n, s') \<Rightarrow>
              let metadata = [(''tool_name'', VStr (tres_tool_name r)), (''output_hash'', VStr (output_hash key)),
                              (''repeated_count'', VInt n), (''description'', VStr notice)] in
              (if reached_int (ld_hard d) n
               then abort ''tool_output_loop_detected''
                      (dict_put ''hard_max_repeated_outputs'' (case ld_hard d of None \<Rightarrow> VNone | Some h \<Rightarrow> VInt h) metadata)
               else if reached_int (ld_soft d) n
               then continue_decision
                      (dict_put ''soft_max_repeated_outputs'' (case ld_soft d of None \<Rightarrow> VNone | Some h \<Rightarrow> VInt h) metadata)
                      (Some \<lparr>tf_tool_result = Some (r\<lparr>
                               tres_output := tres_output r @ newline @ newline @ ''['' @ notice @ '' (observed '' @ show_int n @ '' times)]'',
                               tres_metadata := dict_merge (tres_metadata r)
                                 [(''loop_detection_notice'', VBool True), (''repeated_count'', VInt n)]\<rparr>),
                             tf_messages = None, tf_system = None, tf_metadata = []\<rparr>)
               else continue_decision [] None,
               Some s')))"

subsection \<open>Tool policy and honeypot\<close>

text \<open>Tool names: an iterable of values, not a string, whose stripped text is not blank.\<close>

definition tool_names :: "(pyval \<Rightarrow> string) \<Rightarrow> string \<Rightarrow> pyval \<Rightarrow> exn + string list" where
  "tool_names show owner v =
     (let names = (\<lambda>xs. let ns = map (\<lambda>x. strip (case x of VStr s \<Rightarrow> s | _ \<Rightarrow> show x)) xs in
            if List.member ns [] then Inl (ValueError (owner @ '' cannot include blank tool names.'')) else Inr ns) in
      case v of
        VStr s \<Rightarrow> Inl (ValueError (owner @ '' must be an iterable of tool names, not a string.''))
      | VList xs \<Rightarrow> names xs
      | VDict d \<Rightarrow> names (map (VStr \<circ> fst) d)
      | _ \<Rightarrow> Inl (TypeError ''object is not iterable''))"

record ToolPolicy =
  to_allow :: "string list option"
  to_deny :: "string list"
  to_internal :: bool

definition mk_ToolPolicy :: "(pyval \<Rightarrow> string) \<Rightarrow> pyval \<Rightarrow> pyval \<Rightarrow> bool \<Rightarrow> exn + ToolPolicy" where
  "mk_ToolPolicy show allow deny internal =
     bindE (if allow = VNone then Inr None
            else bindE (tool_names show ''ToolPolicyMiddleware.allow_tools'' allow) (\<lambda>ns. Inr (Some ns))) (\<lambda>a.
     bindE (tool_names show ''ToolPolicyMiddleware.deny_tools'' deny) (\<lambda>d.
     Inr \<lparr>to_allow = a, to_deny = d, to_internal = internal\<rparr>))"

definition to_before_tool_call :: "ToolPolicy \<Rightarrow> MiddlewareContext \<Rightarrow> MiddlewareDecision" where
  "to_before_tool_call p ctx =
     (case cx_tool_call ctx of
        None \<Rightarrow> continue_decision [] None
      | Some c \<Rightarrow>
          if cx_tool_is_internal ctx \<and> to_internal p then continue_decision [] None
          else if List.member (to_deny p) (tc_tool_name c)
          then deny_tool ''tool_denylisted'' [(''tool_name'', VStr (tc_tool_name c))]
          else if (case to_allow p of None \<Rightarrow> False | Some ns \<Rightarrow> \<not> List.member ns (tc_tool_name c))
          then deny_tool ''tool_not_allowlisted'' [(''tool_name'', VStr (tc_tool_name c))]
          else continue_decision [] None)"

record Honeypot =
  hp_traps :: "string list"
  hp_reason :: string

definition mk_Honeypot :: "(pyval \<Rightarrow> string) \<Rightarrow> pyval \<Rightarrow> string \<Rightarrow> exn + Honeypot" where
  "mk_Honeypot show names reason =
     bindE (tool_names show ''HoneypotToolMiddleware.trap_tool_names'' names) (\<lambda>ns.
     if ns = [] then Inl (ValueError ''trap_tool_names must contain at least one name.'')
     else Inr \<lparr>hp_traps = ns, hp_reason = reason\<rparr>)"

definition hp_before_tool_call :: "Honeypot \<Rightarrow> MiddlewareContext \<Rightarrow> MiddlewareDecision" where
  "hp_before_tool_call h ctx =
     (case cx_tool_call ctx of
        None \<Rightarrow> continue_decision [] None
      | Some c \<Rightarrow>
          if cx_tool_is_internal ctx then continue_decision [] None
          else if List.member (hp_traps h) (tc_tool_name c)
          then abort (hp_reason h) [(''trapped_tool'', VStr (tc_tool_name c))]
          else continue_decision [] None)"

subsection \<open>Delegation limits\<close>

record DelegationLimits =
  dl_tool_name :: string
  dl_batch_argument :: string
  dl_max_depth :: int
  dl_max_parallel :: int

definition dl_before_tool_call :: "DelegationLimits \<Rightarrow> int \<Rightarrow> MiddlewareContext \<Rightarrow> MiddlewareDecision" where
  "dl_before_tool_call l depth ctx =
     (case cx_tool_call ctx of
        None \<Rightarrow> continue_decision [] None
      | Some c \<Rightarrow>
          if tc_tool_name c \<noteq> dl_tool_name l then continue_decision [] None
          else if dl_max_depth l \<le> depth
          then deny_tool (dl_tool_name l @ '' is not available here: this agent is at depth '' @ show_int depth
                 @ '', and max_depth ('' @ show_int (dl_max_depth l)
                 @ '') allows no deeper subagents. Do this work yourself with your other tools.'')
               [(''limit'', VStr ''max_depth''), (''depth'', VInt depth), (''max_depth'', VInt (dl_max_depth l))]
          else case map_of (tc_arguments c) (dl_batch_argument l) of
            Some (VList tasks) \<Rightarrow>
              if dl_max_parallel l < int (length tasks)
              then deny_tool (''This '' @ dl_tool_name l @ '' call carries '' @ decimal (length tasks)
                     @ '' tasks, over max_parallel ('' @ show_int (dl_max_parallel l)
                     @ ''); nothing was started. Split the tasks over several calls of at most ''
                     @ show_int (dl_max_parallel l) @ '' each.'')
                   [(''limit'', VStr ''max_parallel''), (''tasks'', VInt (int (length tasks))),
                    (''max_parallel'', VInt (dl_max_parallel l))]
              else continue_decision [] None
          | _ \<Rightarrow> continue_decision [] None)"

subsection \<open>Canary tripwire\<close>

record Canary =
  ca_prefix :: string
  ca_probability :: rat
  ca_reason :: string

text \<open>The ledger of a run maps a canary to the tool whose result carried it; a missing ledger is an empty one.\<close>

type_synonym ledger = "(string \<times> string) list"

definition mk_Canary :: "string \<Rightarrow> rat \<Rightarrow> string \<Rightarrow> exn + Canary" where
  "mk_Canary watermark probability reason =
     (if probability \<le> 0 \<or> 1 < probability then Inl (ValueError ''inject_probability must be in (0.0, 1.0].'')
      else Inr \<lparr>ca_prefix = watermark, ca_probability = probability, ca_reason = reason\<rparr>)"

fun scan_for_leaked_canaries :: "Canary \<Rightarrow> string \<Rightarrow> ledger \<Rightarrow> MiddlewareDecision" where
  "scan_for_leaked_canaries c text [] = continue_decision [] None"
| "scan_for_leaked_canaries c text ((canary, tool) # rest) =
     (if contains canary text
      then abort (ca_reason c) [(''leaked_canary'', VStr canary), (''source_tool'', VStr tool)]
      else scan_for_leaked_canaries c text rest)"

definition hex_digit :: "nat \<Rightarrow> char" where
  "hex_digit n = (if n < 10 then char_of (48 + n) else char_of (87 + n))"

text \<open>\<open>bytes\<close> are the eight numbers drawn from the generator, each below 256.\<close>

definition generate_canary :: "Canary \<Rightarrow> nat list \<Rightarrow> string" where
  "generate_canary c bytes = ca_prefix c @ concat (map (\<lambda>b. [hex_digit (b div 16), hex_digit (b mod 16)]) bytes)"

definition with_canary :: "ToolResult \<Rightarrow> string \<Rightarrow> ToolResult" where
  "with_canary r canary = r\<lparr>tres_output := tres_output r @ newline @ canary\<rparr>"

definition ca_before_tool_call ::
  "(dict \<Rightarrow> string) \<Rightarrow> Canary \<Rightarrow> MiddlewareContext \<Rightarrow> ledger \<Rightarrow> MiddlewareDecision" where
  "ca_before_tool_call dumps c ctx l =
     (if l = [] then continue_decision [] None
      else case cx_tool_call ctx of
        None \<Rightarrow> continue_decision [] None
      | Some call \<Rightarrow> scan_for_leaked_canaries c (dumps (tc_arguments call)) l)"

definition ca_after_tool_call ::
  "Canary \<Rightarrow> rat \<Rightarrow> nat list \<Rightarrow> MiddlewareContext \<Rightarrow> ledger \<Rightarrow> MiddlewareDecision \<times> ledger" where
  "ca_after_tool_call c draw bytes ctx l =
     (if cx_tool_is_internal ctx then (continue_decision [] None, l)
      else case cx_tool_result ctx of
        None \<Rightarrow> (continue_decision [] None, l)
      | Some r \<Rightarrow>
          if ca_probability c \<le> draw then (continue_decision [] None, l)
          else let canary = generate_canary c bytes;
                   tool = (case cx_tool_call ctx of Some call \<Rightarrow> tc_tool_name call | None \<Rightarrow> ''unknown'') in
            (continue_decision [] (Some \<lparr>tf_tool_result = Some (with_canary r canary), tf_messages = None,
                                         tf_system = None, tf_metadata = []\<rparr>),
             dict_put canary tool l))"

definition extract_model_text :: "(string option \<times> string) option \<Rightarrow> string" where
  "extract_model_text r = (case r of None \<Rightarrow> [] | Some (Some t, _) \<Rightarrow> t | Some (None, shown) \<Rightarrow> shown)"

definition ca_after_model_response :: "Canary \<Rightarrow> MiddlewareContext \<Rightarrow> ledger \<Rightarrow> MiddlewareDecision" where
  "ca_after_model_response c ctx l =
     (if l = [] then continue_decision [] None
      else let t = extract_model_text (cx_model_response ctx) in
        if t = [] then continue_decision [] None else scan_for_leaked_canaries c t l)"

lemma scan_aborts:
  "md_action (scan_for_leaked_canaries c t l) = ABORT_RUN \<longleftrightarrow> (\<exists>canary \<in> fst ` set l. sublist canary t)"
  by (induction c t l rule: scan_for_leaked_canaries.induct)
    (auto simp: contains_sublist continue_decision_def abort_def)

subsection \<open>Confused deputy\<close>

record Deputy =
  de_max_ratio :: rat
  de_min_length :: nat
  de_reason :: string

record DeputyState =
  ds_message :: string
  ds_outputs :: "string list"

definition mk_Deputy :: "rat \<Rightarrow> int \<Rightarrow> string \<Rightarrow> exn + Deputy" where
  "mk_Deputy ratio minimum reason =
     (if ratio \<le> 0 \<or> 1 < ratio then Inl (ValueError ''max_external_content_ratio must be in (0.0, 1.0].'')
      else if minimum < 1 then Inl (ValueError ''min_argument_length must be at least 1.'')
      else Inr \<lparr>de_max_ratio = ratio, de_min_length = nat minimum, de_reason = reason\<rparr>)"

definition de_before_run :: "MiddlewareContext \<Rightarrow> DeputyState" where
  "de_before_run ctx = \<lparr>ds_message = cx_message ctx, ds_outputs = []\<rparr>"

definition de_state :: "DeputyState option \<Rightarrow> DeputyState" where
  "de_state s = (case s of None \<Rightarrow> \<lparr>ds_message = [], ds_outputs = []\<rparr> | Some x \<Rightarrow> x)"

definition de_after_tool_call :: "MiddlewareContext \<Rightarrow> DeputyState option \<Rightarrow> DeputyState option" where
  "de_after_tool_call ctx s =
     (case cx_tool_result ctx of
        None \<Rightarrow> s
      | Some r \<Rightarrow>
          if tres_output r \<noteq> [] \<and> \<not> cx_tool_is_internal ctx
          then Some ((de_state s)\<lparr>ds_outputs := ds_outputs (de_state s) @ [tres_output r]\<rparr>)
          else s)"

lemma size_values: "sum_list (map (size \<circ> snd) d) + length d \<le> size_list (size_prod (\<lambda>_. 0) size) d"
  by (induction d) auto

lemma size_items: "sum_list (map size xs) + length xs \<le> size_list size xs"
  by (induction xs) auto

text \<open>The strings inside a value, by a queue of pending values.\<close>

function pending_leaves :: "pyval list \<Rightarrow> string list" where
  "pending_leaves [] = []"
| "pending_leaves (item # pending) =
     (case item of
        VStr s \<Rightarrow> s # pending_leaves pending
      | VDict d \<Rightarrow> pending_leaves (pending @ map snd d)
      | VList xs \<Rightarrow> pending_leaves (pending @ xs)
      | _ \<Rightarrow> pending_leaves pending)"
  by pat_completeness auto

termination
  by (relation "measure (\<lambda>q. sum_list (map size q) + length q)") (auto intro!: le_imp_less_Suc le_SucI size_values size_items)

definition string_leaves :: "pyval \<Rightarrow> string list" where
  "string_leaves v = pending_leaves [v]"

text \<open>The binary search: \<open>found n\<close> tells whether some substring of length \<open>n\<close> is in both texts.\<close>

function search_length :: "(nat \<Rightarrow> bool) \<Rightarrow> nat \<Rightarrow> nat \<Rightarrow> nat \<Rightarrow> nat" where
  "search_length found low high best =
     (if low \<le> high then
        let mid = (low + high) div 2 in
        if mid = 0 then search_length found (mid + 1) high best
        else if found mid then search_length found (mid + 1) high mid
        else search_length found low (mid - 1) best
      else best)"
  by pat_completeness auto

termination
  by (relation "measure (\<lambda>(_, low, high, _). high + 1 - low)") auto

declare search_length.simps [simp del]

definition has_common :: "string \<Rightarrow> string \<Rightarrow> nat \<Rightarrow> bool" where
  "has_common needle haystack mid =
     list_ex (\<lambda>start. contains (take mid (drop start needle)) haystack) [0..<length needle + 1 - mid]"

definition longest_common_substring_length :: "string \<Rightarrow> string \<Rightarrow> nat" where
  "longest_common_substring_length needle haystack =
     (if needle = [] \<or> haystack = [] then 0
      else search_length (has_common needle haystack) 0 (length needle) 0)"

definition overlap_ratio :: "string \<Rightarrow> string \<Rightarrow> rat" where
  "overlap_ratio arg text = of_nat (longest_common_substring_length arg text) / of_nat (length arg)"

definition max_overlap_ratio :: "string \<Rightarrow> string list \<Rightarrow> rat" where
  "max_overlap_ratio arg outputs =
     foldl (\<lambda>best output. max best (if arg = [] then 0 else overlap_ratio arg output)) 0 outputs"

definition deputised :: "Deputy \<Rightarrow> DeputyState \<Rightarrow> string \<Rightarrow> bool" where
  "deputised d s text \<longleftrightarrow> de_min_length d \<le> length text \<and>
     de_max_ratio d < max_overlap_ratio text (ds_outputs s) \<and>
     overlap_ratio text (ds_message s) < max_overlap_ratio text (ds_outputs s)"

text \<open>\<open>round4\<close> rounds to four decimal places.\<close>

fun check_arguments ::
  "(rat \<Rightarrow> rat) \<Rightarrow> Deputy \<Rightarrow> DeputyState \<Rightarrow> string \<Rightarrow> dict \<Rightarrow> MiddlewareDecision" where
  "check_arguments round4 d s tool [] = continue_decision [] None"
| "check_arguments round4 d s tool ((name, v) # rest) =
     (case find (deputised d s) (string_leaves v) of
        Some text \<Rightarrow> abort (de_reason d)
          [(''tool_name'', VStr tool), (''argument_name'', VStr name),
           (''overlap_ratio'', VFloat (Fin (round4 (max_overlap_ratio text (ds_outputs s))))),
           (''threshold'', VFloat (Fin (de_max_ratio d)))]
      | None \<Rightarrow> check_arguments round4 d s tool rest)"

definition de_before_tool_call ::
  "(rat \<Rightarrow> rat) \<Rightarrow> Deputy \<Rightarrow> MiddlewareContext \<Rightarrow> DeputyState option \<Rightarrow> MiddlewareDecision" where
  "de_before_tool_call round4 d ctx s =
     (case cx_tool_call ctx of
        None \<Rightarrow> continue_decision [] None
      | Some c \<Rightarrow>
          if cx_tool_is_internal ctx \<or> ds_outputs (de_state s) = [] then continue_decision [] None
          else check_arguments round4 d (de_state s) (tc_tool_name c) (tc_arguments c))"

subsection \<open>Verification command\<close>

record CodingVerification =
  cv_attempts :: nat
  cv_exit_code :: "int option"

definition cv_passed :: "CodingVerification \<Rightarrow> bool" where
  "cv_passed v \<longleftrightarrow> cv_exit_code v = Some 0"

record VerifyCommand =
  vc_command :: string
  vc_max_attempts :: int

text \<open>The part of the run state the hook writes: its own record, and the published result metadata.\<close>

record VerifyState =
  vs_record :: "CodingVerification option"
  vs_published :: dict

definition exit_code_of :: "ToolResult \<Rightarrow> int option" where
  "exit_code_of r = (case map_of (tres_metadata r) ''exit_code'' of Some (VInt n) \<Rightarrow> Some n | _ \<Rightarrow> None)"

text \<open>A Boolean passes the \<open>isinstance\<close> check of the hook, and the record refuses it.\<close>

definition record_attempt :: "ToolResult \<Rightarrow> VerifyState \<Rightarrow> exn + CodingVerification" where
  "record_attempt r s =
     (case map_of (tres_metadata r) ''exit_code'' of
        Some (VBool b) \<Rightarrow> Inl (Exn ''ConfigurationError'' [''VidbyteSdkError'', ''Exception'', ''BaseException'']
          ''CodingVerification last_exit_code must be None or a whole number.'')
      | _ \<Rightarrow> Inr \<lparr>cv_attempts = (case vs_record s of Some v \<Rightarrow> cv_attempts v + 1 | None \<Rightarrow> 1),
                  cv_exit_code = exit_code_of r\<rparr>)"

definition publish :: "CodingVerification \<Rightarrow> dict \<Rightarrow> dict" where
  "publish v base = dict_put ''verify_command''
     (VDict [(''passed'', VBool (cv_passed v)), (''attempts'', VInt (int (cv_attempts v))),
             (''last_exit_code'', case cv_exit_code v of None \<Rightarrow> VNone | Some n \<Rightarrow> VInt n)]) base"

definition vc_feedback :: "VerifyCommand \<Rightarrow> ToolResult \<Rightarrow> string" where
  "vc_feedback c r =
     (let reason = (case exit_code_of r of
            Some n \<Rightarrow> ''exit code '' @ show_int n
          | None \<Rightarrow> if map_of (tres_metadata r) ''error'' = Some (VStr ''timeout'') then ''it timed out''
                    else ''bash could not start it'') in
      ''Not done yet: the verification command `'' @ vc_command c @ ''` failed ('' @ reason
        @ ''). Its output is below. Fix the problem, then finish again.'' @ newline @ newline @ tres_output r)"

text \<open>\<open>r\<close> is the result of running the command with the bash tool.\<close>

definition vc_review_finish ::
  "VerifyCommand \<Rightarrow> ToolResult \<Rightarrow> VerifyState \<Rightarrow> (exn + FinishReview) \<times> VerifyState" where
  "vc_review_finish c r s =
     (case record_attempt r s of
        Inl e \<Rightarrow> (Inl e, s)
      | Inr v \<Rightarrow>
          (Inr (if cv_passed v then Accept
                else if vc_max_attempts c \<le> int (cv_attempts v) then Stop (vc_feedback c r)
                else ContinueWith (vc_feedback c r)),
           \<lparr>vs_record = Some v, vs_published = publish v (vs_published s)\<rparr>))"

definition vc_step :: "VerifyCommand \<Rightarrow> ToolResult \<Rightarrow> VerifyState \<Rightarrow> bool \<times> VerifyState" where
  "vc_step c r s = (case vc_review_finish c r s of (d, t) \<Rightarrow> (d = Inr (ContinueWith (vc_feedback c r)), t))"

definition vc_attempts :: "VerifyState \<Rightarrow> nat" where
  "vc_attempts s = (case vs_record s of None \<Rightarrow> 0 | Some v \<Rightarrow> cv_attempts v)"

interpretation verify_attempts: call_budget "vc_step c" vc_attempts "nat (vc_max_attempts c) - 1" for c
  by unfold_locales
    (auto simp: vc_step_def vc_review_finish_def vc_attempts_def record_attempt_def
      split: if_splits option.splits pyval.splits sum.splits)

subsection \<open>Audit log\<close>

definition audit_emit ::
  "string \<Rightarrow> MiddlewareHook list option \<Rightarrow> MiddlewareHook \<Rightarrow> MiddlewareContext \<Rightarrow> MiddlewareEvent list
   \<Rightarrow> MiddlewareDecision \<times> MiddlewareEvent list" where
  "audit_emit name hooks hook ctx sink =
     (if (case hooks of None \<Rightarrow> False | Some hs \<Rightarrow> \<not> List.member hs hook) then (continue_decision [] None, sink)
      else (continue_decision [] None,
        sink @ [\<lparr>me_name = name, me_hook = hook, me_action = CONTINUE, me_reason = None, me_metadata =
          [(''agent_name'', VStr (cx_agent_name ctx)), (''iteration_count'', VInt (cx_iteration_count ctx)),
           (''model_call_count'', VInt (cx_model_call_count ctx)), (''tool_call_count'', VInt (cx_tool_call_count ctx)),
           (''tokens_used'', case cx_tokens_used ctx of None \<Rightarrow> VNone | Some n \<Rightarrow> VInt n),
           (''tool_name'', case cx_tool_call ctx of None \<Rightarrow> VNone | Some c \<Rightarrow> VStr (tc_tool_name c)),
           (''tool_is_internal'', VBool (cx_tool_is_internal ctx)),
           (''error_type'', case cx_error ctx of None \<Rightarrow> VNone | Some e \<Rightarrow> VStr (exn_type e))]\<rparr>]))"

subsection \<open>Lemmas\<close>

text \<open>The last calls of the whole history are equal exactly when those in the window are.\<close>

lemma rev_push_bounded: "rev (push_bounded n x xs) = take n (x # rev xs)"
proof (cases "n \<le> Suc (length xs)")
  case True
  then have "Suc (length xs) - (Suc (length xs) - n) = n" by simp
  then show ?thesis
    by (simp only: push_bounded_def rev_drop rev_append length_append_singleton rev.simps append_Nil append_Cons)
qed (simp add: push_bounded_def)

lemma takeWhile_take: "takeWhile P (take n xs) = take n (takeWhile P xs)"
proof (induction xs arbitrary: n)
  case (Cons x xs)
  then show ?case by (cases n) auto
qed simp

definition tail_count :: "'a list \<Rightarrow> nat" where
  "tail_count ks = (if ks = [] then 0 else length (takeWhile (\<lambda>x. x = last ks) (rev ks)))"

definition bounded_history :: "nat \<Rightarrow> 'a list \<Rightarrow> 'a list" where
  "bounded_history n ks = foldl (\<lambda>h k. push_bounded n k h) [] ks"

lemma bounded_history: "bounded_history n ks = rev (take n (rev ks))"
proof (induction ks rule: rev_induct)
  case Nil
  then show ?case by (simp add: bounded_history_def)
next
  case (snoc k ks)
  have "rev (bounded_history n (ks @ [k])) = take n (k # rev (rev (take n (rev ks))))"
    using snoc by (simp add: bounded_history_def rev_push_bounded)
  also have "\<dots> = take n (k # rev ks)" by (cases n) simp_all
  finally show ?case by (metis rev_append rev_rev_ident rev_singleton_conv append_Cons append_Nil)
qed

lemma window_tail: "0 < n \<Longrightarrow> count_consecutive_tail k (bounded_history n (ks @ [k])) = min n (tail_count (ks @ [k]))"
  by (simp add: count_consecutive_tail_def bounded_history takeWhile_take tail_count_def)

text \<open>Binary search over a property that is closed downwards.\<close>

lemma search_length_correct:
  "(\<And>m n. found n \<Longrightarrow> m \<le> n \<Longrightarrow> found m) \<Longrightarrow> found best \<Longrightarrow> low = best + 1 \<or> (low = 0 \<and> best = 0) \<Longrightarrow>
   (\<And>n. found n \<Longrightarrow> n \<le> high) \<Longrightarrow>
   found (search_length found low high best) \<and> (\<forall>n. found n \<longrightarrow> n \<le> search_length found low high best)"
proof (induction found low high best rule: search_length.induct)
  case (1 found low high best)
  note down = "1.prems"(1) and best = "1.prems"(2) and low = "1.prems"(3) and high = "1.prems"(4)
  define mid where "mid = (low + high) div 2"
  show ?case
  proof (cases "low \<le> high")
    case False
    then have "search_length found low high best = best" by (simp add: search_length.simps)
    moreover have "n \<le> best" if "found n" for n using high [OF that] low False by auto
    ultimately show ?thesis using best by simp
  next
    case True
    have step: "search_length found low high best =
       (if mid = 0 then search_length found (mid + 1) high best
        else if found mid then search_length found (mid + 1) high mid
        else search_length found low (mid - 1) best)"
      by (subst search_length.simps) (simp add: True mid_def Let_def)
    consider "mid = 0" | "mid \<noteq> 0" "found mid" | "mid \<noteq> 0" "\<not> found mid" by blast
    then show ?thesis
    proof cases
      case 1
      then have "low = 0" using True by (simp add: mid_def)
      have "found (search_length found (mid + 1) high best) \<and>
          (\<forall>n. found n \<longrightarrow> n \<le> search_length found (mid + 1) high best)"
        using "1.IH"(1) [OF True mid_def] \<open>low = 0\<close> 1 down best low high by simp
      then show ?thesis by (simp only: step 1 refl if_True) blast
    next
      case 2
      then show ?thesis using "1.IH"(2) [OF True mid_def] down high
        by (simp add: step)
    next
      case 3
      have "n \<le> mid - 1" if "found n" for n using down [OF that, of mid] 3 by fastforce
      then show ?thesis using "1.IH"(3) [OF True mid_def] 3 down best low
        by (simp add: step)
    qed
  qed
qed

definition common_substring :: "string \<Rightarrow> string \<Rightarrow> string \<Rightarrow> bool" where
  "common_substring a b s \<longleftrightarrow> sublist s a \<and> sublist s b"

lemma has_common_iff:
  "has_common a b n \<longleftrightarrow> (\<exists>s. length s = n \<and> common_substring a b s)"
proof
  assume "has_common a b n"
  then obtain k where "k < length a + 1 - n" "sublist (take n (drop k a)) b"
    by (auto simp: has_common_def list_ex_iff contains_sublist)
  then have k: "k + n \<le> length a" "sublist (take n (drop k a)) b" by simp_all
  then have "sublist (take n (drop k a)) a" "length (take n (drop k a)) = n"
    by (auto intro: sublist_order.order_trans [OF sublist_take sublist_drop])
  with k show "\<exists>s. length s = n \<and> common_substring a b s" unfolding common_substring_def by blast
next
  assume "\<exists>s. length s = n \<and> common_substring a b s"
  then obtain s where "length s = n" "sublist s a" "sublist s b" by (auto simp: common_substring_def)
  then obtain u v where "a = u @ s @ v" by (auto simp: sublist_def)
  then have "take n (drop (length u) a) = s" "length u < length a + 1 - n"
    using \<open>length s = n\<close> by auto
  then show "has_common a b n"
    using \<open>sublist s b\<close> by (force simp: has_common_def list_ex_iff contains_sublist)
qed

lemma common_substring_length: "common_substring a b s \<Longrightarrow> length s \<le> length a"
  by (simp add: common_substring_def sublist_length_le)

lemma common_substring_shorter:
  "common_substring a b s \<Longrightarrow> n \<le> length s \<Longrightarrow> \<exists>t. length t = n \<and> common_substring a b t"
  by (rule exI [of _ "take n s"])
    (auto simp: common_substring_def intro: sublist_order.order_trans [OF sublist_take])

lemma longest_common_substring:
  "(\<exists>s. common_substring a b s \<and> length s = longest_common_substring_length a b) \<and>
   (\<forall>s. common_substring a b s \<longrightarrow> length s \<le> longest_common_substring_length a b)"
proof (cases "a = [] \<or> b = []")
  case True
  then show ?thesis
    by (auto simp: longest_common_substring_length_def common_substring_def intro: exI [of _ "[]"])
next
  case False
  have "has_common a b (search_length (has_common a b) 0 (length a) 0) \<and>
    (\<forall>n. has_common a b n \<longrightarrow> n \<le> search_length (has_common a b) 0 (length a) 0)"
  proof (rule search_length_correct)
    show "has_common a b m" if "has_common a b n" "m \<le> n" for m n
      using that common_substring_shorter unfolding has_common_iff by blast
    show "has_common a b 0" by (simp add: has_common_iff common_substring_def)
    show "n \<le> length a" if "has_common a b n" for n
      using that common_substring_length unfolding has_common_iff by blast
  qed simp
  then show ?thesis
    using False by (simp add: longest_common_substring_length_def has_common_iff) blast
qed

lemma overlap_ratio_nonneg: "0 \<le> overlap_ratio a b"
  by (simp add: overlap_ratio_def)

text \<open>The queue visits the strings of a value in some order, each as often as the value holds it.\<close>

fun strings_of :: "pyval \<Rightarrow> string list" where
  "strings_of (VStr s) = [s]"
| "strings_of (VDict d) = concat (map (strings_of \<circ> snd) d)"
| "strings_of (VList xs) = concat (map strings_of xs)"
| "strings_of _ = []"

lemma pending_leaves_mset: "mset (pending_leaves q) = mset (concat (map strings_of q))"
proof (induction q rule: pending_leaves.induct)
  case 1
  then show ?case by simp
next
  case (2 item pending)
  then show ?case by (cases item) (simp_all add: ac_simps)
qed

text \<open>Output counts: the calls of a run, each with the keys of its outputs, retries included.\<close>

definition count_call :: "nat \<times> string list \<Rightarrow> LoopState \<Rightarrow> LoopState" where
  "count_call c s = foldl (\<lambda>s k. snd (count_output (Some (fst c)) k s)) (s\<lparr>ls_counted := None\<rparr>) (snd c)"

definition count_calls :: "(nat \<times> string list) list \<Rightarrow> LoopState \<Rightarrow> LoopState" where
  "count_calls cs s = foldl (\<lambda>s c. count_call c s) s cs"

lemma count_of_put [simp]: "count_of (dict_put k n d) key = (if key = k then n else count_of d key)"
  by (simp add: count_of_def)

lemma count_call_counts:
  "ks \<noteq> [] \<Longrightarrow> count_of (ls_counts (count_call (i, ks) s)) key =
     count_of (ls_counts s) key + (if last ks = key then 1 else 0) \<and>
   ls_counted (count_call (i, ks) s) = Some (i, last ks)"
proof (induction ks rule: rev_induct)
  case (snoc k ks)
  then show ?case
    by (cases "ks = []") (auto simp: count_call_def count_output_def Let_def)
qed simp

lemma count_calls_counts:
  "\<forall>c \<in> set cs. snd c \<noteq> [] \<Longrightarrow>
   count_of (ls_counts (count_calls cs s)) key =
     count_of (ls_counts s) key + int (length (filter (\<lambda>c. last (snd c) = key) cs))"
proof (induction cs rule: rev_induct)
  case (snoc c cs)
  then show ?case
    by (cases c) (auto simp: count_calls_def count_call_counts)
qed (simp add: count_calls_def)

lemma max_overlap_ratio_less:
  "0 \<le> r \<Longrightarrow> arg \<noteq> [] \<Longrightarrow>
   r < max_overlap_ratio arg outputs \<longleftrightarrow> (\<exists>t \<in> set outputs. r < overlap_ratio arg t)"
  unfolding max_overlap_ratio_def
  by (induction outputs rule: rev_induct) (auto simp: less_max_iff_disj)

lemma check_arguments_aborts:
  "md_action (check_arguments round4 d s tool args) = ABORT_RUN \<longleftrightarrow>
     (\<exists>(name, v) \<in> set args. \<exists>text \<in> set (strings_of v). deputised d s text)"
proof -
  have leaves: "set (string_leaves v) = set (strings_of v)" for v
    using arg_cong [OF pending_leaves_mset [of "[v]"], of set_mset] by (simp add: string_leaves_def)
  show ?thesis
  proof (induction args)
    case Nil
    then show ?case by (simp add: continue_decision_def)
  next
    case (Cons a args)
    obtain name v where a: "a = (name, v)" by (cases a)
    show ?case
    proof (cases "find (deputised d s) (string_leaves v)")
      case None
      then have "\<not> (\<exists>text \<in> set (strings_of v). deputised d s text)" by (auto simp: find_None_iff leaves)
      then show ?thesis using Cons.IH None by (simp add: a)
    next
      case (Some t)
      then have "t \<in> set (strings_of v)" "deputised d s t" by (auto simp: leaves [symmetric] find_Some_iff)
      then show ?thesis using Some by (force simp: a abort_def)
    qed
  qed
qed

lemma overlap_less: "text \<noteq> [] \<Longrightarrow> overlap_ratio text a < overlap_ratio text b \<longleftrightarrow>
    longest_common_substring_length text a < longest_common_substring_length text b"
  by (simp add: overlap_ratio_def divide_less_cancel)

lemma deputised_iff:
  assumes "mk_Deputy ratio minimum reason = Inr d"
  shows "deputised d s text \<longleftrightarrow> de_min_length d \<le> length text \<and> (\<exists>output \<in> set (ds_outputs s).
     de_max_ratio d * of_nat (length text) < of_nat (longest_common_substring_length text output) \<and>
     longest_common_substring_length text (ds_message s) < longest_common_substring_length text output)"
proof (cases "de_min_length d \<le> length text")
  case True
  have d: "0 < de_max_ratio d" "0 < de_min_length d"
    using assms by (auto simp: mk_Deputy_def split: if_splits)
  with True have "text \<noteq> []" by auto
  let ?m = "max (de_max_ratio d) (overlap_ratio text (ds_message s))"
  have "deputised d s text \<longleftrightarrow> ?m < max_overlap_ratio text (ds_outputs s)"
    using True by (simp add: deputised_def)
  also have "\<dots> \<longleftrightarrow> (\<exists>t \<in> set (ds_outputs s). ?m < overlap_ratio text t)"
    using d \<open>text \<noteq> []\<close> by (intro max_overlap_ratio_less) auto
  also have "\<dots> \<longleftrightarrow> (\<exists>t \<in> set (ds_outputs s). de_max_ratio d < overlap_ratio text t \<and>
      longest_common_substring_length text (ds_message s) < longest_common_substring_length text t)"
    using \<open>text \<noteq> []\<close> by (simp add: overlap_less)
  finally show ?thesis
    using True \<open>text \<noteq> []\<close> by (simp add: overlap_ratio_def pos_less_divide_eq)
qed (simp add: deputised_def)

definition ld_run ::
  "(string \<Rightarrow> string) \<Rightarrow> (dict \<Rightarrow> string) \<Rightarrow> LoopDetection \<Rightarrow> MiddlewareContext \<Rightarrow> ToolCall list \<Rightarrow> LoopState option" where
  "ld_run digest dumps d ctx calls =
     foldl (\<lambda>s c. snd (ld_before_tool_call digest dumps d (ctx\<lparr>cx_tool_call := Some c\<rparr>) s)) (Some loop_fresh) calls"

definition key_of :: "(string \<Rightarrow> string) \<Rightarrow> (dict \<Rightarrow> string) \<Rightarrow> ToolCall \<Rightarrow> string" where
  "key_of digest dumps c = make_key digest dumps (tc_tool_name c) (tc_arguments c)"

lemma ld_run_history:
  "\<not> (ld_skip_internal d \<and> cx_tool_is_internal ctx) \<Longrightarrow>
   \<exists>s. ld_run digest dumps d ctx calls = Some s \<and> ls_counts s = [] \<and>
     ls_history s = bounded_history (ld_window d) (map (key_of digest dumps) calls)"
proof (induction calls rule: rev_induct)
  case Nil
  then show ?case by (simp add: ld_run_def loop_fresh_def bounded_history_def)
next
  case (snoc c calls)
  then obtain s where "ld_run digest dumps d ctx calls = Some s" "ls_counts s = []"
     "ls_history s = bounded_history (ld_window d) (map (key_of digest dumps) calls)" by blast
  then show ?case using snoc.prems
    by (auto simp: ld_run_def ld_before_tool_call_def Let_def bounded_history_def key_of_def [symmetric])
qed

lemma mk_LoopDetection_ok:
  "mk_LoopDetection calls window skip soft hard = Inr d \<Longrightarrow>
   2 \<le> ld_max_calls d \<and> ld_max_calls d \<le> ld_window d \<and> ld_soft d = soft \<and> ld_hard d = hard \<and> ld_skip_internal d = skip"
  by (auto simp: mk_LoopDetection_def split: if_splits)

text \<open>The ledger after further tool results, each with its draws.\<close>

definition canaries_after :: "Canary \<Rightarrow> (rat \<times> nat list \<times> MiddlewareContext) list \<Rightarrow> ledger \<Rightarrow> ledger" where
  "canaries_after c later l = foldl (\<lambda>l (draw, bytes, ctx). snd (ca_after_tool_call c draw bytes ctx l)) l later"

lemma canaries_kept: "fst ` set l \<subseteq> fst ` set (canaries_after c later l)"
proof (induction later rule: rev_induct)
  case Nil
  then show ?case by (simp add: canaries_after_def)
next
  case (snoc e later)
  have "fst ` set l \<subseteq> fst ` set (snd (ca_after_tool_call c draw bytes ctx l))" for l draw bytes ctx
    by (auto simp: ca_after_tool_call_def Let_def split: option.splits)
  with snoc show ?case by (cases e) (force simp: canaries_after_def)
qed

subsection \<open>Properties\<close>


definition demo_tool_call :: "string \<Rightarrow> ToolCall" where
  "demo_tool_call name = \<lparr>tc_tool_name = name, tc_arguments = [], tc_call_id = None, tc_metadata = [], tc_activity = None\<rparr>"


text \<open>A repeated output is counted once for each call of the model, however often the runtime
  retried the call: a first output aborts exactly when it brings the number of calls that ended
  with the same output to the hard limit.\<close>

theorem hidden_retries_count_once:
  assumes "\<forall>c \<in> set cs. snd c \<noteq> [] \<and> fst c \<noteq> i" and "ld_hard d = Some h"
    and "\<not> (ld_skip_internal d \<and> cx_tool_is_internal ctx)"
    and "cx_tool_call ctx = Some c" and "cx_tool_result ctx = Some r"
  shows "md_action (fst (ld_after_tool_call digest notice d ctx i (Some (count_calls cs loop_fresh)))) = ABORT_RUN \<longleftrightarrow>
    h \<le> int (length (filter (\<lambda>c. last (snd c) = make_output_key digest (tres_tool_name r) (tres_output r)) cs)) + 1"
proof -
  let ?key = "make_output_key digest (tres_tool_name r) (tres_output r)"
  let ?s = "count_calls cs loop_fresh"
  have other: "case ls_counted ?s of Some (j, k) \<Rightarrow> i \<noteq> j | None \<Rightarrow> True"
  proof (cases cs rule: rev_cases)
    case Nil
    then show ?thesis by (simp add: count_calls_def loop_fresh_def)
  next
    case (snoc cs' c)
    then show ?thesis using assms(1) count_call_counts [of "snd c" "fst c"] by (simp add: count_calls_def)
  qed
  have n: "fst (count_output (Some i) ?key ?s) =
      int (length (filter (\<lambda>c. last (snd c) = ?key) cs)) + 1"
    using other count_calls_counts [of cs loop_fresh ?key] assms(1)
    by (auto simp: count_output_def Let_def loop_fresh_def count_of_def split: option.splits)
  obtain m t where mt: "count_output (Some i) ?key ?s = (m, t)" by fastforce
  show ?thesis
    using assms(2-) n mt
    by (simp add: ld_after_tool_call_def Let_def reached_int_def abort_def continue_decision_def)
qed

lemma retries_count_witness:
  "md_action (fst (ld_after_tool_call (\<lambda>s. s) [] \<lparr>ld_max_calls = 2, ld_window = 3, ld_skip_internal = True,
      ld_soft = None, ld_hard = Some 2\<rparr>
     (demo_mw_context\<lparr>cx_tool_call := Some (demo_tool_call ''a''), cx_tool_result :=
        Some \<lparr>tres_tool_name = ''a'', tres_status = SUCCESS, tres_output = ''x'', tres_metadata = []\<rparr>\<rparr>) 2
     (Some (count_calls [(0, [''a:x'', ''a:y'']), (1, [''a:x''])] loop_fresh)))) = ABORT_RUN"
  using hidden_retries_count_once [of "[(0, [''a:x'', ''a:y'']), (1, [''a:x''])]" 2
      "\<lparr>ld_max_calls = 2, ld_window = 3, ld_skip_internal = True, ld_soft = None, ld_hard = Some 2\<rparr>" 2
      "demo_mw_context\<lparr>cx_tool_call := Some (demo_tool_call ''a''), cx_tool_result :=
        Some \<lparr>tres_tool_name = ''a'', tres_status = SUCCESS, tres_output = ''x'', tres_metadata = []\<rparr>\<rparr>"
      "demo_tool_call ''a''" "\<lparr>tres_tool_name = ''a'', tres_status = SUCCESS, tres_output = ''x'', tres_metadata = []\<rparr>"
      "\<lambda>s. s" "[]"]
  by (simp add: demo_mw_context_def make_output_key_def)

text \<open>C26: the binary search of the confused deputy guard computes the length of a longest common substring.\<close>

theorem binary_search_finds_longest_common_substring:
  "(\<exists>s. sublist s needle \<and> sublist s haystack \<and> length s = longest_common_substring_length needle haystack) \<and>
   (\<forall>s. sublist s needle \<longrightarrow> sublist s haystack \<longrightarrow> length s \<le> longest_common_substring_length needle haystack)"
  using longest_common_substring [of needle haystack] by (auto simp: common_substring_def)

lemma longest_common_substring_witness:
  "sublist ''bc'' ''abcd'' \<and> sublist ''bc'' ''xbcy'' \<and> 2 \<le> longest_common_substring_length ''abcd'' ''xbcy''"
proof -
  have "sublist ''bc'' ''abcd''" "sublist ''bc'' ''xbcy''" by (simp_all add: contains_sublist [symmetric] contains_def)
  with binary_search_finds_longest_common_substring [of "''abcd''" "''xbcy''"] show ?thesis by force
qed

text \<open>The guard aborts a developer tool call exactly when some string anywhere inside its arguments
  is long enough, shares with one tool output a run of more than the allowed share of its length, and
  shares a shorter one with the message of the user.\<close>

theorem deputy_guard_aborts_exactly:
  assumes "mk_Deputy ratio minimum reason = Inr d" and "cx_tool_call ctx = Some c"
  shows "md_action (de_before_tool_call round4 d ctx (Some s)) = ABORT_RUN \<longleftrightarrow>
    \<not> cx_tool_is_internal ctx \<and>
    (\<exists>(name, v) \<in> set (tc_arguments c). \<exists>text \<in> set (strings_of v). \<exists>output \<in> set (ds_outputs s).
       minimum \<le> int (length text) \<and>
       ratio * of_nat (length text) < of_nat (longest_common_substring_length text output) \<and>
       longest_common_substring_length text (ds_message s) < longest_common_substring_length text output)"
proof -
  have d: "de_max_ratio d = ratio" "int (de_min_length d) = minimum"
    using assms(1) by (auto simp: mk_Deputy_def split: if_splits)
  then have "de_min_length d \<le> length x \<longleftrightarrow> minimum \<le> int (length x)" for x :: string by linarith
  then show ?thesis using assms(2) d
    by (auto simp: de_before_tool_call_def de_state_def check_arguments_aborts deputised_iff [OF assms(1)]
        continue_decision_def)
qed

lemma deputy_witness:
  "md_action (de_before_tool_call (\<lambda>r. r) \<lparr>de_max_ratio = 1 / 2, de_min_length = 2, de_reason = ''x''\<rparr>
     (demo_mw_context\<lparr>cx_tool_call := Some \<lparr>tc_tool_name = ''send'', tc_arguments = [(''body'', VList [VStr ''abc''])],
        tc_call_id = None, tc_metadata = [], tc_activity = None\<rparr>\<rparr>) (Some \<lparr>ds_message = ''hello'', ds_outputs = [''zabc'']\<rparr>)) = ABORT_RUN"
proof -
  have "common_substring ''abc'' ''zabc'' ''abc''"
    by (simp add: common_substring_def contains_sublist [symmetric] contains_def)
  then have "length ''abc'' \<le> longest_common_substring_length ''abc'' ''zabc''"
    using longest_common_substring by blast
  moreover have "longest_common_substring_length ''abc'' ''hello'' = 0"
    by code_simp
  ultimately show ?thesis
    using deputy_guard_aborts_exactly [of "1 / 2" 2 "''x''" "\<lparr>de_max_ratio = 1 / 2, de_min_length = 2, de_reason = ''x''\<rparr>"
      "demo_mw_context\<lparr>cx_tool_call := Some \<lparr>tc_tool_name = ''send'', tc_arguments = [(''body'', VList [VStr ''abc''])],
        tc_call_id = None, tc_metadata = [], tc_activity = None\<rparr>\<rparr>" "\<lparr>tc_tool_name = ''send'', tc_arguments = [(''body'', VList [VStr ''abc''])],
        tc_call_id = None, tc_metadata = [], tc_activity = None\<rparr>" "\<lambda>r. r" "\<lparr>ds_message = ''hello'', ds_outputs = [''zabc'']\<rparr>"]
    by (simp add: mk_Deputy_def demo_mw_context_def)
qed

text \<open>C27: a canary shown to the model is caught whenever it comes back: after any further tool results, a
  model response or the arguments of a tool call that contain it abort the run.\<close>

theorem leaked_canary_aborts:
  assumes "cx_tool_result ctx = Some r" and "\<not> cx_tool_is_internal ctx" and "draw < ca_probability c"
    and "bytes \<noteq> []" and "canary = generate_canary c bytes"
  shows "\<exists>d l'. ca_after_tool_call c draw bytes ctx l = (continue_decision [] (Some d), l') \<and>
    tf_tool_result d = Some (with_canary r canary) \<and>
    (let l'' = canaries_after c later l' in
     (sublist canary (extract_model_text (cx_model_response ctx')) \<longrightarrow>
        md_action (ca_after_model_response c ctx' l'') = ABORT_RUN) \<and>
     (\<forall>call. cx_tool_call ctx' = Some call \<longrightarrow> sublist canary (dumps (tc_arguments call)) \<longrightarrow>
        md_action (ca_before_tool_call dumps c ctx' l'') = ABORT_RUN))"
proof -
  obtain tool where hit: "ca_after_tool_call c draw bytes ctx l = (continue_decision [] (Some
     \<lparr>tf_tool_result = Some (with_canary r canary), tf_messages = None, tf_system = None, tf_metadata = []\<rparr>),
     dict_put canary tool l)"
    using assms by (simp add: ca_after_tool_call_def Let_def)
  have "canary \<in> fst ` set (canaries_after c later (dict_put canary tool l))"
    using canaries_kept [of "dict_put canary tool l" c later] by auto
  moreover from this have "canaries_after c later (dict_put canary tool l) \<noteq> []" by auto
  moreover have "canary \<noteq> []" using assms(4,5) by (cases bytes) (auto simp: generate_canary_def)
  ultimately show ?thesis
    by (auto simp: hit ca_after_model_response_def ca_before_tool_call_def Let_def scan_aborts)
qed

lemma canary_witness:
  "\<exists>l'. md_action (ca_after_model_response \<lparr>ca_prefix = ''C-'', ca_probability = 1, ca_reason = ''leak''\<rparr>
     (demo_mw_context\<lparr>cx_model_response := Some (Some ''see C-0a'', [])\<rparr>) l') = ABORT_RUN"
proof -
  let ?c = "\<lparr>ca_prefix = ''C-'', ca_probability = 1, ca_reason = ''leak''\<rparr>"
  let ?r = "\<lparr>tres_tool_name = ''search'', tres_status = SUCCESS, tres_output = ''x'', tres_metadata = []\<rparr>"
  have canary: "''C-0a'' = generate_canary ?c [10]"
    by (simp add: generate_canary_def hex_digit_def char_of_def bit_iff_odd)
  have seen: "sublist ''C-0a'' ''see C-0a''" by (simp add: contains_sublist [symmetric] contains_def)
  show ?thesis
    using leaked_canary_aborts [of "demo_mw_context\<lparr>cx_tool_result := Some ?r\<rparr>" ?r 0 ?c "[10]" "''C-0a''" "[]" "[]"
      "demo_mw_context\<lparr>cx_model_response := Some (Some ''see C-0a'', [])\<rparr>"] canary seen
    by (auto simp: demo_mw_context_def extract_model_text_def Let_def)
qed

text \<open>The verification command sends the model back to work at most \<open>max_attempts - 1\<close> times.\<close>

theorem verification_attempts_bounded:
  "grants (vc_step c) results s \<le> nat (vc_max_attempts c) - 1 - vc_attempts s"
  by (rule verify_attempts.grants_fit)

end
