(* ===== verification/SE_Codec.thy ===== *)
theory SE_Codec
  imports MW_Core "HOL-Library.Sublist"
begin

text \<open>
  The records of durable sessions (\<^verbatim>\<open>vidbyte/lib/dataclasses/sessions.py\<close>), the policy that decides which keys
  name a credential (\<^verbatim>\<open>lib/util/credential_keys.py\<close>) and the codec of
  \<^verbatim>\<open>sessions/serialization.py\<close>, which drops such keys.  A payload is a JSON value of the
  model.  Python does not check the JSON types of the fields it reads; a payload with a field of
  another type than the dataclass declares is answered by \<open>Untyped\<close>, which no code raises.
\<close>

subsection \<open>Records\<close>

datatype SessionStatus = ACTIVE | COMPLETED | INTERRUPTED | FAILED_SESSION

fun session_status_value :: "SessionStatus \<Rightarrow> string" where
  "session_status_value ACTIVE = ''active''"
| "session_status_value COMPLETED = ''completed''"
| "session_status_value INTERRUPTED = ''interrupted''"
| "session_status_value FAILED_SESSION = ''failed''"

record RunState =
  rs_schema :: int
  rs_agent_name :: string
  rs_system_prompt :: string
  rs_description :: string
  rs_capabilities :: "string list"
  rs_provider :: "string option"
  rs_model_name :: "string option"
  rs_temperature :: "rat option"
  rs_runtime_type :: string
  rs_runtime_config :: dict
  rs_algorithm :: string
  rs_metadata :: dict
  rs_agent_metadata :: dict
  rs_tool_names :: "string list"
  rs_history :: "dict list"
  rs_run_id :: "string option"
  rs_loop_settings :: dict
  rs_aggregate_plan :: dict
  rs_context_summary :: dict
  rs_trace_option :: dict
  rs_output_schema :: "dict option"
  rs_permission_policy :: "string list option"
  rs_presets :: "string list option"

record Checkpoint =
  ck_id :: string
  ck_session :: string
  ck_parent :: "string option"
  ck_seq :: int
  ck_created :: string
  ck_state :: RunState
  ck_label :: string
  ck_status :: SessionStatus
  ck_artifact :: "dict option"
  ck_summary :: "dict option"
  ck_events :: "dict list option"

record SessionMeta =
  sm_id :: string
  sm_head :: "string option"
  sm_parent :: "string option"
  sm_agent :: string
  sm_status :: SessionStatus
  sm_created :: string
  sm_updated :: string
  sm_tags :: "string list"

text \<open>A message between agents, without the result data of the Codex agents, which the codec leaves out.\<close>

record AgentMessage =
  am_sender :: string
  am_recipient :: string
  am_content :: string
  am_type :: string
  am_metadata :: dict
  am_structured :: pyval

definition session_error :: "string \<Rightarrow> string \<Rightarrow> exn" where
  "session_error kind msg = Exn kind [''SessionError'', ''VidbyteSdkError'', ''Exception'', ''BaseException''] msg"

definition Untyped :: exn where
  "Untyped = Exn ''Untyped'' [] ''''"

subsection \<open>Credential keys\<close>

text \<open>
  \<^verbatim>\<open>str.upper\<close> and \<^verbatim>\<open>str.lower\<close> on the characters of the model; two of them
  (181 and 255) have an upper case beyond the model and are left as they are.
\<close>

definition upper_char :: "char \<Rightarrow> string" where
  "upper_char c = (let n = of_char c :: nat in
     if n = 223 then ''SS''
     else if (97 \<le> n \<and> n \<le> 122) \<or> (224 \<le> n \<and> n \<le> 254 \<and> n \<noteq> 247) then [char_of (n - 32)] else [c])"

definition upper :: "string \<Rightarrow> string" where
  "upper s = concat (map upper_char s)"

definition ascii_lower_of :: "char \<Rightarrow> char" where
  "ascii_lower_of c = (if ascii_upper c then char_of ((of_char c :: nat) + 32) else c)"

definition contains_text :: "string \<Rightarrow> string \<Rightarrow> bool" where
  "contains_text sub s = list_ex (\<lambda>k. take (length sub) (drop k s) = sub) [0..<Suc (length s)]"

definition ends_with :: "string \<Rightarrow> string \<Rightarrow> bool" where
  "ends_with s t \<longleftrightarrow> length t \<le> length s \<and> drop (length s - length t) s = t"

text \<open>
  The two substitutions that split words.  The first puts an underscore before the last letter of a run of
  capitals that a small letter follows, the second between a small letter or digit and a capital.
\<close>

fun split_acronyms :: "string \<Rightarrow> string" where
  "split_acronyms (a # b # c # s) =
     (if ascii_upper a \<and> ascii_upper b \<and> ascii_lower c
      then a # CHR ''_'' # split_acronyms (b # c # s) else a # split_acronyms (b # c # s))"
| "split_acronyms s = s"

fun split_camel :: "string \<Rightarrow> string" where
  "split_camel (a # b # s) =
     (if (ascii_lower a \<or> ascii_digit a) \<and> ascii_upper b
      then a # CHR ''_'' # split_camel (b # s) else a # split_camel (b # s))"
| "split_camel s = s"

text \<open>Runs of other characters become one underscore; \<open>pending\<close> tells that one is due.\<close>

fun collapse :: "bool \<Rightarrow> string \<Rightarrow> string" where
  "collapse pending [] = (if pending then [CHR ''_''] else [])"
| "collapse pending (c # s) =
     (if ascii_lower c \<or> ascii_digit c
      then (if pending then CHR ''_'' # c # collapse False s else c # collapse False s)
      else collapse True s)"

definition strip_underscores :: "string \<Rightarrow> string" where
  "strip_underscores s = rev (dropWhile (\<lambda>c. c = CHR ''_'') (rev (dropWhile (\<lambda>c. c = CHR ''_'') s)))"

definition secret_keys :: "string list" where
  "secret_keys = [''api_key'', ''api_keys'', ''apikey'', ''provider_key'', ''access_token'', ''refresh_token'',
     ''token'', ''secret'', ''client_secret'', ''private_key'', ''secret_key'', ''access_key'', ''access_key_id'',
     ''session_token'', ''bearer_token'', ''password'', ''credential'', ''credentials'', ''authorization'', ''auth'']"

definition secret_suffixes :: "string list" where
  "secret_suffixes = [''_api_key'', ''_api_keys'', ''_provider_key'', ''_private_key'', ''_secret_key'',
     ''_access_key'', ''_access_key_id'', ''_token'', ''_secret'', ''_password'']"

definition normalized_key :: "string \<Rightarrow> string" where
  "normalized_key key = strip_underscores (collapse False (map ascii_lower_of (split_camel (split_acronyms key))))"

definition precise_secret_key :: "string \<Rightarrow> bool" where
  "precise_secret_key key \<longleftrightarrow> List.member secret_keys (normalized_key key) \<or>
     list_ex (ends_with (normalized_key key)) secret_suffixes"

definition kept_keys :: "string list" where
  "kept_keys = [''TRACE'', ''TRACE_METADATA'', ''TOKENS_USED'', ''TOOL_CALL_COUNT'', ''MAX_TOKENS'',
     ''COMPACTION_TRIGGER_TOKENS'', ''COMPACTION_TARGET_TOKENS'', ''COST_PER_MILLION_TOKENS'']"

definition secret_tokens :: "string list" where
  "secret_tokens = [''API_KEY'', ''TOKEN'', ''SECRET'', ''PASSWORD'', ''CREDENTIAL'', ''AUTH'']"

definition loose_secret_key :: "string \<Rightarrow> bool" where
  "loose_secret_key key \<longleftrightarrow> \<not> List.member kept_keys (upper key) \<and>
     list_ex (\<lambda>t. contains_text t (upper key)) secret_tokens"

subsection \<open>JSON-safe values\<close>

text \<open>
  \<open>secret\<close> tells which keys are dropped: none, those of the loose filter, or those of the policy.
  A leaf that is no JSON value is marked; \<open>dump\<close> gives the JSON data of a pydantic model, which is
  filtered in turn.
\<close>

definition dropped :: "string \<Rightarrow> pyval" where
  "dropped name = VDict [(''__dropped__'', VStr name)]"

fun safe_data :: "(string \<Rightarrow> bool) \<Rightarrow> pyval \<Rightarrow> pyval" where
  "safe_data secret (VDict d) =
     VDict (map (\<lambda>(k, v). (k, safe_data secret v)) (filter (\<lambda>(k, v). \<not> secret k) d))"
| "safe_data secret (VList xs) = VList (map (safe_data secret) xs)"
| "safe_data secret (VType n bases) = dropped ''type''"
| "safe_data secret (VObj n) = dropped n"
| "safe_data secret v = v"

fun safe :: "(string \<Rightarrow> pyval option) \<Rightarrow> (string \<Rightarrow> bool) \<Rightarrow> pyval \<Rightarrow> pyval" where
  "safe dump secret (VDict d) =
     VDict (map (\<lambda>(k, v). (k, safe dump secret v)) (filter (\<lambda>(k, v). \<not> secret k) d))"
| "safe dump secret (VList xs) = VList (map (safe dump secret) xs)"
| "safe dump secret (VType n bases) = dropped ''type''"
| "safe dump secret (VObj n) = (case dump n of Some data \<Rightarrow> safe_data secret data | None \<Rightarrow> dropped n)"
| "safe dump secret v = v"

definition keep_all :: "string \<Rightarrow> bool" where
  "keep_all key \<longleftrightarrow> False"

definition safe_dict :: "(string \<Rightarrow> pyval option) \<Rightarrow> (string \<Rightarrow> bool) \<Rightarrow> dict \<Rightarrow> dict" where
  "safe_dict dump secret d = map (\<lambda>(k, v). (k, safe dump secret v)) (filter (\<lambda>(k, v). \<not> secret k) d)"

subsection \<open>Encoding\<close>

definition opt_text :: "string option \<Rightarrow> pyval" where
  "opt_text t = (case t of None \<Rightarrow> VNone | Some s \<Rightarrow> VStr s)"

definition texts :: "string list \<Rightarrow> pyval" where
  "texts ts = VList (map VStr ts)"

definition opt_texts :: "string list option \<Rightarrow> pyval" where
  "opt_texts t = (case t of None \<Rightarrow> VNone | Some ts \<Rightarrow> texts ts)"

definition opt_dict :: "dict option \<Rightarrow> pyval" where
  "opt_dict d = (case d of None \<Rightarrow> VNone | Some x \<Rightarrow> VDict x)"

definition opt_number :: "rat option \<Rightarrow> pyval" where
  "opt_number r = (case r of None \<Rightarrow> VNone | Some x \<Rightarrow> VFloat (Fin x))"

text \<open>\<open>schema_version\<close> is the constant \<open>SESSION_SCHEMA_VERSION\<close>.\<close>

definition schema_version :: int where
  "schema_version = 1"

definition run_state_to_dict :: "(string \<Rightarrow> pyval option) \<Rightarrow> RunState \<Rightarrow> dict" where
  "run_state_to_dict dump s =
     [(''schema_version'', VInt (rs_schema s)),
      (''agent_name'', VStr (rs_agent_name s)),
      (''system_prompt'', VStr (rs_system_prompt s)),
      (''description'', VStr (rs_description s)),
      (''capabilities'', texts (rs_capabilities s)),
      (''provider'', opt_text (rs_provider s)),
      (''model_name'', opt_text (rs_model_name s)),
      (''temperature'', opt_number (rs_temperature s)),
      (''runtime_type'', VStr (rs_runtime_type s)),
      (''runtime_config'', VDict (safe_dict dump loose_secret_key (rs_runtime_config s))),
      (''algorithm'', VStr (rs_algorithm s)),
      (''metadata'', VDict (safe_dict dump loose_secret_key (rs_metadata s))),
      (''agent_metadata'', VDict (rs_agent_metadata s)),
      (''tool_names'', texts (rs_tool_names s)),
      (''history'', VList (map VDict (rs_history s))),
      (''run_id'', opt_text (rs_run_id s)),
      (''loop_settings'', VDict (safe_dict dump keep_all (rs_loop_settings s))),
      (''aggregate_plan'', VDict (safe_dict dump loose_secret_key (rs_aggregate_plan s))),
      (''context_summary'', VDict (safe_dict dump loose_secret_key (rs_context_summary s))),
      (''trace_option'', VDict (safe_dict dump keep_all (rs_trace_option s))),
      (''output_schema'', opt_dict (map_option (safe_dict dump keep_all) (rs_output_schema s))),
      (''permission_policy'', opt_texts (rs_permission_policy s)),
      (''system_prompt_presets'', opt_texts (rs_presets s))]"

definition checkpoint_to_dict :: "(string \<Rightarrow> pyval option) \<Rightarrow> Checkpoint \<Rightarrow> dict" where
  "checkpoint_to_dict dump c =
     [(''schema_version'', VInt schema_version),
      (''checkpoint'', VDict
        [(''id'', VStr (ck_id c)),
         (''session_id'', VStr (ck_session c)),
         (''parent_id'', opt_text (ck_parent c)),
         (''seq'', VInt (ck_seq c)),
         (''created_at'', VStr (ck_created c)),
         (''label'', VStr (ck_label c)),
         (''status'', VStr (session_status_value (ck_status c))),
         (''run_state'', VDict (run_state_to_dict dump (ck_state c))),
         (''trace_artifact'', opt_dict (map_option (safe_dict dump precise_secret_key) (ck_artifact c))),
         (''trace_summary'', opt_dict (map_option (safe_dict dump loose_secret_key) (ck_summary c))),
         (''trace_events'', case ck_events c of None \<Rightarrow> VNone
            | Some es \<Rightarrow> VList (map (VDict \<circ> safe_dict dump loose_secret_key) es))])]"

definition meta_to_dict :: "SessionMeta \<Rightarrow> dict" where
  "meta_to_dict m =
     [(''schema_version'', VInt schema_version),
      (''session_id'', VStr (sm_id m)),
      (''head_id'', opt_text (sm_head m)),
      (''parent_session_id'', opt_text (sm_parent m)),
      (''agent_name'', VStr (sm_agent m)),
      (''status'', VStr (session_status_value (sm_status m))),
      (''created_at'', VStr (sm_created m)),
      (''updated_at'', VStr (sm_updated m)),
      (''tags'', texts (sm_tags m))]"

definition message_to_dict :: "(string \<Rightarrow> pyval option) \<Rightarrow> AgentMessage \<Rightarrow> dict" where
  "message_to_dict dump m =
     [(''sender'', VStr (am_sender m)),
      (''recipient'', VStr (am_recipient m)),
      (''content'', VStr (am_content m)),
      (''message_type'', VStr (am_type m)),
      (''metadata'', VDict (safe_dict dump loose_secret_key (am_metadata m))),
      (''structured'', safe dump keep_all (am_structured m))]"

subsection \<open>Decoding\<close>

definition require_field :: "dict \<Rightarrow> string \<Rightarrow> exn + pyval" where
  "require_field data field =
     (case map_of data field of
        Some v \<Rightarrow> Inr v
      | None \<Rightarrow> Inl (session_error ''SessionSerializationError''
          (''Session payload missing required field: '' @ field @ ''.'')))"

definition require_version :: "dict \<Rightarrow> exn + unit" where
  "require_version data =
     (case map_of data ''schema_version'' of
        None \<Rightarrow> Inl (session_error ''SessionSerializationError'' ''Session payload missing schema_version.'')
      | Some VNone \<Rightarrow> Inl (session_error ''SessionSerializationError'' ''Session payload missing schema_version.'')
      | Some v \<Rightarrow> bindE (python_int v) (\<lambda>n. if n = schema_version then Inr ()
          else Inl (session_error ''SessionVersionError'' ''Unsupported session schema version.'')))"

definition as_text :: "pyval \<Rightarrow> exn + string" where
  "as_text v = (case v of VStr s \<Rightarrow> Inr s | _ \<Rightarrow> Inl Untyped)"

definition as_dict :: "pyval \<Rightarrow> exn + dict" where
  "as_dict v = (case v of VDict d \<Rightarrow> Inr d | _ \<Rightarrow> Inl Untyped)"

fun all_of :: "(pyval \<Rightarrow> exn + 'a) \<Rightarrow> pyval list \<Rightarrow> exn + 'a list" where
  "all_of f [] = Inr []"
| "all_of f (v # vs) = bindE (f v) (\<lambda>x. bindE (all_of f vs) (\<lambda>xs. Inr (x # xs)))"

definition as_list :: "(pyval \<Rightarrow> exn + 'a) \<Rightarrow> pyval \<Rightarrow> exn + 'a list" where
  "as_list f v = (case v of VList xs \<Rightarrow> all_of f xs | _ \<Rightarrow> Inl Untyped)"

text \<open>\<open>data.get(field)\<close>, which an absent field answers with None, and \<open>data.get(field, default)\<close>.\<close>

definition opt_field :: "dict \<Rightarrow> string \<Rightarrow> (pyval \<Rightarrow> exn + 'a) \<Rightarrow> exn + 'a option" where
  "opt_field data field f =
     (case map_of data field of
        None \<Rightarrow> Inr None
      | Some VNone \<Rightarrow> Inr None
      | Some v \<Rightarrow> bindE (f v) (\<lambda>x. Inr (Some x)))"

definition def_field :: "dict \<Rightarrow> string \<Rightarrow> (pyval \<Rightarrow> exn + 'a) \<Rightarrow> 'a \<Rightarrow> exn + 'a" where
  "def_field data field f standard = (case map_of data field of None \<Rightarrow> Inr standard | Some v \<Rightarrow> f v)"

text \<open>\<open>data.get(field, empty) or empty\<close>.\<close>

definition or_empty :: "dict \<Rightarrow> string \<Rightarrow> (pyval \<Rightarrow> exn + 'a list) \<Rightarrow> exn + 'a list" where
  "or_empty data field f =
     (case map_of data field of None \<Rightarrow> Inr [] | Some VNone \<Rightarrow> Inr [] | Some v \<Rightarrow> f v)"

definition SessionStatus_of :: "pyval \<Rightarrow> exn + SessionStatus" where
  "SessionStatus_of v =
     (if v = VStr ''active'' then Inr ACTIVE
      else if v = VStr ''completed'' then Inr COMPLETED
      else if v = VStr ''interrupted'' then Inr INTERRUPTED
      else if v = VStr ''failed'' then Inr FAILED_SESSION
      else Inl (ValueError ''not a valid SessionStatus''))"

definition run_state_from_dict :: "dict \<Rightarrow> exn + RunState" where
  "run_state_from_dict d =
     bindE (def_field d ''schema_version'' python_int schema_version) (\<lambda>schema.
     bindE (def_field d ''agent_name'' as_text []) (\<lambda>agent.
     bindE (def_field d ''system_prompt'' as_text []) (\<lambda>prompt.
     bindE (def_field d ''description'' as_text []) (\<lambda>description.
     bindE (or_empty d ''capabilities'' (as_list as_text)) (\<lambda>capabilities.
     bindE (opt_field d ''provider'' as_text) (\<lambda>provider.
     bindE (opt_field d ''model_name'' as_text) (\<lambda>model.
     bindE (opt_field d ''temperature'' (\<lambda>v. case v of VFloat (Fin r) \<Rightarrow> Inr r | VInt n \<Rightarrow> Inr (of_int n)
                                                | _ \<Rightarrow> Inl Untyped)) (\<lambda>temperature.
     bindE (def_field d ''runtime_type'' as_text ''linear'') (\<lambda>runtime.
     bindE (or_empty d ''runtime_config'' as_dict) (\<lambda>config.
     bindE (def_field d ''algorithm'' as_text ''default'') (\<lambda>algorithm.
     bindE (or_empty d ''metadata'' as_dict) (\<lambda>metadata.
     bindE (or_empty d ''agent_metadata'' as_dict) (\<lambda>agent_metadata.
     bindE (or_empty d ''tool_names'' (as_list as_text)) (\<lambda>tools.
     bindE (or_empty d ''history'' (as_list as_dict)) (\<lambda>history.
     bindE (opt_field d ''run_id'' as_text) (\<lambda>run_id.
     bindE (or_empty d ''loop_settings'' as_dict) (\<lambda>loop.
     bindE (or_empty d ''aggregate_plan'' as_dict) (\<lambda>plan.
     bindE (or_empty d ''context_summary'' as_dict) (\<lambda>summary.
     bindE (or_empty d ''trace_option'' as_dict) (\<lambda>trace.
     bindE (opt_field d ''output_schema'' as_dict) (\<lambda>schema_out.
     bindE (opt_field d ''permission_policy'' (as_list as_text)) (\<lambda>permissions.
     bindE (opt_field d ''system_prompt_presets'' (as_list as_text)) (\<lambda>presets.
     Inr \<lparr>rs_schema = schema, rs_agent_name = agent, rs_system_prompt = prompt, rs_description = description,
       rs_capabilities = capabilities, rs_provider = provider, rs_model_name = model, rs_temperature = temperature,
       rs_runtime_type = runtime, rs_runtime_config = config, rs_algorithm = algorithm, rs_metadata = metadata,
       rs_agent_metadata = agent_metadata, rs_tool_names = tools, rs_history = history, rs_run_id = run_id,
       rs_loop_settings = loop, rs_aggregate_plan = plan, rs_context_summary = summary, rs_trace_option = trace,
       rs_output_schema = schema_out, rs_permission_policy = permissions, rs_presets = presets\<rparr>)))))))))))))))))))))))"

definition checkpoint_from_dict :: "dict \<Rightarrow> exn + Checkpoint" where
  "checkpoint_from_dict data =
     bindE (require_version data) (\<lambda>_.
     bindE (bindE (require_field data ''checkpoint'') as_dict) (\<lambda>body.
     bindE (bindE (require_field body ''id'') as_text) (\<lambda>i.
     bindE (bindE (require_field body ''session_id'') as_text) (\<lambda>session.
     bindE (opt_field body ''parent_id'' as_text) (\<lambda>parent.
     bindE (bindE (require_field body ''seq'') python_int) (\<lambda>n.
     bindE (bindE (require_field body ''created_at'') as_text) (\<lambda>created.
     bindE (bindE (bindE (require_field body ''run_state'') as_dict) run_state_from_dict) (\<lambda>state.
     bindE (def_field body ''label'' as_text []) (\<lambda>label.
     bindE (def_field body ''status'' SessionStatus_of ACTIVE) (\<lambda>status.
     bindE (opt_field body ''trace_artifact'' as_dict) (\<lambda>artifact.
     bindE (opt_field body ''trace_summary'' as_dict) (\<lambda>summary.
     bindE (case map_of body ''trace_events'' of
              Some (VList es) \<Rightarrow> bindE (all_of as_dict es) (\<lambda>xs. Inr (Some xs))
            | _ \<Rightarrow> Inr None) (\<lambda>events.
     Inr \<lparr>ck_id = i, ck_session = session, ck_parent = parent, ck_seq = n, ck_created = created, ck_state = state,
       ck_label = label, ck_status = status, ck_artifact = artifact, ck_summary = summary, ck_events = events\<rparr>)))))))))))))"

definition meta_from_dict :: "dict \<Rightarrow> exn + SessionMeta" where
  "meta_from_dict data =
     bindE (require_version data) (\<lambda>_.
     bindE (bindE (require_field data ''session_id'') as_text) (\<lambda>i.
     bindE (opt_field data ''head_id'' as_text) (\<lambda>head.
     bindE (opt_field data ''parent_session_id'' as_text) (\<lambda>parent.
     bindE (def_field data ''agent_name'' as_text []) (\<lambda>agent.
     bindE (def_field data ''status'' SessionStatus_of ACTIVE) (\<lambda>status.
     bindE (def_field data ''created_at'' as_text []) (\<lambda>created.
     bindE (def_field data ''updated_at'' as_text []) (\<lambda>updated.
     bindE (or_empty data ''tags'' (as_list as_text)) (\<lambda>tags.
     Inr \<lparr>sm_id = i, sm_head = head, sm_parent = parent, sm_agent = agent, sm_status = status,
       sm_created = created, sm_updated = updated, sm_tags = tags\<rparr>)))))))))"

definition message_from_dict :: "dict \<Rightarrow> exn + AgentMessage" where
  "message_from_dict d =
     bindE (def_field d ''sender'' as_text []) (\<lambda>sender.
     bindE (def_field d ''recipient'' as_text []) (\<lambda>recipient.
     bindE (def_field d ''content'' as_text []) (\<lambda>content.
     bindE (def_field d ''message_type'' as_text ''response'') (\<lambda>type.
     bindE (or_empty d ''metadata'' as_dict) (\<lambda>metadata.
     Inr \<lparr>am_sender = sender, am_recipient = recipient, am_content = content, am_type = type,
       am_metadata = metadata,
       am_structured = (case map_of d ''structured'' of None \<Rightarrow> VNone | Some v \<Rightarrow> v)\<rparr>)))))"

subsection \<open>Filtered values\<close>

text \<open>A filtered value is plain JSON data in which no key at any depth is secret.\<close>

fun clean :: "(string \<Rightarrow> bool) \<Rightarrow> pyval \<Rightarrow> bool" where
  "clean secret (VDict d) = list_all (\<lambda>(k, v). \<not> secret k \<and> clean secret v) d"
| "clean secret (VList xs) = list_all (clean secret) xs"
| "clean secret (VType n bases) = False"
| "clean secret (VObj n) = False"
| "clean secret v = True"

definition marker_kept :: "(string \<Rightarrow> bool) \<Rightarrow> bool" where
  "marker_kept secret \<longleftrightarrow> \<not> secret ''__dropped__''"

lemma clean_dropped: "marker_kept secret \<Longrightarrow> clean secret (dropped n)"
  by (simp add: dropped_def marker_kept_def)

lemma clean_safe_data: "marker_kept secret \<Longrightarrow> clean secret (safe_data secret v)"
  by (induction secret v rule: safe_data.induct) (auto simp: list_all_iff clean_dropped)

lemma clean_safe: "marker_kept secret \<Longrightarrow> clean secret (safe dump secret v)"
  by (induction dump secret v rule: safe.induct)
    (auto simp: list_all_iff clean_dropped clean_safe_data split: option.split)

lemma safe_clean: "clean secret v \<Longrightarrow> safe dump secret v = v"
proof (induction secret v rule: clean.induct)
  case (1 secret d)
  then have "filter (\<lambda>(k, v). \<not> secret k) d = d" by (auto simp: list_all_iff filter_id_conv)
  moreover have "map (\<lambda>(k, v). (k, safe dump secret v)) d = d"
    using 1 by (auto simp: list_all_iff intro!: map_idI)
  ultimately show ?case by simp
next
  case (2 secret xs)
  then show ?case by (auto simp: list_all_iff intro!: map_idI)
qed simp_all

lemma safe_dict_dict: "VDict (safe_dict dump secret d) = safe dump secret (VDict d)"
  by (simp add: safe_dict_def)

lemma safe_dict_idem: "marker_kept secret \<Longrightarrow> safe_dict dump secret (safe_dict dump secret d) = safe_dict dump secret d"
  using safe_clean [OF clean_safe, of secret dump dump "VDict d"] by (simp add: safe_dict_def)

lemma marker_kept_all: "marker_kept keep_all" "marker_kept loose_secret_key" "marker_kept precise_secret_key"
  by (simp_all add: marker_kept_def keep_all_def) code_simp+

subsection \<open>Round trips\<close>

definition scrubbed_state :: "(string \<Rightarrow> pyval option) \<Rightarrow> RunState \<Rightarrow> RunState" where
  "scrubbed_state dump s = s\<lparr>
     rs_runtime_config := safe_dict dump loose_secret_key (rs_runtime_config s),
     rs_metadata := safe_dict dump loose_secret_key (rs_metadata s),
     rs_loop_settings := safe_dict dump keep_all (rs_loop_settings s),
     rs_aggregate_plan := safe_dict dump loose_secret_key (rs_aggregate_plan s),
     rs_context_summary := safe_dict dump loose_secret_key (rs_context_summary s),
     rs_trace_option := safe_dict dump keep_all (rs_trace_option s),
     rs_output_schema := map_option (safe_dict dump keep_all) (rs_output_schema s)\<rparr>"

definition scrubbed :: "(string \<Rightarrow> pyval option) \<Rightarrow> Checkpoint \<Rightarrow> Checkpoint" where
  "scrubbed dump c = c\<lparr>ck_state := scrubbed_state dump (ck_state c),
     ck_artifact := map_option (safe_dict dump precise_secret_key) (ck_artifact c),
     ck_summary := map_option (safe_dict dump loose_secret_key) (ck_summary c),
     ck_events := map_option (map (safe_dict dump loose_secret_key)) (ck_events c)\<rparr>"

lemma all_of_map: "(\<And>x. f (g x) = Inr x) \<Longrightarrow> all_of f (map g xs) = Inr xs"
  by (induction xs) auto

lemma all_of_dicts: "all_of as_dict (map (VDict \<circ> f) xs) = Inr (map f xs)"
  by (induction xs) (auto simp: as_dict_def)

lemma as_text_VStr [simp]: "as_text (VStr s) = Inr s" by (simp add: as_text_def)
lemma as_dict_VDict [simp]: "as_dict (VDict d) = Inr d" by (simp add: as_dict_def)
lemma as_list_texts [simp]: "as_list as_text (texts ts) = Inr ts"
  by (simp add: as_list_def texts_def all_of_map)
lemma as_list_dicts [simp]: "as_list as_dict (VList (map VDict ds)) = Inr ds"
  by (simp add: as_list_def all_of_map)

lemma SessionStatus_roundtrip [simp]: "SessionStatus_of (VStr (session_status_value s)) = Inr s"
  by (cases s) (simp_all add: SessionStatus_of_def)

lemma opt_field_text: "map_of d k = Some (opt_text t) \<Longrightarrow> opt_field d k as_text = Inr t"
  by (simp add: opt_field_def opt_text_def split: option.splits)

lemma opt_field_texts: "map_of d k = Some (opt_texts t) \<Longrightarrow> opt_field d k (as_list as_text) = Inr t"
  by (auto simp: opt_field_def opt_texts_def texts_def as_list_def all_of_map split: option.splits)

lemma opt_field_dict: "map_of d k = Some (opt_dict t) \<Longrightarrow> opt_field d k as_dict = Inr t"
  by (simp add: opt_field_def opt_dict_def split: option.splits)

lemma or_empty_texts: "map_of d k = Some (texts ts) \<Longrightarrow> or_empty d k (as_list as_text) = Inr ts"
  by (simp add: or_empty_def texts_def as_list_def all_of_map)

lemma or_empty_dict: "map_of d k = Some (VDict x) \<Longrightarrow> or_empty d k as_dict = Inr x"
  by (simp add: or_empty_def)

lemma or_empty_dicts: "map_of d k = Some (VList (map VDict x)) \<Longrightarrow> or_empty d k (as_list as_dict) = Inr x"
  by (simp add: or_empty_def)

lemma def_field_get: "map_of d k = Some v \<Longrightarrow> def_field d k f x = f v"
  by (simp add: def_field_def)

lemma require_field_get: "map_of d k = Some v \<Longrightarrow> require_field d k = Inr v"
  by (simp add: require_field_def)

lemmas field_simps' = opt_field_text opt_field_texts opt_field_dict or_empty_texts or_empty_dict or_empty_dicts
  def_field_get require_field_get

lemma meta_roundtrip: "meta_from_dict (meta_to_dict m) = Inr m"
  by (simp add: meta_from_dict_def meta_to_dict_def require_version_def field_simps')

lemma opt_field_number:
  "map_of d k = Some (opt_number r) \<Longrightarrow>
   opt_field d k (\<lambda>v. case v of VFloat (Fin r) \<Rightarrow> Inr r | VInt n \<Rightarrow> Inr (of_int n) | _ \<Rightarrow> Inl Untyped) = Inr r"
  by (simp add: opt_field_def opt_number_def split: option.splits)

lemma run_state_fields:
  fixes s dump
  defines "d \<equiv> run_state_to_dict dump s"
  shows
    "def_field d ''schema_version'' python_int schema_version = Inr (rs_schema s)"
    "def_field d ''agent_name'' as_text [] = Inr (rs_agent_name s)"
    "def_field d ''system_prompt'' as_text [] = Inr (rs_system_prompt s)"
    "def_field d ''description'' as_text [] = Inr (rs_description s)"
    "or_empty d ''capabilities'' (as_list as_text) = Inr (rs_capabilities s)"
    "opt_field d ''provider'' as_text = Inr (rs_provider s)"
    "opt_field d ''model_name'' as_text = Inr (rs_model_name s)"
    "opt_field d ''temperature'' (\<lambda>v. case v of VFloat (Fin r) \<Rightarrow> Inr r | VInt n \<Rightarrow> Inr (of_int n) | _ \<Rightarrow> Inl Untyped) = Inr (rs_temperature s)"
    "def_field d ''runtime_type'' as_text ''linear'' = Inr (rs_runtime_type s)"
    "or_empty d ''runtime_config'' as_dict = Inr (safe_dict dump loose_secret_key (rs_runtime_config s))"
    "def_field d ''algorithm'' as_text ''default'' = Inr (rs_algorithm s)"
    "or_empty d ''metadata'' as_dict = Inr (safe_dict dump loose_secret_key (rs_metadata s))"
    "or_empty d ''agent_metadata'' as_dict = Inr (rs_agent_metadata s)"
    "or_empty d ''tool_names'' (as_list as_text) = Inr (rs_tool_names s)"
    "or_empty d ''history'' (as_list as_dict) = Inr (rs_history s)"
    "opt_field d ''run_id'' as_text = Inr (rs_run_id s)"
    "or_empty d ''loop_settings'' as_dict = Inr (safe_dict dump keep_all (rs_loop_settings s))"
    "or_empty d ''aggregate_plan'' as_dict = Inr (safe_dict dump loose_secret_key (rs_aggregate_plan s))"
    "or_empty d ''context_summary'' as_dict = Inr (safe_dict dump loose_secret_key (rs_context_summary s))"
    "or_empty d ''trace_option'' as_dict = Inr (safe_dict dump keep_all (rs_trace_option s))"
    "opt_field d ''output_schema'' as_dict = Inr (map_option (safe_dict dump keep_all) (rs_output_schema s))"
    "opt_field d ''permission_policy'' (as_list as_text) = Inr (rs_permission_policy s)"
    "opt_field d ''system_prompt_presets'' (as_list as_text) = Inr (rs_presets s)"
  by (simp_all add: d_def run_state_to_dict_def def_field_def opt_field_text opt_field_texts opt_field_dict
      or_empty_texts or_empty_dict or_empty_dicts opt_field_number)

lemma run_state_roundtrip: "run_state_from_dict (run_state_to_dict dump s) = Inr (scrubbed_state dump s)"
  by (simp add: run_state_from_dict_def run_state_fields scrubbed_state_def)

lemma checkpoint_roundtrip: "checkpoint_from_dict (checkpoint_to_dict dump c) = Inr (scrubbed dump c)"
  by (simp add: checkpoint_from_dict_def checkpoint_to_dict_def require_version_def field_simps'
      run_state_roundtrip scrubbed_def all_of_dicts split: option.split)

definition scrubbed_message :: "(string \<Rightarrow> pyval option) \<Rightarrow> AgentMessage \<Rightarrow> AgentMessage" where
  "scrubbed_message dump m = m\<lparr>am_metadata := safe_dict dump loose_secret_key (am_metadata m),
     am_structured := safe dump keep_all (am_structured m)\<rparr>"

lemma message_roundtrip: "message_from_dict (message_to_dict dump m) = Inr (scrubbed_message dump m)"
  by (simp add: message_from_dict_def message_to_dict_def field_simps' scrubbed_message_def)

lemma scrubbed_idem: "scrubbed dump (scrubbed dump c) = scrubbed dump c"
  by (simp add: scrubbed_def scrubbed_state_def safe_dict_idem marker_kept_all option.map_comp o_def)

subsection \<open>Properties\<close>

text \<open>C28: session metadata survives the codec unchanged.  A checkpoint and a message survive it up to
  the filter of their free-form data, and a second trip of a checkpoint changes nothing more.\<close>

theorem session_codec_roundtrip:
  "meta_from_dict (meta_to_dict m) = Inr m \<and>
   message_from_dict (message_to_dict dump a) = Inr (scrubbed_message dump a) \<and>
   checkpoint_from_dict (checkpoint_to_dict dump c) = Inr (scrubbed dump c) \<and>
   checkpoint_from_dict (checkpoint_to_dict dump (scrubbed dump c)) = Inr (scrubbed dump c)"
  by (simp add: meta_roundtrip message_roundtrip checkpoint_roundtrip scrubbed_idem)

text \<open>C29: what is written of a checkpoint holds no credential-like key at any depth of its
  configuration, metadata, plan, context summary and traces, and only plain JSON data; its id,
  links, position, history and prompts are written as they are.\<close>

theorem stored_checkpoints_hold_no_credential_keys:
  assumes "checkpoint_from_dict (checkpoint_to_dict dump c) = Inr d"
  shows "clean loose_secret_key (VDict (rs_runtime_config (ck_state d))) \<and>
    clean loose_secret_key (VDict (rs_metadata (ck_state d))) \<and>
    clean loose_secret_key (VDict (rs_aggregate_plan (ck_state d))) \<and>
    clean loose_secret_key (VDict (rs_context_summary (ck_state d))) \<and>
    clean precise_secret_key (opt_dict (ck_artifact d)) \<and> clean loose_secret_key (opt_dict (ck_summary d)) \<and>
    (\<forall>e \<in> set (case ck_events d of None \<Rightarrow> [] | Some es \<Rightarrow> es). clean loose_secret_key (VDict e)) \<and>
    ck_id d = ck_id c \<and> ck_parent d = ck_parent c \<and> ck_seq d = ck_seq c \<and>
    rs_history (ck_state d) = rs_history (ck_state c) \<and> rs_system_prompt (ck_state d) = rs_system_prompt (ck_state c)"
proof -
  have d: "d = scrubbed dump c" using assms by (simp add: checkpoint_roundtrip)
  have "clean secret (VDict (safe_dict dump secret x))" if "marker_kept secret" for secret x
    unfolding safe_dict_dict by (rule clean_safe [OF that])
  note cl = this [OF marker_kept_all(2)] this [OF marker_kept_all(3)]
  show ?thesis
    by (auto simp: d scrubbed_def scrubbed_state_def cl opt_dict_def simp del: clean.simps(1) split: option.splits)
qed

definition demo_run_state :: RunState where
  "demo_run_state = \<lparr>rs_schema = 1, rs_agent_name = ''agent'', rs_system_prompt = ''be brief'', rs_description = [],
     rs_capabilities = [], rs_provider = None, rs_model_name = None, rs_temperature = None, rs_runtime_type = ''linear'',
     rs_runtime_config = [], rs_algorithm = ''default'', rs_metadata = [(''githubToken'', VStr ''x''), (''topic'', VStr ''y'')],
     rs_agent_metadata = [], rs_tool_names = [], rs_history = [], rs_run_id = None, rs_loop_settings = [],
     rs_aggregate_plan = [], rs_context_summary = [], rs_trace_option = [], rs_output_schema = None,
     rs_permission_policy = None, rs_presets = None\<rparr>"

definition demo_checkpoint :: "string \<Rightarrow> string option \<Rightarrow> Checkpoint" where
  "demo_checkpoint i parent = \<lparr>ck_id = i, ck_session = ''s1'', ck_parent = parent, ck_seq = 0, ck_created = ''t0'',
     ck_state = demo_run_state, ck_label = [], ck_status = ACTIVE, ck_artifact = None, ck_summary = None, ck_events = None\<rparr>"

lemma no_credential_keys_witness:
  "clean loose_secret_key (VDict (rs_metadata (ck_state (scrubbed (\<lambda>_. None) (demo_checkpoint ''c1'' None)))))"
  using stored_checkpoints_hold_no_credential_keys [OF checkpoint_roundtrip, of "\<lambda>_. None" "demo_checkpoint ''c1'' None"]
  by blast

end
