(* ===== verification/SE_Store.thy ===== *)
theory SE_Store
  imports SE_Codec "HOL-Library.Product_Lexorder" "HOL-Library.List_Lexorder" "HOL-Library.Char_ord"
begin

text \<open>
  The session store (\<^verbatim>\<open>sessions/store.py\<close>) over the raw primitives of a backend, the laws a
  backend keeps, and the in-memory backend (\<^verbatim>\<open>sessions/stores/memory.py\<close>).  The clock
  reading is an argument.
\<close>

subsection \<open>The primitives of a backend\<close>

record 's Backend =
  be_write_checkpoint :: "Checkpoint \<Rightarrow> ('s, exn, unit) sem"
  be_read_checkpoint :: "string \<Rightarrow> 's \<Rightarrow> Checkpoint option"
  be_read_session :: "string \<Rightarrow> 's \<Rightarrow> Checkpoint list"
  be_delete_checkpoint :: "string \<Rightarrow> ('s, exn, unit) sem"
  be_write_meta :: "SessionMeta \<Rightarrow> ('s, exn, unit) sem"
  be_read_meta :: "string \<Rightarrow> 's \<Rightarrow> SessionMeta option"
  be_read_all_meta :: "'s \<Rightarrow> SessionMeta list"

subsection \<open>The operations of the store\<close>

definition next_seq :: "'s Backend \<Rightarrow> string \<Rightarrow> 's \<Rightarrow> int" where
  "next_seq b session s = foldr (\<lambda>c m. max (ck_seq c) m) (be_read_session b session s) (-1) + 1"

definition advance_head :: "'s Backend \<Rightarrow> string \<Rightarrow> Checkpoint \<Rightarrow> ('s, exn, unit) sem" where
  "advance_head b now c =
     bindM (getM (be_read_meta b (ck_session c))) (\<lambda>meta.
     be_write_meta b (case meta of
       None \<Rightarrow> \<lparr>sm_id = ck_session c, sm_head = Some (ck_id c), sm_parent = None,
                 sm_agent = rs_agent_name (ck_state c), sm_status = ck_status c, sm_created = now,
                 sm_updated = now, sm_tags = []\<rparr>
     | Some m \<Rightarrow> m\<lparr>sm_head := Some (ck_id c), sm_status := ck_status c, sm_updated := now\<rparr>))"

definition put :: "'s Backend \<Rightarrow> string \<Rightarrow> Checkpoint \<Rightarrow> ('s, exn, Checkpoint) sem" where
  "put b now c =
     bindM (getM (next_seq b (ck_session c))) (\<lambda>n.
     let stored = c\<lparr>ck_seq := n\<rparr> in
     bindM (be_write_checkpoint b stored) (\<lambda>_.
     bindM (advance_head b now stored) (\<lambda>_.
     returnM stored)))"

definition get_checkpoint :: "'s Backend \<Rightarrow> string \<Rightarrow> 's \<Rightarrow> exn + Checkpoint" where
  "get_checkpoint b i s =
     (case be_read_checkpoint b i s of
        Some c \<Rightarrow> Inr c
      | None \<Rightarrow> Inl (session_error ''CheckpointNotFoundError'' (''Unknown checkpoint id: '' @ i @ ''.'')))"

definition head_of :: "'s Backend \<Rightarrow> string \<Rightarrow> 's \<Rightarrow> Checkpoint option" where
  "head_of b session s =
     (case be_read_meta b session s of
        None \<Rightarrow> None
      | Some m \<Rightarrow> (case sm_head m of None \<Rightarrow> None | Some h \<Rightarrow> be_read_checkpoint b h s))"

definition history :: "'s Backend \<Rightarrow> string \<Rightarrow> 's \<Rightarrow> Checkpoint list" where
  "history b session s = sort_key ck_seq (be_read_session b session s)"

fun write_all :: "'s Backend \<Rightarrow> Checkpoint list \<Rightarrow> ('s, exn, unit) sem" where
  "write_all b [] = returnM ()"
| "write_all b (c # cs) = bindM (be_write_checkpoint b c) (\<lambda>_. write_all b cs)"

definition ingest :: "'s Backend \<Rightarrow> SessionMeta \<Rightarrow> Checkpoint list \<Rightarrow> ('s, exn, unit) sem" where
  "ingest b meta cs = bindM (write_all b (sort_key ck_seq cs)) (\<lambda>_. be_write_meta b meta)"

definition put_meta :: "'s Backend \<Rightarrow> SessionMeta \<Rightarrow> ('s, exn, unit) sem" where
  "put_meta b meta = be_write_meta b meta"

definition get_meta :: "'s Backend \<Rightarrow> string \<Rightarrow> 's \<Rightarrow> exn + SessionMeta" where
  "get_meta b session s =
     (case be_read_meta b session s of
        Some m \<Rightarrow> Inr m
      | None \<Rightarrow> Inl (session_error ''SessionNotFoundError'' (''Unknown session id: '' @ session @ ''.'')))"

text \<open>
  Times are ISO texts, compared as texts, as are the ids that break a tie; \<open>max\<close> keeps the first
  of equal elements.
\<close>

definition latest :: "SessionMeta \<Rightarrow> SessionMeta list \<Rightarrow> SessionMeta" where
  "latest m ms = foldl (\<lambda>best x. if (sm_updated best, sm_id best) < (sm_updated x, sm_id x) then x else best) m ms"

definition resolve :: "'s Backend \<Rightarrow> string \<Rightarrow> 's \<Rightarrow> exn + string" where
  "resolve b identifier s =
     (if be_read_meta b identifier s \<noteq> None then Inr identifier
      else case filter (\<lambda>m. List.member (sm_tags m) identifier) (be_read_all_meta b s) of
        [] \<Rightarrow> Inl (session_error ''SessionNotFoundError'' (''No session id or tag: '' @ identifier @ ''.''))
      | m # ms \<Rightarrow> Inr (sm_id (latest m ms)))"

definition list_sessions ::
  "'s Backend \<Rightarrow> string option \<Rightarrow> string option \<Rightarrow> SessionStatus option \<Rightarrow> 's \<Rightarrow> SessionMeta list" where
  "list_sessions b agent tag status s =
     sort_key sm_updated
       (filter (\<lambda>m. (case agent of None \<Rightarrow> True | Some a \<Rightarrow> sm_agent m = a) \<and>
                    (case tag of None \<Rightarrow> True | Some t \<Rightarrow> List.member (sm_tags m) t) \<and>
                    (case status of None \<Rightarrow> True | Some st \<Rightarrow> sm_status m = st)) (be_read_all_meta b s))"

lemma chain_shrinks:
  assumes "map_of by_id i = Some c" and "i \<notin> set seen"
  shows "length (filter (\<lambda>k. k \<noteq> i \<and> k \<notin> set seen) (map fst by_id)) < length (filter (\<lambda>k. k \<notin> set seen) (map fst by_id))"
proof -
  have "i \<in> set (filter (\<lambda>k. k \<notin> set seen) (map fst by_id))"
    using assms by (force dest: map_of_SomeD)
  then have "length (filter (\<lambda>k. k \<noteq> i) (filter (\<lambda>k. k \<notin> set seen) (map fst by_id))) <
      length (filter (\<lambda>k. k \<notin> set seen) (map fst by_id))"
    by (intro length_filter_less) auto
  then show ?thesis by (simp add: conj_commute)
qed

text \<open>The chain of parents from the head, as far as it stays among the checkpoints of the session.\<close>

function head_chain :: "(string \<times> Checkpoint) list \<Rightarrow> string option \<Rightarrow> string list \<Rightarrow> string list" where
  "head_chain by_id cursor seen =
     (case cursor of
        None \<Rightarrow> seen
      | Some i \<Rightarrow> (case map_of by_id i of
          None \<Rightarrow> seen
        | Some c \<Rightarrow> if i \<in> set seen then seen else head_chain by_id (ck_parent c) (i # seen)))"
  by pat_completeness auto

termination
  by (relation "measure (\<lambda>(by_id, cursor, seen). length (filter (\<lambda>k. k \<notin> set seen) (map fst by_id)))")
    (auto intro: chain_shrinks [simplified])

declare head_chain.simps [simp del]

definition removable :: "string option \<Rightarrow> Checkpoint list \<Rightarrow> Checkpoint list" where
  "removable head cs =
     (let chain = head_chain (rev (map (\<lambda>c. (ck_id c, c)) cs)) head [] in
      sort_key (\<lambda>c. (List.member chain (ck_id c), ck_seq c)) (filter (\<lambda>c. Some (ck_id c) \<noteq> head) cs))"

definition excess :: "string option \<Rightarrow> int \<Rightarrow> Checkpoint list \<Rightarrow> nat" where
  "excess head keep rs =
     nat (int (length rs) - max (keep - (if head = None \<or> head = Some [] then 0 else 1)) 0)"

fun delete_all :: "'s Backend \<Rightarrow> Checkpoint list \<Rightarrow> ('s, exn, unit) sem" where
  "delete_all b [] = returnM ()"
| "delete_all b (c # cs) = bindM (be_delete_checkpoint b (ck_id c)) (\<lambda>_. delete_all b cs)"

definition prune :: "'s Backend \<Rightarrow> string \<Rightarrow> int option \<Rightarrow> ('s, exn, unit) sem" where
  "prune b session keep =
     (case keep of
        None \<Rightarrow> returnM ()
      | Some k \<Rightarrow>
        bindM (getM (be_read_meta b session)) (\<lambda>meta.
        bindM (getM (history b session)) (\<lambda>cs.
        let head = (case meta of None \<Rightarrow> None | Some m \<Rightarrow> sm_head m); rs = removable head cs in
        delete_all b (take (excess head k rs) rs))))"

text \<open>
  The steps of a store, whether they return or raise.  A new checkpoint has an id that is not in
  use, and records that are ingested are the numbered checkpoints of one session the store has none of.
\<close>

inductive store_step :: "'s Backend \<Rightarrow> 's \<Rightarrow> 's \<Rightarrow> bool" for b where
  put: "be_read_checkpoint b (ck_id c) s = None \<Longrightarrow> put b now c s = (r, t) \<Longrightarrow> store_step b s t"
| put_meta: "put_meta b m s = (r, t) \<Longrightarrow> store_step b s t"
| ingest: "distinct (map ck_id cs) \<Longrightarrow> \<forall>c \<in> set cs. be_read_checkpoint b (ck_id c) s = None \<Longrightarrow>
     be_read_session b (sm_id m) s = [] \<Longrightarrow> \<forall>c \<in> set cs. ck_session c = sm_id m \<and> 0 \<le> ck_seq c \<Longrightarrow>
     inj_on ck_seq (set cs) \<Longrightarrow> ingest b m cs s = (r, t) \<Longrightarrow> store_step b s t"
| prune: "prune b j keep s = (r, t) \<Longrightarrow> store_step b s t"

subsection \<open>The laws of a backend\<close>

lemma sorted_key_unique:
  assumes "set xs = set ys" and "distinct xs" and "distinct ys" and "sorted (map f xs)" and "sorted (map f ys)"
    and "inj_on f (set ys)"
  shows "xs = ys"
proof -
  have "map f xs = map f ys"
    using assms by (intro sorted_distinct_set_unique) (simp_all add: distinct_map)
  then show ?thesis using assms by (simp add: inj_on_map_eq_map)
qed

text \<open>
  \<open>norm\<close> is what a backend keeps of a checkpoint.  The law of writing asks for an id that is not
  stored yet; the ids the sessions mint are such.  A write that raises changes nothing.
\<close>

locale checkpoint_store =
  fixes b :: "'s Backend" and inv :: "'s \<Rightarrow> bool" and norm :: "Checkpoint \<Rightarrow> Checkpoint"
  assumes norm: "ck_id (norm c) = ck_id c" "ck_session (norm c) = ck_session c" "ck_seq (norm c) = ck_seq c"
      "ck_parent (norm c) = ck_parent c"
    and read_id: "inv s \<Longrightarrow> be_read_checkpoint b i s = Some c \<Longrightarrow> ck_id c = i"
    and meta_id: "inv s \<Longrightarrow> be_read_meta b j s = Some m \<Longrightarrow> sm_id m = j"
    and session_reads: "inv s \<Longrightarrow> set (be_read_session b j s) =
      {c. be_read_checkpoint b (ck_id c) s = Some c \<and> ck_session c = j}"
    and session_distinct: "inv s \<Longrightarrow> distinct (be_read_session b j s)"
    and write_ok: "inv s \<Longrightarrow> be_read_checkpoint b (ck_id c) s = None \<Longrightarrow>
      be_write_checkpoint b c s = (Inr (), t) \<Longrightarrow>
      inv t \<and> (\<forall>j. be_read_meta b j t = be_read_meta b j s) \<and>
      (\<forall>i. be_read_checkpoint b i t = (if i = ck_id c then Some (norm c) else be_read_checkpoint b i s))"
    and write_fails: "inv s \<Longrightarrow> be_write_checkpoint b c s = (Inl e, t) \<Longrightarrow> t = s"
    and delete_ok: "inv s \<Longrightarrow> \<exists>t. be_delete_checkpoint b i s = (Inr (), t) \<and> inv t \<and>
      (\<forall>j. be_read_meta b j t = be_read_meta b j s) \<and>
      (\<forall>k. be_read_checkpoint b k t = (if k = i then None else be_read_checkpoint b k s))"
    and write_meta_ok: "inv s \<Longrightarrow> be_write_meta b m s = (Inr (), t) \<Longrightarrow>
      inv t \<and> (\<forall>i. be_read_checkpoint b i t = be_read_checkpoint b i s) \<and>
      (\<forall>j. be_read_meta b j t = (if j = sm_id m then Some m else be_read_meta b j s))"
    and write_meta_fails: "inv s \<Longrightarrow> be_write_meta b m s = (Inl e, t) \<Longrightarrow> t = s"
    and all_meta: "inv s \<Longrightarrow> set (be_read_all_meta b s) = {m. be_read_meta b (sm_id m) s = Some m}"
begin

text \<open>
  No two checkpoints of a session have the same place; a session with checkpoints has metadata,
  as long as no write of metadata has failed.
\<close>

definition numbered :: "'s \<Rightarrow> bool" where
  "numbered s \<longleftrightarrow> inv s \<and> (\<forall>j. inj_on ck_seq (set (be_read_session b j s)) \<and>
     (\<forall>c \<in> set (be_read_session b j s). 0 \<le> ck_seq c))"

definition owned :: "'s \<Rightarrow> bool" where
  "owned s \<longleftrightarrow> (\<forall>j. \<forall>c \<in> set (be_read_session b j s). be_read_meta b j s \<noteq> None)"

lemma owned_absent: "owned s \<Longrightarrow> be_read_meta b j s = None \<Longrightarrow> be_read_session b j s = []"
  unfolding owned_def by (metis last_in_set)

lemma history_set: "set (history b j s) = set (be_read_session b j s)"
  by (simp add: history_def)

lemma history_distinct: "inv s \<Longrightarrow> distinct (history b j s)"
  by (simp add: history_def session_distinct)

lemma history_sorted: "sorted (map ck_seq (history b j s))"
  by (simp add: history_def)

lemma history_eqI:
  assumes "inv s" and "set xs = set (be_read_session b j s)" and "distinct xs" and "sorted (map ck_seq xs)"
    and "inj_on ck_seq (set xs)"
  shows "history b j s = xs"
  using assms history_distinct [OF assms(1), of j]
  by (intro sorted_key_unique [of _ _ ck_seq]) (simp_all add: history_sorted history_set)

lemma session_after_write:
  assumes "inv s" and "be_read_checkpoint b (ck_id c) s = None" and "inv t"
    and "\<forall>i. be_read_checkpoint b i t = (if i = ck_id c then Some (norm c) else be_read_checkpoint b i s)"
  shows "set (be_read_session b j t) = (if j = ck_session c then {norm c} else {}) \<union> set (be_read_session b j s)"
  using assms by (auto simp: session_reads norm)

lemma next_seq_bound: "\<forall>c \<in> set (be_read_session b j s). ck_seq c < next_seq b j s" "0 \<le> next_seq b j s"
proof -
  have "\<forall>c \<in> set cs. ck_seq c \<le> foldr (\<lambda>c m. max (ck_seq c) m) cs (-1)" for cs
    by (induction cs) auto
  then show "\<forall>c \<in> set (be_read_session b j s). ck_seq c < next_seq b j s" by (fastforce simp: next_seq_def)
  have "(-1::int) \<le> foldr (\<lambda>c m. max (ck_seq c) m) cs (-1)" for cs by (induction cs) auto
  from this [of "be_read_session b j s"] show "0 \<le> next_seq b j s" by (simp add: next_seq_def)
qed

lemma put_stages:
  assumes "put b now c s = (Inr stored, t)"
  obtains u where "stored = c\<lparr>ck_seq := next_seq b (ck_session c) s\<rparr>"
    and "be_write_checkpoint b stored s = (Inr (), u)" and "advance_head b now stored u = (Inr (), t)"
  using assms unfolding put_def
  by (auto simp: bindM_getM Let_def bindM_Inr_iff returnM_app)

lemma advance_head_ok:
  assumes "inv s" and "advance_head b now c s = (Inr (), t)"
  shows "inv t \<and> (\<forall>i. be_read_checkpoint b i t = be_read_checkpoint b i s) \<and>
    (\<forall>j. j \<noteq> ck_session c \<longrightarrow> be_read_meta b j t = be_read_meta b j s) \<and>
    (\<exists>m. be_read_meta b (ck_session c) t = Some m \<and> sm_head m = Some (ck_id c) \<and> sm_status m = ck_status c)"
proof -
  define m where "m = (case be_read_meta b (ck_session c) s of
       None \<Rightarrow> \<lparr>sm_id = ck_session c, sm_head = Some (ck_id c), sm_parent = None,
                 sm_agent = rs_agent_name (ck_state c), sm_status = ck_status c, sm_created = now,
                 sm_updated = now, sm_tags = []\<rparr>
     | Some m \<Rightarrow> m\<lparr>sm_head := Some (ck_id c), sm_status := ck_status c, sm_updated := now\<rparr>)"
  have m: "sm_id m = ck_session c" "sm_head m = Some (ck_id c)" "sm_status m = ck_status c"
    using meta_id [OF assms(1)] by (auto simp: m_def split: option.split)
  have "be_write_meta b m s = (Inr (), t)"
    using assms(2) by (simp add: advance_head_def bindM_getM m_def)
  from write_meta_ok [OF assms(1) this] m show ?thesis by simp
qed

lemma put_correct:
  assumes "numbered s" and "be_read_checkpoint b (ck_id c) s = None" and "put b now c s = (Inr stored, t)"
  shows "numbered t \<and> (owned s \<longrightarrow> owned t) \<and> stored = c\<lparr>ck_seq := next_seq b (ck_session c) s\<rparr> \<and>
    history b (ck_session c) t = history b (ck_session c) s @ [norm stored] \<and>
    head_of b (ck_session c) t = Some (norm stored) \<and>
    (\<forall>j. j \<noteq> ck_session c \<longrightarrow> history b j t = history b j s \<and> be_read_meta b j t = be_read_meta b j s) \<and>
    (\<forall>i. be_read_checkpoint b i t = (if i = ck_id c then Some (norm stored) else be_read_checkpoint b i s))"
proof -
  let ?j = "ck_session c"
  obtain u where st: "stored = c\<lparr>ck_seq := next_seq b ?j s\<rparr>"
    and w: "be_write_checkpoint b stored s = (Inr (), u)" and a: "advance_head b now stored u = (Inr (), t)"
    using put_stages [OF assms(3)] by blast
  have inv: "inv s" using assms(1) by (simp add: numbered_def)
  have ids: "ck_id stored = ck_id c" "ck_session stored = ?j" "ck_seq stored = next_seq b ?j s" by (simp_all add: st)
  from write_ok [OF inv _ w] assms(2) ids have u: "inv u"
    "\<forall>i. be_read_checkpoint b i u = (if i = ck_id stored then Some (norm stored) else be_read_checkpoint b i s)"
    "\<forall>j. be_read_meta b j u = be_read_meta b j s" by auto
  from advance_head_ok [OF u(1) a] u ids have t: "inv t"
    "\<forall>i. be_read_checkpoint b i t = (if i = ck_id stored then Some (norm stored) else be_read_checkpoint b i s)"
    "\<forall>j. j \<noteq> ?j \<longrightarrow> be_read_meta b j t = be_read_meta b j s"
    "\<exists>m. be_read_meta b ?j t = Some m \<and> sm_head m = Some (ck_id c)" by auto
  have sess: "set (be_read_session b j t) =
      (if j = ?j then {norm stored} else {}) \<union> set (be_read_session b j s)" for j
    using session_after_write [OF inv _ t(1,2)] assms(2) ids by simp
  have inj: "inj_on ck_seq (set (be_read_session b j s))" for j using assms(1) by (simp add: numbered_def)
  note bound = next_seq_bound [of ?j s]
  have hist: "history b ?j t = history b ?j s @ [norm stored]"
  proof (rule history_eqI [OF t(1)])
    show "set (history b ?j s @ [norm stored]) = set (be_read_session b ?j t)"
      by (simp add: sess history_set)
    show "distinct (history b ?j s @ [norm stored])"
      using history_distinct [OF inv] bound(1) by (auto simp: history_set norm ids)
    show "sorted (map ck_seq (history b ?j s @ [norm stored]))"
      using bound(1) history_sorted [of ?j s] by (auto simp: sorted_append history_set norm ids)
    show "inj_on ck_seq (set (history b ?j s @ [norm stored]))"
      using inj bound(1) by (auto simp: history_set norm ids)
  qed
  have others: "history b j t = history b j s" if "j \<noteq> ?j" for j
    by (rule history_eqI [OF t(1)])
      (use that inj in \<open>simp_all add: sess history_set history_distinct [OF inv] history_sorted\<close>)
  have "numbered t"
    using assms(1) t(1) bound by (auto simp: numbered_def sess norm ids)
  moreover have "owned t" if "owned s"
    using that t(3,4) unfolding owned_def sess by (metis Un_iff empty_iff option.distinct(1))
  ultimately show ?thesis
    using t hist others st ids by (auto simp: head_of_def)
qed

lemma same_reads_numbered:
  assumes "numbered s" and "inv t" and "\<forall>i. be_read_checkpoint b i t = be_read_checkpoint b i s"
  shows "numbered t"
proof -
  have "set (be_read_session b j t) = set (be_read_session b j s)" for j
    using assms by (simp add: session_reads numbered_def)
  then show ?thesis using assms(1,2) by (simp add: numbered_def)
qed

lemma write_numbered:
  assumes "numbered s" and "be_read_checkpoint b (ck_id c) s = None"
    and "be_write_checkpoint b (c\<lparr>ck_seq := next_seq b (ck_session c) s\<rparr>) s = (Inr (), t)"
  shows "numbered t"
proof -
  let ?c = "c\<lparr>ck_seq := next_seq b (ck_session c) s\<rparr>"
  have inv: "inv s" using assms(1) by (simp add: numbered_def)
  from write_ok [OF inv _ assms(3)] assms(2) have t: "inv t"
    "\<forall>i. be_read_checkpoint b i t = (if i = ck_id ?c then Some (norm ?c) else be_read_checkpoint b i s)" by auto
  have sess: "set (be_read_session b j t) = (if j = ck_session ?c then {norm ?c} else {}) \<union> set (be_read_session b j s)" for j
    using session_after_write [OF inv _ t] assms(2) by simp
  show ?thesis
    using assms(1) t(1) next_seq_bound [of "ck_session c" s] by (auto simp: numbered_def sess norm)
qed

text \<open>A put that raises has written the checkpoint or nothing.\<close>

lemma put_fails:
  assumes "numbered s" and "be_read_checkpoint b (ck_id c) s = None" and "put b now c s = (Inl e, t)"
  shows "numbered t \<and> (\<forall>j. be_read_meta b j t = be_read_meta b j s) \<and>
    (\<forall>i. i \<noteq> ck_id c \<longrightarrow> be_read_checkpoint b i t = be_read_checkpoint b i s) \<and>
    (t = s \<or> be_read_checkpoint b (ck_id c) t = Some (norm (c\<lparr>ck_seq := next_seq b (ck_session c) s\<rparr>)))"
proof -
  let ?c = "c\<lparr>ck_seq := next_seq b (ck_session c) s\<rparr>"
  have inv: "inv s" using assms(1) by (simp add: numbered_def)
  show ?thesis
  proof (cases "be_write_checkpoint b ?c s")
    case (Pair r u)
    show ?thesis
    proof (cases r)
      case (Inl e')
      then have "t = u" using assms(3) Pair by (simp add: put_def bindM_getM Let_def bindM_Inl)
      moreover have "u = s" using write_fails [OF inv] Pair Inl by blast
      ultimately show ?thesis using assms(1) by simp
    next
      case (Inr x)
      then have w: "be_write_checkpoint b ?c s = (Inr (), u)" using Pair by simp
      from write_ok [OF inv _ w] assms(2) have u: "inv u" "\<forall>j. be_read_meta b j u = be_read_meta b j s"
        "\<forall>i. be_read_checkpoint b i u = (if i = ck_id c then Some (norm ?c) else be_read_checkpoint b i s)" by auto
      have "advance_head b now ?c u = (Inl e, t)"
        using assms(3) w by (auto simp: put_def bindM_getM Let_def bindM_Inr bindM_Inl_iff returnM_app)
      then have "t = u" using write_meta_fails [OF u(1)] unfolding advance_head_def bindM_getM by blast
      then show ?thesis using u write_numbered [OF assms(1,2) w] by simp
    qed
  qed
qed

lemma numbered_history: "numbered s \<Longrightarrow> sorted_wrt (<) (map ck_seq (history b j s))"
  by (simp add: strict_sorted_iff history_sorted distinct_map history_distinct history_set numbered_def)

lemma distinct_ids:
  assumes "inv s"
  shows "distinct (map ck_id (history b j s))"
proof -
  have "inj_on ck_id (set (history b j s))"
  proof (rule inj_onI)
    fix x y
    assume "x \<in> set (history b j s)" "y \<in> set (history b j s)" and id: "ck_id x = ck_id y"
    then have x: "be_read_checkpoint b (ck_id x) s = Some x" and y: "be_read_checkpoint b (ck_id y) s = Some y"
      using assms by (simp_all add: history_set session_reads)
    have "Some x = Some y" unfolding x [symmetric] y [symmetric] id by (rule refl)
    then show "x = y" by simp
  qed
  then show ?thesis using history_distinct [OF assms] by (simp add: distinct_map)
qed

lemma head_stored:
  assumes "inv s" and "head_of b j s = Some h"
  obtains m where "be_read_meta b j s = Some m" and "sm_head m = Some (ck_id h)"
    and "be_read_checkpoint b (ck_id h) s = Some h"
proof -
  from assms(2) obtain m i where m: "be_read_meta b j s = Some m" "sm_head m = Some i" "be_read_checkpoint b i s = Some h"
    unfolding head_of_def by (auto split: option.splits)
  moreover have "ck_id h = i" by (rule read_id [OF assms(1) m(3)])
  ultimately show thesis by (intro that) simp_all
qed

lemma delete_all_ok:
  "inv s \<Longrightarrow> \<exists>t. delete_all b cs s = (Inr (), t) \<and> inv t \<and>
     (\<forall>j. be_read_meta b j t = be_read_meta b j s) \<and>
     (\<forall>k. be_read_checkpoint b k t = (if k \<in> ck_id ` set cs then None else be_read_checkpoint b k s))"
proof (induction cs arbitrary: s)
  case Nil
  then show ?case by (simp add: returnM_app)
next
  case (Cons c cs)
  from delete_ok [OF Cons.prems, of "ck_id c"] obtain u where u: "be_delete_checkpoint b (ck_id c) s = (Inr (), u)" "inv u"
    "\<forall>j. be_read_meta b j u = be_read_meta b j s"
    "\<forall>k. be_read_checkpoint b k u = (if k = ck_id c then None else be_read_checkpoint b k s)" by blast
  from Cons.IH [OF u(2)] obtain t where "delete_all b cs u = (Inr (), t)" "inv t"
     "\<forall>j. be_read_meta b j t = be_read_meta b j u"
     "\<forall>k. be_read_checkpoint b k t = (if k \<in> ck_id ` set cs then None else be_read_checkpoint b k u)" by blast
  with u show ?case by (auto simp: bindM_Inr)
qed

lemma write_all_ok:
  "inv s \<Longrightarrow> distinct (map ck_id cs) \<Longrightarrow> \<forall>c \<in> set cs. be_read_checkpoint b (ck_id c) s = None \<Longrightarrow>
   write_all b cs s = (Inr (), t) \<Longrightarrow>
   inv t \<and> (\<forall>j. be_read_meta b j t = be_read_meta b j s) \<and>
   (\<forall>i. i \<notin> ck_id ` set cs \<longrightarrow> be_read_checkpoint b i t = be_read_checkpoint b i s) \<and>
   (\<forall>c \<in> set cs. be_read_checkpoint b (ck_id c) t = Some (norm c))"
proof (induction cs arbitrary: s)
  case (Cons c cs)
  obtain u where w: "be_write_checkpoint b c s = (Inr (), u)" and a: "write_all b cs u = (Inr (), t)"
    using Cons.prems(4) by (auto simp: bindM_Inr_iff)
  from write_ok [OF Cons.prems(1) _ w] Cons.prems(3) have u: "inv u" "\<forall>j. be_read_meta b j u = be_read_meta b j s"
    "\<forall>i. be_read_checkpoint b i u = (if i = ck_id c then Some (norm c) else be_read_checkpoint b i s)" by auto
  have fresh: "\<forall>d \<in> set cs. ck_id d \<noteq> ck_id c" using Cons.prems(2) by (auto simp: image_iff)
  have "\<forall>d \<in> set cs. be_read_checkpoint b (ck_id d) u = None" using Cons.prems(3) u(3) fresh by simp
  from Cons.IH [OF u(1) _ this a] Cons.prems(2) u fresh show ?case by (auto simp: image_iff)
qed (simp add: returnM_app)

lemma ingested_sessions:
  assumes "inv s" and "inv t" and "\<forall>c \<in> set cs. be_read_checkpoint b (ck_id c) s = None"
    and "\<forall>i. i \<notin> ck_id ` set cs \<longrightarrow> be_read_checkpoint b i t = be_read_checkpoint b i s"
    and "\<forall>c \<in> set cs. be_read_checkpoint b (ck_id c) t = Some (norm c)"
  shows "set (be_read_session b j t) = norm ` {c \<in> set cs. ck_session c = j} \<union> set (be_read_session b j s)"
proof (rule set_eqI)
  fix c
  show "c \<in> set (be_read_session b j t) \<longleftrightarrow> c \<in> norm ` {c \<in> set cs. ck_session c = j} \<union> set (be_read_session b j s)"
  proof (cases "ck_id c \<in> ck_id ` set cs")
    case True
    then obtain d where d: "d \<in> set cs" "ck_id c = ck_id d" by auto
    then have "c \<in> set (be_read_session b j t) \<longleftrightarrow> c = norm d \<and> ck_session c = j"
      using assms(5) by (auto simp: session_reads [OF assms(2)])
    moreover have "c \<notin> set (be_read_session b j s)"
      using d assms(3) by (simp add: session_reads [OF assms(1)])
    moreover have "c \<in> norm ` {c \<in> set cs. ck_session c = j} \<longleftrightarrow> c = norm d \<and> ck_session c = j"
      using d assms(5) norm by (auto simp: image_iff) (metis option.inject)+
    ultimately show ?thesis by simp
  next
    case False
    then have "c \<notin> norm ` {c \<in> set cs. ck_session c = j}" by (auto simp: norm)
    then show ?thesis using False assms(4) by (simp add: session_reads [OF assms(1)] session_reads [OF assms(2)])
  qed
qed

lemma ingest_correct:
  assumes "numbered s" and "distinct (map ck_id cs)" and "\<forall>c \<in> set cs. be_read_checkpoint b (ck_id c) s = None"
    and "be_read_session b (sm_id meta) s = []" and "\<forall>c \<in> set cs. ck_session c = sm_id meta \<and> 0 \<le> ck_seq c"
    and "inj_on ck_seq (set cs)" and "ingest b meta cs s = (Inr (), t)"
  shows "numbered t \<and> (owned s \<longrightarrow> owned t) \<and> history b (sm_id meta) t = map norm (sort_key ck_seq cs) \<and>
    be_read_meta b (sm_id meta) t = Some meta \<and>
    (\<forall>j. j \<noteq> sm_id meta \<longrightarrow> history b j t = history b j s \<and> be_read_meta b j t = be_read_meta b j s) \<and>
    (\<forall>i. i \<notin> ck_id ` set cs \<longrightarrow> be_read_checkpoint b i t = be_read_checkpoint b i s)"
proof -
  let ?j = "sm_id meta"
  have inv: "inv s" using assms(1) by (simp add: numbered_def)
  obtain u where w: "write_all b (sort_key ck_seq cs) s = (Inr (), u)" and m: "be_write_meta b meta u = (Inr (), t)"
    using assms(7) by (auto simp: ingest_def bindM_Inr_iff)
  have d: "distinct (map ck_id (sort_key ck_seq cs))" using assms(2) by (simp add: distinct_map)
  from write_all_ok [OF inv d _ w] assms(3) have u: "inv u" "\<forall>j. be_read_meta b j u = be_read_meta b j s"
    "\<forall>i. i \<notin> ck_id ` set cs \<longrightarrow> be_read_checkpoint b i u = be_read_checkpoint b i s"
    "\<forall>c \<in> set cs. be_read_checkpoint b (ck_id c) u = Some (norm c)" by auto
  from write_meta_ok [OF u(1) m] u(2) have t: "inv t" "be_read_meta b ?j t = Some meta"
    "\<forall>i. be_read_checkpoint b i t = be_read_checkpoint b i u" "\<forall>j. j \<noteq> ?j \<longrightarrow> be_read_meta b j t = be_read_meta b j s"
    by auto
  have sess: "set (be_read_session b j t) = (if j = ?j then norm ` set cs else set (be_read_session b j s))" for j
    using ingested_sessions [OF inv t(1) assms(3)] u(3,4) t(3) assms(4,5) by auto
  have places: "inj_on ck_seq (norm ` set cs)" using assms(6) by (auto simp: inj_on_def norm)
  have hist: "history b ?j t = map norm (sort_key ck_seq cs)"
  proof (rule history_eqI [OF t(1)])
    show "distinct (map norm (sort_key ck_seq cs))"
      using assms(2) by (simp add: distinct_map inj_on_def) (metis norm(1))
    show "sorted (map ck_seq (map norm (sort_key ck_seq cs)))" by (simp add: o_def norm)
  qed (use places in \<open>simp_all add: sess\<close>)
  have others: "history b j t = history b j s" if "j \<noteq> ?j" for j
    by (rule history_eqI [OF t(1)])
      (use that assms(1) in \<open>simp_all add: sess history_set history_distinct [OF inv] history_sorted numbered_def\<close>)
  have "numbered t"
    using assms(1,5) t(1) places by (auto simp: numbered_def sess norm)
  moreover have "owned t" if "owned s"
    using that t(2,4) unfolding owned_def sess by (metis option.distinct(1))
  ultimately show ?thesis using hist others t u(3) by simp
qed

lemma session_ids: "inv s \<Longrightarrow> c \<in> set (be_read_session b j s) \<Longrightarrow> be_read_checkpoint b (ck_id c) s = Some c"
  by (simp add: session_reads)

lemma prune_correct:
  assumes "numbered s" and "victims = take (excess h k rs) rs" and "rs = removable h (history b j s)"
    and "h = (case be_read_meta b j s of None \<Rightarrow> None | Some m \<Rightarrow> sm_head m)"
  shows "\<exists>t. prune b j (Some k) s = (Inr (), t) \<and> numbered t \<and> (owned s \<longrightarrow> owned t) \<and>
    history b j t = filter (\<lambda>c. c \<notin> set victims) (history b j s) \<and>
    (\<forall>j. be_read_meta b j t = be_read_meta b j s) \<and>
    (\<forall>i. j \<noteq> i \<longrightarrow> history b i t = history b i s)"
proof -
  have inv: "inv s" using assms(1) by (simp add: numbered_def)
  obtain t where t: "delete_all b victims s = (Inr (), t)" "inv t" "\<forall>j. be_read_meta b j t = be_read_meta b j s"
    "\<forall>k. be_read_checkpoint b k t = (if k \<in> ck_id ` set victims then None else be_read_checkpoint b k s)"
    using delete_all_ok [OF inv] by blast
  have "set victims \<subseteq> set rs" using assms(2) by (simp add: set_take_subset)
  then have vs: "set victims \<subseteq> set (be_read_session b j s)"
    using assms(3) by (auto simp: removable_def Let_def history_set)
  have sess: "set (be_read_session b i t) = set (be_read_session b i s) - set victims" for i
    using vs inv by (auto simp: session_reads [OF t(2)] session_reads [OF inv] t(4) split: if_splits)
  have disj: "i \<noteq> j \<Longrightarrow> set (be_read_session b i s) \<inter> set victims = {}" for i
    using vs by (auto simp: session_reads [OF inv])
  have inj: "inj_on ck_seq (set (be_read_session b i s))" for i using assms(1) by (simp add: numbered_def)
  have "history b i t = filter (\<lambda>c. c \<notin> set victims) (history b i s)" for i
  proof (rule history_eqI [OF t(2)])
    show "sorted (map ck_seq (filter (\<lambda>c. c \<notin> set victims) (history b i s)))"
      using history_sorted by (rule sorted_filter)
    show "inj_on ck_seq (set (filter (\<lambda>c. c \<notin> set victims) (history b i s)))"
      by (rule inj_on_subset [OF inj]) (auto simp: history_set)
  qed (use history_distinct [OF inv] in \<open>auto simp: sess history_set\<close>)
  moreover have "i \<noteq> j \<Longrightarrow> filter (\<lambda>c. c \<notin> set victims) (history b i s) = history b i s" for i
    using disj [of i] by (auto simp: filter_id_conv history_set)
  moreover have "numbered t"
    using assms(1) t(2) by (auto simp: numbered_def sess intro: inj_on_subset)
  moreover have "owned t" if "owned s" using that t(3) by (auto simp: owned_def sess)
  ultimately show ?thesis
    using t assms by (intro exI [of _ t]) (auto simp: prune_def bindM_getM Let_def)
qed

lemma put_meta_numbered:
  assumes "numbered s" and "put_meta b m s = (r, t)"
  shows "numbered t"
proof (cases r)
  case (Inl e)
  then have "t = s" using assms write_meta_fails unfolding put_meta_def numbered_def by blast
  then show ?thesis using assms(1) by simp
next
  case (Inr x)
  then have "be_write_meta b m s = (Inr (), t)" using assms(2) by (simp add: put_meta_def)
  then show ?thesis
    using assms(1) write_meta_ok same_reads_numbered unfolding numbered_def by blast
qed

lemma writes_numbered:
  assumes "numbered s" and "distinct (map ck_id cs)" and "\<forall>c \<in> set cs. be_read_checkpoint b (ck_id c) s = None"
    and "be_read_session b j s = []" and "\<forall>c \<in> set cs. ck_session c = j \<and> 0 \<le> ck_seq c"
    and "inj_on ck_seq (set cs)" and "write_all b cs s = (Inr (), t)"
  shows "numbered t"
proof -
  have inv: "inv s" using assms(1) by (simp add: numbered_def)
  from write_all_ok [OF inv assms(2,3,7)] have t: "inv t"
    "\<forall>i. i \<notin> ck_id ` set cs \<longrightarrow> be_read_checkpoint b i t = be_read_checkpoint b i s"
    "\<forall>c \<in> set cs. be_read_checkpoint b (ck_id c) t = Some (norm c)" by auto
  have sess: "set (be_read_session b i t) = (if i = j then norm ` set cs else set (be_read_session b i s))" for i
    using ingested_sessions [OF inv t(1) assms(3) t(2,3)] assms(4,5) by auto
  have "inj_on ck_seq (norm ` set cs)" using assms(6) by (auto simp: inj_on_def norm)
  then show ?thesis using assms(1,5) t(1) by (auto simp: numbered_def sess norm)
qed

lemma write_all_fails:
  "inv s \<Longrightarrow> distinct (map ck_id cs) \<Longrightarrow> \<forall>c \<in> set cs. be_read_checkpoint b (ck_id c) s = None \<Longrightarrow>
   write_all b cs s = (Inl e, t) \<Longrightarrow> \<exists>k. write_all b (take k cs) s = (Inr (), t)"
proof (induction cs arbitrary: s)
  case (Cons c cs)
  show ?case
  proof (cases "\<exists>u. be_write_checkpoint b c s = (Inr (), u)")
    case True
    then obtain u where w: "be_write_checkpoint b c s = (Inr (), u)" by blast
    from write_ok [OF Cons.prems(1) _ w] Cons.prems(3) have u: "inv u"
      "\<forall>i. be_read_checkpoint b i u = (if i = ck_id c then Some (norm c) else be_read_checkpoint b i s)" by auto
    have "\<forall>d \<in> set cs. be_read_checkpoint b (ck_id d) u = None" using Cons.prems(2,3) u(2) by (auto simp: image_iff)
    moreover have "write_all b cs u = (Inl e, t)" using Cons.prems(4) w by (simp add: bindM_Inr)
    ultimately obtain k where "write_all b (take k cs) u = (Inr (), t)" using Cons.IH [OF u(1)] Cons.prems(2) by auto
    then show ?thesis using w by (intro exI [of _ "Suc k"]) (simp add: bindM_Inr)
  next
    case False
    then have "be_write_checkpoint b c s = (Inl e, t)" using Cons.prems(4) by (auto simp: bindM_Inl_iff)
    then have "t = s" using write_fails [OF Cons.prems(1)] by blast
    then show ?thesis by (intro exI [of _ 0]) (simp add: returnM_app)
  qed
qed (simp add: returnM_app)

lemma ingest_numbered:
  assumes "numbered s" and "distinct (map ck_id cs)" and "\<forall>c \<in> set cs. be_read_checkpoint b (ck_id c) s = None"
    and "be_read_session b (sm_id m) s = []" and "\<forall>c \<in> set cs. ck_session c = sm_id m \<and> 0 \<le> ck_seq c"
    and "inj_on ck_seq (set cs)" and "ingest b m cs s = (r, t)"
  shows "numbered t"
proof -
  let ?cs = "sort_key ck_seq cs"
  have inv: "inv s" using assms(1) by (simp add: numbered_def)
  have d: "distinct (map ck_id ?cs)" using assms(2) by (simp add: distinct_map)
  have part: "numbered u" if w: "write_all b (take k ?cs) s = (Inr (), u)" for k u
  proof -
    have sub: "set (take k ?cs) \<subseteq> set cs" using set_take_subset [of k ?cs] by simp
    have "distinct (map ck_id (take k ?cs))" using d by (metis distinct_take take_map)
    then show ?thesis
      using sub assms(3,4,5) inj_on_subset [OF assms(6) sub] by (intro writes_numbered [OF assms(1) _ _ assms(4) _ _ w]) blast+
  qed
  show ?thesis
  proof (cases "write_all b ?cs s")
    case (Pair q u)
    show ?thesis
    proof (cases q)
      case (Inl e)
      then have "t = u" using assms(7) Pair by (simp add: ingest_def bindM_Inl)
      moreover obtain k where "write_all b (take k ?cs) s = (Inr (), u)"
        using write_all_fails [OF inv d] assms(3) Pair Inl by auto
      ultimately show ?thesis using part by blast
    next
      case (Inr x)
      then have w: "write_all b ?cs s = (Inr (), u)" using Pair by simp
      then have "put_meta b m u = (r, t)" using assms(7) by (simp add: ingest_def bindM_Inr put_meta_def)
      moreover have "numbered u" using part [of "length ?cs" u] w by simp
      ultimately show ?thesis by (rule put_meta_numbered [rotated])
    qed
  qed
qed

theorem step_numbered: "store_step b s t \<Longrightarrow> numbered s \<Longrightarrow> numbered t"
proof (induction rule: store_step.induct)
  case (put c s now r t)
  then show ?case by (cases r) (blast dest: put_fails, blast dest: put_correct)
next
  case (prune j keep s r t)
  show ?case
  proof (cases keep)
    case None
    then show ?thesis using prune by (simp add: prune_def returnM_app)
  next
    case (Some k)
    with prune prune_correct [OF prune.prems refl refl refl, of j k] show ?thesis by auto
  qed
qed (blast intro: put_meta_numbered ingest_numbered)+

lemma steps_numbered: "(store_step b)\<^sup>*\<^sup>* s t \<Longrightarrow> numbered s \<Longrightarrow> numbered t"
  by (induction rule: rtranclp_induct) (blast intro: step_numbered)+

end

subsection \<open>What pruning removes\<close>

lemma removable_set: "set (removable h cs) = {c \<in> set cs. Some (ck_id c) \<noteq> h}"
  by (auto simp: removable_def Let_def)

lemma removable_length:
  assumes "distinct (map ck_id cs)"
  shows "length (removable h cs) = length cs - (if h \<in> Some ` ck_id ` set cs then 1 else 0)"
proof -
  have "length (filter (\<lambda>c. Some (ck_id c) \<noteq> h) cs) = length cs - (if h \<in> Some ` ck_id ` set cs then 1 else 0)"
    using assms
  proof (induction cs)
    case (Cons c cs)
    have "\<forall>d \<in> set cs. ck_id d \<noteq> ck_id c"
      using Cons.prems by (metis distinct.simps(2) image_eqI list.simps(9) list.set_map)
    then have "h = Some (ck_id c) \<Longrightarrow> filter (\<lambda>d. Some (ck_id d) \<noteq> h) cs = cs"
      by (simp add: filter_id_conv)
    with Cons show ?case by (cases "cs") (auto split: if_splits)
  qed simp
  then show ?thesis by (simp add: removable_def Let_def)
qed

definition chain_of :: "string option \<Rightarrow> Checkpoint list \<Rightarrow> string list" where
  "chain_of h cs = head_chain (rev (map (\<lambda>c. (ck_id c, c)) cs)) h []"

text \<open>A checkpoint goes before another when it is off the chain and the other is not, or when it is older.\<close>

lemma victims_come_first:
  assumes "v \<in> set (take e (removable h cs))" and "c \<in> set (drop e (removable h cs))"
  shows "(ck_id v \<in> set (chain_of h cs), ck_seq v) \<le> (ck_id c \<in> set (chain_of h cs), ck_seq c)"
proof -
  let ?f = "\<lambda>c. (ck_id c \<in> set (chain_of h cs), ck_seq c)"
  have "sorted (map ?f (removable h cs))"
    by (simp add: removable_def Let_def chain_of_def)
  then have "sorted (map ?f (take e (removable h cs)) @ map ?f (drop e (removable h cs)))"
    by (simp flip: map_append)
  then show ?thesis using assms by (auto simp: sorted_append)
qed

lemma prune_arith:
  "0 < n \<Longrightarrow> 0 \<le> k \<Longrightarrow> n - min (n - 1) (nat (int (n - 1) - max (k - 1) 0)) = min n (max (nat k) 1)"
  by (cases n; cases "k \<le> 1") (auto simp: min_def max_def)

lemma pruned_length:
  assumes "distinct (map ck_id cs)" and "h \<in> Some ` ck_id ` set cs" and "h \<noteq> Some []" and "0 \<le> k"
  shows "length (filter (\<lambda>c. c \<notin> set (take (excess h k (removable h cs)) (removable h cs))) cs) =
    min (length cs) (max (nat k) 1)"
proof -
  let ?rs = "removable h cs"
  let ?v = "take (excess h k ?rs) ?rs"
  have d: "distinct cs" "distinct ?rs"
    using assms(1) by (auto simp: distinct_map removable_def Let_def)
  have "set ?v \<subseteq> set cs" using removable_set [of h cs] set_take_subset [of "excess h k ?rs" ?rs] by auto
  then have "card (set cs - set ?v) = length cs - length ?v"
    using d by (simp add: card_Diff_subset distinct_card)
  then have "length (filter (\<lambda>c. c \<notin> set ?v) cs) = length cs - length ?v"
    using d distinct_card [of "filter (\<lambda>c. c \<notin> set ?v) cs"] by (simp add: set_diff_eq)
  moreover have rs: "length ?rs = length cs - 1" and "0 < length cs"
    using removable_length [OF assms(1), of h] assms(2) by auto
  moreover have "length ?v = min (length ?rs) (excess h k ?rs)" by (simp only: length_take min.commute)
  moreover have "excess h k ?rs = nat (int (length cs - 1) - max (k - 1) 0)"
    using assms(2,3) by (auto simp: excess_def rs)
  ultimately show ?thesis by (simp only: prune_arith [OF _ assms(4)])
qed

subsection \<open>The in-memory backend\<close>

record MemoryStore =
  ms_checkpoints :: "(string \<times> Checkpoint) list"
  ms_meta :: "(string \<times> SessionMeta) list"

definition memory_start :: MemoryStore where
  "memory_start = \<lparr>ms_checkpoints = [], ms_meta = []\<rparr>"

definition memory_backend :: "MemoryStore Backend" where
  "memory_backend = \<lparr>
     be_write_checkpoint = (\<lambda>c. updM (\<lambda>s. s\<lparr>ms_checkpoints := dict_put (ck_id c) c (ms_checkpoints s)\<rparr>)),
     be_read_checkpoint = (\<lambda>i s. map_of (ms_checkpoints s) i),
     be_read_session = (\<lambda>j s. filter (\<lambda>c. ck_session c = j) (map snd (ms_checkpoints s))),
     be_delete_checkpoint = (\<lambda>i. updM (\<lambda>s. s\<lparr>ms_checkpoints := filter (\<lambda>(k, c). k \<noteq> i) (ms_checkpoints s)\<rparr>)),
     be_write_meta = (\<lambda>m. updM (\<lambda>s. s\<lparr>ms_meta := dict_put (sm_id m) m (ms_meta s)\<rparr>)),
     be_read_meta = (\<lambda>j s. map_of (ms_meta s) j),
     be_read_all_meta = (\<lambda>s. map snd (ms_meta s))\<rparr>"

definition memory_inv :: "MemoryStore \<Rightarrow> bool" where
  "memory_inv s \<longleftrightarrow> dict_wf (ms_checkpoints s) \<and> dict_wf (ms_meta s) \<and>
     (\<forall>(i, c) \<in> set (ms_checkpoints s). ck_id c = i) \<and> (\<forall>(j, m) \<in> set (ms_meta s). sm_id m = j)"

lemma dict_put_members:
  "dict_wf d \<Longrightarrow> (k', v') \<in> set (dict_put k v d) \<longleftrightarrow> (if k' = k then v' = v else (k', v') \<in> set d)"
  by (metis dict_put_get dict_put_wf dict_wf_lookup fun_upd_apply option.inject)

lemma map_of_filter_key: "map_of (filter (\<lambda>(k, v). k \<noteq> i) d) j = (if j = i then None else map_of d j)"
  by (induction d) auto

lemma distinct_values:
  assumes "dict_wf d" and "\<forall>(i, c) \<in> set d. f c = i"
  shows "distinct (map snd d)"
proof -
  have "map f (map snd d) = map fst d" using assms(2) by auto
  then have "distinct (map f (map snd d))" using assms(1) by (simp only: dict_wf_def)
  then show ?thesis by (simp only: distinct_map)
qed

lemma values_by_key:
  assumes "dict_wf d" and "\<forall>(i, c) \<in> set d. f c = i"
  shows "c \<in> snd ` set d \<longleftrightarrow> map_of d (f c) = Some c"
proof
  assume "c \<in> snd ` set d"
  then obtain i where "(i, c) \<in> set d" by auto
  then show "map_of d (f c) = Some c" using assms by (auto simp: dict_wf_lookup)
next
  assume "map_of d (f c) = Some c"
  then have "(f c, c) \<in> set d" by (rule map_of_SomeD)
  then show "c \<in> snd ` set d" by (rule image_eqI [rotated]) simp
qed

interpretation memory: checkpoint_store memory_backend memory_inv "\<lambda>c. c"
proof unfold_locales
  fix s i c
  assume "memory_inv s" "be_read_checkpoint memory_backend i s = Some c"
  then show "ck_id c = i" by (auto simp: memory_inv_def memory_backend_def dest: map_of_SomeD)
next
  fix s j m
  assume "memory_inv s" "be_read_meta memory_backend j s = Some m"
  then show "sm_id m = j" by (auto simp: memory_inv_def memory_backend_def dest: map_of_SomeD)
next
  fix s j
  assume "memory_inv s"
  then show "set (be_read_session memory_backend j s) =
      {c. be_read_checkpoint memory_backend (ck_id c) s = Some c \<and> ck_session c = j}"
    using values_by_key [of "ms_checkpoints s" ck_id] by (auto simp: memory_inv_def memory_backend_def)
next
  fix s j
  assume "memory_inv s"
  then show "distinct (be_read_session memory_backend j s)"
    using distinct_values [of "ms_checkpoints s" ck_id] by (simp add: memory_inv_def memory_backend_def)
next
  fix s c t
  assume "memory_inv s" "be_write_checkpoint memory_backend c s = (Inr (), t)"
  then show "memory_inv t \<and> (\<forall>j. be_read_meta memory_backend j t = be_read_meta memory_backend j s) \<and>
     (\<forall>i. be_read_checkpoint memory_backend i t =
        (if i = ck_id c then Some c else be_read_checkpoint memory_backend i s))"
    by (auto simp: memory_inv_def memory_backend_def updM_app dict_put_members split: if_splits)
next
  fix s i
  assume "memory_inv s"
  then show "\<exists>t. be_delete_checkpoint memory_backend i s = (Inr (), t) \<and> memory_inv t \<and>
     (\<forall>j. be_read_meta memory_backend j t = be_read_meta memory_backend j s) \<and>
     (\<forall>k. be_read_checkpoint memory_backend k t = (if k = i then None else be_read_checkpoint memory_backend k s))"
    by (auto simp: memory_inv_def memory_backend_def updM_app map_of_filter_key dict_wf_def distinct_map_filter)
next
  fix s m t
  assume "memory_inv s" "be_write_meta memory_backend m s = (Inr (), t)"
  then show "memory_inv t \<and> (\<forall>i. be_read_checkpoint memory_backend i t = be_read_checkpoint memory_backend i s) \<and>
     (\<forall>j. be_read_meta memory_backend j t = (if j = sm_id m then Some m else be_read_meta memory_backend j s))"
    by (auto simp: memory_inv_def memory_backend_def updM_app dict_put_members split: if_splits)
next
  fix s
  assume "memory_inv s"
  then show "set (be_read_all_meta memory_backend s) = {m. be_read_meta memory_backend (sm_id m) s = Some m}"
    using values_by_key [of "ms_meta s" sm_id] by (auto simp: memory_inv_def memory_backend_def)
qed (simp_all add: memory_backend_def updM_app)

text \<open>The states the in-memory store can reach.\<close>

definition store_reachable :: "MemoryStore \<Rightarrow> bool" where
  "store_reachable s \<longleftrightarrow> (store_step memory_backend)\<^sup>*\<^sup>* memory_start s"

lemma memory_total:
  "be_write_checkpoint memory_backend c s = (Inr (), s\<lparr>ms_checkpoints := dict_put (ck_id c) c (ms_checkpoints s)\<rparr>)"
  "be_write_meta memory_backend m s = (Inr (), s\<lparr>ms_meta := dict_put (sm_id m) m (ms_meta s)\<rparr>)"
  by (simp_all add: memory_backend_def updM_app)

lemma memory_put_total: "\<exists>stored t. put memory_backend now c s = (Inr stored, t)"
  by (simp add: put_def advance_head_def bindM_getM Let_def bindM_Inr memory_total returnM_app)

lemma memory_write_all_total: "\<exists>t. write_all memory_backend cs s = (Inr (), t)"
  by (induction cs arbitrary: s) (simp_all add: returnM_app bindM_Inr memory_total)

lemma memory_ingest_total: "\<exists>t. ingest memory_backend m cs s = (Inr (), t)"
  using memory_write_all_total [of "sort_key ck_seq cs" s] by (auto simp: ingest_def bindM_Inr memory_total)

lemma memory_step_owned: "store_step memory_backend s t \<Longrightarrow> memory.numbered s \<Longrightarrow> memory.owned s \<Longrightarrow> memory.owned t"
proof (induction rule: store_step.induct)
  case (put c s now r t)
  then obtain stored where "put memory_backend now c s = (Inr stored, t)" using memory_put_total [of now c s] by auto
  from memory.put_correct [OF put.prems(1) put.hyps(1) this] put.prems(2) show ?case by blast
next
  case (put_meta m s r t)
  then have w: "be_write_meta memory_backend m s = (Inr (), t)" by (simp add: put_meta_def memory_total)
  have inv: "memory_inv s" using put_meta.prems by (simp add: memory.numbered_def)
  note t = memory.write_meta_ok [OF inv w]
  then have "set (be_read_session memory_backend j t) = set (be_read_session memory_backend j s)" for j
    by (simp add: memory.session_reads inv)
  with put_meta.prems t show ?case by (simp add: memory.owned_def)
next
  case (ingest cs s m r t)
  then have "ingest memory_backend m cs s = (Inr (), t)" using memory_ingest_total [of m cs s] by auto
  with ingest memory.ingest_correct show ?case by blast
next
  case (prune j keep s r t)
  show ?case
  proof (cases keep)
    case None
    then show ?thesis using prune by (simp add: prune_def returnM_app)
  next
    case (Some k)
    with prune memory.prune_correct [OF prune.prems(1) refl refl refl, of j k] show ?thesis by auto
  qed
qed

lemma store_reachable_numbered: "store_reachable s \<Longrightarrow> memory.numbered s \<and> memory.owned s"
  unfolding store_reachable_def
proof (induction rule: rtranclp_induct)
  case base
  show ?case
    unfolding memory.numbered_def memory.owned_def by (simp add: memory_inv_def memory_start_def memory_backend_def)
next
  case (step s t)
  then show ?case by (blast intro: memory.step_numbered memory_step_owned)
qed

lemma store_reachable_put:
  "store_reachable s \<Longrightarrow> be_read_checkpoint memory_backend (ck_id c) s = None \<Longrightarrow>
   store_reachable (snd (put memory_backend now c s))"
  unfolding store_reachable_def
  by (erule rtranclp.rtrancl_into_rtrancl) (rule store_step.put [OF _ surjective_pairing])

subsection \<open>Properties\<close>


definition demo_store_one :: MemoryStore where
  "demo_store_one = snd (put memory_backend ''t1'' (demo_checkpoint ''c1'' None) memory_start)"

definition demo_store :: MemoryStore where
  "demo_store = snd (put memory_backend ''t2'' (demo_checkpoint ''c2'' (Some ''c1'')) demo_store_one)"

lemma demo_store_unused:
  "be_read_checkpoint memory_backend ''c1'' memory_start = None"
  "be_read_checkpoint memory_backend ''c2'' demo_store_one = None"
  by (simp_all add: demo_store_one_def put_def advance_head_def bindM_getM Let_def bindM_Inr memory_total returnM_app
      memory_start_def demo_checkpoint_def) (simp_all add: memory_backend_def)

lemma demo_store_one_reachable: "store_reachable demo_store_one"
  unfolding demo_store_one_def
  by (rule store_reachable_put) (simp_all add: store_reachable_def demo_store_unused demo_checkpoint_def)

lemma demo_store_reachable: "store_reachable demo_store"
  unfolding demo_store_def
  by (rule store_reachable_put [OF demo_store_one_reachable]) (simp add: demo_store_unused demo_checkpoint_def)

lemma demo_store_is:
  "demo_store = \<lparr>ms_checkpoints =
      [(''c1'', demo_checkpoint ''c1'' None), (''c2'', (demo_checkpoint ''c2'' (Some ''c1''))\<lparr>ck_seq := 1\<rparr>)],
    ms_meta = [(''s1'', \<lparr>sm_id = ''s1'', sm_head = Some ''c2'', sm_parent = None, sm_agent = ''agent'',
      sm_status = ACTIVE, sm_created = ''t1'', sm_updated = ''t2'', sm_tags = []\<rparr>)]\<rparr>"
  by (simp add: demo_store_def demo_store_one_def put_def advance_head_def bindM_getM Let_def bindM_Inr memory_total
      returnM_app memory_start_def demo_checkpoint_def demo_run_state_def)
    (simp add: memory_backend_def next_seq_def)

lemma demo_history: "map ck_id (history memory_backend ''s1'' demo_store) = [''c1'', ''c2'']"
  by (simp add: demo_store_is history_def memory_backend_def demo_checkpoint_def)


text \<open>C31: pruning to \<open>k\<close> checkpoints leaves the smaller of the length of the log and \<open>max k 1\<close>,
  in their order, with the head among them.  A removed checkpoint comes before every one that stays, but the
  head: it is off the chain of the head and the other on it, or both are on one side and it is not newer.\<close>

theorem prune_keeps_head_and_newest:
  assumes "store_reachable s" and "head_of memory_backend j s = Some h" and "ck_session h = j" and "ck_id h \<noteq> []"
    and "0 \<le> k"
  shows "\<exists>t. prune memory_backend j (Some k) s = (Inr (), t) \<and> head_of memory_backend j t = Some h \<and>
    h \<in> set (history memory_backend j t) \<and>
    length (history memory_backend j t) = min (length (history memory_backend j s)) (max (nat k) 1) \<and>
    subseq (history memory_backend j t) (history memory_backend j s) \<and>
    (\<forall>v \<in> set (history memory_backend j s) - set (history memory_backend j t).
       \<forall>c \<in> set (history memory_backend j t) - {h}.
         (ck_id v \<in> set (chain_of (Some (ck_id h)) (history memory_backend j s)), ck_seq v) \<le>
         (ck_id c \<in> set (chain_of (Some (ck_id h)) (history memory_backend j s)), ck_seq c))"
proof -
  note num = store_reachable_numbered [OF assms(1), THEN conjunct1]
  then have inv: "memory_inv s" by (simp add: memory.numbered_def)
  let ?cs = "history memory_backend j s"
  let ?rs = "removable (Some (ck_id h)) ?cs"
  let ?v = "take (excess (Some (ck_id h)) k ?rs) ?rs"
  obtain m where m: "be_read_meta memory_backend j s = Some m" "sm_head m = Some (ck_id h)"
    and h: "be_read_checkpoint memory_backend (ck_id h) s = Some h"
    using memory.head_stored [OF inv assms(2)] by blast
  have mem: "h \<in> set ?cs" using h assms(3) by (simp add: memory.history_set memory.session_reads [OF inv])
  have ids: "distinct (map ck_id ?cs)" by (rule memory.distinct_ids [OF inv])
  obtain t where t: "prune memory_backend j (Some k) s = (Inr (), t)" "memory.numbered t"
    "history memory_backend j t = filter (\<lambda>c. c \<notin> set ?v) ?cs"
    "\<forall>j. be_read_meta memory_backend j t = be_read_meta memory_backend j s"
    using memory.prune_correct [where j = j and k = k, OF num refl refl refl] m by auto
  have "h \<notin> set ?v" using removable_set [of "Some (ck_id h)" ?cs] set_take_subset [of _ ?rs] by blast
  then have kept: "h \<in> set (history memory_backend j t)" using mem t(3) by simp
  have "memory_inv t" using t(2) by (simp add: memory.numbered_def)
  from memory.session_ids [OF this] kept have "be_read_checkpoint memory_backend (ck_id h) t = Some h"
    by (simp add: memory.history_set)
  then have "head_of memory_backend j t = Some h"
    using t(4) m by (simp add: head_of_def)
  moreover have "length (history memory_backend j t) = min (length ?cs) (max (nat k) 1)"
    unfolding t(3) using mem assms(4,5) by (intro pruned_length [OF ids]) auto
  moreover have "subseq (history memory_backend j t) ?cs" unfolding t(3) by simp
  moreover have "(ck_id v \<in> set (chain_of (Some (ck_id h)) ?cs), ck_seq v) \<le>
      (ck_id c \<in> set (chain_of (Some (ck_id h)) ?cs), ck_seq c)"
    if "v \<in> set ?cs - set (history memory_backend j t)" and "c \<in> set (history memory_backend j t) - {h}" for v c
  proof (rule victims_come_first)
    show "v \<in> set ?v" using that(1) t(3) by auto
    have "ck_id c \<noteq> ck_id h"
      using that(2) mem ids t(3) by (auto simp: distinct_map inj_on_def)
    then have "c \<in> set ?rs" using that(2) t(3) by (auto simp: removable_set)
    moreover have "c \<notin> set ?v" using that(2) t(3) by auto
    ultimately show "c \<in> set (drop (excess (Some (ck_id h)) k ?rs) ?rs)"
      by (metis UnE append_take_drop_id set_append)
  qed
  ultimately show ?thesis using t(1) kept by blast
qed

lemma prune_witness:
  "\<exists>t. prune memory_backend ''s1'' (Some 1) demo_store = (Inr (), t) \<and>
     map ck_id (history memory_backend ''s1'' t) = [''c2'']"
proof -
  define h where "h = (demo_checkpoint ''c2'' (Some ''c1''))\<lparr>ck_seq := 1\<rparr>"
  have head: "head_of memory_backend ''s1'' demo_store = Some h"
    by (simp add: demo_store_is head_of_def memory_backend_def h_def)
  obtain t where t: "prune memory_backend ''s1'' (Some 1) demo_store = (Inr (), t)"
    "h \<in> set (history memory_backend ''s1'' t)" "length (history memory_backend ''s1'' t) = 1"
    using prune_keeps_head_and_newest [OF demo_store_reachable head, of 1] arg_cong [OF demo_history, of length]
    by (auto simp: h_def demo_checkpoint_def)
  from t(2,3) have "history memory_backend ''s1'' t = [h]" by (cases "history memory_backend ''s1'' t") auto
  with t(1) show ?thesis by (simp add: h_def demo_checkpoint_def)
qed

end
