(* ===== verification/SE_Portable.thy ===== *)
theory SE_Portable
  imports SE_Store "HOL-Library.Multiset"
begin

text \<open>
  Portable bundles of a session (\<^verbatim>\<open>sessions/portable.py\<close>): the export of a session from any
  store and its import into any store, under its own or a new id.  A bundle is the list of the
  members of its archive, or \<open>None\<close> for bytes that are no archive.  A member read is the JSON value
  of its text; JSON data survives its text, and other data cannot be written.  The time of the
  export and the fresh ids are arguments.
\<close>

subsection \<open>Archives\<close>

datatype member = JsonMember pyval | BadText | BadBytes | BadCrc

type_synonym archive = "(string \<times> member) list"

text \<open>A number in at least eight digits, the sign among them.\<close>

definition pad8 :: "int \<Rightarrow> string" where
  "pad8 n = (let d = decimal (nat \<bar>n\<bar>) in
     if n < 0 then ''-'' @ replicate (7 - length d) (CHR ''0'') @ d else replicate (8 - length d) (CHR ''0'') @ d)"

definition checkpoint_file :: "Checkpoint \<Rightarrow> string" where
  "checkpoint_file c = pad8 (ck_seq c) @ ''-'' @ ck_id c @ ''.json''"

definition checkpoint_name :: "Checkpoint \<Rightarrow> string" where
  "checkpoint_name c = ''checkpoints/'' @ checkpoint_file c"

subsection \<open>Export\<close>

definition build_manifest :: "string \<Rightarrow> SessionMeta \<Rightarrow> Checkpoint list \<Rightarrow> dict" where
  "build_manifest now meta cs =
     [(''schema_version'', VInt schema_version),
      (''session_id'', VStr (sm_id meta)),
      (''checkpoint_count'', VInt (int (length cs))),
      (''exported_at'', VStr now)]"

definition write_json :: "string \<Rightarrow> dict \<Rightarrow> exn + string \<times> member" where
  "write_json name payload =
     (if clean keep_all (VDict payload) then Inr (name, JsonMember (VDict payload))
      else Inl (TypeError ''Object is not JSON serializable''))"

fun write_checkpoints :: "(string \<Rightarrow> pyval option) \<Rightarrow> Checkpoint list \<Rightarrow> exn + archive" where
  "write_checkpoints dump [] = Inr []"
| "write_checkpoints dump (c # cs) =
     bindE (write_json (checkpoint_name c) (checkpoint_to_dict dump c)) (\<lambda>m.
     bindE (write_checkpoints dump cs) (\<lambda>ms. Inr (m # ms)))"

definition write_bundle ::
  "(string \<Rightarrow> pyval option) \<Rightarrow> dict \<Rightarrow> SessionMeta \<Rightarrow> Checkpoint list \<Rightarrow> exn + archive" where
  "write_bundle dump manifest meta cs =
     bindE (write_json ''manifest.json'' manifest) (\<lambda>m.
     bindE (write_json ''meta.json'' (meta_to_dict meta)) (\<lambda>k.
     bindE (write_checkpoints dump cs) (\<lambda>ms. Inr (m # k # ms))))"

definition export :: "'s Backend \<Rightarrow> (string \<Rightarrow> pyval option) \<Rightarrow> string \<Rightarrow> string \<Rightarrow> 's \<Rightarrow> exn + archive" where
  "export b dump now session s =
     bindE (get_meta b session s) (\<lambda>meta.
     let cs = history b session s in write_bundle dump (build_manifest now meta cs) meta cs)"

subsection \<open>Reading a bundle\<close>

definition serialization_error :: "string \<Rightarrow> exn" where
  "serialization_error msg = session_error ''SessionSerializationError'' msg"

definition BadZipFile :: exn where
  "BadZipFile = Exn ''BadZipFile'' [''Exception'', ''BaseException''] ''bad archive''"

text \<open>The directory of an archive knows the last member of a name.\<close>

definition read_json :: "archive \<Rightarrow> string \<Rightarrow> exn + dict" where
  "read_json archive name =
     (case map_of (rev archive) name of
        None \<Rightarrow> Inl (serialization_error (''Session bundle missing required file: '' @ name @ ''.''))
      | Some BadBytes \<Rightarrow> Inl (serialization_error (''Session bundle file is corrupt: '' @ name @ ''.''))
      | Some BadText \<Rightarrow> Inl (serialization_error (''Session bundle file is not valid JSON: '' @ name @ ''.''))
      | Some BadCrc \<Rightarrow> Inl BadZipFile
      | Some (JsonMember (VDict d)) \<Rightarrow> Inr d
      | Some (JsonMember v) \<Rightarrow>
          Inl (serialization_error (''Session bundle file must contain a JSON object: '' @ name @ ''.'')))"

definition read_manifest_int :: "dict \<Rightarrow> string \<Rightarrow> exn + int" where
  "read_manifest_int manifest field =
     (case map_of manifest field of
        None \<Rightarrow> Inl (serialization_error (''Session bundle manifest missing '' @ field @ ''.''))
      | Some VNone \<Rightarrow> Inl (serialization_error (''Session bundle manifest missing '' @ field @ ''.''))
      | Some v \<Rightarrow> (case python_int v of
          Inr n \<Rightarrow> Inr n
        | Inl e \<Rightarrow> if exn_isinstance e [''TypeError'', ''ValueError'']
            then Inl (serialization_error (''Session bundle manifest field must be an integer: '' @ field @ ''.''))
            else Inl e))"

definition read_manifest :: "archive \<Rightarrow> exn + dict" where
  "read_manifest archive =
     bindE (read_json archive ''manifest.json'') (\<lambda>manifest.
     bindE (read_manifest_int manifest ''schema_version'') (\<lambda>version.
     if version \<noteq> schema_version
     then Inl (session_error ''SessionVersionError'' (''Unsupported session schema version: '' @ show_int version @ ''.''))
     else Inr manifest))"

definition read_meta :: "archive \<Rightarrow> exn + SessionMeta" where
  "read_meta archive = bindE (read_json archive ''meta.json'') meta_from_dict"

definition is_checkpoint_name :: "string \<Rightarrow> bool" where
  "is_checkpoint_name name \<longleftrightarrow> take 12 name = ''checkpoints/'' \<and> ends_with name ''.json''"

fun read_named :: "archive \<Rightarrow> string list \<Rightarrow> exn + Checkpoint list" where
  "read_named archive [] = Inr []"
| "read_named archive (n # ns) =
     bindE (bindE (read_json archive n) checkpoint_from_dict) (\<lambda>c.
     bindE (read_named archive ns) (\<lambda>cs. Inr (c # cs)))"

definition read_checkpoints :: "archive \<Rightarrow> exn + Checkpoint list" where
  "read_checkpoints archive = read_named archive (sort (filter is_checkpoint_name (map fst archive)))"

definition assert_manifest_matches_records :: "dict \<Rightarrow> SessionMeta \<Rightarrow> Checkpoint list \<Rightarrow> exn + unit" where
  "assert_manifest_matches_records manifest meta cs =
     (if map_of manifest ''session_id'' \<noteq> Some (VStr (sm_id meta))
      then Inl (serialization_error ''Session bundle manifest session_id does not match meta.json.'')
      else bindE (read_manifest_int manifest ''checkpoint_count'') (\<lambda>n.
        if n \<noteq> int (length cs)
        then Inl (serialization_error ''Session bundle checkpoint_count does not match checkpoint files.'')
        else Inr ()))"

definition read_records :: "archive \<Rightarrow> exn + dict \<times> SessionMeta \<times> Checkpoint list" where
  "read_records archive =
     bindE (read_manifest archive) (\<lambda>manifest.
     bindE (read_meta archive) (\<lambda>meta.
     bindE (read_checkpoints archive) (\<lambda>cs. Inr (manifest, meta, cs))))"

definition read_bundle :: "archive option \<Rightarrow> exn + SessionMeta \<times> Checkpoint list" where
  "read_bundle bundle =
     (case (case bundle of None \<Rightarrow> Inl BadZipFile | Some archive \<Rightarrow> read_records archive) of
        Inl e \<Rightarrow> Inl (if exn_isinstance e [''BadZipFile'']
          then serialization_error ''Session bundle is not a valid zip archive.'' else e)
      | Inr (manifest, meta, cs) \<Rightarrow>
          bindE (assert_manifest_matches_records manifest meta cs) (\<lambda>_. Inr (meta, cs)))"

subsection \<open>Import\<close>

definition rewrite_session_id :: "string \<Rightarrow> SessionMeta \<times> Checkpoint list \<Rightarrow> SessionMeta \<times> Checkpoint list" where
  "rewrite_session_id n = (\<lambda>(meta, cs). (meta\<lparr>sm_id := n\<rparr>, map (\<lambda>c. c\<lparr>ck_session := n\<rparr>) cs))"

definition any_checkpoint_exists :: "'s Backend \<Rightarrow> Checkpoint list \<Rightarrow> 's \<Rightarrow> bool" where
  "any_checkpoint_exists b cs s = list_ex (\<lambda>c. case get_checkpoint b (ck_id c) s of Inr _ \<Rightarrow> True | Inl _ \<Rightarrow> False) cs"

text \<open>\<open>fresh.get(x, x)\<close> for the dictionary of the new ids.\<close>

definition remap :: "(string \<times> string) list \<Rightarrow> string \<Rightarrow> string" where
  "remap fresh x = (case map_of (rev fresh) x of Some y \<Rightarrow> y | None \<Rightarrow> x)"

definition mint_checkpoint_ids ::
  "string list \<Rightarrow> SessionMeta \<times> Checkpoint list \<Rightarrow> SessionMeta \<times> Checkpoint list" where
  "mint_checkpoint_ids ids = (\<lambda>(meta, cs).
     let fresh = zip (map ck_id cs) ids in
     (meta\<lparr>sm_head := map_option (remap fresh) (sm_head meta)\<rparr>,
      map (\<lambda>c. c\<lparr>ck_id := remap fresh (ck_id c), ck_parent := map_option (remap fresh) (ck_parent c)\<rparr>) cs))"

definition assert_session_absent :: "'s Backend \<Rightarrow> string \<Rightarrow> 's \<Rightarrow> exn + unit" where
  "assert_session_absent b session s =
     (case get_meta b session s of
        Inl _ \<Rightarrow> Inr ()
      | Inr _ \<Rightarrow> Inl (session_error ''SessionStoreError''
          ''Session already exists; pass new_id= with an unused session id to import as a copy.''))"

definition import_bundle ::
  "'s Backend \<Rightarrow> string list \<Rightarrow> archive option \<Rightarrow> string option \<Rightarrow> ('s, exn, string) sem" where
  "import_bundle b ids bundle new_id =
     bindM (liftE (\<lambda>e. e) (read_bundle bundle)) (\<lambda>(meta, cs).
     let landing = (case new_id of None \<Rightarrow> sm_id meta | Some n \<Rightarrow> n) in
     bindM (getM (assert_session_absent b landing)) (\<lambda>absent.
     bindM (liftE (\<lambda>e. e) absent) (\<lambda>_.
     let records = (case new_id of None \<Rightarrow> (meta, cs) | Some n \<Rightarrow> rewrite_session_id n (meta, cs)) in
     bindM (getM (any_checkpoint_exists b (snd records))) (\<lambda>taken.
     let records = (if taken then mint_checkpoint_ids ids records else records) in
     bindM (ingest b (fst records) (snd records)) (\<lambda>_.
     returnM (sm_id (fst records)))))))"

subsection \<open>Names of checkpoint files\<close>

lemma digit_char: "n < 10 \<Longrightarrow> ascii_digit (char_of (48 + n :: nat))"
  by (simp add: ascii_digit_def Let_def)

lemma decimal_digits: "list_all ascii_digit (decimal n)"
proof (induction n rule: decimal.induct)
  case (1 n)
  then show ?case using digit_char [of "n mod 10"] by (subst decimal.simps) (simp add: digit_char)
qed

lemma decimal_not_Nil: "decimal n \<noteq> []"
  by (subst decimal.simps) simp

lemma pad8_digits: "0 \<le> n \<Longrightarrow> list_all ascii_digit (pad8 n)" "pad8 n \<noteq> []"
proof -
  have "ascii_digit (CHR ''0'')" by (simp add: ascii_digit_def)
  then show "0 \<le> n \<Longrightarrow> list_all ascii_digit (pad8 n)"
    using decimal_digits [of "nat n"] by (auto simp: pad8_def Let_def list_all_iff)
  show "pad8 n \<noteq> []" by (simp add: pad8_def Let_def decimal_not_Nil)
qed

lemma digits_before_dash:
  assumes "list_all ascii_digit a" and "list_all ascii_digit b" and "a @ ''-'' @ x = b @ ''-'' @ y"
  shows "a = b \<and> x = y"
proof -
  have "\<not> ascii_digit (CHR ''-'')" by (simp add: ascii_digit_def)
  then have stop: "takeWhile ascii_digit (a @ ''-'' @ x) = a" if "list_all ascii_digit a" for a x
    using that by (induction a) simp_all
  have "a = b" using stop [OF assms(1), of x] stop [OF assms(2), of y] assms(3) by simp
  then show ?thesis using assms(3) by simp
qed

lemma checkpoint_name_inj:
  assumes "checkpoint_name c = checkpoint_name d" and "0 \<le> ck_seq c" and "0 \<le> ck_seq d"
  shows "ck_id c = ck_id d"
proof -
  have "pad8 (ck_seq c) @ ''-'' @ (ck_id c @ ''.json'') = pad8 (ck_seq d) @ ''-'' @ (ck_id d @ ''.json'')"
    using assms(1) by (simp add: checkpoint_name_def checkpoint_file_def)
  from digits_before_dash [OF pad8_digits(1) [OF assms(2)] pad8_digits(1) [OF assms(3)] this]
  show ?thesis by simp
qed

lemma checkpoint_name_is: "is_checkpoint_name (checkpoint_name c)"
  by (simp add: is_checkpoint_name_def checkpoint_name_def checkpoint_file_def ends_with_def)

subsection \<open>An exported bundle is read back\<close>

lemma sort_by_name: "sort (map f cs) = map f (sort_key f cs)"
  by (rule properties_for_sort) simp_all

lemma write_checkpoints_members:
  "write_checkpoints dump cs = Inr ms \<Longrightarrow>
   ms = map (\<lambda>c. (checkpoint_name c, JsonMember (VDict (checkpoint_to_dict dump c)))) cs"
  by (induction cs arbitrary: ms) (auto simp: bindE_Inr_iff write_json_def split: if_splits)

lemma read_named_written:
  assumes "\<forall>c \<in> set cs. map_of (rev archive) (checkpoint_name c) = Some (JsonMember (VDict (checkpoint_to_dict dump c)))"
  shows "read_named archive (map checkpoint_name cs) = Inr (map (scrubbed dump) cs)"
  using assms by (induction cs) (simp_all add: read_json_def checkpoint_roundtrip)

lemma map_of_rev_distinct: "distinct (map fst xs) \<Longrightarrow> map_of (rev xs) = map_of xs"
  by (rule map_of_inject_set [THEN iffD2]) (simp_all add: rev_map [symmetric])

lemma written_bundle:
  assumes "write_bundle dump (build_manifest now meta cs) meta cs = Inr a"
  shows "a = (''manifest.json'', JsonMember (VDict (build_manifest now meta cs))) #
    (''meta.json'', JsonMember (VDict (meta_to_dict meta))) #
    map (\<lambda>c. (checkpoint_name c, JsonMember (VDict (checkpoint_to_dict dump c)))) cs"
  using assms by (auto simp: write_bundle_def bindE_Inr_iff write_json_def split: if_splits dest: write_checkpoints_members)

theorem read_written_bundle:
  assumes "write_bundle dump (build_manifest now meta cs) meta cs = Inr a" and "distinct (map ck_id cs)"
    and "\<forall>c \<in> set cs. 0 \<le> ck_seq c"
  shows "read_bundle (Some a) = Inr (meta, map (scrubbed dump) (sort_key checkpoint_name cs))"
proof -
  note a = written_bundle [OF assms(1)]
  have "inj_on checkpoint_name (set cs)"
  proof (rule inj_onI)
    fix c d
    assume m: "c \<in> set cs" "d \<in> set cs" and "checkpoint_name c = checkpoint_name d"
    then have "ck_id c = ck_id d" using assms(3) by (intro checkpoint_name_inj) simp_all
    then show "c = d" using m assms(2) by (auto simp: distinct_map dest: inj_onD)
  qed
  then have "distinct (map checkpoint_name cs)" using assms(2) by (simp add: distinct_map)
  moreover have "''manifest.json'' \<noteq> checkpoint_name c" "''meta.json'' \<noteq> checkpoint_name c" for c
    by (simp_all add: checkpoint_name_def)
  ultimately have d: "distinct (map fst a)" by (auto simp: a o_def)
  have look: "map_of (rev a) n = Some m" if "(n, m) \<in> set a" for n m
    using that d by (simp add: map_of_rev_distinct)
  have "filter is_checkpoint_name (map fst a) = map checkpoint_name cs"
    by (simp add: a o_def is_checkpoint_name_def [of "''manifest.json''"] is_checkpoint_name_def [of "''meta.json''"]
        filter_map checkpoint_name_is)
  then have "read_checkpoints a = read_named a (map checkpoint_name (sort_key checkpoint_name cs))"
    by (simp add: read_checkpoints_def sort_by_name)
  also have "\<dots> = Inr (map (scrubbed dump) (sort_key checkpoint_name cs))"
  proof (rule read_named_written, rule ballI)
    fix c
    assume "c \<in> set (sort_key checkpoint_name cs)"
    then have "(checkpoint_name c, JsonMember (VDict (checkpoint_to_dict dump c))) \<in> set a" by (auto simp: a)
    then show "map_of (rev a) (checkpoint_name c) = Some (JsonMember (VDict (checkpoint_to_dict dump c)))" by (rule look)
  qed
  finally have cs: "read_checkpoints a = Inr (map (scrubbed dump) (sort_key checkpoint_name cs))" .
  have "map_of (rev a) ''manifest.json'' = Some (JsonMember (VDict (build_manifest now meta cs)))"
    by (rule look) (simp add: a)
  then have "read_json a ''manifest.json'' = Inr (build_manifest now meta cs)" by (simp add: read_json_def)
  then have man: "read_manifest a = Inr (build_manifest now meta cs)"
    by (simp add: read_manifest_def read_manifest_int_def build_manifest_def)
  have "map_of (rev a) ''meta.json'' = Some (JsonMember (VDict (meta_to_dict meta)))"
    by (rule look) (simp add: a)
  then have "read_json a ''meta.json'' = Inr (meta_to_dict meta)" by (simp add: read_json_def)
  then have meta: "read_meta a = Inr meta" by (simp add: read_meta_def meta_roundtrip)
  show ?thesis
    by (simp add: read_bundle_def read_records_def man meta cs assert_manifest_matches_records_def
        build_manifest_def read_manifest_int_def)
qed

subsection \<open>Copies under new ids\<close>

definition moved :: "string \<Rightarrow> (string \<Rightarrow> string) \<Rightarrow> Checkpoint \<Rightarrow> Checkpoint" where
  "moved n f c = c\<lparr>ck_session := n, ck_id := f (ck_id c), ck_parent := map_option f (ck_parent c)\<rparr>"

lemma moved_fields [simp]:
  "ck_id (moved n f c) = f (ck_id c)" "ck_session (moved n f c) = n" "ck_seq (moved n f c) = ck_seq c"
  "ck_parent (moved n f c) = map_option f (ck_parent c)"
  by (simp_all add: moved_def)

lemma checkpoint_same: "c\<lparr>ck_session := n, ck_id := ck_id c, ck_parent := ck_parent c\<rparr> = c\<lparr>ck_session := n\<rparr>"
  by (cases c) simp

lemma meta_same: "m\<lparr>sm_id := n, sm_head := sm_head m\<rparr> = m\<lparr>sm_id := n\<rparr>"
  by (cases m) simp

lemma scrubbed_fields [simp]:
  "ck_id (scrubbed dump c) = ck_id c" "ck_session (scrubbed dump c) = ck_session c"
  "ck_seq (scrubbed dump c) = ck_seq c" "ck_parent (scrubbed dump c) = ck_parent c"
  by (simp_all add: scrubbed_def)

lemma remap_other: "x \<notin> set ids \<Longrightarrow> remap (zip ids new) x = x"
proof -
  assume "x \<notin> set ids"
  then have "map_of (rev (zip ids new)) x = None" by (auto simp: map_of_eq_None_iff dest: set_zip_leftD)
  then show ?thesis by (simp add: remap_def)
qed

lemma remap_ids:
  assumes "distinct ids" and "length new = length ids"
  shows "map (remap (zip ids new)) ids = new"
proof (rule nth_equalityI)
  fix k
  assume "k < length (map (remap (zip ids new)) ids)"
  then show "map (remap (zip ids new)) ids ! k = new ! k"
    using assms by (simp add: remap_def map_of_rev_distinct map_of_zip_nth)
qed (use assms in simp)

lemma sort_key_map: "(\<And>x. key (g x) = key x) \<Longrightarrow> sort_key key (map g xs) = map g (sort_key key xs)"
proof (induction xs)
  case (Cons x xs)
  have "insort_key key (g x) (map g ys) = map g (insort_key key x ys)" for ys
    by (induction ys) (simp_all add: Cons.prems)
  with Cons show ?case by simp
qed simp

context checkpoint_store
begin

lemma import_refuses:
  assumes "read_bundle bundle = Inr (meta, cs)" and "be_read_meta b (case new_id of None \<Rightarrow> sm_id meta | Some n \<Rightarrow> n) s \<noteq> None"
  shows "\<exists>e. import_bundle b ids bundle new_id s = (Inl e, s)"
  using assms by (auto simp: import_bundle_def assert_session_absent_def get_meta_def bindM_getM Let_def
      bindM_Inr bindM_Inl liftE_Inr liftE_Inl throwM_app)

lemma import_copies:
  assumes "numbered s" and "read_bundle bundle = Inr (meta, cs)" and "be_read_meta b n s = None"
    and "distinct (map ck_id cs)" and "\<forall>c \<in> set cs. 0 \<le> ck_seq c" and "inj_on ck_seq (set cs)"
    and "length ids = length cs" and "distinct ids" and "\<forall>i \<in> set ids. be_read_checkpoint b i s = None"
    and "import_bundle b ids bundle (Some n) s = (Inr landed, t)" and "owned s"
  shows "landed = n \<and> numbered t \<and>
    (\<exists>f. inj_on f (ck_id ` set cs) \<and> (\<forall>x. x \<notin> ck_id ` set cs \<longrightarrow> f x = x) \<and>
       history b n t = map norm (map (moved n f) (sort_key ck_seq cs)) \<and>
       be_read_meta b n t = Some (meta\<lparr>sm_id := n, sm_head := map_option f (sm_head meta)\<rparr>)) \<and>
    (\<forall>j. j \<noteq> n \<longrightarrow> history b j t = history b j s \<and> be_read_meta b j t = be_read_meta b j s) \<and>
    (\<forall>i. be_read_checkpoint b i s \<noteq> None \<longrightarrow> be_read_checkpoint b i t = be_read_checkpoint b i s)"
proof -
  define taken where "taken = any_checkpoint_exists b cs s"
  define f where "f = (if taken then remap (zip (map ck_id cs) ids) else (\<lambda>x. x))"
  define m where "m = meta\<lparr>sm_id := n, sm_head := map_option f (sm_head meta)\<rparr>"
  define records where "records = rewrite_session_id n (meta, cs)"
  have tk: "any_checkpoint_exists b (snd records) s = taken"
    by (simp add: taken_def records_def rewrite_session_id_def any_checkpoint_exists_def list_ex_iff)
  have recs: "(if taken then mint_checkpoint_ids ids records else records) = (m, map (moved n f) cs)"
    by (cases taken)
      (simp_all add: records_def rewrite_session_id_def mint_checkpoint_ids_def m_def f_def o_def Let_def
        moved_def [abs_def] option.map_ident meta_same checkpoint_same)
  have "ingest b m (map (moved n f) cs) s = (Inr (), t) \<and> landed = sm_id m"
    using assms(10) unfolding import_bundle_def
    by (simp add: assms(2,3) assert_session_absent_def get_meta_def bindM_getM Let_def bindM_Inr liftE_Inr
        tk [unfolded records_def] recs [unfolded records_def] bindM_Inr_iff returnM_app)
  then have ing: "landed = n" "ingest b m (map (moved n f) cs) s = (Inr (), t)"
    by (simp_all add: m_def)
  have "distinct (map f (map ck_id cs)) \<and> (\<forall>c \<in> set cs. be_read_checkpoint b (f (ck_id c)) s = None)"
  proof (cases taken)
    case True
    then have f: "map f (map ck_id cs) = ids" using remap_ids [OF assms(4)] assms(7) by (simp add: f_def)
    have "f (ck_id c) \<in> set ids" if "c \<in> set cs" for c using f that by force
    with f assms(8,9) show ?thesis by simp
  next
    case False
    then show ?thesis
      using assms(4)
      by (auto simp: f_def taken_def any_checkpoint_exists_def list_ex_iff get_checkpoint_def split: option.splits)
  qed
  then have new: "distinct (map f (map ck_id cs))" "\<forall>c \<in> set cs. be_read_checkpoint b (f (ck_id c)) s = None"
    by blast+
  have old: "\<forall>x. x \<notin> ck_id ` set cs \<longrightarrow> f x = x" by (simp add: f_def remap_other)
  have "inj_on ck_seq (set (map (moved n f) cs))" using assms(6) by (auto simp: inj_on_def)
  then have "numbered t \<and> history b n t = map norm (sort_key ck_seq (map (moved n f) cs)) \<and>
    be_read_meta b n t = Some m \<and>
    (\<forall>j. j \<noteq> n \<longrightarrow> history b j t = history b j s \<and> be_read_meta b j t = be_read_meta b j s) \<and>
    (\<forall>i. i \<notin> ck_id ` set (map (moved n f) cs) \<longrightarrow> be_read_checkpoint b i t = be_read_checkpoint b i s)"
    using ingest_correct [OF assms(1), of "map (moved n f) cs" m t] new ing(2) assms(5) owned_absent [OF assms(11,3)]
    by (simp add: o_def m_def)
  moreover have "inj_on f (ck_id ` set cs)" using new(1) unfolding distinct_map [of f] by simp
  moreover have "\<forall>i. be_read_checkpoint b i s \<noteq> None \<longrightarrow> i \<notin> ck_id ` set (map (moved n f) cs)"
    using new(2) by auto
  ultimately show ?thesis
    using ing(1) old by (auto simp: sort_key_map m_def)
qed

end

lemma memory_import_total:
  assumes "read_bundle bundle = Inr (meta, cs)" and "be_read_meta memory_backend n s = None"
  shows "\<exists>landed t. import_bundle memory_backend ids bundle (Some n) s = (Inr landed, t)"
proof -
  define records where "records = rewrite_session_id n (meta, cs)"
  define r where "r = (if any_checkpoint_exists memory_backend (snd records) s then mint_checkpoint_ids ids records else records)"
  obtain t where "ingest memory_backend (fst r) (snd r) s = (Inr (), t)" using memory_ingest_total by blast
  then show ?thesis
    by (cases "any_checkpoint_exists memory_backend (snd records) s")
      (simp_all add: import_bundle_def assms assert_session_absent_def get_meta_def bindM_getM Let_def bindM_Inr
        liftE_Inr records_def [symmetric] r_def returnM_app)
qed

lemma scrubbed_in_order:
  assumes "distinct (map ck_id xs)" and "sorted (map ck_seq xs)" and "inj_on ck_seq (set xs)"
  shows "sort_key ck_seq (map (scrubbed dump) (sort_key checkpoint_name xs)) = map (scrubbed dump) xs"
proof -
  have "sort_key ck_seq (sort_key checkpoint_name xs) = xs"
    using assms by (intro sorted_key_unique [of _ _ ck_seq]) (simp_all add: distinct_map)
  then show ?thesis by (simp add: sort_key_map)
qed

subsection \<open>Property\<close>

text \<open>C32: a session exported from one store and imported into another, or the same, under a new
  id becomes a copy of it: its checkpoints in their order, filtered as the codec does, with the same
  links under an injective renaming of the ids, the head renamed with them.  No session and
  no checkpoint that the target store holds changes.\<close>

theorem exported_session_imports_as_copy:
  assumes "store_reachable s" and "store_reachable t" and "export memory_backend dump now j s = Inr a"
    and "be_read_meta memory_backend n t = None" and "length ids = length (history memory_backend j s)"
    and "distinct ids" and "\<forall>i \<in> set ids. be_read_checkpoint memory_backend i t = None"
  shows "\<exists>f meta u. import_bundle memory_backend ids (Some a) (Some n) t = (Inr n, u) \<and>
    be_read_meta memory_backend j s = Some meta \<and>
    inj_on f (ck_id ` set (history memory_backend j s)) \<and>
    history memory_backend n u = map (moved n f \<circ> scrubbed dump) (history memory_backend j s) \<and>
    be_read_meta memory_backend n u = Some (meta\<lparr>sm_id := n, sm_head := map_option f (sm_head meta)\<rparr>) \<and>
    (\<forall>k. k \<noteq> n \<longrightarrow> history memory_backend k u = history memory_backend k t \<and>
       be_read_meta memory_backend k u = be_read_meta memory_backend k t) \<and>
    (\<forall>i. be_read_checkpoint memory_backend i t \<noteq> None \<longrightarrow>
       be_read_checkpoint memory_backend i u = be_read_checkpoint memory_backend i t)"
proof -
  let ?h = "history memory_backend j s"
  let ?cs = "map (scrubbed dump) (sort_key checkpoint_name ?h)"
  note num = store_reachable_numbered [OF assms(1), THEN conjunct1]
  then have inv: "memory_inv s" by (simp add: memory.numbered_def)
  have ids: "distinct (map ck_id ?h)" by (rule memory.distinct_ids [OF inv])
  have places: "inj_on ck_seq (set ?h)" "\<forall>c \<in> set ?h. 0 \<le> ck_seq c"
    using num by (simp_all add: memory.numbered_def memory.history_set)
  obtain meta where meta: "be_read_meta memory_backend j s = Some meta"
    and w: "write_bundle dump (build_manifest now meta ?h) meta ?h = Inr a"
    using assms(3) by (auto simp: export_def get_meta_def bindE_Inr_iff Let_def split: option.splits)
  note rd = read_written_bundle [OF w ids places(2)]
  obtain landed u where imp: "import_bundle memory_backend ids (Some a) (Some n) t = (Inr landed, u)"
    using memory_import_total [OF rd assms(4)] by blast
  have "distinct (map ck_id ?cs)" using ids by (simp add: distinct_map o_def)
  moreover have "\<forall>c \<in> set ?cs. 0 \<le> ck_seq c" using places(2) by simp
  moreover have "inj_on ck_seq (set ?cs)" using places(1) by (auto simp: inj_on_def)
  moreover have "length ids = length ?cs" using assms(5) by simp
  ultimately have copy: "landed = n \<and>
    (\<exists>f. inj_on f (ck_id ` set ?cs) \<and>
       history memory_backend n u = map (\<lambda>c. c) (map (moved n f) (sort_key ck_seq ?cs)) \<and>
       be_read_meta memory_backend n u = Some (meta\<lparr>sm_id := n, sm_head := map_option f (sm_head meta)\<rparr>)) \<and>
    (\<forall>k. k \<noteq> n \<longrightarrow> history memory_backend k u = history memory_backend k t \<and>
       be_read_meta memory_backend k u = be_read_meta memory_backend k t) \<and>
    (\<forall>i. be_read_checkpoint memory_backend i t \<noteq> None \<longrightarrow>
       be_read_checkpoint memory_backend i u = be_read_checkpoint memory_backend i t)"
    using store_reachable_numbered [OF assms(2)]
      memory.import_copies [OF _ rd assms(4) _ _ _ _ assms(6,7) imp]
    by blast
  have "ck_id ` set ?cs = ck_id ` set ?h" by (simp add: image_image)
  then show ?thesis
    using copy imp meta unfolding scrubbed_in_order [OF ids memory.history_sorted places(1)] map_map map_ident
    by (simp only: simp_thms) blast
qed

lemma demo_history_is:
  "history memory_backend ''s1'' demo_store =
     [demo_checkpoint ''c1'' None, (demo_checkpoint ''c2'' (Some ''c1''))\<lparr>ck_seq := 1\<rparr>]"
  by (simp add: demo_store_is history_def memory_backend_def demo_checkpoint_def)

lemma demo_written: "clean keep_all (VDict (checkpoint_to_dict (\<lambda>_. None) ((demo_checkpoint i parent)\<lparr>ck_seq := n\<rparr>)))"
  by (simp add: checkpoint_to_dict_def run_state_to_dict_def demo_checkpoint_def demo_run_state_def keep_all_def
      texts_def opt_texts_def opt_text_def opt_dict_def opt_number_def safe_dict_def loose_secret_key_def
      split: option.split)

lemma demo_export: "\<exists>a. export memory_backend (\<lambda>_. None) ''t9'' ''s1'' demo_store = Inr a"
  using demo_written [of 0 "''c1''" None] demo_written [of 1 "''c2''" "Some ''c1''"]
  by (simp add: export_def get_meta_def demo_history_is Let_def write_bundle_def write_json_def build_manifest_def
      meta_to_dict_def keep_all_def opt_text_def texts_def)
    (simp add: demo_store_is memory_backend_def demo_checkpoint_def)

lemma import_witness:
  "\<exists>a x y u. import_bundle memory_backend [''n1'', ''n2''] (Some a) (Some ''s2'') demo_store = (Inr ''s2'', u) \<and>
     x \<noteq> y \<and> map ck_id (history memory_backend ''s2'' u) = [x, y] \<and>
     map ck_parent (history memory_backend ''s2'' u) = [None, Some x]"
proof -
  obtain a where a: "export memory_backend (\<lambda>_. None) ''t9'' ''s1'' demo_store = Inr a" using demo_export by blast
  have new: "be_read_meta memory_backend ''s2'' demo_store = None"
    "\<forall>i \<in> set [''n1'', ''n2'']. be_read_checkpoint memory_backend i demo_store = None"
    by (simp_all add: demo_store_is memory_backend_def)
  obtain f u where "import_bundle memory_backend [''n1'', ''n2''] (Some a) (Some ''s2'') demo_store = (Inr ''s2'', u)"
    and inj: "inj_on f (ck_id ` set (history memory_backend ''s1'' demo_store))"
    and h: "history memory_backend ''s2'' u = map (moved ''s2'' f \<circ> scrubbed (\<lambda>_. None)) (history memory_backend ''s1'' demo_store)"
    using exported_session_imports_as_copy [OF demo_store_reachable demo_store_reachable a new(1) _ _ new(2)]
    by (auto simp: demo_history_is)
  moreover have "f ''c1'' \<noteq> f ''c2''"
    using inj by (simp add: demo_history_is demo_checkpoint_def)
  ultimately show ?thesis
    by (intro exI [of _ a] exI [of _ "f ''c1''"] exI [of _ "f ''c2''"] exI [of _ u])
      (simp add: demo_history_is, simp add: demo_checkpoint_def)
qed

end
