(* ===== verification/SE_File.thy ===== *)
theory SE_File
  imports SE_Portable
begin

text \<open>
  The file store (\<^verbatim>\<open>sessions/stores/file.py\<close>): a directory per session with a metadata file and
  one file per checkpoint.  The state is the tree under the root, a path with its payload, on a
  file system that tells names apart exactly; directories, temporary files and the JSON text of a
  payload are left out.  \<open>io\<close> tells which writes the operating system carries out; reads and
  deletions it carries out always.
\<close>

type_synonym files = "(string list \<times> dict) list"

subsection \<open>Paths\<close>

definition is_plain_segment :: "string \<Rightarrow> bool" where
  "is_plain_segment v \<longleftrightarrow>
     \<not> List.member [[], ''.'', ''..''] v \<and>
     \<not> list_ex (\<lambda>c. List.member v c) [CHR ''/'', CHR 0x5C, CHR 0x00] \<and>
     \<not> (2 \<le> length v \<and> v ! 1 = CHR '':'')"

definition session_dir :: "string \<Rightarrow> string list option" where
  "session_dir session = (if is_plain_segment session then Some [session] else None)"

definition checkpoint_dir :: "string \<Rightarrow> string list option" where
  "checkpoint_dir session = (if is_plain_segment session then Some [session, ''checkpoints''] else None)"

text \<open>\<^verbatim>\<open>str.isdigit\<close>, which three superscripts of the model's characters satisfy too.\<close>

definition is_digit_char :: "char \<Rightarrow> bool" where
  "is_digit_char c \<longleftrightarrow> ascii_digit c \<or> List.member [178, 179, 185] (of_char c :: nat)"

definition names_checkpoint :: "string \<Rightarrow> string \<Rightarrow> bool" where
  "names_checkpoint i name \<longleftrightarrow>
     (let ending = ''-'' @ i @ ''.json'';
          number = dropWhile (\<lambda>c. c = CHR ''-'') (take (length name - length ending) name) in
      ends_with name ending \<and> number \<noteq> [] \<and> list_all is_digit_char number)"

definition checkpoint_paths :: "string \<Rightarrow> files \<Rightarrow> string list list" where
  "checkpoint_paths i fs =
     (if is_plain_segment i
      then filter (\<lambda>p. case p of [d, sub, name] \<Rightarrow> sub = ''checkpoints'' \<and> names_checkpoint i name | _ \<Rightarrow> False)
        (map fst fs)
      else [])"

subsection \<open>Reads and writes\<close>

definition store_error :: "string \<Rightarrow> exn" where
  "store_error msg = session_error ''SessionStoreError'' msg"

definition read_file :: "string list \<Rightarrow> files \<Rightarrow> exn + dict" where
  "read_file p fs = (case map_of fs p of
     Some d \<Rightarrow> Inr d | None \<Rightarrow> Inl (store_error (''Failed to read session file: '' @ last p @ ''.'')))"

definition atomic_write_json :: "(string list \<Rightarrow> bool) \<Rightarrow> string list \<Rightarrow> dict \<Rightarrow> (files, exn, unit) sem" where
  "atomic_write_json io p payload =
     (if clean keep_all (VDict payload) \<and> io p then updM (dict_put p payload)
      else throwM (store_error (''Failed to write session file: '' @ last p @ ''.'')))"

definition assert_directory_owner :: "string list \<Rightarrow> string \<Rightarrow> files \<Rightarrow> exn + unit" where
  "assert_directory_owner dir session fs =
     (case map_of fs (dir @ [''meta.json'']) of
        None \<Rightarrow> Inr ()
      | Some d \<Rightarrow> if map_of d ''session_id'' = Some (VStr session) then Inr ()
          else Inl (store_error (''Session id '' @ quoted session @ '' collides with an existing session on this filesystem.'')))"

definition file_write_checkpoint ::
  "(string \<Rightarrow> pyval option) \<Rightarrow> (string list \<Rightarrow> bool) \<Rightarrow> Checkpoint \<Rightarrow> (files, exn, unit) sem" where
  "file_write_checkpoint dump io c =
     (case checkpoint_dir (ck_session c) of
        Some dir \<Rightarrow>
          if \<not> is_plain_segment (ck_id c)
          then throwM (store_error ''Invalid session or checkpoint id for file store.'')
          else bindM (getM (assert_directory_owner (butlast dir) (ck_session c))) (\<lambda>owner.
            bindM (liftE (\<lambda>e. e) owner) (\<lambda>_.
            atomic_write_json io (dir @ [checkpoint_file c]) (checkpoint_to_dict dump c)))
      | None \<Rightarrow> throwM (store_error ''Invalid session or checkpoint id for file store.''))"

definition file_read_checkpoint :: "string \<Rightarrow> files \<Rightarrow> exn + Checkpoint option" where
  "file_read_checkpoint i fs =
     (case checkpoint_paths i fs of
        [] \<Rightarrow> Inr None
      | p # _ \<Rightarrow> bindE (bindE (read_file p fs) checkpoint_from_dict) (\<lambda>c. Inr (Some c)))"

fun read_files :: "(dict \<Rightarrow> exn + 'a) \<Rightarrow> string list list \<Rightarrow> files \<Rightarrow> exn + 'a list" where
  "read_files decode [] fs = Inr []"
| "read_files decode (p # ps) fs =
     bindE (bindE (read_file p fs) decode) (\<lambda>x. bindE (read_files decode ps fs) (\<lambda>xs. Inr (x # xs)))"

definition file_read_session :: "string \<Rightarrow> files \<Rightarrow> exn + Checkpoint list" where
  "file_read_session session fs =
     (case checkpoint_dir session of
        None \<Rightarrow> Inr []
      | Some dir \<Rightarrow>
          bindE (read_files checkpoint_from_dict
            (filter (\<lambda>p. length p = 3 \<and> butlast p = dir \<and> ends_with (last p) ''.json'') (map fst fs)) fs) (\<lambda>cs.
          Inr (filter (\<lambda>c. ck_session c = session) cs)))"

definition file_delete_checkpoint :: "string \<Rightarrow> (files, exn, unit) sem" where
  "file_delete_checkpoint i = updM (\<lambda>fs. filter (\<lambda>(p, d). \<not> List.member (checkpoint_paths i fs) p) fs)"

definition file_write_meta :: "(string list \<Rightarrow> bool) \<Rightarrow> SessionMeta \<Rightarrow> (files, exn, unit) sem" where
  "file_write_meta io m =
     (case session_dir (sm_id m) of
        None \<Rightarrow> throwM (store_error (''Invalid session id for file store: '' @ quoted (sm_id m) @ ''.''))
      | Some dir \<Rightarrow>
          bindM (getM (assert_directory_owner dir (sm_id m))) (\<lambda>owner.
          bindM (liftE (\<lambda>e. e) owner) (\<lambda>_.
          atomic_write_json io (dir @ [''meta.json'']) (meta_to_dict m))))"

definition file_read_meta :: "string \<Rightarrow> files \<Rightarrow> exn + SessionMeta option" where
  "file_read_meta session fs =
     (case session_dir session of
        None \<Rightarrow> Inr None
      | Some dir \<Rightarrow>
          if map_of fs (dir @ [''meta.json'']) = None then Inr None
          else bindE (bindE (read_file (dir @ [''meta.json'']) fs) meta_from_dict) (\<lambda>m.
            Inr (if sm_id m = session then Some m else None)))"

definition file_read_all_meta :: "files \<Rightarrow> exn + SessionMeta list" where
  "file_read_all_meta fs =
     read_files meta_from_dict (filter (\<lambda>p. length p = 2 \<and> last p = ''meta.json'') (map fst fs)) fs"

text \<open>
  The backend.  On the files the store itself has written no read raises
  (\<open>file_reads\<close>), so the answer given for a read that raises plays no part there.
\<close>

definition file_backend :: "(string \<Rightarrow> pyval option) \<Rightarrow> (string list \<Rightarrow> bool) \<Rightarrow> files Backend" where
  "file_backend dump io = \<lparr>
     be_write_checkpoint = file_write_checkpoint dump io,
     be_read_checkpoint = (\<lambda>i fs. case file_read_checkpoint i fs of Inr r \<Rightarrow> r | Inl _ \<Rightarrow> None),
     be_read_session = (\<lambda>j fs. case file_read_session j fs of Inr r \<Rightarrow> r | Inl _ \<Rightarrow> []),
     be_delete_checkpoint = file_delete_checkpoint,
     be_write_meta = file_write_meta io,
     be_read_meta = (\<lambda>j fs. case file_read_meta j fs of Inr r \<Rightarrow> r | Inl _ \<Rightarrow> None),
     be_read_all_meta = (\<lambda>fs. case file_read_all_meta fs of Inr r \<Rightarrow> r | Inl _ \<Rightarrow> [])\<rparr>"

subsection \<open>Names of files and ids\<close>

lemma ends_with_append: "ends_with name e \<longleftrightarrow> (\<exists>a. name = a @ e)"
proof
  assume "ends_with name e"
  then have e: "drop (length name - length e) name = e" by (simp add: ends_with_def)
  have "take (length name - length e) name @ e = name"
    by (subst (2) e [symmetric]) (rule append_take_drop_id)
  then show "\<exists>a. name = a @ e" by metis
qed (auto simp: ends_with_def)

lemma ends_with_split:
  "ends_with name e \<and> P (take (length name - length e) name) \<longleftrightarrow> (\<exists>a. name = a @ e \<and> P a)"
  by (auto simp: ends_with_append)

lemma names_checkpoint_iff: "names_checkpoint i name \<longleftrightarrow>
   (\<exists>a. name = a @ ''-'' @ i @ ''.json'' \<and> dropWhile (\<lambda>c. c = CHR ''-'') a \<noteq> [] \<and>
     list_all is_digit_char (dropWhile (\<lambda>c. c = CHR ''-'') a))"
  unfolding names_checkpoint_def Let_def by (rule ends_with_split)

lemma digits_then_dash:
  assumes "list_all is_digit_char a" and "list_all is_digit_char b" and "a @ ''-'' @ x = b @ ''-'' @ y"
  shows "a = b \<and> x = y"
proof -
  have "\<not> is_digit_char (CHR ''-'')" by (simp add: is_digit_char_def ascii_digit_def)
  then have stop: "takeWhile is_digit_char (a @ ''-'' @ x) = a" if "list_all is_digit_char a" for a x
    using that by (induction a) simp_all
  have "a = b" using stop [OF assms(1), of x] stop [OF assms(2), of y] assms(3) by simp
  then show ?thesis using assms(3) by simp
qed

lemma pad8_shape: "\<exists>neg d. pad8 n = (if neg then ''-'' else []) @ d \<and> d \<noteq> [] \<and> list_all is_digit_char d"
proof -
  have z: "is_digit_char (CHR ''0'')" by (simp add: is_digit_char_def ascii_digit_def)
  have "list_all is_digit_char (decimal k)" for k
    using decimal_digits [of k] by (auto simp: list_all_iff is_digit_char_def)
  then have "list_all is_digit_char (replicate m (CHR ''0'') @ decimal k)" for m k
    using z by (auto simp: list_all_iff)
  then show ?thesis
    by (intro exI [of _ "n < 0"] exI [of _ "replicate (if n < 0 then 7 - length (decimal (nat \<bar>n\<bar>)) else 8 - length (decimal (nat \<bar>n\<bar>)))
      (CHR ''0'') @ decimal (nat \<bar>n\<bar>)"]) (simp add: pad8_def Let_def decimal_not_Nil)
qed

lemma dashes_then_digits:
  assumes "dropWhile (\<lambda>c. c = CHR ''-'') a = d" and "d \<noteq> []" and "list_all is_digit_char d"
  obtains k where "a = replicate k (CHR ''-'') @ d"
proof -
  have "takeWhile (\<lambda>c. c = CHR ''-'') a = replicate (length (takeWhile (\<lambda>c. c = CHR ''-'') a)) (CHR ''-'')"
    by (rule replicate_length_same [symmetric]) (auto dest: set_takeWhileD)
  then show thesis
    using takeWhile_dropWhile_id [of "\<lambda>c. c = CHR ''-''" a] assms(1) that by metis
qed

text \<open>A file of a checkpoint is found under the id of the checkpoint and under no other.\<close>

lemma names_checkpoint_file: "names_checkpoint i (checkpoint_file c) \<longleftrightarrow> i = ck_id c"
proof
  obtain neg d where p: "pad8 (ck_seq c) = (if neg then ''-'' else []) @ d" and d: "d \<noteq> []" "list_all is_digit_char d"
    using pad8_shape by blast
  have dash: "\<not> is_digit_char (CHR ''-'')" by (simp add: is_digit_char_def ascii_digit_def)
  have hd: "hd x \<noteq> CHR ''-''" if "x \<noteq> []" "list_all is_digit_char x" for x using that dash by (cases x) auto
  assume "names_checkpoint i (checkpoint_file c)"
  then obtain a where "(if neg then ''-'' else []) @ d @ ''-'' @ ck_id c = a @ ''-'' @ i"
    and e': "dropWhile (\<lambda>c. c = CHR ''-'') a \<noteq> []" "list_all is_digit_char (dropWhile (\<lambda>c. c = CHR ''-'') a)"
    unfolding names_checkpoint_iff checkpoint_file_def p by (auto simp del: dropWhile_eq_Nil_conv)
  then have a: "a @ ''-'' @ i = (if neg then ''-'' else []) @ d @ ''-'' @ ck_id c" by simp
  define e where "e = dropWhile (\<lambda>c. c = CHR ''-'') a"
  have e: "dropWhile (\<lambda>c. c = CHR ''-'') a = e" "e \<noteq> []" "list_all is_digit_char e"
    unfolding e_def by (rule refl, rule e'(1), rule e'(2))
  obtain k where k: "a = replicate k (CHR ''-'') @ e" by (rule dashes_then_digits [OF e])
  have h: "hd d \<noteq> CHR ''-''" "hd e \<noteq> CHR ''-''" using hd d e by blast+
  have "e @ ''-'' @ i = d @ ''-'' @ ck_id c"
  proof (cases k)
    case 0
    then show ?thesis using a k h d e by (cases e; cases d) (auto split: if_splits)
  next
    case (Suc l)
    then show ?thesis using a k h d e by (cases e; cases d; cases l) (auto split: if_splits)
  qed
  then show "i = ck_id c" using digits_then_dash [OF e(3) d(2)] by simp
next
  obtain neg d where p: "pad8 (ck_seq c) = (if neg then ''-'' else []) @ d" and d: "d \<noteq> []" "list_all is_digit_char d"
    using pad8_shape by blast
  have "\<not> is_digit_char (CHR ''-'')" by (simp add: is_digit_char_def ascii_digit_def)
  then have "dropWhile (\<lambda>c. c = CHR ''-'') (pad8 (ck_seq c)) = d" using d unfolding p by (cases d) auto
  moreover assume "i = ck_id c"
  ultimately show "names_checkpoint i (checkpoint_file c)"
    using d unfolding names_checkpoint_iff by (intro exI [of _ "pad8 (ck_seq c)"]) (simp add: checkpoint_file_def)
qed

subsection \<open>The files a store has written\<close>

definition checkpoint_entry :: "(string \<Rightarrow> pyval option) \<Rightarrow> Checkpoint \<Rightarrow> string list \<times> dict" where
  "checkpoint_entry dump c = ([ck_session c, ''checkpoints'', checkpoint_file c], checkpoint_to_dict dump c)"

definition meta_entry :: "SessionMeta \<Rightarrow> string list \<times> dict" where
  "meta_entry m = ([sm_id m, ''meta.json''], meta_to_dict m)"

text \<open>Every file is a checkpoint or metadata under a plain name, and no id names two checkpoints.\<close>

definition file_inv :: "(string \<Rightarrow> pyval option) \<Rightarrow> files \<Rightarrow> bool" where
  "file_inv dump fs \<longleftrightarrow> dict_wf fs \<and>
     (\<forall>e \<in> set fs. (\<exists>c. e = checkpoint_entry dump c \<and> is_plain_segment (ck_session c) \<and> is_plain_segment (ck_id c)) \<or>
        (\<exists>m. e = meta_entry m \<and> is_plain_segment (sm_id m))) \<and>
     (\<forall>c c'. checkpoint_entry dump c \<in> set fs \<longrightarrow> checkpoint_entry dump c' \<in> set fs \<longrightarrow> ck_id c = ck_id c' \<longrightarrow>
        checkpoint_entry dump c = checkpoint_entry dump c')"

lemma entry_distinct: "checkpoint_entry dump c \<noteq> meta_entry m" "meta_entry m \<noteq> checkpoint_entry dump c"
  by (simp_all add: checkpoint_entry_def meta_entry_def)

lemma checkpoint_entry_scrubbed:
  "checkpoint_entry dump c = checkpoint_entry dump c' \<Longrightarrow> scrubbed dump c = scrubbed dump c'"
proof -
  assume "checkpoint_entry dump c = checkpoint_entry dump c'"
  then have "checkpoint_from_dict (checkpoint_to_dict dump c) = checkpoint_from_dict (checkpoint_to_dict dump c')"
    by (simp add: checkpoint_entry_def)
  then show ?thesis by (simp add: checkpoint_roundtrip)
qed

lemma checkpoint_entry_ids:
  "checkpoint_entry dump c = checkpoint_entry dump c' \<Longrightarrow> ck_id c = ck_id c' \<and> ck_session c = ck_session c'"
  using checkpoint_entry_scrubbed by (metis scrubbed_fields(1,2))

lemma meta_entry_inj: "meta_entry m = meta_entry m' \<longleftrightarrow> m = m'"
proof
  assume "meta_entry m = meta_entry m'"
  then have "meta_from_dict (meta_to_dict m) = meta_from_dict (meta_to_dict m')" by (simp add: meta_entry_def)
  then show "m = m'" by (simp add: meta_roundtrip)
qed simp

lemma file_inv_wf: "file_inv dump fs \<Longrightarrow> dict_wf fs"
  by (simp add: file_inv_def)

lemma file_inv_cases:
  assumes "file_inv dump fs" and "(p, d) \<in> set fs"
  obtains (checkpoint) c where "(p, d) = checkpoint_entry dump c" and "is_plain_segment (ck_session c)" and "is_plain_segment (ck_id c)"
  | (meta) m where "(p, d) = meta_entry m" and "is_plain_segment (sm_id m)"
  using assms by (fastforce simp: file_inv_def)

lemma file_inv_plain:
  assumes "file_inv dump fs"
  shows "checkpoint_entry dump c \<in> set fs \<Longrightarrow> is_plain_segment (ck_session c) \<and> is_plain_segment (ck_id c)"
    and "meta_entry m \<in> set fs \<Longrightarrow> is_plain_segment (sm_id m)"
proof -
  assume "checkpoint_entry dump c \<in> set fs"
  then obtain c' where c': "checkpoint_entry dump c = checkpoint_entry dump c'" "is_plain_segment (ck_session c')" "is_plain_segment (ck_id c')"
    using assms entry_distinct unfolding file_inv_def by metis
  from checkpoint_entry_ids [OF c'(1)] c' show "is_plain_segment (ck_session c) \<and> is_plain_segment (ck_id c)" by simp
next
  assume "meta_entry m \<in> set fs"
  then show "is_plain_segment (sm_id m)"
    using assms entry_distinct meta_entry_inj unfolding file_inv_def by metis
qed

lemma entry_read:
  assumes "dict_wf fs"
  shows "checkpoint_entry dump c \<in> set fs \<Longrightarrow>
      bindE (read_file [ck_session c, ''checkpoints'', checkpoint_file c] fs) checkpoint_from_dict = Inr (scrubbed dump c)"
    and "meta_entry m \<in> set fs \<Longrightarrow> bindE (read_file [sm_id m, ''meta.json''] fs) meta_from_dict = Inr m"
proof -
  have look: "map_of fs q = Some d" if "(q, d) \<in> set fs" for q d
    using that assms by (simp add: dict_wf_lookup)
  show "checkpoint_entry dump c \<in> set fs \<Longrightarrow>
      bindE (read_file [ck_session c, ''checkpoints'', checkpoint_file c] fs) checkpoint_from_dict = Inr (scrubbed dump c)"
    by (simp add: checkpoint_entry_def read_file_def look checkpoint_roundtrip)
  show "meta_entry m \<in> set fs \<Longrightarrow> bindE (read_file [sm_id m, ''meta.json''] fs) meta_from_dict = Inr m"
    by (simp add: meta_entry_def read_file_def look meta_roundtrip)
qed

lemma checkpoint_paths_are:
  assumes "file_inv dump fs"
  shows "p \<in> set (checkpoint_paths i fs) \<longleftrightarrow> (\<exists>c. checkpoint_entry dump c \<in> set fs \<and> ck_id c = i \<and> p = fst (checkpoint_entry dump c))"
proof
  assume "p \<in> set (checkpoint_paths i fs)"
  then obtain d where d: "(p, d) \<in> set fs"
    and p: "case p of [e, sub, name] \<Rightarrow> sub = ''checkpoints'' \<and> names_checkpoint i name | _ \<Rightarrow> False"
    by (auto simp: checkpoint_paths_def split: if_splits)
  from assms d show "\<exists>c. checkpoint_entry dump c \<in> set fs \<and> ck_id c = i \<and> p = fst (checkpoint_entry dump c)"
  proof (cases rule: file_inv_cases)
    case (checkpoint c)
    then show ?thesis using p d by (auto simp: checkpoint_entry_def names_checkpoint_file)
  next
    case (meta m)
    then show ?thesis using p by (simp add: meta_entry_def)
  qed
next
  assume "\<exists>c. checkpoint_entry dump c \<in> set fs \<and> ck_id c = i \<and> p = fst (checkpoint_entry dump c)"
  then obtain c where c: "checkpoint_entry dump c \<in> set fs" "ck_id c = i" "p = fst (checkpoint_entry dump c)" by blast
  have "p \<in> fst ` set fs" unfolding c(3) using c(1) by (rule imageI)
  then show "p \<in> set (checkpoint_paths i fs)"
    using file_inv_plain(1) [OF assms c(1)] c(2,3)
    by (simp add: checkpoint_paths_def checkpoint_entry_def names_checkpoint_file)
qed

lemma file_read_checkpoint_is:
  assumes "file_inv dump fs"
  shows "\<exists>r. file_read_checkpoint i fs = Inr r \<and>
    (\<forall>x. r = Some x \<longleftrightarrow> (\<exists>c. checkpoint_entry dump c \<in> set fs \<and> ck_id c = i \<and> x = scrubbed dump c))"
proof (cases "checkpoint_paths i fs")
  case Nil
  then have "\<nexists>c. checkpoint_entry dump c \<in> set fs \<and> ck_id c = i"
    using checkpoint_paths_are [OF assms, of _ i] by auto
  then show ?thesis using Nil by (auto simp: file_read_checkpoint_def)
next
  case (Cons p ps)
  then obtain c where c: "checkpoint_entry dump c \<in> set fs" "ck_id c = i" "p = fst (checkpoint_entry dump c)"
    using checkpoint_paths_are [OF assms, of p i] by auto
  have "scrubbed dump c' = scrubbed dump c" if "checkpoint_entry dump c' \<in> set fs" "ck_id c' = i" for c'
    using that c assms by (intro checkpoint_entry_scrubbed) (auto simp: file_inv_def)
  with c(1,2) have "\<forall>x. Some (scrubbed dump c) = Some x \<longleftrightarrow>
      (\<exists>c. checkpoint_entry dump c \<in> set fs \<and> ck_id c = i \<and> x = scrubbed dump c)"
    by (metis option.inject)
  moreover have "file_read_checkpoint i fs = Inr (Some (scrubbed dump c))"
    using entry_read(1) [OF file_inv_wf [OF assms] c(1)] c(3) Cons
    by (simp add: file_read_checkpoint_def checkpoint_entry_def)
  ultimately show ?thesis by (intro exI [of _ "Some (scrubbed dump c)"] conjI)
qed

text \<open>Reading a list of files that all decode.\<close>

lemma read_files_are:
  "(\<And>p. p \<in> set ps \<Longrightarrow> bindE (read_file p fs) decode = Inr (g p)) \<Longrightarrow> read_files decode ps fs = Inr (map g ps)"
  by (induction ps) simp_all

lemma read_files_ok:
  assumes "\<And>p. p \<in> set ps \<Longrightarrow> \<exists>x. bindE (read_file p fs) decode = Inr x" and "distinct ps"
    and "\<And>p q x. p \<in> set ps \<Longrightarrow> q \<in> set ps \<Longrightarrow> bindE (read_file p fs) decode = Inr x \<Longrightarrow>
      bindE (read_file q fs) decode = Inr x \<Longrightarrow> p = q"
  shows "\<exists>xs. read_files decode ps fs = Inr xs \<and> distinct xs \<and>
    (\<forall>x. x \<in> set xs \<longleftrightarrow> (\<exists>p \<in> set ps. bindE (read_file p fs) decode = Inr x))"
proof -
  define g where "g = (\<lambda>p. projr (bindE (read_file p fs) decode))"
  have g: "bindE (read_file p fs) decode = Inr (g p)" if "p \<in> set ps" for p
    using assms(1) [OF that] by (auto simp: g_def)
  have "inj_on g (set ps)"
    by (rule inj_onI) (metis assms(3) g)
  then have "distinct (map g ps)" using assms(2) by (simp add: distinct_map)
  moreover have "x \<in> set (map g ps) \<longleftrightarrow> (\<exists>p \<in> set ps. bindE (read_file p fs) decode = Inr x)" for x
    using g by auto
  ultimately show ?thesis using read_files_are [OF g] by blast
qed

lemma checkpoint_files_are:
  assumes "file_inv dump fs"
  shows "p \<in> set (filter (\<lambda>p. length p = 3 \<and> butlast p = [j, ''checkpoints''] \<and> ends_with (last p) ''.json'') (map fst fs)) \<longleftrightarrow>
    (\<exists>c. checkpoint_entry dump c \<in> set fs \<and> ck_session c = j \<and> p = fst (checkpoint_entry dump c))" (is "?l \<longleftrightarrow> ?r")
proof
  assume ?l
  then obtain d where d: "(p, d) \<in> set fs" and p: "length p = 3" "butlast p = [j, ''checkpoints'']" by auto
  from assms d show ?r
  proof (cases rule: file_inv_cases)
    case (checkpoint c)
    then show ?thesis using p d by (auto simp: checkpoint_entry_def)
  next
    case (meta m)
    then show ?thesis using p by (simp add: meta_entry_def)
  qed
next
  assume ?r
  then obtain c where c: "checkpoint_entry dump c \<in> set fs" "ck_session c = j" "p = fst (checkpoint_entry dump c)" by blast
  have "p \<in> fst ` set fs" unfolding c(3) using c(1) by (rule imageI)
  moreover have "ends_with (checkpoint_file c) ''.json''"
    unfolding ends_with_append by (rule exI [of _ "pad8 (ck_seq c) @ ''-'' @ ck_id c"]) (simp add: checkpoint_file_def)
  ultimately show ?l using c(2,3) by (simp add: checkpoint_entry_def)
qed

lemma file_read_session_is:
  assumes "file_inv dump fs"
  shows "\<exists>cs. file_read_session j fs = Inr cs \<and> distinct cs \<and>
    (\<forall>x. x \<in> set cs \<longleftrightarrow> (\<exists>c. checkpoint_entry dump c \<in> set fs \<and> ck_session c = j \<and> x = scrubbed dump c))"
proof (cases "is_plain_segment j")
  case True
  let ?ps = "filter (\<lambda>p. length p = 3 \<and> butlast p = [j, ''checkpoints''] \<and> ends_with (last p) ''.json'') (map fst fs)"
  have read: "bindE (read_file (fst (checkpoint_entry dump c)) fs) checkpoint_from_dict = Inr (scrubbed dump c)"
    if "checkpoint_entry dump c \<in> set fs" for c
    using entry_read(1) [OF file_inv_wf [OF assms] that] by (simp add: checkpoint_entry_def)
  have ps: "p \<in> set ?ps \<longleftrightarrow> (\<exists>c. checkpoint_entry dump c \<in> set fs \<and> ck_session c = j \<and> p = fst (checkpoint_entry dump c))" for p
    by (rule checkpoint_files_are [OF assms])
  have "\<exists>xs. read_files checkpoint_from_dict ?ps fs = Inr xs \<and> distinct xs \<and>
    (\<forall>x. x \<in> set xs \<longleftrightarrow> (\<exists>p \<in> set ?ps. bindE (read_file p fs) checkpoint_from_dict = Inr x))"
  proof (rule read_files_ok)
    show "\<exists>x. bindE (read_file p fs) checkpoint_from_dict = Inr x" if "p \<in> set ?ps" for p
      using that read unfolding ps by blast
    show "distinct ?ps" using file_inv_wf [OF assms] by (simp add: dict_wf_def)
    show "p = q" if pq: "p \<in> set ?ps" "q \<in> set ?ps" "bindE (read_file p fs) checkpoint_from_dict = Inr x"
      "bindE (read_file q fs) checkpoint_from_dict = Inr x" for p q x
    proof -
      obtain c c' where c: "checkpoint_entry dump c \<in> set fs" "p = fst (checkpoint_entry dump c)"
        and c': "checkpoint_entry dump c' \<in> set fs" "q = fst (checkpoint_entry dump c')"
        using pq(1,2) unfolding ps by blast
      have "scrubbed dump c = scrubbed dump c'" using read [OF c(1)] read [OF c'(1)] pq(3,4) c(2) c'(2) by simp
      then have "ck_id c = ck_id c'" by (metis scrubbed_fields(1))
      then have "checkpoint_entry dump c = checkpoint_entry dump c'" using assms c(1) c'(1) unfolding file_inv_def by blast
      then show ?thesis using c c' by simp
    qed
  qed
  then obtain xs where xs: "read_files checkpoint_from_dict ?ps fs = Inr xs" "distinct xs"
    and mem: "\<And>x. x \<in> set xs \<longleftrightarrow> (\<exists>p \<in> set ?ps. bindE (read_file p fs) checkpoint_from_dict = Inr x)" by blast
  have all: "x \<in> set xs \<longleftrightarrow> (\<exists>c. checkpoint_entry dump c \<in> set fs \<and> ck_session c = j \<and> x = scrubbed dump c)" for x
    unfolding mem ps Bex_def using read by (metis Inr_inject)
  then have "filter (\<lambda>c. ck_session c = j) xs = xs" by (auto simp: filter_id_conv)
  then show ?thesis using True xs all by (simp add: file_read_session_def checkpoint_dir_def)
next
  case False
  then show ?thesis
    using file_inv_plain(1) [OF assms] by (auto simp: file_read_session_def checkpoint_dir_def)
qed

lemma meta_file_is:
  assumes "file_inv dump fs"
  shows "map_of fs [j, ''meta.json''] = Some d \<longleftrightarrow> (\<exists>m. meta_entry m \<in> set fs \<and> sm_id m = j \<and> d = meta_to_dict m)"
proof
  assume "map_of fs [j, ''meta.json''] = Some d"
  then have d: "([j, ''meta.json''], d) \<in> set fs" by (rule map_of_SomeD)
  from assms d show "\<exists>m. meta_entry m \<in> set fs \<and> sm_id m = j \<and> d = meta_to_dict m"
  proof (cases rule: file_inv_cases)
    case (checkpoint c)
    then show ?thesis by (simp add: checkpoint_entry_def)
  next
    case (meta m)
    then show ?thesis using d by (intro exI [of _ m]) (simp add: meta_entry_def)
  qed
next
  assume "\<exists>m. meta_entry m \<in> set fs \<and> sm_id m = j \<and> d = meta_to_dict m"
  then show "map_of fs [j, ''meta.json''] = Some d"
    using file_inv_wf [OF assms] by (auto simp: meta_entry_def dict_wf_lookup)
qed

lemma file_read_meta_is:
  assumes "file_inv dump fs"
  shows "\<exists>r. file_read_meta j fs = Inr r \<and> (\<forall>m. r = Some m \<longleftrightarrow> meta_entry m \<in> set fs \<and> sm_id m = j)"
proof (cases "is_plain_segment j \<and> map_of fs [j, ''meta.json''] \<noteq> None")
  case True
  then obtain m where m: "meta_entry m \<in> set fs" "sm_id m = j" using meta_file_is [OF assms, of j] by auto
  then have look: "map_of fs [j, ''meta.json''] = Some (meta_to_dict m)" using meta_file_is [OF assms, of j] by blast
  have "m' = m" if "meta_entry m' \<in> set fs" "sm_id m' = j" for m'
  proof -
    have "map_of fs [j, ''meta.json''] = Some (meta_to_dict m')" using that meta_file_is [OF assms, of j] by blast
    then have "meta_from_dict (meta_to_dict m') = meta_from_dict (meta_to_dict m)" using look by simp
    then show ?thesis by (simp add: meta_roundtrip)
  qed
  with m have "\<forall>m'. Some m = Some m' \<longleftrightarrow> meta_entry m' \<in> set fs \<and> sm_id m' = j" by (metis option.inject)
  moreover have "file_read_meta j fs = Inr (Some m)"
    using True look m by (simp add: file_read_meta_def session_dir_def read_file_def meta_roundtrip)
  ultimately show ?thesis by (intro exI [of _ "Some m"] conjI)
next
  case False
  then have "file_read_meta j fs = Inr None" by (auto simp: file_read_meta_def session_dir_def)
  moreover have "\<not> (meta_entry m \<in> set fs \<and> sm_id m = j)" for m
    using False file_inv_plain(2) [OF assms, of m] meta_file_is [OF assms, of j "meta_to_dict m"] by auto
  ultimately show ?thesis by simp
qed

lemma file_read_all_meta_is:
  assumes "file_inv dump fs"
  shows "\<exists>ms. file_read_all_meta fs = Inr ms \<and> (\<forall>m. m \<in> set ms \<longleftrightarrow> meta_entry m \<in> set fs)"
proof -
  let ?ps = "filter (\<lambda>p. length p = 2 \<and> last p = ''meta.json'') (map fst fs)"
  have ps: "p \<in> set ?ps \<longleftrightarrow> (\<exists>m. meta_entry m \<in> set fs \<and> p = [sm_id m, ''meta.json''])" for p
  proof
    assume "p \<in> set ?ps"
    then obtain d where d: "(p, d) \<in> set fs" and p: "length p = 2" by auto
    from assms d show "\<exists>m. meta_entry m \<in> set fs \<and> p = [sm_id m, ''meta.json'']"
    proof (cases rule: file_inv_cases)
      case (checkpoint c)
      then show ?thesis using p by (simp add: checkpoint_entry_def)
    next
      case (meta m)
      then show ?thesis using d by (intro exI [of _ m]) (simp add: meta_entry_def)
    qed
  next
    assume "\<exists>m. meta_entry m \<in> set fs \<and> p = [sm_id m, ''meta.json'']"
    then obtain m where m: "meta_entry m \<in> set fs" "p = fst (meta_entry m)" by (auto simp: meta_entry_def)
    have "p \<in> fst ` set fs" unfolding m(2) using m(1) by (rule imageI)
    then show "p \<in> set ?ps" using m(2) by (simp add: meta_entry_def)
  qed
  note read = entry_read(2) [OF file_inv_wf [OF assms]]
  have "\<exists>xs. read_files meta_from_dict ?ps fs = Inr xs \<and> distinct xs \<and>
    (\<forall>x. x \<in> set xs \<longleftrightarrow> (\<exists>p \<in> set ?ps. bindE (read_file p fs) meta_from_dict = Inr x))"
  proof (rule read_files_ok)
    show "\<exists>x. bindE (read_file p fs) meta_from_dict = Inr x" if "p \<in> set ?ps" for p
      using that read unfolding ps by blast
    show "distinct ?ps" using file_inv_wf [OF assms] by (simp add: dict_wf_def)
    show "p = q" if pq: "p \<in> set ?ps" "q \<in> set ?ps" "bindE (read_file p fs) meta_from_dict = Inr x"
      "bindE (read_file q fs) meta_from_dict = Inr x" for p q x
    proof -
      obtain m m' where m: "meta_entry m \<in> set fs" "p = [sm_id m, ''meta.json'']"
        and m': "meta_entry m' \<in> set fs" "q = [sm_id m', ''meta.json'']" using pq(1,2) unfolding ps by blast
      then show ?thesis using read [OF m(1)] read [OF m'(1)] pq(3,4) by simp
    qed
  qed
  then obtain xs where xs: "read_files meta_from_dict ?ps fs = Inr xs"
    and mem: "\<And>x. x \<in> set xs \<longleftrightarrow> (\<exists>p \<in> set ?ps. bindE (read_file p fs) meta_from_dict = Inr x)" by blast
  have "m \<in> set xs \<longleftrightarrow> meta_entry m \<in> set fs" for m
    unfolding mem ps Bex_def using read by (metis Inr_inject)
  then show ?thesis using xs by (simp add: file_read_all_meta_def)
qed

lemmas file_reads = file_read_checkpoint_is file_read_session_is file_read_meta_is file_read_all_meta_is

text \<open>What the backend reads, in terms of the entries.\<close>

lemma backend_reads:
  assumes "file_inv dump fs"
  shows "be_read_checkpoint (file_backend dump io) i fs = Some x \<longleftrightarrow>
      (\<exists>c. checkpoint_entry dump c \<in> set fs \<and> ck_id c = i \<and> x = scrubbed dump c)"
    and "x \<in> set (be_read_session (file_backend dump io) j fs) \<longleftrightarrow>
      (\<exists>c. checkpoint_entry dump c \<in> set fs \<and> ck_session c = j \<and> x = scrubbed dump c)"
    and "distinct (be_read_session (file_backend dump io) j fs)"
    and "be_read_meta (file_backend dump io) j fs = Some m \<longleftrightarrow> meta_entry m \<in> set fs \<and> sm_id m = j"
    and "m \<in> set (be_read_all_meta (file_backend dump io) fs) \<longleftrightarrow> meta_entry m \<in> set fs"
  using file_read_checkpoint_is [OF assms, of i] file_read_session_is [OF assms, of j] file_read_meta_is [OF assms, of j]
    file_read_all_meta_is [OF assms]
  by (auto simp: file_backend_def)

subsection \<open>The file store keeps the laws of a backend\<close>

lemma atomic_write_ok:
  "atomic_write_json io p payload fs = (Inr (), t) \<Longrightarrow> t = dict_put p payload fs"
  by (auto simp: atomic_write_json_def updM_app throwM_app split: if_splits)

lemma liftE_ok: "liftE w m s = (Inr x, t) \<longleftrightarrow> m = Inr x \<and> t = s"
  by (cases m) (auto simp: throwM_app returnM_app)

lemma liftE_fails: "liftE w m s = (Inl e, t) \<Longrightarrow> t = s"
  by (cases m) (auto simp: throwM_app returnM_app)

text \<open>A write that raises leaves the tree as it is.\<close>

lemma atomic_write_fails: "atomic_write_json io p payload fs = (Inl e, t) \<Longrightarrow> t = fs"
  by (auto simp: atomic_write_json_def updM_app throwM_app split: if_splits)

lemma file_write_fails: "file_write_checkpoint dump io c fs = (Inl e, t) \<Longrightarrow> t = fs"
  by (auto simp: file_write_checkpoint_def checkpoint_dir_def throwM_app bindM_getM bindM_Inl_iff liftE_ok
      dest: atomic_write_fails liftE_fails split: if_splits option.splits)

lemma file_write_meta_fails: "file_write_meta io m fs = (Inl e, t) \<Longrightarrow> t = fs"
  by (auto simp: file_write_meta_def session_dir_def throwM_app bindM_getM bindM_Inl_iff liftE_ok
      dest: atomic_write_fails liftE_fails split: if_splits option.splits)

lemma put_entry: "dict_wf fs \<Longrightarrow> e \<in> set (dict_put p d fs) \<longleftrightarrow> (if fst e = p then snd e = d else e \<in> set fs)"
  using dict_put_members [of fs "fst e" "snd e"] by simp

lemma put_meta_entry:
  "dict_wf fs \<Longrightarrow> p = [session, ''checkpoints'', name] \<Longrightarrow> meta_entry m \<in> set (dict_put p d fs) \<longleftrightarrow> meta_entry m \<in> set fs"
  "dict_wf fs \<Longrightarrow> p = [session, ''meta.json''] \<Longrightarrow>
     checkpoint_entry dump c \<in> set (dict_put p d fs) \<longleftrightarrow> checkpoint_entry dump c \<in> set fs"
  by (simp_all add: put_entry meta_entry_def checkpoint_entry_def)

lemma file_write_ok:
  assumes "file_inv dump fs" and "be_read_checkpoint (file_backend dump io) (ck_id c) fs = None"
    and "file_write_checkpoint dump io c fs = (Inr (), t)"
  shows "file_inv dump t \<and> (\<forall>c'. checkpoint_entry dump c' \<in> set t \<longleftrightarrow>
      checkpoint_entry dump c' = checkpoint_entry dump c \<or> checkpoint_entry dump c' \<in> set fs) \<and>
    (\<forall>m. meta_entry m \<in> set t \<longleftrightarrow> meta_entry m \<in> set fs)"
proof -
  let ?p = "[ck_session c, ''checkpoints'', checkpoint_file c]"
  have plain: "is_plain_segment (ck_session c)" "is_plain_segment (ck_id c)"
    and t: "t = dict_put ?p (checkpoint_to_dict dump c) fs"
    using assms(3)
    by (auto simp: file_write_checkpoint_def checkpoint_dir_def throwM_app bindM_getM bindM_Inr_iff liftE_ok
        dest!: atomic_write_ok split: if_splits option.splits)
  have wf: "dict_wf fs" using assms(1) by (rule file_inv_wf)
  have new: "ck_id c' \<noteq> ck_id c" if "checkpoint_entry dump c' \<in> set fs" for c'
    using that assms(2) backend_reads(1) [OF assms(1), of io "ck_id c" "scrubbed dump c'"] by auto
  have "fst (checkpoint_entry dump c') \<noteq> ?p" if "checkpoint_entry dump c' \<in> set fs" for c'
  proof
    assume "fst (checkpoint_entry dump c') = ?p"
    then have "checkpoint_file c' = checkpoint_file c" by (simp add: checkpoint_entry_def)
    then have "ck_id c' = ck_id c" by (metis names_checkpoint_file)
    with new [OF that] show False by simp
  qed
  then have ck: "checkpoint_entry dump c' \<in> set t \<longleftrightarrow>
      checkpoint_entry dump c' = checkpoint_entry dump c \<or> checkpoint_entry dump c' \<in> set fs" for c'
    unfolding t put_entry [OF wf] by (auto simp: checkpoint_entry_def [of dump c] prod_eq_iff)
  have meta: "meta_entry m \<in> set t \<longleftrightarrow> meta_entry m \<in> set fs" for m
    unfolding t by (rule put_meta_entry(1) [OF wf refl])
  have mem: "e = checkpoint_entry dump c \<or> e \<in> set fs" if "e \<in> set t" for e
    using that unfolding t put_entry [OF wf] by (auto simp: checkpoint_entry_def prod_eq_iff split: if_splits)
  have "file_inv dump t"
    unfolding file_inv_def
  proof (intro conjI allI impI ballI)
    show "dict_wf t" unfolding t using wf by (rule dict_put_wf)
    show "(\<exists>c. e = checkpoint_entry dump c \<and> is_plain_segment (ck_session c) \<and> is_plain_segment (ck_id c)) \<or>
        (\<exists>m. e = meta_entry m \<and> is_plain_segment (sm_id m))" if "e \<in> set t" for e
      using mem [OF that] plain assms(1) unfolding file_inv_def by blast
    show "checkpoint_entry dump d = checkpoint_entry dump d'"
      if d: "checkpoint_entry dump d \<in> set t" "checkpoint_entry dump d' \<in> set t" "ck_id d = ck_id d'" for d d'
      using d ck [of d] ck [of d'] new [of d] new [of d'] checkpoint_entry_ids [of dump d c]
        checkpoint_entry_ids [of dump d' c] assms(1) unfolding file_inv_def by metis
  qed
  then show ?thesis using ck meta by blast
qed

lemma own_path:
  assumes "file_inv dump fs" and c: "checkpoint_entry dump c \<in> set fs"
  shows "fst (checkpoint_entry dump c) \<in> set (checkpoint_paths i fs) \<longleftrightarrow> ck_id c = i"
proof
  assume "fst (checkpoint_entry dump c) \<in> set (checkpoint_paths i fs)"
  then obtain c' where c': "ck_id c' = i" "fst (checkpoint_entry dump c) = fst (checkpoint_entry dump c')"
    unfolding checkpoint_paths_are [OF assms(1)] by blast
  then have "checkpoint_file c = checkpoint_file c'" by (simp add: checkpoint_entry_def)
  then show "ck_id c = i" using c' by (metis names_checkpoint_file)
qed (use c checkpoint_paths_are [OF assms(1)] in blast)

lemma file_delete_ok:
  assumes "file_inv dump fs"
  shows "\<exists>t. file_delete_checkpoint i fs = (Inr (), t) \<and> file_inv dump t \<and>
    (\<forall>c. checkpoint_entry dump c \<in> set t \<longleftrightarrow> checkpoint_entry dump c \<in> set fs \<and> ck_id c \<noteq> i) \<and>
    (\<forall>m. meta_entry m \<in> set t \<longleftrightarrow> meta_entry m \<in> set fs)"
proof -
  define t where "t = filter (\<lambda>(p, d). p \<notin> set (checkpoint_paths i fs)) fs"
  note paths = checkpoint_paths_are [OF assms, of _ i]
  have wf: "dict_wf fs" using assms by (rule file_inv_wf)
  have ck: "checkpoint_entry dump c \<in> set t \<longleftrightarrow> checkpoint_entry dump c \<in> set fs \<and> ck_id c \<noteq> i" for c
    using own_path [OF assms, of c i] by (auto simp: t_def case_prod_beta)
  have "fst (meta_entry m) \<notin> set (checkpoint_paths i fs)" for m
    unfolding paths by (simp add: meta_entry_def checkpoint_entry_def)
  then have meta: "meta_entry m \<in> set t \<longleftrightarrow> meta_entry m \<in> set fs" for m
    by (simp add: t_def case_prod_beta)
  have "file_inv dump t"
    using assms ck unfolding file_inv_def by (auto simp: t_def dict_wf_def distinct_map_filter)
  moreover have "file_delete_checkpoint i fs = (Inr (), t)"
    by (simp add: file_delete_checkpoint_def updM_app t_def)
  ultimately show ?thesis using ck meta by blast
qed

lemma file_write_meta_ok:
  assumes "file_inv dump fs" and "file_write_meta io m fs = (Inr (), t)"
  shows "file_inv dump t \<and> (\<forall>c. checkpoint_entry dump c \<in> set t \<longleftrightarrow> checkpoint_entry dump c \<in> set fs) \<and>
    (\<forall>m'. meta_entry m' \<in> set t \<longleftrightarrow> (if sm_id m' = sm_id m then m' = m else meta_entry m' \<in> set fs))"
proof -
  have plain: "is_plain_segment (sm_id m)" and t: "t = dict_put [sm_id m, ''meta.json''] (meta_to_dict m) fs"
    using assms(2)
    by (auto simp: file_write_meta_def session_dir_def throwM_app bindM_getM bindM_Inr_iff liftE_ok
        dest!: atomic_write_ok split: if_splits option.splits)
  have wf: "dict_wf fs" using assms(1) by (rule file_inv_wf)
  have ck: "checkpoint_entry dump c \<in> set t \<longleftrightarrow> checkpoint_entry dump c \<in> set fs" for c
    unfolding t by (rule put_meta_entry(2) [OF wf refl])
  have "meta_to_dict m' = meta_to_dict m \<longleftrightarrow> m' = m" if "sm_id m' = sm_id m" for m'
    using meta_entry_inj [of m' m] that by (simp add: meta_entry_def)
  then have meta: "meta_entry m' \<in> set t \<longleftrightarrow> (if sm_id m' = sm_id m then m' = m else meta_entry m' \<in> set fs)" for m'
    unfolding t put_entry [OF wf] by (simp add: meta_entry_def)
  have mem: "e = meta_entry m \<or> e \<in> set fs" if "e \<in> set t" for e
    using that unfolding t put_entry [OF wf] by (auto simp: meta_entry_def prod_eq_iff split: if_splits)
  have "dict_wf t" unfolding t using wf by (rule dict_put_wf)
  then have "file_inv dump t"
    using assms(1) plain mem ck unfolding file_inv_def by blast
  then show ?thesis using ck meta by blast
qed

lemma option_eqI: "(\<And>x. a = Some x \<longleftrightarrow> b = Some x) \<Longrightarrow> a = b"
  by (cases a; cases b) auto

lemma same_meta_reads:
  assumes "file_inv dump s" and "file_inv dump t" and "\<forall>m. meta_entry m \<in> set t \<longleftrightarrow> meta_entry m \<in> set s"
  shows "be_read_meta (file_backend dump io) j t = be_read_meta (file_backend dump io) j s"
  by (rule option_eqI) (simp add: backend_reads assms)

lemma same_checkpoint_reads:
  assumes "file_inv dump s" and "file_inv dump t"
    and "\<forall>c. checkpoint_entry dump c \<in> set t \<longleftrightarrow> checkpoint_entry dump c \<in> set s"
  shows "be_read_checkpoint (file_backend dump io) i t = be_read_checkpoint (file_backend dump io) i s"
  by (rule option_eqI) (simp add: backend_reads assms)

interpretation files: checkpoint_store "file_backend dump io" "file_inv dump" "scrubbed dump" for dump io
proof unfold_locales
  fix s i c
  assume "file_inv dump s" "be_read_checkpoint (file_backend dump io) i s = Some c"
  then show "ck_id c = i" by (auto simp: backend_reads)
next
  fix s j m
  assume "file_inv dump s" "be_read_meta (file_backend dump io) j s = Some m"
  then show "sm_id m = j" by (simp add: backend_reads)
next
  fix s j
  assume "file_inv dump s"
  then show "set (be_read_session (file_backend dump io) j s) =
      {c. be_read_checkpoint (file_backend dump io) (ck_id c) s = Some c \<and> ck_session c = j}"
    by (auto simp: backend_reads) (metis scrubbed_fields(1))
next
  fix s j
  assume "file_inv dump s"
  then show "distinct (be_read_session (file_backend dump io) j s)" by (simp add: backend_reads)
next
  fix s c t
  assume s: "file_inv dump s" and none: "be_read_checkpoint (file_backend dump io) (ck_id c) s = None"
    and "be_write_checkpoint (file_backend dump io) c s = (Inr (), t)"
  then have "file_write_checkpoint dump io c s = (Inr (), t)" by (simp add: file_backend_def)
  note t = file_write_ok [OF s none this]
  have "be_read_checkpoint (file_backend dump io) i t =
      (if i = ck_id c then Some (scrubbed dump c) else be_read_checkpoint (file_backend dump io) i s)" for i
  proof (rule option_eqI)
    fix x
    have "(\<exists>d. checkpoint_entry dump d \<in> set t \<and> ck_id d = i \<and> x = scrubbed dump d) \<longleftrightarrow>
        i = ck_id c \<and> x = scrubbed dump c \<or> (\<exists>d. checkpoint_entry dump d \<in> set s \<and> ck_id d = i \<and> x = scrubbed dump d)"
      using t checkpoint_entry_ids checkpoint_entry_scrubbed by metis
    moreover have "\<not> (\<exists>d. checkpoint_entry dump d \<in> set s \<and> ck_id d = ck_id c \<and> x = scrubbed dump d)"
      using none backend_reads(1) [OF s, of io "ck_id c" x] by simp
    ultimately show "be_read_checkpoint (file_backend dump io) i t = Some x \<longleftrightarrow>
        (if i = ck_id c then Some (scrubbed dump c) else be_read_checkpoint (file_backend dump io) i s) = Some x"
      using backend_reads(1) [OF s, of io i x] backend_reads(1) [of dump t io i x] t
      by (cases "i = ck_id c") (simp_all add: eq_commute)
  qed
  then show "file_inv dump t \<and> (\<forall>j. be_read_meta (file_backend dump io) j t = be_read_meta (file_backend dump io) j s) \<and>
     (\<forall>i. be_read_checkpoint (file_backend dump io) i t =
        (if i = ck_id c then Some (scrubbed dump c) else be_read_checkpoint (file_backend dump io) i s))"
    using t s same_meta_reads by blast
next
  fix s i
  assume s: "file_inv dump s"
  obtain t where t: "file_delete_checkpoint i s = (Inr (), t)" "file_inv dump t"
    "\<forall>c. checkpoint_entry dump c \<in> set t \<longleftrightarrow> checkpoint_entry dump c \<in> set s \<and> ck_id c \<noteq> i"
    "\<forall>m. meta_entry m \<in> set t \<longleftrightarrow> meta_entry m \<in> set s"
    using file_delete_ok [OF s, of i] by blast
  have "be_read_checkpoint (file_backend dump io) k t =
      (if k = i then None else be_read_checkpoint (file_backend dump io) k s)" for k
    by (rule option_eqI) (auto simp: backend_reads s t(2,3))
  then show "\<exists>t. be_delete_checkpoint (file_backend dump io) i s = (Inr (), t) \<and> file_inv dump t \<and>
     (\<forall>j. be_read_meta (file_backend dump io) j t = be_read_meta (file_backend dump io) j s) \<and>
     (\<forall>k. be_read_checkpoint (file_backend dump io) k t =
        (if k = i then None else be_read_checkpoint (file_backend dump io) k s))"
    using t same_meta_reads [OF s t(2,4)] by (intro exI [of _ t]) (simp add: file_backend_def)
next
  fix s m t
  assume s: "file_inv dump s" and "be_write_meta (file_backend dump io) m s = (Inr (), t)"
  then have "file_write_meta io m s = (Inr (), t)" by (simp add: file_backend_def)
  note t = file_write_meta_ok [OF s this]
  have "be_read_meta (file_backend dump io) j t = (if j = sm_id m then Some m else be_read_meta (file_backend dump io) j s)" for j
    by (rule option_eqI) (use t s in \<open>auto simp: backend_reads\<close>)
  then show "file_inv dump t \<and>
     (\<forall>i. be_read_checkpoint (file_backend dump io) i t = be_read_checkpoint (file_backend dump io) i s) \<and>
     (\<forall>j. be_read_meta (file_backend dump io) j t = (if j = sm_id m then Some m else be_read_meta (file_backend dump io) j s))"
    using t s same_checkpoint_reads by blast
next
  fix s
  assume "file_inv dump s"
  then show "set (be_read_all_meta (file_backend dump io) s) = {m. be_read_meta (file_backend dump io) (sm_id m) s = Some m}"
    by (auto simp: backend_reads)
next
  fix s c e t
  assume "be_write_checkpoint (file_backend dump io) c s = (Inl e, t)"
  then show "t = s" by (auto simp: file_backend_def dest: file_write_fails)
next
  fix s m e t
  assume "be_write_meta (file_backend dump io) m s = (Inl e, t)"
  then show "t = s" by (auto simp: file_backend_def dest: file_write_meta_fails)
qed simp_all

subsection \<open>Properties\<close>

definition files_reachable :: "(string \<Rightarrow> pyval option) \<Rightarrow> (string list \<Rightarrow> bool) \<Rightarrow> files \<Rightarrow> bool" where
  "files_reachable dump io fs \<longleftrightarrow> (store_step (file_backend dump io))\<^sup>*\<^sup>* [] fs"

lemma files_reachable_numbered: "files_reachable dump io fs \<Longrightarrow> files.numbered dump io fs"
proof -
  have inv: "file_inv dump []" by (simp add: file_inv_def)
  have "set (be_read_session (file_backend dump io) j []) = {}" for j
    by (rule equals0I) (simp add: backend_reads [OF inv])
  then have "files.numbered dump io []" using inv unfolding files.numbered_def by simp
  then show "files_reachable dump io fs \<Longrightarrow> files.numbered dump io fs"
    unfolding files_reachable_def by (rule files.steps_numbered [rotated])
qed

lemma pad8_length: "8 \<le> length (pad8 n)"
  using decimal_not_Nil [of "nat \<bar>n\<bar>"] by (cases "decimal (nat \<bar>n\<bar>)") (auto simp: pad8_def Let_def)

lemma checkpoint_file_plain:
  assumes "is_plain_segment (ck_id c)"
  shows "is_plain_segment (checkpoint_file c)"
proof -
  obtain neg d where p: "pad8 (ck_seq c) = (if neg then ''-'' else []) @ d" and d: "list_all is_digit_char d"
    using pad8_shape by blast
  have not: "\<not> is_digit_char (CHR ''/'')" "\<not> is_digit_char (CHR 0x5C)" "\<not> is_digit_char (CHR 0x00)" "\<not> is_digit_char (CHR '':'')"
    by (simp_all add: is_digit_char_def ascii_digit_def)
  let ?l = "pad8 (ck_seq c)"
  have len: "8 \<le> length ?l" by (rule pad8_length)
  have "checkpoint_file c ! 1 = ?l ! 1" using len by (simp add: checkpoint_file_def nth_append)
  moreover have "?l ! 1 \<in> set d" using len unfolding p by (cases neg) (auto intro!: nth_mem)
  ultimately have second: "checkpoint_file c ! 1 \<noteq> CHR '':''" using d not(4) by (auto simp: list_all_iff)
  have "set (checkpoint_file c) \<subseteq> set d \<union> {CHR ''-''} \<union> set (ck_id c) \<union> set ''.json''"
    unfolding checkpoint_file_def p by auto
  moreover have "CHR ''/'' \<notin> set d" "CHR 0x5C \<notin> set d" "CHR 0x00 \<notin> set d"
    using d not(1,2,3) by (auto simp: list_all_iff)
  ultimately have "CHR ''/'' \<notin> set (checkpoint_file c)" "CHR 0x5C \<notin> set (checkpoint_file c)" "CHR 0x00 \<notin> set (checkpoint_file c)"
    using assms by (auto simp: is_plain_segment_def)
  moreover have "8 \<le> length (checkpoint_file c)" using len by (simp add: checkpoint_file_def)
  ultimately show ?thesis using second by (auto simp: is_plain_segment_def)
qed


text \<open>C34: a put of a new checkpoint into the file store either returns and has appended what the codec
  keeps of the checkpoint to the log of its session and moved the head to it, or raises and has changed
  no metadata and no other checkpoint.  Under an id that is no plain name it raises and changes nothing.\<close>

theorem file_put_appends_or_fails:
  assumes "files_reachable dump io fs" and "be_read_checkpoint (file_backend dump io) (ck_id c) fs = None"
  shows "(case put (file_backend dump io) now c fs of
      (Inr stored, t) \<Rightarrow> files_reachable dump io t \<and>
        history (file_backend dump io) (ck_session c) t =
          history (file_backend dump io) (ck_session c) fs @ [scrubbed dump stored] \<and>
        head_of (file_backend dump io) (ck_session c) t = Some (scrubbed dump stored) \<and>
        (\<forall>i. i \<noteq> ck_id c \<longrightarrow>
           be_read_checkpoint (file_backend dump io) i t = be_read_checkpoint (file_backend dump io) i fs)
    | (Inl e, t) \<Rightarrow> files_reachable dump io t \<and>
        (\<forall>j. be_read_meta (file_backend dump io) j t = be_read_meta (file_backend dump io) j fs) \<and>
        (\<forall>i. i \<noteq> ck_id c \<longrightarrow>
           be_read_checkpoint (file_backend dump io) i t = be_read_checkpoint (file_backend dump io) i fs)) \<and>
    (\<not> is_plain_segment (ck_id c) \<or> \<not> is_plain_segment (ck_session c) \<longrightarrow>
      put (file_backend dump io) now c fs =
        (Inl (store_error ''Invalid session or checkpoint id for file store.''), fs))"
proof -
  note num = files_reachable_numbered [OF assms(1)]
  obtain r t where p: "put (file_backend dump io) now c fs = (r, t)" by (cases "put (file_backend dump io) now c fs") blast
  have "store_step (file_backend dump io) fs t" by (rule store_step.put [OF assms(2) p])
  then have reach: "files_reachable dump io t"
    using assms(1) unfolding files_reachable_def by (rule rtranclp.rtrancl_into_rtrancl [rotated])
  have bad: "put (file_backend dump io) now c fs = (Inl (store_error ''Invalid session or checkpoint id for file store.''), fs)"
    if "\<not> is_plain_segment (ck_id c) \<or> \<not> is_plain_segment (ck_session c)"
    using that by (auto simp: put_def bindM_getM Let_def file_backend_def file_write_checkpoint_def checkpoint_dir_def
        bindM_throwM throwM_app bindM_Inl)
  show ?thesis
  proof (cases r)
    case (Inl e)
    then show ?thesis using files.put_fails [OF num assms(2)] p reach bad by auto
  next
    case (Inr stored)
    then show ?thesis using files.put_correct [OF num assms(2)] p reach bad by auto
  qed
qed

definition demo_tree :: files where
  "demo_tree = snd (put (file_backend (\<lambda>_. None) (\<lambda>_. True)) ''t1'' (demo_checkpoint ''c1'' None) [])"

lemma demo_plain: "is_plain_segment ''s1''" "is_plain_segment ''c1''"
  by code_simp+

lemma demo_file_write:
  "file_write_checkpoint (\<lambda>_. None) (\<lambda>_. True) (demo_checkpoint ''c1'' None) [] =
     (Inr (), [checkpoint_entry (\<lambda>_. None) (demo_checkpoint ''c1'' None)])"
  using demo_written [of 0 "''c1''" None]
  by (simp add: file_write_checkpoint_def checkpoint_dir_def bindM_getM assert_directory_owner_def liftE_Inr bindM_Inr
      atomic_write_json_def updM_app checkpoint_entry_def demo_plain demo_checkpoint_def)

lemma demo_tree_put:
  "\<exists>stored. put (file_backend (\<lambda>_. None) (\<lambda>_. True)) ''t1'' (demo_checkpoint ''c1'' None) [] = (Inr stored, demo_tree)"
proof -
  let ?b = "file_backend (\<lambda>_. None) (\<lambda>_. True)" and ?c = "demo_checkpoint ''c1'' None"
  have inv: "file_inv (\<lambda>_. None) []" by (simp add: file_inv_def)
  have "next_seq ?b ''s1'' [] = 0" by (simp add: next_seq_def file_backend_def file_read_session_def demo_plain checkpoint_dir_def)
  moreover have "?c\<lparr>ck_seq := 0\<rparr> = ?c" by (simp add: demo_checkpoint_def)
  moreover have "\<exists>t. advance_head ?b ''t1'' ?c [checkpoint_entry (\<lambda>_. None) ?c] = (Inr (), t)"
    by (simp add: advance_head_def file_backend_def bindM_getM file_read_meta_def session_dir_def demo_plain checkpoint_entry_def
        demo_checkpoint_def file_write_meta_def assert_directory_owner_def liftE_Inr bindM_Inr atomic_write_json_def
        updM_app meta_to_dict_def keep_all_def opt_text_def texts_def)
  ultimately show ?thesis
    using demo_file_write unfolding demo_tree_def
    by (auto simp: put_def bindM_getM Let_def bindM_Inr returnM_app demo_checkpoint_def file_backend_def)
qed

lemma empty_tree:
  "files_reachable dump io []" "be_read_checkpoint (file_backend dump io) i [] = None"
  "history (file_backend dump io) j [] = []"
proof -
  show "files_reachable dump io []" by (simp add: files_reachable_def)
  show "be_read_checkpoint (file_backend dump io) i [] = None"
    by (simp add: file_backend_def file_read_checkpoint_def checkpoint_paths_def)
  show "history (file_backend dump io) j [] = []"
    by (simp add: history_def file_backend_def file_read_session_def split: option.split)
qed

lemma demo_tree_reachable: "files_reachable (\<lambda>_. None) (\<lambda>_. True) demo_tree"
proof -
  have "store_step (file_backend (\<lambda>_. None) (\<lambda>_. True)) [] demo_tree"
    unfolding demo_tree_def by (rule store_step.put [OF _ surjective_pairing]) (rule empty_tree(2))
  then show ?thesis unfolding files_reachable_def by (rule r_into_rtranclp)
qed

lemma file_put_witness:
  "\<exists>stored. history (file_backend (\<lambda>_. None) (\<lambda>_. True)) ''s1'' demo_tree = [scrubbed (\<lambda>_. None) stored]"
proof -
  obtain stored where "put (file_backend (\<lambda>_. None) (\<lambda>_. True)) ''t1'' (demo_checkpoint ''c1'' None) [] = (Inr stored, demo_tree)"
    using demo_tree_put by blast
  moreover have "ck_session (demo_checkpoint ''c1'' None) = ''s1''" by (simp add: demo_checkpoint_def)
  ultimately show ?thesis
    using file_put_appends_or_fails [OF empty_tree(1) empty_tree(2), of "\<lambda>_. None" "\<lambda>_. True" "demo_checkpoint ''c1'' None" "''t1''"]
    by (auto simp: empty_tree(3))
qed


end
