(* ===== verification/SE_Session.thy ===== *)
theory SE_Session
  imports SE_Portable
begin

text \<open>
  The session facade (\<^verbatim>\<open>sessions/session.py\<close>) with the trace capture
  (\<^verbatim>\<open>sessions/trace_capture.py\<close>).  A method of a live session works on the store and on the
  session object; a class method works on the store and makes a session object.  The agent a
  session wraps is a boundary object, the record of the operations the session uses of it.  Fresh
  ids, the time and what the agent's run answers are arguments.  The ledger of failures and the
  binding of tools to the session are left out.
\<close>

subsection \<open>Agents and session objects\<close>

datatype CheckpointPolicy = PER_TURN | PER_STEP | MANUAL

datatype TraceCapture = OFF | AUTO | ARTIFACT | FULL

definition CheckpointPolicy_of :: "string \<Rightarrow> exn + CheckpointPolicy" where
  "CheckpointPolicy_of v =
     (if v = ''per_turn'' then Inr PER_TURN
      else if v = ''per_step'' then Inr PER_STEP
      else if v = ''manual'' then Inr MANUAL
      else Inl (ValueError ''not a valid CheckpointPolicy''))"

definition TraceCapture_of :: "string \<Rightarrow> exn + TraceCapture" where
  "TraceCapture_of v =
     (if v = ''off'' then Inr OFF
      else if v = ''auto'' then Inr AUTO
      else if v = ''artifact'' then Inr ARTIFACT
      else if v = ''full'' then Inr FULL
      else Inl (ValueError ''not a valid TraceCapture''))"

text \<open>\<open>ag_tracer_events\<close> lists what the tracer and the tracers inside it have as their events.\<close>

record 'a AgentOps =
  ag_supported :: "'a \<Rightarrow> bool"
  ag_name :: "'a \<Rightarrow> string"
  ag_history :: "'a \<Rightarrow> AgentMessage list"
  ag_set_history :: "AgentMessage list \<Rightarrow> 'a \<Rightarrow> 'a"
  ag_clear_calls :: "'a \<Rightarrow> 'a"
  ag_last_reply :: "'a \<Rightarrow> AgentMessage option"
  ag_last_trace :: "'a \<Rightarrow> pyval"
  ag_trace_enabled :: "'a \<Rightarrow> bool"
  ag_tracer_events :: "'a \<Rightarrow> pyval list"
  ag_export :: "'a \<Rightarrow> exn + RunState"
  ag_restore :: "RunState \<Rightarrow> exn + 'a"

record 'a Session =
  se_id :: string
  se_policy :: CheckpointPolicy
  se_trace :: TraceCapture
  se_tags :: "string list"
  se_parent :: "string option"
  se_head :: "string option"
  se_agent :: 'a

record ('s, 'a) World =
  w_store :: 's
  w_session :: "'a Session"

type_synonym ('s, 'a, 'r) session_op = "(('s, 'a) World, exn, 'r) sem"

text \<open>A store operation inside a method, and a method of a new session inside a class method.\<close>

definition storeM :: "('s, exn, 'r) sem \<Rightarrow> ('s, 'a, 'r) session_op" where
  "storeM m w = (case m (w_store w) of (r, s) \<Rightarrow> (r, w\<lparr>w_store := s\<rparr>))"

definition on_session :: "('s, 'a, 'r) session_op \<Rightarrow> 'a Session \<Rightarrow> ('s, exn, 'a Session) sem" where
  "on_session m x s =
     (case m \<lparr>w_store = s, w_session = x\<rparr> of
        (Inr _, w) \<Rightarrow> (Inr (w_session w), w_store w)
      | (Inl e, w) \<Rightarrow> (Inl e, w_store w))"

definition readS :: "('s \<Rightarrow> exn + 'r) \<Rightarrow> ('s, exn, 'r) sem" where
  "readS f = bindM (getM f) (liftE (\<lambda>e. e))"

definition on_agent :: "('a \<Rightarrow> 'a) \<Rightarrow> ('s, 'a, unit) session_op" where
  "on_agent f = updM (\<lambda>w. w\<lparr>w_session := (w_session w)\<lparr>se_agent := f (se_agent (w_session w))\<rparr>\<rparr>)"

definition session_failure :: "string \<Rightarrow> exn" where
  "session_failure msg = Exn ''SessionError'' [''VidbyteSdkError'', ''Exception'', ''BaseException''] msg"

subsection \<open>Trace capture\<close>

record CapturedTrace =
  ct_artifact :: "dict option"
  ct_summary :: "dict option"
  ct_events :: "dict list option"

definition max_events :: nat where
  "max_events = 200"

definition tracing_enabled :: "'a AgentOps \<Rightarrow> 'a \<Rightarrow> bool" where
  "tracing_enabled ops agent \<longleftrightarrow> ag_trace_enabled ops agent \<or> ag_last_trace ops agent \<noteq> VNone"

definition metadata_get :: "AgentMessage \<Rightarrow> string \<Rightarrow> pyval" where
  "metadata_get reply key = (case map_of (am_metadata reply) key of Some v \<Rightarrow> v | None \<Rightarrow> VNone)"

definition should_capture :: "'a AgentOps \<Rightarrow> TraceCapture \<Rightarrow> 'a \<Rightarrow> AgentMessage \<Rightarrow> bool" where
  "should_capture ops policy agent reply =
     (if policy = OFF then False
      else if policy = ARTIFACT \<or> policy = FULL then True
      else tracing_enabled ops agent \<or> metadata_get reply ''trace'' \<noteq> VNone)"

definition trace_artifact :: "'a AgentOps \<Rightarrow> 'a \<Rightarrow> AgentMessage \<Rightarrow> dict option" where
  "trace_artifact ops agent reply =
     (case metadata_get reply ''trace'' of
        VDict d \<Rightarrow> Some d
      | _ \<Rightarrow> (case ag_last_trace ops agent of VDict d \<Rightarrow> Some d | _ \<Rightarrow> None))"

definition trace_summary :: "AgentMessage \<Rightarrow> dict option" where
  "trace_summary reply = (case metadata_get reply ''trace_metadata'' of VDict d \<Rightarrow> Some d | _ \<Rightarrow> None)"

fun first_list :: "pyval list \<Rightarrow> pyval list option" where
  "first_list (VList es # vs) = Some es"
| "first_list (v # vs) = first_list vs"
| "first_list [] = None"

fun dicts_of :: "pyval list \<Rightarrow> dict list" where
  "dicts_of (VDict d # vs) = d # dicts_of vs"
| "dicts_of (v # vs) = dicts_of vs"
| "dicts_of [] = []"

text \<open>The tracer itself and at most four tracers inside it are asked.\<close>

definition trace_events :: "'a AgentOps \<Rightarrow> 'a \<Rightarrow> dict list option" where
  "trace_events ops agent =
     (case first_list (take 5 (ag_tracer_events ops agent)) of
        None \<Rightarrow> None
      | Some es \<Rightarrow> (let captured = dicts_of (drop (length es - max_events) es) in
          if captured = [] then None else Some captured))"

definition capture :: "'a AgentOps \<Rightarrow> TraceCapture \<Rightarrow> 'a \<Rightarrow> AgentMessage \<Rightarrow> CapturedTrace" where
  "capture ops policy agent reply =
     (if \<not> should_capture ops policy agent reply then \<lparr>ct_artifact = None, ct_summary = None, ct_events = None\<rparr>
      else \<lparr>ct_artifact = trace_artifact ops agent reply, ct_summary = trace_summary reply,
        ct_events = (if policy = FULL then trace_events ops agent else None)\<rparr>)"

definition empty_reply :: "string \<Rightarrow> AgentMessage" where
  "empty_reply name = \<lparr>am_sender = name, am_recipient = ''orchestrator'', am_content = [], am_type = ''response'',
     am_metadata = [], am_structured = VNone\<rparr>"

subsection \<open>Persisting\<close>

definition persist ::
  "'s Backend \<Rightarrow> 'a AgentOps \<Rightarrow> string \<Rightarrow> string \<Rightarrow> AgentMessage option \<Rightarrow> string \<Rightarrow> SessionStatus \<Rightarrow>
   ('s, 'a, Checkpoint) session_op" where
  "persist b ops now fresh reply label status =
     bindM (getM w_session) (\<lambda>x.
     let agent = se_agent x;
         captured = capture ops (se_trace x) agent
           (case reply of Some r \<Rightarrow> r | None \<Rightarrow> empty_reply (ag_name ops agent)) in
     bindM (liftE (\<lambda>e. e) (ag_export ops agent)) (\<lambda>state.
     bindM (storeM (put b now \<lparr>ck_id = fresh, ck_session = se_id x, ck_parent = se_head x, ck_seq = 0,
       ck_created = now, ck_state = state, ck_label = label, ck_status = status,
       ck_artifact = ct_artifact captured, ck_summary = ct_summary captured, ck_events = ct_events captured\<rparr>)) (\<lambda>stored.
     bindM (updM (\<lambda>w. w\<lparr>w_session := (w_session w)\<lparr>se_head := Some (ck_id stored)\<rparr>\<rparr>)) (\<lambda>_.
     returnM stored))))"

definition persist_fail_open ::
  "'s Backend \<Rightarrow> 'a AgentOps \<Rightarrow> string \<Rightarrow> string \<Rightarrow> AgentMessage \<Rightarrow> string \<Rightarrow> ('s, 'a, AgentMessage) session_op" where
  "persist_fail_open b ops now fresh reply label w =
     (case persist b ops now fresh (Some reply) label ACTIVE w of
        (Inr _, v) \<Rightarrow> (Inr reply, v)
      | (Inl e, v) \<Rightarrow> if exn_isinstance e [''Exception'']
          then (Inr (reply\<lparr>am_metadata := dict_put ''__session_error__''
            (VStr (exn_type e @ '': '' @ exn_msg e)) (am_metadata reply)\<rparr>), v)
          else (Inl e, v))"

subsection \<open>Opening a session\<close>

definition assert_absent :: "'s Backend \<Rightarrow> string \<Rightarrow> 's \<Rightarrow> exn + unit" where
  "assert_absent b i s =
     (case get_meta b i s of
        Inl _ \<Rightarrow> Inr ()
      | Inr _ \<Rightarrow> Inl (session_failure (''Session '' @ quoted i @
          '' already exists; continue it with Session.resume(store, session_id).'')))"

definition write_initial_meta :: "'s Backend \<Rightarrow> 'a AgentOps \<Rightarrow> string \<Rightarrow> 'a Session \<Rightarrow> ('s, exn, unit) sem" where
  "write_initial_meta b ops now x =
     put_meta b \<lparr>sm_id = se_id x, sm_head = None, sm_parent = se_parent x, sm_agent = ag_name ops (se_agent x),
       sm_status = ACTIVE, sm_created = now, sm_updated = now, sm_tags = se_tags x\<rparr>"

definition adopt_existing :: "'s Backend \<Rightarrow> 'a Session \<Rightarrow> 's \<Rightarrow> 'a Session" where
  "adopt_existing b x s = x\<lparr>se_head := map_option ck_id (head_of b (se_id x) s),
     se_tags := (case get_meta b (se_id x) s of Inr m \<Rightarrow> sm_tags m | Inl _ \<Rightarrow> se_tags x)\<rparr>"

definition session_tags :: "pyval \<Rightarrow> exn + string list" where
  "session_tags tags =
     (case tags of
        VStr _ \<Rightarrow> Inl (session_failure ''Session.tags must be an iterable of tag names, not a string.'')
      | v \<Rightarrow> as_list as_text v)"

definition open_session ::
  "'s Backend \<Rightarrow> 'a AgentOps \<Rightarrow> string \<Rightarrow> 'a \<Rightarrow> string \<Rightarrow> string \<Rightarrow> string \<Rightarrow> pyval \<Rightarrow> string option \<Rightarrow> bool \<Rightarrow>
   ('s, exn, 'a Session) sem" where
  "open_session b ops now agent i policy trace tags parent existing =
     (if \<not> ag_supported ops agent
      then throwM (session_failure ''This agent type does not support durable session persistence.'')
      else
        bindM (liftE (\<lambda>e. e) (CheckpointPolicy_of policy)) (\<lambda>p.
        bindM (liftE (\<lambda>e. e) (TraceCapture_of trace)) (\<lambda>t.
        bindM (liftE (\<lambda>e. e) (session_tags tags)) (\<lambda>names.
        let x = \<lparr>se_id = i, se_policy = p, se_trace = t, se_tags = names, se_parent = parent,
                 se_head = None, se_agent = agent\<rparr> in
        if existing then getM (adopt_existing b x)
        else
          bindM (readS (assert_absent b i)) (\<lambda>_.
          bindM (write_initial_meta b ops now x) (\<lambda>_.
          returnM x))))))"

definition policy_value :: "CheckpointPolicy \<Rightarrow> string" where
  "policy_value p = (case p of PER_TURN \<Rightarrow> ''per_turn'' | PER_STEP \<Rightarrow> ''per_step'' | MANUAL \<Rightarrow> ''manual'')"

definition trace_value :: "TraceCapture \<Rightarrow> string" where
  "trace_value t = (case t of OFF \<Rightarrow> ''off'' | AUTO \<Rightarrow> ''auto'' | ARTIFACT \<Rightarrow> ''artifact'' | FULL \<Rightarrow> ''full'')"

text \<open>A branch of any checkpoint: \<open>fresh\<close> is the id of the new session and of its first checkpoint.\<close>

definition fork_from ::
  "'s Backend \<Rightarrow> 'a AgentOps \<Rightarrow> string \<Rightarrow> string \<times> string \<Rightarrow> string \<Rightarrow> string \<Rightarrow> string \<Rightarrow> pyval \<Rightarrow>
   ('s, exn, 'a Session) sem" where
  "fork_from b ops now fresh checkpoint policy trace tags =
     bindM (readS (get_checkpoint b checkpoint)) (\<lambda>source.
     bindM (liftE (\<lambda>e. e) (ag_restore ops (ck_state source))) (\<lambda>agent.
     bindM (open_session b ops now agent (fst fresh) policy trace tags (Some (ck_session source)) False) (\<lambda>x.
     on_session (persist b ops now (snd fresh) None ''fork'' ACTIVE) x)))"

subsection \<open>Methods of a live session\<close>

definition checkpoint :: "'s Backend \<Rightarrow> 'a AgentOps \<Rightarrow> string \<Rightarrow> string \<Rightarrow> string \<Rightarrow> ('s, 'a, string) session_op" where
  "checkpoint b ops now fresh label =
     bindM (getM w_session) (\<lambda>x.
     bindM (storeM (readS (get_meta b (se_id x)))) (\<lambda>m.
     bindM (persist b ops now fresh (ag_last_reply ops (se_agent x)) label (sm_status m)) (\<lambda>stored.
     returnM (ck_id stored))))"

definition record_turn :: "'s Backend \<Rightarrow> 'a AgentOps \<Rightarrow> string \<Rightarrow> string \<Rightarrow> AgentMessage \<Rightarrow> ('s, 'a, AgentMessage) session_op" where
  "record_turn b ops now fresh reply =
     bindM (getM w_session) (\<lambda>x.
     if se_policy x = MANUAL then returnM reply else persist_fail_open b ops now fresh reply [])"

text \<open>\<open>run\<close> is the run of the agent; \<open>records\<close> tells that the agent records its turns itself.\<close>

definition session_arun ::
  "'s Backend \<Rightarrow> 'a AgentOps \<Rightarrow> ('a \<Rightarrow> (exn + AgentMessage) \<times> 'a) \<Rightarrow> bool \<Rightarrow> string \<Rightarrow> string \<Rightarrow>
   ('s, 'a, AgentMessage) session_op" where
  "session_arun b ops run records now fresh =
     bindM (getM w_session) (\<lambda>x.
     bindM (on_agent (\<lambda>a. snd (run a))) (\<lambda>_.
     bindM (liftE (\<lambda>e. e) (fst (run (se_agent x)))) (\<lambda>reply.
     if records then returnM reply else record_turn b ops now fresh reply)))"

definition given :: "string option \<Rightarrow> string option \<Rightarrow> string option" where
  "given at_id head = (case at_id of None \<Rightarrow> head | Some [] \<Rightarrow> head | Some i \<Rightarrow> Some i)"

definition fork ::
  "'s Backend \<Rightarrow> 'a AgentOps \<Rightarrow> string \<Rightarrow> string \<times> string \<Rightarrow> string option \<Rightarrow> ('s, 'a, 'a Session) session_op" where
  "fork b ops now fresh at_id =
     bindM (getM w_session) (\<lambda>x.
     case given at_id (se_head x) of
       None \<Rightarrow> throwM (session_failure ''Cannot fork a session with no checkpoints.'')
     | Some i \<Rightarrow>
         bindM (case at_id of
           None \<Rightarrow> returnM ()
         | Some j \<Rightarrow> bindM (storeM (readS (get_checkpoint b j))) (\<lambda>c.
             if ck_session c \<noteq> se_id x
             then throwM (session_failure ''Cannot fork from a checkpoint from another session.'')
             else returnM ())) (\<lambda>_.
         storeM (fork_from b ops now fresh i (policy_value (se_policy x)) (trace_value (se_trace x)) (texts (se_tags x)))))"

text \<open>The outcomes of a batch of forks: the index of each and its session or the error it met.\<close>

fun batch_fork ::
  "'s Backend \<Rightarrow> 'a AgentOps \<Rightarrow> string \<Rightarrow> string option \<Rightarrow> nat \<Rightarrow> (string \<times> string) list \<Rightarrow>
   ('s, 'a, (nat \<times> (string + 'a Session)) list) session_op" where
  "batch_fork b ops now at_id index [] = returnM []"
| "batch_fork b ops now at_id index (fresh # pairs) = (\<lambda>w.
     case fork b ops now fresh at_id w of
       (Inr branch, v) \<Rightarrow>
         bindM (batch_fork b ops now at_id (Suc index) pairs) (\<lambda>os. returnM ((index, Inr branch) # os)) v
     | (Inl e, v) \<Rightarrow> if exn_isinstance e [''Exception'']
         then bindM (batch_fork b ops now at_id (Suc index) pairs)
           (\<lambda>os. returnM ((index, Inl (exn_type e @ '': '' @ exn_msg e)) # os)) v
         else (Inl e, v))"

fun messages_of :: "dict list \<Rightarrow> exn + AgentMessage list" where
  "messages_of [] = Inr []"
| "messages_of (d # ds) = bindE (message_from_dict d) (\<lambda>m. bindE (messages_of ds) (\<lambda>ms. Inr (m # ms)))"

definition restore_agent_history :: "'a AgentOps \<Rightarrow> Checkpoint \<Rightarrow> ('s, 'a, unit) session_op" where
  "restore_agent_history ops c =
     bindM (liftE (\<lambda>e. e) (messages_of (rs_history (ck_state c)))) (\<lambda>ms.
     on_agent (\<lambda>a. ag_clear_calls ops (ag_set_history ops ms a)))"

definition rewind :: "'s Backend \<Rightarrow> 'a AgentOps \<Rightarrow> string \<Rightarrow> string \<Rightarrow> ('s, 'a, unit) session_op" where
  "rewind b ops now to =
     bindM (getM w_session) (\<lambda>x.
     bindM (storeM (readS (get_checkpoint b to))) (\<lambda>target.
     if ck_session target \<noteq> se_id x
     then throwM (session_failure ''Cannot rewind to a checkpoint from another session.'')
     else
       bindM (restore_agent_history ops target) (\<lambda>_.
       bindM (updM (\<lambda>w. w\<lparr>w_session := (w_session w)\<lparr>se_head := Some to\<rparr>\<rparr>)) (\<lambda>_.
       bindM (storeM (readS (get_meta b (se_id x)))) (\<lambda>m.
       storeM (put_meta b (m\<lparr>sm_head := Some to, sm_updated := now\<rparr>)))))))"

definition edit ::
  "'s Backend \<Rightarrow> 'a AgentOps \<Rightarrow> string \<Rightarrow> string \<Rightarrow> (AgentMessage list \<Rightarrow> exn + AgentMessage list) \<Rightarrow> string \<Rightarrow>
   ('s, 'a, unit) session_op" where
  "edit b ops now fresh transform label =
     bindM (getM w_session) (\<lambda>x.
     bindM (liftE (\<lambda>e. e) (transform (ag_history ops (se_agent x)))) (\<lambda>ms.
     bindM (on_agent (\<lambda>a. ag_clear_calls ops (ag_set_history ops ms a))) (\<lambda>_.
     bindM (getM w_session) (\<lambda>x.
     bindM (persist b ops now fresh (ag_last_reply ops (se_agent x)) label ACTIVE) (\<lambda>_. returnM ())))))"

definition complete :: "'s Backend \<Rightarrow> string \<Rightarrow> ('s, 'a, unit) session_op" where
  "complete b now =
     bindM (getM w_session) (\<lambda>x.
     bindM (storeM (readS (get_meta b (se_id x)))) (\<lambda>m.
     storeM (put_meta b (m\<lparr>sm_status := COMPLETED, sm_updated := now\<rparr>))))"

text \<open>The tags in the order in which they first came.\<close>

definition fromkeys :: "string list \<Rightarrow> string list" where
  "fromkeys ts = rev (foldl (\<lambda>acc t. if List.member acc t then acc else t # acc) [] ts)"

definition tag :: "'s Backend \<Rightarrow> string \<Rightarrow> string list \<Rightarrow> ('s, 'a, unit) session_op" where
  "tag b now names =
     bindM (getM w_session) (\<lambda>x.
     bindM (storeM (readS (get_meta b (se_id x)))) (\<lambda>m.
     let tags = fromkeys (sm_tags m @ names) in
     bindM (storeM (put_meta b (m\<lparr>sm_tags := tags, sm_updated := now\<rparr>))) (\<lambda>_.
     updM (\<lambda>w. w\<lparr>w_session := (w_session w)\<lparr>se_tags := tags\<rparr>\<rparr>))))"

text \<open>Resuming another session inside this one: replace the history, or append to it.\<close>

definition adopt :: "'s Backend \<Rightarrow> 'a AgentOps \<Rightarrow> string \<Rightarrow> string \<Rightarrow> string \<Rightarrow> string \<Rightarrow> ('s, 'a, string) session_op" where
  "adopt b ops now fresh i label =
     bindM (storeM (readS (get_checkpoint b i))) (\<lambda>source.
     bindM (restore_agent_history ops source) (\<lambda>_.
     bindM (persist b ops now fresh None label ACTIVE) (\<lambda>stored. returnM (ck_id stored))))"

definition newlines :: string where
  "newlines = [CHR 0x0A, CHR 0x0A]"

fun join_texts :: "string \<Rightarrow> string list \<Rightarrow> string" where
  "join_texts sep [] = []"
| "join_texts sep [t] = t"
| "join_texts sep (t # u # ts) = t @ sep @ join_texts sep (u # ts)"

definition double_quoted :: "string \<Rightarrow> string" where
  "double_quoted s = [CHR 0x22] @ s @ [CHR 0x22]"

definition resumed_message :: "'a AgentOps \<Rightarrow> 'a \<Rightarrow> Checkpoint \<Rightarrow> string \<Rightarrow> AgentMessage" where
  "resumed_message ops agent c content =
     \<lparr>am_sender = rs_agent_name (ck_state c), am_recipient = ag_name ops agent, am_content = content,
      am_type = ''response'', am_metadata = [(''resumed_session_id'', VStr (ck_session c)),
        (''resumed_checkpoint_id'', VStr (ck_id c))], am_structured = VNone\<rparr>"

definition frame_resumed_history :: "'a AgentOps \<Rightarrow> 'a \<Rightarrow> Checkpoint \<Rightarrow> exn + AgentMessage list" where
  "frame_resumed_history ops agent c =
     bindE (messages_of (rs_history (ck_state c))) (\<lambda>ms.
     Inr (if ms = [] then []
       else [resumed_message ops agent c
         (''<resumed_thread session_id='' @ double_quoted (ck_session c) @ '' checkpoint_id='' @ double_quoted (ck_id c) @
          ''>'' @ [CHR 0x0A] @
          join_texts newlines (map (\<lambda>m. ''['' @ am_sender m @ '']: '' @ am_content m) ms) @
          [CHR 0x0A] @ ''</resumed_thread>'')]))"

definition append_context :: "'s Backend \<Rightarrow> 'a AgentOps \<Rightarrow> string \<Rightarrow> string \<Rightarrow> string \<Rightarrow> string \<Rightarrow> ('s, 'a, string) session_op" where
  "append_context b ops now fresh i label =
     bindM (getM w_session) (\<lambda>x.
     bindM (storeM (readS (get_checkpoint b i))) (\<lambda>source.
     bindM (liftE (\<lambda>e. e) (frame_resumed_history ops (se_agent x) source)) (\<lambda>framed.
     bindM (on_agent (\<lambda>a. ag_set_history ops (ag_history ops a @ framed) a)) (\<lambda>_.
     bindM (persist b ops now fresh None label ACTIVE) (\<lambda>stored. returnM (ck_id stored))))))"

definition extract_last_output :: "'a AgentOps \<Rightarrow> 'a \<Rightarrow> Checkpoint \<Rightarrow> exn + AgentMessage" where
  "extract_last_output ops agent c =
     bindE (messages_of (rs_history (ck_state c))) (\<lambda>ms.
     let content = (case filter (\<lambda>m. am_sender m = rs_agent_name (ck_state c)) (rev ms) of [] \<Rightarrow> [] | m # _ \<Rightarrow> am_content m) in
     Inr (resumed_message ops agent c
       (''<resumed_output session_id='' @ double_quoted (ck_session c) @ ''>'' @ [CHR 0x0A] @ content @
        [CHR 0x0A] @ ''</resumed_output>'')))"

definition append_output :: "'s Backend \<Rightarrow> 'a AgentOps \<Rightarrow> string \<Rightarrow> string \<Rightarrow> string \<Rightarrow> string \<Rightarrow> ('s, 'a, string) session_op" where
  "append_output b ops now fresh session label =
     bindM (getM w_session) (\<lambda>x.
     bindM (storeM (readS (resolve b session))) (\<lambda>i.
     bindM (storeM (readS (get_meta b i))) (\<lambda>m.
     if sm_status m \<noteq> COMPLETED
     then throwM (session_failure ''Cannot append output from a session that is not completed.'')
     else
       bindM (storeM (getM (head_of b i))) (\<lambda>head.
       case head of
         None \<Rightarrow> throwM (session_failure ''Cannot append output from a session with no checkpoints.'')
       | Some c \<Rightarrow>
           bindM (liftE (\<lambda>e. e) (extract_last_output ops (se_agent x) c)) (\<lambda>output.
           bindM (on_agent (\<lambda>a. ag_set_history ops (ag_history ops a @ [output]) a)) (\<lambda>_.
           bindM (persist b ops now fresh None label ACTIVE) (\<lambda>stored. returnM (ck_id stored))))))))"

subsection \<open>Resuming a session\<close>

definition resume ::
  "'s Backend \<Rightarrow> 'a AgentOps \<Rightarrow> string \<Rightarrow> string \<Rightarrow> string option \<Rightarrow> string \<Rightarrow> string \<Rightarrow> ('s, exn, 'a Session) sem" where
  "resume b ops now session checkpoint_id policy trace =
     bindM (readS (resolve b session)) (\<lambda>i.
     let explicit = given checkpoint_id None in
     bindM (case explicit of
         Some c \<Rightarrow> bindM (readS (get_checkpoint b c)) (\<lambda>x. returnM (Some x))
       | None \<Rightarrow> getM (head_of b i)) (\<lambda>source.
     case source of
       None \<Rightarrow> throwM (session_failure ''Cannot resume a session with no checkpoints.'')
     | Some c \<Rightarrow>
         if explicit \<noteq> None \<and> ck_session c \<noteq> i
         then throwM (session_failure ''Cannot resume from a checkpoint from another session.'')
         else
           bindM (liftE (\<lambda>e. e) (ag_restore ops (ck_state c))) (\<lambda>agent.
           bindM (open_session b ops now agent i policy trace (VList []) None True) (\<lambda>x.
           if explicit \<noteq> None then on_session (rewind b ops now (ck_id c)) x else returnM x))))"

definition session_export :: "'s Backend \<Rightarrow> (string \<Rightarrow> pyval option) \<Rightarrow> string \<Rightarrow> ('s, 'a, archive) session_op" where
  "session_export b dump now =
     bindM (getM w_session) (\<lambda>x. storeM (readS (export b dump now (se_id x))))"

subsection \<open>The graph of checkpoints\<close>

text \<open>
  Parents are stored checkpoints of the same session with a smaller place, so the links of a session have no
  cycle; the head of a session is one of its checkpoints.
\<close>

definition linked :: "'s Backend \<Rightarrow> 's \<Rightarrow> bool" where
  "linked b s \<longleftrightarrow> (\<forall>i c p. be_read_checkpoint b i s = Some c \<longrightarrow> ck_parent c = Some p \<longrightarrow>
     (\<exists>d. be_read_checkpoint b p s = Some d \<and> ck_session d = ck_session c \<and> ck_seq d < ck_seq c))"

definition headed :: "'s Backend \<Rightarrow> 's \<Rightarrow> bool" where
  "headed b s \<longleftrightarrow> (\<forall>j m h. be_read_meta b j s = Some m \<longrightarrow> sm_head m = Some h \<longrightarrow>
     (\<exists>d. be_read_checkpoint b h s = Some d \<and> ck_session d = j))"

definition live_head :: "'s Backend \<Rightarrow> 's \<Rightarrow> 'a Session \<Rightarrow> bool" where
  "live_head b s x \<longleftrightarrow> (\<forall>h. se_head x = Some h \<longrightarrow>
     (\<exists>d. be_read_checkpoint b h s = Some d \<and> ck_session d = se_id x))"

definition only_appends :: "'s Backend \<Rightarrow> 's \<Rightarrow> 's \<Rightarrow> bool" where
  "only_appends b s t \<longleftrightarrow> (\<forall>i c. be_read_checkpoint b i s = Some c \<longrightarrow> be_read_checkpoint b i t = Some c)"

lemma only_appends_trans: "only_appends b s t \<Longrightarrow> only_appends b t u \<Longrightarrow> only_appends b s u"
  by (simp add: only_appends_def)

lemma live_head_appends: "live_head b s x \<Longrightarrow> only_appends b s t \<Longrightarrow> live_head b t x"
  unfolding live_head_def only_appends_def by blast

context checkpoint_store
begin

definition sound :: "'s \<Rightarrow> bool" where
  "sound s \<longleftrightarrow> numbered s \<and> linked b s \<and> headed b s"

lemma put_meta_sound:
  assumes "sound s" and "\<forall>h. sm_head m = Some h \<longrightarrow> (\<exists>d. be_read_checkpoint b h s = Some d \<and> ck_session d = sm_id m)"
    and "put_meta b m s = (r, t)"
  shows "sound t \<and> (\<forall>i. be_read_checkpoint b i t = be_read_checkpoint b i s)"
proof (cases r)
  case (Inl e)
  then have "t = s" using assms write_meta_fails unfolding put_meta_def sound_def numbered_def by blast
  then show ?thesis using assms(1) by simp
next
  case (Inr x)
  then have w: "be_write_meta b m s = (Inr (), t)" using assms(3) by (simp add: put_meta_def)
  have inv: "inv s" using assms(1) by (simp add: sound_def numbered_def)
  note t = write_meta_ok [OF inv w]
  have "numbered t" using assms(1) t same_reads_numbered unfolding sound_def by blast
  moreover have "linked b t" using assms(1) t by (simp add: sound_def linked_def)
  moreover have "headed b t" using assms(1,2) t by (auto simp: sound_def headed_def split: if_splits)
  ultimately show ?thesis using t by (simp add: sound_def)
qed

lemma put_sound:
  assumes "sound s" and "be_read_checkpoint b (ck_id c) s = None"
    and "\<forall>p. ck_parent c = Some p \<longrightarrow> (\<exists>d. be_read_checkpoint b p s = Some d \<and> ck_session d = ck_session c)"
    and "put b now c s = (r, t)"
  shows "sound t \<and> only_appends b s t \<and>
    (\<forall>stored. r = Inr stored \<longrightarrow> ck_id stored = ck_id c \<and>
       (\<exists>d. be_read_checkpoint b (ck_id c) t = Some d \<and> ck_session d = ck_session c))"
proof -
  let ?new = "norm (c\<lparr>ck_seq := next_seq b (ck_session c) s\<rparr>)"
  have num: "numbered s" and inv: "inv s" using assms(1) by (simp_all add: sound_def numbered_def)
  have reads: "numbered t \<and> (\<forall>i. i \<noteq> ck_id c \<longrightarrow> be_read_checkpoint b i t = be_read_checkpoint b i s) \<and>
      (be_read_checkpoint b (ck_id c) t = None \<or> be_read_checkpoint b (ck_id c) t = Some ?new)"
    using put_fails [OF num assms(2)] put_correct [OF num assms(2)] assms(2,4) by (cases r) auto
  then have app: "only_appends b s t" using assms(2) unfolding only_appends_def by (metis option.distinct(1))
  have place: "ck_seq d < next_seq b (ck_session c) s"
    if "be_read_checkpoint b p s = Some d" "ck_session d = ck_session c" for p d
  proof -
    have "d \<in> set (be_read_session b (ck_session c) s)"
      using that read_id [OF inv that(1)] by (simp add: session_reads [OF inv])
    then show ?thesis using next_seq_bound(1) by blast
  qed
  have "linked b t"
    unfolding linked_def
  proof (intro allI impI)
    fix i e p
    assume e: "be_read_checkpoint b i t = Some e" "ck_parent e = Some p"
    have "\<exists>d. be_read_checkpoint b p s = Some d \<and> ck_session d = ck_session e \<and> ck_seq d < ck_seq e"
    proof (cases "i = ck_id c")
      case True
      then have "e = ?new" using e reads by auto
      then show ?thesis using e(2) assms(3) place by (auto simp: norm)
    next
      case False
      then show ?thesis using e reads assms(1) unfolding sound_def linked_def by metis
    qed
    then show "\<exists>d. be_read_checkpoint b p t = Some d \<and> ck_session d = ck_session e \<and> ck_seq d < ck_seq e"
      using app unfolding only_appends_def by blast
  qed
  moreover have "headed b t \<and> (\<forall>stored. r = Inr stored \<longrightarrow> ck_id stored = ck_id c \<and>
       (\<exists>d. be_read_checkpoint b (ck_id c) t = Some d \<and> ck_session d = ck_session c))"
  proof (cases r)
    case (Inl e)
    then have "\<forall>j. be_read_meta b j t = be_read_meta b j s"
      using put_fails [OF num assms(2)] assms(4) by blast
    then show ?thesis using Inl assms(1) app unfolding sound_def headed_def only_appends_def by (metis sum.distinct(1))
  next
    case (Inr stored)
    have "put b now c s = (Inr stored, t)" using assms(4) Inr by simp
    note p = put_correct [OF num assms(2) this]
    have head: "be_read_meta b (ck_session c) t = Some m \<Longrightarrow> sm_head m = Some h \<Longrightarrow>
      be_read_checkpoint b h t = Some (norm stored)" for m h
      using p by (auto simp: head_of_def)
    have "headed b t"
      unfolding headed_def
    proof (intro allI impI)
      fix j m h
      assume m: "be_read_meta b j t = Some m" "sm_head m = Some h"
      show "\<exists>d. be_read_checkpoint b h t = Some d \<and> ck_session d = j"
      proof (cases "j = ck_session c")
        case True
        then show ?thesis using head m p by (auto simp: norm)
      next
        case False
        then have "be_read_meta b j s = Some m" using m p by auto
        then show ?thesis using m(2) assms(1) app unfolding sound_def headed_def only_appends_def by blast
      qed
    qed
    moreover have i: "ck_id stored = ck_id c" using p by simp
    have "be_read_checkpoint b (ck_id c) t = Some (norm stored)" using p by simp
    moreover have "ck_session (norm stored) = ck_session c" using p by (simp add: norm)
    ultimately have "headed b t \<and> (\<exists>d. be_read_checkpoint b (ck_id c) t = Some d \<and> ck_session d = ck_session c)" by blast
    then show ?thesis unfolding Inr sum.inject using i by blast
  qed
  ultimately show ?thesis using reads app unfolding sound_def by blast
qed

text \<open>
  What holds after every method: from the world \<open>w0\<close> in which it starts, the store has only grown, and
  the live session is the same one with a head of its own.  Before a checkpoint is written its id
  is not in use (\<open>unused\<close>).  \<open>tri\<close> composes such facts; an exception may end a method where it is.
\<close>

definition after :: "('s, 'a) World \<Rightarrow> ('s, 'a) World \<Rightarrow> bool" where
  "after w0 w \<longleftrightarrow> sound (w_store w) \<and> live_head b (w_store w) (w_session w) \<and>
     only_appends b (w_store w0) (w_store w) \<and> se_id (w_session w) = se_id (w_session w0)"

definition unused :: "('s, 'a) World \<Rightarrow> string \<Rightarrow> ('s, 'a) World \<Rightarrow> bool" where
  "unused w0 fresh w \<longleftrightarrow> after w0 w \<and> be_read_checkpoint b fresh (w_store w) = None"

definition tri :: "('s, 'a) World \<Rightarrow> (('s, 'a) World \<Rightarrow> bool) \<Rightarrow> ('s, 'a, 'r) session_op \<Rightarrow> (('s, 'a) World \<Rightarrow> bool) \<Rightarrow> bool" where
  "tri w0 P m Q \<longleftrightarrow> (\<forall>w. P w \<longrightarrow> post (\<lambda>_. Q) (\<lambda>_. after w0) (m w))"

lemma triI: "(\<And>w. P w \<Longrightarrow> post (\<lambda>_. Q) (\<lambda>_. after w0) (m w)) \<Longrightarrow> tri w0 P m Q"
  by (simp add: tri_def)

lemma triD: "tri w0 P m Q \<Longrightarrow> P w \<Longrightarrow> post (\<lambda>_. Q) (\<lambda>_. after w0) (m w)"
  by (simp add: tri_def)

lemma unused_after: "unused w0 fresh w \<Longrightarrow> after w0 w"
  by (simp add: unused_def)

lemma tri_bind: "tri w0 P m Q \<Longrightarrow> (\<And>x. tri w0 Q (f x) R) \<Longrightarrow> tri w0 P (bindM m f) R"
  unfolding tri_def by (auto intro: post_mono)

lemma tri_return: "(\<And>w. P w \<Longrightarrow> Q w) \<Longrightarrow> tri w0 P (returnM x) Q"
  by (simp add: tri_def)

lemma tri_throw: "(\<And>w. P w \<Longrightarrow> after w0 w) \<Longrightarrow> tri w0 P (throwM e) Q"
  by (simp add: tri_def)

lemma tri_get: "tri w0 P (getM g) P"
  by (simp add: tri_def)

lemma tri_lift: "(\<And>w. P w \<Longrightarrow> after w0 w) \<Longrightarrow> tri w0 P (liftE g r) P"
  by (cases r) (auto simp: tri_def)

lemma readS_state: "snd (readS g s) = s"
  by (simp add: readS_def bindM_getM)

lemma storeM_reads: "(\<And>s. snd (m s) = s) \<Longrightarrow> storeM m w = (fst (m (w_store w)), w)"
  by (cases w) (simp add: storeM_def split: prod.split, metis snd_conv)

lemma tri_read: "(\<And>w. P w \<Longrightarrow> after w0 w) \<Longrightarrow> tri w0 P (storeM (readS g)) P"
  by (auto simp: tri_def storeM_reads [OF readS_state] post_def split: sum.split)

lemma tri_read_get: "tri w0 P (storeM (getM g)) P"
  by (simp add: tri_def storeM_def getM_app)

lemma after_agent: "after w0 (w\<lparr>w_session := (w_session w)\<lparr>se_agent := a\<rparr>\<rparr>) = after w0 w"
  by (simp add: after_def live_head_def)

lemma tri_agent: "tri w0 (after w0) (on_agent f) (after w0)" "tri w0 (unused w0 fresh) (on_agent f) (unused w0 fresh)"
  by (simp_all add: tri_def on_agent_def updM_app after_agent unused_def)

lemmas tri_basic = tri_bind tri_return tri_throw tri_get tri_lift tri_read tri_read_get tri_agent unused_after

lemma tri_persist: "tri w0 (unused w0 fresh) (persist b ops now fresh reply label status) (after w0)"
proof (rule triI)
  fix w :: "('s, 'a) World"
  assume w: "unused w0 fresh w"
  define x where "x = w_session w"
  define r where "r = (case reply of Some r \<Rightarrow> r | None \<Rightarrow> empty_reply (ag_name ops (se_agent x)))"
  define captured where "captured = capture ops (se_trace x) (se_agent x) r"
  show "post (\<lambda>_. after w0) (\<lambda>_. after w0) (persist b ops now fresh reply label status w)"
  proof (cases "ag_export ops (se_agent x)")
    case (Inl e)
    then show ?thesis
      using unused_after [OF w] by (simp add: persist_def bindM_getM Let_def x_def throwM_app)
  next
    case (Inr state)
    define c where "c = \<lparr>ck_id = fresh, ck_session = se_id x, ck_parent = se_head x, ck_seq = 0,
       ck_created = now, ck_state = state, ck_label = label, ck_status = status,
       ck_artifact = ct_artifact captured, ck_summary = ct_summary captured, ck_events = ct_events captured\<rparr>"
    obtain q t where put: "put b now c (w_store w) = (q, t)" by (cases "put b now c (w_store w)") blast
    have t: "sound t \<and> only_appends b (w_store w) t \<and>
      (\<forall>stored. q = Inr stored \<longrightarrow> ck_id stored = ck_id c \<and>
         (\<exists>d. be_read_checkpoint b (ck_id c) t = Some d \<and> ck_session d = ck_session c))"
      by (rule put_sound [OF _ _ _ put]) (use w in \<open>auto simp: unused_def after_def live_head_def c_def x_def\<close>)
    have "live_head b (w_store w) x" and app: "only_appends b (w_store w0) (w_store w)"
      using w by (simp_all add: unused_def after_def x_def)
    then have "live_head b t x" using t by (blast intro: live_head_appends)
    moreover have "only_appends b (w_store w0) t" using app t by (blast intro: only_appends_trans)
    ultimately have raised: "after w0 (w\<lparr>w_store := t\<rparr>)"
      using w t by (simp add: unused_def after_def x_def)
    have ret: "after w0 (w\<lparr>w_store := t, w_session := x\<lparr>se_head := Some (ck_id stored)\<rparr>\<rparr>)" if "q = Inr stored" for stored
      using raised t that by (auto simp: after_def live_head_def c_def x_def)
    have "persist b ops now fresh reply label status w =
      bindM (storeM (put b now c)) (\<lambda>stored.
      bindM (updM (\<lambda>w. w\<lparr>w_session := (w_session w)\<lparr>se_head := Some (ck_id stored)\<rparr>\<rparr>)) (\<lambda>_. returnM stored)) w"
      unfolding persist_def bindM_getM Let_def c_def captured_def r_def x_def Inr [unfolded x_def] by simp
    then show ?thesis
      using put raised ret by (cases q) (simp_all add: storeM_def bindM_def updM_app returnM_app x_def)
  qed
qed

lemma put_meta_after:
  assumes "after w0 w" and "\<forall>h. sm_head m = Some h \<longrightarrow> (\<exists>d. be_read_checkpoint b h (w_store w) = Some d \<and> ck_session d = sm_id m)"
  shows "post (\<lambda>_. after w0) (\<lambda>_. after w0) (storeM (put_meta b m) w)"
proof -
  obtain r t where p: "put_meta b m (w_store w) = (r, t)" by (cases "put_meta b m (w_store w)") blast
  have "sound (w_store w)" using assms(1) by (simp add: after_def)
  note t = put_meta_sound [OF this assms(2) p]
  have "after w0 (w\<lparr>w_store := t\<rparr>)"
    using assms(1) t by (auto simp: after_def live_head_def only_appends_def)
  then show ?thesis using p by (cases r) (simp_all add: storeM_def)
qed

lemma stored_meta_head:
  assumes "after w0 w" and "get_meta b i (w_store w) = Inr m"
  shows "sm_id m = i" and "\<forall>h. sm_head m = Some h \<longrightarrow> (\<exists>d. be_read_checkpoint b h (w_store w) = Some d \<and> ck_session d = sm_id m)"
proof -
  have m: "be_read_meta b i (w_store w) = Some m" using assms(2) by (simp add: get_meta_def split: option.splits)
  have "inv (w_store w)" and h: "headed b (w_store w)" using assms(1) by (simp_all add: after_def sound_def numbered_def)
  then show "sm_id m = i" using meta_id m by blast
  then show "\<forall>h. sm_head m = Some h \<longrightarrow> (\<exists>d. be_read_checkpoint b h (w_store w) = Some d \<and> ck_session d = sm_id m)"
    using h m unfolding headed_def by blast
qed

lemma read_post:
  assumes "\<And>x. g (w_store w) = Inr x \<Longrightarrow> post Q E (f x w)" and "\<And>e. E e w"
  shows "post Q E (bindM (storeM (readS g)) f w)"
  using assms by (cases "g (w_store w)") (simp_all add: storeM_def readS_def bindM_getM returnM_app throwM_app)

lemma meta_update:
  assumes "after w0 w" and "\<And>m. sm_id (f m) = sm_id m \<and> sm_head (f m) = sm_head m"
  shows "post (\<lambda>_. after w0) (\<lambda>_. after w0) (bindM (storeM (readS (get_meta b i))) (\<lambda>m. storeM (put_meta b (f m))) w)"
proof (rule read_post)
  fix m
  assume "get_meta b i (w_store w) = Inr m"
  from stored_meta_head [OF assms(1) this] show "post (\<lambda>_. after w0) (\<lambda>_. after w0) (storeM (put_meta b (f m)) w)"
    using assms by (intro put_meta_after) simp_all
qed (rule assms(1))

lemma tri_complete: "tri w0 (after w0) (complete b now) (after w0)"
  unfolding complete_def by (rule triI) (simp only: bindM_getM, rule meta_update, simp_all)

lemma tri_tag: "tri w0 (after w0) (tag b now names) (after w0)"
proof (rule triI)
  fix w :: "('s, 'a) World"
  assume w: "after w0 w"
  show "post (\<lambda>_. after w0) (\<lambda>_. after w0) (tag b now names w)"
    unfolding tag_def bindM_getM Let_def
  proof (rule read_post)
    fix m
    assume m: "get_meta b (se_id (w_session w)) (w_store w) = Inr m"
    have "post (\<lambda>_. after w0) (\<lambda>_. after w0) (storeM (put_meta b (m\<lparr>sm_tags := fromkeys (sm_tags m @ names), sm_updated := now\<rparr>)) w)"
      using stored_meta_head [OF w m] by (intro put_meta_after [OF w]) simp
    then show "post (\<lambda>_. after w0) (\<lambda>_. after w0)
        (bindM (storeM (put_meta b (m\<lparr>sm_tags := fromkeys (sm_tags m @ names), sm_updated := now\<rparr>)))
          (\<lambda>_. updM (\<lambda>w. w\<lparr>w_session := (w_session w)\<lparr>se_tags := fromkeys (sm_tags m @ names)\<rparr>\<rparr>)) w)"
      by (rule post_bindI) (auto simp: after_def live_head_def)
  qed (rule w)
qed

lemma tri_restore: "tri w0 (after w0) (restore_agent_history ops c) (after w0)"
  "tri w0 (unused w0 fresh) (restore_agent_history ops c) (unused w0 fresh)"
  unfolding restore_agent_history_def by (auto intro!: tri_basic)

lemma restore_store: "restore_agent_history ops c w = (r, v) \<Longrightarrow> w_store v = w_store w \<and> se_id (w_session v) = se_id (w_session w)"
  by (cases "messages_of (rs_history (ck_state c))")
    (auto simp: restore_agent_history_def on_agent_def updM_app throwM_app)

lemma tri_rewind: "tri w0 (after w0) (rewind b ops now to) (after w0)"
proof (rule triI)
  fix w :: "('s, 'a) World"
  assume w: "after w0 w"
  show "post (\<lambda>_. after w0) (\<lambda>_. after w0) (rewind b ops now to w)"
    unfolding rewind_def bindM_getM
  proof (rule read_post)
    fix target
    assume "get_checkpoint b to (w_store w) = Inr target"
    then have to: "be_read_checkpoint b to (w_store w) = Some target"
      by (simp add: get_checkpoint_def split: option.splits)
    let ?i = "se_id (w_session w)"
    let ?rest = "\<lambda>_. bindM (updM (\<lambda>w. w\<lparr>w_session := (w_session w)\<lparr>se_head := Some to\<rparr>\<rparr>)) (\<lambda>_.
       bindM (storeM (readS (get_meta b ?i))) (\<lambda>m. storeM (put_meta b (m\<lparr>sm_head := Some to, sm_updated := now\<rparr>))))"
    have "post (\<lambda>_. after w0) (\<lambda>_. after w0) (bindM (restore_agent_history ops target) ?rest w)"
      if own: "ck_session target = ?i"
    proof (rule post_bindI)
      show "post (\<lambda>_ v. after w0 v \<and> w_store v = w_store w \<and> se_id (w_session v) = ?i) (\<lambda>_. after w0)
          (restore_agent_history ops target w)"
        using triD [OF tri_restore(1) w, of ops target] restore_store [of ops target w]
        by (cases "restore_agent_history ops target w") (auto simp: post_def split: sum.splits)
    next
      fix v :: "('s, 'a) World"
      assume v: "after w0 v \<and> w_store v = w_store w \<and> se_id (w_session v) = ?i"
      let ?v = "v\<lparr>w_session := (w_session v)\<lparr>se_head := Some to\<rparr>\<rparr>"
      have u: "after w0 ?v" using v to own by (auto simp: after_def live_head_def)
      have "post (\<lambda>_. after w0) (\<lambda>_. after w0)
          (bindM (storeM (readS (get_meta b ?i))) (\<lambda>m. storeM (put_meta b (m\<lparr>sm_head := Some to, sm_updated := now\<rparr>))) ?v)"
      proof (rule read_post)
        fix m
        assume "get_meta b ?i (w_store ?v) = Inr m"
        from stored_meta_head(1) [OF u this] show "post (\<lambda>_. after w0) (\<lambda>_. after w0)
            (storeM (put_meta b (m\<lparr>sm_head := Some to, sm_updated := now\<rparr>)) ?v)"
          using v to own by (intro put_meta_after [OF u]) simp
      qed (rule u)
      then show "post (\<lambda>_. after w0) (\<lambda>_. after w0) (?rest x v)" for x by (simp add: bindM_updM)
    qed
    then show "post (\<lambda>_. after w0) (\<lambda>_. after w0) ((if ck_session target \<noteq> ?i
        then throwM (session_failure ''Cannot rewind to a checkpoint from another session.'')
        else bindM (restore_agent_history ops target) ?rest) w)"
      using w by simp
  qed (rule w)
qed

text \<open>The methods that write a checkpoint, under an id that is not in use.\<close>

lemma tri_persist_returns: "tri w0 (unused w0 fresh) (bindM (persist b ops now fresh reply label status) (\<lambda>c. returnM (f c))) (after w0)"
  by (rule tri_bind [OF tri_persist]) (simp add: tri_return)

lemma tri_checkpoint: "tri w0 (unused w0 fresh) (checkpoint b ops now fresh label) (after w0)"
  unfolding checkpoint_def by (intro tri_bind [OF tri_get] tri_bind [OF tri_read] tri_persist_returns unused_after)

lemma tri_record_turn: "tri w0 (unused w0 fresh) (record_turn b ops now fresh reply) (after w0)"
proof -
  have "tri w0 (unused w0 fresh) (persist_fail_open b ops now fresh reply label) (after w0)" for label
  proof (rule triI)
    fix w :: "('s, 'a) World"
    assume "unused w0 fresh w"
    from triD [OF tri_persist this, of ops now "Some reply" label ACTIVE]
    show "post (\<lambda>_. after w0) (\<lambda>_. after w0) (persist_fail_open b ops now fresh reply label w)"
      by (auto simp: persist_fail_open_def post_def split: prod.splits sum.splits)
  qed
  then show ?thesis
    unfolding record_turn_def
    by (intro tri_bind [OF tri_get]) (auto intro: tri_return unused_after)
qed

lemma tri_arun: "tri w0 (unused w0 fresh) (session_arun b ops run records now fresh) (after w0)"
  unfolding session_arun_def
  by (intro tri_bind [OF tri_get] tri_bind [OF tri_agent(2)] tri_bind [OF tri_lift])
    (auto intro: tri_return unused_after tri_record_turn)

lemma tri_edit: "tri w0 (unused w0 fresh) (edit b ops now fresh transform label) (after w0)"
  unfolding edit_def
  by (intro tri_bind [OF tri_get] tri_bind [OF tri_lift] tri_bind [OF tri_agent(2)] tri_persist_returns unused_after)

lemma tri_adopt: "tri w0 (unused w0 fresh) (adopt b ops now fresh i label) (after w0)"
  unfolding adopt_def
  by (intro tri_bind [OF tri_read] tri_bind [OF tri_restore(2)] tri_persist_returns unused_after)

lemma tri_append_context: "tri w0 (unused w0 fresh) (append_context b ops now fresh i label) (after w0)"
  unfolding append_context_def
  by (intro tri_bind [OF tri_get] tri_bind [OF tri_read] tri_bind [OF tri_lift] tri_bind [OF tri_agent(2)]
      tri_persist_returns unused_after)

lemma tri_append_output: "tri w0 (unused w0 fresh) (append_output b ops now fresh i label) (after w0)"
proof -
  have rest: "tri w0 (unused w0 fresh) (case head of
         None \<Rightarrow> throwM (session_failure ''Cannot append output from a session with no checkpoints.'')
       | Some c \<Rightarrow>
           bindM (liftE (\<lambda>e. e) (extract_last_output ops a c)) (\<lambda>output.
           bindM (on_agent (\<lambda>a. ag_set_history ops (ag_history ops a @ [output]) a)) (\<lambda>_.
           bindM (persist b ops now fresh None label ACTIVE) (\<lambda>stored. returnM (ck_id stored))))) (after w0)" for head a
    by (cases head)
      (auto intro!: tri_throw tri_bind [OF tri_lift] tri_bind [OF tri_agent(2)] tri_persist_returns unused_after)
  show ?thesis
    unfolding append_output_def
    by (intro tri_bind [OF tri_get] tri_bind [OF tri_read] unused_after)
      (auto intro!: tri_throw tri_bind [OF tri_read_get] rest unused_after)
qed

text \<open>The class methods: a session they make has a head of its own; one that fails leaves the store sound.\<close>

definition made :: "'s \<Rightarrow> (exn + 'a Session) \<times> 's \<Rightarrow> bool" where
  "made s res \<longleftrightarrow> (case res of (r, t) \<Rightarrow> sound t \<and> only_appends b s t \<and> (\<forall>x. r = Inr x \<longrightarrow> live_head b t x))"

lemma made_raise: "sound s \<Longrightarrow> made s (Inl e, s)"
  by (simp add: made_def only_appends_def)

lemma readS_raises: "g s = Inl e \<Longrightarrow> bindM (readS g) f s = (Inl e, s)"
  by (simp add: readS_def bindM_def getM_app throwM_app)

lemma readS_reads: "g s = Inr x \<Longrightarrow> bindM (readS g) f s = f x s"
  by (simp add: readS_def bindM_def getM_app returnM_app)

lemma made_read:
  assumes "sound s" and "\<And>x. g s = Inr x \<Longrightarrow> made s (f x s)"
  shows "made s (bindM (readS g) f s)"
  using assms by (cases "g s") (simp_all add: readS_raises readS_reads made_raise)

lemma made_lift:
  assumes "sound s" and "\<And>x. r = Inr x \<Longrightarrow> made s (f x s)"
  shows "made s (bindM (liftE (\<lambda>e. e) r) f s)"
  using assms by (cases r) (simp_all add: throwM_app made_raise)

lemma head_of_stored:
  assumes "sound s" and "head_of b i s = Some c"
  shows "be_read_checkpoint b (ck_id c) s = Some c \<and> ck_session c = i"
proof -
  obtain m h where m: "be_read_meta b i s = Some m" "sm_head m = Some h" "be_read_checkpoint b h s = Some c"
    using assms(2) by (auto simp: head_of_def split: option.splits)
  then have "ck_id c = h" using assms(1) by (auto simp: sound_def numbered_def dest: read_id)
  moreover have "\<exists>d. be_read_checkpoint b h s = Some d \<and> ck_session d = i"
    using assms(1) m(1,2) unfolding sound_def headed_def by blast
  ultimately show ?thesis using m(3) by simp
qed

lemma open_session_cases:
  assumes s: "sound s"
  shows "made s (open_session b ops now agent i policy trace tags parent existing s) \<and>
    (\<forall>x t. open_session b ops now agent i policy trace tags parent existing s = (Inr x, t) \<longrightarrow>
       (\<forall>j. be_read_checkpoint b j t = be_read_checkpoint b j s))"
proof (cases "ag_supported ops agent \<and> (\<exists>p q ns. CheckpointPolicy_of policy = Inr p \<and> TraceCapture_of trace = Inr q \<and> session_tags tags = Inr ns)")
  case False
  then have "\<exists>e. open_session b ops now agent i policy trace tags parent existing s = (Inl e, s)"
    by (cases "CheckpointPolicy_of policy"; cases "TraceCapture_of trace"; cases "session_tags tags")
      (auto simp: open_session_def throwM_app)
  then show ?thesis using made_raise [OF s] by auto
next
  case True
  then obtain p q ns where vals: "ag_supported ops agent" "CheckpointPolicy_of policy = Inr p"
      "TraceCapture_of trace = Inr q" "session_tags tags = Inr ns" by blast
  define x where "x = \<lparr>se_id = i, se_policy = p, se_trace = q, se_tags = ns, se_parent = parent,
    se_head = None, se_agent = agent\<rparr>"
  have eq: "open_session b ops now agent i policy trace tags parent existing s =
     (if existing then getM (adopt_existing b x) s
      else bindM (readS (assert_absent b i)) (\<lambda>_. bindM (write_initial_meta b ops now x) (\<lambda>_. returnM x)) s)"
    by (simp add: open_session_def vals x_def Let_def)
  show ?thesis
  proof (cases existing)
    case True
    have "live_head b s (adopt_existing b x s)"
      using head_of_stored [OF s] by (auto simp: adopt_existing_def live_head_def x_def)
    then show ?thesis using s eq True by (simp add: getM_app made_def only_appends_def)
  next
    case False
    show ?thesis
    proof (cases "assert_absent b i s")
      case (Inl e)
      then show ?thesis using eq False made_raise [OF s] by (simp add: readS_raises)
    next
      case (Inr u)
      obtain r t where w: "write_initial_meta b ops now x s = (r, t)" by (cases "write_initial_meta b ops now x s") blast
      have t: "sound t \<and> (\<forall>i. be_read_checkpoint b i t = be_read_checkpoint b i s)"
        by (rule put_meta_sound [OF s _ w [unfolded write_initial_meta_def]]) simp
      have "open_session b ops now agent i policy trace tags parent existing s =
          bindM (write_initial_meta b ops now x) (\<lambda>_. returnM x) s"
        using eq False readS_reads [where g = "assert_absent b i", OF Inr] by simp
      then have "open_session b ops now agent i policy trace tags parent existing s = (map_sum id (\<lambda>_. x) r, t)"
        using w by (cases r) (simp_all add: bindM_def returnM_app)
      moreover have "live_head b t x" by (simp add: live_head_def x_def)
      ultimately show ?thesis using t by (cases r) (simp_all add: made_def only_appends_def)
    qed
  qed
qed

lemmas made_open = open_session_cases [THEN conjunct1]

lemma opened_reads:
  "sound s \<Longrightarrow> open_session b ops now agent i policy trace tags parent existing s = (Inr x, t) \<Longrightarrow>
     sound t \<and> live_head b t x \<and> (\<forall>j. be_read_checkpoint b j t = be_read_checkpoint b j s)"
  using open_session_cases [of s ops now agent i policy trace tags parent existing] by (simp add: made_def)

text \<open>What a class method does with the session it has opened.\<close>

lemma made_bind_open:
  assumes s: "sound s"
    and f: "\<And>x t. sound t \<Longrightarrow> live_head b t x \<Longrightarrow> (\<forall>j. be_read_checkpoint b j t = be_read_checkpoint b j s) \<Longrightarrow> made t (f x t)"
  shows "made s (bindM (open_session b ops now agent i policy trace tags parent existing) f s)"
proof -
  obtain r t where o: "open_session b ops now agent i policy trace tags parent existing s = (r, t)"
    by (cases "open_session b ops now agent i policy trace tags parent existing s") blast
  show ?thesis
  proof (cases r)
    case (Inl e)
    then show ?thesis using made_open [OF s, of ops now agent i policy trace tags parent existing] o
      by (simp add: bindM_def made_def)
  next
    case (Inr x)
    have t: "sound t" "live_head b t x" "\<forall>j. be_read_checkpoint b j t = be_read_checkpoint b j s"
      using opened_reads [OF s o [unfolded Inr]] by blast+
    have "bindM (open_session b ops now agent i policy trace tags parent existing) f s = f x t"
      using o Inr by (simp add: bindM_def)
    then show ?thesis using f [OF t] t(3) by (simp add: made_def only_appends_def split: prod.splits)
  qed
qed

lemma persist_makes:
  assumes "sound s" and "live_head b s x" and "be_read_checkpoint b fresh s = None"
  shows "made s (on_session (persist b ops now fresh reply label status) x s)"
proof -
  let ?w = "\<lparr>w_store = s, w_session = x\<rparr>"
  have "unused ?w fresh ?w" using assms by (simp add: unused_def after_def only_appends_def)
  from triD [OF tri_persist this, of ops now reply label status] show ?thesis
    by (auto simp: on_session_def made_def post_def after_def split: prod.splits sum.splits)
qed

lemma rewind_makes:
  assumes "sound s" and "live_head b s x"
  shows "made s (on_session (rewind b ops now to) x s)"
proof -
  let ?w = "\<lparr>w_store = s, w_session = x\<rparr>"
  have "after ?w ?w" using assms by (simp add: after_def only_appends_def)
  from triD [OF tri_rewind this, of ops now to] show ?thesis
    by (auto simp: on_session_def made_def post_def after_def split: prod.splits sum.splits)
qed

lemma fork_from_makes:
  assumes "sound s" and "be_read_checkpoint b (snd fresh) s = None"
  shows "made s (fork_from b ops now fresh i policy trace tags s)"
  unfolding fork_from_def
  by (intro made_read [OF assms(1)] made_lift [OF assms(1)] made_bind_open [OF assms(1)] persist_makes)
    (use assms(2) in simp_all)

lemma resume_makes:
  fixes ops :: "'a AgentOps"
  assumes "sound s"
  shows "made s (resume b ops now session c policy trace s)"
proof -
  have opened: "made s (bindM (open_session b ops now agent i policy trace (VList []) None True)
      (\<lambda>x. if p then on_session (rewind b ops now j) x else returnM x) s)" for agent i p j
  proof (intro made_bind_open [OF assms])
    fix x :: "'a Session" and t
    assume "sound t" "live_head b t x"
    then show "made t ((if p then on_session (rewind b ops now j) x else returnM x) t)"
      using rewind_makes by (cases p) (simp_all add: returnM_app made_def only_appends_def)
  qed
  have picked: "made s ((case source of
       None \<Rightarrow> throwM (session_failure ''Cannot resume a session with no checkpoints.'')
     | Some c \<Rightarrow>
         if p \<and> ck_session c \<noteq> i
         then throwM (session_failure ''Cannot resume from a checkpoint from another session.'')
         else
           bindM (liftE (\<lambda>e. e) (ag_restore ops (ck_state c))) (\<lambda>agent.
           bindM (open_session b ops now agent i policy trace (VList []) None True) (\<lambda>x.
           if p then on_session (rewind b ops now (ck_id c)) x else returnM x))) s)" for source i p
    using assms by (cases source) (auto simp: throwM_app intro: made_raise made_lift opened)
  show ?thesis
    unfolding resume_def Let_def
  proof (intro made_read [OF assms])
    fix i
    show "made s (bindM (case given c None of
         Some c \<Rightarrow> bindM (readS (get_checkpoint b c)) (\<lambda>x. returnM (Some x))
       | None \<Rightarrow> getM (head_of b i)) (\<lambda>source.
       case source of
         None \<Rightarrow> throwM (session_failure ''Cannot resume a session with no checkpoints.'')
       | Some d \<Rightarrow>
           if given c None \<noteq> None \<and> ck_session d \<noteq> i
           then throwM (session_failure ''Cannot resume from a checkpoint from another session.'')
           else
             bindM (liftE (\<lambda>e. e) (ag_restore ops (ck_state d))) (\<lambda>agent.
             bindM (open_session b ops now agent i policy trace (VList []) None True) (\<lambda>x.
             if given c None \<noteq> None then on_session (rewind b ops now (ck_id d)) x else returnM x))) s)"
    proof (cases "given c None")
      case None
      show ?thesis unfolding None option.case bindM_getM by (rule picked)
    next
      case (Some j)
      show ?thesis
      proof (cases "get_checkpoint b j s")
        case (Inl e)
        then show ?thesis
          using made_raise [OF assms] by (simp add: Some bindM_def readS_def getM_app throwM_app)
      next
        case (Inr d)
        then have read: "bindM (bindM (readS (get_checkpoint b j)) (\<lambda>x. returnM (Some x))) f s = f (Some d) s"
          for f :: "Checkpoint option \<Rightarrow> ('s, exn, 'a Session) sem"
          by (simp add: bindM_def readS_def getM_app returnM_app)
        show ?thesis unfolding Some option.case(2) read by (rule picked [of _ _ "Some d", unfolded option.case])
      qed
    qed
  qed
qed

lemma fork_makes:
  assumes w: "sound (w_store w)" and fresh: "be_read_checkpoint b (snd fresh) (w_store w) = None"
    and "fork b ops now fresh at_id w = (r, v)"
  shows "made (w_store w) (r, w_store v)"
proof -
  let ?x = "w_session w"
  have branch: "made (w_store w) (r, w_store v)"
    if "storeM (fork_from b ops now fresh i policy trace tags) w = (r, v)" for i policy trace tags
    using fork_from_makes [OF w fresh, of ops now i policy trace tags] that
    by (auto simp: storeM_def split: prod.splits)
  have raised: "made (w_store w) (r, w_store v)" if "(Inl e, w) = (r, v)" for e
    using that made_raise [OF w] by auto
  show ?thesis
  proof (cases "given at_id (se_head ?x)")
    case None
    then have "(Inl (session_failure ''Cannot fork a session with no checkpoints.''), w) = (r, v)"
      using assms(3) by (simp add: fork_def bindM_getM throwM_app)
    then show ?thesis by (rule raised)
  next
    case (Some i)
    note f = assms(3) [unfolded fork_def bindM_getM Some option.case]
    show ?thesis
    proof (cases at_id)
      case None
      then show ?thesis using f branch by simp
    next
      case at_id: (Some j)
      show ?thesis
      proof (cases "get_checkpoint b j (w_store w)")
        case (Inl e)
        then have "storeM (readS (get_checkpoint b j)) w = (Inl e, w)"
          by (simp add: storeM_reads [OF readS_state]) (simp add: readS_def bindM_getM throwM_app)
        then show ?thesis using f raised by (auto simp: at_id bindM_def)
      next
        case (Inr c)
        then have "storeM (readS (get_checkpoint b j)) w = (Inr c, w)"
          by (simp add: storeM_reads [OF readS_state]) (simp add: readS_def bindM_getM returnM_app)
        then show ?thesis using f branch raised by (auto simp: at_id bindM_def throwM_app returnM_app split: if_splits)
      qed
    qed
  qed
qed

lemma tri_run:
  assumes "tri w P m (after w)" and "P w" and "m w = (r, v)"
  shows "after w v"
  using triD [OF assms(1,2)] assms(3) by (cases r) simp_all

end

subsection \<open>Programs of sessions\<close>

text \<open>
  One method call on a live session, and one step of a program that has several live sessions on
  one store: a call on one of them, or a call that makes another.  A call that raises is a step too.
\<close>

inductive method_step :: "'s Backend \<Rightarrow> 'a AgentOps \<Rightarrow> ('s, 'a) World \<Rightarrow> ('s, 'a) World \<Rightarrow> bool" for b ops where
  checkpoint: "be_read_checkpoint b fresh (w_store w) = None \<Longrightarrow> checkpoint b ops now fresh label w = (r, v) \<Longrightarrow>
     method_step b ops w v"
| record_turn: "be_read_checkpoint b fresh (w_store w) = None \<Longrightarrow> record_turn b ops now fresh reply w = (r, v) \<Longrightarrow>
     method_step b ops w v"
| arun: "be_read_checkpoint b fresh (w_store w) = None \<Longrightarrow> session_arun b ops run records now fresh w = (r, v) \<Longrightarrow>
     method_step b ops w v"
| edit: "be_read_checkpoint b fresh (w_store w) = None \<Longrightarrow> edit b ops now fresh transform label w = (r, v) \<Longrightarrow>
     method_step b ops w v"
| adopt: "be_read_checkpoint b fresh (w_store w) = None \<Longrightarrow> adopt b ops now fresh i label w = (r, v) \<Longrightarrow>
     method_step b ops w v"
| append_context: "be_read_checkpoint b fresh (w_store w) = None \<Longrightarrow>
     append_context b ops now fresh i label w = (r, v) \<Longrightarrow> method_step b ops w v"
| append_output: "be_read_checkpoint b fresh (w_store w) = None \<Longrightarrow>
     append_output b ops now fresh i label w = (r, v) \<Longrightarrow> method_step b ops w v"
| rewind: "rewind b ops now to w = (r, v) \<Longrightarrow> method_step b ops w v"
| complete: "complete b now w = (r, v) \<Longrightarrow> method_step b ops w v"
| tag: "tag b now names w = (r, v) \<Longrightarrow> method_step b ops w v"

definition joined :: "exn + 'a Session \<Rightarrow> 'a Session list" where
  "joined r = (case r of Inr x \<Rightarrow> [x] | Inl _ \<Rightarrow> [])"

inductive program_step :: "'s Backend \<Rightarrow> 'a AgentOps \<Rightarrow> 's \<times> 'a Session list \<Rightarrow> 's \<times> 'a Session list \<Rightarrow> bool"
  for b ops where
  call: "k < length xs \<Longrightarrow> method_step b ops \<lparr>w_store = s, w_session = xs ! k\<rparr> v \<Longrightarrow>
     program_step b ops (s, xs) (w_store v, xs[k := w_session v])"
| open_new: "open_session b ops now agent i policy trace tags parent False s = (r, t) \<Longrightarrow>
     program_step b ops (s, xs) (t, xs @ joined r)"
| fork: "k < length xs \<Longrightarrow> be_read_checkpoint b (snd fresh) s = None \<Longrightarrow>
     fork b ops now fresh at_id \<lparr>w_store = s, w_session = xs ! k\<rparr> = (r, v) \<Longrightarrow>
     program_step b ops (s, xs) (w_store v, xs @ joined r)"
| fork_from: "be_read_checkpoint b (snd fresh) s = None \<Longrightarrow>
     fork_from b ops now fresh i policy trace tags s = (r, t) \<Longrightarrow>
     program_step b ops (s, xs) (t, xs @ joined r)"
| resume: "resume b ops now i c policy trace s = (r, t) \<Longrightarrow>
     program_step b ops (s, xs) (t, xs @ joined r)"

context checkpoint_store
begin

lemma method_step_after:
  assumes "method_step b ops w v" and w: "after w w"
  shows "after w v"
  using assms(1)
proof cases
  case (rewind now to r)
  then show ?thesis using tri_run [OF tri_rewind w] by blast
next
  case (complete now r)
  then show ?thesis using tri_run [OF tri_complete w] by blast
next
  case (tag now names r)
  then show ?thesis using tri_run [OF tri_tag w] by blast
qed (use w in \<open>auto simp: unused_def intro: tri_run [OF tri_checkpoint] tri_run [OF tri_record_turn] tri_run [OF tri_arun]
    tri_run [OF tri_edit] tri_run [OF tri_adopt] tri_run [OF tri_append_context] tri_run [OF tri_append_output]\<close>)

definition program_ok :: "'s \<times> 'a Session list \<Rightarrow> bool" where
  "program_ok p \<longleftrightarrow> sound (fst p) \<and> (\<forall>x \<in> set (snd p). live_head b (fst p) x)"

lemma joined_ok:
  assumes "program_ok (s, xs)" and "made s (r, t)"
  shows "program_ok (t, xs @ joined r) \<and> only_appends b s t"
  using assms live_head_appends [of b s _ t]
  by (cases r) (auto simp: program_ok_def made_def joined_def)

lemma program_step_ok:
  assumes "program_step b ops p q" and "program_ok p"
  shows "program_ok q \<and> only_appends b (fst p) (fst q)"
  using assms
proof (induction rule: program_step.induct)
  case (call k xs s v)
  let ?w = "\<lparr>w_store = s, w_session = xs ! k\<rparr>"
  have "after ?w ?w" using call by (simp add: after_def program_ok_def only_appends_def)
  with call(2) have v: "after ?w v" by (rule method_step_after)
  then have "\<forall>x \<in> set xs. live_head b (w_store v) x"
    using call(3) by (auto simp: after_def program_ok_def intro: live_head_appends)
  moreover have "set (xs[k := w_session v]) \<subseteq> insert (w_session v) (set xs)" by (rule set_update_subset_insert)
  ultimately show ?case using v by (auto simp: after_def program_ok_def)
next
  case (open_new now agent i policy trace tags parent s r t xs)
  then have "made s (r, t)" using made_open [of s ops now agent i policy trace tags parent False] by (simp add: program_ok_def)
  then show ?case using joined_ok open_new by auto
next
  case (fork k xs fresh s now at_id r v)
  then have "made s (r, w_store v)"
    using fork_makes [of "\<lparr>w_store = s, w_session = xs ! k\<rparr>" fresh ops now at_id r v] by (simp add: program_ok_def)
  then show ?case using joined_ok fork by auto
next
  case (fork_from fresh s now i policy trace tags r t xs)
  then have "made s (r, t)" using fork_from_makes [of s fresh ops now i policy trace tags] by (simp add: program_ok_def)
  then show ?case using joined_ok fork_from by auto
next
  case (resume now i c policy trace s r t xs)
  then have "made s (r, t)" using resume_makes [of s ops now i c policy trace] by (simp add: program_ok_def)
  then show ?case using joined_ok resume by auto
qed

lemma program_steps_ok:
  "(program_step b ops)\<^sup>*\<^sup>* p q \<Longrightarrow> program_ok p \<Longrightarrow> program_ok q \<and> only_appends b (fst p) (fst q)"
proof (induction rule: rtranclp_induct)
  case base
  then show ?case by (simp add: only_appends_def)
next
  case (step q r)
  then have q: "program_ok q" "only_appends b (fst p) (fst q)" by blast+
  show ?case using program_step_ok [OF step(2) q(1)] only_appends_trans [OF q(2)] by blast
qed

end

text \<open>Following the links from any checkpoint comes to an end: no checkpoint is its own ancestor.\<close>

definition parent_links :: "'s Backend \<Rightarrow> 's \<Rightarrow> (string \<times> string) set" where
  "parent_links b s = {(i, p). \<exists>c. be_read_checkpoint b i s = Some c \<and> ck_parent c = Some p}"

lemma linked_acyclic:
  assumes "linked b s"
  shows "acyclic (parent_links b s)"
proof (rule acyclicI_order)
  fix i p
  assume "(i, p) \<in> parent_links b s"
  then show "ck_seq (the (be_read_checkpoint b p s)) < ck_seq (the (be_read_checkpoint b i s))"
    using assms unfolding parent_links_def linked_def by fastforce
qed

lemma memory_program_ok: "memory.program_ok (memory_start, [])"
  by (simp add: memory.program_ok_def memory.sound_def memory.numbered_def linked_def headed_def memory_inv_def
      memory_start_def) (simp add: memory_backend_def)

text \<open>C35:
  A program may hold any number of sessions on one memory store, even several of the same session id: it opens,
  forks and resumes them, runs them, checkpoints, edits, adopts, rewinds, tags and completes, and any of these may
  raise.  In every state it reaches, the parent of a checkpoint is an earlier checkpoint of the same session, so no
  checkpoint is its own ancestor; the recorded head of a session and the head of every live session are checkpoints
  of that session; and from there on no stored checkpoint is ever changed or lost.
\<close>

theorem sessions_keep_every_checkpoint:
  assumes "(program_step memory_backend ops)\<^sup>*\<^sup>* (memory_start, []) (s, xs)"
    and "(program_step memory_backend ops)\<^sup>*\<^sup>* (s, xs) (t, ys)"
  shows "linked memory_backend t \<and> acyclic (parent_links memory_backend t) \<and> headed memory_backend t \<and>
    (\<forall>x \<in> set ys. live_head memory_backend t x) \<and> only_appends memory_backend s t"
proof -
  have "memory.program_ok (s, xs)"
    using memory.program_steps_ok [OF assms(1) memory_program_ok] by blast
  then have "memory.program_ok (t, ys) \<and> only_appends memory_backend s t"
    using memory.program_steps_ok [OF assms(2)] by simp
  then show ?thesis
    using linked_acyclic by (auto simp: memory.program_ok_def memory.sound_def)
qed

definition demo_ops :: "RunState AgentOps" where
  "demo_ops = \<lparr>ag_supported = \<lambda>_. True, ag_name = rs_agent_name, ag_history = \<lambda>_. [], ag_set_history = \<lambda>_ a. a,
     ag_clear_calls = \<lambda>a. a, ag_last_reply = \<lambda>_. None, ag_last_trace = \<lambda>_. VNone, ag_trace_enabled = \<lambda>_. False,
     ag_tracer_events = \<lambda>_. [], ag_export = Inr, ag_restore = Inr\<rparr>"

definition demo_opened :: "(exn + RunState Session) \<times> MemoryStore" where
  "demo_opened = open_session memory_backend demo_ops ''t1'' demo_run_state ''s1'' ''per_turn'' ''auto'' (VList []) None False memory_start"

definition demo_saved :: "(exn + string) \<times> (MemoryStore, RunState) World" where
  "demo_saved = checkpoint memory_backend demo_ops ''t2'' ''c1'' [] \<lparr>w_store = snd demo_opened, w_session = projr (fst demo_opened)\<rparr>"

definition demo_forked :: "(exn + RunState Session) \<times> (MemoryStore, RunState) World" where
  "demo_forked = fork memory_backend demo_ops ''t3'' (''s2'', ''c2'') None (snd demo_saved)"

lemmas run_simps = bindM_def getM_app updM_app returnM_app throwM_app readS_def storeM_def on_session_def
  memory_backend_def Let_def

lemma demo_opened_is:
  "demo_opened = (Inr \<lparr>se_id = ''s1'', se_policy = PER_TURN, se_trace = AUTO, se_tags = [], se_parent = None,
       se_head = None, se_agent = demo_run_state\<rparr>,
     \<lparr>ms_checkpoints = [], ms_meta = [(''s1'', \<lparr>sm_id = ''s1'', sm_head = None, sm_parent = None,
       sm_agent = rs_agent_name demo_run_state, sm_status = ACTIVE, sm_created = ''t1'', sm_updated = ''t1'', sm_tags = []\<rparr>)]\<rparr>)"
  by (simp add: demo_opened_def open_session_def demo_ops_def CheckpointPolicy_of_def TraceCapture_of_def session_tags_def
      as_list_def assert_absent_def write_initial_meta_def get_meta_def put_meta_def memory_start_def run_simps)

definition demo_first :: Checkpoint where
  "demo_first = \<lparr>ck_id = ''c1'', ck_session = ''s1'', ck_parent = None, ck_seq = 0, ck_created = ''t2'',
     ck_state = demo_run_state, ck_label = [], ck_status = ACTIVE, ck_artifact = None, ck_summary = None, ck_events = None\<rparr>"

lemma demo_saved_is:
  "demo_saved = (Inr ''c1'', \<lparr>w_store = \<lparr>ms_checkpoints = [(''c1'', demo_first)],
       ms_meta = [(''s1'', \<lparr>sm_id = ''s1'', sm_head = Some ''c1'', sm_parent = None,
         sm_agent = rs_agent_name demo_run_state, sm_status = ACTIVE, sm_created = ''t1'', sm_updated = ''t2'', sm_tags = []\<rparr>)]\<rparr>,
     w_session = \<lparr>se_id = ''s1'', se_policy = PER_TURN, se_trace = AUTO, se_tags = [], se_parent = None,
       se_head = Some ''c1'', se_agent = demo_run_state\<rparr>\<rparr>)"
  by (simp add: demo_saved_def demo_opened_is checkpoint_def persist_def get_meta_def put_def advance_head_def
      demo_ops_def demo_first_def capture_def should_capture_def tracing_enabled_def metadata_get_def empty_reply_def
      next_seq_def run_simps)

lemma demo_forked_is:
  "map_sum (\<lambda>_. ()) se_head (fst demo_forked) = Inr (Some ''c2'')"
  "map fst (ms_checkpoints (w_store (snd demo_forked))) = [''c1'', ''c2'']"
  by (simp_all add: demo_forked_def demo_saved_is fork_def given_def fork_from_def open_session_def demo_ops_def
      CheckpointPolicy_of_def TraceCapture_of_def session_tags_def policy_value_def trace_value_def texts_def
      as_list_def assert_absent_def write_initial_meta_def get_checkpoint_def get_meta_def put_meta_def demo_first_def
      persist_def put_def advance_head_def capture_def should_capture_def tracing_enabled_def metadata_get_def
      empty_reply_def run_simps)

lemma sessions_keep_every_checkpoint_witness:
  "\<exists>s x t ys. (program_step memory_backend demo_ops)\<^sup>*\<^sup>* (memory_start, []) (s, [x]) \<and>
     (program_step memory_backend demo_ops)\<^sup>*\<^sup>* (s, [x]) (t, ys) \<and>
     be_read_checkpoint memory_backend ''c1'' s = Some demo_first \<and> map se_head ys = [Some ''c1'', Some ''c2''] \<and>
     linked memory_backend t \<and> headed memory_backend t \<and> (\<forall>y \<in> set ys. live_head memory_backend t y) \<and>
     be_read_checkpoint memory_backend ''c1'' t = Some demo_first"
proof -
  let ?S = "program_step memory_backend demo_ops"
  obtain x0 s0 where o: "demo_opened = (Inr x0, s0)" by (simp add: demo_opened_is)
  obtain s x where sv: "snd demo_saved = \<lparr>w_store = s, w_session = x\<rparr>" by (cases "snd demo_saved")
  obtain r v where f: "demo_forked = (r, v)" by (cases demo_forked)
  obtain y where y: "r = Inr y" "se_head y = Some ''c2''" using demo_forked_is(1) [unfolded f] by (cases r) auto
  have s: "be_read_checkpoint memory_backend ''c1'' s = Some demo_first" "be_read_checkpoint memory_backend ''c2'' s = None"
    "se_head x = Some ''c1''"
    using sv by (auto simp: demo_saved_is memory_backend_def)
  have "?S (memory_start, []) (s0, [] @ joined (Inr x0))"
    by (rule program_step.open_new) (rule o [unfolded demo_opened_def])
  moreover have "?S (s0, [x0]) (s, [x0][0 := x])"
  proof -
    have "method_step memory_backend demo_ops \<lparr>w_store = s0, w_session = x0\<rparr> (snd demo_saved)"
      by (rule method_step.checkpoint [of _ "''c1''" _ demo_ops "''t2''" "[]"])
        (use o [symmetric] in \<open>auto simp: demo_saved_def demo_opened_is intro: surjective_pairing\<close>,
         simp add: memory_backend_def)
    then show ?thesis using program_step.call [of 0 "[x0]" memory_backend demo_ops s0 "snd demo_saved"] sv by simp
  qed
  ultimately have one: "?S\<^sup>*\<^sup>* (memory_start, []) (s, [x])" by (simp add: joined_def)
  have "?S (s, [x]) (w_store v, [x] @ joined r)"
    by (rule program_step.fork [where k = 0 and fresh = "(''s2'', ''c2'')" and now = "''t3''" and at_id = None])
      (use s f sv in \<open>auto simp: demo_forked_def\<close>)
  then have two: "?S\<^sup>*\<^sup>* (s, [x]) (w_store v, [x, y])" using y by (simp add: joined_def)
  from sessions_keep_every_checkpoint [OF one two] one two s y show ?thesis
    unfolding only_appends_def by (intro exI [of _ s] exI [of _ x] exI [of _ "w_store v"] exI [of _ "[x, y]"]) auto
qed

end
