(* ===== verification/SE_Usage.thy ===== *)
theory SE_Usage
  imports SE_Store MW_Retry
begin

text \<open>
  The usage of a session, folded from the history of its head checkpoint
  (\<^verbatim>\<open>vidbyte/sessions/usage.py\<close>, \<^verbatim>\<open>Session.usage\<close>), and the scope of the sessions a
  caller may touch (\<^verbatim>\<open>sessions/scope.py\<close>).  The number a text denotes and the seconds of a
  timestamp are arguments.
\<close>

subsection \<open>Records\<close>

record AgentUsage =
  au_name :: string
  au_tokens :: int
  au_tool_calls :: int
  au_turns :: int
  au_cost :: "fval option"

record UsageRollup =
  ru_tokens :: int
  ru_tool_calls :: int
  ru_turns :: int
  ru_latency :: "fval option"
  ru_cost :: "fval option"
  ru_per_agent :: "AgentUsage list"

definition no_usage :: UsageRollup where
  "no_usage = \<lparr>ru_tokens = 0, ru_tool_calls = 0, ru_turns = 0, ru_latency = None, ru_cost = None, ru_per_agent = []\<rparr>"

record UsageTotals =
  ut_tokens :: int
  ut_calls :: int
  ut_turns :: int

definition UsageError :: "string \<Rightarrow> exn" where
  "UsageError msg = Exn ''SessionUsageValidationError''
     [''SessionUsageError'', ''VidbyteSdkError'', ''Exception'', ''BaseException''] msg"

subsection \<open>The fold\<close>

definition message_metadata :: "pyval \<Rightarrow> exn + dict option" where
  "message_metadata m =
     (case m of
        VDict d \<Rightarrow>
          (case map_of d ''metadata'' of
             None \<Rightarrow> Inr None
           | Some VNone \<Rightarrow> Inr None
           | Some (VDict metadata) \<Rightarrow> Inr (Some metadata)
           | Some _ \<Rightarrow> Inl (UsageError ''Session usage message metadata must be a mapping.''))
      | _ \<Rightarrow> Inl (UsageError ''Session usage history entries must be mappings.''))"

definition has_usage :: "dict \<Rightarrow> bool" where
  "has_usage metadata \<longleftrightarrow> map_of metadata ''tokens_used'' \<noteq> None \<or> map_of metadata ''tool_call_count'' \<noteq> None"

text \<open>Only the errors of a wrong type or value become the error of the session; the overflow of an infinite number does not.\<close>

definition int_or_zero :: "pyval option \<Rightarrow> exn + int" where
  "int_or_zero v =
     (let bad = UsageError ''Session usage metadata must be numeric.'' in
      case v of
        None \<Rightarrow> Inr 0
      | Some VNone \<Rightarrow> Inr 0
      | Some (VBool _) \<Rightarrow> Inl bad
      | Some x \<Rightarrow>
          (case python_int x of
             Inl e \<Rightarrow> Inl (if exn_isinstance e [''TypeError'', ''ValueError''] then bad else e)
           | Inr n \<Rightarrow> if n < 0 then Inl (UsageError ''Session usage metadata cannot be negative.'') else Inr n))"

definition sender_of :: "(pyval \<Rightarrow> string) \<Rightarrow> pyval \<Rightarrow> string" where
  "sender_of show m = (case m of VDict d \<Rightarrow> text_of show (map_of d ''sender'') | _ \<Rightarrow> [])"

definition record_message ::
  "string \<Rightarrow> dict \<Rightarrow> (string \<times> UsageTotals) list \<Rightarrow> exn + (string \<times> UsageTotals) list" where
  "record_message agent metadata agents =
     (let totals = (case map_of agents agent of Some t \<Rightarrow> t | None \<Rightarrow> \<lparr>ut_tokens = 0, ut_calls = 0, ut_turns = 0\<rparr>) in
      bindE (int_or_zero (map_of metadata ''tokens_used'')) (\<lambda>tokens.
      bindE (int_or_zero (map_of metadata ''tool_call_count'')) (\<lambda>calls.
      Inr (dict_put agent \<lparr>ut_tokens = ut_tokens totals + tokens, ut_calls = ut_calls totals + calls,
        ut_turns = ut_turns totals + 1\<rparr> agents))))"

fun fold_history ::
  "(pyval \<Rightarrow> string) \<Rightarrow> (string \<times> UsageTotals) list \<Rightarrow> pyval list \<Rightarrow> exn + (string \<times> UsageTotals) list" where
  "fold_history show agents [] = Inr agents"
| "fold_history show agents (m # ms) =
     bindE (message_metadata m) (\<lambda>metadata.
     case metadata of
       Some d \<Rightarrow>
         if has_usage d then bindE (record_message (sender_of show m) d agents) (\<lambda>agents. fold_history show agents ms)
         else fold_history show agents ms
     | None \<Rightarrow> fold_history show agents ms)"

subsection \<open>Costs\<close>

definition price_number :: "(string \<Rightarrow> fval option) \<Rightarrow> pyval \<Rightarrow> exn + fval" where
  "price_number parse v =
     (let bad = Inl (UsageError ''Session usage price must be numeric.'') in
      case v of
        VInt n \<Rightarrow> if int_overflows n then Inl OverflowError else Inr (Fin (of_int n))
      | VFloat x \<Rightarrow> Inr x
      | VStr s \<Rightarrow> (case parse s of Some x \<Rightarrow> Inr x | None \<Rightarrow> bad)
      | _ \<Rightarrow> bad)"

definition price_of :: "(string \<Rightarrow> fval option) \<Rightarrow> dict option \<Rightarrow> string option \<Rightarrow> exn + fval option" where
  "price_of parse prices model =
     (case (prices, model) of
        (Some ps, Some name) \<Rightarrow>
          (case map_of ps name of
             None \<Rightarrow> Inr None
           | Some raw \<Rightarrow>
               bindE (price_number parse raw) (\<lambda>price.
               if (case price of Fin r \<Rightarrow> r < 0 | MInf \<Rightarrow> True | _ \<Rightarrow> False)
               then Inl (UsageError ''Session usage price cannot be negative.'')
               else Inr (Some price)))
      | _ \<Rightarrow> Inr None)"

text \<open>The product with a price that is not negative, and the sum of such products.\<close>

definition cost_of :: "int \<Rightarrow> fval \<Rightarrow> exn + fval" where
  "cost_of tokens price =
     (if int_overflows tokens then Inl OverflowError
      else Inr (case price of Fin r \<Rightarrow> Fin (of_int tokens * r) | PInf \<Rightarrow> if tokens = 0 then NaN else PInf | x \<Rightarrow> NaN))"

fun plus_cost :: "fval \<Rightarrow> fval \<Rightarrow> fval" where
  "plus_cost (Fin a) (Fin b) = Fin (a + b)"
| "plus_cost NaN y = NaN"
| "plus_cost x NaN = NaN"
| "plus_cost (Fin a) y = y"
| "plus_cost x y = x"

definition agent_usage ::
  "(string \<Rightarrow> fval option) \<Rightarrow> dict option \<Rightarrow> string option \<Rightarrow> string \<times> UsageTotals \<Rightarrow> exn + AgentUsage" where
  "agent_usage parse prices model = (\<lambda>(agent, t).
     bindE (price_of parse prices model) (\<lambda>price.
     bindE (case price of None \<Rightarrow> Inr None | Some p \<Rightarrow> bindE (cost_of (ut_tokens t) p) (\<lambda>c. Inr (Some c))) (\<lambda>cost.
     Inr \<lparr>au_name = agent, au_tokens = ut_tokens t, au_tool_calls = ut_calls t, au_turns = ut_turns t, au_cost = cost\<rparr>)))"

fun agent_usages ::
  "(string \<Rightarrow> fval option) \<Rightarrow> dict option \<Rightarrow> string option \<Rightarrow> (string \<times> UsageTotals) list \<Rightarrow> exn + AgentUsage list" where
  "agent_usages parse prices model [] = Inr []"
| "agent_usages parse prices model (a # as) =
     bindE (agent_usage parse prices model a) (\<lambda>u. bindE (agent_usages parse prices model as) (\<lambda>us. Inr (u # us)))"

definition sum_costs :: "fval option list \<Rightarrow> fval option" where
  "sum_costs cs = (if None \<in> set cs then None else Some (foldl plus_cost (Fin 0) (map the cs)))"

definition validate_latency :: "pyval \<Rightarrow> exn + fval option" where
  "validate_latency v =
     (let negative = Inl (UsageError ''Session usage latency cannot be negative.'') in
      case v of
        VNone \<Rightarrow> Inr None
      | VInt n \<Rightarrow> if n < 0 then negative else Inr (Some (Fin (of_int n)))
      | VFloat (Fin r) \<Rightarrow> if r < 0 then negative else Inr (Some (Fin r))
      | VFloat MInf \<Rightarrow> negative
      | VFloat x \<Rightarrow> Inr (Some x)
      | _ \<Rightarrow> Inl (UsageError ''Session usage latency must be numeric or None.''))"

definition build_usage ::
  "(pyval \<Rightarrow> string) \<Rightarrow> (string \<Rightarrow> fval option) \<Rightarrow> pyval list \<Rightarrow> string option \<Rightarrow> pyval \<Rightarrow> dict option \<Rightarrow> exn + UsageRollup" where
  "build_usage show parse messages model latency prices =
     bindE (validate_latency latency) (\<lambda>latency.
     bindE (fold_history show [] messages) (\<lambda>agents.
     bindE (agent_usages parse prices model agents) (\<lambda>per_agent.
     Inr \<lparr>ru_tokens = sum_list (map au_tokens per_agent), ru_tool_calls = sum_list (map au_tool_calls per_agent),
          ru_turns = sum_list (map au_turns per_agent), ru_latency = latency,
          ru_cost = (if prices = None then None else sum_costs (map au_cost per_agent)), ru_per_agent = per_agent\<rparr>)))"

definition session_latency :: "(string \<Rightarrow> rat option) \<Rightarrow> Checkpoint list \<Rightarrow> pyval" where
  "session_latency seconds cs =
     (if length cs < 2 then VNone
      else case (seconds (ck_created (hd cs)), seconds (ck_created (last cs))) of
          (Some first, Some final) \<Rightarrow> VFloat (Fin (max (final - first) 0))
        | _ \<Rightarrow> VNone)"

definition session_usage ::
  "'s Backend \<Rightarrow> (pyval \<Rightarrow> string) \<Rightarrow> (string \<Rightarrow> fval option) \<Rightarrow> (string \<Rightarrow> rat option) \<Rightarrow> string \<Rightarrow> dict option \<Rightarrow> 's \<Rightarrow> exn + UsageRollup" where
  "session_usage b show parse seconds session prices s =
     (case head_of b session s of
        None \<Rightarrow> Inr no_usage
      | Some head \<Rightarrow> build_usage show parse (map VDict (rs_history (ck_state head))) (rs_model_name (ck_state head))
            (session_latency seconds (history b session s)) prices)"

subsection \<open>Nothing is counted twice or lost\<close>

definition counted :: "string \<Rightarrow> pyval \<Rightarrow> int" where
  "counted field m =
     (case message_metadata m of
        Inr (Some d) \<Rightarrow> if has_usage d then (case int_or_zero (map_of d field) of Inr n \<Rightarrow> n | Inl _ \<Rightarrow> 0) else 0
      | _ \<Rightarrow> 0)"

definition counts_as_turn :: "pyval \<Rightarrow> bool" where
  "counts_as_turn m \<longleftrightarrow> (case message_metadata m of Inr (Some d) \<Rightarrow> has_usage d | _ \<Rightarrow> False)"

definition totals_of :: "(string \<times> UsageTotals) list \<Rightarrow> string \<Rightarrow> UsageTotals" where
  "totals_of agents agent = (case map_of agents agent of Some t \<Rightarrow> t | None \<Rightarrow> \<lparr>ut_tokens = 0, ut_calls = 0, ut_turns = 0\<rparr>)"

lemma record_message_totals:
  "record_message agent d agents = Inr agents' \<Longrightarrow> \<exists>tokens calls.
     int_or_zero (map_of d ''tokens_used'') = Inr tokens \<and> int_or_zero (map_of d ''tool_call_count'') = Inr calls \<and>
     (\<forall>a. totals_of agents' a = (let t = totals_of agents a in
        if a = agent then \<lparr>ut_tokens = ut_tokens t + tokens, ut_calls = ut_calls t + calls, ut_turns = ut_turns t + 1\<rparr> else t))"
  by (auto simp: record_message_def totals_of_def Let_def elim!: bindE_InrE split: option.splits)

lemma fold_history_totals:
  "fold_history show agents ms = Inr agents' \<Longrightarrow>
   totals_of agents' a =
     \<lparr>ut_tokens = ut_tokens (totals_of agents a) + sum_list (map (counted ''tokens_used'') (filter (\<lambda>m. sender_of show m = a) ms)),
      ut_calls = ut_calls (totals_of agents a) + sum_list (map (counted ''tool_call_count'') (filter (\<lambda>m. sender_of show m = a) ms)),
      ut_turns = ut_turns (totals_of agents a) + int (length (filter (\<lambda>m. sender_of show m = a \<and> counts_as_turn m) ms))\<rparr>"
proof (induction ms arbitrary: agents)
  case (Cons m ms)
  show ?case
  proof (cases "message_metadata m")
    case (Inr metadata)
    show ?thesis
    proof (cases "\<exists>d. metadata = Some d \<and> has_usage d")
      case True
      then obtain d agents1 where d: "metadata = Some d" "has_usage d"
        and rec: "record_message (sender_of show m) d agents = Inr agents1" and rest: "fold_history show agents1 ms = Inr agents'"
        using Cons.prems Inr by (auto elim!: bindE_InrE)
      obtain tokens calls where n: "int_or_zero (map_of d ''tokens_used'') = Inr tokens" "int_or_zero (map_of d ''tool_call_count'') = Inr calls"
        and step: "totals_of agents1 a = (let t = totals_of agents a in if a = sender_of show m
          then \<lparr>ut_tokens = ut_tokens t + tokens, ut_calls = ut_calls t + calls, ut_turns = ut_turns t + 1\<rparr> else t)"
        using record_message_totals [OF rec] by blast
      show ?thesis using Cons.IH [OF rest] step d n Inr
        by (simp add: counted_def counts_as_turn_def Let_def)
    next
      case False
      then have "fold_history show agents ms = Inr agents'" using Cons.prems Inr by (auto split: option.splits)
      from Cons.IH [OF this] show ?thesis using False Inr
        by (auto simp: counted_def counts_as_turn_def split: option.splits)
    qed
  qed (use Cons.prems in simp)
qed simp

lemma put_total:
  "dict_wf d \<Longrightarrow> sum_list (map (\<lambda>(_, t). f t) (dict_put k v d)) =
     sum_list (map (\<lambda>(_, t). f t) d) + f v - (case map_of d k of Some u \<Rightarrow> f u | None \<Rightarrow> (0 :: int))"
  by (induction d) (auto simp: dict_wf_def split: option.splits)

lemma record_message_total:
  assumes "record_message agent d agents = Inr agents'" and "dict_wf agents"
  shows "dict_wf agents' \<and>
    sum_list (map (\<lambda>(_, t). ut_tokens t) agents') = sum_list (map (\<lambda>(_, t). ut_tokens t) agents) +
      (case int_or_zero (map_of d ''tokens_used'') of Inr n \<Rightarrow> n | Inl _ \<Rightarrow> 0)"
  using assms by (auto simp: record_message_def Let_def put_total elim!: bindE_InrE split: option.splits)

lemma fold_history_total:
  "fold_history show agents ms = Inr agents' \<Longrightarrow> dict_wf agents \<Longrightarrow>
   dict_wf agents' \<and> sum_list (map (\<lambda>(_, t). ut_tokens t) agents') =
     sum_list (map (\<lambda>(_, t). ut_tokens t) agents) + sum_list (map (counted ''tokens_used'') ms)"
proof (induction ms arbitrary: agents)
  case (Cons m ms)
  obtain metadata where m: "message_metadata m = Inr metadata" using Cons.prems by (auto elim!: bindE_InrE)
  show ?case
  proof (cases "\<exists>d. metadata = Some d \<and> has_usage d")
    case True
    then obtain d agents1 where d: "metadata = Some d" "has_usage d"
      and rec: "record_message (sender_of show m) d agents = Inr agents1" and rest: "fold_history show agents1 ms = Inr agents'"
      using Cons.prems m by (auto elim!: bindE_InrE)
    from Cons.IH [OF rest] record_message_total [OF rec Cons.prems(2)] d m show ?thesis
      by (simp add: counted_def)
  next
    case False
    then have "fold_history show agents ms = Inr agents'" using Cons.prems m by (auto split: option.splits)
    from Cons.IH [OF this Cons.prems(2)] False m show ?thesis by (auto simp: counted_def split: option.splits)
  qed
qed simp

lemma agent_usages_keep:
  "agent_usages parse prices model agents = Inr us \<Longrightarrow>
   map (\<lambda>u. (au_name u, au_tokens u, au_tool_calls u, au_turns u)) us = map (\<lambda>(n, t). (n, ut_tokens t, ut_calls t, ut_turns t)) agents"
  by (induction agents arbitrary: us) (auto simp: agent_usage_def elim!: bindE_InrE split: prod.splits)

text \<open>The tokens of a rollup are those of the messages, each once; so are those of every agent.\<close>

lemma usage_adds_up:
  assumes "build_usage show parse messages model latency prices = Inr r"
  shows "ru_tokens r = sum_list (map (counted ''tokens_used'') messages) \<and>
    (\<forall>u \<in> set (ru_per_agent r). au_tokens u =
      sum_list (map (counted ''tokens_used'') (filter (\<lambda>m. sender_of show m = au_name u) messages)))"
proof -
  obtain agents where agents: "fold_history show [] messages = Inr agents"
    and us: "agent_usages parse prices model agents = Inr (ru_per_agent r)"
    and sum: "ru_tokens r = sum_list (map au_tokens (ru_per_agent r))"
    using assms by (auto simp: build_usage_def elim!: bindE_InrE)
  have total: "dict_wf agents" "sum_list (map (\<lambda>(_, t). ut_tokens t) agents) = sum_list (map (counted ''tokens_used'') messages)"
    using fold_history_total [OF agents] by simp_all
  note kept = agent_usages_keep [OF us]
  have "map au_tokens (ru_per_agent r) = map (\<lambda>(_, t). ut_tokens t) agents"
    using arg_cong [OF kept, of "map (\<lambda>(_, x, _). x)"] by (simp add: comp_def case_prod_unfold)
  then have "ru_tokens r = sum_list (map (counted ''tokens_used'') messages)" using sum total by simp
  moreover have "au_tokens u = sum_list (map (counted ''tokens_used'') (filter (\<lambda>m. sender_of show m = au_name u) messages))"
    if "u \<in> set (ru_per_agent r)" for u
  proof -
    have "(au_name u, au_tokens u, au_tool_calls u, au_turns u) \<in> set (map (\<lambda>(n, t). (n, ut_tokens t, ut_calls t, ut_turns t)) agents)"
      using that unfolding kept [symmetric] by auto
    then obtain t where "(au_name u, t) \<in> set agents" and t: "au_tokens u = ut_tokens t" by auto
    then have "totals_of agents (au_name u) = t" by (simp add: totals_of_def dict_wf_lookup [OF total(1), symmetric])
    then show ?thesis using fold_history_totals [OF agents, of "au_name u"] t by (simp add: totals_of_def)
  qed
  ultimately show ?thesis by blast
qed

subsection \<open>The scope of a caller\<close>

record SessionScope =
  sc_allowed :: "string list"
  sc_all_runs :: bool

definition mk_SessionScope :: "pyval \<Rightarrow> bool \<Rightarrow> exn + SessionScope" where
  "mk_SessionScope ids all_runs =
     (case ids of
        VStr _ \<Rightarrow> Inl (ValueError ''SessionScope allow_ids must be a list of session ids (e.g. SessionScope.sessions([session.id])), not a single string.'')
      | VList vs \<Rightarrow> Inr \<lparr>sc_allowed = List.map_filter (\<lambda>v. case v of VStr s \<Rightarrow> Some s | _ \<Rightarrow> None) vs, sc_all_runs = all_runs\<rparr>
      | VDict d \<Rightarrow> Inr \<lparr>sc_allowed = map fst d, sc_all_runs = all_runs\<rparr>
      | _ \<Rightarrow> Inl (TypeError ''object is not iterable''))"

definition scope_allow :: "string \<Rightarrow> SessionScope \<Rightarrow> SessionScope" where
  "scope_allow session sc = sc\<lparr>sc_allowed := session # sc_allowed sc\<rparr>"

definition permits :: "SessionScope \<Rightarrow> string \<Rightarrow> bool" where
  "permits sc session \<longleftrightarrow> sc_all_runs sc \<or> session \<in> set (sc_allowed sc)"

lemma permits_allow: "permits (scope_allow a sc) b \<longleftrightarrow> a = b \<or> permits sc b"
  by (auto simp: permits_def scope_allow_def)

end
