(* ===== verification/FR_Failure.thy ===== *)
theory FR_Failure
  imports SE_Codec
begin

text \<open>
  Failure records (\<^verbatim>\<open>lib/dataclasses/failure.py\<close>) and the closed vocabulary of failure codes
  (\<^verbatim>\<open>lib/enums/failure.py\<close>).  A code is its stable text, the value of the enum member.  The
  text of an arbitrary object (\<open>show\<close>), fresh ids and the time are arguments.
\<close>

subsection \<open>The vocabulary\<close>

definition failure_codes :: "string list" where
  "failure_codes =
    [''configuration.invalid'', ''configuration.missing_required'',
     ''configuration.unsupported_combination'', ''configuration.unknown_model'',
     ''configuration.invalid_schema'', ''configuration.invalid_provider'',
     ''configuration.invalid_tool'', ''configuration.invalid_middleware'',
     ''configuration.invalid_runtime'', ''configuration.invalid_argument'', ''codex.sdk_unavailable'',
     ''codex.vidbyte_translation_failed'', ''codex.content_translation_failed'',
     ''codex.thread_start_failed'', ''codex.thread_resume_failed'', ''codex.turn_failed'',
     ''codex.fork_failed'', ''codex.response_invalid'', ''codex.contract_unmet'',
     ''codex.middleware_aborted'', ''codex.middleware_unsupported'', ''codex.run_option_unsupported'',
     ''codex.not_installed'', ''codex.version_unsupported'', ''codex.not_signed_in'',
     ''codex.usage_limited'', ''codex.model_unknown'', ''codex.session_not_found'',
     ''codex.session_busy'', ''codex.budget_exhausted'', ''codex.api_error'',
     ''codex.permission_denied'', ''codex.sandbox_not_ready'', ''codex.schema_violation'',
     ''codex.process_exited'', ''codex.protocol_mismatch'', ''codex.turn_timed_out'',
     ''codex.command_not_run'', ''codex.skill_not_found'', ''codex.skill_disabled'',
     ''codex.goal_unfinished'', ''input.empty'', ''input.invalid'', ''input.type_invalid'',
     ''output.missing'', ''output.invalid'', ''output.schema_violation'', ''contract.unsatisfied'',
     ''serialization.invalid'', ''model.request_failed'', ''model.response_invalid'',
     ''model.timeout'', ''model.rate_limited'', ''model.authentication_failed'', ''model.not_found'',
     ''model.unsupported'', ''model.context_limit'', ''model.content_filtered'',
     ''model.retry_exhausted'', ''model.fallback_exhausted'', ''provider.selection_failed'',
     ''provider.configuration_invalid'', ''tool.not_found'', ''tool.arguments_invalid'',
     ''tool.permission_denied'', ''tool.disabled'', ''tool.timeout'', ''tool.rate_limited'',
     ''tool.execution_failed'', ''tool.result_invalid'', ''tool.result_missing'',
     ''tool.retry_exhausted'', ''tool.call_limit_reached'', ''tool.calls_per_iteration_limit'',
     ''tool.identical_call_limit'', ''tool.consecutive_failure_limit'', ''tool.error_limit'',
     ''tool.sliding_window_limit'', ''tool.loop_limit'', ''action.policy_violation'',
     ''action.unsafe'', ''action.forbidden'', ''action.invalid_arguments'', ''action.wrong_target'',
     ''action.out_of_order'', ''action.duplicate'', ''action.precondition_failed'',
     ''action.no_progress'', ''action.looping'', ''action.partial'', ''action.not_applied'',
     ''action.conflict'', ''action.idempotency_violation'', ''action.unexpected_side_effect'',
     ''runtime.max_iterations'', ''runtime.max_tokens'', ''runtime.max_tool_calls'',
     ''runtime.timeout'', ''runtime.middleware_abort'', ''runtime.middleware_error'',
     ''runtime.error'', ''runtime.cancelled'', ''runtime.context_build_failed'',
     ''runtime.compaction_failed'', ''runtime.queue_limit'', ''resource.exhausted'',
     ''session.not_found'', ''session.checkpoint_missing'', ''session.serialization_failed'',
     ''session.version_mismatch'', ''session.persistence_failed'', ''session.resume_failed'',
     ''session.fork_failed'', ''session.rewind_invalid'', ''session.scope_denied'',
     ''state.corrupted'', ''state.conflict'', ''data.not_found'', ''data.malformed'',
     ''data.incomplete'', ''data.stale'', ''data.conflict'', ''data.source_unavailable'',
     ''data.permission_denied'', ''workflow.definition_invalid'', ''workflow.validation_failed'',
     ''workflow.stage_failed'', ''workflow.routing_failed'', ''workflow.transition_limit'',
     ''agent.handoff_failed'', ''agent.transfer_failed'', ''team.task_blocked'', ''team.replan_limit'',
     ''team.unrecoverable'', ''usage.recording_corrupted'', ''trace.capture_failed'',
     ''trace.export_failed'', ''recovery.handler_failed'', ''rule.evaluation_failed'',
     ''grok.not_installed'', ''grok.launcher_refused'', ''grok.launch_failed'', ''grok.key_rejected'',
     ''grok.thread_not_found'', ''grok.timed_out'', ''grok.output_too_large'',
     ''grok.protocol_mismatch'', ''grok.run_failed'', ''opencode.not_installed'',
     ''opencode.launcher_refused'', ''opencode.launch_failed'', ''opencode.key_rejected'',
     ''opencode.thread_not_found'', ''opencode.timed_out'', ''opencode.output_too_large'',
     ''opencode.protocol_mismatch'', ''opencode.run_failed'', ''muse.not_installed'',
     ''muse.launcher_refused'', ''muse.launch_failed'', ''muse.key_rejected'',
     ''muse.thread_not_found'', ''muse.timed_out'', ''muse.output_too_large'',
     ''muse.protocol_mismatch'', ''muse.run_failed'', ''muse.wsl_unavailable'',
     ''browser.mount_unsupported'', ''browser.runtime_missing'', ''browser.tool_install_failed'',
     ''browser.tools_unavailable'', ''grok.command_not_run'', ''opencode.command_not_run'',
     ''muse.command_not_run'', ''grok.store_unreadable'']"

datatype FailurePhase = CONFIGURATION | INPUT | MODEL | TOOL | ACTION | OUTPUT | LOOP | SESSION | WORKFLOW | DATA
  | RESOURCE | OBSERVABILITY | RECOVERY | RUNTIME | UNKNOWN

datatype FailureStatus = OBSERVED | RECOVERING | RECOVERED | EXHAUSTED | TERMINAL

datatype FailureDisposition = RECORD | CONTINUE | ROUTE | STOP | RAISE

datatype RuleErrorMode = OPEN | CLOSED

datatype FailureSeverity = INFO | WARNING | ERROR | CRITICAL

definition FailureCode_from_value :: "string \<Rightarrow> exn + string" where
  "FailureCode_from_value v =
     (if List.member failure_codes v then Inr v else Inl (ValueError (v @ '' is not a valid FailureCode'')))"

definition FailurePhase_of :: "string \<Rightarrow> exn + FailurePhase" where
  "FailurePhase_of v =
     (case map_of [(''configuration'', CONFIGURATION), (''input'', INPUT), (''model'', MODEL), (''tool'', TOOL),
        (''action'', ACTION), (''output'', OUTPUT), (''loop'', LOOP), (''session'', SESSION), (''workflow'', WORKFLOW),
        (''data'', DATA), (''resource'', RESOURCE), (''observability'', OBSERVABILITY), (''recovery'', RECOVERY),
        (''runtime'', RUNTIME), (''unknown'', UNKNOWN)] v of
        Some p \<Rightarrow> Inr p | None \<Rightarrow> Inl (ValueError ''not a valid FailurePhase''))"

definition FailureStatus_of :: "string \<Rightarrow> exn + FailureStatus" where
  "FailureStatus_of v =
     (case map_of [(''observed'', OBSERVED), (''recovering'', RECOVERING), (''recovered'', RECOVERED),
        (''exhausted'', EXHAUSTED), (''terminal'', TERMINAL)] v of
        Some p \<Rightarrow> Inr p | None \<Rightarrow> Inl (ValueError ''not a valid FailureStatus''))"

definition FailureDisposition_of :: "string \<Rightarrow> exn + FailureDisposition" where
  "FailureDisposition_of v =
     (case map_of [(''record'', RECORD), (''continue'', CONTINUE), (''route'', ROUTE), (''stop'', STOP),
        (''raise'', RAISE)] v of
        Some p \<Rightarrow> Inr p | None \<Rightarrow> Inl (ValueError ''not a valid FailureDisposition''))"

text \<open>
  What the vocabulary reads of an exception: the names of its class and module, the text of the code it
  declares and its HTTP status, when it has them, and its details.
\<close>

record ExceptionFacts =
  xf_type :: string
  xf_module :: string
  xf_declared :: "string option"
  xf_status :: pyval
  xf_details :: "dict option"

definition failure_families :: "(string list \<times> string) list" where
  "failure_families =
    [([''outputschemaviolation''], ''output.schema_violation''),
     ([''allmodelsfailed''], ''model.fallback_exhausted''),
     ([''providerconfiguration''], ''provider.configuration_invalid''),
     ([''providerselection''], ''provider.selection_failed''),
     ([''unsupportedprovider''], ''model.unsupported''),
     ([''providerresponse''], ''model.response_invalid''),
     ([''providerrequest''], ''model.request_failed''),
     ([''permissiondenied''], ''tool.permission_denied''),
     ([''reasoningtraceargument''], ''tool.arguments_invalid''),
     ([''reasoningtracedefinition''], ''configuration.invalid''),
     ([''toolregistry'', ''toolregistration''], ''configuration.invalid_tool''),
     ([''toolexecution'', ''mcptoolexecution''], ''tool.execution_failed''),
     ([''mcpinitialize'', ''mcpprotocol'', ''mcpconnection''], ''data.source_unavailable''),
     ([''mcptooldiscovery''], ''tool.not_found''),
     ([''sessionnotfound''], ''session.not_found''),
     ([''checkpointnotfound''], ''session.checkpoint_missing''),
     ([''sessionerror''], ''session.persistence_failed''),
     ([''sessionserialization''], ''session.serialization_failed''),
     ([''sessionversion''], ''session.version_mismatch''),
     ([''sessionstore''], ''session.persistence_failed''),
     ([''sessionusage''], ''usage.recording_corrupted''),
     ([''agentfork''], ''session.fork_failed''),
     ([''agenttransfer''], ''agent.transfer_failed''),
     ([''taskledger''], ''team.task_blocked''),
     ([''aggregateexecution''], ''team.unrecoverable''),
     ([''pipelineexecution''], ''workflow.stage_failed''),
     ([''tracerconfiguration''], ''trace.export_failed''),
     ([''sourcepinmismatch''], ''data.conflict''),
     ([''sourcesecurity''], ''data.permission_denied''),
     ([''sourceparse''], ''data.malformed''),
     ([''sourcefetch''], ''data.source_unavailable'')]"

fun first_family :: "(string list \<times> string) list \<Rightarrow> string \<Rightarrow> string option" where
  "first_family [] name = None"
| "first_family ((tokens, code) # rest) name =
     (if list_ex (\<lambda>t. contains_text t name) tokens then Some code else first_family rest name)"

definition from_exception_fallback :: "string \<Rightarrow> string \<Rightarrow> string" where
  "from_exception_fallback name home =
     (if take 17 home = ''vidbyte.workflows'' then ''workflow.stage_failed''
      else case first_family [([''configuration''], ''configuration.invalid''), ([''cancel''], ''runtime.cancelled''),
          ([''timeout''], ''model.timeout''), ([''serialization''], ''serialization.invalid''),
          ([''agentexecution''], ''runtime.error'')] name of
        Some code \<Rightarrow> code | None \<Rightarrow> ''runtime.error'')"

definition from_exception_name :: "string \<Rightarrow> string \<Rightarrow> string" where
  "from_exception_name name home =
     (case first_family failure_families name of Some code \<Rightarrow> code | None \<Rightarrow> from_exception_fallback name home)"

definition status_number :: "pyval \<Rightarrow> rat option" where
  "status_number v = (case v of VInt n \<Rightarrow> Some (of_int n) | VFloat (Fin r) \<Rightarrow> Some r | _ \<Rightarrow> None)"

definition FailureCode_from_exception_facts :: "ExceptionFacts \<Rightarrow> string" where
  "FailureCode_from_exception_facts x =
     (let statuses = [(429, ''model.rate_limited''), (401, ''model.authentication_failed''),
            (403, ''model.authentication_failed''), (404, ''model.not_found'')];
          name = map ascii_lower_of (xf_type x); home = map ascii_lower_of (xf_module x) in
      case Option.bind (status_number (xf_status x)) (map_of statuses) of
        Some code \<Rightarrow> code
      | None \<Rightarrow> from_exception_name name home)"

definition FailureCode_from_exception :: "ExceptionFacts \<Rightarrow> string" where
  "FailureCode_from_exception x =
     (case xf_declared x of
        Some v \<Rightarrow> if List.member failure_codes v then v else FailureCode_from_exception_facts x
      | None \<Rightarrow> FailureCode_from_exception_facts x)"

subsection \<open>Safe details\<close>

definition max_text :: nat where
  "max_text = 500"

definition max_items :: nat where
  "max_items = 32"

function sanitize_value :: "(pyval \<Rightarrow> string) \<Rightarrow> pyval \<Rightarrow> pyval" where
  "sanitize_value show (VDict d) =
     VDict (map (\<lambda>(k, v). (k, sanitize_value show v)) (filter (\<lambda>(k, v). \<not> precise_secret_key k) (take max_items d)))"
| "sanitize_value show (VList vs) = VList (map (sanitize_value show) (take max_items vs))"
| "sanitize_value show (VStr s) = VStr (take max_text s)"
| "sanitize_value show (VBool x) = VBool x"
| "sanitize_value show (VInt n) = VInt n"
| "sanitize_value show VNone = VNone"
| "sanitize_value show (VFloat (Fin r)) = VFloat (Fin r)"
| "sanitize_value show (VFloat PInf) = VStr ''inf''"
| "sanitize_value show (VFloat MInf) = VStr ''-inf''"
| "sanitize_value show (VFloat NaN) = VStr ''nan''"
| "sanitize_value show (VType n bases) = VStr (take max_text (show (VType n bases)))"
| "sanitize_value show (VObj n) = VStr (take max_text (show (VObj n)))"
  by pat_completeness auto
termination
proof (relation "measure (\<lambda>(show, v). size v)"; clarsimp)
  fix d :: dict and k :: string and v :: pyval
  assume "(k, v) \<in> set (take max_items d)"
  then have "(k, v) \<in> set d" by (rule in_set_takeD)
  then show "size v < Suc (size_list (size_prod (\<lambda>x. 0) size) d)" by (induction d) auto
next
  fix vs :: "pyval list" and v :: pyval
  assume "v \<in> set (take max_items vs)"
  then have "v \<in> set vs" by (rule in_set_takeD)
  then show "size v < Suc (size_list size vs)" by (induction vs) auto
qed

definition sanitize_mapping :: "(pyval \<Rightarrow> string) \<Rightarrow> dict \<Rightarrow> dict" where
  "sanitize_mapping show d =
     map (\<lambda>(k, v). (k, sanitize_value show v)) (filter (\<lambda>(k, v). \<not> precise_secret_key k) (take max_items d))"

subsection \<open>Failure records\<close>

record Failure =
  fl_code :: string
  fl_source :: string
  fl_phase :: FailurePhase
  fl_status :: FailureStatus
  fl_disposition :: FailureDisposition
  fl_severity :: FailureSeverity
  fl_summary :: "string option"
  fl_details :: dict
  fl_handled_by :: "string option"
  fl_parent :: "string option"
  fl_iteration :: "int option"
  fl_step :: "string option"
  fl_id :: string
  fl_at :: string

text \<open>The constructor checks and cleans what it is given; the other defaults are those of the class.\<close>

definition new_failure :: "(pyval \<Rightarrow> string) \<Rightarrow> Failure \<Rightarrow> exn + Failure" where
  "new_failure show f =
     bindE (case FailureCode_from_value (fl_code f) of
         Inl e \<Rightarrow> Inl (ValueError (''Unknown failure code: '' @ quoted (fl_code f))) | Inr c \<Rightarrow> Inr c) (\<lambda>code.
     if strip (fl_source f) = [] then Inl (ValueError ''Failure.source cannot be empty.'')
     else if (case fl_iteration f of None \<Rightarrow> False | Some n \<Rightarrow> n < 0)
     then Inl (ValueError ''Failure.iteration must be a non-negative integer when provided.'')
     else Inr (f\<lparr>fl_code := code, fl_source := strip (fl_source f),
       fl_summary := map_option (take max_text) (fl_summary f),
       fl_details := sanitize_mapping show (fl_details f)\<rparr>))"

definition plain_failure :: "string \<times> string \<Rightarrow> string \<Rightarrow> string \<Rightarrow> FailurePhase \<Rightarrow> dict \<Rightarrow> Failure" where
  "plain_failure fresh code source phase details =
     \<lparr>fl_code = code, fl_source = source, fl_phase = phase, fl_status = OBSERVED, fl_disposition = RECORD,
      fl_severity = ERROR, fl_summary = None, fl_details = details, fl_handled_by = None, fl_parent = None,
      fl_iteration = None, fl_step = None, fl_id = fst fresh, fl_at = snd fresh\<rparr>"

definition setdefault :: "string \<Rightarrow> pyval \<Rightarrow> dict \<Rightarrow> dict" where
  "setdefault k v d = (if map_of d k = None then dict_put k v d else d)"

definition Failure_from_exception ::
  "(pyval \<Rightarrow> string) \<Rightarrow> string \<times> string \<Rightarrow> ExceptionFacts \<Rightarrow> FailurePhase \<Rightarrow> string \<Rightarrow> FailureDisposition \<Rightarrow> dict \<Rightarrow>
   exn + Failure" where
  "Failure_from_exception show fresh x phase source disposition details =
     (let merged = dict_merge (sanitize_mapping show (case xf_details x of Some d \<Rightarrow> d | None \<Rightarrow> []))
            (sanitize_mapping show details) in
      new_failure show ((plain_failure fresh (FailureCode_from_exception x) source phase
          (setdefault ''error_type'' (VStr (xf_type x)) merged))
        \<lparr>fl_disposition := disposition, fl_summary := Some (xf_type x)\<rparr>))"

text \<open>Outcomes and records of recoveries.\<close>

record RecoveryAttempt =
  ra_failure :: string
  ra_handler :: string
  ra_succeeded :: bool
  ra_disposition :: FailureDisposition
  ra_details :: dict
  ra_error :: "string option"

definition new_attempt :: "(pyval \<Rightarrow> string) \<Rightarrow> RecoveryAttempt \<Rightarrow> RecoveryAttempt" where
  "new_attempt show a = a\<lparr>ra_details := sanitize_mapping show (ra_details a)\<rparr>"

record RecoveryResult =
  rr_succeeded :: bool
  rr_disposition :: FailureDisposition
  rr_value :: pyval
  rr_details :: dict

definition new_result :: "(pyval \<Rightarrow> string) \<Rightarrow> RecoveryResult \<Rightarrow> RecoveryResult" where
  "new_result show r = r\<lparr>rr_details := sanitize_mapping show (rr_details r)\<rparr>"

subsection \<open>What a record may hold\<close>

text \<open>A value is safe when no key in it, at any depth, names a credential and every text and collection is short.\<close>

fun safe_value :: "pyval \<Rightarrow> bool" where
  "safe_value (VDict d) \<longleftrightarrow> length d \<le> max_items \<and> list_all (\<lambda>(k, v). \<not> precise_secret_key k \<and> safe_value v) d"
| "safe_value (VList vs) \<longleftrightarrow> length vs \<le> max_items \<and> list_all safe_value vs"
| "safe_value (VStr s) \<longleftrightarrow> length s \<le> max_text"
| "safe_value (VFloat x) \<longleftrightarrow> (\<exists>r. x = Fin r)"
| "safe_value (VType n bases) \<longleftrightarrow> False"
| "safe_value (VObj n) \<longleftrightarrow> False"
| "safe_value v \<longleftrightarrow> True"

lemma sanitize_value_safe: "safe_value (sanitize_value show v)"
proof (induction "show" v rule: sanitize_value.induct)
  case (1 sh d)
  have "length (filter (\<lambda>(k, v). \<not> precise_secret_key k) (take max_items d)) \<le> max_items"
    by (rule order_trans [OF length_filter_le]) simp
  then show ?case using 1 by (auto simp: list_all_iff)
qed (simp_all add: list_all_iff max_text_def)

lemma sanitize_value_fixed: "safe_value v \<Longrightarrow> sanitize_value show v = v"
proof (induction v rule: safe_value.induct)
  case (1 d)
  then have "filter (\<lambda>(k, v). \<not> precise_secret_key k) d = d"
    by (intro filter_True) (auto simp: list_all_iff)
  with 1 show ?case by (auto simp: list_all_iff intro!: map_idI)
next
  case (2 vs)
  then show ?case by (auto simp: list_all_iff intro!: map_idI)
qed auto

lemma sanitize_mapping_value: "VDict (sanitize_mapping show d) = sanitize_value show (VDict d)"
  by (simp add: sanitize_mapping_def)

definition safe_details :: "dict \<Rightarrow> bool" where
  "safe_details d \<longleftrightarrow> safe_value (VDict d)"

lemma sanitize_mapping_safe [simp]: "safe_details (sanitize_mapping show d)"
  unfolding safe_details_def sanitize_mapping_value by (rule sanitize_value_safe)

lemma sanitize_mapping_fixed: "safe_details d \<Longrightarrow> sanitize_mapping show d = d"
  using sanitize_value_fixed [of "VDict d" "show"] unfolding safe_details_def by (simp add: sanitize_mapping_def)

definition failure_ok :: "Failure \<Rightarrow> bool" where
  "failure_ok f \<longleftrightarrow> fl_code f \<in> set failure_codes \<and> fl_source f \<noteq> [] \<and> strip (fl_source f) = fl_source f \<and>
     safe_details (fl_details f) \<and> (\<forall>s. fl_summary f = Some s \<longrightarrow> length s \<le> max_text) \<and>
     (\<forall>n. fl_iteration f = Some n \<longrightarrow> 0 \<le> n)"

lemma new_failure_ok: "new_failure show f = Inr g \<Longrightarrow> failure_ok g"
  by (auto simp: new_failure_def failure_ok_def FailureCode_from_value_def bindE_Inr_iff strip_strip
      split: if_splits option.splits sum.splits)

lemma new_failure_id: "new_failure show f = Inr g \<Longrightarrow> fl_id g = fl_id f"
  by (auto simp: new_failure_def bindE_Inr_iff split: if_splits sum.splits)

lemma new_failure_fixed:
  assumes "failure_ok f"
  shows "new_failure show f = Inr f"
proof -
  have "map_option (take max_text) (fl_summary f) = fl_summary f"
    using assms by (cases "fl_summary f") (simp_all add: failure_ok_def)
  then show ?thesis
    using assms by (auto simp: new_failure_def failure_ok_def FailureCode_from_value_def sanitize_mapping_fixed
        split: option.splits)
qed

end
