(* ===== verification/FR_Router.thy ===== *)
theory FR_Router
  imports FR_Failure
begin

text \<open>
  The failure router of a session (\<^verbatim>\<open>sessions/failure/router.py\<close>) with its rules
  (\<^verbatim>\<open>sessions/failure/rules.py\<close>): a bounded ledger of failures, the handlers bound to their codes,
  and the one pass of each failure through its handler.  Handlers and rules are callbacks of the user,
  which may call the router again; they are functions on its state.
\<close>

subsection \<open>State\<close>

record RecoveryHandler =
  rh_callback :: nat
  rh_callable :: bool
  rh_name :: string
  rh_on_error :: "string option"

record RecoveryBinding =
  rb_handler :: RecoveryHandler
  rb_include_recovered :: bool

record FailureRule =
  ru_callback :: nat
  ru_code :: string
  ru_on :: string
  ru_on_match :: FailureDisposition
  ru_on_error :: RuleErrorMode
  ru_priority :: int
  ru_name :: string

text \<open>
  \<open>fr_tags\<close> is the attribute the router puts on exception objects, \<open>fr_draws\<close> counts the ids drawn so far,
  \<open>fr_world\<close> is what the callbacks share.
\<close>

record 'w Router =
  fr_max_history :: int
  fr_enabled :: bool
  fr_history :: "Failure list"
  fr_rules :: "FailureRule list"
  fr_bindings :: "(string \<times> RecoveryBinding) list"
  fr_attempts :: "RecoveryAttempt list"
  fr_routed :: "string set"
  fr_recovering :: "string set"
  fr_tags :: "(nat \<times> string list) list"
  fr_draws :: nat
  fr_world :: 'w

datatype handler_answer = Recovered RecoveryResult | OtherAnswer string

datatype rule_answer = NoFailure | Found Failure | OtherFinding string

text \<open>An exception object: what the vocabulary reads of it, its explicit cause, the failure a
  \<^verbatim>\<open>FailureRaisedError\<close> carries, and whether it takes new attributes.\<close>

record ExceptionObject =
  eo_facts :: ExceptionFacts
  eo_cause :: "nat option"
  eo_failure :: "string option"
  eo_taggable :: bool

record ('w, 'c) Callbacks =
  cb_recover :: "nat \<Rightarrow> Failure \<Rightarrow> ('w Router, exn, handler_answer) sem"
  cb_rule :: "nat \<Rightarrow> 'c \<Rightarrow> ('w Router, exn, rule_answer) sem"
  cb_capture :: "(Failure \<Rightarrow> exn option) option"
  cb_show :: "pyval \<Rightarrow> string"
  cb_fresh :: "nat \<Rightarrow> string \<times> string"
  cb_exceptions :: "(nat \<times> ExceptionObject) list"

definition new_router :: "int \<Rightarrow> bool \<Rightarrow> 'w \<Rightarrow> exn + 'w Router" where
  "new_router max_history enabled w =
     (if max_history \<le> 0 then Inl (ValueError ''FailureRouter.max_history must be greater than zero.'')
      else Inr \<lparr>fr_max_history = max_history, fr_enabled = enabled, fr_history = [], fr_rules = [], fr_bindings = [],
        fr_attempts = [], fr_routed = {}, fr_recovering = {}, fr_tags = [], fr_draws = 0, fr_world = w\<rparr>)"

definition failure_raised :: "Failure \<Rightarrow> exn" where
  "failure_raised f = Exn ''FailureRaisedError'' [''VidbyteSdkError'', ''Exception'', ''BaseException''] (fl_code f)"

subsection \<open>The ledger\<close>

definition latest_of :: "int \<Rightarrow> 'a list \<Rightarrow> 'a list" where
  "latest_of n xs = drop (length xs - nat n) xs"

definition recorded :: "Failure \<Rightarrow> 'w Router \<Rightarrow> 'w Router" where
  "recorded f s =
     (let all = fr_history s @ [f];
          routed = (if fr_recovering s \<noteq> {} then insert (fl_id f) (fr_routed s) else fr_routed s);
          evicted = take (length all - nat (fr_max_history s)) all in
      s\<lparr>fr_history := latest_of (fr_max_history s) all, fr_routed := routed - set (map fl_id evicted)\<rparr>)"

definition record_failure :: "('w, 'c) Callbacks \<Rightarrow> Failure \<Rightarrow> ('w Router, exn, Failure) sem" where
  "record_failure cb f s =
     (if \<not> fr_enabled s then (Inr f, s)
      else case Option.bind (cb_capture cb) (\<lambda>hook. hook f) of
        None \<Rightarrow> (Inr f, recorded f s)
      | Some e \<Rightarrow> if exn_isinstance e [''Exception''] then (Inr f, recorded f s) else (Inl e, recorded f s))"

definition draw :: "('w, 'c) Callbacks \<Rightarrow> ('w Router, exn, string \<times> string) sem" where
  "draw cb = bindM (getM fr_draws) (\<lambda>n. bindM (updM (\<lambda>s. s\<lparr>fr_draws := Suc n\<rparr>)) (\<lambda>_. returnM (cb_fresh cb n)))"

definition emit ::
  "('w, 'c) Callbacks \<Rightarrow> string \<Rightarrow> FailurePhase \<Rightarrow> string \<Rightarrow> FailureStatus \<Rightarrow> FailureDisposition \<Rightarrow> dict \<Rightarrow>
   ('w Router, exn, Failure) sem" where
  "emit cb code phase source status disposition details =
     bindM (draw cb) (\<lambda>fresh.
     bindM (liftE (\<lambda>e. e) (new_failure (cb_show cb)
       ((plain_failure fresh code source phase details)\<lparr>fl_status := status, fl_disposition := disposition\<rparr>)))
       (record_failure cb))"

definition history_of :: "string option \<Rightarrow> FailureStatus option \<Rightarrow> 'w Router \<Rightarrow> Failure list" where
  "history_of code status s =
     filter (\<lambda>f. (code = None \<or> code = Some (fl_code f)) \<and> (status = None \<or> status = Some (fl_status f))) (fr_history s)"

fun replace_first :: "Failure \<Rightarrow> Failure list \<Rightarrow> Failure list option" where
  "replace_first f [] = None"
| "replace_first f (g # gs) =
     (if fl_id g = fl_id f then Some (f # gs) else map_option ((#) g) (replace_first f gs))"

definition replace_failure :: "('w, 'c) Callbacks \<Rightarrow> Failure \<Rightarrow> ('w Router, exn, unit) sem" where
  "replace_failure cb f s =
     (case replace_first f (fr_history s) of
        Some h \<Rightarrow> (Inr (), s\<lparr>fr_history := h\<rparr>)
      | None \<Rightarrow> bindM (record_failure cb f) (\<lambda>_. updM (\<lambda>t. t\<lparr>fr_routed := insert (fl_id f) (fr_routed t)\<rparr>)) s)"

subsection \<open>Rules and bindings\<close>

definition add_rule :: "FailureRule \<Rightarrow> 'w Router \<Rightarrow> 'w Router" where
  "add_rule r s =
     (if list_ex (\<lambda>x. ru_callback x = ru_callback r) (fr_rules s) then s
      else s\<lparr>fr_rules := sort_key (\<lambda>x. - ru_priority x) (fr_rules s @ [r])\<rparr>)"

definition remove_rule :: "nat \<Rightarrow> 'w Router \<Rightarrow> 'w Router" where
  "remove_rule callback s = s\<lparr>fr_rules := filter (\<lambda>x. ru_callback x \<noteq> callback) (fr_rules s)\<rparr>"

definition on_failure :: "string \<Rightarrow> RecoveryHandler \<Rightarrow> bool \<Rightarrow> ('w Router, exn, unit) sem" where
  "on_failure code recovery include_recovered =
     bindM (liftE (\<lambda>e. e) (FailureCode_from_value code)) (\<lambda>resolved.
     if \<not> rh_callable recovery then throwM (TypeError ''FailureRouter.on requires a recovery handler with recover().'')
     else updM (\<lambda>s. s\<lparr>fr_bindings :=
       dict_put resolved \<lparr>rb_handler = recovery, rb_include_recovered = include_recovered\<rparr> (fr_bindings s)\<rparr>))"

subsection \<open>Routing\<close>

definition handler_error_mode :: "RecoveryHandler \<Rightarrow> RuleErrorMode" where
  "handler_error_mode h = (if rh_on_error h = Some ''open'' then OPEN else CLOSED)"

definition add_attempt :: "('w, 'c) Callbacks \<Rightarrow> RecoveryAttempt \<Rightarrow> ('w Router, exn, unit) sem" where
  "add_attempt cb a =
     updM (\<lambda>s. s\<lparr>fr_attempts := latest_of (fr_max_history s) (fr_attempts s @ [new_attempt (cb_show cb) a])\<rparr>)"

text \<open>A record made from another one is checked and cleaned again, then takes its place.\<close>

definition put_failure :: "('w, 'c) Callbacks \<Rightarrow> Failure \<Rightarrow> ('w Router, exn, unit) sem" where
  "put_failure cb f = bindM (liftE (\<lambda>e. e) (new_failure (cb_show cb) f)) (replace_failure cb)"

definition handle_recovery_error ::
  "('w, 'c) Callbacks \<Rightarrow> Failure \<Rightarrow> RecoveryBinding \<Rightarrow> exn \<Rightarrow> ('w Router, exn, RecoveryResult option) sem" where
  "handle_recovery_error cb f binding e =
     (let h = rb_handler binding; closed_mode = (handler_error_mode h = CLOSED) in
      bindM (emit cb ''recovery.handler_failed'' RECOVERY (rh_name h) (if closed_mode then TERMINAL else OBSERVED)
        (if closed_mode then RAISE else CONTINUE)
        [(''failure_id'', VStr (fl_id f)), (''error_type'', VStr (exn_type e))]) (\<lambda>hf.
      bindM (add_attempt cb \<lparr>ra_failure = fl_id f, ra_handler = rh_name h, ra_succeeded = False,
        ra_disposition = fl_disposition hf, ra_details = fl_details hf, ra_error = Some (exn_type e)\<rparr>) (\<lambda>_.
      bindM (put_failure cb (f\<lparr>fl_status := (if closed_mode then TERMINAL else EXHAUSTED),
        fl_disposition := fl_disposition hf, fl_details := dict_merge (fl_details f) (fl_details hf),
        fl_handled_by := Some (rh_name h)\<rparr>)) (\<lambda>_.
      if closed_mode then throwM (failure_raised hf)
      else returnM (Some (new_result (cb_show cb) \<lparr>rr_succeeded = False, rr_disposition = CONTINUE, rr_value = VNone,
        rr_details = [(''error_type'', VStr (exn_type e))]\<rparr>))))))"

definition call_handler ::
  "('w, 'c) Callbacks \<Rightarrow> RecoveryHandler \<Rightarrow> Failure \<Rightarrow> ('w Router, exn, RecoveryResult) sem" where
  "call_handler cb h f s =
     (case cb_recover cb (rh_callback h) f (s\<lparr>fr_recovering := insert (fl_id f) (fr_recovering s)\<rparr>) of
        (answer, t) \<Rightarrow>
          (case answer of
             Inl e \<Rightarrow> Inl e
           | Inr (Recovered r) \<Rightarrow> Inr r
           | Inr (OtherAnswer n) \<Rightarrow> Inl (TypeError (''Recovery handler '' @ quoted (rh_name h) @
               '' must return RecoveryResult, got '' @ n @ ''.'')),
           t\<lparr>fr_recovering := fr_recovering t - {fl_id f}\<rparr>))"

definition settle ::
  "('w, 'c) Callbacks \<Rightarrow> Failure \<Rightarrow> Failure \<Rightarrow> RecoveryBinding \<Rightarrow> exn + RecoveryResult \<Rightarrow>
   ('w Router, exn, RecoveryResult option) sem" where
  "settle cb f recovering binding answer =
     (let name = rh_name (rb_handler binding) in
      case answer of
        Inl e \<Rightarrow>
          if exn_isinstance e [''FailureRaisedError'']
          then bindM (put_failure cb (f\<lparr>fl_status := TERMINAL, fl_disposition := RAISE, fl_handled_by := Some name\<rparr>))
            (\<lambda>_. throwM e)
          else if exn_isinstance e [''Exception''] then handle_recovery_error cb recovering binding e
          else throwM e
      | Inr r \<Rightarrow>
          bindM (add_attempt cb \<lparr>ra_failure = fl_id f, ra_handler = name, ra_succeeded = rr_succeeded r,
            ra_disposition = rr_disposition r, ra_details = rr_details r, ra_error = None\<rparr>) (\<lambda>_.
          bindM (put_failure cb (f\<lparr>fl_status := (if rr_succeeded r then RECOVERED else EXHAUSTED),
            fl_disposition := rr_disposition r, fl_details := dict_merge (fl_details f) (rr_details r),
            fl_handled_by := Some name\<rparr>)) (\<lambda>_.
          returnM (Some r))))"

definition begin_route :: "('w, 'c) Callbacks \<Rightarrow> Failure \<Rightarrow> RecoveryBinding \<Rightarrow> ('w Router, exn, Failure) sem" where
  "begin_route cb f binding =
     bindM (updM (\<lambda>s. s\<lparr>fr_routed := insert (fl_id f) (fr_routed s)\<rparr>)) (\<lambda>_.
     bindM (liftE (\<lambda>e. e) (new_failure (cb_show cb)
       (f\<lparr>fl_status := RECOVERING, fl_handled_by := Some (rh_name (rb_handler binding))\<rparr>))) (\<lambda>recovering.
     bindM (replace_failure cb recovering) (\<lambda>_. returnM recovering)))"

definition binding_for :: "Failure \<Rightarrow> 'w Router \<Rightarrow> RecoveryBinding option" where
  "binding_for f s =
     (if \<not> fr_enabled s then None
      else case map_of (fr_bindings s) (fl_code f) of
        None \<Rightarrow> None
      | Some b \<Rightarrow>
          if fl_status f = RECOVERED \<and> \<not> rb_include_recovered b then None
          else if fl_id f \<in> fr_routed s then None
          else Some b)"

definition route :: "('w, 'c) Callbacks \<Rightarrow> Failure \<Rightarrow> ('w Router, exn, RecoveryResult option) sem" where
  "route cb f =
     bindM (getM (binding_for f)) (\<lambda>found.
     case found of
       None \<Rightarrow> returnM None
     | Some binding \<Rightarrow>
         bindM (begin_route cb f binding) (\<lambda>recovering.
         (\<lambda>s. case call_handler cb (rb_handler binding) recovering s of
            (answer, t) \<Rightarrow> settle cb f recovering binding answer t)))"

definition eligible :: "Failure \<Rightarrow> bool" where
  "eligible f \<longleftrightarrow> fl_status f = EXHAUSTED \<or> fl_disposition f = ROUTE"

definition ledger_ids :: "'w Router \<Rightarrow> string set" where
  "ledger_ids s = set (map fl_id (fr_history s))"

fun route_each ::
  "('w, 'c) Callbacks \<Rightarrow> string set \<Rightarrow> Failure list \<Rightarrow> RecoveryResult list \<Rightarrow> ('w Router, exn, RecoveryResult list) sem" where
  "route_each cb live [] results = returnM results"
| "route_each cb live (f # fs) results =
     bindM (getM fr_routed) (\<lambda>routed.
     if \<not> eligible f \<or> fl_id f \<in> routed \<or> fl_id f \<notin> live then route_each cb live fs results
     else
       bindM (route cb f) (\<lambda>r.
       case r of
         None \<Rightarrow> route_each cb live fs results
       | Some x \<Rightarrow> bindM (getM ledger_ids) (\<lambda>now_live. route_each cb now_live fs (results @ [x]))))"

definition route_pending :: "('w, 'c) Callbacks \<Rightarrow> ('w Router, exn, RecoveryResult list) sem" where
  "route_pending cb =
     bindM (getM (\<lambda>s. s)) (\<lambda>s.
     if \<not> fr_enabled s then returnM [] else route_each cb (ledger_ids s) (fr_history s) [])"

subsection \<open>Rules\<close>

definition invoke :: "('w, 'c) Callbacks \<Rightarrow> FailureRule \<Rightarrow> 'c \<Rightarrow> ('w Router, exn, Failure option) sem" where
  "invoke cb r ctx =
     bindM (cb_rule cb (ru_callback r) ctx) (\<lambda>value.
     case value of
       NoFailure \<Rightarrow> returnM None
     | OtherFinding n \<Rightarrow> throwM (TypeError (''Failure rule '' @ quoted (ru_name r) @
         '' must return Failure or None, got '' @ n @ ''.''))
     | Found f \<Rightarrow>
         if fl_code f \<noteq> ru_code r
         then liftE (\<lambda>e. e) (map_sum id Some (new_failure (cb_show cb) (f\<lparr>fl_code := ru_code r\<rparr>)))
         else returnM (Some f))"

definition rule_error :: "string \<times> string \<Rightarrow> FailureRule \<Rightarrow> exn \<Rightarrow> Failure" where
  "rule_error fresh r e =
     (let closed_mode = (ru_on_error r = CLOSED) in
      (plain_failure fresh ''rule.evaluation_failed'' (ru_name r) RUNTIME
         [(''rule'', VStr (ru_name r)), (''hook'', VStr (ru_on r)), (''error_type'', VStr (exn_type e))])
      \<lparr>fl_status := (if closed_mode then TERMINAL else OBSERVED),
       fl_disposition := (if closed_mode then (if ru_on_match r = RAISE then RAISE else STOP) else CONTINUE)\<rparr>)"

definition invoke_rule :: "('w, 'c) Callbacks \<Rightarrow> FailureRule \<Rightarrow> 'c \<Rightarrow> ('w Router, exn, Failure option) sem" where
  "invoke_rule cb r ctx s =
     (case invoke cb r ctx s of
        (Inr v, t) \<Rightarrow> (Inr v, t)
      | (Inl e, t) \<Rightarrow>
          if \<not> exn_isinstance e [''Exception''] then (Inl e, t)
          else
            bindM (draw cb) (\<lambda>fresh.
            bindM (liftE (\<lambda>e. e) (new_failure (cb_show cb) (rule_error fresh r e))) (\<lambda>f.
            bindM (record_failure cb f) (\<lambda>_.
            if ru_on_error r = CLOSED \<and> fl_disposition f = RAISE then throwM (failure_raised f)
            else returnM (if ru_on_error r = CLOSED then Some f else None)))) t)"

definition with_rule_disposition :: "Failure \<Rightarrow> FailureRule \<Rightarrow> Failure" where
  "with_rule_disposition f r =
     f\<lparr>fl_code := ru_code r,
       fl_status := (if ru_on_match r = STOP \<or> ru_on_match r = RAISE then TERMINAL
         else if ru_on_match r = ROUTE then EXHAUSTED else fl_status f),
       fl_disposition := ru_on_match r\<rparr>"

definition last_with :: "string \<Rightarrow> Failure \<Rightarrow> Failure list \<Rightarrow> Failure" where
  "last_with i d h = (case filter (\<lambda>f. fl_id f = i) (rev h) of [] \<Rightarrow> d | f # _ \<Rightarrow> f)"

text \<open>The failure to report for a matched rule, and whether the hook stops there.\<close>

definition apply_rule_disposition :: "('w, 'c) Callbacks \<Rightarrow> Failure \<Rightarrow> ('w Router, exn, Failure \<times> bool) sem" where
  "apply_rule_disposition cb f =
     (if fl_disposition f = ROUTE
      then bindM (route cb f) (\<lambda>_. bindM (getM fr_history) (\<lambda>h. returnM (last_with (fl_id f) f h, False)))
      else if fl_disposition f = RAISE then throwM (failure_raised f)
      else returnM (f, fl_disposition f = STOP))"

fun evaluate_rules ::
  "('w, 'c) Callbacks \<Rightarrow> string \<Rightarrow> 'c \<Rightarrow> FailureRule list \<Rightarrow> Failure list \<Rightarrow> ('w Router, exn, Failure list) sem" where
  "evaluate_rules cb hook ctx [] matched = returnM matched"
| "evaluate_rules cb hook ctx (r # rs) matched =
     (if ru_on r \<noteq> hook then evaluate_rules cb hook ctx rs matched
      else
        bindM (invoke_rule cb r ctx) (\<lambda>found.
        case found of
          None \<Rightarrow> evaluate_rules cb hook ctx rs matched
        | Some f \<Rightarrow>
            if fl_code f = ''rule.evaluation_failed'' then returnM (matched @ [f])
            else
              bindM (liftE (\<lambda>e. e) (new_failure (cb_show cb) (with_rule_disposition f r))) (\<lambda>effective.
              bindM (record_failure cb effective) (\<lambda>_.
              bindM (apply_rule_disposition cb effective) (\<lambda>(reported, should_stop).
              if should_stop then returnM (matched @ [reported])
              else evaluate_rules cb hook ctx rs (matched @ [reported]))))))"

definition evaluate :: "('w, 'c) Callbacks \<Rightarrow> string \<Rightarrow> 'c \<Rightarrow> ('w Router, exn, Failure list) sem" where
  "evaluate cb hook ctx =
     bindM (getM (\<lambda>s. s)) (\<lambda>s. if \<not> fr_enabled s then returnM [] else evaluate_rules cb hook ctx (fr_rules s) [])"

subsection \<open>Exceptions\<close>

definition object_of :: "('w, 'c) Callbacks \<Rightarrow> nat \<Rightarrow> ExceptionObject" where
  "object_of cb e =
     (case map_of (cb_exceptions cb) e of
        Some x \<Rightarrow> x
      | None \<Rightarrow> \<lparr>eo_facts = \<lparr>xf_type = ''Exception'', xf_module = ''builtins'', xf_declared = None, xf_status = VNone,
          xf_details = None\<rparr>, eo_cause = None, eo_failure = None, eo_taggable = True\<rparr>)"

definition tags_of :: "(nat \<times> string list) list \<Rightarrow> nat \<Rightarrow> string list" where
  "tags_of tags e = (case map_of tags e of Some ids \<Rightarrow> ids | None \<Rightarrow> [])"

text \<open>The walk along the explicit causes keeps the objects it has seen, as a chain may be cyclic.\<close>

function tagged_failure_ids ::
  "(nat \<times> ExceptionObject) list \<Rightarrow> (nat \<times> string list) list \<Rightarrow> nat list \<Rightarrow> nat option \<Rightarrow> string list" where
  "tagged_failure_ids objects tags seen None = []"
| "tagged_failure_ids objects tags seen (Some e) =
     (if List.member seen e then []
      else tags_of tags e @
        (case map_of objects e of
           None \<Rightarrow> []
         | Some x \<Rightarrow> tagged_failure_ids objects tags (e # seen) (eo_cause x)))"
  by pat_completeness auto
termination
proof (relation "measure (\<lambda>(objects, tags, seen, e). card (fst ` set objects - set seen))"; clarsimp)
  fix objects :: "(nat \<times> ExceptionObject) list" and seen :: "nat list" and e :: nat and x
  assume "e \<notin> set seen" and "map_of objects e = Some x"
  then have e: "e \<in> fst ` set objects - set seen" by (auto dest!: map_of_SomeD intro: rev_image_eqI)
  moreover have "fst ` set objects - insert e (set seen) = (fst ` set objects - set seen) - {e}" by auto
  ultimately show "card (fst ` set objects - insert e (set seen)) < card (fst ` set objects - set seen)"
    by (metis List.finite_set card_Diff1_less finite_Diff finite_imageI)
qed

definition find_latest :: "(Failure \<Rightarrow> bool) \<Rightarrow> Failure list \<Rightarrow> Failure option" where
  "find_latest P h = find P (rev h)"

definition tag_exception :: "('w, 'c) Callbacks \<Rightarrow> nat \<Rightarrow> string \<Rightarrow> 'w Router \<Rightarrow> 'w Router" where
  "tag_exception cb e i s =
     (if eo_taggable (object_of cb e) then s\<lparr>fr_tags := dict_put e (tags_of (fr_tags s) e @ [i]) (fr_tags s)\<rparr> else s)"

definition capture_exception ::
  "('w, 'c) Callbacks \<Rightarrow> nat \<Rightarrow> FailurePhase \<Rightarrow> string \<Rightarrow> ('w Router, exn, Failure) sem" where
  "capture_exception cb e phase source =
     bindM (getM (\<lambda>s. s)) (\<lambda>s.
     case Option.bind (eo_failure (object_of cb e)) (\<lambda>i. find_latest (\<lambda>f. fl_id f = i) (fr_history s)) of
       Some f \<Rightarrow> returnM f
     | None \<Rightarrow>
         (let tagged = tagged_failure_ids (cb_exceptions cb) (fr_tags s) [] (Some e) in
          case find_latest (\<lambda>f. List.member tagged (fl_id f)) (fr_history s) of
            Some f \<Rightarrow> returnM f
          | None \<Rightarrow>
              bindM (draw cb) (\<lambda>fresh.
              bindM (liftE (\<lambda>e. e)
                (Failure_from_exception (cb_show cb) fresh (eo_facts (object_of cb e)) phase source ROUTE [])) (\<lambda>f.
              bindM (record_failure cb f) (\<lambda>g.
              bindM (updM (tag_exception cb e (fl_id g))) (\<lambda>_.
              returnM g))))))"

subsection \<open>The invariant of the ledger\<close>

definition drawn :: "('w, 'c) Callbacks \<Rightarrow> 'w Router \<Rightarrow> string set" where
  "drawn cb s = (\<lambda>n. fst (cb_fresh cb n)) ` {..<fr_draws s}"

text \<open>
  The ledger is bounded, holds checked records with ids of their own, and marks as routed only what it
  holds.  \<open>H\<close> are the ids a handler has already been called with: while the ledger holds them they are marked.
\<close>

definition ledger_ok :: "'w Router \<Rightarrow> bool" where
  "ledger_ok s \<longleftrightarrow> 1 \<le> fr_max_history s \<and> int (length (fr_history s)) \<le> fr_max_history s \<and>
     int (length (fr_attempts s)) \<le> fr_max_history s \<and> list_all failure_ok (fr_history s) \<and>
     distinct (map fl_id (fr_history s)) \<and> fr_routed s \<subseteq> ledger_ids s"

definition routed_once :: "('w, 'c) Callbacks \<Rightarrow> string set \<Rightarrow> 'w Router \<Rightarrow> bool" where
  "routed_once cb H s \<longleftrightarrow> ledger_ok s \<and> ledger_ids s \<subseteq> drawn cb s \<and> H \<union> fr_recovering s \<subseteq> drawn cb s \<and>
     (H \<union> fr_recovering s) \<inter> ledger_ids s \<subseteq> fr_routed s"

definition unmarked :: "'w Router \<Rightarrow> string set" where
  "unmarked s = ledger_ids s - fr_routed s"

lemma latest_of_length: "0 \<le> n \<Longrightarrow> int (length (latest_of n xs)) \<le> n"
  by (auto simp: latest_of_def)

lemma recorded_history: "fr_history (recorded f s) = latest_of (fr_max_history s) (fr_history s @ [f])"
  by (simp add: recorded_def Let_def)

lemma recorded_same [simp]:
  "fr_max_history (recorded f s) = fr_max_history s" "fr_enabled (recorded f s) = fr_enabled s"
  "fr_attempts (recorded f s) = fr_attempts s" "fr_recovering (recorded f s) = fr_recovering s"
  "fr_draws (recorded f s) = fr_draws s" "fr_bindings (recorded f s) = fr_bindings s"
  by (simp_all add: recorded_def Let_def)

lemma recorded_ids:
  assumes s: "ledger_ok s" and new: "fl_id f \<notin> ledger_ids s"
  shows "fl_id f \<in> ledger_ids (recorded f s)" and "ledger_ids (recorded f s) \<subseteq> insert (fl_id f) (ledger_ids s)"
    and "fr_routed (recorded f s) = (if fr_recovering s \<noteq> {} then insert (fl_id f) (fr_routed s) else fr_routed s)
       \<inter> ledger_ids (recorded f s)"
    and "distinct (map fl_id (fr_history (recorded f s)))"
proof -
  define all where "all = fr_history s @ [f]"
  define k where "k = length all - nat (fr_max_history s)"
  have h: "fr_history (recorded f s) = drop k all" by (simp add: recorded_history latest_of_def k_def all_def)
  have ids: "ledger_ids (recorded f s) = set (map fl_id (drop k all))" by (simp add: ledger_ids_def h)
  have d: "distinct (map fl_id all)" using s new by (simp add: all_def ledger_ok_def ledger_ids_def)
  show "distinct (map fl_id (fr_history (recorded f s)))" using d by (simp add: h drop_map [symmetric])
  have k: "k < length all" using s by (simp add: k_def ledger_ok_def all_def)
  then have "last all \<in> set (drop k all)" by (metis drop_eq_Nil last_drop last_in_set leD)
  then show "fl_id f \<in> ledger_ids (recorded f s)" by (auto simp: ids all_def simp del: drop_append)
  have "set (drop k all) \<subseteq> insert f (set (fr_history s))" using set_drop_subset [of k all] by (auto simp: all_def)
  then show "ledger_ids (recorded f s) \<subseteq> insert (fl_id f) (ledger_ids s)" unfolding ids by (auto simp: ledger_ids_def)
  have split: "set (map fl_id (take k all)) \<inter> set (map fl_id (drop k all)) = {}"
      "set (map fl_id all) = set (map fl_id (take k all)) \<union> set (map fl_id (drop k all))"
    using d by (metis append_take_drop_id distinct_append map_append, metis append_take_drop_id map_append set_append)
  define R where "R = (if fr_recovering s \<noteq> {} then insert (fl_id f) (fr_routed s) else fr_routed s)"
  have "R \<subseteq> set (map fl_id all)" using s by (auto simp: R_def ledger_ok_def ledger_ids_def all_def)
  then have "R - set (map fl_id (take k all)) = R \<inter> set (map fl_id (drop k all))" using split by auto
  moreover have "fr_routed (recorded f s) = R - set (map fl_id (take k all))"
    unfolding recorded_def Let_def R_def k_def all_def by simp
  ultimately show "fr_routed (recorded f s) = (if fr_recovering s \<noteq> {} then insert (fl_id f) (fr_routed s) else fr_routed s)
       \<inter> ledger_ids (recorded f s)"
    by (simp only: ids R_def)
qed

lemma recorded_ledger_ok:
  assumes "ledger_ok s" and "fl_id f \<notin> ledger_ids s" and "failure_ok f"
  shows "ledger_ok (recorded f s)"
proof -
  have "list_all failure_ok (fr_history (recorded f s))"
    using assms set_drop_subset [of _ "fr_history s @ [f]"]
    by (auto simp: recorded_history latest_of_def ledger_ok_def list_all_iff dest!: in_set_dropD)
  moreover have "int (length (fr_history (recorded f s))) \<le> fr_max_history s"
    unfolding recorded_history using assms(1) by (intro latest_of_length) (simp add: ledger_ok_def)
  ultimately show ?thesis
    using assms recorded_ids [OF assms(1,2)] by (simp add: ledger_ok_def)
qed

end
