(* ===== verification/FR_Reply.thy ===== *)
theory FR_Reply
  imports FR_Router MW_Retry
begin

text \<open>
  The failures a finished reply tells of (\<open>FailureMetadataNormalizer\<close> of
  \<^verbatim>\<open>sessions/failure/router.py\<close>), their capture, and the middleware that evaluates the rules of a
  session (\<^verbatim>\<open>middleware/builtins/session_failure_router.py\<close>).  Objects inside the metadata of a
  reply are given by what the code reads of them; \<open>show\<close> is the text of a value that is no string.
\<close>

subsection \<open>The metadata of a reply\<close>

datatype failure_item = GivenFailure Failure | GivenMapping dict | OtherItem

text \<open>
  The values of the metadata, and of the entries that hold objects: the list of failures, the texts of the
  states of the tool calls and the metadata of their results, when they are lists, and the mark on the
  usage object.
\<close>

record ReplyMetadata =
  rm_values :: dict
  rm_failures :: "failure_item list option"
  rm_states :: "string list option"
  rm_calls :: "dict option list option"
  rm_corrupted :: bool

definition str_get :: "(pyval \<Rightarrow> string) \<Rightarrow> dict \<Rightarrow> string \<Rightarrow> string \<Rightarrow> string" where
  "str_get show d k fallback = (case map_of d k of None \<Rightarrow> fallback | v \<Rightarrow> text_of show v)"

definition value_get :: "dict \<Rightarrow> string \<Rightarrow> pyval" where
  "value_get d k = (case map_of d k of None \<Rightarrow> VNone | Some v \<Rightarrow> v)"

definition stop_codes :: "(string \<times> string) list" where
  "stop_codes =
    [(''max_iterations'', ''runtime.max_iterations''), (''max_tokens'', ''runtime.max_tokens''),
     (''max_tool_calls'', ''runtime.max_tool_calls''), (''max_calls_per_iteration'', ''tool.calls_per_iteration_limit''),
     (''max_identical_calls'', ''tool.identical_call_limit''),
     (''max_consecutive_failures'', ''tool.consecutive_failure_limit''), (''max_error_calls'', ''tool.error_limit''),
     (''sliding_window_max_calls'', ''tool.sliding_window_limit''), (''tool_settings_denied'', ''tool.permission_denied''),
     (''tool_loop_limit'', ''tool.loop_limit''), (''timeout'', ''runtime.timeout''), (''max_spend'', ''resource.exhausted''),
     (''middleware_abort'', ''runtime.middleware_abort''), (''contract_unsatisfied'', ''contract.unsatisfied''),
     (''error'', ''runtime.error'')]"

definition tool_error_codes :: "(string \<times> string) list" where
  "tool_error_codes =
    [(''unknown_tool'', ''tool.not_found''), (''permission_denied'', ''tool.permission_denied''),
     (''middleware_denied'', ''tool.permission_denied''), (''tool_settings_denied'', ''tool.permission_denied''),
     (''tool_settings_max_calls_per_tool'', ''tool.permission_denied''), (''allowed_tools_denied'', ''tool.permission_denied''),
     (''timeout'', ''tool.timeout''), (''validation_error'', ''tool.arguments_invalid''),
     (''invalid_arguments'', ''tool.arguments_invalid''), (''output_schema_violation'', ''tool.result_invalid''),
     (''missing_result'', ''tool.result_missing''), (''execution_error'', ''tool.execution_failed''),
     (''mcp_error'', ''data.source_unavailable'')]"

text \<open>
  Each part of the normalizer appends to the failures found so far.  A failure it constructs takes the id that is
  drawn for its place.
\<close>

type_synonym appender = "Failure list \<Rightarrow> exn + Failure list"

record Normalizer =
  nz_show :: "pyval \<Rightarrow> string"
  nz_fresh :: "nat \<Rightarrow> string \<times> string"
  nz_meta :: ReplyMetadata

definition append_failure :: "Normalizer \<Rightarrow> (string \<times> string \<Rightarrow> Failure) \<Rightarrow> appender" where
  "append_failure nz build fs =
     bindE (new_failure (nz_show nz) (build (nz_fresh nz (length fs)))) (\<lambda>f. Inr (fs @ [f]))"

definition explicit_failure :: "Normalizer \<Rightarrow> string \<times> string \<Rightarrow> dict \<Rightarrow> exn + Failure" where
  "explicit_failure nz fresh d =
     (let show = nz_show nz in
      bindE (FailurePhase_of (str_get show d ''phase'' ''runtime'')) (\<lambda>phase.
      bindE (FailureStatus_of (str_get show d ''status'' ''observed'')) (\<lambda>status.
      bindE (FailureDisposition_of (str_get show d ''disposition'' ''record'')) (\<lambda>disposition.
      new_failure show ((plain_failure fresh (str_get show d ''code'' []) (str_get show d ''source'' ''runtime'') phase
          (case map_of d ''details'' of Some (VDict x) \<Rightarrow> x | _ \<Rightarrow> []))
        \<lparr>fl_status := status, fl_disposition := disposition\<rparr>)))))"

fun append_explicit :: "Normalizer \<Rightarrow> failure_item list \<Rightarrow> Failure list \<Rightarrow> Failure list" where
  "append_explicit nz [] fs = fs"
| "append_explicit nz (GivenFailure f # items) fs = append_explicit nz items (fs @ [f])"
| "append_explicit nz (GivenMapping d # items) fs =
     (if truthy_text (nz_show nz) (map_of d ''code'') = None then append_explicit nz items fs
      else case explicit_failure nz (nz_fresh nz (length fs)) d of
        Inr f \<Rightarrow> append_explicit nz items (fs @ [f])
      | Inl e \<Rightarrow> append_explicit nz items fs)"
| "append_explicit nz (OtherItem # items) fs = append_explicit nz items fs"

definition append_explicit_failures :: "Normalizer \<Rightarrow> appender" where
  "append_explicit_failures nz fs =
     Inr (case rm_failures (nz_meta nz) of None \<Rightarrow> fs | Some items \<Rightarrow> append_explicit nz items fs)"

definition unsatisfied_rows :: "pyval \<Rightarrow> dict list" where
  "unsatisfied_rows rows =
     (case rows of
        VList xs \<Rightarrow> filter (\<lambda>d. map_of d ''satisfied'' = Some (VBool False))
          (List.map_filter (\<lambda>x. case x of VDict d \<Rightarrow> Some d | _ \<Rightarrow> None) xs)
      | _ \<Rightarrow> [])"

definition append_contract_failures :: "Normalizer \<Rightarrow> appender" where
  "append_contract_failures nz fs =
     (let values = rm_values (nz_meta nz);
          unmet = unsatisfied_rows (value_get values ''contract_evaluations'');
          stopped = (value_get values ''stop_reason'' = VStr ''contract_unsatisfied'') in
      if unmet = [] then Inr fs
      else append_failure nz (\<lambda>fresh. (plain_failure fresh ''contract.unsatisfied'' ''output_contract''
          FailurePhase.OUTPUT [(''unmet'', VList (map (\<lambda>d. VStr (str_get (nz_show nz) d ''name'' ''None'')) unmet))])
        \<lparr>fl_status := (if stopped then EXHAUSTED else OBSERVED),
         fl_disposition := (if stopped then ROUTE else RECORD)\<rparr>) fs)"

definition append_count :: "Normalizer \<Rightarrow> string \<Rightarrow> string \<Rightarrow> string \<Rightarrow> nat \<Rightarrow> appender" where
  "append_count nz code source key n fs =
     (if n = 0 then Inr fs
      else append_failure nz (\<lambda>fresh. plain_failure fresh code source FailurePhase.TOOL [(key, VInt (int n))]) fs)"

definition append_tool_failures :: "Normalizer \<Rightarrow> appender" where
  "append_tool_failures nz fs =
     (let states = (case rm_states (nz_meta nz) of None \<Rightarrow> [] | Some xs \<Rightarrow> xs) in
      bindE (append_count nz ''tool.execution_failed'' ''agent_runtime'' ''failed_calls''
        (length (filter (\<lambda>x. x = ''failed'') states)) fs) (\<lambda>gs.
      bindE (append_count nz ''tool.permission_denied'' ''agent_runtime'' ''denied_calls''
        (length (filter (\<lambda>x. x = ''denied'') states)) gs) (\<lambda>hs.
      case truthy_text (nz_show nz) (map_of (rm_values (nz_meta nz)) ''tool_settings_budget'') of
        None \<Rightarrow> Inr hs
      | Some budget \<Rightarrow>
          append_failure nz (\<lambda>fresh. (plain_failure fresh
              (case map_of stop_codes budget of Some c \<Rightarrow> c | None \<Rightarrow> ''tool.call_limit_reached'')
              ''tool_settings'' FailurePhase.TOOL [(''budget'', VStr budget)])
            \<lparr>fl_status := EXHAUSTED, fl_disposition := ROUTE\<rparr>) hs)))"

definition middleware_events :: "dict \<Rightarrow> dict list" where
  "middleware_events values =
     (let events = (case map_of values ''middleware'' of
          Some (VDict m) \<Rightarrow> value_get m ''events'' | _ \<Rightarrow> value_get values ''events'') in
      case events of
        VList xs \<Rightarrow> List.map_filter (\<lambda>x. case x of VDict d \<Rightarrow> Some d | _ \<Rightarrow> None) xs
      | _ \<Rightarrow> [])"

fun append_middleware :: "Normalizer \<Rightarrow> dict list \<Rightarrow> appender" where
  "append_middleware nz [] fs = Inr fs"
| "append_middleware nz (event # events) fs =
     (let reason = str_get (nz_show nz) event ''reason'' [] in
      if str_get (nz_show nz) event ''action'' [] \<noteq> ''abort_run'' then append_middleware nz events fs
      else
        bindE (append_failure nz (\<lambda>fresh. (plain_failure fresh
            (if reason = ''middleware_error'' then ''runtime.middleware_error'' else ''runtime.middleware_abort'')
            (str_get (nz_show nz) event ''middleware_name'' ''middleware'') FailurePhase.RUNTIME
            [(''hook'', value_get event ''hook''), (''reason'', VStr reason)])
          \<lparr>fl_status := TERMINAL, fl_disposition := FailureDisposition.STOP\<rparr>) fs)
        (append_middleware nz events))"

definition append_stop_failure :: "Normalizer \<Rightarrow> appender" where
  "append_stop_failure nz fs =
     (let values = rm_values (nz_meta nz); stop_reason = value_get values ''stop_reason'';
          reason = text_of (nz_show nz) (Some stop_reason);
          code = (case map_of stop_codes reason of Some c \<Rightarrow> c | None \<Rightarrow> ''runtime.error'');
          aborted = (code = ''runtime.middleware_abort'') in
      if stop_reason = VNone \<or> reason = ''final_response'' \<or> reason = ''is_done'' then Inr fs
      else if list_ex (\<lambda>f. fl_code f = code \<and> fl_status f = EXHAUSTED) fs then Inr fs
      else if aborted \<and> list_ex (\<lambda>f. fl_code f = ''runtime.middleware_abort'' \<or> fl_code f = ''runtime.middleware_error'') fs
      then Inr fs
      else append_failure nz (\<lambda>fresh. (plain_failure fresh code ''agent_runtime'' FailurePhase.LOOP
          [(''stop_reason'', VStr reason), (''iteration_count'', value_get values ''iteration_count''),
           (''tokens_used'', value_get values ''tokens_used'')])
        \<lparr>fl_status := (if aborted then TERMINAL else EXHAUSTED),
         fl_disposition := (if aborted then FailureDisposition.STOP else ROUTE)\<rparr>) fs)"

definition normalized_error_kind :: "string \<Rightarrow> string" where
  "normalized_error_kind raw_kind =
     (let raw = lower (strip raw_kind) in
      if List.member [''validation'', ''validation_error'', ''argument_error'', ''arguments_error''] raw
      then ''invalid_arguments'' else if raw = [] then ''execution_error'' else raw)"

definition tool_error_code :: "(pyval \<Rightarrow> string) \<Rightarrow> dict option \<Rightarrow> string option" where
  "tool_error_code show result =
     (case result of
        None \<Rightarrow> None
      | Some d \<Rightarrow>
          (case (case truthy_text show (map_of d ''error'') of
              None \<Rightarrow> truthy_text show (map_of d ''error_type'') | r \<Rightarrow> r) of
             None \<Rightarrow> None
           | Some raw \<Rightarrow> map_of tool_error_codes (normalized_error_kind raw)))"

definition count_codes :: "string list \<Rightarrow> (string \<times> nat) list" where
  "count_codes cs = foldl (\<lambda>d c. dict_put c (Suc (case map_of d c of None \<Rightarrow> 0 | Some n \<Rightarrow> n)) d) [] cs"

fun append_counts :: "Normalizer \<Rightarrow> (string \<times> nat) list \<Rightarrow> appender" where
  "append_counts nz [] fs = Inr fs"
| "append_counts nz ((code, n) # counts) fs =
     bindE (append_failure nz (\<lambda>fresh. plain_failure fresh code ''tool_runtime'' FailurePhase.TOOL
       [(''failed_calls'', VInt (int n))]) fs) (append_counts nz counts)"

definition append_tool_context_failures :: "Normalizer \<Rightarrow> appender" where
  "append_tool_context_failures nz =
     append_counts nz (count_codes (List.map_filter (tool_error_code (nz_show nz))
       (case rm_calls (nz_meta nz) of None \<Rightarrow> [] | Some xs \<Rightarrow> xs)))"

definition append_fallback_failure :: "Normalizer \<Rightarrow> appender" where
  "append_fallback_failure nz fs =
     (case map_of (rm_values (nz_meta nz)) ''fallback'' of
        Some (VDict fallback) \<Rightarrow>
          if truthy_text (nz_show nz) (map_of fallback ''used'') = None then Inr fs
          else
            let n = (case map_of fallback ''attempts'' of
                Some (VList xs) \<Rightarrow> length xs | Some (VStr s) \<Rightarrow> length s | _ \<Rightarrow> 0) in
            append_failure nz (\<lambda>fresh. (plain_failure fresh ''model.request_failed'' ''agent_fallback'' FailurePhase.MODEL
                [(''attempt_count'', VInt (int n)), (''final_model'', value_get fallback ''final_model'')])
              \<lparr>fl_status := RECOVERED, fl_handled_by := Some ''agent_fallback''\<rparr>) fs
      | _ \<Rightarrow> Inr fs)"

definition error_type_of :: "string \<Rightarrow> string" where
  "error_type_of t = take 120 (takeWhile (\<lambda>c. c \<noteq> CHR '':'') t)"

definition append_integrity_failures :: "Normalizer \<Rightarrow> appender" where
  "append_integrity_failures nz fs =
     (let values = rm_values (nz_meta nz) in
      bindE (case truthy_text (nz_show nz) (map_of values ''__session_error__'') of
          None \<Rightarrow> Inr fs
        | Some t \<Rightarrow> append_failure nz (\<lambda>fresh. (plain_failure fresh ''session.persistence_failed'' ''session''
            FailurePhase.SESSION [(''error_type'', VStr (error_type_of t))])
            \<lparr>fl_disposition := FailureDisposition.CONTINUE\<rparr>) fs) (\<lambda>gs.
      if rm_corrupted (nz_meta nz) \<or> (case map_of values ''usage_rollup'' of
          Some (VDict u) \<Rightarrow> truthy_text (nz_show nz) (map_of u ''recording_corrupted'') \<noteq> None | _ \<Rightarrow> False)
      then append_failure nz (\<lambda>fresh. (plain_failure fresh ''usage.recording_corrupted'' ''usage_tracker''
          FailurePhase.OBSERVABILITY [(''recording_corrupted'', VBool True)])
        \<lparr>fl_disposition := FailureDisposition.CONTINUE\<rparr>) gs
      else Inr gs))"

subsection \<open>One record for each code and source\<close>

definition key_of :: "Failure \<Rightarrow> string \<times> string" where
  "key_of f = (fl_code f, fl_source f)"

fun dedup :: "Failure list \<Rightarrow> ((string \<times> string) \<times> nat) list \<Rightarrow> Failure list \<Rightarrow> Failure list" where
  "dedup [] positions result = result"
| "dedup (f # fs) positions result =
     (case map_of positions (key_of f) of
        None \<Rightarrow> dedup fs (dict_put (key_of f) (length result) positions) (result @ [f])
      | Some i \<Rightarrow> dedup fs positions (if \<not> eligible (result ! i) \<and> eligible f then result[i := f] else result))"

definition deduplicate :: "Failure list \<Rightarrow> Failure list" where
  "deduplicate fs = dedup fs [] []"

text \<open>The parts in the order of the code, and how many failures they made.\<close>

definition all_failures :: "Normalizer \<Rightarrow> exn + Failure list" where
  "all_failures nz =
     bindE (append_explicit_failures nz []) (\<lambda>fs.
     bindE (append_contract_failures nz fs) (\<lambda>fs.
     bindE (append_tool_failures nz fs) (\<lambda>fs.
     bindE (append_middleware nz (middleware_events (rm_values (nz_meta nz))) fs) (\<lambda>fs.
     bindE (append_stop_failure nz fs) (\<lambda>fs.
     bindE (append_tool_context_failures nz fs) (\<lambda>fs.
     bindE (append_fallback_failure nz fs) (append_integrity_failures nz)))))))"

definition from_reply :: "Normalizer \<Rightarrow> exn + Failure list" where
  "from_reply nz = bindE (all_failures nz) (\<lambda>fs. Inr (deduplicate fs))"

fun record_all :: "('w, 'c) Callbacks \<Rightarrow> Failure list \<Rightarrow> ('w Router, exn, Failure list) sem" where
  "record_all cb [] = returnM []"
| "record_all cb (f # fs) =
     bindM (record_failure cb f) (\<lambda>g. bindM (record_all cb fs) (\<lambda>gs. returnM (g # gs)))"

definition capture_reply :: "('w, 'c) Callbacks \<Rightarrow> ReplyMetadata option \<Rightarrow> ('w Router, exn, Failure list) sem" where
  "capture_reply cb reply =
     bindM (getM (\<lambda>s. s)) (\<lambda>s.
     if \<not> fr_enabled s then returnM []
     else case reply of
       None \<Rightarrow> returnM []
     | Some m \<Rightarrow>
         (let nz = \<lparr>nz_show = cb_show cb, nz_fresh = \<lambda>n. cb_fresh cb (fr_draws s + n), nz_meta = m\<rparr> in
          bindM (liftE (\<lambda>e. e) (all_failures nz)) (\<lambda>fs.
          bindM (updM (\<lambda>s. s\<lparr>fr_draws := fr_draws s + length fs\<rparr>)) (\<lambda>_.
          record_all cb (deduplicate fs)))))"

subsection \<open>The middleware\<close>

definition stops_hook :: "Failure list \<Rightarrow> Failure option" where
  "stops_hook fs = find (\<lambda>f. fl_disposition f = FailureDisposition.STOP \<or> fl_disposition f = RAISE) fs"

definition failure_middleware_hook ::
  "('w, 'c) Callbacks \<Rightarrow> string \<Rightarrow> 'c \<Rightarrow> ('w Router, exn, MiddlewareDecision) sem" where
  "failure_middleware_hook cb hook ctx =
     bindM (evaluate cb hook ctx) (\<lambda>fs.
     case stops_hook fs of
       Some f \<Rightarrow> returnM (abort ''failure_rule'' [(''failure_code'', VStr (fl_code f)), (''failure_id'', VStr (fl_id f)),
         (''rule'', VStr (fl_source f))])
     | None \<Rightarrow> returnM (continue_decision [] None))"

definition failure_review_finish :: "('w, 'c) Callbacks \<Rightarrow> 'c \<Rightarrow> ('w Router, exn, FinishReview) sem" where
  "failure_review_finish cb ctx =
     bindM (evaluate cb ''review_finish'' ctx) (\<lambda>fs.
     case stops_hook fs of
       Some f \<Rightarrow> returnM (FinishReview.Stop (''Session failure rule '' @ quoted (fl_source f) @ '' matched '' @ fl_code f @
         '' at review_finish.''))
     | None \<Rightarrow> returnM Accept)"

subsection \<open>The record that is kept\<close>

text \<open>
  What deduplication means: the keys in the order in which they first came, and for each the first failure
  that is to be routed, or else the first one.
\<close>

definition first_keys :: "Failure list \<Rightarrow> (string \<times> string) list" where
  "first_keys fs = rev (remdups (rev (map key_of fs)))"

definition kept_for :: "Failure list \<Rightarrow> string \<times> string \<Rightarrow> Failure" where
  "kept_for fs k =
     (case find (\<lambda>f. key_of f = k \<and> eligible f) fs of
        Some f \<Rightarrow> f
      | None \<Rightarrow> the (find (\<lambda>f. key_of f = k) fs))"

definition one_per_key :: "Failure list \<Rightarrow> Failure list" where
  "one_per_key fs = map (kept_for fs) (first_keys fs)"

lemma find_append: "find P (xs @ ys) = (case find P xs of None \<Rightarrow> find P ys | r \<Rightarrow> r)"
  by (induction xs) auto

lemma find_is: "find P xs = Some x \<Longrightarrow> x \<in> set xs \<and> P x"
  by (induction xs) (auto split: if_splits)

lemma find_exists: "x \<in> set xs \<Longrightarrow> P x \<Longrightarrow> \<exists>y. find P xs = Some y"
  by (induction xs) auto

lemma first_keys_set: "set (first_keys fs) = key_of ` set fs" "distinct (first_keys fs)"
  by (simp_all add: first_keys_def)

lemma first_keys_snoc:
  "first_keys (fs @ [f]) = (if key_of f \<in> key_of ` set fs then first_keys fs else first_keys fs @ [key_of f])"
proof -
  have "rev (remdups (x # ys)) = (if x \<in> set ys then rev (remdups ys) else rev (remdups ys) @ [x])" for x :: "string \<times> string" and ys
    by simp
  then show ?thesis by (simp add: first_keys_def)
qed

lemma kept_for_is:
  assumes "k \<in> key_of ` set fs"
  shows "kept_for fs k \<in> set fs \<and> key_of (kept_for fs k) = k"
    and "eligible (kept_for fs k) \<longleftrightarrow> find (\<lambda>f. key_of f = k \<and> eligible f) fs \<noteq> None"
proof -
  obtain g where g: "find (\<lambda>f. key_of f = k) fs = Some g" using assms find_exists [of _ fs "\<lambda>f. key_of f = k"] by auto
  show "kept_for fs k \<in> set fs \<and> key_of (kept_for fs k) = k"
    using find_is [OF g] by (auto simp: kept_for_def g dest: find_is split: option.split)
  show "eligible (kept_for fs k) \<longleftrightarrow> find (\<lambda>f. key_of f = k \<and> eligible f) fs \<noteq> None"
  proof (cases "find (\<lambda>f. key_of f = k \<and> eligible f) fs")
    case None
    then have "\<not> eligible g" using find_is [OF g] by (auto simp: find_None_iff)
    then show ?thesis by (simp add: kept_for_def None g)
  next
    case (Some f)
    then show ?thesis using find_is [OF Some] by (simp add: kept_for_def)
  qed
qed

lemma kept_for_other: "key_of f \<noteq> k \<Longrightarrow> kept_for (fs @ [f]) k = kept_for fs k"
  by (auto simp: kept_for_def find_append split: option.splits)

lemma kept_for_same:
  assumes "key_of f \<in> key_of ` set fs"
  shows "kept_for (fs @ [f]) (key_of f) =
     (if \<not> eligible (kept_for fs (key_of f)) \<and> eligible f then f else kept_for fs (key_of f))"
proof -
  obtain g where "find (\<lambda>g. key_of g = key_of f) fs = Some g"
    using assms find_exists [of _ fs "\<lambda>g. key_of g = key_of f"] by force
  then show ?thesis
    using kept_for_is(2) [OF assms] by (simp add: kept_for_def find_append split: option.splits)
qed

lemma kept_for_new:
  assumes "key_of f \<notin> key_of ` set fs"
  shows "kept_for (fs @ [f]) (key_of f) = f"
proof -
  have "key_of g \<noteq> key_of f" if "g \<in> set fs" for g using assms that by (metis image_eqI)
  then have "find (\<lambda>g. key_of g = key_of f \<and> eligible g) fs = None" "find (\<lambda>g. key_of g = key_of f) fs = None"
    by (auto simp: find_None_iff)
  then show ?thesis by (simp add: kept_for_def find_append)
qed

lemma dedup_is:
  assumes "\<forall>k i. map_of positions k = Some i \<longleftrightarrow> i < length (first_keys seen) \<and> first_keys seen ! i = k"
  shows "dedup fs positions (one_per_key seen) = one_per_key (seen @ fs)"
  using assms
proof (induction fs arbitrary: seen positions)
  case Nil
  then show ?case by simp
next
  case (Cons f fs)
  let ?ks = "first_keys seen"
  have len: "length (one_per_key seen) = length ?ks" by (simp add: one_per_key_def)
  show ?case
  proof (cases "map_of positions (key_of f)")
    case None
    have new: "key_of f \<notin> key_of ` set seen"
    proof
      assume "key_of f \<in> key_of ` set seen"
      then obtain i where "i < length ?ks" "?ks ! i = key_of f"
        using first_keys_set(1) [of seen] by (metis in_set_conv_nth)
      then show False using Cons.prems None by (metis option.distinct(1))
    qed
    have "one_per_key seen @ [f] = one_per_key (seen @ [f])"
      using new first_keys_set(1) [of seen]
      by (auto simp: one_per_key_def first_keys_snoc kept_for_new intro!: kept_for_other [symmetric])
    moreover have "\<forall>k i. map_of (dict_put (key_of f) (length ?ks) positions) k = Some i \<longleftrightarrow>
        i < length (first_keys (seen @ [f])) \<and> first_keys (seen @ [f]) ! i = k"
    proof (intro allI)
      fix k i
      have "?ks ! j \<noteq> key_of f" if "j < length ?ks" for j
        using that new first_keys_set(1) [of seen] by (metis nth_mem)
      then show "map_of (dict_put (key_of f) (length ?ks) positions) k = Some i \<longleftrightarrow>
          i < length (first_keys (seen @ [f])) \<and> first_keys (seen @ [f]) ! i = k"
        using Cons.prems [rule_format, of k i] new by (auto simp: first_keys_snoc nth_append less_Suc_eq)
    qed
    ultimately show ?thesis using Cons.IH [of "dict_put (key_of f) (length ?ks) positions" "seen @ [f]"] None len by simp
  next
    case (Some i)
    then have i: "i < length ?ks" "?ks ! i = key_of f" using Cons.prems by auto
    then have old: "key_of f \<in> key_of ` set seen" using first_keys_set(1) [of seen] nth_mem by metis
    have at_i: "one_per_key seen ! i = kept_for seen (key_of f)" using i by (simp add: one_per_key_def)
    have ks: "first_keys (seen @ [f]) = ?ks" using old by (simp add: first_keys_snoc)
    have "(if \<not> eligible (one_per_key seen ! i) \<and> eligible f then (one_per_key seen)[i := f] else one_per_key seen) =
        one_per_key (seen @ [f])"
    proof (rule nth_equalityI)
      fix j
      assume "j < length (if \<not> eligible (one_per_key seen ! i) \<and> eligible f then (one_per_key seen)[i := f] else one_per_key seen)"
      then have j: "j < length ?ks" by (simp add: len split: if_splits)
      have "j \<noteq> i \<Longrightarrow> ?ks ! j \<noteq> key_of f" using i j first_keys_set(2) nth_eq_iff_index_eq by metis
      then show "(if \<not> eligible (one_per_key seen ! i) \<and> eligible f then (one_per_key seen)[i := f] else one_per_key seen) ! j =
          one_per_key (seen @ [f]) ! j"
        using i j old at_i by (cases "j = i") (auto simp: one_per_key_def ks kept_for_same kept_for_other)
    qed (simp add: one_per_key_def ks)
    then show ?thesis using Cons.IH [of positions "seen @ [f]"] Cons.prems Some ks by simp
  qed
qed

text \<open>C39:
  Deduplication keeps one failure for each pair of code and source, in the order in which the pairs first came: the
  first one that is to be routed, or else the first one.  So a failure to be routed is never lost to a record of the
  same code and source.
\<close>

theorem deduplicate_keeps_the_routable:
  "deduplicate fs = one_per_key fs \<and> distinct (map key_of (deduplicate fs)) \<and>
   key_of ` set (filter eligible (deduplicate fs)) = key_of ` set (filter eligible fs)"
proof -
  have eq: "deduplicate fs = one_per_key fs"
    using dedup_is [of "[]" "[]" fs] by (simp add: deduplicate_def one_per_key_def first_keys_def)
  have keys: "map key_of (one_per_key fs) = first_keys fs"
    using kept_for_is(1) first_keys_set(1) [of fs] by (auto simp: one_per_key_def intro!: map_idI)
  have "key_of ` set (filter eligible (one_per_key fs)) = key_of ` set (filter eligible fs)" (is "?L = ?R")
  proof
    show "?L \<subseteq> ?R"
    proof
      fix k
      assume "k \<in> ?L"
      then obtain j where j: "j \<in> key_of ` set fs" "eligible (kept_for fs j)" "k = key_of (kept_for fs j)"
        by (auto simp: one_per_key_def first_keys_set)
      then show "k \<in> ?R" using kept_for_is(1) [OF j(1)] by (intro image_eqI [of _ _ "kept_for fs j"]) simp_all
    qed
    show "?R \<subseteq> ?L"
    proof
      fix k
      assume "k \<in> ?R"
      then obtain f where f: "f \<in> set fs" "eligible f" "key_of f = k" by auto
      then have k: "k \<in> key_of ` set fs" by blast
      have "find (\<lambda>f. key_of f = k \<and> eligible f) fs \<noteq> None" using f by (auto simp: find_None_iff)
      then have "eligible (kept_for fs k)" using kept_for_is(2) [OF k] by simp
      then show "k \<in> ?L" using kept_for_is(1) [OF k] k
        by (intro image_eqI [of _ _ "kept_for fs k"]) (simp_all add: one_per_key_def first_keys_set)
    qed
  qed
  then show ?thesis using eq keys first_keys_set(2) [of fs] by simp
qed

subsection \<open>One stop, one failure to route\<close>

text \<open>The failures to be routed are exhausted and have codes of their own.\<close>

definition single_routes :: "Failure list \<Rightarrow> bool" where
  "single_routes fs \<longleftrightarrow> distinct (map fl_code (filter eligible fs)) \<and> (\<forall>f \<in> set fs. eligible f \<longrightarrow> fl_status f = EXHAUSTED)"

lemma new_failure_fields:
  "new_failure show f = Inr g \<Longrightarrow> fl_code g = fl_code f \<and> fl_status g = fl_status f \<and> fl_disposition g = fl_disposition f"
  by (auto simp: new_failure_def FailureCode_from_value_def bindE_Inr_iff split: if_splits sum.splits)

lemma append_failure_is:
  "append_failure nz build fs = Inr gs \<Longrightarrow>
     \<exists>f. gs = fs @ [f] \<and> fl_code f = fl_code (build (nz_fresh nz (length fs))) \<and>
       fl_status f = fl_status (build (nz_fresh nz (length fs))) \<and>
       fl_disposition f = fl_disposition (build (nz_fresh nz (length fs)))"
  by (auto simp: append_failure_def bindE_Inr_iff dest: new_failure_fields)

text \<open>A part that adds only records, and one that adds a failure to be routed under a code not yet routed.\<close>

lemma append_record:
  assumes "append_failure nz build fs = Inr gs" and "\<And>fresh. \<not> eligible (build fresh)"
  shows "filter eligible gs = filter eligible fs \<and> (single_routes fs \<longrightarrow> single_routes gs)"
proof -
  obtain f where f: "gs = fs @ [f]" "fl_status f = fl_status (build (nz_fresh nz (length fs)))"
      "fl_disposition f = fl_disposition (build (nz_fresh nz (length fs)))"
    using append_failure_is [OF assms(1)] by blast
  then have "\<not> eligible f" using assms(2) [of "nz_fresh nz (length fs)"] by (simp add: eligible_def)
  then show ?thesis by (auto simp: f(1) single_routes_def)
qed

lemma append_route:
  assumes "append_failure nz build fs = Inr gs" and "\<And>fresh. fl_status (build fresh) = EXHAUSTED"
    and "\<And>fresh. fl_code (build fresh) = code" and "code \<notin> fl_code ` set (filter eligible fs)"
  shows "single_routes fs \<longrightarrow> single_routes gs" and "fl_code ` set (filter eligible gs) = insert code (fl_code ` set (filter eligible fs))"
proof -
  obtain f where f: "gs = fs @ [f]" "fl_status f = EXHAUSTED" "fl_code f = code"
    using append_failure_is [OF assms(1)] assms(2,3) by metis
  then have "eligible f" by (simp add: eligible_def)
  then show "single_routes fs \<longrightarrow> single_routes gs" "fl_code ` set (filter eligible gs) = insert code (fl_code ` set (filter eligible fs))"
    using assms(4) f by (auto simp: single_routes_def)
qed

lemma append_middleware_records:
  "append_middleware nz events fs = Inr gs \<Longrightarrow> filter eligible gs = filter eligible fs \<and> (single_routes fs \<longrightarrow> single_routes gs)"
proof (induction nz events fs rule: append_middleware.induct)
  case (2 nz event events fs)
  show ?case
  proof (cases "str_get (nz_show nz) event ''action'' [] = ''abort_run''")
    case True
    then obtain hs where hs: "append_failure nz (\<lambda>fresh. (plain_failure fresh
            (if str_get (nz_show nz) event ''reason'' [] = ''middleware_error'' then ''runtime.middleware_error'' else ''runtime.middleware_abort'')
            (str_get (nz_show nz) event ''middleware_name'' ''middleware'') FailurePhase.RUNTIME
            [(''hook'', value_get event ''hook''), (''reason'', VStr (str_get (nz_show nz) event ''reason'' []))])
          \<lparr>fl_status := TERMINAL, fl_disposition := FailureDisposition.STOP\<rparr>) fs = Inr hs"
        "append_middleware nz events hs = Inr gs"
      using 2(3) by (auto simp: bindE_Inr_iff Let_def)
    have "filter eligible hs = filter eligible fs \<and> (single_routes fs \<longrightarrow> single_routes hs)"
      by (rule append_record [OF hs(1)]) (simp add: eligible_def plain_failure_def)
    moreover have "filter eligible gs = filter eligible hs \<and> (single_routes hs \<longrightarrow> single_routes gs)"
      using 2(2) [OF refl _ hs] True by simp
    ultimately show ?thesis by simp
  next
    case False
    then show ?thesis using 2 by (simp add: Let_def)
  qed
qed simp

lemma append_counts_records:
  "append_counts nz counts fs = Inr gs \<Longrightarrow> single_routes fs \<Longrightarrow> single_routes gs"
proof (induction nz counts fs rule: append_counts.induct)
  case (2 nz code n counts fs)
  then obtain hs where hs: "append_failure nz (\<lambda>fresh. plain_failure fresh code ''tool_runtime'' FailurePhase.TOOL
       [(''failed_calls'', VInt (int n))]) fs = Inr hs" "append_counts nz counts hs = Inr gs"
    by (auto simp: bindE_Inr_iff)
  have "single_routes hs"
    using append_record [OF hs(1)] 2(3) by (simp add: eligible_def plain_failure_def)
  then show ?case using 2(1) [OF hs] by blast
qed simp

lemma append_count_records:
  "append_count nz code source key n fs = Inr gs \<Longrightarrow> filter eligible gs = filter eligible fs \<and> (single_routes fs \<longrightarrow> single_routes gs)"
  by (auto simp: append_count_def eligible_def plain_failure_def dest!: append_record split: if_splits)

lemma contract_step:
  assumes "append_contract_failures nz [] = Inr gs"
  shows "single_routes gs \<and> fl_code ` set (filter eligible gs) \<subseteq> {''contract.unsatisfied''}"
proof (cases "unsatisfied_rows (value_get (rm_values (nz_meta nz)) ''contract_evaluations'') = []")
  case True
  then show ?thesis using assms by (simp add: append_contract_failures_def Let_def single_routes_def)
next
  case False
  obtain f where "gs = [f]" "fl_code f = ''contract.unsatisfied''" "eligible f \<longrightarrow> fl_status f = EXHAUSTED"
    using assms False append_failure_is [of nz _ "[]" gs]
    by (fastforce simp: append_contract_failures_def Let_def plain_failure_def eligible_def split: if_splits)
  then show ?thesis by (auto simp: single_routes_def)
qed

lemma contract_stop_code: "map_of stop_codes b = Some ''contract.unsatisfied'' \<Longrightarrow> b = ''contract_unsatisfied''"
  by (auto simp: stop_codes_def split: if_splits)

lemma tool_step:
  assumes "append_tool_failures nz fs = Inr gs" and "single_routes fs" and "fl_code ` set (filter eligible fs) \<subseteq> {''contract.unsatisfied''}"
    and "truthy_text (nz_show nz) (map_of (rm_values (nz_meta nz)) ''tool_settings_budget'') \<noteq> Some ''contract_unsatisfied''"
  shows "single_routes gs"
proof -
  obtain as bs where as: "append_count nz ''tool.execution_failed'' ''agent_runtime'' ''failed_calls''
        (length (filter (\<lambda>x. x = ''failed'') (case rm_states (nz_meta nz) of None \<Rightarrow> [] | Some xs \<Rightarrow> xs))) fs = Inr as"
    and bs: "append_count nz ''tool.permission_denied'' ''agent_runtime'' ''denied_calls''
        (length (filter (\<lambda>x. x = ''denied'') (case rm_states (nz_meta nz) of None \<Rightarrow> [] | Some xs \<Rightarrow> xs))) as = Inr bs"
    and gs: "(case truthy_text (nz_show nz) (map_of (rm_values (nz_meta nz)) ''tool_settings_budget'') of
        None \<Rightarrow> Inr bs
      | Some budget \<Rightarrow>
          append_failure nz (\<lambda>fresh. (plain_failure fresh
              (case map_of stop_codes budget of Some c \<Rightarrow> c | None \<Rightarrow> ''tool.call_limit_reached'')
              ''tool_settings'' FailurePhase.TOOL [(''budget'', VStr budget)])
            \<lparr>fl_status := EXHAUSTED, fl_disposition := ROUTE\<rparr>) bs) = Inr gs"
    using assms(1) by (auto simp: append_tool_failures_def Let_def bindE_Inr_iff)
  have b: "single_routes bs" "filter eligible bs = filter eligible fs"
    using append_count_records [OF as] append_count_records [OF bs] assms(2) by simp_all
  show ?thesis
  proof (cases "truthy_text (nz_show nz) (map_of (rm_values (nz_meta nz)) ''tool_settings_budget'')")
    case None
    then show ?thesis using gs b by simp
  next
    case (Some budget)
    let ?c = "case map_of stop_codes budget of Some c \<Rightarrow> c | None \<Rightarrow> ''tool.call_limit_reached''"
    have "?c \<noteq> ''contract.unsatisfied''"
      using contract_stop_code [of budget] Some assms(4) by (auto split: option.split)
    then have c: "?c \<notin> fl_code ` set (filter eligible bs)" using b(2) assms(3) by auto
    have a: "append_failure nz (\<lambda>fresh. (plain_failure fresh ?c ''tool_settings'' FailurePhase.TOOL [(''budget'', VStr budget)])
        \<lparr>fl_status := EXHAUSTED, fl_disposition := ROUTE\<rparr>) bs = Inr gs"
      using gs Some by simp
    show ?thesis using append_route(1) [OF a _ _ c] b(1) by (simp add: plain_failure_def)
  qed
qed

lemma stop_step:
  assumes "append_stop_failure nz fs = Inr gs" and "single_routes fs"
  shows "single_routes gs"
proof -
  define vals where "vals = rm_values (nz_meta nz)"
  define reason where "reason = text_of (nz_show nz) (Some (value_get vals ''stop_reason''))"
  define code where "code = (case map_of stop_codes reason of Some c \<Rightarrow> c | None \<Rightarrow> ''runtime.error'')"
  define build where "build = (\<lambda>fresh. (plain_failure fresh code ''agent_runtime'' FailurePhase.LOOP
          [(''stop_reason'', VStr reason), (''iteration_count'', value_get vals ''iteration_count''),
           (''tokens_used'', value_get vals ''tokens_used'')])
        \<lparr>fl_status := (if code = ''runtime.middleware_abort'' then TERMINAL else EXHAUSTED),
         fl_disposition := (if code = ''runtime.middleware_abort'' then FailureDisposition.STOP else ROUTE)\<rparr>)"
  have cases: "gs = fs \<or> append_failure nz build fs = Inr gs \<and> \<not> list_ex (\<lambda>f. fl_code f = code \<and> fl_status f = EXHAUSTED) fs"
    using assms(1) unfolding append_stop_failure_def Let_def vals_def reason_def code_def build_def
    by (auto split: if_splits)
  show ?thesis
  proof (cases "gs = fs")
    case False
    with cases have a: "append_failure nz build fs = Inr gs" and new: "\<not> list_ex (\<lambda>f. fl_code f = code \<and> fl_status f = EXHAUSTED) fs"
      by simp_all
    show ?thesis
    proof (cases "code = ''runtime.middleware_abort''")
      case True
      then show ?thesis using append_record [OF a] assms(2) by (simp add: build_def plain_failure_def eligible_def)
    next
      case False
      have "code \<notin> fl_code ` set (filter eligible fs)"
        using new assms(2) by (auto simp: single_routes_def list_ex_iff)
      then show ?thesis using append_route(1) [OF a, of code] False assms(2) by (simp add: build_def plain_failure_def)
    qed
  qed (simp add: assms(2))
qed

lemma record_steps:
  "append_tool_context_failures nz fs = Inr gs \<Longrightarrow> single_routes fs \<Longrightarrow> single_routes gs"
  "append_fallback_failure nz fs = Inr gs \<Longrightarrow> single_routes fs \<Longrightarrow> single_routes gs"
  "append_integrity_failures nz fs = Inr gs \<Longrightarrow> single_routes fs \<Longrightarrow> single_routes gs"
proof -
  show "append_tool_context_failures nz fs = Inr gs \<Longrightarrow> single_routes fs \<Longrightarrow> single_routes gs"
    unfolding append_tool_context_failures_def by (rule append_counts_records)
  show "append_fallback_failure nz fs = Inr gs \<Longrightarrow> single_routes fs \<Longrightarrow> single_routes gs"
    by (auto simp: append_fallback_failure_def Let_def eligible_def plain_failure_def dest!: append_record
        split: option.splits pyval.splits if_splits)
  assume run: "append_integrity_failures nz fs = Inr gs" and fs: "single_routes fs"
  show "single_routes gs"
    using run fs unfolding append_integrity_failures_def Let_def bindE_Inr_iff
    by (auto simp: eligible_def plain_failure_def dest!: append_record split: option.splits if_splits)
qed

lemma single_routes_dedup:
  assumes "single_routes fs"
  shows "distinct (map fl_code (filter eligible (one_per_key fs)))"
proof -
  have "map key_of (one_per_key fs) = first_keys fs"
    using kept_for_is(1) first_keys_set(1) [of fs] by (auto simp: one_per_key_def intro!: map_idI)
  then have "distinct (one_per_key fs)" using first_keys_set(2) [of fs] by (metis distinct_map)
  moreover have "set (one_per_key fs) \<subseteq> set fs"
    using kept_for_is(1) by (auto simp: one_per_key_def first_keys_set)
  moreover have "inj_on fl_code (set (filter eligible fs))"
    using assms unfolding single_routes_def distinct_map by blast
  ultimately show ?thesis by (auto simp: distinct_map inj_on_def)
qed

text \<open>C40:
  One stop of a run makes one failure to be routed: of the failures a reply tells of, no two that are to be routed have the
  same code, whatever the contracts, the tool budget, the aborts and the stop reason say together.  It holds of
  replies that give no failures of their own and name no contract as the tool budget.
\<close>

theorem one_stop_one_routable_failure:
  assumes "from_reply nz = Inr fs" and "rm_failures (nz_meta nz) = None"
    and "truthy_text (nz_show nz) (map_of (rm_values (nz_meta nz)) ''tool_settings_budget'') \<noteq> Some ''contract_unsatisfied''"
  shows "distinct (map fl_code (filter eligible fs))"
proof -
  obtain gs where gs: "all_failures nz = Inr gs" "fs = deduplicate gs"
    using assms(1) by (auto simp: from_reply_def bindE_Inr_iff)
  then obtain f1 f2 f3 f4 f5 f6 where run: "append_contract_failures nz [] = Inr f1" "append_tool_failures nz f1 = Inr f2"
      "append_middleware nz (middleware_events (rm_values (nz_meta nz))) f2 = Inr f3" "append_stop_failure nz f3 = Inr f4"
      "append_tool_context_failures nz f4 = Inr f5" "append_fallback_failure nz f5 = Inr f6"
      "append_integrity_failures nz f6 = Inr gs"
    unfolding all_failures_def bindE_Inr_iff append_explicit_failures_def assms(2) by auto
  have "single_routes f2" using tool_step [OF run(2)] contract_step [OF run(1)] assms(3) by blast
  then have "single_routes f3" using append_middleware_records [OF run(3)] by blast
  then have "single_routes gs" using stop_step [OF run(4)] record_steps(1) [OF run(5)] record_steps(2) [OF run(6)]
      record_steps(3) [OF run(7)] by blast
  then show ?thesis
    using single_routes_dedup dedup_is [of "[]" "[]" gs] gs(2) by (simp add: deduplicate_def one_per_key_def first_keys_def)
qed

definition demo_reply :: ReplyMetadata where
  "demo_reply = \<lparr>rm_values = [(''stop_reason'', VStr ''contract_unsatisfied''), (''contract_evaluations'',
       VList [VDict [(''name'', VStr ''tests''), (''satisfied'', VBool False)]]),
       (''tool_settings_budget'', VStr ''max_error_calls'')],
     rm_failures = None, rm_states = Some [''failed'', ''succeeded'', ''failed''], rm_calls = None, rm_corrupted = False\<rparr>"

definition demo_normalizer :: Normalizer where
  "demo_normalizer = \<lparr>nz_show = \<lambda>_. [], nz_fresh = \<lambda>n. (replicate n (CHR ''f''), ''t''), nz_meta = demo_reply\<rparr>"

lemma demo_from_reply:
  "(case from_reply demo_normalizer of
      Inr fs \<Rightarrow> (map fl_code fs, map eligible fs)
    | Inl e \<Rightarrow> ([], [])) =
   ([''contract.unsatisfied'', ''tool.execution_failed'', ''tool.error_limit''], [True, False, True])"
  by code_simp

theorem one_stop_one_routable_failure_witness:
  "\<exists>fs. from_reply demo_normalizer = Inr fs \<and> map eligible fs = [True, False, True] \<and> distinct (map fl_code (filter eligible fs))"
proof -
  obtain fs where fs: "from_reply demo_normalizer = Inr fs" "map eligible fs = [True, False, True]"
    using demo_from_reply by (auto split: sum.splits)
  have "truthy_text (nz_show demo_normalizer) (map_of (rm_values (nz_meta demo_normalizer)) ''tool_settings_budget'') = Some ''max_error_calls''"
    by (simp add: demo_normalizer_def demo_reply_def truthy_text_def)
  then show ?thesis
    using one_stop_one_routable_failure [OF fs(1)] fs by (simp add: demo_normalizer_def demo_reply_def)
qed

end
