(* ===== verification/FR_Once.thy ===== *)
theory FR_Once
  imports FR_Router
begin

text \<open>
  The passage of failures through their handlers: the programs of router operations a handler may run
  while it is called, and what holds of the ledger after any of them.
\<close>

subsection \<open>Programs of router operations\<close>

text \<open>
  \<open>router_ops cb s l t\<close>: from \<open>s\<close> to \<open>t\<close> by operations of the router, in which handlers were called
  with the failures of the ids \<open>l\<close>.  A failure that is recorded has an id of its own, and a handler in
  turn runs such a program before the route it serves is settled.
\<close>

inductive router_op :: "('w, 'c) Callbacks \<Rightarrow> 'w Router \<Rightarrow> string list \<Rightarrow> 'w Router \<Rightarrow> bool"
  and router_ops :: "('w, 'c) Callbacks \<Rightarrow> 'w Router \<Rightarrow> string list \<Rightarrow> 'w Router \<Rightarrow> bool" for cb where
  no_op: "router_ops cb s [] s"
| then_op: "router_op cb s l t \<Longrightarrow> router_ops cb t l' u \<Longrightarrow> router_ops cb s (l @ l') u"
| new_record: "fl_id f = fst (cb_fresh cb (fr_draws s)) \<Longrightarrow> failure_ok f \<Longrightarrow>
     record_failure cb f (s\<lparr>fr_draws := Suc (fr_draws s)\<rparr>) = (r, t) \<Longrightarrow> router_op cb s [] t"
| drawn_id: "router_op cb s [] (s\<lparr>fr_draws := Suc (fr_draws s)\<rparr>)"
| rules: "router_op cb s [] (s\<lparr>fr_rules := rs\<rparr>)"
| bind_code: "on_failure code h include_recovered s = (r, t) \<Longrightarrow> router_op cb s [] t"
| outside: "router_op cb s [] (s\<lparr>fr_world := w, fr_tags := tags\<rparr>)"
| handled: "fl_id f \<in> ledger_ids s \<Longrightarrow> failure_ok f \<Longrightarrow> binding_for f s = Some binding \<Longrightarrow>
     begin_route cb f binding s = (Inr recovering, u) \<Longrightarrow>
     router_ops cb (u\<lparr>fr_recovering := insert (fl_id f) (fr_recovering u)\<rparr>) l v \<Longrightarrow>
     settle cb f recovering binding answer (v\<lparr>fr_recovering := fr_recovering v - {fl_id f}\<rparr>) = (r, t) \<Longrightarrow>
     router_op cb s (fl_id f # l) t"

text \<open>Ids are drawn once, the observer of the ledger raises no exception that would end the program, and
  handlers change the router by its operations only.\<close>

definition fresh_ids :: "('w, 'c) Callbacks \<Rightarrow> bool" where
  "fresh_ids cb \<longleftrightarrow> inj (\<lambda>n. fst (cb_fresh cb n)) \<and>
     (\<forall>hook f e. cb_capture cb = Some hook \<longrightarrow> hook f = Some e \<longrightarrow> exn_isinstance e [''Exception''])"

definition handlers_use_router :: "('w, 'c) Callbacks \<Rightarrow> bool" where
  "handlers_use_router cb \<longleftrightarrow> (\<forall>k f s. \<exists>l. router_ops cb s l (snd (cb_recover cb k f s)))"

subsection \<open>What the parts of a route keep\<close>

definition bound_codes :: "'w Router \<Rightarrow> string set" where
  "bound_codes s = dom (map_of (fr_bindings s))"

lemma bound_codes_same [simp]:
  "bound_codes (recorded f s) = bound_codes s" "bound_codes (s\<lparr>fr_routed := R\<rparr>) = bound_codes s"
  "bound_codes (s\<lparr>fr_history := h\<rparr>) = bound_codes s" "bound_codes (s\<lparr>fr_attempts := xs\<rparr>) = bound_codes s"
  "bound_codes (s\<lparr>fr_recovering := R\<rparr>) = bound_codes s" "bound_codes (s\<lparr>fr_draws := n\<rparr>) = bound_codes s"
  "bound_codes (s\<lparr>fr_rules := rs\<rparr>) = bound_codes s" "bound_codes (s\<lparr>fr_tags := ts\<rparr>) = bound_codes s"
  "bound_codes (s\<lparr>fr_world := w\<rparr>) = bound_codes s"
  by (simp_all add: bound_codes_def)

text \<open>\<open>stays H s t\<close>: the invariant holds afterwards and the marks and the ids only grow.\<close>

definition stays :: "('w, 'c) Callbacks \<Rightarrow> string set \<Rightarrow> 'w Router \<Rightarrow> 'w Router \<Rightarrow> bool" where
  "stays cb H s t \<longleftrightarrow> routed_once cb H t \<and> fr_recovering t = fr_recovering s \<and> fr_enabled t = fr_enabled s \<and>
     fr_max_history t = fr_max_history s \<and> fr_draws s \<le> fr_draws t \<and>
     bound_codes s \<subseteq> bound_codes t \<and>
     (fr_recovering s \<noteq> {} \<longrightarrow> unmarked t \<subseteq> unmarked s)"

lemma stays_refl: "routed_once cb H s \<Longrightarrow> stays cb H s s"
  by (simp add: stays_def)

lemma stays_trans: "stays cb H s t \<Longrightarrow> stays cb H' t u \<Longrightarrow> stays cb H' s u"
  unfolding stays_def by auto

lemma drawn_mono: "fr_draws s \<le> fr_draws t \<Longrightarrow> drawn cb s \<subseteq> drawn cb t"
  by (auto simp: drawn_def)

lemma fresh_not_drawn: "fresh_ids cb \<Longrightarrow> fst (cb_fresh cb (fr_draws s)) \<notin> drawn cb s"
  by (auto simp: fresh_ids_def drawn_def dest: injD)

lemma record_returns: "fresh_ids cb \<Longrightarrow> record_failure cb f s = (Inr f, if fr_enabled s then recorded f s else s)"
  by (auto simp: record_failure_def fresh_ids_def bind_eq_Some_conv split: option.split)

lemma same_ledger_stays:
  assumes "routed_once cb H s" and "fr_history t = fr_history s" and "fr_routed t = fr_routed s"
    and "fr_attempts t = fr_attempts s" and "fr_recovering t = fr_recovering s" and "fr_enabled t = fr_enabled s"
    and "fr_max_history t = fr_max_history s" and "fr_draws s \<le> fr_draws t"
    and "bound_codes s \<subseteq> bound_codes t"
  shows "stays cb H s t"
  using assms drawn_mono [OF assms(8), of cb]
  unfolding stays_def routed_once_def ledger_ok_def unmarked_def ledger_ids_def by auto

lemma recorded_stays:
  assumes s: "routed_once cb H s" and f: "failure_ok f" and new: "fl_id f \<notin> ledger_ids s" "fl_id f \<in> drawn cb s"
    "fl_id f \<notin> H \<union> fr_recovering s"
  shows "stays cb H s (recorded f s)"
proof -
  have ok: "ledger_ok s" using s by (simp add: routed_once_def)
  note ids = recorded_ids [OF ok new(1)]
  have t: "ledger_ok (recorded f s)" using recorded_ledger_ok [OF ok new(1) f] .
  have "drawn cb (recorded f s) = drawn cb s" by (simp add: drawn_def)
  then show ?thesis
    using s t new ids(2,3) unfolding stays_def routed_once_def unmarked_def by (auto split: if_splits)
qed

lemma recorded_marked_stays:
  assumes s: "routed_once cb H s" and f: "failure_ok f" and new: "fl_id f \<notin> ledger_ids s" "fl_id f \<in> drawn cb s"
  shows "stays cb H s ((recorded f s)\<lparr>fr_routed := insert (fl_id f) (fr_routed (recorded f s))\<rparr>)" (is "stays cb H s ?t")
proof -
  have ok: "ledger_ok s" using s by (simp add: routed_once_def)
  note ids = recorded_ids [OF ok new(1)]
  have same: "ledger_ids ?t = ledger_ids (recorded f s)" "drawn cb ?t = drawn cb s"
    by (simp_all add: ledger_ids_def drawn_def)
  have t: "ledger_ok ?t"
    using recorded_ledger_ok [OF ok new(1) f] ids(1) unfolding ledger_ok_def by (simp add: ledger_ids_def)
  show ?thesis
    using s t new(2) ids(2,3) unfolding stays_def routed_once_def unmarked_def same by (auto split: if_splits)
qed

lemma new_record_stays:
  assumes cb: "fresh_ids cb" and s: "routed_once cb H s" and f: "failure_ok f"
    and i: "fl_id f = fst (cb_fresh cb (fr_draws s))"
  shows "stays cb H s (snd (record_failure cb f (s\<lparr>fr_draws := Suc (fr_draws s)\<rparr>)))"
proof -
  let ?s = "s\<lparr>fr_draws := Suc (fr_draws s)\<rparr>"
  have one: "stays cb H s ?s" using s by (intro same_ledger_stays) simp_all
  have "fl_id f \<notin> drawn cb s" using fresh_not_drawn [OF cb, of s] i by simp
  then have "fl_id f \<notin> ledger_ids ?s" "fl_id f \<notin> H \<union> fr_recovering ?s"
    using s by (auto simp: ledger_ids_def routed_once_def)
  moreover have "fl_id f \<in> drawn cb ?s" using i by (auto simp: drawn_def)
  moreover have "routed_once cb H ?s" using one by (simp add: stays_def)
  ultimately have "stays cb H ?s (recorded f ?s)" using f by (intro recorded_stays) auto
  then show ?thesis using one stays_trans [OF one] by (simp add: record_returns [OF cb])
qed

lemma replace_first_ids: "replace_first f h = Some g \<Longrightarrow> map fl_id g = map fl_id h \<and> set g \<subseteq> insert f (set h)"
  by (induction h arbitrary: g) (auto split: if_splits)

lemma replace_first_None: "replace_first f h = None \<longleftrightarrow> fl_id f \<notin> set (map fl_id h)"
  by (induction h) auto

lemma replace_stays:
  assumes cb: "fresh_ids cb" and s: "routed_once cb H s" "fr_enabled s" and f: "failure_ok f" "fl_id f \<in> H"
  shows "stays cb H s (snd (replace_failure cb f s))"
proof (cases "replace_first f (fr_history s)")
  case None
  then have "fl_id f \<notin> ledger_ids s" by (simp add: replace_first_None ledger_ids_def)
  moreover have "fl_id f \<in> drawn cb s" using f(2) s(1) by (auto simp: routed_once_def)
  ultimately show ?thesis
    using recorded_marked_stays [OF s(1) f(1)] s(2)
    by (simp add: replace_failure_def None bindM_def record_returns [OF cb] updM_app)
next
  case (Some h)
  note ids = replace_first_ids [OF Some]
  then have "ledger_ids (s\<lparr>fr_history := h\<rparr>) = ledger_ids s" by (simp add: ledger_ids_def)
  moreover have "length h = length (fr_history s)" using ids by (metis length_map)
  moreover have "drawn cb (s\<lparr>fr_history := h\<rparr>) = drawn cb s" by (simp add: drawn_def)
  ultimately show ?thesis
    using s f ids by (auto simp: replace_failure_def Some stays_def routed_once_def ledger_ok_def unmarked_def list_all_iff)
qed

text \<open>A computation that keeps the invariant from wherever it starts.\<close>

definition stable :: "('w, 'c) Callbacks \<Rightarrow> string set \<Rightarrow> ('w Router, exn, 'r) sem \<Rightarrow> bool" where
  "stable cb H m \<longleftrightarrow> (\<forall>s. routed_once cb H s \<longrightarrow> fr_enabled s \<longrightarrow> stays cb H s (snd (m s)))"

lemma stable_bind: "stable cb H m \<Longrightarrow> (\<And>x. stable cb H (f x)) \<Longrightarrow> stable cb H (bindM m f)"
proof -
  assume m: "stable cb H m" and f: "\<And>x. stable cb H (f x)"
  have "stays cb H s (snd (bindM m f s))" if s: "routed_once cb H s" "fr_enabled s" for s
  proof -
    obtain r t where ms: "m s = (r, t)" by (cases "m s") blast
    have t: "stays cb H s t" using m s ms unfolding stable_def by (metis snd_conv)
    then have "routed_once cb H t" "fr_enabled t" using s by (simp_all add: stays_def)
    then have "stays cb H t (snd (f x t))" for x using f by (simp add: stable_def)
    then show ?thesis using ms t stays_trans [OF t] by (cases r) (simp_all add: bindM_def)
  qed
  then show ?thesis by (simp add: stable_def)
qed

lemma stable_const: "stable cb H (returnM x)" "stable cb H (throwM e)" "stable cb H (liftE g r)" "stable cb H (getM h)"
  by (simp_all add: stable_def returnM_app throwM_app getM_app stays_refl)

lemma stable_lift: "(\<And>x. r = Inr x \<Longrightarrow> stable cb H (f x)) \<Longrightarrow> stable cb H (bindM (liftE g r) f)"
  by (cases r) (simp_all add: stable_const)

lemma stable_attempt: "stable cb H (add_attempt cb a)"
  unfolding stable_def
proof (intro allI impI)
  fix s :: "'a Router"
  assume s: "routed_once cb H s"
  let ?t = "snd (add_attempt cb a s)"
  have "int (length (fr_attempts ?t)) \<le> fr_max_history s"
    using s by (simp add: add_attempt_def updM_app latest_of_length routed_once_def ledger_ok_def)
  then show "stays cb H s ?t"
    using s by (simp add: add_attempt_def updM_app stays_def routed_once_def ledger_ok_def unmarked_def ledger_ids_def drawn_def)
qed

lemma stable_put: "fresh_ids cb \<Longrightarrow> fl_id f \<in> H \<Longrightarrow> stable cb H (put_failure cb f)"
  unfolding put_failure_def
  by (intro stable_lift) (auto simp: stable_def new_failure_id new_failure_ok intro: replace_stays)

lemma emit_is:
  "emit cb code phase source status d details s =
     (let n = fr_draws s; t = s\<lparr>fr_draws := Suc n\<rparr> in
      case new_failure (cb_show cb) ((plain_failure (cb_fresh cb n) code source phase details)\<lparr>fl_status := status, fl_disposition := d\<rparr>) of
        Inl e \<Rightarrow> (Inl e, t) | Inr f \<Rightarrow> record_failure cb f t)"
  by (simp add: emit_def draw_def bindM_def getM_app updM_app returnM_app throwM_app liftE_def Let_def split: sum.split)

lemma stable_emit:
  assumes cb: "fresh_ids cb"
  shows "stable cb H (emit cb code phase source status d details)"
  unfolding stable_def
proof (intro allI impI)
  fix s :: "'a Router"
  assume s: "routed_once cb H s"
  let ?t = "s\<lparr>fr_draws := Suc (fr_draws s)\<rparr>"
  let ?new = "new_failure (cb_show cb) ((plain_failure (cb_fresh cb (fr_draws s)) code source phase details)
    \<lparr>fl_status := status, fl_disposition := d\<rparr>)"
  show "stays cb H s (snd (emit cb code phase source status d details s))"
  proof (cases ?new)
    case (Inl e)
    have "stays cb H s ?t" using s by (intro same_ledger_stays) simp_all
    then show ?thesis using Inl by (simp add: emit_is Let_def)
  next
    case (Inr f)
    have "fl_id f = fst (cb_fresh cb (fr_draws s))" using new_failure_id [OF Inr] by (simp add: plain_failure_def)
    then have "stays cb H s (snd (record_failure cb f ?t))"
      using new_failure_ok [OF Inr] by (intro new_record_stays [OF cb s])
    then show ?thesis using Inr by (simp add: emit_is Let_def)
  qed
qed

lemma stable_settle:
  assumes cb: "fresh_ids cb" and i: "fl_id f \<in> H" "fl_id g \<in> H"
  shows "stable cb H (settle cb f g binding answer)"
proof -
  have "stable cb H (handle_recovery_error cb g binding e)" for e
    unfolding handle_recovery_error_def Let_def
    by (intro stable_bind stable_emit [OF cb] stable_attempt stable_put [OF cb]) (simp_all add: i stable_const)
  then show ?thesis
    unfolding settle_def Let_def
    by (cases answer) (auto simp: i stable_const intro!: stable_bind stable_attempt stable_put [OF cb])
qed

lemma begin_route_is:
  assumes "begin_route cb f binding s = (Inr g, u)" and "fl_id f \<in> ledger_ids s"
  shows "\<exists>h. u = s\<lparr>fr_routed := insert (fl_id f) (fr_routed s), fr_history := h\<rparr> \<and> map fl_id h = map fl_id (fr_history s) \<and>
    set h \<subseteq> insert g (set (fr_history s)) \<and> failure_ok g \<and> fl_id g = fl_id f"
proof -
  let ?r = "f\<lparr>fl_status := RECOVERING, fl_handled_by := Some (rh_name (rb_handler binding))\<rparr>"
  have g: "new_failure (cb_show cb) ?r = Inr g"
    and u: "replace_failure cb g (s\<lparr>fr_routed := insert (fl_id f) (fr_routed s)\<rparr>) = (Inr (), u)"
    using assms(1) by (auto simp: begin_route_def bindM_updM bindM_Inr_iff liftE_def returnM_app throwM_app split: sum.splits)
  have ok: "failure_ok g" "fl_id g = fl_id f" using new_failure_ok [OF g] new_failure_id [OF g] by simp_all
  then obtain h where h: "replace_first g (fr_history s) = Some h"
    using assms(2) replace_first_None [of g "fr_history s"] by (auto simp: ledger_ids_def)
  then show ?thesis using u ok replace_first_ids [OF h] by (auto simp: replace_failure_def)
qed

text \<open>
  What a program does when handlers have been called with \<open>H\<close> before: it calls handlers with other
  failures, each once, and, when it is run by a handler, only with failures that were pending when it began.
\<close>

definition once_more :: "('w, 'c) Callbacks \<Rightarrow> string set \<Rightarrow> 'w Router \<Rightarrow> string list \<Rightarrow> 'w Router \<Rightarrow> bool" where
  "once_more cb H s l t \<longleftrightarrow> stays cb (H \<union> set l) s t \<and> distinct l \<and> set l \<inter> H = {} \<and>
     (fr_recovering s \<noteq> {} \<longrightarrow> set l \<subseteq> unmarked s)"

lemma once_more_Nil: "stays cb H s t \<Longrightarrow> once_more cb H s [] t"
  by (simp add: once_more_def)

lemma once_more_append:
  "once_more cb H s l t \<Longrightarrow> once_more cb (H \<union> set l) t l' u \<Longrightarrow> once_more cb H s (l @ l') u"
  unfolding once_more_def by (auto simp: stays_def Un_assoc)

lemma handler_start:
  assumes s: "routed_once cb H s" and f: "fl_id f \<in> ledger_ids s"
    and b: "binding_for f s = Some binding" and u: "begin_route cb f binding s = (Inr g, u)"
    and w: "w = u\<lparr>fr_recovering := insert (fl_id f) (fr_recovering u)\<rparr>"
  shows "routed_once cb (insert (fl_id f) H) w" and "unmarked w = unmarked s - {fl_id f}" and "fl_id g = fl_id f"
    and "fr_enabled w" and "fr_recovering w = insert (fl_id f) (fr_recovering s)"
    and "fl_id f \<notin> H \<union> fr_recovering s" and "fl_id f \<in> unmarked s" and "fr_draws w = fr_draws s"
    and "fr_max_history w = fr_max_history s" and "bound_codes w = bound_codes s"
proof -
  let ?i = "fl_id f"
  show en: "fr_enabled w" and i: "?i \<in> unmarked s"
    using b u f w begin_route_is [OF u f] by (auto simp: binding_for_def unmarked_def split: if_splits option.splits)
  then show "?i \<notin> H \<union> fr_recovering s" using s f(1) by (auto simp: routed_once_def unmarked_def)
  obtain h where h: "u = s\<lparr>fr_routed := insert ?i (fr_routed s), fr_history := h\<rparr>" "map fl_id h = map fl_id (fr_history s)"
      "set h \<subseteq> insert g (set (fr_history s))" "failure_ok g" "fl_id g = ?i"
    using begin_route_is [OF u f] by blast
  then show "fl_id g = ?i" by simp
  have ids: "ledger_ids w = ledger_ids s" "drawn cb w = drawn cb s" using h w by (simp_all add: ledger_ids_def drawn_def)
  have len: "length h = length (fr_history s)" using h(2) by (metis length_map)
  have all: "list_all failure_ok h" using s h(3,4) by (auto simp: routed_once_def ledger_ok_def list_all_iff)
  show "routed_once cb (insert ?i H) w"
    using s f h(1,2) w len all unfolding routed_once_def ledger_ok_def ids by auto
  show "unmarked w = unmarked s - {?i}" using h(1) w ids by (auto simp: unmarked_def)
  show "fr_recovering w = insert ?i (fr_recovering s)" "fr_draws w = fr_draws s" "fr_max_history w = fr_max_history s"
    "bound_codes w = bound_codes s" using h(1) w by simp_all
qed

lemma handled_once:
  assumes cb: "fresh_ids cb" and s: "routed_once cb H s" and f: "fl_id f \<in> ledger_ids s"
    and b: "binding_for f s = Some binding" and u: "begin_route cb f binding s = (Inr g, u)"
    and w: "w = u\<lparr>fr_recovering := insert (fl_id f) (fr_recovering u)\<rparr>"
    and nested: "routed_once cb (insert (fl_id f) H) w \<Longrightarrow> once_more cb (insert (fl_id f) H) w l v"
    and t: "settle cb f g binding answer (v\<lparr>fr_recovering := fr_recovering v - {fl_id f}\<rparr>) = (r, t)"
  shows "once_more cb H s (fl_id f # l) t"
proof -
  let ?i = "fl_id f"
  let ?H = "insert ?i H \<union> set l"
  let ?v = "v\<lparr>fr_recovering := fr_recovering v - {?i}\<rparr>"
  note start = handler_start [OF s f b u w]
  have v: "once_more cb (insert ?i H) w l v" by (rule nested) (rule start)
  then have stays_v: "stays cb ?H w v" by (simp add: once_more_def)
  have rw: "fr_recovering ?v = fr_recovering s" using stays_v start(5,6) by (simp add: stays_def)
  have um_v: "unmarked ?v = unmarked v" by (simp add: unmarked_def ledger_ids_def)
  have uv: "unmarked v \<subseteq> unmarked s" using stays_v start(2,5) by (auto simp: stays_def)
  have ro: "routed_once cb ?H ?v"
    using stays_v unfolding stays_def routed_once_def ledger_ok_def by (auto simp: ledger_ids_def drawn_def)
  have "stable cb ?H (settle cb f g binding answer)" by (rule stable_settle [OF cb]) (simp_all add: start(3))
  moreover have "fr_enabled ?v" using stays_v start(4) by (simp add: stays_def)
  ultimately have t': "stays cb ?H ?v t" using ro t unfolding stable_def by (metis snd_conv)
  have en: "fr_enabled s" using b by (auto simp: binding_for_def split: if_splits)
  have "stays cb ?H s t"
    using t' stays_v start(4,5,8-10) rw uv um_v en by (auto simp: stays_def)
  moreover have "set l \<subseteq> unmarked s - {?i}" using v start(2,5) by (auto simp: once_more_def)
  ultimately show ?thesis using v start(6,7) by (auto simp: once_more_def)
qed

lemma operations_once:
  assumes cb: "fresh_ids cb"
  shows "router_op cb s l t \<Longrightarrow> routed_once cb H s \<Longrightarrow> once_more cb H s l t"
    and "router_ops cb s l t \<Longrightarrow> routed_once cb H s \<Longrightarrow> once_more cb H s l t"
proof (induction arbitrary: H and H rule: router_op_router_ops.inducts)
  case (no_op s)
  then show ?case by (simp add: once_more_Nil stays_refl)
next
  case (then_op s l t l' u)
  then have one: "once_more cb H s l t" by blast
  then have "routed_once cb (H \<union> set l) t" by (simp add: once_more_def stays_def)
  with one then_op show ?case by (blast intro: once_more_append)
next
  case (new_record f s r t)
  then show ?case using new_record_stays [OF cb] by (metis once_more_Nil snd_conv)
next
  case (drawn_id s)
  then show ?case by (intro once_more_Nil same_ledger_stays) simp_all
next
  case (rules s rs)
  then show ?case by (intro once_more_Nil same_ledger_stays) simp_all
next
  case (bind_code code h include_recovered s r t)
  then show ?case
    by (intro once_more_Nil same_ledger_stays)
      (auto simp: on_failure_def liftE_def throwM_app updM_app bound_codes_def split: sum.splits if_splits)
next
  case (outside s w tags)
  then show ?case by (intro once_more_Nil same_ledger_stays) simp_all
next
  case (handled f s binding g u l v answer r t)
  then show ?case by (intro handled_once [OF cb _ _ _ _ refl]) auto
qed

subsection \<open>The functions of the router are such programs\<close>

lemma router_ops_then:
  shows "router_op cb s l t \<Longrightarrow> True"
    and "router_ops cb s l t \<Longrightarrow> router_ops cb t l' u \<Longrightarrow> router_ops cb s (l @ l') u"
proof (induction rule: router_op_router_ops.inducts)
  case (then_op s l t k v)
  then show ?case using router_op_router_ops.then_op by fastforce
qed simp_all

lemmas router_ops_append = router_ops_then(2)

lemma router_ops_single: "router_op cb s l t \<Longrightarrow> router_ops cb s l t"
  using router_op_router_ops.then_op [OF _ router_op_router_ops.no_op] by fastforce

lemma route_program:
  assumes cb: "fresh_ids cb" "handlers_use_router cb" and f: "failure_ok f" "fl_id f \<in> ledger_ids s"
    and route: "route cb f s = (r, t)"
  shows "if binding_for f s = None then t = s \<and> r = Inr None
    else (\<exists>l. router_ops cb s (fl_id f # l) t) \<and> r \<noteq> Inr None"
proof (cases "binding_for f s")
  case None
  then show ?thesis using route by (simp add: route_def bindM_getM returnM_app)
next
  case (Some b)
  let ?r = "f\<lparr>fl_status := RECOVERING, fl_handled_by := Some (rh_name (rb_handler b))\<rparr>"
  have ok: "failure_ok ?r" using f(1) by (simp add: failure_ok_def)
  obtain u where u: "begin_route cb f b s = (Inr ?r, u)"
    by (cases "replace_first ?r (fr_history s)")
      (auto simp: begin_route_def bindM_updM new_failure_fixed [OF ok] bindM_def replace_failure_def record_returns [OF cb(1)]
        updM_app returnM_app)
  let ?u = "u\<lparr>fr_recovering := insert (fl_id f) (fr_recovering u)\<rparr>"
  obtain a v where v: "cb_recover cb (rh_callback (rb_handler b)) ?r ?u = (a, v)" by fastforce
  then obtain l where l: "router_ops cb ?u l v"
    using cb(2) unfolding handlers_use_router_def by (metis snd_conv)
  obtain answer where c: "call_handler cb (rb_handler b) ?r u = (answer, v\<lparr>fr_recovering := fr_recovering v - {fl_id f}\<rparr>)"
    using v by (simp add: call_handler_def)
  have t: "settle cb f ?r b answer (v\<lparr>fr_recovering := fr_recovering v - {fl_id f}\<rparr>) = (r, t)"
    using route by (simp add: route_def bindM_getM Some bindM_Inr [where m = "begin_route cb f b" and s = s, OF u] c)
  have "router_op cb s (fl_id f # l) t"
    by (rule router_op_router_ops.handled [OF f(2,1) Some u l t])
  moreover have "r \<noteq> Inr None"
    using t by (auto simp: settle_def handle_recovery_error_def Let_def bindM_Inr_iff returnM_app throwM_app
        split: sum.splits if_splits)
  ultimately show ?thesis using Some router_ops_single [of cb s "fl_id f # l" t] by auto
qed

definition settled :: "('w, 'c) Callbacks \<Rightarrow> string \<Rightarrow> 'w Router \<Rightarrow> bool" where
  "settled cb i s \<longleftrightarrow> i \<in> drawn cb s \<and> (i \<in> ledger_ids s \<longrightarrow> i \<in> fr_routed s)"

lemma settled_stays:
  assumes cb: "fresh_ids cb" and s: "routed_once cb H s" and ops: "router_ops cb s l t" and i: "settled cb i s"
  shows "settled cb i t"
proof -
  have "routed_once cb (insert i H) s" using s i by (auto simp: routed_once_def settled_def)
  then have "once_more cb (insert i H) s l t" using operations_once(2) [OF cb ops] by blast
  then show ?thesis by (auto simp: once_more_def stays_def routed_once_def settled_def)
qed

definition must_route :: "'w Router \<Rightarrow> Failure \<Rightarrow> bool" where
  "must_route s f \<longleftrightarrow> eligible f \<and> fl_status f \<noteq> RECOVERED \<and> fl_code f \<in> bound_codes s"

lemma route_each_program:
  assumes cb: "fresh_ids cb" "handlers_use_router cb"
  shows "routed_once cb H s \<Longrightarrow> fr_enabled s \<Longrightarrow> live = ledger_ids s \<Longrightarrow> list_all failure_ok fs \<Longrightarrow>
    set (map fl_id fs) \<subseteq> drawn cb s \<Longrightarrow> route_each cb live fs results s = (r, t) \<Longrightarrow>
    \<exists>l. router_ops cb s l t \<and> (\<forall>rs. r = Inr rs \<longrightarrow> (\<forall>f \<in> set fs. must_route s f \<longrightarrow> settled cb (fl_id f) t))"
proof (induction fs arbitrary: H s live results)
  case Nil
  then show ?case using router_op_router_ops.no_op by (auto simp: returnM_app)
next
  case (Cons f fs)
  have f: "failure_ok f" "fl_id f \<in> drawn cb s" using Cons.prems by simp_all
  have skipped: ?case if rest: "route_each cb live fs results s = (r, t)" and "must_route s f \<longrightarrow> settled cb (fl_id f) s"
  proof -
    obtain l where l: "router_ops cb s l t" "\<forall>rs. r = Inr rs \<longrightarrow> (\<forall>f \<in> set fs. must_route s f \<longrightarrow> settled cb (fl_id f) t)"
      using Cons.IH [OF Cons.prems(1,2,3) _ _ rest] Cons.prems(4,5) by auto
    then show ?thesis using that(2) settled_stays [OF cb(1) Cons.prems(1) l(1)] by auto
  qed
  show ?case
  proof (cases "\<not> eligible f \<or> fl_id f \<in> fr_routed s \<or> fl_id f \<notin> live")
    case True
    then have "must_route s f \<longrightarrow> settled cb (fl_id f) s"
      using f(2) Cons.prems(3) by (auto simp: must_route_def settled_def)
    then show ?thesis using True Cons.prems(6) skipped by (simp add: bindM_getM)
  next
    case False
    then have id: "fl_id f \<in> ledger_ids s" using Cons.prems(3) by simp
    obtain q u where q: "route cb f s = (q, u)" by fastforce
    note p = route_program [OF cb f(1) id q]
    have run: "route_each cb live (f # fs) results s = (case q of Inl e \<Rightarrow> (Inl e, u)
        | Inr None \<Rightarrow> route_each cb live fs results u
        | Inr (Some x) \<Rightarrow> route_each cb (ledger_ids u) fs (results @ [x]) u)"
      using False q by (auto simp: bindM_getM bindM_def [of "route cb f"] split: sum.splits option.splits)
    show ?thesis
    proof (cases "binding_for f s = None")
      case True
      then have "\<not> must_route s f"
        using False Cons.prems(2) by (auto simp: binding_for_def must_route_def bound_codes_def split: option.splits if_splits)
      then show ?thesis using True p run Cons.prems(6) skipped by auto
    next
      case bound: False
      then obtain l where l: "router_ops cb s (fl_id f # l) u" and some: "q \<noteq> Inr None" using p by auto
      have om: "once_more cb H s (fl_id f # l) u" using operations_once(2) [OF cb(1) l Cons.prems(1)] .
      then have u: "routed_once cb (H \<union> set (fl_id f # l)) u" "fr_enabled u"
          "bound_codes s \<subseteq> bound_codes u" "fr_draws s \<le> fr_draws u"
        using Cons.prems(2) by (simp_all add: once_more_def stays_def)
      then have fu: "settled cb (fl_id f) u" by (auto simp: routed_once_def settled_def)
      show ?thesis
      proof (cases q)
        case (Inl e)
        then show ?thesis using run Cons.prems(6) l by auto
      next
        case (Inr x)
        then obtain y where "x = Some y" using some by (cases x) auto
        then have rest: "route_each cb (ledger_ids u) fs (results @ [y]) u = (r, t)" using run Cons.prems(6) Inr by simp
        have "set (map fl_id fs) \<subseteq> drawn cb u" using Cons.prems(5) drawn_mono [OF u(4), of cb] by auto
        then obtain l' where l': "router_ops cb u l' t"
            "\<forall>rs. r = Inr rs \<longrightarrow> (\<forall>f \<in> set fs. must_route u f \<longrightarrow> settled cb (fl_id f) t)"
          using Cons.IH [OF u(1,2) refl _ _ rest] Cons.prems(4) by auto
        have "must_route s g \<Longrightarrow> must_route u g" for g using u(3) by (auto simp: must_route_def)
        moreover have "settled cb (fl_id f) t" by (rule settled_stays [OF cb(1) u(1) l'(1) fu])
        ultimately show ?thesis using router_ops_append [OF l l'(1)] l'(2) by auto
      qed
    qed
  qed
qed

lemma new_router_once: "new_router m enabled w = Inr s \<Longrightarrow> routed_once cb {} s"
  by (auto simp: new_router_def routed_once_def ledger_ok_def ledger_ids_def drawn_def split: if_splits)

lemma route_pending_program:
  assumes cb: "fresh_ids cb" "handlers_use_router cb" and s: "routed_once cb H s" and run: "route_pending cb s = (r, t)"
  shows "\<exists>l. router_ops cb s l t \<and>
    (fr_enabled s \<longrightarrow> (\<forall>rs. r = Inr rs \<longrightarrow> (\<forall>f \<in> set (fr_history s). must_route s f \<longrightarrow> settled cb (fl_id f) t)))"
proof (cases "fr_enabled s")
  case False
  then show ?thesis using run router_op_router_ops.no_op by (auto simp: route_pending_def bindM_getM returnM_app)
next
  case True
  then have each: "route_each cb (ledger_ids s) (fr_history s) [] s = (r, t)"
    using run by (simp add: route_pending_def bindM_getM)
  have "list_all failure_ok (fr_history s)" and "set (map fl_id (fr_history s)) \<subseteq> drawn cb s"
    using s by (simp_all add: routed_once_def ledger_ok_def ledger_ids_def)
  then show ?thesis using route_each_program [OF cb s True refl _ _ each] by blast
qed

subsection \<open>Properties\<close>





subsection \<open>A router at work\<close>

text \<open>Its handler reports a failure of its own, which the ledger then holds besides the one recovered.\<close>

definition demo_base :: "(unit, unit) Callbacks" where
  "demo_base = \<lparr>cb_recover = \<lambda>_ _. throwM (ValueError []), cb_rule = \<lambda>_ _. returnM NoFailure, cb_capture = None,
     cb_show = \<lambda>_. [], cb_fresh = \<lambda>n. (replicate n (CHR ''i''), ''t''), cb_exceptions = []\<rparr>"

definition demo_report :: "(unit Router, exn, Failure) sem" where
  "demo_report = emit demo_base ''runtime.error'' RUNTIME ''handler'' EXHAUSTED ROUTE []"

definition demo_cb :: "(unit, unit) Callbacks" where
  "demo_cb = demo_base\<lparr>cb_recover := \<lambda>_ _. bindM demo_report (\<lambda>_. returnM
     (Recovered \<lparr>rr_succeeded = True, rr_disposition = CONTINUE, rr_value = VNone, rr_details = []\<rparr>))\<rparr>"

definition demo_failure :: "nat \<Rightarrow> Failure" where
  "demo_failure n = (plain_failure (replicate n (CHR ''i''), ''t'') ''runtime.error'' ''handler'' RUNTIME [])
     \<lparr>fl_status := EXHAUSTED, fl_disposition := ROUTE\<rparr>"

definition demo_handler :: RecoveryHandler where
  "demo_handler = \<lparr>rh_callback = 0, rh_callable = True, rh_name = ''retry'', rh_on_error = None\<rparr>"

definition demo_start :: "unit Router" where
  "demo_start = projr (new_router 2 True ())"

definition demo_bound :: "unit Router" where
  "demo_bound = snd (on_failure ''runtime.error'' demo_handler False demo_start)"

definition demo_router :: "unit Router" where
  "demo_router = snd (demo_report demo_bound)"

lemma demo_code: "''runtime.error'' \<in> set failure_codes"
  by (simp add: failure_codes_def)

lemma demo_new: "new_router 2 True () = Inr demo_start"
  by (simp add: demo_start_def new_router_def)

lemma demo_failure_ok: "failure_ok (demo_failure n)"
  by (simp add: failure_ok_def demo_failure_def plain_failure_def demo_code strip_def is_space_def safe_details_def)

lemma demo_report_is:
  "demo_report s = record_failure demo_cb (demo_failure (fr_draws s)) (s\<lparr>fr_draws := Suc (fr_draws s)\<rparr>)"
proof -
  have "new_failure (cb_show demo_base) (demo_failure n) = Inr (demo_failure n)" for n
    by (rule new_failure_fixed [OF demo_failure_ok])
  then show ?thesis
    by (simp add: demo_report_def emit_is Let_def demo_failure_def demo_base_def demo_cb_def record_failure_def)
qed

lemma demo_fresh: "fresh_ids demo_cb"
  by (auto simp: fresh_ids_def demo_cb_def demo_base_def inj_def dest: arg_cong [where f = length])

lemma demo_report_program: "router_ops demo_cb s [] (snd (demo_report s))"
proof (intro router_ops_single router_op_router_ops.new_record)
  show "fl_id (demo_failure (fr_draws s)) = fst (cb_fresh demo_cb (fr_draws s))"
    by (simp add: demo_failure_def plain_failure_def demo_cb_def demo_base_def)
  show "record_failure demo_cb (demo_failure (fr_draws s)) (s\<lparr>fr_draws := Suc (fr_draws s)\<rparr>) =
      (fst (demo_report s), snd (demo_report s))"
    by (simp add: demo_report_is)
qed (rule demo_failure_ok)

lemma demo_recover: "cb_recover demo_cb k f = bindM demo_report (\<lambda>_. returnM
     (Recovered \<lparr>rr_succeeded = True, rr_disposition = CONTINUE, rr_value = VNone, rr_details = []\<rparr>))"
  by (simp add: demo_cb_def)

lemma demo_handlers: "handlers_use_router demo_cb"
proof -
  have "snd (cb_recover demo_cb k f s) = snd (demo_report s)" for k f s
    by (simp add: demo_recover bindM_def returnM_app demo_report_is record_returns [OF demo_fresh])
  then show ?thesis using demo_report_program unfolding handlers_use_router_def by metis
qed

lemma demo_reached: "router_ops demo_cb demo_start [] demo_router"
proof -
  have "router_ops demo_cb demo_start [] demo_bound"
    unfolding demo_bound_def by (intro router_ops_single router_op_router_ops.bind_code [OF surjective_pairing])
  from router_ops_append [OF this demo_report_program] show ?thesis by (simp add: demo_router_def)
qed

lemma demo_router_is:
  "demo_router = \<lparr>fr_max_history = 2, fr_enabled = True, fr_history = [demo_failure 0], fr_rules = [],
     fr_bindings = [(''runtime.error'', \<lparr>rb_handler = demo_handler, rb_include_recovered = False\<rparr>)], fr_attempts = [],
     fr_routed = {}, fr_recovering = {}, fr_tags = [], fr_draws = 1, fr_world = ()\<rparr>"
  by (simp add: demo_router_def demo_report_is demo_bound_def on_failure_def demo_start_def new_router_def
      FailureCode_from_value_def demo_code demo_handler_def updM_app record_returns [OF demo_fresh] recorded_def
      latest_of_def)

lemma demo_changed:
  "new_failure show ((demo_failure n)\<lparr>fl_status := a, fl_handled_by := Some ''retry''\<rparr>) =
     Inr ((demo_failure n)\<lparr>fl_status := a, fl_handled_by := Some ''retry''\<rparr>)"
  "new_failure show ((demo_failure n)\<lparr>fl_status := a, fl_disposition := d, fl_details := [], fl_handled_by := Some ''retry''\<rparr>) =
     Inr ((demo_failure n)\<lparr>fl_status := a, fl_disposition := d, fl_details := [], fl_handled_by := Some ''retry''\<rparr>)"
  using demo_failure_ok [of n]
  by (intro new_failure_fixed; simp add: failure_ok_def demo_failure_def plain_failure_def safe_details_def)+

lemma demo_fields [simp]:
  "fl_id (demo_failure n) = replicate n (CHR ''i'')" "fl_code (demo_failure n) = ''runtime.error''"
  "fl_status (demo_failure n) = EXHAUSTED" "fl_disposition (demo_failure n) = ROUTE" "fl_details (demo_failure n) = []"
  by (simp_all add: demo_failure_def plain_failure_def)

lemma demo_routed:
  "\<exists>t. route_pending demo_cb demo_router =
     (Inr [\<lparr>rr_succeeded = True, rr_disposition = CONTINUE, rr_value = VNone, rr_details = []\<rparr>], t) \<and>
     map fl_status (fr_history t) = [RECOVERED, EXHAUSTED]"
  by (simp add: route_pending_def demo_router_is bindM_def getM_app updM_app returnM_app eligible_def ledger_ids_def route_def
      binding_for_def begin_route_def demo_handler_def demo_changed replace_failure_def call_handler_def demo_recover
      demo_report_is record_returns [OF demo_fresh] recorded_def latest_of_def settle_def add_attempt_def put_failure_def
      dict_merge_def Let_def)





end
