(* ===== verification/FR_Exceptions.thy ===== *)
theory FR_Exceptions
  imports FR_Once
begin

text \<open>
  The capture of exceptions: an exception that passes several boundaries of a session is one failure.
\<close>

subsection \<open>One record for an exception and those that wrap it\<close>

fun caused_by :: "(nat \<times> ExceptionObject) list \<Rightarrow> nat list \<Rightarrow> bool" where
  "caused_by objects (x # y # ys) \<longleftrightarrow> Option.bind (map_of objects x) eo_cause = Some y \<and> caused_by objects (y # ys)"
| "caused_by objects [x] \<longleftrightarrow> True"
| "caused_by objects [] \<longleftrightarrow> False"

text \<open>The objects the walk comes to: all that the explicit causes lead to.\<close>

inductive walked :: "(nat \<times> ExceptionObject) list \<Rightarrow> nat list \<Rightarrow> nat \<Rightarrow> nat \<Rightarrow> bool" for objects where
  here: "x \<notin> set seen \<Longrightarrow> walked objects seen x x"
| further: "x \<notin> set seen \<Longrightarrow> Option.bind (map_of objects x) eo_cause = Some y \<Longrightarrow>
     walked objects (x # seen) y z \<Longrightarrow> walked objects seen x z"

lemma walked_tagged: "walked objects seen x z \<Longrightarrow> set (tags_of tags z) \<subseteq> set (tagged_failure_ids objects tags seen (Some x))"
  by (induction rule: walked.induct) (auto simp: bind_eq_Some_conv)

lemma tagged_walked:
  "i \<in> set (tagged_failure_ids objects tags seen (Some x)) \<Longrightarrow> \<exists>z. walked objects seen x z \<and> i \<in> set (tags_of tags z)"
proof (induction objects tags seen "Some x" arbitrary: x rule: tagged_failure_ids.induct)
  case (2 objects tags seen x)
  show ?case
  proof (cases "i \<in> set (tags_of tags x)")
    case True
    then show ?thesis using 2(2) by (auto intro: walked.here split: if_splits)
  next
    case False
    then obtain obj where obj: "x \<notin> set seen" "map_of objects x = Some obj"
        "i \<in> set (tagged_failure_ids objects tags (x # seen) (eo_cause obj))"
      using 2(2) by (cases "map_of objects x") (auto split: if_splits)
    then obtain y where o: "eo_cause obj = Some y" by (cases "eo_cause obj") simp_all
    have "\<exists>z. walked objects (x # seen) y z \<and> i \<in> set (tags_of tags z)"
      using 2(1) [OF _ obj(2) o] obj(1,3) o by simp
    then obtain z where "walked objects (x # seen) y z" "i \<in> set (tags_of tags z)" using 2(1) by auto
    moreover have "Option.bind (map_of objects x) eo_cause = Some y" using obj(2) o by simp
    ultimately show ?thesis using walked.further [OF obj(1)] by blast
  qed
qed

lemma walked_closed:
  "walked objects seen x v \<Longrightarrow> Option.bind (map_of objects v) eo_cause = Some y \<Longrightarrow> y \<notin> set seen \<Longrightarrow> walked objects seen x y"
proof (induction rule: walked.induct)
  case (here x seen)
  then show ?case using walked.further [OF here(1,2) walked.here] by (cases "y = x") (auto intro: walked.here)
next
  case (further x seen y' z)
  then show ?case by (cases "y = x") (auto intro: walked.intros)
qed

lemma walked_chain: "walked objects [] x v \<Longrightarrow> caused_by objects (v # vs) \<Longrightarrow> walked objects [] x (last (v # vs))"
proof (induction vs arbitrary: v)
  case (Cons u vs)
  then have "walked objects [] x u" using walked_closed [OF Cons.prems(1), of u] by simp
  then show ?case using Cons by simp
qed simp

lemma walked_trans: "walked objects seen v z \<Longrightarrow> walked objects [] x v \<Longrightarrow> walked objects [] x z"
proof (induction rule: walked.induct)
  case (further v seen y z)
  then show ?case using walked_closed [OF further.prems further.hyps(2)] by simp
qed

lemma tagged_along_causes:
  assumes "caused_by objects (wraps @ [e])" and "i \<in> set (tagged_failure_ids objects tags [] (Some e))"
  shows "i \<in> set (tagged_failure_ids objects tags [] (Some (hd (wraps @ [e]))))"
proof -
  let ?x = "hd (wraps @ [e])"
  have xs: "wraps @ [e] = ?x # tl (wraps @ [e])" by (cases wraps) simp_all
  have "walked objects [] ?x ?x" by (simp add: walked.here)
  from walked_chain [OF this, of "tl (wraps @ [e])"] have "walked objects [] ?x e"
    using assms(1) xs by (metis last_snoc)
  moreover obtain z where z: "walked objects [] e z" "i \<in> set (tags_of tags z)" using tagged_walked [OF assms(2)] by blast
  ultimately show ?thesis using walked_trans [OF z(1)] walked_tagged [of objects "[]" ?x z tags] by blast
qed

lemma find_sound: "find P xs = Some x \<Longrightarrow> x \<in> set xs \<and> P x"
  by (induction xs) (auto split: if_splits)

lemma find_latest_in: "find_latest P h = Some f \<Longrightarrow> f \<in> set h \<and> P f"
  unfolding find_latest_def using find_sound [of P "rev h" f] by simp

lemma find_latest_Some: "g \<in> set h \<Longrightarrow> P g \<Longrightarrow> \<exists>f. find_latest P h = Some f \<and> f \<in> set h"
  using find_latest_in [of P h] by (cases "find_latest P h") (auto simp: find_latest_def find_None_iff)

lemma Failure_from_exception_id:
  "Failure_from_exception show fresh x phase source d ds = Inr f \<Longrightarrow> fl_id f = fst fresh"
  by (auto simp: Failure_from_exception_def Let_def plain_failure_def dest: new_failure_id)

lemma captured_is_tagged:
  assumes cb: "fresh_ids cb" and s: "routed_once cb H s" "fr_enabled s"
    and e: "eo_failure (object_of cb e) = None" "eo_taggable (object_of cb e)"
    and run: "capture_exception cb e phase source s = (Inr f, t)"
  shows "f \<in> set (fr_history t) \<and> List.member (tagged_failure_ids (cb_exceptions cb) (fr_tags t) [] (Some e)) (fl_id f)"
proof (cases "find_latest (\<lambda>f. List.member (tagged_failure_ids (cb_exceptions cb) (fr_tags s) [] (Some e)) (fl_id f)) (fr_history s)")
  case (Some g)
  then have "f = g \<and> t = s" using run e(1) by (simp add: capture_exception_def bindM_getM returnM_app Let_def)
  then show ?thesis using find_latest_in [OF Some] by simp
next
  case None
  let ?n = "fr_draws s"
  let ?s = "s\<lparr>fr_draws := Suc ?n\<rparr>"
  from None run e(1) have f: "Failure_from_exception (cb_show cb) (cb_fresh cb ?n) (eo_facts (object_of cb e)) phase source ROUTE [] = Inr f"
      and t: "t = tag_exception cb e (fl_id f) (recorded f ?s)"
    using s(2) by (auto simp: capture_exception_def bindM_def getM_app updM_app returnM_app throwM_app draw_def liftE_def
        record_returns [OF cb] split: sum.splits)
  have id: "fl_id f = fst (cb_fresh cb ?n)" by (rule Failure_from_exception_id [OF f])
  then have "fl_id f \<notin> ledger_ids ?s" "ledger_ok ?s"
    using fresh_not_drawn [OF cb, of s] s(1) by (auto simp: routed_once_def ledger_ids_def ledger_ok_def)
  then have "f \<in> set (fr_history (recorded f ?s))"
    by (auto simp: recorded_history latest_of_def ledger_ok_def)
  then show ?thesis using e(2) by (auto simp: t tag_exception_def tags_of_def)
qed


definition demo_exceptions :: "(unit, unit) Callbacks" where
  "demo_exceptions = demo_cb\<lparr>cb_exceptions :=
     [(0, \<lparr>eo_facts = \<lparr>xf_type = ''TimeoutError'', xf_module = ''builtins'', xf_declared = None, xf_status = VNone,
         xf_details = None\<rparr>, eo_cause = None, eo_failure = None, eo_taggable = True\<rparr>),
      (1, \<lparr>eo_facts = \<lparr>xf_type = ''AgentExecutionError'', xf_module = ''vidbyte'', xf_declared = None, xf_status = VNone,
         xf_details = None\<rparr>, eo_cause = Some 0, eo_failure = None, eo_taggable = True\<rparr>)]\<rparr>"

lemma demo_exceptions_fresh: "fresh_ids demo_exceptions"
  using demo_fresh by (simp add: fresh_ids_def demo_exceptions_def)

lemma demo_timeout_failure:
  "\<exists>f. Failure_from_exception show fresh \<lparr>xf_type = ''TimeoutError'', xf_module = ''builtins'', xf_declared = None,
     xf_status = VNone, xf_details = None\<rparr> RUNTIME ''session'' ROUTE [] = Inr f \<and> fl_code f = ''model.timeout''"
proof -
  have "FailureCode_from_exception \<lparr>xf_type = ''TimeoutError'', xf_module = ''builtins'', xf_declared = None,
     xf_status = VNone, xf_details = None\<rparr> = ''model.timeout''"
    by code_simp
  moreover have "''model.timeout'' \<in> set failure_codes" by (simp add: failure_codes_def)
  moreover have "strip ''session'' = ''session''" by (simp add: strip_def is_space_def)
  ultimately show ?thesis
    by (simp add: Failure_from_exception_def new_failure_def plain_failure_def FailureCode_from_value_def Let_def)
qed


end
