(* ===== verification/AG_Settings.thy ===== *)
theory AG_Settings
  imports MW_Limits MW_Retry "HOL-Library.List_Lexorder" "HOL-Library.Char_ord"
begin

text \<open>
  The settings of the agent loop: \<^verbatim>\<open>vidbyte/agents/settings/tool.py\<close> with the budgets it
  decides, the records of a recorded tool call and of a stop
  (\<^verbatim>\<open>vidbyte/lib/dataclasses/tools.py\<close>, \<^verbatim>\<open>agents.py\<close>), and the decision of the
  spend cap (\<^verbatim>\<open>vidbyte/agents/spend_cap.py\<close>).  The digest of a call's arguments is an
  argument, as are the texts of values.
\<close>

subsection \<open>Records\<close>

datatype AgentStopReason =
    FINAL_RESPONSE | IS_DONE | MAX_ITERATIONS | MAX_TOKENS | MAX_TOOL_CALLS | MAX_CALLS_PER_ITERATION
  | MAX_IDENTICAL_CALLS | MAX_CONSECUTIVE_FAILURES | MAX_ERROR_CALLS | SLIDING_WINDOW_MAX_CALLS | TIMEOUT
  | MAX_SPEND | MIDDLEWARE_ABORT | TOOL_SETTINGS_DENIED | TOOL_LOOP_LIMIT | CONTRACT_UNSATISFIED
  | FINISH_REVIEW_REJECTED | RUN_ERROR

definition stop_reason_value :: "AgentStopReason \<Rightarrow> string" where
  "stop_reason_value r = (case r of
       FINAL_RESPONSE \<Rightarrow> ''final_response'' | IS_DONE \<Rightarrow> ''is_done'' | MAX_ITERATIONS \<Rightarrow> ''max_iterations''
     | MAX_TOKENS \<Rightarrow> ''max_tokens'' | MAX_TOOL_CALLS \<Rightarrow> ''max_tool_calls''
     | MAX_CALLS_PER_ITERATION \<Rightarrow> ''max_calls_per_iteration'' | MAX_IDENTICAL_CALLS \<Rightarrow> ''max_identical_calls''
     | MAX_CONSECUTIVE_FAILURES \<Rightarrow> ''max_consecutive_failures'' | MAX_ERROR_CALLS \<Rightarrow> ''max_error_calls''
     | SLIDING_WINDOW_MAX_CALLS \<Rightarrow> ''sliding_window_max_calls'' | TIMEOUT \<Rightarrow> ''timeout'' | MAX_SPEND \<Rightarrow> ''max_spend''
     | MIDDLEWARE_ABORT \<Rightarrow> ''middleware_abort'' | TOOL_SETTINGS_DENIED \<Rightarrow> ''tool_settings_denied''
     | TOOL_LOOP_LIMIT \<Rightarrow> ''tool_loop_limit'' | CONTRACT_UNSATISFIED \<Rightarrow> ''contract_unsatisfied''
     | FINISH_REVIEW_REJECTED \<Rightarrow> ''finish_review_rejected'' | RUN_ERROR \<Rightarrow> ''error'')"

datatype ToolCallState = REQUESTED | SUCCEEDED | FAILED | DENIED

definition call_state_value :: "ToolCallState \<Rightarrow> string" where
  "call_state_value s = (case s of REQUESTED \<Rightarrow> ''requested'' | SUCCEEDED \<Rightarrow> ''succeeded'' | FAILED \<Rightarrow> ''failed''
     | DENIED \<Rightarrow> ''denied'')"

record ToolCallContext =
  tx_tool_name :: string
  tx_arguments :: dict
  tx_state :: ToolCallState
  tx_call_id :: "string option"
  tx_result :: "ToolResult option"
  tx_provider :: "string option"
  tx_metadata :: dict
  tx_iteration_count :: "int option"
  tx_activity :: "(dict \<times> dict) option"
  tx_model_visible_result :: "ToolResult option"

definition tool_success :: "string \<Rightarrow> string \<Rightarrow> dict \<Rightarrow> ToolResult" where
  "tool_success name out metadata =
     \<lparr>tres_tool_name = name, tres_status = SUCCESS, tres_output = out, tres_metadata = metadata\<rparr>"

definition tool_error :: "string \<Rightarrow> string \<Rightarrow> dict \<Rightarrow> ToolResult" where
  "tool_error name out metadata =
     \<lparr>tres_tool_name = name, tres_status = ERROR, tres_output = out, tres_metadata = metadata\<rparr>"

subsection \<open>Tool settings\<close>

record ToolSettings =
  ts_denied_tools :: "string list"
  ts_max_calls :: "int option"
  ts_max_calls_per_tool :: "(string \<times> int option) list"
  ts_result_max_chars :: "int option"
  ts_on_deny :: string
  ts_max_calls_per_iteration :: "int option"
  ts_max_identical_calls :: "int option"
  ts_max_consecutive_failures :: "int option"
  ts_max_error_calls :: "int option"
  ts_tool_timeout_seconds :: "rat option"
  ts_sliding_window_max_calls :: "int option"
  ts_sliding_window_iterations :: "int option"

fun strip_names :: "(pyval \<Rightarrow> string) \<Rightarrow> exn \<Rightarrow> pyval list \<Rightarrow> exn + string list" where
  "strip_names show blank [] = Inr []"
| "strip_names show blank (v # vs) =
     (let name = strip (text_of show (Some v)) in
      if name = [] then Inl blank else bindE (strip_names show blank vs) (\<lambda>ns. Inr (name # ns)))"

definition normalize_tool_names :: "(pyval \<Rightarrow> string) \<Rightarrow> pyval \<Rightarrow> exn + string list" where
  "normalize_tool_names show v =
     (let blank = ConfigurationError ''ToolSettings.denied_tools cannot include blank tool names.'' in
      case v of
        VStr _ \<Rightarrow> Inl (ConfigurationError ''ToolSettings.denied_tools must be an iterable of tool names, not a string.'')
      | VList vs \<Rightarrow> strip_names show blank vs
      | VDict d \<Rightarrow> strip_names show blank (map (VStr \<circ> fst) d)
      | _ \<Rightarrow> Inl (TypeError ''object is not iterable''))"

definition normalize_int :: "pyval \<Rightarrow> string \<Rightarrow> int \<Rightarrow> exn + int option" where
  "normalize_int v field minimum =
     (if v = VNone then Inr None
      else case plain_int v of
        None \<Rightarrow> Inl (ConfigurationError (''ToolSettings.'' @ field @ '' must be an integer.''))
      | Some n \<Rightarrow>
          if n < minimum
          then Inl (ConfigurationError (''ToolSettings.'' @ field @ '' must be '' @
            (if minimum = 0 then ''non-negative'' else ''greater than or equal to '' @ show_int minimum) @ ''.''))
          else Inr (Some n))"

fun call_limits :: "(string \<times> int option) list \<Rightarrow> dict \<Rightarrow> exn + (string \<times> int option) list" where
  "call_limits limits [] = Inr limits"
| "call_limits limits ((raw_name, raw_limit) # rest) =
     (let name = strip raw_name in
      if name = [] then Inl (ConfigurationError ''ToolSettings.max_calls_per_tool cannot include blank tool names.'')
      else bindE (normalize_int raw_limit (''max_calls_per_tool['' @ quoted name @ '']'') 1) (\<lambda>n.
           call_limits (dict_put name n limits) rest))"

definition normalize_call_limits :: "pyval \<Rightarrow> exn + (string \<times> int option) list" where
  "normalize_call_limits v =
     (case v of
        VDict d \<Rightarrow> call_limits [] d
      | _ \<Rightarrow> if truthy_text (\<lambda>_. ''x'') (Some v) = None then Inr [] else Inl (TypeError ''object is not a mapping''))"

definition normalize_timeout :: "pyval \<Rightarrow> exn + rat option" where
  "normalize_timeout v =
     (if v = VNone then Inr None
      else case v of
        VInt n \<Rightarrow> if int_overflows n \<or> n \<le> 0
                  then Inl (ConfigurationError ''ToolSettings.tool_timeout_seconds must be finite and greater than zero.'')
                  else Inr (Some (of_int n))
      | VFloat (Fin r) \<Rightarrow> if r \<le> 0
                  then Inl (ConfigurationError ''ToolSettings.tool_timeout_seconds must be finite and greater than zero.'')
                  else Inr (Some r)
      | VFloat _ \<Rightarrow> Inl (ConfigurationError ''ToolSettings.tool_timeout_seconds must be finite and greater than zero.'')
      | _ \<Rightarrow> Inl (ConfigurationError ''ToolSettings.tool_timeout_seconds must be a number.''))"

definition normalize_on_deny :: "(pyval \<Rightarrow> string) \<Rightarrow> pyval \<Rightarrow> exn + string" where
  "normalize_on_deny repr v =
     (case v of
        VStr s \<Rightarrow> if s = ''continue'' \<or> s = ''abort'' then Inr s
          else Inl (ConfigurationError (''ToolSettings.on_deny must be one of ('' @ quoted ''continue'' @ '', '' @
            quoted ''abort'' @ ''), got '' @ repr v @ ''.''))
      | _ \<Rightarrow> Inl (ConfigurationError (''ToolSettings.on_deny must be one of ('' @ quoted ''continue'' @ '', '' @
            quoted ''abort'' @ ''), got '' @ repr v @ ''.'')))"

record RawToolSettings =
  raw_denied_tools :: pyval
  raw_max_calls :: pyval
  raw_max_calls_per_tool :: pyval
  raw_result_max_chars :: pyval
  raw_on_deny :: pyval
  raw_max_calls_per_iteration :: pyval
  raw_max_identical_calls :: pyval
  raw_max_consecutive_failures :: pyval
  raw_max_error_calls :: pyval
  raw_tool_timeout_seconds :: pyval
  raw_sliding_window_max_calls :: pyval
  raw_sliding_window_iterations :: pyval

definition mk_ToolSettings ::
  "(pyval \<Rightarrow> string) \<Rightarrow> (pyval \<Rightarrow> string) \<Rightarrow> RawToolSettings \<Rightarrow> exn + ToolSettings" where
  "mk_ToolSettings show repr r =
     bindE (normalize_tool_names show (raw_denied_tools r)) (\<lambda>denied.
     bindE (normalize_call_limits (raw_max_calls_per_tool r)) (\<lambda>limits.
     bindE (normalize_int (raw_max_calls r) ''max_calls'' 1) (\<lambda>max_calls.
     bindE (normalize_int (raw_result_max_chars r) ''result_max_chars'' 0) (\<lambda>chars.
     bindE (normalize_int (raw_max_calls_per_iteration r) ''max_calls_per_iteration'' 1) (\<lambda>per_iteration.
     bindE (normalize_int (raw_max_identical_calls r) ''max_identical_calls'' 1) (\<lambda>identical.
     bindE (normalize_int (raw_max_consecutive_failures r) ''max_consecutive_failures'' 1) (\<lambda>consecutive.
     bindE (normalize_int (raw_max_error_calls r) ''max_error_calls'' 1) (\<lambda>errors.
     bindE (normalize_int (raw_sliding_window_max_calls r) ''sliding_window_max_calls'' 1) (\<lambda>window_calls.
     bindE (normalize_int (raw_sliding_window_iterations r) ''sliding_window_iterations'' 1) (\<lambda>window.
     bindE (normalize_timeout (raw_tool_timeout_seconds r)) (\<lambda>seconds.
     bindE (normalize_on_deny repr (raw_on_deny r)) (\<lambda>on_deny.
     if (window_calls \<noteq> None) \<noteq> (window \<noteq> None)
     then Inl (ConfigurationError (''ToolSettings.sliding_window_max_calls and '' @
            ''ToolSettings.sliding_window_iterations must both be set or both be omitted.''))
     else Inr \<lparr>ts_denied_tools = denied, ts_max_calls = max_calls, ts_max_calls_per_tool = limits,
            ts_result_max_chars = chars, ts_on_deny = on_deny, ts_max_calls_per_iteration = per_iteration,
            ts_max_identical_calls = identical, ts_max_consecutive_failures = consecutive,
            ts_max_error_calls = errors, ts_tool_timeout_seconds = seconds,
            ts_sliding_window_max_calls = window_calls, ts_sliding_window_iterations = window\<rparr>))))))))))))"

subsection \<open>Denials and truncation\<close>

definition denial :: "ToolSettings \<Rightarrow> string \<Rightarrow> (string \<times> int) list \<Rightarrow> (string \<times> dict) option" where
  "denial s tool_name executed_counts =
     (if tool_name \<in> set (ts_denied_tools s)
      then Some (''tool_settings_denied'', [(''tool_name'', VStr tool_name)])
      else let current = (case map_of executed_counts tool_name of None \<Rightarrow> 0 | Some n \<Rightarrow> n) in
        case map_of (ts_max_calls_per_tool s) tool_name of
          Some (Some limit) \<Rightarrow>
            if limit \<le> current
            then Some (''tool_settings_max_calls_per_tool'', [(''tool_name'', VStr tool_name),
              (''max_calls_per_tool'', VInt limit), (''current_calls'', VInt current)])
            else None
        | _ \<Rightarrow> None)"

definition aborts_on_deny :: "ToolSettings \<Rightarrow> bool" where
  "aborts_on_deny s \<longleftrightarrow> ts_on_deny s = ''abort''"

definition truncate_result :: "ToolSettings \<Rightarrow> ToolResult \<Rightarrow> ToolResult" where
  "truncate_result s r =
     (case ts_result_max_chars s of
        None \<Rightarrow> r
      | Some cap \<Rightarrow>
          if int (length (tres_output r)) \<le> cap then r
          else let omitted = int (length (tres_output r)) - cap in
            \<lparr>tres_tool_name = tres_tool_name r, tres_status = tres_status r,
             tres_output = take (nat cap) (tres_output r) @ CHR 0x0A #
               ''...[tool output truncated by ToolSettings: omitted '' @ show_int omitted @ '' characters]'',
             tres_metadata = dict_merge (tres_metadata r)
               [(''tool_settings_truncated'', VBool True), (''original_chars'', VInt (int (length (tres_output r)))),
                (''visible_chars'', VInt cap), (''truncated_chars'', VInt omitted)]\<rparr>)"

subsection \<open>Budgets\<close>

definition is_done_name :: string where
  "is_done_name = ''isDone''"

text \<open>The truth of a metadata value.\<close>

definition truthy_meta :: "pyval option \<Rightarrow> bool" where
  "truthy_meta v \<longleftrightarrow> truthy_text (\<lambda>_. ''x'') v \<noteq> None"

definition is_excluded_context :: "ToolCallContext \<Rightarrow> bool" where
  "is_excluded_context c \<longleftrightarrow>
     tx_state c = DENIED \<or> tx_tool_name c = is_done_name \<or> truthy_meta (map_of (tx_metadata c) ''internal'')"

definition countable_contexts :: "ToolCallContext list \<Rightarrow> ToolCallContext list" where
  "countable_contexts cs = filter (\<lambda>c. \<not> is_excluded_context c) cs"

definition count :: "('a \<Rightarrow> bool) \<Rightarrow> 'a list \<Rightarrow> int" where
  "count P xs = int (length (filter P xs))"

text \<open>
  \<open>dumps\<close> is the sorted JSON text of the arguments, none when they cannot be written as JSON,
  \<open>show\<close> their \<^verbatim>\<open>str\<close>, and \<open>digest\<close> the hexadecimal SHA-256.
\<close>

definition fingerprint ::
  "(dict \<Rightarrow> string option) \<Rightarrow> (dict \<Rightarrow> string) \<Rightarrow> (string \<Rightarrow> string) \<Rightarrow> string \<Rightarrow> dict \<Rightarrow> string" where
  "fingerprint dumps show digest tool_name arguments =
     tool_name @ '':'' @
       take 16 (digest (case dumps arguments of Some t \<Rightarrow> t | None \<Rightarrow> show arguments))"

definition per_iteration_budget_stop ::
  "ToolSettings \<Rightarrow> ToolCallContext list \<Rightarrow> int \<Rightarrow> (string \<times> dict) option" where
  "per_iteration_budget_stop s cs iteration =
     (case ts_max_calls_per_iteration s of
        None \<Rightarrow> None
      | Some limit \<Rightarrow>
          let current = count (\<lambda>c. tx_iteration_count c = Some iteration) cs in
          if current < limit then None
          else Some (''max_calls_per_iteration'', [(''max_calls_per_iteration'', VInt limit),
                 (''current_calls'', VInt current), (''iteration_count'', VInt iteration)]))"

definition in_window :: "int \<Rightarrow> int \<Rightarrow> ToolCallContext \<Rightarrow> bool" where
  "in_window start iteration c =
     (case tx_iteration_count c of None \<Rightarrow> False | Some i \<Rightarrow> start \<le> i \<and> i \<le> iteration)"

definition sliding_window_budget_stop ::
  "ToolSettings \<Rightarrow> ToolCallContext list \<Rightarrow> int \<Rightarrow> (string \<times> dict) option" where
  "sliding_window_budget_stop s cs iteration =
     (case (ts_sliding_window_max_calls s, ts_sliding_window_iterations s) of
        (Some limit, Some window) \<Rightarrow>
          let start = max 1 (iteration - window + 1); current = count (in_window start iteration) cs in
          if current < limit then None
          else Some (''sliding_window_max_calls'', [(''sliding_window_max_calls'', VInt limit),
                 (''sliding_window_iterations'', VInt window), (''current_calls'', VInt current),
                 (''iteration_count'', VInt iteration), (''window_start'', VInt start)])
      | _ \<Rightarrow> None)"

definition identical_call_budget_stop ::
  "(string \<Rightarrow> dict \<Rightarrow> string) \<Rightarrow> ToolSettings \<Rightarrow> string \<Rightarrow> dict \<Rightarrow> ToolCallContext list \<Rightarrow> (string \<times> dict) option" where
  "identical_call_budget_stop fp s tool_name arguments cs =
     (case ts_max_identical_calls s of
        None \<Rightarrow> None
      | Some limit \<Rightarrow>
          let candidate = fp tool_name arguments;
              current = count (\<lambda>c. fp (tx_tool_name c) (tx_arguments c) = candidate) cs in
          if current < limit then None
          else Some (''max_identical_calls'', [(''max_identical_calls'', VInt limit), (''current_calls'', VInt current),
                 (''tool_name'', VStr tool_name), (''fingerprint'', VStr candidate)]))"

definition budget_stop ::
  "(string \<Rightarrow> dict \<Rightarrow> string) \<Rightarrow> ToolSettings \<Rightarrow> string \<Rightarrow> dict \<Rightarrow> ToolCallContext list \<Rightarrow> int
   \<Rightarrow> (string \<times> dict) option" where
  "budget_stop fp s tool_name arguments call_contexts iteration =
     (let countable = countable_contexts call_contexts in
      or_else (per_iteration_budget_stop s countable iteration)
        (or_else (sliding_window_budget_stop s countable iteration)
          (identical_call_budget_stop fp s tool_name arguments countable)))"

definition consecutive_failure_budget_stop ::
  "ToolSettings \<Rightarrow> ToolCallContext list \<Rightarrow> (string \<times> dict) option" where
  "consecutive_failure_budget_stop s cs =
     (case ts_max_consecutive_failures s of
        None \<Rightarrow> None
      | Some limit \<Rightarrow>
          let streak = int (length (takeWhile (\<lambda>c. tx_state c = FAILED) (rev cs))) in
          if streak < limit then None
          else Some (''max_consecutive_failures'',
                 [(''max_consecutive_failures'', VInt limit), (''current_streak'', VInt streak)]))"

definition total_error_budget_stop :: "ToolSettings \<Rightarrow> ToolCallContext list \<Rightarrow> (string \<times> dict) option" where
  "total_error_budget_stop s cs =
     (case ts_max_error_calls s of
        None \<Rightarrow> None
      | Some limit \<Rightarrow>
          let total = count (\<lambda>c. tx_state c = FAILED) cs in
          if total < limit then None
          else Some (''max_error_calls'', [(''max_error_calls'', VInt limit), (''current_errors'', VInt total)]))"

definition failure_budget_stop :: "ToolSettings \<Rightarrow> ToolCallContext list \<Rightarrow> (string \<times> dict) option" where
  "failure_budget_stop s call_contexts =
     (let countable = countable_contexts call_contexts in
      or_else (consecutive_failure_budget_stop s countable) (total_error_budget_stop s countable))"

end
