(* ===== verification/AG_Contracts.thy ===== *)
theory AG_Contracts
  imports AG_Settings
begin

text \<open>
  What an agent must do before it may stop, and how much it may do: the output contracts
  (\<^verbatim>\<open>vidbyte/agents/contracts\<close>) with their owner (\<^verbatim>\<open>contract.py\<close>), the loop
  settings that hold them together with the budgets (\<^verbatim>\<open>settings/loop.py\<close>), the runtime
  configuration (\<^verbatim>\<open>lib/dataclasses/agents.py\<close>) and the spend cap
  (\<^verbatim>\<open>spend_cap.py\<close>).  The validation of a text against a schema and the texts of
  numbers are arguments.
\<close>

subsection \<open>Comparing numbers\<close>

definition fval_of :: "pyval \<Rightarrow> fval option" where
  "fval_of v = (case v of
       VInt n \<Rightarrow> Some (Fin (of_int n)) | VBool b \<Rightarrow> Some (Fin (if b then 1 else 0)) | VFloat x \<Rightarrow> Some x | _ \<Rightarrow> None)"

fun fval_le :: "fval \<Rightarrow> fval \<Rightarrow> bool" where
  "fval_le (Fin a) (Fin b) = (a \<le> b)"
| "fval_le NaN y = False"
| "fval_le x NaN = False"
| "fval_le MInf y = True"
| "fval_le x PInf = True"
| "fval_le x y = False"

text \<open>The comparison of two numbers; of anything else it would raise, which the callers exclude.\<close>

definition num_le :: "pyval \<Rightarrow> pyval \<Rightarrow> bool" where
  "num_le a b = (case (fval_of a, fval_of b) of (Some x, Some y) \<Rightarrow> fval_le x y | _ \<Rightarrow> False)"

lemma num_le_int [simp]: "num_le (VInt a) (VInt b) \<longleftrightarrow> a \<le> b"
  by (simp add: num_le_def fval_of_def)

lemma num_le_rat [simp]: "num_le (VFloat (Fin a)) (VFloat (Fin b)) \<longleftrightarrow> a \<le> b"
  by (simp add: num_le_def fval_of_def)

subsection \<open>Output contracts\<close>

record OutputContract =
  oc_name :: string
  oc_ceiling_key :: "string option"
  oc_minimum :: pyval
  oc_tool_name :: "string option"
  oc_satisfied :: "dict \<Rightarrow> bool"
  oc_error :: "dict \<Rightarrow> string"
  oc_observed :: "dict \<Rightarrow> pyval"

text \<open>\<open>counters.get(key) or 0\<close>.\<close>

definition counter_or_zero :: "dict \<Rightarrow> string \<Rightarrow> pyval" where
  "counter_or_zero counters key =
     (case map_of counters key of Some v \<Rightarrow> if truthy_meta (Some v) then v else VInt 0 | None \<Rightarrow> VInt 0)"

definition require_minimum :: "(pyval \<Rightarrow> string) \<Rightarrow> string \<Rightarrow> pyval \<Rightarrow> exn + unit" where
  "require_minimum show name minimum =
     (if fval_of minimum = None then Inl (TypeError ''minimum must be a number'')
      else if num_le minimum (VInt 0)
      then Inl (ConfigurationError (name @ '': minimum must be greater than zero, got '' @ show minimum @ ''.''))
      else Inr ())"

definition OutputContract_init ::
  "(pyval \<Rightarrow> string) \<Rightarrow> string \<Rightarrow> string \<Rightarrow> string option \<Rightarrow> string \<Rightarrow> pyval \<Rightarrow> exn + OutputContract" where
  "OutputContract_init show name key ceiling_key unit minimum =
     bindE (require_minimum show name minimum) (\<lambda>_.
     Inr \<lparr>oc_name = name, oc_ceiling_key = ceiling_key, oc_minimum = minimum, oc_tool_name = None,
          oc_satisfied = (\<lambda>c. num_le minimum (counter_or_zero c key)),
          oc_error = (\<lambda>c. ''Only '' @ show (counter_or_zero c key) @ '' '' @ unit @ '' so far; at least ''
            @ show minimum @ '' are required before finishing. Keep working.''),
          oc_observed = (\<lambda>c. counter_or_zero c key)\<rparr>)"

definition MinToolCalls where
  "MinToolCalls show = OutputContract_init show ''MinToolCalls'' ''tool_call_count'' (Some ''max_tool_calls'') ''tool calls''"

definition MinTokens where
  "MinTokens show = OutputContract_init show ''MinTokens'' ''tokens_used'' (Some ''max_tokens'') ''tokens''"

definition MinIterations where
  "MinIterations show = OutputContract_init show ''MinIterations'' ''iteration_count'' (Some ''max_iterations'') ''iterations''"

definition MinElapsedSeconds where
  "MinElapsedSeconds show =
     OutputContract_init show ''MinElapsedSeconds'' ''elapsed_seconds'' (Some ''timeout_seconds'') ''seconds''"

definition MinTimeTaken where
  "MinTimeTaken show =
     OutputContract_init show ''MinTimeTaken'' ''elapsed_seconds'' (Some ''timeout_seconds'') ''seconds''"

definition MinSuccessfulToolCalls where
  "MinSuccessfulToolCalls show =
     OutputContract_init show ''MinSuccessfulToolCalls'' ''successful_tool_call_count'' (Some ''max_tool_calls'')
       ''successful tool calls''"

definition MinDistinctTools where
  "MinDistinctTools show =
     OutputContract_init show ''MinDistinctTools'' ''distinct_tool_count'' (Some ''max_tool_calls'') ''distinct tools''"

definition MinFinalOutputChars where
  "MinFinalOutputChars show =
     OutputContract_init show ''MinFinalOutputChars'' ''final_output_chars'' None ''final output characters''"

definition MinFinalOutputTokens where
  "MinFinalOutputTokens show =
     OutputContract_init show ''MinFinalOutputTokens'' ''final_output_tokens'' None ''final output tokens''"

definition MinCompactions where
  "MinCompactions show = OutputContract_init show ''MinCompactions'' ''compaction_count'' None ''compactions''"

definition calls_by_id_observed :: "string \<Rightarrow> dict \<Rightarrow> pyval" where
  "calls_by_id_observed tool_name counters =
     (case map_of counters ''tool_calls_by_name'' of
        Some (VDict counts) \<Rightarrow> (case map_of counts tool_name of Some (VInt n) \<Rightarrow> VInt n | _ \<Rightarrow> VInt 0)
      | _ \<Rightarrow> VInt 0)"

definition MinToolCallsById :: "(pyval \<Rightarrow> string) \<Rightarrow> pyval \<Rightarrow> pyval \<Rightarrow> exn + OutputContract" where
  "MinToolCallsById show tool_name minimum =
     bindE (require_minimum show ''MinToolCallsById'' minimum) (\<lambda>_.
     let normalized = (case tool_name of VStr s \<Rightarrow> strip s | _ \<Rightarrow> []) in
     if normalized = [] then Inl (ConfigurationError ''MinToolCallsById: tool_name must be a non-empty string.'')
     else Inr \<lparr>oc_name = ''MinToolCallsById'', oc_ceiling_key = Some ''max_tool_calls'', oc_minimum = minimum,
            oc_tool_name = Some normalized,
            oc_satisfied = (\<lambda>c. num_le minimum (calls_by_id_observed normalized c)),
            oc_error = (\<lambda>c. ''Only '' @ show (calls_by_id_observed normalized c) @ '' calls to '' @ quoted normalized
              @ '' so far; at least '' @ show minimum @ '' are required before finishing. Keep working.''),
            oc_observed = calls_by_id_observed normalized\<rparr>)"

definition cost_observed :: "rat option \<Rightarrow> dict \<Rightarrow> rat" where
  "cost_observed rate counters =
     (let spend = (case map_of counters ''cost_spent_usd'' of
            Some (VFloat (Fin x)) \<Rightarrow> Some x | Some (VInt n) \<Rightarrow> Some (of_int n) | _ \<Rightarrow> None) in
      case (spend, rate) of
        (Some x, None) \<Rightarrow> x
      | (None, None) \<Rightarrow> 0
      | (_, Some r) \<Rightarrow>
          if (case spend of Some x \<Rightarrow> 0 < x | None \<Rightarrow> False) then the spend
          else (case counter_or_zero counters ''tokens_used'' of VInt n \<Rightarrow> of_int n | _ \<Rightarrow> 0) / 1000000 * r)"

definition MinCostSpent ::
  "(pyval \<Rightarrow> string) \<Rightarrow> (pyval \<Rightarrow> string) \<Rightarrow> pyval \<Rightarrow> rat option \<Rightarrow> exn + OutputContract" where
  "MinCostSpent show usd minimum rate =
     bindE (require_minimum show ''MinCostSpent'' minimum) (\<lambda>_.
     if (case rate of Some r \<Rightarrow> r \<le> 0 | None \<Rightarrow> False)
     then Inl (ConfigurationError (''MinCostSpent: cost_per_million_tokens must be greater than zero when provided, ''
            @ ''got '' @ show (VFloat (Fin (the rate))) @ ''.''))
     else Inr \<lparr>oc_name = ''MinCostSpent'', oc_ceiling_key = None, oc_minimum = minimum, oc_tool_name = None,
            oc_satisfied = (\<lambda>c. num_le minimum (VFloat (Fin (cost_observed rate c)))),
            oc_error = (\<lambda>c. ''Only $'' @ usd (VFloat (Fin (cost_observed rate c))) @ '' USD spent so far; at least $''
              @ usd minimum @ '' are required before finishing. Keep working.''),
            oc_observed = (\<lambda>c. VFloat (Fin (cost_observed rate c)))\<rparr>)"

text \<open>\<open>validate\<close> checks a text against the declared schema: the value, or what is wrong.\<close>

definition schema_evaluate :: "(string \<Rightarrow> pyval \<times> string option) \<Rightarrow> dict \<Rightarrow> pyval \<times> string option" where
  "schema_evaluate validate counters =
     validate (case map_of counters ''final_output'' of Some (VStr s) \<Rightarrow> s | _ \<Rightarrow> [])"

definition SchemaConformance :: "(string \<Rightarrow> pyval \<times> string option) \<Rightarrow> OutputContract" where
  "SchemaConformance validate =
     \<lparr>oc_name = ''SchemaConformance'', oc_ceiling_key = None, oc_minimum = VInt 1, oc_tool_name = None,
      oc_satisfied = (\<lambda>c. snd (schema_evaluate validate c) = None),
      oc_error = (\<lambda>c. ''Your response did not match the required output schema: '' @
        (case snd (schema_evaluate validate c) of
           Some e \<Rightarrow> if e = [] then ''the output was empty'' else e | None \<Rightarrow> ''the output was empty'')
        @ ''. Reply with only a JSON object matching the schema.''),
      oc_observed = (\<lambda>c. VInt (if snd (schema_evaluate validate c) = None then 1 else 0))\<rparr>"

subsection \<open>The contracts of an agent\<close>

record OutputContracts =
  ow_contracts :: "OutputContract list"
  ow_max_rejections :: "int option"

definition contracts_active :: "OutputContracts \<Rightarrow> bool" where
  "contracts_active o' \<longleftrightarrow> ow_contracts o' \<noteq> []"

definition with_contract :: "OutputContracts \<Rightarrow> OutputContract \<Rightarrow> OutputContracts" where
  "with_contract o' c = o'\<lparr>ow_contracts := ow_contracts o' @ [c]\<rparr>"

definition unmet :: "OutputContracts \<Rightarrow> dict \<Rightarrow> OutputContract list" where
  "unmet o' counters = filter (\<lambda>c. \<not> oc_satisfied c counters) (ow_contracts o')"

text \<open>A missing budget passes the checks of the settings; the comparison with it raises.\<close>

definition exhausted :: "OutputContracts \<Rightarrow> int \<Rightarrow> exn + bool" where
  "exhausted o' rejections = (case ow_max_rejections o' of
       Some m \<Rightarrow> Inr (m \<le> rejections) | None \<Rightarrow> Inl (TypeError ''int and NoneType are not ordered''))"

fun joined :: "string \<Rightarrow> string list \<Rightarrow> string" where
  "joined sep [] = []"
| "joined sep [x] = x"
| "joined sep (x # y # zs) = x @ sep @ joined sep (y # zs)"

definition feedback :: "OutputContract list \<Rightarrow> dict \<Rightarrow> string" where
  "feedback cs counters =
     ''You cannot finish yet:'' @ CHR 0x0A # joined [CHR 0x0A] (map (\<lambda>c. ''- '' @ oc_error c counters) cs)"

definition report_row :: "OutputContract \<Rightarrow> dict \<Rightarrow> pyval" where
  "report_row c counters = VDict
     ([(''name'', VStr (oc_name c)), (''satisfied'', VBool (oc_satisfied c counters)), (''minimum'', oc_minimum c),
       (''observed'', oc_observed c counters)]
      @ (if oc_satisfied c counters then [] else [(''error'', VStr (oc_error c counters))])
      @ (case oc_tool_name c of None \<Rightarrow> [] | Some t \<Rightarrow> [(''tool_name'', VStr t)]))"

definition contracts_report :: "OutputContracts \<Rightarrow> dict \<Rightarrow> pyval" where
  "contracts_report o' counters = VList (map (\<lambda>c. report_row c counters) (ow_contracts o'))"

subsection \<open>Loop settings\<close>

definition allowed_tool_names :: "(pyval \<Rightarrow> string) \<Rightarrow> pyval \<Rightarrow> exn + string list" where
  "allowed_tool_names show v =
     (let blank = ConfigurationError ''AgentLoopSettings.allowed_tools cannot include blank tool names.'' in
      case v of
        VStr _ \<Rightarrow> Inl (ConfigurationError ''AgentLoopSettings.allowed_tools must be an iterable of tool names, not a string.'')
      | VList vs \<Rightarrow> strip_names show blank vs
      | VDict d \<Rightarrow> strip_names show blank (map (VStr \<circ> fst) d)
      | _ \<Rightarrow> Inl (TypeError ''object is not iterable''))"

definition float_max :: rat where
  "float_max = 2 ^ 1024 - 2 ^ 971"

definition require_number :: "(pyval \<Rightarrow> string) \<Rightarrow> pyval \<Rightarrow> string \<Rightarrow> exn + rat" where
  "require_number received v field =
     (let bad = Inl (ConfigurationError (field @ '' must be a finite number greater than 0 and at most ''
            @ received (VFloat (Fin float_max)) @ ''; got '' @ received v @ ''.'')) in
      bindE (finite_number v) (\<lambda>r. case r of
        None \<Rightarrow> bad
      | Some x \<Rightarrow> if x \<le> 0 \<or> float_max < x then bad else Inr x))"

record AgentLoopSettings =
  ls_max_iterations :: "int option"
  ls_max_tokens :: "int option"
  ls_max_tool_calls :: "int option"
  ls_max_queued_prompts :: "int option"
  ls_max_parallel_tool_calls :: "int option"
  ls_max_retries :: "int option"
  ls_context_window_budget :: "int option"
  ls_compaction_trigger_tokens :: "int option"
  ls_compaction_target_tokens :: "int option"
  ls_max_contract_rejections :: "int option"
  ls_timeout_seconds :: "rat option"
  ls_max_spend_usd :: "rat option"
  ls_allowed_tools :: "string list option"
  ls_tool_error_policy :: "ToolErrorPolicy option"
  ls_tool_settings :: "ToolSettings option"
  ls_output_contracts :: "OutputContract list"

definition positive_int_field :: "(pyval \<Rightarrow> string) \<Rightarrow> string \<Rightarrow> pyval \<Rightarrow> exn + int option" where
  "positive_int_field repr field v =
     (if v = VNone then Inr None
      else case plain_int v of
        Some n \<Rightarrow> if n \<le> 0
          then Inl (ConfigurationError (''AgentLoopSettings.'' @ field @ '' must be a positive integer when provided, got ''
                 @ repr v @ ''.''))
          else Inr (Some n)
      | None \<Rightarrow> Inl (ConfigurationError (''AgentLoopSettings.'' @ field @ '' must be a positive integer when provided, got ''
                 @ repr v @ ''.'')))"

definition timeout_field :: "(pyval \<Rightarrow> string) \<Rightarrow> pyval \<Rightarrow> exn + rat option" where
  "timeout_field repr v =
     (let bad = Inl (ConfigurationError (''AgentLoopSettings.timeout_seconds must be a finite positive number when provided, got ''
            @ repr v @ ''.'')) in
      if v = VNone then Inr None
      else bindE (finite_number v) (\<lambda>r. case r of None \<Rightarrow> bad | Some x \<Rightarrow> if x \<le> 0 then bad else Inr (Some x)))"

text \<open>\<open>getattr(self, key, None)\<close>, for the fields that hold a number.\<close>

definition ceiling_of :: "AgentLoopSettings \<Rightarrow> string \<Rightarrow> pyval option" where
  "ceiling_of s key =
     (case map_of [(''max_iterations'', ls_max_iterations s), (''max_tokens'', ls_max_tokens s),
        (''max_tool_calls'', ls_max_tool_calls s), (''max_queued_prompts'', ls_max_queued_prompts s),
        (''max_parallel_tool_calls'', ls_max_parallel_tool_calls s), (''max_retries'', ls_max_retries s),
        (''context_window_budget'', ls_context_window_budget s),
        (''compaction_trigger_tokens'', ls_compaction_trigger_tokens s),
        (''compaction_target_tokens'', ls_compaction_target_tokens s),
        (''max_contract_rejections'', ls_max_contract_rejections s)] key of
        Some n \<Rightarrow> map_option VInt n
      | None \<Rightarrow>
          if key = ''timeout_seconds'' then map_option (VFloat \<circ> Fin) (ls_timeout_seconds s)
          else if key = ''max_spend_usd'' then map_option (VFloat \<circ> Fin) (ls_max_spend_usd s)
          else None)"

definition contract_ceiling :: "AgentLoopSettings \<Rightarrow> string \<Rightarrow> (pyval \<times> string) option" where
  "contract_ceiling s key =
     (case ceiling_of s key of
        Some c \<Rightarrow> Some (c, ''AgentLoopSettings.'' @ key)
      | None \<Rightarrow>
          if key = ''max_tool_calls''
          then case ls_tool_settings s of
              None \<Rightarrow> None
            | Some t \<Rightarrow> map_option (\<lambda>n. (VInt n, ''ToolSettings.max_calls'')) (ts_max_calls t)
          else None)"

definition validate_contract_ceiling ::
  "(pyval \<Rightarrow> string) \<Rightarrow> AgentLoopSettings \<Rightarrow> OutputContract \<Rightarrow> exn + unit" where
  "validate_contract_ceiling show s c =
     (case oc_ceiling_key c of
        None \<Rightarrow> Inr ()
      | Some key \<Rightarrow>
          let inclusive = (key = ''max_iterations'') in
          case (if key = [] then None else contract_ceiling s key) of
            None \<Rightarrow> Inr ()
          | Some (ceil, source) \<Rightarrow>
              if (if inclusive then num_le ceil (oc_minimum c) \<and> \<not> num_le (oc_minimum c) ceil else num_le ceil (oc_minimum c))
              then Inl (ConfigurationError (oc_name c @ ''(minimum='' @ show (oc_minimum c) @ '') conflicts with ''
                     @ source @ ''='' @ show ceil @ '': the floor is unreachable (''
                     @ (if inclusive then ''require minimum <= max_iterations'' else ''require minimum < ceiling'') @ '').''))
              else Inr ())"

text \<open>The contract is a \<open>MinToolCallsById\<close> when it names a tool.\<close>

definition validate_tool_calls_by_id_ceiling ::
  "(pyval \<Rightarrow> string) \<Rightarrow> AgentLoopSettings \<Rightarrow> OutputContract \<Rightarrow> exn + unit" where
  "validate_tool_calls_by_id_ceiling show s c =
     (case (oc_tool_name c, ls_tool_settings s) of
        (Some tool, Some t) \<Rightarrow>
          (case map_of (ts_max_calls_per_tool t) tool of
             Some (Some limit) \<Rightarrow>
               if num_le (VInt limit) (oc_minimum c) \<and> \<not> num_le (oc_minimum c) (VInt limit)
               then Inl (ConfigurationError (oc_name c @ ''(tool_name='' @ quoted tool @ '', minimum='' @ show (oc_minimum c)
                      @ '') conflicts with ToolSettings.max_calls_per_tool['' @ quoted tool @ '']='' @ show_int limit
                      @ '': the floor is unreachable (require minimum <= max_calls_per_tool).''))
               else Inr ()
           | _ \<Rightarrow> Inr ())
      | _ \<Rightarrow> Inr ())"

fun validate_output_contracts ::
  "(pyval \<Rightarrow> string) \<Rightarrow> AgentLoopSettings \<Rightarrow> OutputContract list \<Rightarrow> exn + unit" where
  "validate_output_contracts show s [] = Inr ()"
| "validate_output_contracts show s (c # cs) =
     bindE (validate_contract_ceiling show s c) (\<lambda>_.
     bindE (validate_tool_calls_by_id_ceiling show s c) (\<lambda>_.
     validate_output_contracts show s cs))"

definition validate_compaction_pair :: "AgentLoopSettings \<Rightarrow> exn + unit" where
  "validate_compaction_pair s =
     (case (ls_compaction_trigger_tokens s, ls_compaction_target_tokens s) of
        (Some trigger, Some target) \<Rightarrow>
          if trigger \<le> target
          then Inl (ConfigurationError (''AgentLoopSettings.compaction_target_tokens ('' @ show_int target
                 @ '') must be less than compaction_trigger_tokens ('' @ show_int trigger @ '').''))
          else Inr ()
      | _ \<Rightarrow> Inr ())"

definition validate_tool_settings :: "AgentLoopSettings \<Rightarrow> exn + unit" where
  "validate_tool_settings s =
     (case (ls_tool_settings s, ls_max_tool_calls s) of
        (Some t, Some n) \<Rightarrow>
          (case ts_max_calls t of
             Some m \<Rightarrow> if m \<noteq> n
               then Inl (ConfigurationError (''AgentLoopSettings.max_tool_calls and ToolSettings.max_calls must match ''
                      @ ''when both are provided.''))
               else Inr ()
           | None \<Rightarrow> Inr ())
      | _ \<Rightarrow> Inr ())"

record RawLoopSettings =
  rl_ints :: "string \<Rightarrow> pyval"
  rl_timeout_seconds :: pyval
  rl_max_spend_usd :: pyval
  rl_allowed_tools :: pyval
  rl_tool_error_policy :: "ToolErrorPolicy option"
  rl_tool_settings :: "ToolSettings option"
  rl_output_contracts :: "OutputContract list"

definition mk_AgentLoopSettings ::
  "(pyval \<Rightarrow> string) \<Rightarrow> (pyval \<Rightarrow> string) \<Rightarrow> (pyval \<Rightarrow> string) \<Rightarrow> RawLoopSettings \<Rightarrow> exn + AgentLoopSettings" where
  "mk_AgentLoopSettings show repr received r =
     (let int_field = (\<lambda>field. positive_int_field repr field (rl_ints r field)) in
     bindE (if rl_max_spend_usd r = VNone then Inr None
            else bindE (require_number received (rl_max_spend_usd r) ''AgentLoopSettings.max_spend_usd'') (\<lambda>x. Inr (Some x))) (\<lambda>spend.
     bindE (if rl_allowed_tools r = VNone then Inr None
            else bindE (allowed_tool_names show (rl_allowed_tools r)) (\<lambda>ns. Inr (Some ns))) (\<lambda>allowed.
     bindE (int_field ''max_iterations'') (\<lambda>iterations.
     bindE (int_field ''max_tokens'') (\<lambda>tokens.
     bindE (int_field ''max_tool_calls'') (\<lambda>tool_calls.
     bindE (int_field ''max_queued_prompts'') (\<lambda>prompts.
     bindE (int_field ''max_parallel_tool_calls'') (\<lambda>parallel.
     bindE (int_field ''max_retries'') (\<lambda>retries.
     bindE (int_field ''context_window_budget'') (\<lambda>window.
     bindE (int_field ''compaction_trigger_tokens'') (\<lambda>trigger.
     bindE (int_field ''compaction_target_tokens'') (\<lambda>target.
     bindE (int_field ''max_contract_rejections'') (\<lambda>rejections.
     bindE (timeout_field repr (rl_timeout_seconds r)) (\<lambda>seconds.
     let s = \<lparr>ls_max_iterations = iterations, ls_max_tokens = tokens, ls_max_tool_calls = tool_calls,
         ls_max_queued_prompts = prompts, ls_max_parallel_tool_calls = parallel, ls_max_retries = retries,
         ls_context_window_budget = window, ls_compaction_trigger_tokens = trigger,
         ls_compaction_target_tokens = target, ls_max_contract_rejections = rejections,
         ls_timeout_seconds = seconds, ls_max_spend_usd = spend, ls_allowed_tools = allowed,
         ls_tool_error_policy = rl_tool_error_policy r, ls_tool_settings = rl_tool_settings r,
         ls_output_contracts = rl_output_contracts r\<rparr> in
     bindE (validate_compaction_pair s) (\<lambda>_.
     bindE (validate_tool_settings s) (\<lambda>_.
     bindE (validate_output_contracts show s (ls_output_contracts s)) (\<lambda>_.
     Inr s)))))))))))))))))"

definition settings_contracts :: "AgentLoopSettings \<Rightarrow> OutputContracts" where
  "settings_contracts s =
     \<lparr>ow_contracts = ls_output_contracts s, ow_max_rejections = ls_max_contract_rejections s\<rparr>"

subsection \<open>The configuration of a runtime\<close>

record AgentRuntimeConfig =
  ac_max_iterations :: "int option"
  ac_max_tokens :: "int option"
  ac_max_tool_calls :: "int option"
  ac_timeout_seconds :: "rat option"
  ac_compaction_trigger_tokens :: "int option"
  ac_compaction_target_tokens :: "int option"
  ac_tool_settings :: "ToolSettings option"
  ac_allowed_tools :: "string list option"
  ac_max_spend_usd :: "rat option"

definition positive_or :: "string \<Rightarrow> 'a::linordered_idom option \<Rightarrow> exn + unit" where
  "positive_or field v = (case v of
       Some n \<Rightarrow> if n \<le> 0 then Inl (ValueError (field @ '' must be greater than zero when provided.'')) else Inr ()
     | None \<Rightarrow> Inr ())"

definition mk_AgentRuntimeConfig :: "(pyval \<Rightarrow> string) \<Rightarrow> AgentRuntimeConfig \<Rightarrow> exn + AgentRuntimeConfig" where
  "mk_AgentRuntimeConfig received c =
     bindE (positive_or ''max_iterations'' (ac_max_iterations c)) (\<lambda>_.
     bindE (positive_or ''max_tokens'' (ac_max_tokens c)) (\<lambda>_.
     bindE (positive_or ''max_tool_calls'' (ac_max_tool_calls c)) (\<lambda>_.
     bindE (positive_or ''compaction_trigger_tokens'' (ac_compaction_trigger_tokens c)) (\<lambda>_.
     bindE (positive_or ''compaction_target_tokens'' (ac_compaction_target_tokens c)) (\<lambda>_.
     bindE (positive_or ''timeout_seconds'' (ac_timeout_seconds c)) (\<lambda>_.
     bindE (case ac_max_spend_usd c of None \<Rightarrow> Inr ()
            | Some x \<Rightarrow> bindE (require_number received (VFloat (Fin x)) ''AgentRuntimeConfig.max_spend_usd'') (\<lambda>_. Inr ())) (\<lambda>_.
     Inr c)))))))"

definition to_runtime_config :: "(pyval \<Rightarrow> string) \<Rightarrow> AgentLoopSettings \<Rightarrow> exn + AgentRuntimeConfig" where
  "to_runtime_config received s =
     (let max_tool_calls =
        (case ls_tool_settings s of
           Some t \<Rightarrow> (case ts_max_calls t of Some n \<Rightarrow> Some n | None \<Rightarrow> ls_max_tool_calls s)
         | None \<Rightarrow> ls_max_tool_calls s) in
      mk_AgentRuntimeConfig received
        \<lparr>ac_max_iterations = ls_max_iterations s, ac_max_tokens = ls_max_tokens s, ac_max_tool_calls = max_tool_calls,
         ac_timeout_seconds = ls_timeout_seconds s, ac_compaction_trigger_tokens = ls_compaction_trigger_tokens s,
         ac_compaction_target_tokens = ls_compaction_target_tokens s, ac_tool_settings = ls_tool_settings s,
         ac_allowed_tools = ls_allowed_tools s, ac_max_spend_usd = ls_max_spend_usd s\<rparr>)"

subsection \<open>The spend cap\<close>

text \<open>The part of a usage rollup the cap reads: the calls and operations with their costs.\<close>

record UsageRollup =
  ur_calls :: "(string \<times> string \<times> rat option) list"
  ur_operations :: "(string \<times> string \<times> rat option) list"
  ur_cost_usd :: "rat option"
  ur_corrupted :: bool
  ur_unaccounted_call_count :: int

definition cost_measured :: "UsageRollup \<Rightarrow> bool" where
  "cost_measured u \<longleftrightarrow> \<not> ur_corrupted u \<and> ur_unaccounted_call_count u = 0 \<and>
     list_all (\<lambda>(_, _, cost). cost \<noteq> None) (ur_calls u) \<and> list_all (\<lambda>(_, _, cost). cost \<noteq> None) (ur_operations u)"

definition unpriced :: "(string \<times> string \<times> rat option) list \<Rightarrow> string list" where
  "unpriced rs = sort (remdups (map (\<lambda>(a, b, _). a @ '':'' @ b) (filter (\<lambda>(_, _, cost). cost = None) rs)))"

definition blind_causes :: "UsageRollup \<Rightarrow> string list" where
  "blind_causes u =
     (let calls = unpriced (ur_calls u); operations = unpriced (ur_operations u) in
      (if calls = [] then [] else [''no price for '' @ joined '', '' calls])
      @ (if operations = [] then [] else [''no price for operation '' @ joined '', '' operations])
      @ (if ur_unaccounted_call_count u = 0 then []
         else [show_int (ur_unaccounted_call_count u) @ '' model calls reported no usage''])
      @ (if ur_corrupted u then [''usage recording failed''] else []))"

definition stop_output :: "rat \<Rightarrow> UsageRollup \<Rightarrow> string option" where
  "stop_output max_spend_usd u =
     (if (case ur_cost_usd u of Some c \<Rightarrow> max_spend_usd \<le> c | None \<Rightarrow> False)
      then Some ''Agent runtime stopped after reaching max_spend_usd.''
      else if cost_measured u then None
      else Some (''Agent runtime stopped because max_spend_usd is set and this run'' @ [CHR 0x27]
             @ ''s spend could not be fully measured: '' @ joined ''; '' (blind_causes u) @ ''.''))"

end
