(* ===== verification/AG_Wire.thy ===== *)
theory AG_Wire
  imports AG_Contracts SE_Codec
begin

text \<open>
  The shapes in which tool calls and their results travel:
  \<^verbatim>\<open>vidbyte/lib/tools/formatter.py\<close>, the parsing of a provider's tool calls, the
  assistant turn that repeats them, and the message that answers one call.  The declarations of
  tools are in \<open>AG_Declare\<close>.  A response is given by its payload; JSON and the \<^verbatim>\<open>str\<close>
  of a value are arguments.
\<close>

subsection \<open>Reading payloads\<close>

definition get_or_none :: "dict \<Rightarrow> string \<Rightarrow> pyval" where
  "get_or_none d k = (case map_of d k of Some v \<Rightarrow> v | None \<Rightarrow> VNone)"

definition py_or :: "pyval \<Rightarrow> pyval \<Rightarrow> pyval" where
  "py_or a b = (if truthy_meta (Some a) then a else b)"

definition str_of :: "(pyval \<Rightarrow> string) \<Rightarrow> pyval \<Rightarrow> string" where
  "str_of show v = text_of show (Some v)"

definition str_or_none :: "string \<Rightarrow> string option" where
  "str_or_none s = (if s = [] then None else Some s)"

definition get_or_default :: "dict \<Rightarrow> string \<Rightarrow> pyval \<Rightarrow> pyval" where
  "get_or_default d k v = (case map_of d k of Some x \<Rightarrow> x | None \<Rightarrow> v)"

lemma str_of_VStr [simp]: "str_of show (VStr s) = s"
  by (simp add: str_of_def text_of_def)

lemma truthy_VStr [simp]: "truthy_meta (Some (VStr s)) \<longleftrightarrow> s \<noteq> []"
  by (simp add: truthy_meta_def truthy_text_def)

lemma truthy_None [simp]: "\<not> truthy_meta None"
  by (simp add: truthy_meta_def truthy_text_def)

lemma truthy_VNone [simp]: "\<not> truthy_meta (Some VNone)"
  by (simp add: truthy_meta_def truthy_text_def)

text \<open>Equality of values: dictionaries are equal whatever the order of their keys.\<close>

fun py_eq :: "pyval \<Rightarrow> pyval \<Rightarrow> bool"
  and all_eq :: "pyval list \<Rightarrow> pyval list \<Rightarrow> bool"
  and keys_eq :: "(string \<times> pyval) list \<Rightarrow> (string \<times> pyval) list \<Rightarrow> bool" where
  "py_eq (VList xs) v = (case v of VList ys \<Rightarrow> all_eq xs ys | _ \<Rightarrow> False)"
| "py_eq (VDict d) v = (case v of VDict e \<Rightarrow> length d = length e \<and> keys_eq d e | _ \<Rightarrow> False)"
| "py_eq u v = (case (fval_of u, fval_of v) of
     (Some x, Some y) \<Rightarrow> x = y \<and> x \<noteq> NaN | (None, None) \<Rightarrow> u = v | _ \<Rightarrow> False)"
| "all_eq [] ys = (ys = [])"
| "all_eq (x # xs) ys = (case ys of [] \<Rightarrow> False | y # zs \<Rightarrow> py_eq x y \<and> all_eq xs zs)"
| "keys_eq [] e = True"
| "keys_eq ((k, v) # d) e = ((case map_of e k of None \<Rightarrow> False | Some u \<Rightarrow> py_eq v u) \<and> keys_eq d e)"

subsection \<open>Provider families\<close>

definition provider_family_hints :: "(string list \<times> string) list" where
  "provider_family_hints =
     [([''openrouter''], ''openai''), ([''anthropic'', ''claude''], ''anthropic''),
      ([''gemini'', ''google''], ''gemini''), ([''grok'', ''xai''], ''xai'')]"

definition provider_from_model :: "string option \<Rightarrow> string" where
  "provider_from_model p =
     (case p of
        None \<Rightarrow> ''openai''
      | Some s \<Rightarrow>
          if s = [] then ''openai''
          else case List.find (\<lambda>(tokens, _). list_ex (\<lambda>t. contains_text t (lower s)) tokens) provider_family_hints of
              Some (_, family) \<Rightarrow> family
            | None \<Rightarrow> ''openai'')"

definition wire_format :: "string option \<Rightarrow> string" where
  "wire_format p =
     (let family = provider_from_model p in
      if family = ''anthropic'' \<or> family = ''gemini'' then family else ''openai'')"

subsection \<open>Parsing tool calls\<close>

definition mk_ToolCall :: "string \<Rightarrow> dict \<Rightarrow> string option \<Rightarrow> dict \<Rightarrow> exn + ToolCall" where
  "mk_ToolCall name arguments call_id metadata =
     (if strip name = [] then Inl (ValueError ''ToolCall.tool_name cannot be empty'')
      else Inr \<lparr>tc_tool_name = name, tc_arguments = arguments, tc_call_id = call_id, tc_metadata = metadata,
             tc_activity = None\<rparr>)"

definition parse_arguments :: "(string \<Rightarrow> exn + pyval) \<Rightarrow> pyval \<Rightarrow> exn + dict" where
  "parse_arguments loads raw =
     (let bad = Inl (ValueError ''Tool call arguments must decode to an object'') in
      case raw of
        VNone \<Rightarrow> Inr []
      | VDict d \<Rightarrow> Inr d
      | VStr s \<Rightarrow>
          if strip s = [] then Inr []
          else bindE (loads s) (\<lambda>parsed. case parsed of VNone \<Rightarrow> Inr [] | VDict d \<Rightarrow> Inr d | _ \<Rightarrow> bad)
      | _ \<Rightarrow> bad)"

definition parse_openai_tool_call ::
  "(pyval \<Rightarrow> string) \<Rightarrow> (string \<Rightarrow> exn + pyval) \<Rightarrow> dict \<Rightarrow> exn + ToolCall" where
  "parse_openai_tool_call show loads raw_call =
     (case get_or_default raw_call ''function'' (VDict raw_call) of
        VDict function \<Rightarrow>
          bindE (parse_arguments loads (get_or_default function ''arguments'' (VDict []))) (\<lambda>arguments.
          mk_ToolCall (str_of show (get_or_default function ''name'' (VStr []))) arguments
            (str_or_none (str_of show (py_or (py_or (get_or_none raw_call ''id'') (get_or_none raw_call ''call_id'')) (VStr []))))
            [])
      | _ \<Rightarrow> Inl (ValueError ''OpenAI tool call must include a function object''))"

definition parse_anthropic_tool_call :: "(pyval \<Rightarrow> string) \<Rightarrow> dict \<Rightarrow> exn + ToolCall" where
  "parse_anthropic_tool_call show raw_call =
     (let call_id = str_or_none (str_of show (py_or (get_or_none raw_call ''id'') (VStr [])));
          name = str_of show (get_or_default raw_call ''name'' (VStr [])) in
      case get_or_default raw_call ''input'' (VDict []) of
        VNone \<Rightarrow> mk_ToolCall name [] call_id []
      | VDict d \<Rightarrow> mk_ToolCall name d call_id []
      | _ \<Rightarrow> Inl (ValueError ''Anthropic tool input must be an object''))"

definition parse_gemini_tool_call :: "(pyval \<Rightarrow> string) \<Rightarrow> dict \<Rightarrow> exn + ToolCall" where
  "parse_gemini_tool_call show raw_call =
     (case py_or (py_or (get_or_none raw_call ''functionCall'') (get_or_none raw_call ''function_call'')) (VDict raw_call) of
        VDict fc \<Rightarrow>
          let call_id = str_or_none (str_of show (py_or (py_or (get_or_none fc ''id'') (get_or_none raw_call ''id'')) (VStr [])));
              name = str_of show (get_or_default fc ''name'' (VStr [])) in
          (case get_or_default fc ''args'' (VDict []) of
             VNone \<Rightarrow> mk_ToolCall name [] call_id []
           | VDict d \<Rightarrow> mk_ToolCall name d call_id []
           | _ \<Rightarrow> Inl (ValueError ''Gemini function call args must be an object''))
      | _ \<Rightarrow> Inl (ValueError ''Gemini tool call must include a function call object''))"

definition is_call_item :: "dict \<Rightarrow> bool" where
  "is_call_item item \<longleftrightarrow>
     get_or_none item ''type'' = VStr ''function_call'' \<or> get_or_none item ''type'' = VStr ''tool_call''"

fun mapE :: "('a \<Rightarrow> exn + 'b) \<Rightarrow> 'a list \<Rightarrow> exn + 'b list" where
  "mapE f [] = Inr []"
| "mapE f (x # xs) = bindE (f x) (\<lambda>y. bindE (mapE f xs) (\<lambda>ys. Inr (y # ys)))"

fun dicts_of :: "pyval list \<Rightarrow> dict list" where
  "dicts_of [] = []"
| "dicts_of (v # vs) = (case v of VDict d \<Rightarrow> d # dicts_of vs | _ \<Rightarrow> dicts_of vs)"

definition list_of :: "pyval \<Rightarrow> pyval list" where
  "list_of v = (case v of VList xs \<Rightarrow> xs | _ \<Rightarrow> [])"

definition dict_of :: "pyval \<Rightarrow> dict" where
  "dict_of v = (case v of VDict d \<Rightarrow> d | _ \<Rightarrow> [])"

definition parse_responses_item ::
  "(pyval \<Rightarrow> string) \<Rightarrow> (string \<Rightarrow> exn + pyval) \<Rightarrow> dict \<Rightarrow> exn + ToolCall" where
  "parse_responses_item show loads item =
     bindE (parse_arguments loads (get_or_default item ''arguments'' (VDict []))) (\<lambda>arguments.
     mk_ToolCall (str_of show (get_or_default item ''name'' (VStr []))) arguments
       (str_or_none (str_of show (py_or (py_or (get_or_none item ''call_id'') (get_or_none item ''id'')) (VStr []))))
       [(''provider_shape'', VStr ''openai_responses'')])"

text \<open>The raw calls of the choices of a chat completion.\<close>

definition choice_calls :: "dict \<Rightarrow> dict list" where
  "choice_calls choice =
     dicts_of (list_of (get_or_none (dict_of (get_or_none choice ''message'')) ''tool_calls''))"

definition parse_openai_tool_calls ::
  "(pyval \<Rightarrow> string) \<Rightarrow> (string \<Rightarrow> exn + pyval) \<Rightarrow> dict \<Rightarrow> exn + ToolCall list" where
  "parse_openai_tool_calls show loads raw_payload =
     bindE (mapE (parse_responses_item show loads)
              (filter is_call_item (dicts_of (list_of (get_or_none raw_payload ''output''))))) (\<lambda>responses.
     bindE (mapE (parse_openai_tool_call show loads)
              (concat (map choice_calls (dicts_of (list_of (get_or_none raw_payload ''choices'')))))) (\<lambda>chat.
     Inr (filter (\<lambda>c. tc_tool_name c \<noteq> []) (responses @ chat))))"

definition parse_anthropic_tool_calls :: "(pyval \<Rightarrow> string) \<Rightarrow> dict \<Rightarrow> exn + ToolCall list" where
  "parse_anthropic_tool_calls show raw_payload =
     bindE (mapE (parse_anthropic_tool_call show)
              (filter (\<lambda>d. get_or_none d ''type'' = VStr ''tool_use'')
                (dicts_of (list_of (get_or_none raw_payload ''content''))))) (\<lambda>calls.
     Inr (filter (\<lambda>c. tc_tool_name c \<noteq> []) calls))"

definition has_function_call :: "dict \<Rightarrow> bool" where
  "has_function_call part \<longleftrightarrow> map_of part ''functionCall'' \<noteq> None \<or> map_of part ''function_call'' \<noteq> None"

definition candidate_parts :: "dict \<Rightarrow> dict list" where
  "candidate_parts candidate =
     filter has_function_call (dicts_of (list_of (get_or_none (dict_of (get_or_none candidate ''content'')) ''parts'')))"

definition parse_gemini_tool_calls :: "(pyval \<Rightarrow> string) \<Rightarrow> dict \<Rightarrow> exn + ToolCall list" where
  "parse_gemini_tool_calls show raw_payload =
     bindE (mapE (parse_gemini_tool_call show)
              (concat (map candidate_parts (dicts_of (list_of (get_or_none raw_payload ''candidates'')))))) (\<lambda>calls.
     Inr (filter (\<lambda>c. tc_tool_name c \<noteq> []) calls))"

definition parse_tool_calls ::
  "(pyval \<Rightarrow> string) \<Rightarrow> (string \<Rightarrow> exn + pyval) \<Rightarrow> pyval \<Rightarrow> string \<Rightarrow> exn + ToolCall list" where
  "parse_tool_calls show loads raw provider_or_model =
     (case raw of
        VDict payload \<Rightarrow>
          (let provider = provider_from_model (Some provider_or_model) in
           if provider = ''anthropic'' then parse_anthropic_tool_calls show payload
           else if provider = ''gemini'' then parse_gemini_tool_calls show payload
           else parse_openai_tool_calls show loads payload)
      | _ \<Rightarrow> Inr [])"

subsection \<open>The assistant turn\<close>

definition echoed_chat_tool_call :: "(pyval \<Rightarrow> string) \<Rightarrow> pyval \<Rightarrow> pyval" where
  "echoed_chat_tool_call show raw =
     (case raw of
        VDict raw_call \<Rightarrow>
          if truthy_meta (map_of raw_call ''id'') then raw
          else let name = (case get_or_default raw_call ''function'' (VDict raw_call) of
                   VDict f \<Rightarrow> get_or_default f ''name'' (VStr []) | _ \<Rightarrow> VStr []) in
            VDict (dict_put ''id'' (VStr (str_of show (py_or (get_or_none raw_call ''call_id'') name))) raw_call)
      | _ \<Rightarrow> raw)"

definition arguments_json :: "(pyval \<Rightarrow> string) \<Rightarrow> pyval \<Rightarrow> string" where
  "arguments_json dumps v = (case v of VStr s \<Rightarrow> s | VNone \<Rightarrow> dumps (VDict []) | _ \<Rightarrow> dumps v)"

definition responses_tool_call :: "(pyval \<Rightarrow> string) \<Rightarrow> (pyval \<Rightarrow> string) \<Rightarrow> dict \<Rightarrow> pyval" where
  "responses_tool_call show dumps item = VDict
     [(''id'', VStr (str_of show (py_or (py_or (get_or_none item ''call_id'') (get_or_none item ''id''))
         (get_or_default item ''name'' (VStr []))))),
      (''type'', VStr ''function''),
      (''function'', VDict [(''name'', VStr (str_of show (get_or_default item ''name'' (VStr [])))),
         (''arguments'', VStr (arguments_json dumps (get_or_none item ''arguments'')))])]"

definition responses_texts :: "(pyval \<Rightarrow> string) \<Rightarrow> dict list \<Rightarrow> string list" where
  "responses_texts show items =
     concat (map (\<lambda>item.
       if get_or_none item ''type'' = VStr ''message''
       then map (\<lambda>part. str_of show (get_or_default part ''text'' (VStr [])))
              (filter (\<lambda>part. get_or_none part ''type'' = VStr ''output_text'')
                (dicts_of (list_of (get_or_none item ''content''))))
       else []) items)"

definition assistant_turn_openai_responses ::
  "(pyval \<Rightarrow> string) \<Rightarrow> (pyval \<Rightarrow> string) \<Rightarrow> pyval list \<Rightarrow> dict option" where
  "assistant_turn_openai_responses show dumps out =
     (let items = dicts_of out;
          tool_calls = map (responses_tool_call show dumps)
            (filter (\<lambda>item. is_call_item item \<and> truthy_meta (map_of item ''name'')) items);
          content = concat (responses_texts show items) in
      if tool_calls = [] then None
      else Some [(''role'', VStr ''assistant''), (''content'', if content = [] then VNone else VStr content),
                 (''tool_calls'', VList tool_calls)])"

definition assistant_turn_openai ::
  "(pyval \<Rightarrow> string) \<Rightarrow> (pyval \<Rightarrow> string) \<Rightarrow> dict \<Rightarrow> dict option" where
  "assistant_turn_openai show dumps raw_payload =
     (case get_or_none raw_payload ''output'' of
        VList out \<Rightarrow> assistant_turn_openai_responses show dumps out
      | _ \<Rightarrow>
          (case get_or_none raw_payload ''choices'' of
             VList (VDict choice # _) \<Rightarrow>
               (case get_or_none choice ''message'' of
                  VDict message \<Rightarrow>
                    (case get_or_none message ''tool_calls'' of
                       VList calls \<Rightarrow> Some (dict_put ''tool_calls'' (VList (map (echoed_chat_tool_call show) calls)) message)
                     | _ \<Rightarrow> None)
                | _ \<Rightarrow> None)
           | _ \<Rightarrow> None))"

definition assistant_turn_anthropic :: "dict \<Rightarrow> dict option" where
  "assistant_turn_anthropic raw_payload =
     (case get_or_none raw_payload ''content'' of
        VList content \<Rightarrow>
          if list_ex (\<lambda>d. get_or_none d ''type'' = VStr ''tool_use'') (dicts_of content)
          then Some [(''role'', VStr ''assistant''), (''content'', VList content)] else None
      | _ \<Rightarrow> None)"

definition assistant_turn_gemini :: "dict \<Rightarrow> dict option" where
  "assistant_turn_gemini raw_payload =
     (case get_or_none raw_payload ''candidates'' of
        VList (VDict candidate # _) \<Rightarrow>
          (case get_or_none candidate ''content'' of
             VDict content \<Rightarrow>
               (case get_or_none content ''parts'' of
                  VList parts \<Rightarrow> if list_ex has_function_call (dicts_of parts) then Some content else None
                | _ \<Rightarrow> None)
           | _ \<Rightarrow> None)
      | _ \<Rightarrow> None)"

definition format_assistant_tool_calls ::
  "(pyval \<Rightarrow> string) \<Rightarrow> (pyval \<Rightarrow> string) \<Rightarrow> pyval \<Rightarrow> string \<Rightarrow> dict option" where
  "format_assistant_tool_calls show dumps raw provider_or_model =
     (case raw of
        VDict payload \<Rightarrow>
          (let provider = provider_from_model (Some provider_or_model) in
           if provider = ''anthropic'' then assistant_turn_anthropic payload
           else if provider = ''gemini'' then assistant_turn_gemini payload
           else assistant_turn_openai show dumps payload)
      | _ \<Rightarrow> None)"

subsection \<open>The answer to a tool call\<close>

definition clean_text :: "(pyval \<Rightarrow> string) \<Rightarrow> pyval \<Rightarrow> string option" where
  "clean_text show v =
     (if v = VNone then None
      else let t = strip (str_of show v) in if t = [] then None else Some (take 1000 t))"

definition normalized_error_kind :: "(pyval \<Rightarrow> string) \<Rightarrow> pyval \<Rightarrow> string" where
  "normalized_error_kind show raw_kind =
     (let raw = lower (strip (str_of show (py_or raw_kind (VStr ''execution_error'')))) in
      if raw \<in> set [''validation'', ''validation_error'', ''argument_error'', ''arguments_error'']
      then ''invalid_arguments'' else if raw = [] then ''execution_error'' else raw)"

definition normalized_retryable :: "pyval \<Rightarrow> bool option" where
  "normalized_retryable v =
     (case v of
        VBool b \<Rightarrow> Some b
      | VStr s \<Rightarrow>
          (let t = lower (strip s) in
           if t \<in> set [''true'', ''1'', ''yes''] then Some True
           else if t \<in> set [''false'', ''0'', ''no''] then Some False else None)
      | _ \<Rightarrow> None)"

definition model_visible_error_message :: "(pyval \<Rightarrow> string) \<Rightarrow> string \<Rightarrow> dict \<Rightarrow> string" where
  "model_visible_error_message show out metadata =
     (if strip out \<noteq> [] then strip out
      else case clean_text show (get_or_none metadata ''safe_message'') of Some t \<Rightarrow> t | None \<Rightarrow> ''Tool failed.'')"

definition detail_text :: "(pyval \<Rightarrow> string) \<Rightarrow> dict \<Rightarrow> string option" where
  "detail_text show metadata =
     clean_text show (py_or (py_or (get_or_none metadata ''detail'') (get_or_none metadata ''exception''))
       (get_or_none metadata ''traceback''))"

record ErrorParts =
  ep_kind :: string
  ep_message :: string
  ep_hint :: "string option"
  ep_retryable :: "bool option"
  ep_detail :: "string option"

definition error_parts :: "(pyval \<Rightarrow> string) \<Rightarrow> ToolResult \<Rightarrow> ErrorParts" where
  "error_parts show r =
     (let metadata = tres_metadata r in
      \<lparr>ep_kind = normalized_error_kind show (py_or (get_or_none metadata ''error'') (get_or_none metadata ''error_type'')),
       ep_message = model_visible_error_message show (tres_output r) metadata,
       ep_hint = clean_text show (get_or_none metadata ''hint''),
       ep_retryable = normalized_retryable (get_or_none metadata ''retryable''),
       ep_detail = detail_text show metadata\<rparr>)"

definition error_envelope_header :: "ErrorParts \<Rightarrow> string" where
  "error_envelope_header p =
     ''[tool_error kind='' @ ep_kind p @
       (case ep_retryable p of None \<Rightarrow> [] | Some b \<Rightarrow> '' retryable='' @ (if b then ''true'' else ''false'')) @ '']''"

definition render_error_envelope :: "(pyval \<Rightarrow> string) \<Rightarrow> ToolResult \<Rightarrow> string" where
  "render_error_envelope show r =
     (let p = error_parts show r in
      joined [CHR 0x0A] ([error_envelope_header p, ep_message p]
        @ (case ep_hint p of None \<Rightarrow> [] | Some h \<Rightarrow> [''Hint: '' @ h])
        @ (case ep_detail p of None \<Rightarrow> [] | Some d \<Rightarrow> [''Detail: '' @ d])))"

definition gemini_error_response :: "ErrorParts \<Rightarrow> dict" where
  "gemini_error_response p =
     [(''error'', VStr (ep_kind p)), (''message'', VStr (ep_message p)), (''status'', VStr ''error'')]
     @ (case ep_hint p of None \<Rightarrow> [] | Some h \<Rightarrow> [(''hint'', VStr h)])
     @ (case ep_detail p of None \<Rightarrow> [] | Some d \<Rightarrow> [(''detail'', VStr d)])
     @ (case ep_retryable p of None \<Rightarrow> [] | Some b \<Rightarrow> [(''retryable'', VBool b)])"

definition format_anthropic_tool_result :: "string \<Rightarrow> string \<Rightarrow> bool \<Rightarrow> dict" where
  "format_anthropic_tool_result call_id content is_error =
     [(''role'', VStr ''user''), (''content'', VList [VDict
        ([(''type'', VStr ''tool_result''), (''tool_use_id'', VStr call_id), (''content'', VStr content)]
         @ (if is_error then [(''is_error'', VBool True)] else []))])]"

definition format_gemini_tool_result :: "string \<Rightarrow> dict \<Rightarrow> dict" where
  "format_gemini_tool_result tool_name response =
     [(''role'', VStr ''user''), (''parts'', VList [VDict [(''functionResponse'',
        VDict [(''name'', VStr tool_name), (''response'', VDict response)])]])]"

definition format_openai_tool_result :: "ToolCall \<Rightarrow> string \<Rightarrow> string \<Rightarrow> dict" where
  "format_openai_tool_result call call_id content =
     [(''role'', VStr ''tool''), (''tool_call_id'', VStr call_id), (''name'', VStr (tc_tool_name call)),
      (''content'', VStr content)]"

definition result_call_id :: "ToolCall \<Rightarrow> string" where
  "result_call_id call =
     (case tc_call_id call of Some i \<Rightarrow> if i = [] then tc_tool_name call else i | None \<Rightarrow> tc_tool_name call)"

definition format_tool_success_result :: "ToolCall \<Rightarrow> ToolResult \<Rightarrow> string \<Rightarrow> string \<Rightarrow> dict" where
  "format_tool_success_result call r provider call_id =
     (if provider = ''anthropic'' then format_anthropic_tool_result call_id (tres_output r) False
      else if provider = ''gemini''
      then format_gemini_tool_result (tc_tool_name call)
             [(''output'', VStr (tres_output r)), (''status'', VStr ''success'')]
      else format_openai_tool_result call call_id (tres_output r))"

definition format_tool_error_result ::
  "(pyval \<Rightarrow> string) \<Rightarrow> ToolCall \<Rightarrow> ToolResult \<Rightarrow> string \<Rightarrow> string \<Rightarrow> dict" where
  "format_tool_error_result show call r provider call_id =
     (if provider = ''anthropic'' then format_anthropic_tool_result call_id (render_error_envelope show r) True
      else if provider = ''gemini''
      then format_gemini_tool_result (tc_tool_name call) (gemini_error_response (error_parts show r))
      else format_openai_tool_result call call_id (render_error_envelope show r))"

definition format_tool_result :: "(pyval \<Rightarrow> string) \<Rightarrow> ToolCall \<Rightarrow> ToolResult \<Rightarrow> string \<Rightarrow> dict" where
  "format_tool_result show call r provider_or_model =
     (let provider = provider_from_model (Some provider_or_model) in
      if tres_status r = ERROR then format_tool_error_result show call r provider (result_call_id call)
      else format_tool_success_result call r provider (result_call_id call))"

subsection \<open>Token usage\<close>

definition usage_parts :: "string list" where
  "usage_parts = [''input_tokens'', ''prompt_tokens'', ''output_tokens'', ''completion_tokens'',
     ''cache_creation_input_tokens'', ''cache_read_input_tokens'', ''promptTokenCount'', ''candidatesTokenCount'',
     ''thoughtsTokenCount'']"

text \<open>A truth value is an integer for \<open>isinstance\<close>.\<close>

definition as_int :: "pyval option \<Rightarrow> int option" where
  "as_int v = (case v of Some (VInt n) \<Rightarrow> Some n | Some (VBool b) \<Rightarrow> Some (if b then 1 else 0) | _ \<Rightarrow> None)"

definition first_int :: "dict \<Rightarrow> string list \<Rightarrow> int option" where
  "first_int d keys =
     (case List.find (\<lambda>k. as_int (map_of d k) \<noteq> None) keys of Some k \<Rightarrow> as_int (map_of d k) | None \<Rightarrow> None)"

definition usage_mapping_total :: "dict \<Rightarrow> int option" where
  "usage_mapping_total usage =
     (case first_int usage [''total_tokens'', ''total'', ''totalTokenCount''] of
        Some n \<Rightarrow> Some n
      | None \<Rightarrow>
          let parts = List.map_filter (\<lambda>k. as_int (map_of usage k)) usage_parts in
          if parts = [] then None else Some (sum_list parts))"

definition usage_total :: "dict \<Rightarrow> int option" where
  "usage_total payload =
     (case (case map_of payload ''usage'' of Some (VDict u) \<Rightarrow> usage_mapping_total u | _ \<Rightarrow> None) of
        Some n \<Rightarrow> Some n
      | None \<Rightarrow> first_int payload [''total_tokens'', ''tokens_used''])"

text \<open>\<open>usage\<close> is the response's own \<^verbatim>\<open>usage\<close> attribute, \<open>raw\<close> its payload.\<close>

definition token_usage_from_response :: "pyval \<Rightarrow> pyval \<Rightarrow> dict \<Rightarrow> int option" where
  "token_usage_from_response usage raw metadata =
     (case usage_total metadata of
        Some n \<Rightarrow> Some n
      | None \<Rightarrow>
          (case (case usage of VDict u \<Rightarrow> usage_mapping_total u | _ \<Rightarrow> None) of
             Some n \<Rightarrow> Some n
           | None \<Rightarrow> (case raw of VDict payload \<Rightarrow> usage_total payload | _ \<Rightarrow> None)))"


subsection \<open>The ids of a turn and of its answers\<close>

text \<open>
  What a provider pairs: the ids (for Gemini the names) of the calls in an assistant turn, and
  the id a result message carries.
\<close>

definition answer_id :: "(pyval \<Rightarrow> string) \<Rightarrow> string \<Rightarrow> dict \<Rightarrow> string" where
  "answer_id show family message =
     (if family = ''anthropic''
      then str_of show (get_or_none (dict_of (hd (list_of (get_or_none message ''content'')))) ''tool_use_id'')
      else if family = ''gemini''
      then str_of show (get_or_none (dict_of (get_or_none
             (dict_of (hd (list_of (get_or_none message ''parts'')))) ''functionResponse'')) ''name'')
      else str_of show (get_or_none message ''tool_call_id''))"

definition gemini_call_name :: "(pyval \<Rightarrow> string) \<Rightarrow> dict \<Rightarrow> string" where
  "gemini_call_name show part = str_of show (get_or_default
     (dict_of (py_or (py_or (get_or_none part ''functionCall'') (get_or_none part ''function_call'')) (VDict part)))
     ''name'' (VStr []))"

definition turn_ids :: "(pyval \<Rightarrow> string) \<Rightarrow> string \<Rightarrow> dict \<Rightarrow> string list" where
  "turn_ids show family turn =
     (if family = ''anthropic''
      then map (\<lambda>d. str_of show (get_or_none d ''id''))
             (filter (\<lambda>d. get_or_none d ''type'' = VStr ''tool_use'') (dicts_of (list_of (get_or_none turn ''content''))))
      else if family = ''gemini''
      then map (gemini_call_name show) (filter has_function_call (dicts_of (list_of (get_or_none turn ''parts''))))
      else map (\<lambda>d. str_of show (get_or_none d ''id'')) (dicts_of (list_of (get_or_none turn ''tool_calls''))))"

text \<open>
  The payloads providers send: one candidate or choice, ids and names given as text, and the calls
  of a Responses payload not repeated as choices.  Anthropic always sends an id; for the other
  providers it may be missing.
\<close>

definition is_text :: "pyval option \<Rightarrow> bool" where
  "is_text v = (case v of Some (VStr _) \<Rightarrow> True | _ \<Rightarrow> False)"

definition text_or_missing :: "pyval option \<Rightarrow> bool" where
  "text_or_missing v = (case v of None \<Rightarrow> True | Some VNone \<Rightarrow> True | Some (VStr _) \<Rightarrow> True | _ \<Rightarrow> False)"

fun chat_shaped :: "pyval list \<Rightarrow> bool" where
  "chat_shaped [] = True"
| "chat_shaped (VDict d # vs) = (text_or_missing (map_of d ''id'') \<and> text_or_missing (map_of d ''call_id'') \<and> chat_shaped vs)"
| "chat_shaped (_ # vs) = False"

definition provider_shaped :: "string \<Rightarrow> dict \<Rightarrow> bool" where
  "provider_shaped family payload \<longleftrightarrow>
     (if family = ''anthropic''
      then list_all (\<lambda>d. get_or_none d ''type'' = VStr ''tool_use'' \<longrightarrow>
             (\<exists>i. map_of d ''id'' = Some (VStr i) \<and> i \<noteq> []))
             (dicts_of (list_of (get_or_none payload ''content'')))
      else if family = ''gemini'' then \<exists>c. get_or_none payload ''candidates'' = VList [VDict c]
      else (\<exists>out. get_or_none payload ''output'' = VList out \<and> list_of (get_or_none payload ''choices'') = [] \<and>
              list_all (\<lambda>d. is_text (map_of d ''name'') \<and> text_or_missing (map_of d ''id'')
                \<and> text_or_missing (map_of d ''call_id'')) (filter is_call_item (dicts_of out)))
         \<or> (list_of (get_or_none payload ''output'') = [] \<and> (\<nexists>out. get_or_none payload ''output'' = VList out) \<and>
            (\<exists>c. get_or_none payload ''choices'' = VList [VDict c] \<and>
              chat_shaped (list_of (get_or_none (dict_of (get_or_none c ''message'')) ''tool_calls'')))))"

lemma mk_ToolCall_Inr:
  "mk_ToolCall n a i m = Inr c \<Longrightarrow> strip n \<noteq> [] \<and> tc_tool_name c = n \<and> tc_call_id c = i"
  by (auto simp: mk_ToolCall_def split: if_splits)

lemma mapE_map: "mapE f xs = Inr ys \<Longrightarrow> (\<And>x y. x \<in> set xs \<Longrightarrow> f x = Inr y \<Longrightarrow> g x = h y) \<Longrightarrow> map g xs = map h ys"
  by (induction xs arbitrary: ys) (auto elim!: bindE_InrE)

lemma mapE_all: "mapE f xs = Inr ys \<Longrightarrow> (\<And>x y. f x = Inr y \<Longrightarrow> P y) \<Longrightarrow> list_all P ys"
  by (induction xs arbitrary: ys) (auto elim!: bindE_InrE)

lemma named_filter: "list_all (\<lambda>c. strip (tc_tool_name c) \<noteq> []) cs \<Longrightarrow> filter (\<lambda>c. tc_tool_name c \<noteq> []) cs = cs"
  by (induction cs) auto

lemma result_ids:
  "family = wire_format (Some p) \<Longrightarrow>
   answer_id show family (format_tool_result show c r p) =
     (if family = ''gemini'' then tc_tool_name c else result_call_id c)"
  by (auto simp: answer_id_def format_tool_result_def format_tool_error_result_def format_tool_success_result_def
      format_anthropic_tool_result_def format_gemini_tool_result_def format_openai_tool_result_def wire_format_def
      Let_def get_or_none_def list_of_def dict_of_def split: if_splits)

definition textual :: "pyval \<Rightarrow> bool" where
  "textual v \<longleftrightarrow> v = VNone \<or> (\<exists>s. v = VStr s)"

lemma textual_get: "text_or_missing (map_of d k) \<Longrightarrow> textual (get_or_none d k)"
  by (auto simp: text_or_missing_def textual_def get_or_none_def split: option.splits pyval.splits)

lemma textual_or: "textual a \<Longrightarrow> textual b \<Longrightarrow> textual (py_or a b)"
  by (auto simp: textual_def py_or_def)

text \<open>An id that is missing or empty falls back to the name on both sides.\<close>

lemma id_falls_back:
  assumes "textual x" "tc_tool_name c = n" "n \<noteq> []" "tc_call_id c = str_or_none (str_of show (py_or x (VStr [])))"
  shows "result_call_id c = str_of show (py_or x (VStr n))"
  using assms by (auto simp: textual_def result_call_id_def str_or_none_def py_or_def)

lemma strip_nonempty: "strip n \<noteq> [] \<Longrightarrow> n \<noteq> []"
  by auto

lemma responses_item_id:
  assumes "parse_responses_item show loads item = Inr c"
    and "is_text (map_of item ''name'')" "text_or_missing (map_of item ''id'')" "text_or_missing (map_of item ''call_id'')"
  shows "truthy_meta (map_of item ''name'')"
    and "str_of show (get_or_none (dict_of (responses_tool_call show dumps item)) ''id'') = result_call_id c"
proof -
  obtain n where n: "map_of item ''name'' = Some (VStr n)"
    using assms(2) by (auto simp: is_text_def split: option.splits pyval.splits)
  have c: "strip n \<noteq> []" "tc_tool_name c = n" "tc_call_id c = str_or_none (str_of show
      (py_or (py_or (get_or_none item ''call_id'') (get_or_none item ''id'')) (VStr [])))"
    using assms(1) n by (auto simp: parse_responses_item_def get_or_default_def elim!: bindE_InrE dest!: mk_ToolCall_Inr)
  then show "truthy_meta (map_of item ''name'')" using n by (auto dest: strip_nonempty)
  have "result_call_id c = str_of show (py_or (py_or (get_or_none item ''call_id'') (get_or_none item ''id'')) (VStr n))"
    using c by (intro id_falls_back textual_or textual_get assms) (auto dest: strip_nonempty)
  then show "str_of show (get_or_none (dict_of (responses_tool_call show dumps item)) ''id'') = result_call_id c"
    using n by (simp add: responses_tool_call_def dict_of_def get_or_none_def get_or_default_def)
qed

lemma chat_call_id:
  assumes "parse_openai_tool_call show loads d = Inr c"
    and "text_or_missing (map_of d ''id'')" "text_or_missing (map_of d ''call_id'')"
  shows "str_of show (get_or_none (dict_of (echoed_chat_tool_call show (VDict d))) ''id'') = result_call_id c"
proof -
  obtain f where f: "get_or_default d ''function'' (VDict d) = VDict f"
    using assms(1) by (auto simp: parse_openai_tool_call_def split: pyval.splits)
  let ?n = "str_of show (get_or_default f ''name'' (VStr []))"
  have c: "strip ?n \<noteq> []" "tc_tool_name c = ?n" "tc_call_id c = str_or_none (str_of show
      (py_or (py_or (get_or_none d ''id'') (get_or_none d ''call_id'')) (VStr [])))"
    using assms(1) f by (auto simp: parse_openai_tool_call_def elim!: bindE_InrE dest!: mk_ToolCall_Inr)
  have r: "result_call_id c = str_of show (py_or (py_or (get_or_none d ''id'') (get_or_none d ''call_id'')) (VStr ?n))"
    using c by (intro id_falls_back textual_or textual_get assms) (auto dest: strip_nonempty)
  have t: "textual (get_or_none d ''id'')" "textual (get_or_none d ''call_id'')"
    using assms by (auto intro: textual_get)
  show ?thesis
  proof (cases "truthy_meta (map_of d ''id'')")
    case True
    then show ?thesis
      unfolding r by (auto simp: echoed_chat_tool_call_def dict_of_def py_or_def get_or_none_def split: option.splits)
  next
    case False
    have id: "\<not> truthy_meta (Some (get_or_none d ''id''))"
      using False by (auto simp: get_or_none_def split: option.splits)
    have "str_of show (py_or (get_or_none d ''call_id'') (get_or_default f ''name'' (VStr [])))
        = str_of show (py_or (get_or_none d ''call_id'') (VStr ?n))"
      by (auto simp: py_or_def)
    then show ?thesis
      unfolding r using False id f
      by (simp add: echoed_chat_tool_call_def dict_of_def py_or_def get_or_none_def [of "AList.update _ _ _"] Let_def)
  qed
qed

lemma chat_shaped_ids:
  assumes "chat_shaped vs" "mapE (parse_openai_tool_call show loads) (dicts_of vs) = Inr cs"
  shows "map (\<lambda>d. str_of show (get_or_none d ''id'')) (dicts_of (map (echoed_chat_tool_call show) vs)) = map result_call_id cs"
  using assms
proof (induction vs arbitrary: cs rule: chat_shaped.induct)
  case (2 d vs)
  from 2(3) obtain c cs' where c: "parse_openai_tool_call show loads d = Inr c"
      "mapE (parse_openai_tool_call show loads) (dicts_of vs) = Inr cs'" "cs = c # cs'"
    by (auto elim!: bindE_InrE)
  obtain e where e: "echoed_chat_tool_call show (VDict d) = VDict e"
    by (cases "truthy_meta (map_of d ''id'')") (auto simp: echoed_chat_tool_call_def Let_def)
  have "str_of show (get_or_none e ''id'') = result_call_id c"
    using chat_call_id [OF c(1)] 2(2) e by (simp add: dict_of_def)
  then show ?case using 2 c e by simp
qed simp_all

lemma responses_named:
  assumes "mapE (parse_responses_item show loads) items = Inr cs"
    and "list_all (\<lambda>d. is_text (map_of d ''name'') \<and> text_or_missing (map_of d ''id'') \<and> text_or_missing (map_of d ''call_id'')) items"
  shows "filter (\<lambda>item. truthy_meta (map_of item ''name'')) items = items"
  using assms
proof (induction items arbitrary: cs)
  case (Cons d items)
  then show ?case using responses_item_id(1) [of "show" loads d] by (auto elim!: bindE_InrE)
qed simp

lemma responses_ids:
  assumes "mapE (parse_responses_item show loads) items = Inr cs"
    and "list_all (\<lambda>d. is_text (map_of d ''name'') \<and> text_or_missing (map_of d ''id'') \<and> text_or_missing (map_of d ''call_id'')) items"
  shows "map (\<lambda>d. str_of show (get_or_none d ''id'')) (dicts_of (map (responses_tool_call show dumps) items)) = map result_call_id cs"
  using assms
proof (induction items arbitrary: cs)
  case (Cons d items)
  then obtain c cs' where c: "parse_responses_item show loads d = Inr c"
      "mapE (parse_responses_item show loads) items = Inr cs'" "cs = c # cs'"
    by (auto elim!: bindE_InrE)
  obtain e where e: "responses_tool_call show dumps d = VDict e"
    by (simp add: responses_tool_call_def)
  have "str_of show (get_or_none e ''id'') = result_call_id c"
    using responses_item_id(2) [OF c(1), of dumps] Cons.prems(2) e by (simp add: dict_of_def)
  then show ?case using Cons.IH [OF c(2)] Cons.prems(2) c(3) e by simp
qed simp

text \<open>What an answer to a call is found by.\<close>

definition call_key :: "string \<Rightarrow> ToolCall \<Rightarrow> string" where
  "call_key family c = (if family = ''gemini'' then tc_tool_name c else result_call_id c)"

lemma echoed_ids:
  assumes "parse_tool_calls show loads (VDict payload) p = Inr calls"
    and "format_assistant_tool_calls show dumps (VDict payload) p = Some turn"
    and "provider_shaped (wire_format (Some p)) payload"
  shows "turn_ids show (wire_format (Some p)) turn = map (call_key (wire_format (Some p))) calls"
proof -
  let ?f = "wire_format (Some p)"
  let ?q = "provider_from_model (Some p)"
  consider (a) "?q = ''anthropic''" "?f = ''anthropic''" | (g) "?q = ''gemini''" "?f = ''gemini''"
    | (o) "?q \<noteq> ''anthropic''" "?q \<noteq> ''gemini''" "?f = ''openai''"
    by (auto simp: wire_format_def Let_def)
  then show "turn_ids show ?f turn = map (call_key ?f) calls"
  proof cases
    case a
    let ?blocks = "filter (\<lambda>d. get_or_none d ''type'' = VStr ''tool_use'') (dicts_of (list_of (get_or_none payload ''content'')))"
    from assms(1) a obtain cs where cs: "mapE (parse_anthropic_tool_call show) ?blocks = Inr cs"
      and calls: "calls = filter (\<lambda>c. tc_tool_name c \<noteq> []) cs"
      by (auto simp: parse_tool_calls_def parse_anthropic_tool_calls_def elim!: bindE_InrE)
    have "list_all (\<lambda>c. strip (tc_tool_name c) \<noteq> []) cs"
      by (rule mapE_all [OF cs])
        (auto simp: parse_anthropic_tool_call_def Let_def split: pyval.splits dest!: mk_ToolCall_Inr)
    then have "calls = cs" unfolding calls by (rule named_filter)
    moreover have "map (\<lambda>d. str_of show (get_or_none d ''id'')) ?blocks = map result_call_id cs"
    proof (rule mapE_map [OF cs])
      fix d c assume d: "d \<in> set ?blocks" and c: "parse_anthropic_tool_call show d = Inr c"
      from d assms(3) a obtain i where i: "map_of d ''id'' = Some (VStr i)" "i \<noteq> []"
        by (auto simp: provider_shaped_def list_all_iff)
      have "tc_call_id c = Some i"
        using c i by (auto simp: parse_anthropic_tool_call_def Let_def str_or_none_def py_or_def get_or_none_def
            split: pyval.splits dest!: mk_ToolCall_Inr)
      then show "str_of show (get_or_none d ''id'') = result_call_id c"
        using i by (simp add: result_call_id_def get_or_none_def)
    qed
    moreover have "get_or_none turn ''content'' = get_or_none payload ''content''"
      using assms(2) a by (auto simp: format_assistant_tool_calls_def assistant_turn_anthropic_def get_or_none_def
          split: option.splits pyval.splits if_splits)
    ultimately show ?thesis using a by (simp add: turn_ids_def call_key_def)
  next
    case g
    from assms(3) g obtain c where c: "get_or_none payload ''candidates'' = VList [VDict c]"
      by (auto simp: provider_shaped_def)
    from assms(1) g c obtain cs where cs: "mapE (parse_gemini_tool_call show) (candidate_parts c) = Inr cs"
      and calls: "calls = filter (\<lambda>c. tc_tool_name c \<noteq> []) cs"
      by (auto simp: parse_tool_calls_def parse_gemini_tool_calls_def list_of_def elim!: bindE_InrE)
    have "list_all (\<lambda>c. strip (tc_tool_name c) \<noteq> []) cs"
      by (rule mapE_all [OF cs])
        (auto simp: parse_gemini_tool_call_def Let_def split: pyval.splits dest!: mk_ToolCall_Inr)
    then have "calls = cs" unfolding calls by (rule named_filter)
    moreover have "map (gemini_call_name show) (candidate_parts c) = map tc_tool_name cs"
      by (rule mapE_map [OF cs]) (auto simp: parse_gemini_tool_call_def gemini_call_name_def dict_of_def Let_def
          split: pyval.splits dest!: mk_ToolCall_Inr)
    moreover have "get_or_none c ''content'' = VDict turn"
      using assms(2) g c by (auto simp: format_assistant_tool_calls_def assistant_turn_gemini_def split: pyval.splits if_splits)
    ultimately show ?thesis using g by (simp add: turn_ids_def candidate_parts_def dict_of_def call_key_def)
  next
    case o
    from assms(1) o obtain rs cs where
        rs: "mapE (parse_responses_item show loads) (filter is_call_item (dicts_of (list_of (get_or_none payload ''output'')))) = Inr rs"
      and cs: "mapE (parse_openai_tool_call show loads)
          (concat (map choice_calls (dicts_of (list_of (get_or_none payload ''choices''))))) = Inr cs"
      and calls: "calls = filter (\<lambda>c. tc_tool_name c \<noteq> []) (rs @ cs)"
      by (auto simp: parse_tool_calls_def parse_openai_tool_calls_def elim!: bindE_InrE)
    have "list_all (\<lambda>c. strip (tc_tool_name c) \<noteq> []) rs"
      by (rule mapE_all [OF rs]) (auto simp: parse_responses_item_def elim!: bindE_InrE dest!: mk_ToolCall_Inr)
    moreover have "list_all (\<lambda>c. strip (tc_tool_name c) \<noteq> []) cs"
      by (rule mapE_all [OF cs]) (auto simp: parse_openai_tool_call_def split: pyval.splits elim!: bindE_InrE dest!: mk_ToolCall_Inr)
    ultimately have calls: "calls = rs @ cs" unfolding calls by (intro named_filter) simp
    from assms(3) o consider
        (responses) out where "get_or_none payload ''output'' = VList out" "list_of (get_or_none payload ''choices'') = []"
          "list_all (\<lambda>d. is_text (map_of d ''name'') \<and> text_or_missing (map_of d ''id'')
             \<and> text_or_missing (map_of d ''call_id'')) (filter is_call_item (dicts_of out))"
      | (chat) c where "list_of (get_or_none payload ''output'') = []" "\<nexists>out. get_or_none payload ''output'' = VList out"
          "get_or_none payload ''choices'' = VList [VDict c]"
          "chat_shaped (list_of (get_or_none (dict_of (get_or_none c ''message'')) ''tool_calls''))"
      by (auto simp: provider_shaped_def)
    then show ?thesis
    proof cases
      case responses
      have "cs = []" using cs responses by simp
      have r: "mapE (parse_responses_item show loads) (filter is_call_item (dicts_of out)) = Inr rs"
        using rs responses by (simp add: list_of_def)
      have t: "assistant_turn_openai_responses show dumps out = Some turn"
        using assms(2) o responses by (simp add: format_assistant_tool_calls_def assistant_turn_openai_def)
      have "filter (\<lambda>item. is_call_item item \<and> truthy_meta (map_of item ''name'')) (dicts_of out)
          = filter is_call_item (dicts_of out)"
        using responses_named [OF r responses(3)] by (simp add: filter_filter conj_commute)
      then have "get_or_none turn ''tool_calls'' = VList (map (responses_tool_call show dumps) (filter is_call_item (dicts_of out)))"
        using t by (auto simp: assistant_turn_openai_responses_def Let_def get_or_none_def split: if_splits)
      then show ?thesis
        using responses_ids [OF r responses(3), of dumps] o calls \<open>cs = []\<close> by (simp add: turn_ids_def list_of_def call_key_def)
    next
      case chat
      have "rs = []" using rs chat by simp
      let ?m = "get_or_none c ''message''"
      from assms(2) o chat obtain m vs where m: "?m = VDict m" "get_or_none m ''tool_calls'' = VList vs"
          "turn = dict_put ''tool_calls'' (VList (map (echoed_chat_tool_call show) vs)) m"
        by (auto simp: format_assistant_tool_calls_def assistant_turn_openai_def Let_def split: pyval.splits)
      have "mapE (parse_openai_tool_call show loads) (dicts_of vs) = Inr cs"
        using cs chat m by (simp add: list_of_def choice_calls_def dict_of_def)
      from chat_shaped_ids [OF _ this] chat m show ?thesis
        using o calls \<open>rs = []\<close> by (simp add: turn_ids_def list_of_def dict_of_def get_or_none_def call_key_def)
    qed
  qed
qed

text \<open>A turn with calls is always replayed.\<close>

lemma mapE_Nil: "mapE f xs = Inr ys \<Longrightarrow> xs = [] \<Longrightarrow> ys = []"
  by simp

lemma echo_exists:
  assumes "parse_tool_calls show loads raw p = Inr calls" and "calls \<noteq> []"
    and "\<And>payload. raw = VDict payload \<Longrightarrow> provider_shaped (wire_format (Some p)) payload"
  shows "\<exists>payload turn. raw = VDict payload \<and> format_assistant_tool_calls show dumps raw p = Some turn"
proof -
  let ?f = "wire_format (Some p)"
  let ?q = "provider_from_model (Some p)"
  obtain payload where raw: "raw = VDict payload"
    using assms(1,2) by (cases raw) (simp_all add: parse_tool_calls_def)
  have shaped: "provider_shaped ?f payload" using assms(3) raw .
  consider (a) "?q = ''anthropic''" "?f = ''anthropic''" | (g) "?q = ''gemini''" "?f = ''gemini''"
    | (o) "?q \<noteq> ''anthropic''" "?q \<noteq> ''gemini''" "?f = ''openai''"
    by (auto simp: wire_format_def Let_def)
  then have "\<exists>turn. format_assistant_tool_calls show dumps raw p = Some turn"
  proof cases
    case a
    then have "filter (\<lambda>d. get_or_none d ''type'' = VStr ''tool_use'') (dicts_of (list_of (get_or_none payload ''content''))) \<noteq> []"
      using assms(1,2) raw by (auto simp: parse_tool_calls_def parse_anthropic_tool_calls_def elim!: bindE_InrE)
    then show ?thesis using a raw
      by (auto simp: format_assistant_tool_calls_def assistant_turn_anthropic_def list_of_def list_ex_iff filter_empty_conv
          split: pyval.splits)
  next
    case g
    obtain c where c: "get_or_none payload ''candidates'' = VList [VDict c]"
      using shaped g by (auto simp: provider_shaped_def)
    then have "candidate_parts c \<noteq> []" using assms(1,2) raw g
      by (auto simp: parse_tool_calls_def parse_gemini_tool_calls_def list_of_def elim!: bindE_InrE)
    then show ?thesis using g raw c
      by (auto simp: format_assistant_tool_calls_def assistant_turn_gemini_def candidate_parts_def list_of_def dict_of_def
          get_or_none_def list_ex_iff filter_empty_conv split: pyval.splits option.splits)
  next
    case o
    from assms(1) o raw obtain rs cs where
        rs: "mapE (parse_responses_item show loads) (filter is_call_item (dicts_of (list_of (get_or_none payload ''output'')))) = Inr rs"
      and cs: "mapE (parse_openai_tool_call show loads)
          (concat (map choice_calls (dicts_of (list_of (get_or_none payload ''choices''))))) = Inr cs"
      and calls: "calls = filter (\<lambda>c. tc_tool_name c \<noteq> []) (rs @ cs)"
      by (auto simp: parse_tool_calls_def parse_openai_tool_calls_def elim!: bindE_InrE)
    from shaped o consider
        (responses) out where "get_or_none payload ''output'' = VList out" "list_of (get_or_none payload ''choices'') = []"
          "list_all (\<lambda>d. is_text (map_of d ''name'') \<and> text_or_missing (map_of d ''id'')
             \<and> text_or_missing (map_of d ''call_id'')) (filter is_call_item (dicts_of out))"
      | (chat) c where "list_of (get_or_none payload ''output'') = []" "\<nexists>out. get_or_none payload ''output'' = VList out"
          "get_or_none payload ''choices'' = VList [VDict c]"
      by (auto simp: provider_shaped_def)
    then show ?thesis
    proof cases
      case responses
      have r: "mapE (parse_responses_item show loads) (filter is_call_item (dicts_of out)) = Inr rs"
        using rs responses by (simp add: list_of_def)
      have "cs = []" using cs responses by simp
      then have "filter is_call_item (dicts_of out) \<noteq> []" using calls assms(2) mapE_Nil [OF r] by auto
      moreover have "filter (\<lambda>item. is_call_item item \<and> truthy_meta (map_of item ''name'')) (dicts_of out)
          = filter is_call_item (dicts_of out)"
        using responses_named [OF r responses(3)] by (simp add: filter_filter conj_commute)
      ultimately show ?thesis using o raw responses
        by (simp add: format_assistant_tool_calls_def assistant_turn_openai_def assistant_turn_openai_responses_def Let_def)
    next
      case chat
      have "rs = []" using rs chat by simp
      then have "choice_calls c \<noteq> []" using cs chat calls assms(2) by (auto simp: list_of_def)
      then show ?thesis using o raw chat
        by (auto simp: format_assistant_tool_calls_def assistant_turn_openai_def choice_calls_def list_of_def dict_of_def
            get_or_none_def Let_def split: pyval.splits option.splits)
    qed
  qed
  then show ?thesis using raw by blast
qed


definition demo_chat_payload :: dict where
  "demo_chat_payload = [(''choices'', VList [VDict [(''message'', VDict [(''role'', VStr ''assistant''),
     (''tool_calls'', VList [VDict [(''function'', VDict [(''name'', VStr ''search''), (''arguments'', VStr ''{}'')])],
        VDict [(''id'', VStr ''c2''), (''function'', VDict [(''name'', VStr ''read''), (''arguments'', VNone)])]])])]])]"

definition demo_search_call :: ToolCall where
  "demo_search_call = \<lparr>tc_tool_name = ''search'', tc_arguments = [], tc_call_id = None, tc_metadata = [], tc_activity = None\<rparr>"

definition demo_read_call :: ToolCall where
  "demo_read_call = \<lparr>tc_tool_name = ''read'', tc_arguments = [], tc_call_id = Some ''c2'', tc_metadata = [], tc_activity = None\<rparr>"

lemma demo_parsed:
  "parse_tool_calls (\<lambda>_. []) (\<lambda>_. Inr (VDict [])) (VDict demo_chat_payload) ''openai'' = Inr [demo_search_call, demo_read_call]"
  by code_simp

definition demo_turn :: dict where
  "demo_turn = [(''role'', VStr ''assistant''),
     (''tool_calls'', VList [VDict [(''function'', VDict [(''name'', VStr ''search''), (''arguments'', VStr ''{}'')]),
          (''id'', VStr ''search'')],
        VDict [(''id'', VStr ''c2''), (''function'', VDict [(''name'', VStr ''read''), (''arguments'', VNone)])]])]"

lemma demo_echoed:
  "format_assistant_tool_calls (\<lambda>_. []) (\<lambda>_. []) (VDict demo_chat_payload) ''openai'' = Some demo_turn"
  by code_simp

lemma demo_wire: "wire_format (Some ''openai'') = ''openai''"
  by code_simp

lemma demo_shaped: "provider_shaped ''openai'' demo_chat_payload"
  by (simp add: provider_shaped_def demo_chat_payload_def get_or_none_def list_of_def dict_of_def text_or_missing_def)


end
