(* ===== verification/AG_Tools.thy ===== *)
theory AG_Tools
  imports AG_Wire
begin

text \<open>
  Tools as the agent runs them: the catalog (\<^verbatim>\<open>vidbyte/tools/catalog.py\<close>), the loop-control
  tool \<^verbatim>\<open>isDone\<close> (\<^verbatim>\<open>tools/_internal.py\<close>), the activity annotation
  (\<^verbatim>\<open>tools/activity.py\<close>), the permission policy under the ceiling of the run
  (\<^verbatim>\<open>lib/dataclasses/security.py\<close>, \<^verbatim>\<open>lib/permission_ceiling.py\<close>), and the part of
  \<^verbatim>\<open>agents/runtime.py\<close> that executes one call and records it.  What a tool does happens in the
  world \<open>'w\<close>; the pydantic validation of an annotation is a function of the value.
\<close>

subsection \<open>Tools and the catalog\<close>

datatype ToolPermission = SAFE | READ | WRITE | EXECUTE

definition permission_value :: "ToolPermission \<Rightarrow> string" where
  "permission_value p = (case p of SAFE \<Rightarrow> ''safe'' | READ \<Rightarrow> ''read'' | WRITE \<Rightarrow> ''write'' | EXECUTE \<Rightarrow> ''execute'')"

record ToolActivity =
  ta_validate :: "pyval \<Rightarrow> string + dict"
  ta_required :: bool
  ta_metadata :: dict

text \<open>
  What a call of a tool's code comes to: a result, a \<open>ToolExecutionError\<close> with the error code and
  the error type of its details, or any other exception.
\<close>

datatype tool_outcome = Returned ToolResult | ExecutionError string "string option" "string option" | Threw exn

record 'w Tool =
  tl_object :: nat
  tl_name :: string
  tl_metadata :: dict
  tl_permission :: ToolPermission
  tl_binds_to_primitive :: "string option"
  tl_output_schema :: "(string \<Rightarrow> pyval \<times> string option) option"
  tl_activity :: "ToolActivity option"
  tl_validate_call :: "ToolCall \<Rightarrow> exn + string option"
  tl_execute :: "rat option \<Rightarrow> ToolCall \<Rightarrow> 'w \<Rightarrow> tool_outcome \<times> 'w"

definition get_tool :: "'w Tool list \<Rightarrow> string \<Rightarrow> 'w Tool option" where
  "get_tool catalog name = List.find (\<lambda>t. tl_name t = name) catalog"

definition ToolRegistrationError :: "string \<Rightarrow> exn" where
  "ToolRegistrationError msg = Exn ''ToolRegistrationError'' [''VidbyteSdkError'', ''Exception'', ''BaseException''] msg"

definition ToolRegistryError :: "string \<Rightarrow> exn" where
  "ToolRegistryError msg = Exn ''ToolRegistryError'' [''VidbyteSdkError'', ''Exception'', ''BaseException''] msg"

fun Tools_init :: "'w Tool list \<Rightarrow> 'w Tool list \<Rightarrow> exn + 'w Tool list" where
  "Tools_init normalized [] = Inr normalized"
| "Tools_init normalized (t # ts) =
     (if tl_name t \<in> set (map tl_name normalized)
      then Inl (ToolRegistrationError (''Tool already exists: '' @ tl_name t))
      else Tools_init (normalized @ [t]) ts)"

definition Tools_add :: "'w Tool list \<Rightarrow> 'w Tool \<Rightarrow> bool \<Rightarrow> exn + 'w Tool list" where
  "Tools_add catalog t replace =
     (if tl_name t \<in> set (map tl_name catalog) \<and> \<not> replace
      then Inl (ToolRegistrationError (''Tool already exists: '' @ tl_name t))
      else Tools_init [] (filter (\<lambda>e. tl_name e \<noteq> tl_name t) catalog @ [t]))"

fun Tools_extend :: "'w Tool list \<Rightarrow> 'w Tool list \<Rightarrow> bool \<Rightarrow> exn + 'w Tool list" where
  "Tools_extend catalog [] replace = Inr catalog"
| "Tools_extend catalog (t # ts) replace =
     bindE (Tools_add catalog t replace) (\<lambda>c. Tools_extend c ts replace)"

definition Tools_without :: "'w Tool list \<Rightarrow> 'w Tool list \<Rightarrow> exn + 'w Tool list" where
  "Tools_without catalog removed =
     Tools_init [] (filter (\<lambda>t. tl_object t \<notin> set (map tl_object removed)) catalog)"

definition Tools_subset :: "'w Tool list \<Rightarrow> string list \<Rightarrow> exn + 'w Tool list" where
  "Tools_subset catalog names =
     (let unknown = filter (\<lambda>n. n \<notin> set (map tl_name catalog)) names in
      if unknown \<noteq> []
      then Inl (ToolRegistryError (''Tool not found in registry: '' @ joined '', '' (map quoted unknown)))
      else Tools_init [] (filter (\<lambda>t. tl_name t \<in> set names) catalog))"

lemma Tools_init_spec:
  "Tools_init ns ts = Inr c \<longleftrightarrow> c = ns @ ts \<and> distinct (map tl_name ts) \<and> set (map tl_name ts) \<inter> set (map tl_name ns) = {}"
proof (induction ts arbitrary: ns)
  case (Cons t ts)
  have rest: "Tools_init (ns @ [t]) ts = Inr c \<longleftrightarrow> c = ns @ t # ts \<and> distinct (map tl_name ts) \<and>
      set (map tl_name ts) \<inter> insert (tl_name t) (set (map tl_name ns)) = {}"
    using Cons.IH [of "ns @ [t]"] by simp
  show ?case
  proof (cases "tl_name t \<in> set (map tl_name ns)")
    case True
    then show ?thesis by (auto simp del: set_map)
  next
    case False
    then show ?thesis using rest by (auto simp del: set_map)
  qed
qed auto

definition catalog_wf :: "'w Tool list \<Rightarrow> bool" where
  "catalog_wf c \<longleftrightarrow> distinct (map tl_name c)"

lemma Tools_init_wf: "Tools_init [] ts = Inr c \<longleftrightarrow> c = ts \<and> catalog_wf ts"
  by (auto simp: Tools_init_spec catalog_wf_def)

lemma catalog_wf_filter [intro]: "catalog_wf c \<Longrightarrow> catalog_wf (filter P c)"
  by (simp add: catalog_wf_def distinct_map_filter)

lemma Tools_without_wf: "catalog_wf c \<Longrightarrow> \<exists>d. Tools_without c r = Inr d \<and> catalog_wf d \<and> set d \<subseteq> set c"
  by (auto simp: Tools_without_def Tools_init_wf)

lemma Tools_add_wf: "Tools_add c t r = Inr d \<Longrightarrow> catalog_wf d"
  by (auto simp: Tools_add_def Tools_init_wf split: if_splits)

lemma get_tool_name: "get_tool c n = Some t \<Longrightarrow> tl_name t = n \<and> t \<in> set c"
  by (auto simp: get_tool_def find_Some_iff)

text \<open>\<open>BaseTool.validate_call\<close>, from the names of the required parameters.\<close>

definition base_validate_call :: "string list \<Rightarrow> ToolCall \<Rightarrow> string option" where
  "base_validate_call required call =
     (let missing = filter (\<lambda>n. get_or_none (tc_arguments call) n = VNone) required in
      if missing = [] then None else Some (''Missing required parameters: '' @ joined '', '' missing))"

subsection \<open>The tool that ends the loop\<close>

definition is_given :: "pyval \<Rightarrow> bool" where
  "is_given v \<longleftrightarrow> v \<noteq> VNone \<and> \<not> (case v of VStr s \<Rightarrow> strip s = [] | _ \<Rightarrow> False)"

definition final_answer :: "(pyval \<Rightarrow> string) \<Rightarrow> (pyval \<Rightarrow> string) \<Rightarrow> dict \<Rightarrow> string" where
  "final_answer show dumps arguments =
     (let answer = (case List.find is_given [get_or_none arguments ''final_answer'', get_or_none arguments ''answer''] of
          Some v \<Rightarrow> v | None \<Rightarrow> VStr ''Done.'') in
      case answer of VDict _ \<Rightarrow> dumps answer | VList _ \<Rightarrow> dumps answer | _ \<Rightarrow> str_of show answer)"

definition IsDoneTool :: "(pyval \<Rightarrow> string) \<Rightarrow> (pyval \<Rightarrow> string) \<Rightarrow> nat \<Rightarrow> 'w Tool" where
  "IsDoneTool show dumps object =
     \<lparr>tl_object = object, tl_name = is_done_name, tl_metadata = [(''internal'', VBool True)], tl_permission = SAFE,
      tl_binds_to_primitive = None, tl_output_schema = None, tl_activity = None,
      tl_validate_call = (\<lambda>call. Inr (base_validate_call [] call)),
      tl_execute = (\<lambda>_ call w. (Returned (tool_success is_done_name (final_answer show dumps (tc_arguments call))
          [(''done'', VBool True)]), w))\<rparr>"

definition with_internal_agent_tools ::
  "(pyval \<Rightarrow> string) \<Rightarrow> (pyval \<Rightarrow> string) \<Rightarrow> nat \<Rightarrow> 'w Tool list \<Rightarrow> exn + 'w Tool list" where
  "with_internal_agent_tools show dumps object tools = Tools_add tools (IsDoneTool show dumps object) True"

subsection \<open>Activity annotations\<close>

definition activity_key :: string where
  "activity_key = ''activity''"

definition without_activity_key :: "dict \<Rightarrow> dict" where
  "without_activity_key = filter (\<lambda>(k, _). k \<noteq> activity_key)"

definition prepare_tool_call :: "'w Tool \<Rightarrow> ToolCall \<Rightarrow> ToolCall" where
  "prepare_tool_call tool call =
     (case tl_activity tool of
        None \<Rightarrow> call
      | Some activity \<Rightarrow>
          if tc_activity call \<noteq> None then call
          else let raw = get_or_none (tc_arguments call) activity_key in
            if raw = VNone then call
            else case ta_validate activity raw of
                Inl _ \<Rightarrow> call
              | Inr payload \<Rightarrow> call\<lparr>tc_arguments := without_activity_key (tc_arguments call),
                    tc_activity := Some (payload, ta_metadata activity)\<rparr>)"

definition prepare_call :: "'w Tool list \<Rightarrow> ToolCall \<Rightarrow> ToolCall" where
  "prepare_call catalog call =
     (case get_tool catalog (tc_tool_name call) of None \<Rightarrow> call | Some tool \<Rightarrow> prepare_tool_call tool call)"

definition business_call :: "'w Tool \<Rightarrow> ToolCall \<Rightarrow> ToolCall" where
  "business_call tool call =
     (let prepared = prepare_tool_call tool call in
      if map_of (tc_arguments prepared) activity_key = None then prepared
      else prepared\<lparr>tc_arguments := without_activity_key (tc_arguments prepared)\<rparr>)"

definition activity_validation_error :: "ToolActivity \<Rightarrow> ToolCall \<Rightarrow> string option" where
  "activity_validation_error activity call =
     (if tc_activity call \<noteq> None then None
      else let raw = get_or_none (tc_arguments call) activity_key in
        if raw = VNone
        then if ta_required activity then Some (''Missing required parameters: '' @ activity_key) else None
        else Some (''Invalid '' @ quoted activity_key @ '' annotation: '' @
          (case ta_validate activity raw of
             Inl detail \<Rightarrow> take 500 detail | Inr _ \<Rightarrow> ''annotation did not reach the tool'')))"

text \<open>\<open>with_activity\<close>: the view of a tool that declares an annotation.\<close>

definition ActivityBoundTool :: "nat \<Rightarrow> ToolActivity \<Rightarrow> 'w Tool \<Rightarrow> 'w Tool" where
  "ActivityBoundTool object activity tool =
     (let bound = tool\<lparr>tl_object := object, tl_activity := Some activity\<rparr> in
      bound\<lparr>
        tl_validate_call := (\<lambda>call.
          let prepared = prepare_tool_call bound call in
          case activity_validation_error activity prepared of
            Some e \<Rightarrow> if e = [] then tl_validate_call tool prepared else Inr (Some e)
          | None \<Rightarrow> tl_validate_call tool prepared),
        tl_execute := (\<lambda>seconds call. tl_execute tool seconds (business_call bound call))\<rparr>)"

lemma prepare_call_keeps [simp]:
  "tc_tool_name (prepare_tool_call t c) = tc_tool_name c" "tc_call_id (prepare_tool_call t c) = tc_call_id c"
  "tc_metadata (prepare_tool_call t c) = tc_metadata c"
  by (auto simp: prepare_tool_call_def Let_def split: option.split sum.split)

lemma prepare_call_keeps' [simp]:
  "tc_tool_name (prepare_call cat c) = tc_tool_name c" "tc_call_id (prepare_call cat c) = tc_call_id c"
  by (auto simp: prepare_call_def split: option.split)

lemma without_activity_key_get: "map_of (without_activity_key d) activity_key = None"
  by (auto simp: without_activity_key_def map_of_eq_None_iff)

text \<open>The reserved argument never reaches the tool.\<close>

lemma business_call_clean: "map_of (tc_arguments (business_call tool call)) activity_key = None"
  by (simp add: business_call_def Let_def without_activity_key_get)

text \<open>Preparing a call twice is preparing it once.\<close>

lemma prepare_tool_call_idem: "prepare_tool_call t (prepare_tool_call t c) = prepare_tool_call t c"
  by (auto simp: prepare_tool_call_def Let_def split: option.split sum.split)

subsection \<open>Permissions\<close>

datatype PermissionDecision = ALLOW | DENY

record PermissionPolicy =
  pp_allowed :: "ToolPermission list"

definition ceiling_allows :: "ToolPermission list option \<Rightarrow> ToolPermission \<Rightarrow> bool" where
  "ceiling_allows ceil p = (case ceil of None \<Rightarrow> True | Some ps \<Rightarrow> p \<in> set ps)"

definition policy_check :: "PermissionPolicy \<Rightarrow> ToolPermission list option \<Rightarrow> ToolPermission \<Rightarrow> PermissionDecision" where
  "policy_check policy ceil p = (if p \<in> set (pp_allowed policy) \<and> ceiling_allows ceil p then ALLOW else DENY)"

definition ToolPermission_of :: "string + ToolPermission \<Rightarrow> ToolPermission option" where
  "ToolPermission_of v = (case v of Inr p \<Rightarrow> Some p
     | Inl s \<Rightarrow> List.find (\<lambda>p. permission_value p = s) [SAFE, READ, WRITE, EXECUTE])"

definition ceiling_error :: "string \<Rightarrow> exn" where
  "ceiling_error msg = ConfigurationError (''PermissionCeiling.scope '' @ msg)"

definition normalize_ceiling :: "(string + ToolPermission) list \<Rightarrow> exn + ToolPermission list" where
  "normalize_ceiling vs =
     (if list_ex (\<lambda>v. ToolPermission_of v = None) vs
      then Inl (ceiling_error ''received a value that is not a tool permission.'')
      else if vs = []
      then Inl (ceiling_error ''needs at least one tool permission; an empty ceiling would refuse every tool, isDone included.'')
      else Inr (remdups (List.map_filter ToolPermission_of vs)))"

text \<open>Entering a scope inside another: the ceiling in effect until the block is left.\<close>

definition enter_scope ::
  "ToolPermission list option \<Rightarrow> (string + ToolPermission) list \<Rightarrow> exn + ToolPermission list" where
  "enter_scope outer vs =
     bindE (normalize_ceiling vs) (\<lambda>requested.
     Inr (case outer of None \<Rightarrow> requested | Some ps \<Rightarrow> filter (\<lambda>p. p \<in> set requested) ps))"

definition denial_note :: "ToolPermission list option \<Rightarrow> ToolPermission \<Rightarrow> string" where
  "denial_note ceil p =
     (case ceil of
        None \<Rightarrow> []
      | Some ps \<Rightarrow> if p \<in> set ps then []
          else if ps = [] then ''; this run allows no tools''
          else ''; this run allows only '' @ joined '', '' (sort (map permission_value ps)) @ '' tools'')"

lemma scope_narrows: "enter_scope outer vs = Inr c \<Longrightarrow> p \<in> set c \<Longrightarrow> ceiling_allows outer p"
  by (auto simp: enter_scope_def ceiling_allows_def elim!: bindE_InrE split: option.splits)

subsection \<open>Running one call\<close>

text \<open>
  The fields of the runtime that the execution of a call reads: the catalog, the policy, the
  ceiling of the run, the timeout of a developer's tool, the accounting of a priced operation, and
  the texts of values.
\<close>

record 'w ToolEnv =
  te_tools :: "'w Tool list"
  te_policy :: PermissionPolicy
  te_ceiling :: "ToolPermission list option"
  te_settings :: "ToolSettings option"
  te_record_operation :: "'w Tool \<Rightarrow> ToolCall \<Rightarrow> ToolResult \<Rightarrow> 'w \<Rightarrow> 'w"
  te_show :: "pyval \<Rightarrow> string"

definition tool_name_is_internal :: "'w Tool list \<Rightarrow> string \<Rightarrow> bool" where
  "tool_name_is_internal catalog name \<longleftrightarrow>
     name = is_done_name \<or>
     (case get_tool catalog name of None \<Rightarrow> False | Some t \<Rightarrow> truthy_meta (map_of (tl_metadata t) ''internal''))"

definition build_tool_call_context ::
  "ToolCall \<Rightarrow> string \<Rightarrow> ToolCallState \<Rightarrow> ToolResult \<Rightarrow> int \<Rightarrow> bool \<Rightarrow> ToolCallContext" where
  "build_tool_call_context call provider state result iteration internal =
     \<lparr>tx_tool_name = tc_tool_name call, tx_arguments = tc_arguments call, tx_state = state,
      tx_call_id = tc_call_id call, tx_result = Some result, tx_provider = Some provider,
      tx_metadata = (if internal then dict_put ''internal'' (VBool True) (tc_metadata call) else tc_metadata call),
      tx_iteration_count = Some iteration, tx_activity = tc_activity call, tx_model_visible_result = None\<rparr>"

definition denied_tool_result ::
  "ToolCall \<Rightarrow> string \<Rightarrow> string \<Rightarrow> string \<Rightarrow> string option \<Rightarrow> dict \<Rightarrow> int \<Rightarrow> bool \<Rightarrow> ToolCallContext \<times> ToolResult" where
  "denied_tool_result call provider message error reason metadata iteration internal =
     (let result = tool_error (tc_tool_name call) message
            (dict_merge [(''error'', VStr error), (''reason'', case reason of None \<Rightarrow> VNone | Some r \<Rightarrow> VStr r)] metadata) in
      (build_tool_call_context call provider DENIED result iteration internal, result))"

definition middleware_denied_tool ::
  "ToolCall \<Rightarrow> string \<Rightarrow> MiddlewareDecision \<Rightarrow> int \<Rightarrow> bool \<Rightarrow> ToolCallContext \<times> ToolResult" where
  "middleware_denied_tool call provider d iteration internal =
     denied_tool_result call provider
       (''Tool denied by middleware: '' @ (case md_reason d of Some r \<Rightarrow> if r = [] then ''middleware_denied'' else r
          | None \<Rightarrow> ''middleware_denied''))
       ''middleware_denied'' (md_reason d) (md_metadata d) iteration internal"

text \<open>
  \<open>_execute_tool\<close> with \<open>_run_tool_execute\<close>: every exception of the tool becomes a
  \<open>ToolExecutionError\<close>, given here by its message, its code and its type; only what is not an
  \<open>Exception\<close> escapes.
\<close>

definition execute_tool ::
  "'w ToolEnv \<Rightarrow> 'w Tool \<Rightarrow> ToolCall \<Rightarrow> bool \<Rightarrow> 'w \<Rightarrow> (exn + (string \<times> string \<times> string) + ToolResult) \<times> 'w" where
  "execute_tool env tool call internal w =
     (let seconds = (if internal then None else case te_settings env of None \<Rightarrow> None | Some s \<Rightarrow> ts_tool_timeout_seconds s);
          code = (\<lambda>e. case e of Some c \<Rightarrow> c | None \<Rightarrow> ''execution_error'');
          kind = (\<lambda>t. case t of Some c \<Rightarrow> c | None \<Rightarrow> ''ToolExecutionError'') in
      case tl_execute tool seconds call w of
        (Returned r, u) \<Rightarrow> (Inr (Inr r), u)
      | (ExecutionError msg e t, u) \<Rightarrow> (Inr (Inl (msg, code e, kind t)), u)
      | (Threw e, u) \<Rightarrow>
          if \<not> exn_isinstance e [''Exception''] then (Inl e, u)
          else (case seconds of
              Some limit \<Rightarrow>
                if exn_isinstance e [''TimeoutError'']
                then (Inr (Inl (''Tool '' @ quoted (tc_tool_name call) @ '' timed out after ''
                        @ te_show env (VFloat (Fin limit)) @ ''s'', ''timeout'', ''timeout'')), u)
                else (Inr (Inl (''Tool execution failed: '' @ exn_msg e, ''execution_error'', exn_type e)), u)
            | None \<Rightarrow> (Inr (Inl (''Tool execution failed: '' @ exn_msg e, ''execution_error'', exn_type e)), u)))"

definition checked_output :: "'w Tool \<Rightarrow> ToolCall \<Rightarrow> ToolResult \<Rightarrow> ToolResult" where
  "checked_output tool call r =
     (case tl_output_schema tool of
        Some validate \<Rightarrow>
          if tres_status r = SUCCESS
          then case snd (validate (tres_output r)) of
              Some e \<Rightarrow> if e = [] then r
                else tool_error (tc_tool_name call) (''tool call error: output shape mismatch: '' @ e)
                  [(''error'', VStr ''output_schema_violation''), (''detail'', VStr e)]
            | None \<Rightarrow> r
          else r
      | None \<Rightarrow> r)"

definition unknown_tool :: "ToolCall \<Rightarrow> ToolResult" where
  "unknown_tool call =
     (let msg = ''Tool '' @ quoted (tc_tool_name call) @ '' is not registered.'' in
      tool_error (tc_tool_name call) msg [(''error'', VStr ''unknown_tool''), (''detail'', VStr msg)])"

definition permission_denied :: "'w ToolEnv \<Rightarrow> 'w Tool \<Rightarrow> ToolCall \<Rightarrow> ToolResult" where
  "permission_denied env tool call =
     tool_error (tc_tool_name call)
       (''Permission denied for tool '' @ quoted (tl_name tool) @ '' requiring '' @ permission_value (tl_permission tool)
         @ denial_note (te_ceiling env) (tl_permission tool))
       [(''error'', VStr ''permission_denied''), (''permission'', VStr (permission_value (tl_permission tool)))]"

definition failed_result :: "ToolCall \<Rightarrow> string \<times> string \<times> string \<Rightarrow> ToolResult" where
  "failed_result call e = (case e of (msg, code, kind) \<Rightarrow>
     tool_error (tc_tool_name call) msg [(''error'', VStr code), (''error_type'', VStr kind)])"

text \<open>
  \<open>_run_tool_call\<close>, without the tracing and timing of the call: the record, the result, and the
  world.  An exception of \<open>validate_call\<close> takes the general branch of the handler.
\<close>

definition run_tool_call ::
  "'w ToolEnv \<Rightarrow> ToolCall \<Rightarrow> string \<Rightarrow> int \<Rightarrow> bool \<Rightarrow> 'w \<Rightarrow> (exn + ToolCallContext \<times> ToolResult) \<times> 'w" where
  "run_tool_call env call0 provider iteration internal w =
     (case get_tool (te_tools env) (tc_tool_name call0) of
        None \<Rightarrow>
          (Inr (build_tool_call_context call0 provider FAILED (unknown_tool call0) iteration internal, unknown_tool call0), w)
      | Some tool \<Rightarrow>
          let call = prepare_tool_call tool call0;
              recorded = (\<lambda>state r. (build_tool_call_context call provider state r iteration internal, r)) in
          if policy_check (te_policy env) (te_ceiling env) (tl_permission tool) = DENY
          then (Inr (recorded DENIED (permission_denied env tool call)), w)
          else case tl_validate_call tool call of
              Inl e \<Rightarrow>
                if exn_isinstance e [''Exception'']
                then (Inr (recorded FAILED (failed_result call (''Tool execution failed: '' @ exn_msg e, ''execution_error'', exn_type e))), w)
                else (Inl e, w)
            | Inr problem \<Rightarrow>
                if problem \<noteq> None \<and> problem \<noteq> Some []
                then (Inr (recorded FAILED (failed_result call (the problem, ''validation_error'', ''ToolExecutionError''))), w)
                else case execute_tool env tool call internal w of
                    (Inl e, u) \<Rightarrow> (Inl e, u)
                  | (Inr (Inl failure), u) \<Rightarrow> (Inr (recorded FAILED (failed_result call failure)), u)
                  | (Inr (Inr r), u) \<Rightarrow>
                      let result = checked_output tool call r in
                      (Inr (recorded (if tres_status result = SUCCESS then SUCCEEDED else FAILED) result),
                       te_record_operation env tool call result u))"

end
