(* ===== verification/AG_Runtime.thy ===== *)
theory AG_Runtime
  imports AG_Tools
begin

text \<open>
  The direct agent loop, \<^verbatim>\<open>vidbyte/agents/runtime.py\<close>, with the model fallback chain of
  \<^verbatim>\<open>vidbyte/agents/fallback.py\<close>.  One pass of the loop checks the budgets, calls the model
  through the middleware, and either finishes on a plain answer or runs the tool calls of the turn.

  The provider, the tools, the middlewares, the user's clock, the usage ledger and the context
  managers live in a world \<open>'w\<close>; the runtime holds the functions that read and change it.  Tracing
  and the speed statistics are left out: they observe the run and never change it.  An exception
  that leaves the run is \<open>Raised\<close>.  The loops that may run forever take fuel.  The loop itself has no
  result when its fuel is spent; the retries a middleware may order without end halt the run with
  \<open>RetryFuel\<close>.
\<close>

subsection \<open>The runtime and its state\<close>

datatype halt = Raised exn | RetryFuel

datatype meta = MVal pyval | MCalls "ToolCallContext list" | MRollup UsageRollup

record AgentResult =
  ar_output :: string
  ar_structured :: pyval
  ar_metadata :: "(string \<times> meta) list"

text \<open>
  A response of a model: its text and metadata as the runner reads them, its usage attribute, its
  payload, and what a middleware sees of it.  A runner may also answer with a finished result.
\<close>

record Response =
  rs_text :: string
  rs_metadata :: dict
  rs_usage :: pyval
  rs_raw :: pyval
  rs_view :: "string option \<times> string"

datatype raw_result = Finished AgentResult | Answered Response

record CallOptions =
  co_system :: "string option"
  co_tools :: "pyval option"
  co_messages :: "dict list option"
  co_prompt_index :: "nat option"
  co_response_format :: "pyval option"

record 'w RunnerHandle =
  rh_provider :: string
  rh_invoke :: "string \<Rightarrow> CallOptions \<Rightarrow> 'w \<Rightarrow> (exn + raw_result) \<times> 'w"

record FallbackModel =
  fm_provider :: string
  fm_identity :: string

record 'w AgentFallback =
  fb_models :: "FallbackModel list"
  fb_fallback_on :: "string list"
  fb_build_runner :: "nat \<Rightarrow> exn + (string \<Rightarrow> CallOptions \<Rightarrow> 'w \<Rightarrow> (exn + raw_result) \<times> 'w)"

record FallbackAttempt =
  fa_from :: string
  fa_to :: string
  fa_error_type :: string

record 'w Runtime =
  ag_name :: string
  ag_config :: AgentRuntimeConfig
  ag_pipeline :: "'w PipelineConfig"
  ag_policy :: PermissionPolicy
  ag_ceiling :: "ToolPermission list option"
  ag_output_contract :: OutputContracts
  ag_output_schema :: "(string \<Rightarrow> pyval \<times> string option) option"
  ag_wire_schema :: pyval
  ag_inner :: "('w \<Rightarrow> (exn + int option list) \<times> 'w) option"
  ag_fallback :: "'w AgentFallback option"
  ag_catalog :: "('w \<Rightarrow> 'w Tool list) option"
  ag_upsert :: "(string \<Rightarrow> string \<Rightarrow> string \<Rightarrow> 'w \<Rightarrow> bool \<times> 'w) option"
  ag_admit :: "ToolCall \<Rightarrow> ToolResult \<Rightarrow> ToolResult"
  ag_top :: "'w \<Rightarrow> dict list"
  ag_end :: "'w \<Rightarrow> dict list"
  ag_fixed :: string
  ag_body :: string
  ag_zones :: "'w \<Rightarrow> string list"
  ag_window_state :: "'w \<Rightarrow> dict"
  ag_run_state :: "'w \<Rightarrow> dict"
  ag_put_run_state :: "dict \<Rightarrow> 'w \<Rightarrow> 'w"
  ag_rollup :: "'w \<Rightarrow> UsageRollup"
  ag_record_call :: "Response \<Rightarrow> 'w \<Rightarrow> 'w"
  ag_record_failed_call :: "string \<Rightarrow> exn \<Rightarrow> 'w \<Rightarrow> 'w"
  ag_record_operation :: "'w Tool \<Rightarrow> ToolCall \<Rightarrow> ToolResult \<Rightarrow> 'w \<Rightarrow> 'w"
  ag_cost_spent :: "'w \<Rightarrow> rat"
  ag_provider_schemas :: "'w Tool list \<Rightarrow> string \<Rightarrow> pyval"
  ag_fingerprint :: "string \<Rightarrow> dict \<Rightarrow> string"
  ag_show :: "pyval \<Rightarrow> string"
  ag_dumps :: "pyval \<Rightarrow> string"
  ag_loads :: "string \<Rightarrow> exn + pyval"

text \<open>
  What does not change in a run: the task, the caller's metadata and options, whether the model is
  pinned, and the fuel of the retry loops.
\<close>

record RunInput =
  ri_message :: string
  ri_metadata :: dict
  ri_options :: CallOptions
  ri_caller_messages :: "dict list"
  ri_pin_model :: bool
  ri_retry_fuel :: nat

record 'w LoopState =
  lp_pipe :: "'w Pipeline"
  lp_started_at :: rat
  lp_handle :: "'w RunnerHandle"
  lp_provider :: string
  lp_tools :: "'w Tool list"
  lp_catalog_seen :: "'w Tool list"
  lp_tool_schemas :: "pyval option"
  lp_messages :: "dict list"
  lp_transcript_kept :: bool
  lp_contexts :: "ToolCallContext list"
  lp_outputs :: "string list"
  lp_last_output :: string
  lp_iteration_count :: int
  lp_model_call_count :: int
  lp_tokens_used :: "int option"
  lp_model_response :: "(string option \<times> string) option"
  lp_rejections :: int
  lp_compaction_count :: int
  lp_fallback_index :: nat
  lp_fallback_attempts :: "FallbackAttempt list"
  lp_fallback_errors :: "exn list"
  lp_fallback_context_reset :: bool

type_synonym ('w, 'a) run = "('w LoopState, halt, 'a) sem"

text \<open>Computations of the pipeline and of the world, and the handler of an exception.\<close>

definition pipeM :: "('w, 'a) pipe \<Rightarrow> ('w, 'a) run" where
  "pipeM m = (\<lambda>s. case m (lp_pipe s) of
       (Inl e, p) \<Rightarrow> (Inl (Raised e), s\<lparr>lp_pipe := p\<rparr>)
     | (Inr x, p) \<Rightarrow> (Inr x, s\<lparr>lp_pipe := p\<rparr>))"

definition inWorld :: "('w \<Rightarrow> 'a \<times> 'w) \<Rightarrow> ('w, 'a) run" where
  "inWorld f = pipeM (worldM f)"

definition inWorldE :: "('w \<Rightarrow> (exn + 'a) \<times> 'w) \<Rightarrow> ('w, 'a) run" where
  "inWorldE f = bindM (inWorld f) (\<lambda>r. case r of Inl e \<Rightarrow> throwM (Raised e) | Inr x \<Rightarrow> returnM x)"

definition world :: "('w, 'w) run" where
  "world = getM (\<lambda>s. pl_world (lp_pipe s))"

definition raiseE :: "exn + 'a \<Rightarrow> ('w, 'a) run" where
  "raiseE r = (case r of Inl e \<Rightarrow> throwM (Raised e) | Inr x \<Rightarrow> returnM x)"

text \<open>\<open>catchM m h\<close>: an exception raised by \<open>m\<close> goes to \<open>h\<close>; running out of fuel does not.\<close>

definition catchM :: "('w, 'a) run \<Rightarrow> (exn \<Rightarrow> ('w, 'a) run) \<Rightarrow> ('w, 'a) run" where
  "catchM m h = (\<lambda>s. case m s of (Inl (Raised e), t) \<Rightarrow> h e t | r \<Rightarrow> r)"

subsection \<open>Results\<close>

definition non_internal_tool_contexts :: "'w Tool list \<Rightarrow> ToolCallContext list \<Rightarrow> ToolCallContext list" where
  "non_internal_tool_contexts catalog cs = filter (\<lambda>c. \<not> tool_name_is_internal catalog (tx_tool_name c)) cs"

definition opt_int :: "int option \<Rightarrow> pyval" where
  "opt_int n = (case n of None \<Rightarrow> VNone | Some i \<Rightarrow> VInt i)"

definition runtime_metadata ::
  "UsageRollup \<Rightarrow> ToolCallContext list \<Rightarrow> int \<Rightarrow> int option \<Rightarrow> AgentStopReason \<Rightarrow> (string \<times> meta) list" where
  "runtime_metadata rollup contexts iterations tokens reason =
     [(''stop_reason'', MVal (VStr (stop_reason_value reason))), (''iteration_count'', MVal (VInt iterations)),
      (''tokens_used'', MVal (opt_int tokens)), (''tool_call_count'', MVal (VInt (int (length contexts)))),
      (''tool_call_states'', MVal (VList (map (VStr \<circ> call_state_value \<circ> tx_state) contexts))),
      (''tool_calls'', MCalls contexts), (''usage_rollup'', MRollup rollup)]"

definition stopped_result :: "'w Runtime \<Rightarrow> string \<Rightarrow> AgentStopReason \<Rightarrow> ('w, AgentResult) run" where
  "stopped_result rt out reason =
     bindM world (\<lambda>w.
     getM (\<lambda>s. \<lparr>ar_output = out, ar_structured = VNone,
       ar_metadata = runtime_metadata (ag_rollup rt w) (lp_contexts s) (lp_iteration_count s) (lp_tokens_used s) reason\<rparr>))"

definition middleware_abort_result ::
  "'w Runtime \<Rightarrow> MiddlewareDecision \<Rightarrow> ToolCallContext list \<Rightarrow> ('w, AgentResult) run" where
  "middleware_abort_result rt d contexts =
     (let reason = (case md_reason d of Some r \<Rightarrow> if r = [] then ''middleware_abort'' else r | None \<Rightarrow> ''middleware_abort'') in
      bindM world (\<lambda>w.
      getM (\<lambda>s. \<lparr>ar_output = ''Agent runtime stopped by middleware: '' @ reason, ar_structured = VNone,
        ar_metadata = runtime_metadata (ag_rollup rt w) contexts (lp_iteration_count s) (lp_tokens_used s) MIDDLEWARE_ABORT
          @ [(''middleware_abort_reason'', MVal (VStr reason)),
             (''middleware_decision'', MVal (VDict [(''action'', VStr (action_value (md_action d))),
                (''reason'', case md_reason d of Some r \<Rightarrow> VStr r | None \<Rightarrow> VNone),
                (''metadata'', VDict (md_metadata d))]))]\<rparr>)))"

definition aborted :: "'w Runtime \<Rightarrow> MiddlewareDecision \<Rightarrow> ('w, AgentResult) run" where
  "aborted rt d = bindM (getM lp_contexts) (middleware_abort_result rt d)"

definition final_result ::
  "'w Runtime \<Rightarrow> string \<Rightarrow> dict \<Rightarrow> AgentStopReason \<Rightarrow> ('w, AgentResult) run" where
  "final_result rt out runner_metadata reason =
     bindM world (\<lambda>w.
     getM (\<lambda>s. \<lparr>ar_output = out,
       ar_structured = (case ag_output_schema rt of None \<Rightarrow> VNone | Some validate \<Rightarrow> fst (validate out)),
       ar_metadata = dict_merge
         (runtime_metadata (ag_rollup rt w) (lp_contexts s) (lp_iteration_count s) (lp_tokens_used s) reason)
         (map (\<lambda>(k, v). (k, MVal v)) runner_metadata)\<rparr>))"

definition unverified_finish_result :: "'w Runtime \<Rightarrow> string \<Rightarrow> ('w, AgentResult) run" where
  "unverified_finish_result rt out = final_result rt out [] CONTRACT_UNSATISFIED"

definition with_metadata :: "AgentResult \<Rightarrow> (string \<times> meta) list \<Rightarrow> AgentResult" where
  "with_metadata r extra = r\<lparr>ar_metadata := dict_merge (ar_metadata r) extra\<rparr>"

subsection \<open>Middleware hooks\<close>

text \<open>
  The context a hook receives.  Inside the call of the model the runtime works with a state of its
  own that has no response yet; \<open>response\<close> is what the hook sees.
\<close>

definition middleware_context ::
  "'w Runtime \<Rightarrow> RunInput \<Rightarrow> (string option \<times> string) option \<Rightarrow> ('w, MiddlewareContext) run" where
  "middleware_context rt inp response =
     bindM (inWorld (pc_clock (ag_pipeline rt))) (\<lambda>now.
     getM (\<lambda>s.
       \<lparr>cx_agent_name = ag_name rt, cx_message = ri_message inp, cx_iteration_count = lp_iteration_count s,
        cx_model_call_count = lp_model_call_count s,
        cx_tool_call_count = int (length (non_internal_tool_contexts (lp_tools s) (lp_contexts s))),
        cx_elapsed_seconds = max 0 (now - lp_started_at s), cx_tokens_used = lp_tokens_used s, cx_tool_call = None,
        cx_tool_result = None, cx_model_response = response, cx_error = None, cx_messages = [], cx_system = None,
        cx_tool_is_internal = False, cx_metadata = ri_metadata inp\<rparr>))"

text \<open>\<open>f\<close> sets the fields that only some hooks receive.\<close>

definition hook ::
  "'w Runtime \<Rightarrow> RunInput \<Rightarrow> MiddlewareHook \<Rightarrow> (MiddlewareContext \<Rightarrow> MiddlewareContext) \<Rightarrow> ('w, MiddlewareDecision) run" where
  "hook rt inp h f =
     bindM (getM lp_model_response) (\<lambda>response.
     bindM (middleware_context rt inp response) (\<lambda>ctx. pipeM (run_hook (ag_pipeline rt) h (f ctx))))"

definition review ::
  "'w Runtime \<Rightarrow> RunInput \<Rightarrow> (MiddlewareContext \<Rightarrow> MiddlewareContext) \<Rightarrow> ('w, FinishReview) run" where
  "review rt inp f =
     bindM (getM lp_model_response) (\<lambda>response.
     bindM (middleware_context rt inp response) (\<lambda>ctx. pipeM (review_finish (ag_pipeline rt) (f ctx))))"

definition model_call_hook ::
  "'w Runtime \<Rightarrow> RunInput \<Rightarrow> MiddlewareHook \<Rightarrow> (MiddlewareContext \<Rightarrow> MiddlewareContext) \<Rightarrow> ('w, MiddlewareDecision) run" where
  "model_call_hook rt inp h f =
     bindM (middleware_context rt inp None) (\<lambda>ctx. pipeM (run_hook (ag_pipeline rt) h (f ctx)))"

subsection \<open>The end of a run\<close>

definition as_contexts :: "meta \<Rightarrow> exn + ToolCallContext list" where
  "as_contexts m =
     (case m of
        MCalls cs \<Rightarrow> Inr cs
      | MVal (VList []) \<Rightarrow> Inr [] | MVal (VDict []) \<Rightarrow> Inr [] | MVal (VStr []) \<Rightarrow> Inr []
      | MVal (VList _) \<Rightarrow> Inl (Exn ''AttributeError'' [''Exception'', ''BaseException''] ''tool_name'')
      | MVal (VDict _) \<Rightarrow> Inl (Exn ''AttributeError'' [''Exception'', ''BaseException''] ''tool_name'')
      | MVal (VStr _) \<Rightarrow> Inl (Exn ''AttributeError'' [''Exception'', ''BaseException''] ''tool_name'')
      | _ \<Rightarrow> Inl (TypeError ''object is not iterable''))"

definition metadata_calls :: "AgentResult \<Rightarrow> ToolCallContext list \<Rightarrow> exn + ToolCallContext list" where
  "metadata_calls r missing =
     (case map_of (ar_metadata r) ''tool_calls'' of Some m \<Rightarrow> as_contexts m | None \<Rightarrow> Inr missing)"

definition result_metadata_key :: string where
  "result_metadata_key = ''__result_metadata__''"

definition iteration_outputs_key :: string where
  "iteration_outputs_key = ''__iteration_outputs__''"

definition with_run_state_metadata :: "dict \<Rightarrow> AgentResult \<Rightarrow> AgentResult" where
  "with_run_state_metadata run_state r =
     (let published = dict_of (get_or_none run_state result_metadata_key);
          extra = (case map_of run_state iteration_outputs_key of
              Some v \<Rightarrow> if v = VNone then published else dict_put ''iteration_outputs'' v published
            | None \<Rightarrow> published) in
      if extra = [] then r else with_metadata r (map (\<lambda>(k, v). (k, MVal v)) extra))"

definition public :: "dict \<Rightarrow> dict" where
  "public d = filter (\<lambda>(k, _). take 1 k \<noteq> ''_'') d"

definition with_context_window_metadata :: "dict \<Rightarrow> AgentResult \<Rightarrow> AgentResult" where
  "with_context_window_metadata window r =
     (if public window = [] then r else with_metadata r (map (\<lambda>(k, v). (k, MVal v)) (public window)))"

definition with_middleware_metadata :: "'w Pipeline \<Rightarrow> AgentResult \<Rightarrow> AgentResult" where
  "with_middleware_metadata p r = with_metadata r [(''middleware'', MVal (VDict (pipeline_metadata p)))]"

text \<open>\<open>shown\<close> is the conversation the hooks at the end of the run see.\<close>

definition finish_result ::
  "'w Runtime \<Rightarrow> RunInput \<Rightarrow> dict list \<Rightarrow> AgentResult \<Rightarrow> ('w, AgentResult) run" where
  "finish_result rt inp shown r =
     bindM (getM id) (\<lambda>s.
     bindM (raiseE (metadata_calls r (lp_contexts s))) (\<lambda>calls.
     bindM (hook rt inp AFTER_RUN (\<lambda>c. c\<lparr>cx_tool_call_count := int (length (non_internal_tool_contexts (lp_tools s) calls)),
              cx_messages := shown\<rparr>)) (\<lambda>d.
     bindM (if md_action d = ABORT_RUN
            then bindM (raiseE (metadata_calls r [])) (middleware_abort_result rt d)
            else returnM r) (\<lambda>r.
     getM (\<lambda>t. with_middleware_metadata (lp_pipe t)
       (with_run_state_metadata (ag_run_state rt (pl_world (lp_pipe t)))
         (with_context_window_metadata (ag_window_state rt (pl_world (lp_pipe t))) r)))))))"

text \<open>Most returns show the live conversation.\<close>

definition finish :: "'w Runtime \<Rightarrow> RunInput \<Rightarrow> AgentResult \<Rightarrow> ('w, AgentResult) run" where
  "finish rt inp r = bindM (getM lp_messages) (\<lambda>ms. finish_result rt inp ms r)"

subsection \<open>Budgets\<close>

definition spend_cap_stop :: "'w Runtime \<Rightarrow> ('w, AgentResult option) run" where
  "spend_cap_stop rt =
     (case ac_max_spend_usd (ag_config rt) of
        None \<Rightarrow> returnM None
      | Some cap \<Rightarrow>
          bindM world (\<lambda>w.
          case stop_output cap (ag_rollup rt w) of
            None \<Rightarrow> returnM None
          | Some out \<Rightarrow> bindM (stopped_result rt out MAX_SPEND) (\<lambda>r. returnM (Some r))))"

definition stopped :: "'w Runtime \<Rightarrow> string \<Rightarrow> AgentStopReason \<Rightarrow> ('w, AgentResult option) run" where
  "stopped rt out reason = bindM (stopped_result rt out reason) (\<lambda>r. returnM (Some r))"

definition tokens_reached :: "AgentRuntimeConfig \<Rightarrow> int option \<Rightarrow> bool" where
  "tokens_reached c tokens =
     (case (ac_max_tokens c, tokens) of (Some limit, Some used) \<Rightarrow> limit \<le> used | _ \<Rightarrow> False)"

definition loop_budget_stop :: "'w Runtime \<Rightarrow> ('w, AgentResult option) run" where
  "loop_budget_stop rt =
     bindM (spend_cap_stop rt) (\<lambda>r.
     if r \<noteq> None then returnM r
     else bindM (getM id) (\<lambda>s.
     if reached (ac_max_iterations (ag_config rt)) (lp_iteration_count s)
     then stopped rt ''Agent runtime stopped after reaching max_iterations.'' MAX_ITERATIONS
     else if tokens_reached (ag_config rt) (lp_tokens_used s)
     then stopped rt ''Agent runtime stopped after reaching max_tokens.'' MAX_TOKENS
     else if reached (ac_max_tool_calls (ag_config rt))
               (int (length (non_internal_tool_contexts (lp_tools s) (lp_contexts s))))
     then stopped rt ''Agent runtime stopped after reaching max_tool_calls.'' MAX_TOOL_CALLS
     else case ac_timeout_seconds (ag_config rt) of
         None \<Rightarrow> returnM None
       | Some limit \<Rightarrow>
           bindM (inWorld (pc_clock (ag_pipeline rt))) (\<lambda>now.
           if limit \<le> now - lp_started_at s
           then stopped rt ''Agent runtime stopped after reaching timeout_seconds.'' TIMEOUT
           else returnM None)))"

subsection \<open>The guards of a tool call\<close>

definition executed_counts :: "ToolCallContext list \<Rightarrow> (string \<times> int) list" where
  "executed_counts cs =
     foldl (\<lambda>counts c. if tx_state c = DENIED then counts
        else dict_put (tx_tool_name c) ((case map_of counts (tx_tool_name c) of None \<Rightarrow> 0 | Some n \<Rightarrow> n) + 1) counts) [] cs"

definition agent_stop_reason_for_tool_budget :: "string \<Rightarrow> AgentStopReason" where
  "agent_stop_reason_for_tool_budget reason =
     (case map_of [(''max_calls_per_iteration'', MAX_CALLS_PER_ITERATION), (''max_identical_calls'', MAX_IDENTICAL_CALLS),
        (''max_consecutive_failures'', MAX_CONSECUTIVE_FAILURES), (''max_error_calls'', MAX_ERROR_CALLS),
        (''sliding_window_max_calls'', SLIDING_WINDOW_MAX_CALLS)] reason of
        Some r \<Rightarrow> r | None \<Rightarrow> TOOL_SETTINGS_DENIED)"

definition tool_settings_hard_budget_stop :: "'w Runtime \<Rightarrow> string \<times> dict \<Rightarrow> ('w, AgentResult) run" where
  "tool_settings_hard_budget_stop rt stop = (case stop of (reason, meta) \<Rightarrow>
     bindM (stopped_result rt (''Agent runtime stopped by tool settings budget: '' @ reason)
              (agent_stop_reason_for_tool_budget reason)) (\<lambda>r.
     returnM (with_metadata r ((''tool_settings_budget'', MVal (VStr reason)) # map (\<lambda>(k, v). (k, MVal v)) meta))))"

definition tool_limits :: "'w Runtime \<Rightarrow> int list" where
  "tool_limits rt =
     (case ac_max_tool_calls (ag_config rt) of Some n \<Rightarrow> [n] | None \<Rightarrow> []) @
     (case ac_tool_settings (ag_config rt) of
        Some s \<Rightarrow> (case ts_max_calls s of Some n \<Rightarrow> [n] | None \<Rightarrow> []) | None \<Rightarrow> [])"

definition tool_settings_budget_stop :: "'w Runtime \<Rightarrow> ('w, AgentResult option) run" where
  "tool_settings_budget_stop rt =
     bindM (getM id) (\<lambda>s.
     if tool_limits rt = [] \<or>
        int (length (non_internal_tool_contexts (lp_tools s) (lp_contexts s))) < Min (set (tool_limits rt))
     then returnM None
     else stopped rt ''Agent runtime stopped after reaching max_tool_calls.'' MAX_TOOL_CALLS)"

definition allowed_tools_denial :: "AgentRuntimeConfig \<Rightarrow> string \<Rightarrow> (string \<times> dict) option" where
  "allowed_tools_denial c tool_name =
     (case ac_allowed_tools c of
        None \<Rightarrow> None
      | Some names \<Rightarrow>
          if tool_name \<in> set names then None
          else Some (''allowed_tools_denied'', [(''tool_name'', VStr tool_name),
                 (''allowed_tools'', VList (map VStr (sort (remdups names))))]))"

datatype processed = Ended AgentResult | Ran ToolCallContext ToolResult

subsection \<open>What the model sees of a result\<close>

definition apply_primitive_binding :: "'w Runtime \<Rightarrow> ToolCall \<Rightarrow> ToolResult \<Rightarrow> ('w, ToolResult option) run" where
  "apply_primitive_binding rt call r =
     (case ag_upsert rt of
        None \<Rightarrow> returnM None
      | Some upsert \<Rightarrow>
          if tres_status r \<noteq> SUCCESS then returnM None
          else bindM (getM lp_tools) (\<lambda>tools.
            case get_tool tools (tc_tool_name call) of
              None \<Rightarrow> returnM None
            | Some tool \<Rightarrow>
                (case tl_binds_to_primitive tool of
                   None \<Rightarrow> returnM None
                 | Some primitive_id \<Rightarrow>
                     if primitive_id = [] then returnM None
                     else bindM (inWorld (upsert primitive_id (''Tool: '' @ tc_tool_name call) (tres_output r))) (\<lambda>stored.
                       if \<not> stored then returnM None
                       else returnM (Some (tool_success (tres_tool_name r)
                              (''[Output of '' @ quoted (tc_tool_name call) @ '' stored in primitive '' @ quoted primitive_id @ '']'')
                              (dict_put ''primitive_id'' (VStr primitive_id) (tres_metadata r))))))))"

definition truncate_for_tool_settings ::
  "'w Runtime \<Rightarrow> 'w Tool list \<Rightarrow> ToolCall \<Rightarrow> bool \<Rightarrow> ToolResult \<Rightarrow> ToolResult" where
  "truncate_for_tool_settings rt tools call admit r =
     (if tool_name_is_internal tools (tc_tool_name call) then r
      else let admitted =
          (if admit \<and> get_or_none (tres_metadata r) ''error'' \<notin> {VStr ''unknown_tool'', VStr ''validation_error''}
           then ag_admit rt call r else r) in
        case ac_tool_settings (ag_config rt) of None \<Rightarrow> admitted | Some s \<Rightarrow> truncate_result s admitted)"

text \<open>
  The view of the model, none when that is the result itself.  The result of a transform and the
  concatenation below are objects of their own, even when they read the same.
\<close>

definition model_visible_tool_result ::
  "'w Runtime \<Rightarrow> ToolCall \<Rightarrow> ToolResult \<Rightarrow> MiddlewareDecision \<Rightarrow> bool \<Rightarrow> bool \<Rightarrow> ('w, ToolResult option) run" where
  "model_visible_tool_result rt call r d capped admit =
     bindM (apply_primitive_binding rt call r) (\<lambda>stored.
     bindM (getM lp_tools) (\<lambda>tools.
     let cap = truncate_for_tool_settings rt tools call admit in
     case stored of
       Some p \<Rightarrow> returnM (Some p)
     | None \<Rightarrow>
         (case (case md_transform d of None \<Rightarrow> None | Some t \<Rightarrow> tf_tool_result t) of
            None \<Rightarrow> returnM (if \<not> capped \<or> cap r = r then None else Some (cap r))
          | Some visible \<Rightarrow>
              if \<not> capped then returnM (Some visible)
              else if take (length (tres_output r)) (tres_output visible) = tres_output r
              then returnM (Some \<lparr>tres_tool_name = tres_tool_name visible, tres_status = tres_status visible,
                     tres_output = tres_output (cap r) @ drop (length (tres_output r)) (tres_output visible),
                     tres_metadata = dict_merge (tres_metadata (cap r)) (tres_metadata visible)\<rparr>)
              else returnM (Some (cap visible)))))"

definition append_message :: "dict \<Rightarrow> ('w, unit) run" where
  "append_message m = updM (\<lambda>s. s\<lparr>lp_messages := lp_messages s @ [m]\<rparr>)"

definition append_tool_result_message ::
  "'w Runtime \<Rightarrow> ToolCall \<Rightarrow> ToolResult \<Rightarrow> MiddlewareDecision \<Rightarrow> bool \<Rightarrow> bool \<Rightarrow> ('w, ToolResult option) run" where
  "append_tool_result_message rt call r d capped admit =
     bindM (model_visible_tool_result rt call r d capped admit) (\<lambda>visible.
     bindM (getM lp_provider) (\<lambda>provider.
     bindM (append_message (format_tool_result (ag_show rt) call (case visible of Some v \<Rightarrow> v | None \<Rightarrow> r) provider)) (\<lambda>_.
     returnM visible)))"

definition plain_continue :: MiddlewareDecision where
  "plain_continue = continue_decision [] None"

fun answer_skipped_tool_calls :: "'w Runtime \<Rightarrow> ToolCall list \<Rightarrow> ('w, unit) run" where
  "answer_skipped_tool_calls rt [] = returnM ()"
| "answer_skipped_tool_calls rt (call # calls) =
     bindM (append_tool_result_message rt call
              (tool_error (tc_tool_name call)
                (''tool call not executed: the isDone finish attempt in this turn was turned down; ''
                 @ ''call it again if it is still needed'') [(''error'', VStr ''not_executed'')])
              plain_continue True False) (\<lambda>_.
     answer_skipped_tool_calls rt calls)"

subsection \<open>One tool call\<close>

definition record_context :: "ToolCallContext \<Rightarrow> ('w, unit) run" where
  "record_context c = updM (\<lambda>s. s\<lparr>lp_contexts := lp_contexts s @ [c]\<rparr>)"

definition apply_tool_denial ::
  "'w Runtime \<Rightarrow> ToolCall \<Rightarrow> string \<times> dict \<Rightarrow> ('w, processed) run" where
  "apply_tool_denial rt call denied = (case denied of (reason, meta) \<Rightarrow>
     if (case ac_tool_settings (ag_config rt) of Some s \<Rightarrow> aborts_on_deny s | None \<Rightarrow> False)
     then bindM (stopped_result rt (''Agent runtime stopped by tool settings: '' @ reason) TOOL_SETTINGS_DENIED) (\<lambda>r.
          returnM (Ended r))
     else bindM (getM id) (\<lambda>s.
       case denied_tool_result call (lp_provider s) (''Tool denied by tool settings: '' @ reason) reason (Some reason) meta
              (lp_iteration_count s) False of
         (c, r) \<Rightarrow>
           bindM (record_context c) (\<lambda>_.
           bindM (append_tool_result_message rt call r plain_continue False False) (\<lambda>_.
           returnM (Ran c r)))))"

definition enforce_tool_settings :: "'w Runtime \<Rightarrow> ToolCall \<Rightarrow> bool \<Rightarrow> ('w, processed option) run" where
  "enforce_tool_settings rt call internal =
     bindM (spend_cap_stop rt) (\<lambda>spend.
     case spend of
       Some r \<Rightarrow> returnM (Some (Ended r))
     | None \<Rightarrow>
         if internal then returnM None
         else bindM (tool_settings_budget_stop rt) (\<lambda>b.
           case b of
             Some r \<Rightarrow> returnM (Some (Ended r))
           | None \<Rightarrow>
               bindM (getM id) (\<lambda>s.
               case (case ac_tool_settings (ag_config rt) of
                       None \<Rightarrow> None
                     | Some t \<Rightarrow> budget_stop (ag_fingerprint rt) t (tc_tool_name call) (tc_arguments call)
                         (lp_contexts s) (lp_iteration_count s)) of
                 Some hard \<Rightarrow> bindM (tool_settings_hard_budget_stop rt hard) (\<lambda>r. returnM (Some (Ended r)))
               | None \<Rightarrow>
                   (case or_else (allowed_tools_denial (ag_config rt) (tc_tool_name call))
                       (case ac_tool_settings (ag_config rt) of
                          None \<Rightarrow> None
                        | Some t \<Rightarrow> denial t (tc_tool_name call) (executed_counts (lp_contexts s))) of
                      None \<Rightarrow> returnM None
                    | Some denied \<Rightarrow> bindM (apply_tool_denial rt call denied) (\<lambda>p. returnM (Some p))))))"

definition tool_env :: "'w Runtime \<Rightarrow> 'w Tool list \<Rightarrow> 'w ToolEnv" where
  "tool_env rt tools =
     \<lparr>te_tools = tools, te_policy = ag_policy rt, te_ceiling = ag_ceiling rt,
      te_settings = ac_tool_settings (ag_config rt), te_record_operation = ag_record_operation rt, te_show = ag_show rt\<rparr>"

definition tool_permission_for_call :: "'w Tool list \<Rightarrow> ToolCall \<Rightarrow> pyval" where
  "tool_permission_for_call tools call =
     (case get_tool tools (tc_tool_name call) of None \<Rightarrow> VNone | Some t \<Rightarrow> VStr (permission_value (tl_permission t)))"

definition sleep_for :: "'w Runtime \<Rightarrow> rat \<Rightarrow> ('w, unit) run" where
  "sleep_for rt seconds =
     (if seconds = 0 then returnM ()
      else bindM (inWorld (pc_sleeper (ag_pipeline rt) seconds)) (\<lambda>r.
           case r of Some e \<Rightarrow> throwM (Raised e) | None \<Rightarrow> returnM ()))"

text \<open>
  The call itself, behind the hook that may order it again: the record, the result, and the
  decision of the hook that let it through.
\<close>

definition tool_attempt ::
  "'w Runtime \<Rightarrow> ToolCall \<Rightarrow> bool \<Rightarrow> MiddlewareDecision \<Rightarrow> ('w, ToolCallContext \<times> ToolResult) run" where
  "tool_attempt rt call internal d =
     bindM (getM id) (\<lambda>s.
     if md_action d = DENY_TOOL
     then returnM (middleware_denied_tool call (lp_provider s) d (lp_iteration_count s) internal)
     else inWorldE (run_tool_call (tool_env rt (lp_tools s)) call (lp_provider s) (lp_iteration_count s) internal))"

definition after_tool_call_context ::
  "'w LoopState \<Rightarrow> RunInput \<Rightarrow> ToolCall \<Rightarrow> ToolResult \<Rightarrow> bool \<Rightarrow> MiddlewareContext \<Rightarrow> MiddlewareContext" where
  "after_tool_call_context s inp call r internal c = c\<lparr>
     cx_tool_call := Some call, cx_tool_result := Some r, cx_tool_is_internal := internal,
     cx_tool_call_count := int (length (non_internal_tool_contexts (lp_tools s) (lp_contexts s))) + (if internal then 0 else 1),
     cx_metadata := dict_put ''tool_permission'' (tool_permission_for_call (lp_tools s) call) (ri_metadata inp)\<rparr>"

fun tool_attempts ::
  "nat \<Rightarrow> 'w Runtime \<Rightarrow> RunInput \<Rightarrow> ToolCall \<Rightarrow> bool \<Rightarrow> MiddlewareDecision
   \<Rightarrow> ('w, ToolCallContext \<times> ToolResult \<times> MiddlewareDecision) run" where
  "tool_attempts 0 rt inp call internal d = throwM RetryFuel"
| "tool_attempts (Suc n) rt inp call internal d =
     bindM (tool_attempt rt call internal d) (\<lambda>(c, r).
     bindM (getM id) (\<lambda>s.
     bindM (hook rt inp AFTER_TOOL_CALL (after_tool_call_context s inp call r internal)) (\<lambda>after.
     if md_action after \<noteq> RETRY then returnM (c, r, after)
     else bindM (sleep_for rt (md_sleep_seconds after)) (\<lambda>_. tool_attempts n rt inp call internal d))))"

definition enforce_tool_settings_after_failure ::
  "'w Runtime \<Rightarrow> ToolCallContext \<Rightarrow> bool \<Rightarrow> ('w, AgentResult option) run" where
  "enforce_tool_settings_after_failure rt c internal =
     bindM (getM lp_contexts) (\<lambda>contexts.
     case (if internal \<or> tx_state c \<noteq> FAILED then None
           else case ac_tool_settings (ag_config rt) of None \<Rightarrow> None | Some t \<Rightarrow> failure_budget_stop t contexts) of
       None \<Rightarrow> returnM None
     | Some stop \<Rightarrow> bindM (tool_settings_hard_budget_stop rt stop) (\<lambda>r. returnM (Some r)))"

definition answered_by_finish :: "ToolCall \<Rightarrow> ToolResult \<Rightarrow> bool" where
  "answered_by_finish call r \<longleftrightarrow> tc_tool_name call = is_done_name \<and> tres_status r = SUCCESS"

definition with_model_visible_result :: "ToolCallContext \<Rightarrow> ToolResult option \<Rightarrow> ToolCallContext" where
  "with_model_visible_result c visible =
     (case visible of None \<Rightarrow> c | Some v \<Rightarrow> c\<lparr>tx_model_visible_result := Some v\<rparr>)"

text \<open>The end of a call: its record, and the budget of failures.\<close>

definition settle_call ::
  "'w Runtime \<Rightarrow> bool \<Rightarrow> MiddlewareDecision \<Rightarrow> ToolResult \<Rightarrow> ToolCallContext \<Rightarrow> ('w, processed) run" where
  "settle_call rt internal after r c =
     bindM (record_context c) (\<lambda>_.
     if md_action after = ABORT_RUN then bindM (aborted rt after) (\<lambda>r. returnM (Ended r))
     else bindM (enforce_tool_settings_after_failure rt c internal) (\<lambda>stop.
       case stop of Some r \<Rightarrow> returnM (Ended r) | None \<Rightarrow> returnM (Ran c r)))"

definition answer_call ::
  "'w Runtime \<Rightarrow> ToolCall \<Rightarrow> ToolCallContext \<Rightarrow> ToolResult \<Rightarrow> MiddlewareDecision \<Rightarrow> ('w, ToolCallContext) run" where
  "answer_call rt call c r after =
     (if md_action after \<noteq> ABORT_RUN \<and> \<not> answered_by_finish call r
      then bindM (append_tool_result_message rt call r after (tx_state c \<noteq> DENIED) True) (\<lambda>visible.
           returnM (with_model_visible_result c visible))
      else returnM c)"

text \<open>A call in its three stages: the guards, the hook before it, and the call with its record.\<close>

definition run_call ::
  "'w Runtime \<Rightarrow> RunInput \<Rightarrow> ToolCall \<Rightarrow> bool \<Rightarrow> MiddlewareDecision \<Rightarrow> ('w, processed) run" where
  "run_call rt inp call internal d =
     bindM (tool_attempts (ri_retry_fuel inp) rt inp call internal d) (\<lambda>(c, r, after).
     bindM (answer_call rt call c r after) (settle_call rt internal after r))"

definition admit_call :: "'w Runtime \<Rightarrow> RunInput \<Rightarrow> ToolCall \<Rightarrow> bool \<Rightarrow> ('w, processed) run" where
  "admit_call rt inp call internal =
     bindM (hook rt inp BEFORE_TOOL_CALL (\<lambda>c. c\<lparr>cx_tool_call := Some call, cx_tool_is_internal := internal\<rparr>)) (\<lambda>d.
     if md_action d = ABORT_RUN then bindM (aborted rt d) (\<lambda>r. returnM (Ended r))
     else run_call rt inp call internal d)"

definition process_tool_call :: "'w Runtime \<Rightarrow> RunInput \<Rightarrow> ToolCall \<Rightarrow> ('w, processed) run" where
  "process_tool_call rt inp call0 =
     bindM (getM lp_tools) (\<lambda>tools.
     let call = prepare_call tools call0; internal = tool_name_is_internal tools (tc_tool_name call) in
     bindM (enforce_tool_settings rt call internal) (\<lambda>settled.
     case settled of
       Some p \<Rightarrow> returnM p
     | None \<Rightarrow> admit_call rt inp call internal))"

subsection \<open>The request of an iteration\<close>

definition render_loop_settings_block :: "AgentRuntimeConfig \<Rightarrow> string" where
  "render_loop_settings_block c =
     (let line = (\<lambda>name v. case v of None \<Rightarrow> [] | Some n \<Rightarrow> [''- '' @ name @ '': '' @ show_int n]);
          lines = line ''max_iterations'' (ac_max_iterations c) @ line ''max_tokens'' (ac_max_tokens c)
            @ line ''max_tool_calls'' (ac_max_tool_calls c) in
      if lines = [] then []
      else ''Below are your agent loop limits for this run. The runtime enforces them and stops the run when one is reached:''
        @ CHR 0x0A # joined [CHR 0x0A] lines)"

definition build_system_string :: "'w Runtime \<Rightarrow> 'w \<Rightarrow> string" where
  "build_system_string rt w =
     (let blank_line = [CHR 0x0A, CHR 0x0A];
          zone = joined blank_line (filter (\<lambda>z. z \<noteq> []) (ag_zones rt w)) in
      joined blank_line (filter (\<lambda>p. p \<noteq> []) [ag_fixed rt, render_loop_settings_block (ag_config rt), zone, ag_body rt]))"

definition build_conversation_messages :: "'w Runtime \<Rightarrow> 'w \<Rightarrow> dict list \<Rightarrow> dict list" where
  "build_conversation_messages rt w messages = ag_top rt w @ messages @ ag_end rt w"

text \<open>
  Where the run's own exchange begins.  The caller's messages open the list as the same objects as
  long as no fallback replaced the transcript.
\<close>

definition run_boundary :: "'w Runtime \<Rightarrow> 'w \<Rightarrow> 'w LoopState \<Rightarrow> dict list \<Rightarrow> nat option" where
  "run_boundary rt w s caller_messages =
     (let n = length caller_messages in
      if length (lp_messages s) \<le> n \<or> (n \<noteq> 0 \<and> \<not> lp_transcript_kept s) then None
      else Some (length (ag_top rt w) + n))"

definition build_iteration_call_options :: "'w Runtime \<Rightarrow> RunInput \<Rightarrow> 'w \<Rightarrow> 'w LoopState \<Rightarrow> CallOptions" where
  "build_iteration_call_options rt inp w s =
     (let o' = ri_options inp; conversation = build_conversation_messages rt w (lp_messages s) in
      \<lparr>co_system = or_else (co_system o') (Some (build_system_string rt w)),
       co_tools = or_else (co_tools o') (lp_tool_schemas s),
       co_messages = (if conversation = [] then None else Some conversation),
       co_prompt_index = or_else (co_prompt_index o') (run_boundary rt w s (ri_caller_messages inp)),
       co_response_format = or_else (co_response_format o')
         (case ag_output_schema rt of None \<Rightarrow> None | Some _ \<Rightarrow> Some (ag_wire_schema rt))\<rparr>)"

definition same_message :: "dict \<Rightarrow> dict \<Rightarrow> bool" where
  "same_message a b = py_eq (VDict a) (VDict b)"

fun first_index :: "('a \<Rightarrow> bool) \<Rightarrow> 'a list \<Rightarrow> nat option" where
  "first_index P [] = None"
| "first_index P (x # xs) = (if P x then Some 0 else map_option Suc (first_index P xs))"

definition apply_before_model_call_transform :: "CallOptions \<Rightarrow> MiddlewareDecision \<Rightarrow> CallOptions" where
  "apply_before_model_call_transform o' d =
     (case md_transform d of
        None \<Rightarrow> o'
      | Some t \<Rightarrow>
          let o1 = (case tf_system t of None \<Rightarrow> o' | Some sys \<Rightarrow> o'\<lparr>co_system := Some sys\<rparr>) in
          case tf_messages t of
            None \<Rightarrow> o1
          | Some messages \<Rightarrow>
              let o2 = o1\<lparr>co_messages := Some messages\<rparr>;
                  original = (case co_messages o' of None \<Rightarrow> [] | Some ms \<Rightarrow> ms) in
              case co_prompt_index o2 of
                None \<Rightarrow> o2
              | Some boundary \<Rightarrow>
                  let head = take boundary original; own = drop boundary original in
                  if list_all2 same_message (take boundary messages) head then o2
                  else o2\<lparr>co_prompt_index :=
                    first_index (\<lambda>m. list_ex (same_message m) own \<and> \<not> list_ex (same_message m) head) messages\<rparr>)"

definition compaction_event_delta :: "MiddlewareDecision \<Rightarrow> dict list \<Rightarrow> int" where
  "compaction_event_delta d messages =
     (case md_transform d of
        None \<Rightarrow> 0
      | Some t \<Rightarrow>
          (case tf_messages t of
             None \<Rightarrow> 0
           | Some ms \<Rightarrow>
               if map_of (tf_metadata t) ''compaction'' = None then 0
               else if list_all2 same_message ms messages then 0 else 1))"

subsection \<open>The fallback chain\<close>

definition model_at :: "'w AgentFallback \<Rightarrow> nat \<Rightarrow> exn + FallbackModel" where
  "model_at f index =
     (if index < length (fb_models f) then Inr (fb_models f ! index)
      else Inl (ConfigurationError (''Fallback chain index '' @ show_int (int index) @ '' is out of range for a chain of ''
             @ show_int (int (length (fb_models f))) @ ''.'')))"

definition is_model_error :: "'w AgentFallback \<Rightarrow> exn \<Rightarrow> bool" where
  "is_model_error f e = exn_isinstance e (fb_fallback_on f)"

definition advance :: "'w AgentFallback \<Rightarrow> exn \<Rightarrow> nat \<Rightarrow> nat option" where
  "advance f e index =
     (if \<not> is_model_error f e \<or> length (fb_models f) \<le> index + 1 then None else Some (index + 1))"

definition attempt_record :: "'w AgentFallback \<Rightarrow> nat \<Rightarrow> nat \<Rightarrow> exn \<Rightarrow> exn + FallbackAttempt" where
  "attempt_record f index next_index e =
     bindE (model_at f index) (\<lambda>m.
     bindE (model_at f next_index) (\<lambda>n.
     Inr \<lparr>fa_from = fm_identity m, fa_to = fm_identity n, fa_error_type = exn_type e\<rparr>))"

definition fallback_metadata :: "FallbackAttempt list \<Rightarrow> bool \<Rightarrow> pyval" where
  "fallback_metadata attempts context_reset = VDict
     [(''used'', VBool True),
      (''attempts'', VList (map (\<lambda>a. VDict [(''from'', VStr (fa_from a)), (''to'', VStr (fa_to a)),
         (''error_type'', VStr (fa_error_type a))]) attempts)),
      (''final_model'', if attempts = [] then VNone else VStr (fa_to (last attempts))),
      (''context_reset'', VBool context_reset)]"

definition is_wire_compatible :: "string \<Rightarrow> string \<Rightarrow> bool" where
  "is_wire_compatible source target = (wire_format (Some source) = wire_format (Some target))"

definition resolve_tool_schemas :: "'w Runtime \<Rightarrow> 'w Tool list \<Rightarrow> string \<Rightarrow> pyval option" where
  "resolve_tool_schemas rt tools provider = (if tools = [] then None else Some (ag_provider_schemas rt tools provider))"

definition publish_fallback_metadata :: "'w Runtime \<Rightarrow> pyval \<Rightarrow> ('w, unit) run" where
  "publish_fallback_metadata rt record =
     inWorld (\<lambda>w. ((), ag_put_run_state rt (dict_put result_metadata_key
       (VDict (dict_put ''fallback'' record (dict_of (get_or_none (ag_run_state rt w) result_metadata_key))))
       (ag_run_state rt w)) w))"

definition chain_exhausted :: "'w Runtime \<Rightarrow> nat \<Rightarrow> exn" where
  "chain_exhausted rt switches = Exn ''AllModelsFailedError'' [''VidbyteSdkError'', ''Exception'', ''BaseException'']
     (''Agent '' @ quoted (ag_name rt) @ '' exhausted its fallback chain after '' @ show_int (int switches) @ '' model switch(es).'')"

text \<open>
  \<open>_fallback_transition\<close> and the switch that follows it.  The exception goes on when no model is
  left; a chain that switched before ends in an error of its own.
\<close>

definition switched ::
  "'w Runtime \<Rightarrow> nat \<Rightarrow> FallbackModel \<Rightarrow> (string \<Rightarrow> CallOptions \<Rightarrow> 'w \<Rightarrow> (exn + raw_result) \<times> 'w)
   \<Rightarrow> FallbackAttempt \<Rightarrow> exn \<Rightarrow> 'w LoopState \<Rightarrow> 'w LoopState" where
  "switched rt next target invoke attempt e s =
     (let compatible = is_wire_compatible (lp_provider s) (fm_provider target) in
      s\<lparr>lp_handle := \<lparr>rh_provider = fm_provider target, rh_invoke = invoke\<rparr>, lp_provider := fm_provider target,
        lp_tool_schemas := resolve_tool_schemas rt (lp_tools s) (fm_provider target),
        lp_messages := (if compatible then lp_messages s else []),
        lp_transcript_kept := lp_transcript_kept s \<and> compatible,
        lp_fallback_index := next, lp_fallback_attempts := lp_fallback_attempts s @ [attempt],
        lp_fallback_errors := lp_fallback_errors s @ [e],
        lp_fallback_context_reset := lp_fallback_context_reset s \<or> \<not> compatible\<rparr>)"

definition switch_model :: "'w Runtime \<Rightarrow> 'w AgentFallback \<Rightarrow> exn \<Rightarrow> nat \<Rightarrow> ('w, unit) run" where
  "switch_model rt f e next =
     bindM (getM id) (\<lambda>s.
     bindM (raiseE (attempt_record f (lp_fallback_index s) next e)) (\<lambda>attempt.
     bindM (raiseE (model_at f next)) (\<lambda>target.
     bindM (raiseE (fb_build_runner f next)) (\<lambda>invoke.
     bindM (updM (switched rt next target invoke attempt e)) (\<lambda>_.
     bindM (getM id) (\<lambda>t.
     publish_fallback_metadata rt (fallback_metadata (lp_fallback_attempts t) (lp_fallback_context_reset t))))))))"

definition fallback_transition :: "'w Runtime \<Rightarrow> RunInput \<Rightarrow> exn \<Rightarrow> ('w, unit) run" where
  "fallback_transition rt inp e =
     (case (if ri_pin_model inp then None else ag_fallback rt) of
        None \<Rightarrow> throwM (Raised e)
      | Some f \<Rightarrow>
          if \<not> is_model_error f e then throwM (Raised e)
          else bindM (getM id) (\<lambda>s.
            case advance f e (lp_fallback_index s) of
              None \<Rightarrow>
                if lp_fallback_attempts s = [] then throwM (Raised e)
                else throwM (Raised (chain_exhausted rt (length (lp_fallback_attempts s))))
            | Some next \<Rightarrow> switch_model rt f e next))"

subsection \<open>Calling the model\<close>

definition may_switch :: "'w Runtime \<Rightarrow> RunInput \<Rightarrow> exn \<Rightarrow> nat \<Rightarrow> bool" where
  "may_switch rt inp e index =
     (case (if ri_pin_model inp then None else ag_fallback rt) of
        None \<Rightarrow> False | Some f \<Rightarrow> advance f e index \<noteq> None)"

text \<open>\<open>again\<close> is the call of the model after a retry.\<close>

definition after_model_error ::
  "'w Runtime \<Rightarrow> RunInput \<Rightarrow> exn \<Rightarrow> ('w, raw_result) run \<Rightarrow> ('w, raw_result) run" where
  "after_model_error rt inp e again =
     (if \<not> exn_isinstance e [''Exception''] then throwM (Raised e)
      else bindM (getM id) (\<lambda>s.
        bindM (inWorld (\<lambda>w. ((), ag_record_failed_call rt (lp_provider s) e w))) (\<lambda>_.
        bindM (model_call_hook rt inp ON_MODEL_ERROR (\<lambda>c. c\<lparr>cx_error := Some e\<rparr>)) (\<lambda>d.
        if md_action d = RETRY
        then bindM (spend_cap_stop rt) (\<lambda>spend.
          case spend of
            Some r \<Rightarrow> returnM (Finished r)
          | None \<Rightarrow> bindM (sleep_for rt (md_sleep_seconds d)) (\<lambda>_. again))
        else if md_action d = ABORT_RUN \<and> \<not> may_switch rt inp e (lp_fallback_index s)
        then bindM (aborted rt d) (\<lambda>r. returnM (Finished r))
        else throwM (Raised e)))))"

definition the_messages :: "CallOptions \<Rightarrow> dict list" where
  "the_messages o' = (case co_messages o' of None \<Rightarrow> [] | Some ms \<Rightarrow> ms)"

fun invoke_with_middleware :: "nat \<Rightarrow> 'w Runtime \<Rightarrow> RunInput \<Rightarrow> CallOptions \<Rightarrow> ('w, raw_result) run" where
  "invoke_with_middleware 0 rt inp call_options = throwM RetryFuel"
| "invoke_with_middleware (Suc n) rt inp call_options =
     bindM (model_call_hook rt inp BEFORE_MODEL_CALL
              (\<lambda>c. c\<lparr>cx_messages := the_messages call_options, cx_system := co_system call_options\<rparr>)) (\<lambda>d.
     if md_action d \<noteq> CONTINUE then bindM (aborted rt d) (\<lambda>r. returnM (Finished r))
     else
       bindM (updM (\<lambda>s. s\<lparr>
         lp_compaction_count := lp_compaction_count s + compaction_event_delta d (the_messages call_options),
         lp_model_call_count := lp_model_call_count s + 1\<rparr>)) (\<lambda>_.
       bindM (getM lp_handle) (\<lambda>handle.
       bindM (inWorld (rh_invoke handle (ri_message inp) (apply_before_model_call_transform call_options d))) (\<lambda>answer.
       case answer of
         Inr raw \<Rightarrow> returnM raw
       | Inl e \<Rightarrow> after_model_error rt inp e (invoke_with_middleware n rt inp call_options)))))"

text \<open>The call with its fallback: no answer when the run goes on with the next model.\<close>

definition call_model :: "'w Runtime \<Rightarrow> RunInput \<Rightarrow> ('w, raw_result option) run" where
  "call_model rt inp =
     bindM world (\<lambda>w.
     bindM (getM id) (\<lambda>s.
     catchM
       (bindM (invoke_with_middleware (ri_retry_fuel inp) rt inp (build_iteration_call_options rt inp w s)) (\<lambda>raw.
        returnM (Some raw)))
       (\<lambda>e. bindM (fallback_transition rt inp e) (\<lambda>_. returnM None))))"

subsection \<open>Output contracts\<close>

definition tool_calls_by_name :: "ToolCallContext list \<Rightarrow> (string \<times> int) list" where
  "tool_calls_by_name cs =
     foldl (\<lambda>counts c. dict_put (tx_tool_name c)
        ((case map_of counts (tx_tool_name c) of None \<Rightarrow> 0 | Some n \<Rightarrow> n) + 1) counts) [] cs"

definition approx_output_tokens :: "string \<Rightarrow> int" where
  "approx_output_tokens text' = (if text' = [] then 0 else max 1 ((int (length text') + 3) div 4))"

definition contract_counters :: "'w Runtime \<Rightarrow> string \<Rightarrow> ('w, dict) run" where
  "contract_counters rt final_text =
     bindM (inWorld (pc_clock (ag_pipeline rt))) (\<lambda>now.
     bindM world (\<lambda>w.
     getM (\<lambda>s.
       let cs = non_internal_tool_contexts (lp_tools s) (lp_contexts s) in
       [(''iteration_count'', VInt (lp_iteration_count s)), (''model_call_count'', VInt (lp_model_call_count s)),
        (''tool_call_count'', VInt (int (length cs))),
        (''successful_tool_call_count'', VInt (count (\<lambda>c. tx_state c = SUCCEEDED) cs)),
        (''distinct_tool_count'', VInt (int (length (remdups (map tx_tool_name cs))))),
        (''tool_calls_by_name'', VDict (map (\<lambda>(k, n). (k, VInt n)) (tool_calls_by_name cs))),
        (''tokens_used'', VInt (case lp_tokens_used s of None \<Rightarrow> 0 | Some n \<Rightarrow> n)),
        (''elapsed_seconds'', VFloat (Fin (now - lp_started_at s))), (''final_output'', VStr final_text),
        (''final_output_chars'', VInt (int (length final_text))),
        (''final_output_tokens'', VInt (approx_output_tokens final_text)),
        (''cost_spent_usd'', VFloat (Fin (ag_cost_spent rt w))), (''compaction_count'', VInt (lp_compaction_count s))])))"

definition publish_contract_evaluations :: "'w Runtime \<Rightarrow> dict \<Rightarrow> ('w, unit) run" where
  "publish_contract_evaluations rt counters =
     inWorldE (\<lambda>w.
       case (case map_of (ag_run_state rt w) result_metadata_key of None \<Rightarrow> VDict [] | Some v \<Rightarrow> v) of
         VDict published \<Rightarrow>
           (Inr (), ag_put_run_state rt (dict_put result_metadata_key
             (VDict (dict_put ''contract_evaluations'' (contracts_report (ag_output_contract rt) counters) published))
             (ag_run_state rt w)) w)
       | _ \<Rightarrow> (Inl (TypeError ''object does not support item assignment''), w))"

datatype contract_verdict = Met | Unmet "OutputContract list" dict | Exhausted

text \<open>The contracts of a finish attempt, judged with the rejections made so far.\<close>

definition judge_contracts :: "'w Runtime \<Rightarrow> string \<Rightarrow> ('w, contract_verdict) run" where
  "judge_contracts rt final_text =
     (if \<not> contracts_active (ag_output_contract rt) then returnM Met
      else bindM (contract_counters rt final_text) (\<lambda>counters.
        bindM (publish_contract_evaluations rt counters) (\<lambda>_.
        let missing = unmet (ag_output_contract rt) counters in
        if missing = [] then returnM Met
        else bindM (getM lp_rejections) (\<lambda>rejections.
          bindM (raiseE (exhausted (ag_output_contract rt) rejections)) (\<lambda>spent.
          if spent then returnM Exhausted
          else bindM (updM (\<lambda>s. s\<lparr>lp_rejections := lp_rejections s + 1\<rparr>)) (\<lambda>_.
            returnM (Unmet missing counters)))))))"

subsection \<open>A response\<close>

definition add_token_usage :: "int option \<Rightarrow> int option \<Rightarrow> int option" where
  "add_token_usage current delta =
     (case delta of None \<Rightarrow> current | Some d \<Rightarrow> Some ((case current of None \<Rightarrow> 0 | Some c \<Rightarrow> c) + d))"

definition record_response :: "'w Runtime \<Rightarrow> Response \<Rightarrow> ('w, unit) run" where
  "record_response rt r =
     bindM (updM (\<lambda>s. s\<lparr>
       lp_model_response := Some (rs_view r), lp_iteration_count := lp_iteration_count s + 1,
       lp_last_output := rs_text r, lp_outputs := lp_outputs s @ [rs_text r],
       lp_tokens_used := add_token_usage (lp_tokens_used s)
         (token_usage_from_response (rs_usage r) (rs_raw r) (rs_metadata r))\<rparr>)) (\<lambda>_.
     bindM (getM lp_outputs) (\<lambda>outs.
     inWorld (\<lambda>w. ((), ag_record_call rt r
       (ag_put_run_state rt (dict_put iteration_outputs_key (VList (map VStr outs)) (ag_run_state rt w)) w)))))"

definition assistant_message :: "string \<Rightarrow> dict" where
  "assistant_message out = [(''role'', VStr ''assistant''), (''content'', VStr out)]"

definition user_message :: "string \<Rightarrow> dict" where
  "user_message content = [(''role'', VStr ''user''), (''content'', VStr content)]"

text \<open>
  The inner context-window algorithm between two iterations.  Its side calls come back as their token
  counts.
\<close>

definition inner_context_window_hook :: "'w Runtime \<Rightarrow> ('w, unit) run" where
  "inner_context_window_hook rt =
     (case ag_inner rt of
        None \<Rightarrow> returnM ()
      | Some algorithm \<Rightarrow>
          bindM (inWorldE algorithm) (\<lambda>deltas.
          updM (\<lambda>s. s\<lparr>lp_tokens_used := foldl add_token_usage (lp_tokens_used s) deltas\<rparr>)))"

subsection \<open>Finishing on a plain answer\<close>

text \<open>
  What a step of a pass leads to: the pass returns a result, the loop goes on, or the pass goes on.
  \<open>_continue_finish_attempt\<close> and \<open>_after_tool_iteration\<close> are hooks for subclasses; here
  they do what the class does, accept and nothing.
\<close>

definition continue_finish_attempt :: "AgentResult \<Rightarrow> ('w, bool) run" where
  "continue_finish_attempt r = returnM False"

definition after_tool_iteration :: "('w, unit) run" where
  "after_tool_iteration = returnM ()"

definition nonblank :: "string \<Rightarrow> bool" where
  "nonblank t \<longleftrightarrow> strip t \<noteq> []"

text \<open>
  \<open>return_result\<close> ends the run, \<open>go_on\<close> starts the next pass.
\<close>

definition return_result :: "'w Runtime \<Rightarrow> RunInput \<Rightarrow> AgentResult \<Rightarrow> ('w, AgentResult option) run" where
  "return_result rt inp r = bindM (finish rt inp r) (\<lambda>r. returnM (Some r))"

definition return_shown :: "'w Runtime \<Rightarrow> RunInput \<Rightarrow> dict list \<Rightarrow> AgentResult \<Rightarrow> ('w, AgentResult option) run" where
  "return_shown rt inp shown r = bindM (finish_result rt inp shown r) (\<lambda>r. returnM (Some r))"

text \<open>The hooks after an iteration, and the run that ends when they do not let it continue.\<close>

definition after_iteration :: "'w Runtime \<Rightarrow> RunInput \<Rightarrow> dict list \<Rightarrow> ('w, MiddlewareDecision) run" where
  "after_iteration rt inp shown = hook rt inp AFTER_ITERATION (\<lambda>c. c\<lparr>cx_messages := shown\<rparr>)"

definition end_iteration :: "'w Runtime \<Rightarrow> RunInput \<Rightarrow> ('w, AgentResult option) run" where
  "end_iteration rt inp =
     bindM (getM lp_messages) (\<lambda>ms.
     bindM (after_iteration rt inp ms) (\<lambda>d.
     if md_action d \<noteq> CONTINUE then bindM (aborted rt d) (return_result rt inp) else returnM None))"

text \<open>A refused draft stays in the conversation, followed by what is missing.\<close>

definition refuse_draft :: "'w Runtime \<Rightarrow> RunInput \<Rightarrow> string \<Rightarrow> string \<Rightarrow> ('w, AgentResult option) run" where
  "refuse_draft rt inp draft reason =
     bindM (if nonblank draft then append_message (assistant_message draft) else returnM ()) (\<lambda>_.
     bindM (append_message (user_message reason)) (\<lambda>_.
     end_iteration rt inp))"

definition with_reply :: "string \<Rightarrow> dict list \<Rightarrow> dict list" where
  "with_reply draft ms = (if nonblank draft then ms @ [assistant_message draft] else ms)"

definition accept_plain :: "'w Runtime \<Rightarrow> RunInput \<Rightarrow> dict \<Rightarrow> string \<Rightarrow> ('w, AgentResult option) run" where
  "accept_plain rt inp runner_metadata draft =
     bindM (final_result rt draft runner_metadata FINAL_RESPONSE) (\<lambda>final.
     bindM (if ag_inner rt \<noteq> None then append_message (assistant_message draft) else returnM ()) (\<lambda>_.
     bindM (getM lp_messages) (\<lambda>ms.
     let shown = (if ag_inner rt \<noteq> None then ms else ms @ [assistant_message draft]) in
     bindM (after_iteration rt inp shown) (\<lambda>d.
     if ag_inner rt \<noteq> None \<and> md_action d = CONTINUE then returnM None
     else if md_action d \<noteq> CONTINUE then bindM (aborted rt d) (return_shown rt inp shown)
     else bindM (continue_finish_attempt final) (\<lambda>again.
       if again
       then bindM (if ag_inner rt = None then append_message (assistant_message draft) else returnM ()) (\<lambda>_. returnM None)
       else return_shown rt inp shown final)))))"

definition finish_plain :: "'w Runtime \<Rightarrow> RunInput \<Rightarrow> Response \<Rightarrow> ('w, AgentResult option) run" where
  "finish_plain rt inp r =
     (let draft = rs_text r in
      bindM (spend_cap_stop rt) (\<lambda>spend.
      case spend of
        Some stop \<Rightarrow> return_result rt inp stop
      | None \<Rightarrow>
          bindM (getM lp_tokens_used) (\<lambda>tokens.
          if tokens_reached (ag_config rt) tokens
          then bindM (stopped_result rt ''Agent runtime stopped after reaching max_tokens.'' MAX_TOKENS) (return_result rt inp)
          else bindM (judge_contracts rt draft) (\<lambda>verdict.
            case verdict of
              Exhausted \<Rightarrow>
                bindM (getM lp_messages) (\<lambda>ms.
                bindM (final_result rt draft [] CONTRACT_UNSATISFIED) (return_shown rt inp (with_reply draft ms)))
            | Unmet missing counters \<Rightarrow> refuse_draft rt inp draft (feedback missing counters)
            | Met \<Rightarrow>
                bindM (review rt inp id) (\<lambda>rv.
                case rv of
                  Stop _ \<Rightarrow>
                    bindM (getM lp_messages) (\<lambda>ms.
                    bindM (unverified_finish_result rt draft) (return_shown rt inp (with_reply draft ms)))
                | ContinueWith reason \<Rightarrow> refuse_draft rt inp draft reason
                | Accept \<Rightarrow> accept_plain rt inp (rs_metadata r) draft)))))"

subsection \<open>The tool calls of a turn\<close>

datatype turn_end = Returns AgentResult "dict list option" | Refused | Processed

definition refuse_call :: "'w Runtime \<Rightarrow> ToolCall \<Rightarrow> ToolResult \<Rightarrow> ToolCall list \<Rightarrow> ('w, unit) run" where
  "refuse_call rt call answer skipped =
     bindM (append_tool_result_message rt call answer plain_continue True False) (\<lambda>_.
     answer_skipped_tool_calls rt skipped)"

definition not_accepted :: "ToolCall \<Rightarrow> ToolResult" where
  "not_accepted call = tool_error (tc_tool_name call) ''finish attempt not accepted yet; continue with the next message''
     [(''error'', VStr ''finish_not_accepted'')]"

definition finish_by_call ::
  "'w Runtime \<Rightarrow> RunInput \<Rightarrow> dict \<Rightarrow> ToolCall \<Rightarrow> ToolResult \<Rightarrow> ToolCall list \<Rightarrow> ('w, turn_end) run" where
  "finish_by_call rt inp runner_metadata call r skipped =
     bindM (getM lp_messages) (\<lambda>ms.
     bindM (after_iteration rt inp ms) (\<lambda>d.
     if md_action d \<noteq> CONTINUE then bindM (aborted rt d) (\<lambda>stop. returnM (Returns stop None))
     else bindM (judge_contracts rt (tres_output r)) (\<lambda>verdict.
       case verdict of
         Exhausted \<Rightarrow> bindM (final_result rt (tres_output r) [] CONTRACT_UNSATISFIED) (\<lambda>stop. returnM (Returns stop None))
       | Unmet missing counters \<Rightarrow>
           bindM (refuse_call rt call (tool_error (tc_tool_name call) (feedback missing counters) []) skipped) (\<lambda>_.
           returnM Refused)
       | Met \<Rightarrow>
           bindM (final_result rt (tres_output r) runner_metadata IS_DONE) (\<lambda>final.
           bindM (getM lp_messages) (\<lambda>shown.
           bindM (refuse_call rt call (not_accepted call) skipped) (\<lambda>_.
           bindM (review rt inp (\<lambda>c. c\<lparr>cx_tool_call := Some call, cx_tool_result := Some r\<rparr>)) (\<lambda>rv.
           case rv of
             Stop _ \<Rightarrow> bindM (unverified_finish_result rt (tres_output r)) (\<lambda>stop. returnM (Returns stop (Some shown)))
           | ContinueWith reason \<Rightarrow> bindM (append_message (user_message reason)) (\<lambda>_. returnM Refused)
           | Accept \<Rightarrow>
               bindM (continue_finish_attempt final) (\<lambda>again.
               returnM (if again then Refused else Returns final (Some shown))))))))))"

fun run_tool_calls ::
  "'w Runtime \<Rightarrow> RunInput \<Rightarrow> dict \<Rightarrow> ToolCall list \<Rightarrow> ('w, turn_end) run" where
  "run_tool_calls rt inp runner_metadata [] = returnM Processed"
| "run_tool_calls rt inp runner_metadata (call # calls) =
     bindM (process_tool_call rt inp call) (\<lambda>p.
     case p of
       Ended r \<Rightarrow> returnM (Returns r None)
     | Ran _ r \<Rightarrow>
         if answered_by_finish call r then finish_by_call rt inp runner_metadata call r calls
         else run_tool_calls rt inp runner_metadata calls)"

subsection \<open>The catalog of the agent\<close>

text \<open>
  \<open>_adopt_agent_catalog\<close> with the schemas it renews.  A catalog whose tools are the same objects
  is taken for the same catalog.
\<close>

definition adopt_agent_catalog :: "'w Runtime \<Rightarrow> ('w, unit) run" where
  "adopt_agent_catalog rt =
     bindM world (\<lambda>w.
     bindM (getM id) (\<lambda>s.
     let current = (case ag_catalog rt of Some f \<Rightarrow> f w | None \<Rightarrow> lp_catalog_seen s); previous = lp_catalog_seen s;
         objects = map tl_object in
     if objects current = objects previous then returnM ()
     else bindM (raiseE (Tools_without (lp_tools s)
              (filter (\<lambda>t. tl_object t \<notin> set (objects current)) previous))) (\<lambda>catalog.
       bindM (raiseE (Tools_extend catalog
              (filter (\<lambda>t. tl_object t \<notin> set (objects previous) \<and> tl_name t \<notin> set (map tl_name catalog)) current) False)) (\<lambda>tools.
       updM (\<lambda>s. s\<lparr>lp_catalog_seen := current, lp_tools := tools,
         lp_tool_schemas := resolve_tool_schemas rt tools (lp_provider s)\<rparr>)))))"

text \<open>The assistant turn is replayed before its answers.\<close>

definition echo_calls :: "'w Runtime \<Rightarrow> Response \<Rightarrow> ('w, unit) run" where
  "echo_calls rt r =
     bindM (getM lp_provider) (\<lambda>provider.
     case format_assistant_tool_calls (ag_show rt) (ag_dumps rt) (rs_raw r) provider of
       None \<Rightarrow> returnM () | Some m \<Rightarrow> append_message m)"

definition close_turn :: "'w Runtime \<Rightarrow> RunInput \<Rightarrow> ('w, AgentResult option) run" where
  "close_turn rt inp =
     bindM (end_iteration rt inp) (\<lambda>stop.
     case stop of
       Some r \<Rightarrow> returnM (Some r)
     | None \<Rightarrow>
         bindM (spend_cap_stop rt) (\<lambda>spend.
         case spend of
           Some r \<Rightarrow> return_result rt inp r
         | None \<Rightarrow>
             bindM after_tool_iteration (\<lambda>_.
             bindM (adopt_agent_catalog rt) (\<lambda>_.
             returnM None))))"

definition leave_turn :: "'w Runtime \<Rightarrow> RunInput \<Rightarrow> turn_end \<Rightarrow> ('w, AgentResult option) run" where
  "leave_turn rt inp e =
     (case e of
        Returns stop None \<Rightarrow> return_result rt inp stop
      | Returns stop (Some shown) \<Rightarrow> return_shown rt inp shown stop
      | Refused \<Rightarrow> bindM (adopt_agent_catalog rt) (\<lambda>_. returnM None)
      | Processed \<Rightarrow> close_turn rt inp)"

definition tool_turn :: "'w Runtime \<Rightarrow> RunInput \<Rightarrow> Response \<Rightarrow> ToolCall list \<Rightarrow> ('w, AgentResult option) run" where
  "tool_turn rt inp r calls =
     bindM (echo_calls rt r) (\<lambda>_.
     bindM (run_tool_calls rt inp (rs_metadata r) calls) (leave_turn rt inp))"

subsection \<open>The loop\<close>

definition react :: "'w Runtime \<Rightarrow> RunInput \<Rightarrow> Response \<Rightarrow> ('w, AgentResult option) run" where
  "react rt inp r =
     bindM (hook rt inp AFTER_MODEL_RESPONSE id) (\<lambda>d.
     if md_action d \<noteq> CONTINUE then bindM (aborted rt d) (return_result rt inp)
     else bindM (getM lp_provider) (\<lambda>provider.
       bindM (raiseE (parse_tool_calls (ag_show rt) (ag_loads rt) (rs_raw r) provider)) (\<lambda>calls.
       if calls = [] then finish_plain rt inp r else tool_turn rt inp r calls)))"

definition answer_turn :: "'w Runtime \<Rightarrow> RunInput \<Rightarrow> Response \<Rightarrow> ('w, AgentResult option) run" where
  "answer_turn rt inp r = bindM (record_response rt r) (\<lambda>_. react rt inp r)"

text \<open>One pass of the loop: the result when the run returns, none when it goes on.\<close>

definition take_answer :: "'w Runtime \<Rightarrow> RunInput \<Rightarrow> raw_result option \<Rightarrow> ('w, AgentResult option) run" where
  "take_answer rt inp answer =
     (case answer of
        None \<Rightarrow> returnM None
      | Some (Finished r) \<Rightarrow> return_result rt inp r
      | Some (Answered r) \<Rightarrow> answer_turn rt inp r)"

definition begin_iteration :: "'w Runtime \<Rightarrow> RunInput \<Rightarrow> ('w, AgentResult option) run" where
  "begin_iteration rt inp =
     bindM (hook rt inp BEFORE_ITERATION id) (\<lambda>d.
     if md_action d \<noteq> CONTINUE then bindM (aborted rt d) (return_result rt inp)
     else bindM (call_model rt inp) (take_answer rt inp))"

definition one_pass :: "'w Runtime \<Rightarrow> RunInput \<Rightarrow> ('w, AgentResult option) run" where
  "one_pass rt inp =
     bindM (getM lp_iteration_count) (\<lambda>n.
     bindM (if 0 < n then inner_context_window_hook rt else returnM ()) (\<lambda>_.
     bindM (loop_budget_stop rt) (\<lambda>stop.
     case stop of Some r \<Rightarrow> return_result rt inp r | None \<Rightarrow> begin_iteration rt inp)))"

text \<open>The passes, at most as many as the fuel allows; no result when it is spent.\<close>

fun agent_loop :: "nat \<Rightarrow> 'w Runtime \<Rightarrow> RunInput \<Rightarrow> ('w, AgentResult option) run" where
  "agent_loop 0 rt inp = returnM None"
| "agent_loop (Suc n) rt inp =
     bindM (one_pass rt inp) (\<lambda>r. case r of Some x \<Rightarrow> returnM (Some x) | None \<Rightarrow> agent_loop n rt inp)"

text \<open>
  The state a run starts in.  A later trial of the same run is handed the model the run switched to
  and goes on from the place in the chain it had reached.
\<close>

definition initial_state ::
  "'w Runtime \<Rightarrow> RunInput \<Rightarrow> 'w Pipeline \<Rightarrow> rat \<Rightarrow> 'w RunnerHandle \<Rightarrow> 'w Tool list \<Rightarrow> 'w Tool list
   \<Rightarrow> nat \<times> FallbackAttempt list \<times> exn list \<times> bool \<Rightarrow> 'w LoopState" where
  "initial_state rt inp p started handle tools catalog progress =
     (case progress of (index, attempts, errors, context_reset) \<Rightarrow>
     \<lparr>lp_pipe = p, lp_started_at = started, lp_handle = handle, lp_provider = rh_provider handle, lp_tools = tools,
      lp_catalog_seen = catalog, lp_tool_schemas = resolve_tool_schemas rt tools (rh_provider handle),
      lp_messages = ri_caller_messages inp, lp_transcript_kept = True, lp_contexts = [], lp_outputs = [],
      lp_last_output = [], lp_iteration_count = 0, lp_model_call_count = 0, lp_tokens_used = None,
      lp_model_response = None, lp_rejections = 0, lp_compaction_count = 0, lp_fallback_index = index,
      lp_fallback_attempts = attempts, lp_fallback_errors = errors, lp_fallback_context_reset = context_reset\<rparr>)"

definition run_once :: "nat \<Rightarrow> 'w Runtime \<Rightarrow> RunInput \<Rightarrow> bool \<Rightarrow> ('w, AgentResult option) run" where
  "run_once fuel rt inp resumed =
     bindM (inner_context_window_hook rt) (\<lambda>_.
     bindM (getM id) (\<lambda>s.
     bindM (if resumed \<and> ag_fallback rt \<noteq> None
            then publish_fallback_metadata rt (fallback_metadata (lp_fallback_attempts s) (lp_fallback_context_reset s))
            else returnM ()) (\<lambda>_.
     bindM (hook rt inp BEFORE_RUN id) (\<lambda>d.
     if md_action d \<noteq> CONTINUE then bindM (aborted rt d) (return_result rt inp)
     else agent_loop fuel rt inp))))"

definition arun_once ::
  "nat \<Rightarrow> 'w Runtime \<Rightarrow> RunInput \<Rightarrow> 'w RunnerHandle \<Rightarrow> 'w Tool list \<Rightarrow> 'w Tool list
   \<Rightarrow> (nat \<times> FallbackAttempt list \<times> exn list \<times> bool) option \<Rightarrow> 'w Pipeline \<Rightarrow> (halt + AgentResult option) \<times> 'w LoopState" where
  "arun_once fuel rt inp handle tools catalog resumed p =
     (case worldM (pc_clock (ag_pipeline rt)) p of (clock, q) \<Rightarrow>
        run_once fuel rt inp (resumed \<noteq> None)
          (initial_state rt inp q (case clock of Inr now \<Rightarrow> now | Inl _ \<Rightarrow> 0) handle tools catalog
            (case resumed of Some progress \<Rightarrow> progress | None \<Rightarrow> (0, [], [], False))))"

end
