(* ===== verification/AG_Frames.thy ===== *)
theory AG_Frames
  imports AG_Runtime
begin

text \<open>
  What each computation of the runtime leaves alone.  Most of them change nothing but the world and
  the records of the pipeline; the answer to a call also extends the conversation; only
  \<open>process_tool_call\<close> records calls.
\<close>

named_theorems quiet \<open>computations that change only the world\<close>

context state_preorder
begin

lemma keeps_option: "keeps a \<Longrightarrow> (\<And>y. x = Some y \<Longrightarrow> keeps (f y)) \<Longrightarrow> keeps (case x of None \<Rightarrow> a | Some y \<Rightarrow> f y)"
  by (cases x) auto

lemma keeps_sum: "(\<And>y. x = Inl y \<Longrightarrow> keeps (f y)) \<Longrightarrow> (\<And>y. x = Inr y \<Longrightarrow> keeps (g y)) \<Longrightarrow>
    keeps (case x of Inl y \<Rightarrow> f y | Inr y \<Rightarrow> g y)"
  by (cases x) auto

lemma keeps_prod: "(\<And>a b. x = (a, b) \<Longrightarrow> keeps (f a b)) \<Longrightarrow> keeps (case x of (a, b) \<Rightarrow> f a b)"
  by (cases x) auto

lemma keeps_Let: "(\<And>y. keeps (f y)) \<Longrightarrow> keeps (Let x f)"
  by simp

lemmas keeps_rules = keeps_returnM keeps_throwM keeps_getM keeps_bindM keeps_if keeps_option keeps_sum keeps_prod keeps_Let

end

lemma keeps_mono:
  "state_preorder R \<Longrightarrow> state_preorder S \<Longrightarrow> (\<And>s t. R s t \<Longrightarrow> S s t) \<Longrightarrow> state_preorder.keeps R m \<Longrightarrow>
   state_preorder.keeps S m"
  by (simp add: state_preorder.keeps_def)

subsection \<open>The world only\<close>

definition only_world :: "'w LoopState \<Rightarrow> 'w LoopState \<Rightarrow> bool" where
  "only_world s t \<longleftrightarrow> (\<exists>p. t = s\<lparr>lp_pipe := p\<rparr>)"

interpretation ow: state_preorder "only_world :: 'w LoopState \<Rightarrow> 'w LoopState \<Rightarrow> bool"
proof
  fix s t u :: "'w LoopState"
  show "only_world s s" unfolding only_world_def by (rule exI [of _ "lp_pipe s"]) simp
  show "only_world s t \<Longrightarrow> only_world t u \<Longrightarrow> only_world s u" by (auto simp: only_world_def)
qed

lemma only_world_pipeM [quiet]: "ow.keeps (pipeM m)"
  by (rule ow.keepsI) (auto simp: pipeM_def only_world_def split: prod.split sum.split)

lemma only_world_inWorld [quiet]: "ow.keeps (inWorld f)"
  by (simp add: inWorld_def quiet)

lemma only_world_world [quiet]: "ow.keeps world"
  by (simp add: world_def ow.keeps_getM)

lemma only_world_raiseE [quiet]: "ow.keeps (raiseE r)"
  by (simp add: raiseE_def ow.keeps_rules)

lemma only_world_inWorldE [quiet]: "ow.keeps (inWorldE f)"
  unfolding inWorldE_def by (intro ow.keeps_rules quiet)

lemma only_world_stopped_result [quiet]: "ow.keeps (stopped_result rt out reason)"
  unfolding stopped_result_def by (intro ow.keeps_rules quiet)

lemma only_world_abort [quiet]: "ow.keeps (middleware_abort_result rt d cs)"
  unfolding middleware_abort_result_def by (intro ow.keeps_rules quiet)

lemma only_world_aborted [quiet]: "ow.keeps (aborted rt d)"
  unfolding aborted_def by (intro ow.keeps_rules quiet)

lemma only_world_final [quiet]: "ow.keeps (final_result rt out m reason)"
  unfolding final_result_def by (intro ow.keeps_rules quiet)

lemma only_world_unverified [quiet]: "ow.keeps (unverified_finish_result rt out)"
  unfolding unverified_finish_result_def by (intro quiet)

lemma only_world_context [quiet]: "ow.keeps (middleware_context rt inp r)"
  unfolding middleware_context_def by (intro ow.keeps_rules quiet)

lemma only_world_hook [quiet]: "ow.keeps (hook rt inp h f)"
  unfolding hook_def by (intro ow.keeps_rules quiet)

lemma only_world_review [quiet]: "ow.keeps (review rt inp f)"
  unfolding review_def by (intro ow.keeps_rules quiet)

lemma only_world_model_hook [quiet]: "ow.keeps (model_call_hook rt inp h f)"
  unfolding model_call_hook_def by (intro ow.keeps_rules quiet)

lemma only_world_finish_result [quiet]: "ow.keeps (finish_result rt inp shown r)"
  unfolding finish_result_def by (intro ow.keeps_rules quiet)

lemma only_world_finish [quiet]: "ow.keeps (finish rt inp r)"
  unfolding finish_def by (intro ow.keeps_rules quiet)

lemma only_world_spend [quiet]: "ow.keeps (spend_cap_stop rt)"
  unfolding spend_cap_stop_def by (intro ow.keeps_rules quiet)

lemma only_world_stopped [quiet]: "ow.keeps (stopped rt out reason)"
  unfolding stopped_def by (intro ow.keeps_rules quiet)

lemma only_world_budget [quiet]: "ow.keeps (loop_budget_stop rt)"
  unfolding loop_budget_stop_def by (intro ow.keeps_rules quiet)

lemma only_world_hard_stop [quiet]: "ow.keeps (tool_settings_hard_budget_stop rt b)"
  unfolding tool_settings_hard_budget_stop_def by (intro ow.keeps_rules quiet)

lemma only_world_tool_budget [quiet]: "ow.keeps (tool_settings_budget_stop rt)"
  unfolding tool_settings_budget_stop_def by (intro ow.keeps_rules quiet)

lemma only_world_binding [quiet]: "ow.keeps (apply_primitive_binding rt call r)"
  unfolding apply_primitive_binding_def by (intro ow.keeps_rules quiet)

lemma only_world_visible [quiet]: "ow.keeps (model_visible_tool_result rt call r d capped admit)"
  unfolding model_visible_tool_result_def by (intro ow.keeps_rules quiet)

lemma only_world_sleep [quiet]: "ow.keeps (sleep_for rt x)"
  unfolding sleep_for_def by (intro ow.keeps_rules quiet)

lemma only_world_attempt [quiet]: "ow.keeps (tool_attempt rt call internal d)"
  unfolding tool_attempt_def by (intro ow.keeps_rules quiet)

lemma only_world_attempts [quiet]: "ow.keeps (tool_attempts n rt inp call internal d)"
proof (induction n)
  case (Suc n)
  show ?case unfolding tool_attempts.simps by (intro ow.keeps_rules quiet Suc)
qed (simp add: ow.keeps_throwM)

lemma only_world_failure [quiet]: "ow.keeps (enforce_tool_settings_after_failure rt c internal)"
  unfolding enforce_tool_settings_after_failure_def by (intro ow.keeps_rules quiet)

lemma only_world_publish [quiet]: "ow.keeps (publish_fallback_metadata rt r)"
  unfolding publish_fallback_metadata_def by (intro quiet)

lemma only_world_counters [quiet]: "ow.keeps (contract_counters rt out)"
  unfolding contract_counters_def by (intro ow.keeps_rules quiet)

lemma only_world_evaluations [quiet]: "ow.keeps (publish_contract_evaluations rt c)"
  unfolding publish_contract_evaluations_def by (intro quiet)

lemma only_world_return [quiet]: "ow.keeps (return_result rt inp r)" "ow.keeps (return_shown rt inp shown r)"
  unfolding return_result_def return_shown_def by (intro ow.keeps_rules quiet)+

lemma only_world_after_iteration [quiet]: "ow.keeps (after_iteration rt inp shown)"
  unfolding after_iteration_def by (intro quiet)

lemma only_world_end_iteration [quiet]: "ow.keeps (end_iteration rt inp)"
  unfolding end_iteration_def by (intro ow.keeps_rules quiet)

lemma only_world_continue [quiet]: "ow.keeps (continue_finish_attempt r)"
  by (simp add: continue_finish_attempt_def ow.keeps_returnM)

lemma only_world_after_tools [quiet]: "ow.keeps after_tool_iteration"
  by (simp add: after_tool_iteration_def ow.keeps_returnM)

subsection \<open>A turn\<close>

text \<open>
  Handling a response changes the world, the conversation, the records, the rejections and the
  catalog, but not the counters of the run nor its place in the fallback chain.
\<close>

definition turn_frame :: "'w LoopState \<Rightarrow> 'w LoopState" where
  "turn_frame s = s\<lparr>lp_pipe := undefined, lp_messages := [], lp_contexts := [], lp_rejections := 0, lp_tools := [],
     lp_tool_schemas := None, lp_catalog_seen := []\<rparr>"

definition in_turn :: "'w LoopState \<Rightarrow> 'w LoopState \<Rightarrow> bool" where
  "in_turn s t \<longleftrightarrow> turn_frame t = turn_frame s"

interpretation tn: state_preorder "in_turn :: 'w LoopState \<Rightarrow> 'w LoopState \<Rightarrow> bool"
  unfolding in_turn_def by (rule state_preorder_field)

lemma in_turn_fields:
  assumes "in_turn s t"
  shows "lp_iteration_count t = lp_iteration_count s" "lp_fallback_index t = lp_fallback_index s"
    "lp_fallback_attempts t = lp_fallback_attempts s" "lp_fallback_errors t = lp_fallback_errors s"
    "lp_provider t = lp_provider s"
proof -
  have "f (turn_frame t) = f (turn_frame s)" for f :: "'a LoopState \<Rightarrow> 'b"
    using assms by (simp add: in_turn_def)
  from this [of lp_iteration_count] show "lp_iteration_count t = lp_iteration_count s" by (simp add: turn_frame_def)
next
  have f: "f (turn_frame t) = f (turn_frame s)" for f :: "'a LoopState \<Rightarrow> nat"
    using assms by (simp add: in_turn_def)
  from f [of lp_fallback_index] show "lp_fallback_index t = lp_fallback_index s" by (simp add: turn_frame_def)
next
  have f: "f (turn_frame t) = f (turn_frame s)" for f :: "'a LoopState \<Rightarrow> FallbackAttempt list"
    using assms by (simp add: in_turn_def)
  from f [of lp_fallback_attempts] show "lp_fallback_attempts t = lp_fallback_attempts s" by (simp add: turn_frame_def)
next
  have f: "f (turn_frame t) = f (turn_frame s)" for f :: "'a LoopState \<Rightarrow> exn list"
    using assms by (simp add: in_turn_def)
  from f [of lp_fallback_errors] show "lp_fallback_errors t = lp_fallback_errors s" by (simp add: turn_frame_def)
next
  have f: "f (turn_frame t) = f (turn_frame s)" for f :: "'a LoopState \<Rightarrow> string"
    using assms by (simp add: in_turn_def)
  from f [of lp_provider] show "lp_provider t = lp_provider s" by (simp add: turn_frame_def)
qed

lemma in_turn_quiet: "ow.keeps m \<Longrightarrow> tn.keeps m"
  by (rule keeps_mono [OF ow.state_preorder_axioms tn.state_preorder_axioms])
    (auto simp: only_world_def in_turn_def turn_frame_def)

named_theorems turning \<open>computations within a turn\<close>

lemma in_turn_append [turning]: "tn.keeps (append_message m)"
  unfolding append_message_def
  by (rule tn.keeps_updM) (simp add: in_turn_def turn_frame_def)

lemma in_turn_record [turning]: "tn.keeps (record_context c)"
  unfolding record_context_def
  by (rule tn.keeps_updM) (simp add: in_turn_def turn_frame_def)

lemma in_turn_answer [turning]: "tn.keeps (append_tool_result_message rt call r d capped admit)"
  unfolding append_tool_result_message_def by (intro tn.keeps_rules turning in_turn_quiet quiet)

lemma in_turn_skipped [turning]: "tn.keeps (answer_skipped_tool_calls rt calls)"
proof (induction calls)
  case (Cons c cs)
  show ?case unfolding answer_skipped_tool_calls.simps by (intro tn.keeps_rules turning Cons)
qed (simp add: tn.keeps_returnM)

lemma in_turn_denial [turning]: "tn.keeps (apply_tool_denial rt call d)"
  unfolding apply_tool_denial_def by (intro tn.keeps_rules turning in_turn_quiet quiet)

lemma in_turn_enforce [turning]: "tn.keeps (enforce_tool_settings rt call internal)"
  unfolding enforce_tool_settings_def by (intro tn.keeps_rules turning in_turn_quiet quiet)

lemma keeps_processed:
  "(\<And>r. tn.keeps (f r)) \<Longrightarrow> (\<And>c r. tn.keeps (g c r)) \<Longrightarrow> tn.keeps (case p of Ended r \<Rightarrow> f r | Ran c r \<Rightarrow> g c r)"
  by (cases p) auto

lemma in_turn_admit [turning]: "tn.keeps (admit_call rt inp call internal)"
  unfolding admit_call_def run_call_def answer_call_def settle_call_def by (intro tn.keeps_rules turning in_turn_quiet quiet)

lemma in_turn_process [turning]: "tn.keeps (process_tool_call rt inp call)"
  unfolding process_tool_call_def by (intro tn.keeps_rules turning in_turn_quiet quiet)

lemma in_turn_judge [turning]: "tn.keeps (judge_contracts rt out)"
proof -
  have rej: "tn.keeps (updM (\<lambda>s. s\<lparr>lp_rejections := lp_rejections s + 1\<rparr>))"
    by (rule tn.keeps_updM) (simp add: in_turn_def turn_frame_def)
  then show ?thesis unfolding judge_contracts_def by (intro rej tn.keeps_rules in_turn_quiet quiet)
qed

lemma in_turn_refuse_draft [turning]: "tn.keeps (refuse_draft rt inp draft reason)"
  unfolding refuse_draft_def by (intro tn.keeps_rules turning in_turn_quiet quiet)

lemma in_turn_accept [turning]: "tn.keeps (accept_plain rt inp m draft)"
  unfolding accept_plain_def by (intro tn.keeps_rules turning in_turn_quiet quiet)

lemma keeps_verdict:
  "tn.keeps a \<Longrightarrow> (\<And>x y. tn.keeps (f x y)) \<Longrightarrow> tn.keeps b \<Longrightarrow>
   tn.keeps (case v of Met \<Rightarrow> a | Unmet x y \<Rightarrow> f x y | Exhausted \<Rightarrow> b)"
  by (cases v) auto

lemma keeps_review:
  "tn.keeps a \<Longrightarrow> (\<And>x. tn.keeps (f x)) \<Longrightarrow> (\<And>x. tn.keeps (g x)) \<Longrightarrow>
   tn.keeps (case v of Accept \<Rightarrow> a | ContinueWith x \<Rightarrow> f x | Stop x \<Rightarrow> g x)"
  by (cases v) auto

lemma in_turn_finish_plain [turning]: "tn.keeps (finish_plain rt inp r)"
  unfolding finish_plain_def by (intro tn.keeps_rules keeps_verdict keeps_review turning in_turn_quiet quiet)

lemma in_turn_refuse_call [turning]: "tn.keeps (refuse_call rt call a skipped)"
  unfolding refuse_call_def by (intro tn.keeps_rules turning)

lemma in_turn_finish_by_call [turning]: "tn.keeps (finish_by_call rt inp m call r skipped)"
  unfolding finish_by_call_def by (intro tn.keeps_rules keeps_verdict keeps_review turning in_turn_quiet quiet)

lemma in_turn_calls [turning]: "tn.keeps (run_tool_calls rt inp m calls)"
proof (induction calls)
  case (Cons c cs)
  show ?case unfolding run_tool_calls.simps by (intro tn.keeps_rules keeps_processed turning Cons)
qed (simp add: tn.keeps_returnM)

lemma in_turn_adopt [turning]: "tn.keeps (adopt_agent_catalog rt)"
proof -
  have cat: "tn.keeps (updM (\<lambda>s. s\<lparr>lp_catalog_seen := c, lp_tools := tools, lp_tool_schemas := f s\<rparr>))" for c tools f
    by (rule tn.keeps_updM) (simp add: in_turn_def turn_frame_def)
  then show ?thesis unfolding adopt_agent_catalog_def by (intro cat tn.keeps_rules in_turn_quiet quiet)
qed

lemma keeps_turn_end:
  "(\<And>r. tn.keeps (f r)) \<Longrightarrow> (\<And>r x. tn.keeps (g r x)) \<Longrightarrow> tn.keeps a \<Longrightarrow> tn.keeps b \<Longrightarrow>
   tn.keeps (case e of Returns r None \<Rightarrow> f r | Returns r (Some x) \<Rightarrow> g r x | Refused \<Rightarrow> a | Processed \<Rightarrow> b)"
  by (auto split: turn_end.split option.split)

lemma in_turn_tool_turn [turning]: "tn.keeps (tool_turn rt inp r calls)"
  unfolding tool_turn_def echo_calls_def leave_turn_def close_turn_def by (intro tn.keeps_rules keeps_turn_end turning in_turn_quiet quiet)

lemma in_turn_react [turning]: "tn.keeps (react rt inp r)"
  unfolding react_def by (intro tn.keeps_rules turning in_turn_quiet quiet)

end
