(* ===== verification/AG_Passes.thy ===== *)
theory AG_Passes
  imports AG_Frames
begin

text \<open>
  Rules for whole runs.  A pass of the loop advances the run by one response or by one model of the
  fallback chain, so the loop returns; and a predicate that the few state changes of a pass keep
  holds in every state the loop reaches.
\<close>

subsection \<open>Calling the model\<close>

text \<open>What the call of the model and the accounting of its response change.\<close>

definition aside :: "'w LoopState \<Rightarrow> 'w LoopState" where
  "aside s = s\<lparr>lp_pipe := undefined, lp_tokens_used := None, lp_compaction_count := 0, lp_model_call_count := 0,
     lp_model_response := None, lp_last_output := [], lp_outputs := []\<rparr>"

definition accounting :: "'w LoopState \<Rightarrow> 'w LoopState \<Rightarrow> bool" where
  "accounting s t \<longleftrightarrow> aside t = aside s"

interpretation ac: state_preorder "accounting :: 'w LoopState \<Rightarrow> 'w LoopState \<Rightarrow> bool"
  unfolding accounting_def by (rule state_preorder_field)

named_theorems accounted \<open>computations that only account\<close>

lemma accounting_quiet: "ow.keeps m \<Longrightarrow> ac.keeps m"
  by (rule keeps_mono [OF ow.state_preorder_axioms ac.state_preorder_axioms])
    (auto simp: only_world_def accounting_def aside_def)

lemma accounting_inner [accounted]: "ac.keeps (inner_context_window_hook rt)"
proof -
  have upd: "ac.keeps (updM (\<lambda>s. s\<lparr>lp_tokens_used := f (lp_tokens_used s)\<rparr>))" for f
    by (rule ac.keeps_updM) (simp add: accounting_def aside_def)
  show ?thesis unfolding inner_context_window_hook_def by (intro upd ac.keeps_rules accounting_quiet quiet)
qed

lemma accounting_error:
  assumes "ac.keeps again"
  shows "ac.keeps (after_model_error rt inp e again)"
  unfolding after_model_error_def by (intro assms ac.keeps_rules accounting_quiet quiet)

lemma accounting_invoke [accounted]: "ac.keeps (invoke_with_middleware n rt inp call_options)"
proof (induction n)
  case (Suc n)
  have upd: "ac.keeps (updM (\<lambda>s. s\<lparr>lp_compaction_count := lp_compaction_count s + k,
      lp_model_call_count := lp_model_call_count s + 1\<rparr>))" for k
    by (rule ac.keeps_updM) (simp add: accounting_def aside_def)
  show ?case unfolding invoke_with_middleware.simps
    by (intro upd ac.keeps_rules accounting_error Suc accounting_quiet quiet)
qed (simp add: ac.keeps_throwM)

lemma accounting_fields:
  assumes "accounting s t"
  shows "lp_iteration_count t = lp_iteration_count s" "lp_fallback_index t = lp_fallback_index s"
    "lp_fallback_attempts t = lp_fallback_attempts s" "lp_messages t = lp_messages s" "lp_provider t = lp_provider s"
    "lp_contexts t = lp_contexts s" "lp_tools t = lp_tools s" "lp_handle t = lp_handle s"
    "lp_rejections t = lp_rejections s" "lp_fallback_errors t = lp_fallback_errors s"
  using assms by (cases s, cases t, simp add: accounting_def aside_def)+

text \<open>An answer comes from the model in use.\<close>

definition from_model :: "RunInput \<Rightarrow> 'w LoopState \<Rightarrow> Response \<Rightarrow> bool" where
  "from_model inp s r \<longleftrightarrow>
     (\<exists>call_options w u. rh_invoke (lp_handle s) (ri_message inp) call_options w = (Inr (Answered r), u))"

lemma from_model_accounting: "accounting s t \<Longrightarrow> from_model inp t r = from_model inp s r"
  by (simp add: from_model_def accounting_fields)

lemma aborted_finished: "bindM (aborted rt d) (\<lambda>r. returnM (Finished r)) s \<noteq> (Inr (Answered r), t)"
  by (auto simp: returnM_app elim!: bindM_InrE)

lemma again_from_error:
  assumes "after_model_error rt inp e again s = (Inr (Answered r), t)"
  obtains u where "again u = (Inr (Answered r), t)" "only_world s u"
proof -
  from assms obtain s1 s2 d s3 where
    1: "inWorld (\<lambda>w. ((), ag_record_failed_call rt (lp_provider s) e w)) s = (Inr (), s1)"
    and 2: "model_call_hook rt inp ON_MODEL_ERROR (\<lambda>c. c\<lparr>cx_error := Some e\<rparr>) s1 = (Inr d, s2)"
    and 3: "spend_cap_stop rt s2 = (Inr None, s3)"
    and 4: "bindM (sleep_for rt (md_sleep_seconds d)) (\<lambda>_. again) s3 = (Inr (Answered r), t)"
    unfolding after_model_error_def
    by (auto simp: bindM_getM throwM_app returnM_app aborted_finished elim!: bindM_InrE [of "inWorld _"] bindM_InrE [of "model_call_hook _ _ _ _"]
        bindM_InrE [of "spend_cap_stop _"] split: if_splits option.splits)
  from 4 obtain s4 where 5: "sleep_for rt (md_sleep_seconds d) s3 = (Inr (), s4)" "again s4 = (Inr (Answered r), t)"
    by (rule bindM_InrE) simp
  have "only_world s s4"
    using ow.keepsD [OF only_world_inWorld 1] ow.keepsD [OF only_world_model_hook 2] ow.keepsD [OF only_world_spend 3]
      ow.keepsD [OF only_world_sleep 5(1)] ow.R_trans by blast
  then show ?thesis using that 5(2) by blast
qed

lemma answer_from_model:
  "invoke_with_middleware n rt inp call_options s = (Inr (Answered r), t) \<Longrightarrow> from_model inp s r"
proof (induction n arbitrary: s)
  case (Suc n)
  obtain d s1 where 1: "model_call_hook rt inp BEFORE_MODEL_CALL
      (\<lambda>c. c\<lparr>cx_messages := the_messages call_options, cx_system := co_system call_options\<rparr>) s = (Inr d, s1)"
    and cont: "md_action d = CONTINUE"
    and rest: "bindM (inWorld (rh_invoke (lp_handle s1) (ri_message inp) (apply_before_model_call_transform call_options d)))
       (\<lambda>answer. case answer of Inr raw \<Rightarrow> returnM raw
         | Inl e \<Rightarrow> after_model_error rt inp e (invoke_with_middleware n rt inp call_options))
       (s1\<lparr>lp_compaction_count := lp_compaction_count s1 + compaction_event_delta d (the_messages call_options),
         lp_model_call_count := lp_model_call_count s1 + 1\<rparr>) = (Inr (Answered r), t)"
    using Suc.prems unfolding invoke_with_middleware.simps
    by (auto simp: bindM_updM bindM_getM returnM_app elim!: bindM_InrE [of "model_call_hook _ _ _ _"] bindM_InrE [of "aborted _ _"]
        split: if_splits)
  have h1: "lp_handle s1 = lp_handle s"
    using ow.keepsD [OF only_world_model_hook 1] by (auto simp: only_world_def)
  from rest obtain a s2 where 2: "inWorld (rh_invoke (lp_handle s1) (ri_message inp) (apply_before_model_call_transform call_options d))
      (s1\<lparr>lp_compaction_count := lp_compaction_count s1 + compaction_event_delta d (the_messages call_options),
         lp_model_call_count := lp_model_call_count s1 + 1\<rparr>) = (Inr a, s2)"
    and rest2: "(case a of Inr raw \<Rightarrow> returnM raw
         | Inl e \<Rightarrow> after_model_error rt inp e (invoke_with_middleware n rt inp call_options)) s2 = (Inr (Answered r), t)"
    by (rule bindM_InrE)
  have h2: "lp_handle s2 = lp_handle s" using ow.keepsD [OF only_world_inWorld 2] h1 by (auto simp: only_world_def)
  show ?case
  proof (cases a)
    case (Inr raw)
    then have "raw = Answered r" using rest2 by (simp add: returnM_app)
    then have "rh_invoke (lp_handle s) (ri_message inp) (apply_before_model_call_transform call_options d)
        (pl_world (lp_pipe s1)) = (Inr (Answered r), pl_world (lp_pipe s2))"
      using 2 Inr h1 by (auto simp: inWorld_def pipeM_def worldM_def split: prod.splits)
    then show ?thesis unfolding from_model_def by blast
  next
    case (Inl e)
    then have err: "after_model_error rt inp e (invoke_with_middleware n rt inp call_options) s2 = (Inr (Answered r), t)"
      using rest2 by simp
    then obtain s3 where s3: "invoke_with_middleware n rt inp call_options s3 = (Inr (Answered r), t)" "only_world s2 s3"
      by (rule again_from_error)
    then have "lp_handle s3 = lp_handle s" using h2 by (auto simp: only_world_def)
    then show ?thesis using Suc.IH [OF s3(1)] by (simp add: from_model_def)
  qed
qed (simp add: throwM_app)

subsection \<open>Switching\<close>

text \<open>How a switch leaves the state: the next model of the chain, or the state as it was when it failed.\<close>

definition switches :: "'w Runtime \<Rightarrow> RunInput \<Rightarrow> exn \<Rightarrow> 'w LoopState \<Rightarrow> 'w LoopState \<Rightarrow> bool" where
  "switches rt inp e s t \<longleftrightarrow> (\<exists>f nxt target invoke attempt. \<not> ri_pin_model inp \<and> ag_fallback rt = Some f \<and>
     fb_build_runner f nxt = Inr invoke \<and>
     advance f e (lp_fallback_index s) = Some nxt \<and> model_at f nxt = Inr target \<and>
     attempt_record f (lp_fallback_index s) nxt e = Inr attempt \<and> t = switched rt nxt target invoke attempt e s)"

lemma raiseE_eq: "raiseE r s = (case r of Inl e \<Rightarrow> (Inl (Raised e), s) | Inr x \<Rightarrow> (Inr x, s))"
  by (simp add: raiseE_def throwM_app returnM_app split: sum.split)

lemma fallback_transition_cases:
  assumes "fallback_transition rt inp e s = (x, t)"
  shows "(\<exists>u. switches rt inp e s u \<and> accounting u t) \<or> (x \<noteq> Inr () \<and> t = s)"
proof (cases "ri_pin_model inp")
  case True
  then show ?thesis using assms by (auto simp: fallback_transition_def throwM_app)
next
  case False
  show ?thesis
  proof (cases "ag_fallback rt")
    case None
    then show ?thesis using assms False by (auto simp: fallback_transition_def throwM_app)
  next
    case (Some f)
    show ?thesis
    proof (cases "is_model_error f e")
      case False
      then show ?thesis using assms Some \<open>\<not> ri_pin_model inp\<close> by (auto simp: fallback_transition_def throwM_app)
    next
      case True
      show ?thesis
      proof (cases "advance f e (lp_fallback_index s)")
        case None
        then show ?thesis using assms Some True \<open>\<not> ri_pin_model inp\<close>
          by (auto simp: fallback_transition_def throwM_app bindM_getM split: if_splits)
      next
        case adv: (Some nxt)
        have run: "switch_model rt f e nxt s = (x, t)"
          using assms Some True adv \<open>\<not> ri_pin_model inp\<close> by (simp add: fallback_transition_def bindM_getM)
        show ?thesis
        proof (cases "\<exists>attempt target invoke. attempt_record f (lp_fallback_index s) nxt e = Inr attempt \<and>
            model_at f nxt = Inr target \<and> fb_build_runner f nxt = Inr invoke")
          case True
          then obtain attempt target invoke where ok: "attempt_record f (lp_fallback_index s) nxt e = Inr attempt"
              "model_at f nxt = Inr target" "fb_build_runner f nxt = Inr invoke" by blast
          let ?u = "switched rt nxt target invoke attempt e s"
          have "publish_fallback_metadata rt (fallback_metadata (lp_fallback_attempts ?u) (lp_fallback_context_reset ?u)) ?u = (x, t)"
            using run ok by (simp add: switch_model_def bindM_getM bindM_updM bindM_def [of "raiseE _"] raiseE_eq)
          then have "accounting ?u t"
            using ac.keepsD [OF accounting_quiet [OF only_world_publish]] by blast
          moreover have "switches rt inp e s ?u" unfolding switches_def using Some adv ok \<open>\<not> ri_pin_model inp\<close> by blast
          ultimately show ?thesis by blast
        next
          case False
          then show ?thesis using run
            by (auto simp: switch_model_def bindM_getM bindM_def [of "raiseE _"] raiseE_eq split: sum.splits)
        qed
      qed
    qed
  qed
qed

text \<open>One call of the model: an answer, the next model, or an exception.\<close>

lemma call_model_cases:
  assumes "call_model rt inp s = (x, t)"
  obtains (answered) raw where "x = Inr (Some raw)" "accounting s t" "\<And>r. raw = Answered r \<Longrightarrow> from_model inp s r"
  | (switched) e u v where "x = Inr None" "accounting s u" "switches rt inp e u v" "accounting v t"
  | (failed) h e u v where "x = Inl h" "accounting s u" "u = t \<or> (switches rt inp e u v \<and> accounting v t)"
proof -
  let ?m = "invoke_with_middleware (ri_retry_fuel inp) rt inp (build_iteration_call_options rt inp (pl_world (lp_pipe s)) s)"
  obtain y u where y: "?m s = (y, u)" by fastforce
  have su: "accounting s u" using ac.keepsD [OF accounting_invoke y] .
  have x: "catchM (bindM ?m (\<lambda>raw. returnM (Some raw))) (\<lambda>e. bindM (fallback_transition rt inp e) (\<lambda>_. returnM None)) s = (x, t)"
    using assms by (simp add: call_model_def world_def bindM_getM)
  show ?thesis
  proof (cases y)
    case (Inr raw)
    then have "x = Inr (Some raw)" "t = u" using x y by (simp_all add: catchM_def bindM_Inr returnM_app)
    then show ?thesis using answered su y Inr answer_from_model by blast
  next
    case (Inl h)
    then have bind: "bindM ?m (\<lambda>raw. returnM (Some raw)) s = (Inl h, u)" using y by (simp add: bindM_Inl)
    show ?thesis
    proof (cases h)
      case (Raised e)
      obtain z v where z: "fallback_transition rt inp e u = (z, v)" by fastforce
      have xt: "x = (case z of Inl h \<Rightarrow> Inl h | Inr _ \<Rightarrow> Inr None)" "t = v"
        using x bind Raised z by (auto simp: catchM_def bindM_def returnM_app split: sum.splits)
      from fallback_transition_cases [OF z] consider
          (sw) v' where "switches rt inp e u v'" "accounting v' v" | (no) "z \<noteq> Inr ()" "v = u" by blast
      then show ?thesis
      proof cases
        case sw
        show ?thesis
        proof (cases z)
          case (Inl h')
          then show ?thesis using failed [of h' u e v'] xt su sw by simp
        next
          case (Inr r)
          then show ?thesis using switched [of u e v'] xt su sw by simp
        qed
      next
        case no
        then obtain h' where "z = Inl h'" by (cases z) auto
        then show ?thesis using failed [of h' u e undefined] xt su no by simp
      qed
    qed (use x bind su failed [of h u undefined undefined] in \<open>simp_all add: catchM_def\<close>)
  qed
qed

subsection \<open>A pass\<close>

lemma loop_budget_None:
  assumes "loop_budget_stop rt s = (Inr None, t)"
  shows "\<not> reached (ac_max_iterations (ag_config rt)) (lp_iteration_count s)"
proof -
  obtain r u where spend: "spend_cap_stop rt s = (Inr r, u)" and
      rest: "(if r \<noteq> None then returnM r else bindM (getM id) (\<lambda>s.
        if reached (ac_max_iterations (ag_config rt)) (lp_iteration_count s)
        then stopped rt ''Agent runtime stopped after reaching max_iterations.'' MAX_ITERATIONS
        else if tokens_reached (ag_config rt) (lp_tokens_used s)
        then stopped rt ''Agent runtime stopped after reaching max_tokens.'' MAX_TOKENS
        else if reached (ac_max_tool_calls (ag_config rt))
               (int (length (non_internal_tool_contexts (lp_tools s) (lp_contexts s))))
        then stopped rt ''Agent runtime stopped after reaching max_tool_calls.'' MAX_TOOL_CALLS
        else case ac_timeout_seconds (ag_config rt) of
            None \<Rightarrow> returnM None
          | Some limit \<Rightarrow>
              bindM (inWorld (pc_clock (ag_pipeline rt))) (\<lambda>now.
              if limit \<le> now - lp_started_at s
              then stopped rt ''Agent runtime stopped after reaching timeout_seconds.'' TIMEOUT
              else returnM None))) u = (Inr None, t)"
    using assms unfolding loop_budget_stop_def by (rule bindM_InrE)
  have "lp_iteration_count u = lp_iteration_count s"
    using ow.keepsD [OF only_world_spend spend] by (auto simp: only_world_def)
  moreover have "\<not> reached (ac_max_iterations (ag_config rt)) (lp_iteration_count u)"
    using rest by (auto simp: bindM_getM returnM_app stopped_def elim!: bindM_InrE split: if_splits)
  ultimately show ?thesis by simp
qed

lemma return_result_Some: "return_result rt inp r s \<noteq> (Inr None, t)" "return_shown rt inp shown r s \<noteq> (Inr None, t)"
  by (auto simp: return_result_def return_shown_def returnM_app elim!: bindM_InrE)

lemma record_response_iteration:
  assumes "record_response rt r s = (x, t)"
  shows "lp_iteration_count t = lp_iteration_count s + 1" "lp_fallback_index t = lp_fallback_index s"
proof -
  have "only_world (s\<lparr>lp_model_response := Some (rs_view r), lp_iteration_count := lp_iteration_count s + 1,
       lp_last_output := rs_text r, lp_outputs := lp_outputs s @ [rs_text r],
       lp_tokens_used := add_token_usage (lp_tokens_used s)
         (token_usage_from_response (rs_usage r) (rs_raw r) (rs_metadata r))\<rparr>) t"
    using assms ow.keepsD [OF only_world_inWorld] by (auto simp: record_response_def bindM_updM bindM_getM)
  then show "lp_iteration_count t = lp_iteration_count s + 1" "lp_fallback_index t = lp_fallback_index s"
    by (auto simp: only_world_def)
qed

text \<open>Handling a response takes one iteration and no place in the chain.\<close>

lemma answer_turn_iteration:
  assumes "answer_turn rt inp r s = (Inr y, t)"
  shows "lp_iteration_count t = lp_iteration_count s + 1 \<and> lp_fallback_index t = lp_fallback_index s"
proof -
  obtain u where u: "record_response rt r s = (Inr (), u)" and rest: "react rt inp r u = (Inr y, t)"
    using assms unfolding answer_turn_def by (rule bindM_InrE) simp
  have "in_turn u t" by (rule tn.keepsD [OF in_turn_react rest])
  then show ?thesis using record_response_iteration [OF u] by (simp add: in_turn_fields)
qed

lemma switches_fields:
  assumes "switches rt inp e s t"
  shows "lp_iteration_count t = lp_iteration_count s" "lp_fallback_index t = lp_fallback_index s + 1"
    "\<exists>f. ag_fallback rt = Some f \<and> lp_fallback_index s + 1 < length (fb_models f)"
  using assms by (auto simp: switches_def switched_def advance_def Let_def split: if_splits)

lemma one_pass_goes_on:
  assumes "one_pass rt inp s = (Inr None, t)"
  shows "\<not> reached (ac_max_iterations (ag_config rt)) (lp_iteration_count s)"
    and "(lp_iteration_count t = lp_iteration_count s + 1 \<and> lp_fallback_index t = lp_fallback_index s) \<or>
      (lp_iteration_count t = lp_iteration_count s \<and> lp_fallback_index t = lp_fallback_index s + 1 \<and>
       (\<exists>f. ag_fallback rt = Some f \<and> lp_fallback_index s + 1 < length (fb_models f)))"
proof -
  have inner: "ac.keeps (if 0 < lp_iteration_count s then inner_context_window_hook rt else returnM ())"
    by (intro ac.keeps_rules accounted)
  obtain y s1 where 1: "(if 0 < lp_iteration_count s then inner_context_window_hook rt else returnM ()) s = (Inr y, s1)"
    and rest1: "bindM (loop_budget_stop rt) (\<lambda>stop. case stop of Some r \<Rightarrow> return_result rt inp r
      | None \<Rightarrow> begin_iteration rt inp) s1 = (Inr None, t)"
    using assms unfolding one_pass_def bindM_getM by (rule bindM_InrE)
  from rest1 obtain stop s2 where bs: "loop_budget_stop rt s1 = (Inr stop, s2)" and
    bs_rest: "(case stop of Some r \<Rightarrow> return_result rt inp r | None \<Rightarrow> begin_iteration rt inp) s2 = (Inr None, t)"
    by (rule bindM_InrE)
  have 2: "loop_budget_stop rt s1 = (Inr None, s2)" and rest2: "begin_iteration rt inp s2 = (Inr None, t)"
    using bs bs_rest by (cases stop; simp add: return_result_Some)+
  from rest2 obtain d s3 where 3: "hook rt inp BEFORE_ITERATION id s2 = (Inr d, s3)" and
    rest3': "(if md_action d \<noteq> CONTINUE then bindM (aborted rt d) (return_result rt inp)
      else bindM (call_model rt inp) (take_answer rt inp)) s3 = (Inr None, t)"
    unfolding begin_iteration_def by (rule bindM_InrE)
  have rest3: "bindM (call_model rt inp) (take_answer rt inp) s3 = (Inr None, t)"
    using rest3' by (cases "md_action d = CONTINUE") (auto simp: return_result_Some elim: bindM_InrE)
  have acc: "accounting s s3"
    using ac.keepsD [OF inner 1] ac.keepsD [OF accounting_quiet [OF only_world_budget] 2]
      ac.keepsD [OF accounting_quiet [OF only_world_hook] 3] ac.R_trans by blast
  have s1: "lp_iteration_count s1 = lp_iteration_count s" using accounting_fields [OF ac.keepsD [OF inner 1]] by simp
  show "\<not> reached (ac_max_iterations (ag_config rt)) (lp_iteration_count s)"
    using loop_budget_None [OF 2] s1 by simp
  from rest3 obtain answer s4 where 4: "call_model rt inp s3 = (Inr answer, s4)" and
    rest4: "take_answer rt inp answer s4 = (Inr None, t)" by (rule bindM_InrE)
  note f3 = accounting_fields [OF acc]
  from 4 show "(lp_iteration_count t = lp_iteration_count s + 1 \<and> lp_fallback_index t = lp_fallback_index s) \<or>
      (lp_iteration_count t = lp_iteration_count s \<and> lp_fallback_index t = lp_fallback_index s + 1 \<and>
       (\<exists>f. ag_fallback rt = Some f \<and> lp_fallback_index s + 1 < length (fb_models f)))"
  proof (cases rule: call_model_cases)
    case (answered raw)
    then obtain r where "raw = Answered r" and r: "answer_turn rt inp r s4 = (Inr None, t)"
      using rest4 by (cases raw) (auto simp: take_answer_def return_result_Some)
    then show ?thesis using answer_turn_iteration [OF r] accounting_fields(1,2) [OF answered(2)] f3(1,2) by simp
  next
    case (switched e u v)
    then have "t = s4" using rest4 by (simp add: take_answer_def returnM_app)
    then show ?thesis using switches_fields [OF switched(3)] accounting_fields(1,2) [OF switched(2)]
        accounting_fields(1,2) [OF switched(4)] f3(1,2) by simp
  next
    case failed
    then show ?thesis by simp
  qed
qed

text \<open>The states in which the passes of a run begin.\<close>

inductive passes :: "'w Runtime \<Rightarrow> RunInput \<Rightarrow> 'w LoopState \<Rightarrow> 'w LoopState \<Rightarrow> bool" for rt inp where
  here: "passes rt inp s s"
| onward: "passes rt inp s t \<Longrightarrow> one_pass rt inp t = (Inr None, u) \<Longrightarrow> passes rt inp s u"

subsection \<open>The loop returns\<close>

definition chain_length :: "'w Runtime \<Rightarrow> nat" where
  "chain_length rt = (case ag_fallback rt of None \<Rightarrow> 1 | Some f \<Rightarrow> length (fb_models f))"

text \<open>The passes that are left: iterations, and models after the one in use.\<close>

definition passes_left :: "int \<Rightarrow> 'w Runtime \<Rightarrow> 'w LoopState \<Rightarrow> nat" where
  "passes_left limit rt s = nat (limit - lp_iteration_count s) + (chain_length rt - 1 - lp_fallback_index s)"

lemma one_pass_measure:
  assumes "one_pass rt inp s = (Inr None, t)" and "ac_max_iterations (ag_config rt) = Some limit"
  shows "passes_left limit rt t < passes_left limit rt s"
proof -
  have "lp_iteration_count s < limit" using one_pass_goes_on(1) [OF assms(1)] assms(2) by (simp add: reached_def)
  then show ?thesis using one_pass_goes_on(2) [OF assms(1)]
    by (auto simp: passes_left_def chain_length_def)
qed

lemma agent_loop_returns:
  assumes "ac_max_iterations (ag_config rt) = Some limit"
  shows "passes_left limit rt s < n \<Longrightarrow> agent_loop n rt inp s = (Inr r, t) \<Longrightarrow> r \<noteq> None"
proof (induction n arbitrary: s)
  case (Suc n)
  from Suc.prems(2) obtain y u where y: "one_pass rt inp s = (Inr y, u)"
    and rest: "(case y of Some x \<Rightarrow> returnM (Some x) | None \<Rightarrow> agent_loop n rt inp) u = (Inr r, t)"
    unfolding agent_loop.simps by (rule bindM_InrE)
  show ?case
  proof (cases y)
    case None
    then have "passes_left limit rt u < n" using one_pass_measure [OF _ assms] y Suc.prems(1) by fastforce
    then show ?thesis using Suc.IH rest None by simp
  qed (use rest in \<open>auto simp: returnM_app\<close>)
qed simp

subsection \<open>Rules for whole runs\<close>

lemma arun_once_start:
  assumes "arun_once n rt inp handle tools catalog resumed p = (x, t)"
  obtains q started where "run_once n rt inp (resumed \<noteq> None) (initial_state rt inp q started handle tools catalog
      (case resumed of Some progress \<Rightarrow> progress | None \<Rightarrow> (0, [], [], False))) = (x, t)"
  using assms by (auto simp: arun_once_def split: prod.splits)

text \<open>The hooks before the first pass only account.\<close>

lemma loop_of_run:
  assumes "run_once n rt inp resumed s = (Inr None, t)"
  shows "\<exists>u. agent_loop n rt inp u = (Inr None, t) \<and> accounting s u"
proof -
  obtain s1 where 1: "inner_context_window_hook rt s = (Inr (), s1)"
    and rest: "bindM (if resumed \<and> ag_fallback rt \<noteq> None
            then publish_fallback_metadata rt (fallback_metadata (lp_fallback_attempts s1) (lp_fallback_context_reset s1))
            else returnM ()) (\<lambda>_.
     bindM (hook rt inp BEFORE_RUN id) (\<lambda>d.
     if md_action d \<noteq> CONTINUE then bindM (aborted rt d) (return_result rt inp)
     else agent_loop n rt inp)) s1 = (Inr None, t)"
    using assms unfolding run_once_def by (rule bindM_InrE) (simp add: bindM_getM id_def)
  obtain s2 where 2: "(if resumed \<and> ag_fallback rt \<noteq> None
            then publish_fallback_metadata rt (fallback_metadata (lp_fallback_attempts s1) (lp_fallback_context_reset s1))
            else returnM ()) s1 = (Inr (), s2)"
    and rest2: "bindM (hook rt inp BEFORE_RUN id) (\<lambda>d.
     if md_action d \<noteq> CONTINUE then bindM (aborted rt d) (return_result rt inp)
     else agent_loop n rt inp) s2 = (Inr None, t)"
    using rest by (rule bindM_InrE) simp
  obtain d s3 where 3: "hook rt inp BEFORE_RUN id s2 = (Inr d, s3)" and 4: "agent_loop n rt inp s3 = (Inr None, t)"
    using rest2 by (rule bindM_InrE) (auto simp: bindM_Inr_iff return_result_Some split: if_splits)
  have "accounting s1 s2" using 2
    by (auto simp: returnM_app ac.R_refl dest: ac.keepsD [OF accounting_quiet [OF only_world_publish]] split: if_splits)
  then have "accounting s s3"
    using ac.keepsD [OF accounting_inner 1] ac.keepsD [OF accounting_quiet [OF only_world_hook] 3]
      ac.R_trans by blast
  then show ?thesis using 4 by blast
qed

text \<open>
  \<open>P\<close> holds whenever a pass begins, \<open>Q\<close> of the state in which the run ends, by a result or by an
  exception.  What a pass does to the conversation and the records is left to \<open>plain\<close> and \<open>tools\<close>.
\<close>

locale pass_rule =
  fixes rt :: "'w Runtime" and inp :: RunInput
    and P :: "'w LoopState \<Rightarrow> bool" and Q :: "'w LoopState \<Rightarrow> bool"
  assumes weaken: "P s \<Longrightarrow> Q s"
    and aside: "accounting s t \<Longrightarrow> P s \<Longrightarrow> P t"
    and counted: "P s \<Longrightarrow> P (s\<lparr>lp_iteration_count := lp_iteration_count s + 1\<rparr>)"
    and switch: "switches rt inp e s t \<Longrightarrow> P s \<Longrightarrow> P t"
    and plain: "finish_plain rt inp r s = (x, t) \<Longrightarrow> P s \<Longrightarrow> if x = Inr None then P t else Q t"
    and tools: "tool_turn rt inp r calls s = (x, t) \<Longrightarrow> P s \<Longrightarrow> from_model inp s r \<Longrightarrow> calls \<noteq> [] \<Longrightarrow>
      parse_tool_calls (ag_show rt) (ag_loads rt) (rs_raw r) (lp_provider s) = Inr calls \<Longrightarrow>
      if x = Inr None then P t else Q t"
begin

text \<open>\<open>ends_at s m\<close>: the pass \<open>m\<close> begun in \<open>s\<close> goes on in \<open>P\<close> or ends in \<open>Q\<close>.\<close>

definition ends_at :: "'w LoopState \<Rightarrow> ('w, AgentResult option) run \<Rightarrow> bool" where
  "ends_at s m \<longleftrightarrow> (\<forall>x t. m s = (x, t) \<longrightarrow> (if x = Inr None then P t else Q t))"

lemma ends_atD: "ends_at s m \<Longrightarrow> m s = (x, t) \<Longrightarrow> if x = Inr None then P t else Q t"
  by (simp add: ends_at_def)

lemma ends_accounting: "P s \<Longrightarrow> ac.keeps m \<Longrightarrow> ends_at s m"
  unfolding ends_at_def by (metis ac.keepsD aside weaken)

lemma ends_quiet: "P s \<Longrightarrow> ow.keeps m \<Longrightarrow> ends_at s m"
  by (rule ends_accounting [OF _ accounting_quiet])

lemma ends_bind:
  assumes "\<And>x t. m s = (x, t) \<Longrightarrow> P t" and "\<And>y t. m s = (Inr y, t) \<Longrightarrow> P t \<Longrightarrow> ends_at t (f y)"
  shows "ends_at s (bindM m f)"
  unfolding ends_at_def
proof (intro allI impI)
  fix x t assume run: "bindM m f s = (x, t)"
  obtain y u where y: "m s = (y, u)" by fastforce
  then have "P u" using assms(1) by blast
  show "if x = Inr None then P t else Q t"
  proof (cases y)
    case (Inl e)
    then show ?thesis using run y \<open>P u\<close> weaken by (simp add: bindM_Inl)
  next
    case (Inr z)
    then have "f z u = (x, t)" using run y by (simp add: bindM_Inr)
    then show ?thesis using ends_atD [OF assms(2)] \<open>P u\<close> y Inr by blast
  qed
qed

lemma ends_after:
  assumes "P s" "ac.keeps m" "\<And>y t. m s = (Inr y, t) \<Longrightarrow> P t \<Longrightarrow> accounting s t \<Longrightarrow> ends_at t (f y)"
  shows "ends_at s (bindM m f)"
  by (rule ends_bind) (use assms ac.keepsD aside in blast)+

lemma ends_hook:
  "P s \<Longrightarrow> (\<And>y t. P t \<Longrightarrow> accounting s t \<Longrightarrow> ends_at t (f y)) \<Longrightarrow> ends_at s (bindM (hook rt inp h g) f)"
  by (rule ends_after [OF _ accounting_quiet]) (auto intro: quiet)

lemma ends_if: "(b \<Longrightarrow> ends_at s m) \<Longrightarrow> (\<not> b \<Longrightarrow> ends_at s n) \<Longrightarrow> ends_at s (if b then m else n)"
  by simp

lemma ends_getM: "ends_at s (f (g s)) \<Longrightarrow> ends_at s (bindM (getM g) f)"
  by (simp add: ends_at_def bindM_getM)

lemma ends_returned: "P s \<Longrightarrow> ends_at s (bindM (aborted rt d) (return_result rt inp))"
    "P s \<Longrightarrow> ends_at s (return_result rt inp r')"
  by (erule ends_quiet, intro ow.keeps_bindM quiet)+

lemma ends_react:
  assumes "P s" "from_model inp s r" shows "ends_at s (react rt inp r)"
  unfolding react_def
proof (intro ends_hook ends_if ends_returned ends_getM assms(1))
  fix d t assume t: "P t" "accounting s t"
  have from_t: "from_model inp t r"
    using assms(2) from_model_accounting [OF t(2)] by simp
  show "ends_at t (bindM (raiseE (parse_tool_calls (ag_show rt) (ag_loads rt) (rs_raw r) (lp_provider t)))
      (\<lambda>calls. if calls = [] then finish_plain rt inp r else tool_turn rt inp r calls))"
  proof (cases "parse_tool_calls (ag_show rt) (ag_loads rt) (rs_raw r) (lp_provider t)")
    case (Inl e)
    then show ?thesis using t weaken by (simp add: ends_at_def raiseE_def throwM_app)
  next
    case (Inr calls)
    then show ?thesis using t from_t plain tools by (auto simp: raiseE_def ends_at_def)
  qed
qed auto

lemma response_kept:
  assumes "record_response rt r s = (x, t)" "P s" shows "P t" "lp_handle t = lp_handle s"
proof -
  have "only_world (s\<lparr>lp_model_response := Some (rs_view r), lp_iteration_count := lp_iteration_count s + 1,
       lp_last_output := rs_text r, lp_outputs := lp_outputs s @ [rs_text r],
       lp_tokens_used := add_token_usage (lp_tokens_used s)
         (token_usage_from_response (rs_usage r) (rs_raw r) (rs_metadata r))\<rparr>) t"
    using assms(1) ow.keepsD [OF only_world_inWorld] by (auto simp: record_response_def bindM_updM bindM_getM)
  then have acc: "accounting (s\<lparr>lp_iteration_count := lp_iteration_count s + 1\<rparr>) t"
    by (auto simp: only_world_def accounting_def aside_def)
  then show "P t" using aside counted assms(2) by blast
  show "lp_handle t = lp_handle s" using accounting_fields [OF acc] by simp
qed

lemma ends_answer:
  assumes "P s" "from_model inp s r" shows "ends_at s (answer_turn rt inp r)"
  unfolding answer_turn_def
  by (rule ends_bind) (use assms response_kept ends_react in \<open>fastforce simp: from_model_def\<close>)+

lemma call_model_kept: "call_model rt inp s = (x, t) \<Longrightarrow> P s \<Longrightarrow> P t"
  by (erule call_model_cases) (use aside switch in blast)+

lemma answer_handle:
  assumes "call_model rt inp s = (Inr (Some (Answered r)), t)" shows "from_model inp t r"
  using assms by (cases rule: call_model_cases) (auto simp: from_model_accounting)

lemma ends_called: "P s \<Longrightarrow> ends_at s (bindM (call_model rt inp) (take_answer rt inp))"
  by (rule ends_bind [OF call_model_kept])
    (auto simp: take_answer_def returnM_app ends_returned ends_answer answer_handle ends_quiet ow.keeps_returnM
      split: option.split raw_result.split)

lemma ends_begin: "P s \<Longrightarrow> ends_at s (begin_iteration rt inp)"
  unfolding begin_iteration_def by (intro ends_hook ends_if ends_returned ends_called)

lemma ends_one_pass:
  assumes "P s" shows "ends_at s (one_pass rt inp)"
proof -
  have body: "P t \<Longrightarrow> ends_at t (case a of Some r \<Rightarrow> return_result rt inp r | None \<Rightarrow> begin_iteration rt inp)" for a t
    by (cases a) (auto intro: ends_returned ends_begin)
  have first: "ac.keeps (if 0 < (n::int) then inner_context_window_hook rt else returnM ())" for n
    by (intro ac.keeps_rules accounted)
  show ?thesis unfolding one_pass_def
    by (intro ends_getM ends_after [OF _ first] ends_after [OF _ accounting_quiet [OF only_world_budget]] body assms)
qed

lemma ends_agent_loop: "P s \<Longrightarrow> ends_at s (agent_loop n rt inp)"
proof (induction n arbitrary: s)
  case (Suc n)
  show ?case unfolding ends_at_def
  proof (intro allI impI)
    fix x t assume run: "agent_loop (Suc n) rt inp s = (x, t)"
    obtain y u where y: "one_pass rt inp s = (y, u)" by fastforce
    note u = ends_atD [OF ends_one_pass [OF Suc.prems] y]
    show "if x = Inr None then P t else Q t"
    proof (cases "y = Inr None")
      case True
      then show ?thesis using u run y ends_atD [OF Suc.IH] by (simp add: bindM_Inr)
    next
      case False
      then show ?thesis using u run y
        by (cases y) (auto simp: bindM_Inl bindM_Inr returnM_app)
    qed
  qed
qed (auto intro: ends_quiet ow.keeps_returnM)

lemma passes_hold: "passes rt inp s t \<Longrightarrow> P s \<Longrightarrow> P t"
proof (induction rule: passes.induct)
  case (onward s t u)
  then show ?case using ends_atD [OF ends_one_pass] by fastforce
qed

text \<open>A run ends in \<open>Q\<close>, whatever it returns or raises.\<close>

lemma run_once_ends:
  assumes "run_once n rt inp resumed s = (x, t)" and "P s" shows "Q t"
proof -
  have "ends_at s (run_once n rt inp resumed)" unfolding run_once_def
    by (intro ends_after [OF _ accounting_inner] ends_getM ends_hook ends_if ends_returned ends_agent_loop
        ends_after [OF _ accounting_quiet] ow.keeps_rules quiet assms(2))
  then have "if x = Inr None then P t else Q t" using assms(1) by (rule ends_atD)
  then show ?thesis using weaken by (simp split: if_splits)
qed

lemma arun_once_ends:
  assumes "arun_once n rt inp handle tools catalog resumed p = (x, t)"
    and "\<And>q started. P (initial_state rt inp q started handle tools catalog
      (case resumed of Some progress \<Rightarrow> progress | None \<Rightarrow> (0, [], [], False)))"
  shows "Q t"
  using assms(1) by (rule arun_once_start) (rule run_once_ends [OF _ assms(2)])

end

end
