(* ===== verification/AG_Guards.thy ===== *)
theory AG_Guards
  imports AG_Passes
begin

text \<open>
  What the guards of a tool call let into the records.  The records, the catalog and the iteration
  form the ledger of a run; a call either leaves it alone, or records one denial, or records one
  call that the guards admitted.
\<close>

subsection \<open>The ledger\<close>

definition ledger :: "'w LoopState \<Rightarrow> ToolCallContext list \<times> 'w Tool list \<times> int" where
  "ledger s = (lp_contexts s, lp_tools s, lp_iteration_count s)"

definition same_ledger :: "'w LoopState \<Rightarrow> 'w LoopState \<Rightarrow> bool" where
  "same_ledger s t \<longleftrightarrow> ledger t = ledger s"

interpretation lg: state_preorder "same_ledger :: 'w LoopState \<Rightarrow> 'w LoopState \<Rightarrow> bool"
  unfolding same_ledger_def by (rule state_preorder_field)

named_theorems ledgered \<open>computations that leave the ledger alone\<close>

lemma ledger_accounting: "accounting s t \<Longrightarrow> same_ledger s t"
  by (simp add: same_ledger_def ledger_def accounting_fields)

lemma ledger_quiet: "ow.keeps m \<Longrightarrow> lg.keeps m"
  by (rule keeps_mono [OF ow.state_preorder_axioms lg.state_preorder_axioms])
    (auto simp: only_world_def same_ledger_def ledger_def)

lemma ledger_append [ledgered]: "lg.keeps (append_message m)"
  unfolding append_message_def by (rule lg.keeps_updM) (simp add: same_ledger_def ledger_def)

lemma ledger_answer [ledgered]: "lg.keeps (append_tool_result_message rt call r d capped admit)"
  unfolding append_tool_result_message_def by (intro lg.keeps_rules ledgered ledger_quiet quiet)

lemma ledger_skipped [ledgered]: "lg.keeps (answer_skipped_tool_calls rt calls)"
proof (induction calls)
  case (Cons c cs)
  show ?case unfolding answer_skipped_tool_calls.simps by (intro lg.keeps_rules ledgered Cons)
qed (simp add: lg.keeps_returnM)

lemma ledger_judge [ledgered]: "lg.keeps (judge_contracts rt out)"
proof -
  have rej: "lg.keeps (updM (\<lambda>s. s\<lparr>lp_rejections := lp_rejections s + 1\<rparr>))"
    by (rule lg.keeps_updM) (simp add: same_ledger_def ledger_def)
  then show ?thesis unfolding judge_contracts_def by (intro rej lg.keeps_rules ledger_quiet quiet)
qed

lemma ledger_refuse_draft [ledgered]: "lg.keeps (refuse_draft rt inp draft reason)"
  unfolding refuse_draft_def by (intro lg.keeps_rules ledgered ledger_quiet quiet)

lemma ledger_accept [ledgered]: "lg.keeps (accept_plain rt inp m draft)"
  unfolding accept_plain_def by (intro lg.keeps_rules ledgered ledger_quiet quiet)

lemma ledger_verdict:
  "lg.keeps a \<Longrightarrow> (\<And>x y. lg.keeps (f x y)) \<Longrightarrow> lg.keeps b \<Longrightarrow>
   lg.keeps (case v of Met \<Rightarrow> a | Unmet x y \<Rightarrow> f x y | Exhausted \<Rightarrow> b)"
  by (cases v) auto

lemma ledger_review:
  "lg.keeps a \<Longrightarrow> (\<And>x. lg.keeps (f x)) \<Longrightarrow> (\<And>x. lg.keeps (g x)) \<Longrightarrow>
   lg.keeps (case v of Accept \<Rightarrow> a | ContinueWith x \<Rightarrow> f x | Stop x \<Rightarrow> g x)"
  by (cases v) auto

lemma ledger_finish_plain: "lg.keeps (finish_plain rt inp r)"
  unfolding finish_plain_def by (intro lg.keeps_rules ledger_verdict ledger_review ledgered ledger_quiet quiet)

lemma ledger_refuse_call [ledgered]: "lg.keeps (refuse_call rt call a skipped)"
  unfolding refuse_call_def by (intro lg.keeps_rules ledgered)

lemma ledger_finish_by_call: "lg.keeps (finish_by_call rt inp m call r skipped)"
  unfolding finish_by_call_def by (intro lg.keeps_rules ledger_verdict ledger_review ledgered ledger_quiet quiet)

subsection \<open>The guards\<close>

text \<open>What the guards require of the state before a call that is not internal.\<close>

definition under_limits :: "'w Runtime \<Rightarrow> ToolCall \<Rightarrow> 'w LoopState \<Rightarrow> bool" where
  "under_limits rt call s \<longleftrightarrow>
     (tool_limits rt = [] \<or>
        int (length (non_internal_tool_contexts (lp_tools s) (lp_contexts s))) < Min (set (tool_limits rt))) \<and>
     (\<forall>ts. ac_tool_settings (ag_config rt) = Some ts \<longrightarrow>
        budget_stop (ag_fingerprint rt) ts (tc_tool_name call) (tc_arguments call) (lp_contexts s) (lp_iteration_count s) = None)"

definition undenied :: "'w Runtime \<Rightarrow> ToolCall \<Rightarrow> 'w LoopState \<Rightarrow> bool" where
  "undenied rt call s \<longleftrightarrow>
     allowed_tools_denial (ag_config rt) (tc_tool_name call) = None \<and>
     (\<forall>ts. ac_tool_settings (ag_config rt) = Some ts \<longrightarrow>
        denial ts (tc_tool_name call) (executed_counts (lp_contexts s)) = None)"

lemma under_limits_ledger: "same_ledger s t \<Longrightarrow> under_limits rt call t = under_limits rt call s"
  by (simp add: under_limits_def same_ledger_def ledger_def)

lemma undenied_ledger: "same_ledger s t \<Longrightarrow> undenied rt call t = undenied rt call s"
  by (simp add: undenied_def same_ledger_def ledger_def)

lemma or_else_None [simp]: "or_else a b = None \<longleftrightarrow> a = None \<and> b = None"
  by (cases a) (auto simp: or_else_def)

lemma budget_stop_None:
  assumes "tool_settings_budget_stop rt s = (Inr None, t)"
  shows "tool_limits rt = [] \<or>
    int (length (non_internal_tool_contexts (lp_tools s) (lp_contexts s))) < Min (set (tool_limits rt))"
  using assms
  by (auto simp: tool_settings_budget_stop_def bindM_getM stopped_def returnM_app elim!: bindM_InrE split: if_splits)

text \<open>
  A denial records one context, refused, with the name of the call and the iteration.
\<close>

definition denied_record :: "ToolCall \<Rightarrow> 'w LoopState \<Rightarrow> ToolCallContext \<Rightarrow> bool" where
  "denied_record call s c \<longleftrightarrow> tx_state c = DENIED \<and> tx_tool_name c = tc_tool_name call \<and>
     tx_iteration_count c = Some (lp_iteration_count s)"

definition extends_ledger :: "'w LoopState \<Rightarrow> ToolCallContext \<Rightarrow> 'w LoopState \<Rightarrow> bool" where
  "extends_ledger s c t \<longleftrightarrow> ledger t = (lp_contexts s @ [c], lp_tools s, lp_iteration_count s)"

lemma extends_ledger_same: "same_ledger s u \<Longrightarrow> extends_ledger u c v \<Longrightarrow> same_ledger v t \<Longrightarrow> extends_ledger s c t"
  by (simp add: extends_ledger_def same_ledger_def ledger_def)

lemma record_extends: "record_context c s = (x, t) \<Longrightarrow> extends_ledger s c t"
  by (auto simp: record_context_def updM_app extends_ledger_def ledger_def)

lemma apply_tool_denial_cases:
  assumes "apply_tool_denial rt call d s = (x, t)"
  shows "(same_ledger s t \<and> (\<forall>c r. x \<noteq> Inr (Ran c r))) \<or> (\<exists>c. denied_record call s c \<and> extends_ledger s c t)"
proof -
  obtain reason meta where d: "d = (reason, meta)" by fastforce
  show ?thesis
  proof (cases "case ac_tool_settings (ag_config rt) of Some s \<Rightarrow> aborts_on_deny s | None \<Rightarrow> False")
    case True
    have "lg.keeps (bindM (stopped_result rt (''Agent runtime stopped by tool settings: '' @ reason) TOOL_SETTINGS_DENIED)
        (\<lambda>r. returnM (Ended r)))" by (intro lg.keeps_rules ledger_quiet quiet)
    moreover have run: "bindM (stopped_result rt (''Agent runtime stopped by tool settings: '' @ reason) TOOL_SETTINGS_DENIED)
        (\<lambda>r. returnM (Ended r)) s = (x, t)" using assms True by (simp add: apply_tool_denial_def d)
    ultimately have "same_ledger s t" using lg.keepsD by blast
    moreover have "x \<noteq> Inr (Ran c r)" for c r using run by (auto simp: bindM_Inr_iff returnM_app)
    ultimately show ?thesis by blast
  next
    case False
    obtain c r where cr: "denied_tool_result call (lp_provider s) (''Tool denied by tool settings: '' @ reason) reason
        (Some reason) meta (lp_iteration_count s) False = (c, r)" by fastforce
    have run: "bindM (record_context c) (\<lambda>_. bindM (append_tool_result_message rt call r plain_continue False False)
        (\<lambda>_. returnM (Ran c r))) s = (x, t)"
      using assms False cr by (simp add: apply_tool_denial_def d bindM_getM)
    have "denied_record call s c" using cr
      by (auto simp: denied_tool_result_def Let_def denied_record_def build_tool_call_context_def)
    moreover obtain u where u: "record_context c s = (Inr (), u)" by (simp add: record_context_def updM_app)
    moreover have "lg.keeps (bindM (append_tool_result_message rt call r plain_continue False False) (\<lambda>_. returnM (Ran c r)))"
      by (intro lg.keeps_rules ledgered)
    then have "same_ledger u t" using run u lg.keepsD by (fastforce simp: bindM_Inr)
    ultimately show ?thesis using extends_ledger_same [OF lg.R_refl record_extends] by blast
  qed
qed

lemma enforce_cases:
  assumes "enforce_tool_settings rt call internal s = (x, t)"
  obtains (admitted) "x = Inr None" "same_ledger s t" "internal \<or> under_limits rt call s \<and> undenied rt call s" "only_world s t"
  | (stopped) "x \<noteq> Inr None" "same_ledger s t" "\<And>c r. x \<noteq> Inr (Some (Ran c r))"
  | (denied) c d y v where "x \<noteq> Inr None" "\<not> internal" "under_limits rt call s" "denied_record call s c" "extends_ledger s c t"
      "only_world s v" "apply_tool_denial rt call d v = (y, t)" "x = (case y of Inl e \<Rightarrow> Inl e | Inr p \<Rightarrow> Inr (Some p))"
proof -
  let ?rest = "\<lambda>s. case (case ac_tool_settings (ag_config rt) of
                       None \<Rightarrow> None
                     | Some t \<Rightarrow> budget_stop (ag_fingerprint rt) t (tc_tool_name call) (tc_arguments call)
                         (lp_contexts s) (lp_iteration_count s)) of
                 Some hard \<Rightarrow> bindM (tool_settings_hard_budget_stop rt hard) (\<lambda>r. returnM (Some (Ended r)))
               | None \<Rightarrow>
                   (case or_else (allowed_tools_denial (ag_config rt) (tc_tool_name call))
                       (case ac_tool_settings (ag_config rt) of
                          None \<Rightarrow> None
                        | Some t \<Rightarrow> denial t (tc_tool_name call) (executed_counts (lp_contexts s))) of
                      None \<Rightarrow> returnM None
                    | Some denied \<Rightarrow> bindM (apply_tool_denial rt call denied) (\<lambda>p. returnM (Some p)))"
  obtain a u where a: "spend_cap_stop rt s = (a, u)" by fastforce
  have su: "same_ledger s u" using lg.keepsD [OF ledger_quiet [OF only_world_spend] a] .
  have osu: "only_world s u" using ow.keepsD [OF only_world_spend a] .
  consider (e) e where "a = Inl e" | (r) r where "a = Inr (Some r)" | (n) "a = Inr None" by (metis sum.exhaust option.exhaust)
  then show thesis
  proof cases
    case e
    then show thesis using stopped assms a su by (auto simp: enforce_tool_settings_def bindM_Inl)
  next
    case r
    then show thesis using stopped assms a su by (auto simp: enforce_tool_settings_def bindM_Inr returnM_app)
  next
    case n
    show thesis
    proof (cases internal)
      case True
      then show thesis using admitted assms a su osu n by (simp add: enforce_tool_settings_def bindM_Inr returnM_app)
    next
      case False
      obtain b v where b: "tool_settings_budget_stop rt u = (b, v)" by fastforce
      have uv: "same_ledger u v" using lg.keepsD [OF ledger_quiet [OF only_world_tool_budget] b] .
      have sv: "same_ledger s v" using lg.R_trans su uv by blast
      have osv: "only_world s v" using ow.R_trans [OF osu ow.keepsD [OF only_world_tool_budget b]] .
      consider (e) e where "b = Inl e" | (r) r where "b = Inr (Some r)" | (n) "b = Inr None" by (metis sum.exhaust option.exhaust)
      then show thesis
      proof cases
        case e
        then show thesis using stopped assms a n b sv False by (auto simp: enforce_tool_settings_def bindM_Inr bindM_Inl)
      next
        case r
        then show thesis using stopped assms a n b sv False
          by (auto simp: enforce_tool_settings_def bindM_Inr returnM_app)
      next
        case nb: n
        have run: "?rest v v = (x, t)"
          using assms a n b nb False by (simp add: enforce_tool_settings_def bindM_Inr bindM_getM id_def)
        have low: "tool_limits rt = [] \<or>
            int (length (non_internal_tool_contexts (lp_tools s) (lp_contexts s))) < Min (set (tool_limits rt))"
          using budget_stop_None [of rt u v] b nb su by (simp add: same_ledger_def ledger_def)
        show thesis
        proof (cases "case ac_tool_settings (ag_config rt) of None \<Rightarrow> None
            | Some t \<Rightarrow> budget_stop (ag_fingerprint rt) t (tc_tool_name call) (tc_arguments call) (lp_contexts v) (lp_iteration_count v)")
          case (Some hard)
          then have run: "bindM (tool_settings_hard_budget_stop rt hard) (\<lambda>r. returnM (Some (Ended r))) v = (x, t)"
            using run by simp
          have "lg.keeps (bindM (tool_settings_hard_budget_stop rt hard) (\<lambda>r. returnM (Some (Ended r))))"
            by (intro lg.keeps_rules ledger_quiet quiet)
          then have "same_ledger s t" using lg.keepsD run sv lg.R_trans by blast
          moreover have "x \<noteq> Inr None" "x \<noteq> Inr (Some (Ran c r))" for c r
            using run by (auto simp: bindM_Inr_iff returnM_app)
          ultimately show thesis using stopped by blast
        next
          case None
          then have under: "under_limits rt call s"
            using low sv by (auto simp: under_limits_def same_ledger_def ledger_def split: option.splits)
          show thesis
          proof (cases "or_else (allowed_tools_denial (ag_config rt) (tc_tool_name call))
              (case ac_tool_settings (ag_config rt) of None \<Rightarrow> None
               | Some t \<Rightarrow> denial t (tc_tool_name call) (executed_counts (lp_contexts v)))")
            case no: None
            then have "undenied rt call s"
              using sv by (auto simp: undenied_def same_ledger_def ledger_def split: option.splits)
            moreover have "x = Inr None" "t = v" using run None no by (auto simp: returnM_app)
            ultimately show thesis using admitted sv under osv by blast
          next
            case den: (Some d)
            then have "bindM (apply_tool_denial rt call d) (\<lambda>p. returnM (Some p)) v = (x, t)"
              using run None by (auto simp del: or_else_None)
            then obtain y where y: "apply_tool_denial rt call d v = (y, t)"
              and x: "x = (case y of Inl e \<Rightarrow> Inl e | Inr p \<Rightarrow> Inr (Some p))"
              by (auto simp: bindM_def returnM_app split: prod.splits sum.splits)
            from apply_tool_denial_cases [OF y] show thesis
            proof (elim disjE exE conjE)
              assume "same_ledger v t" "\<forall>c r. y \<noteq> Inr (Ran c r)"
              then show thesis using stopped [OF _ lg.R_trans [OF sv]] x by (auto split: sum.splits)
            next
              fix c assume c: "denied_record call v c" "extends_ledger v c t"
              have "denied_record call s c" using c(1) sv by (simp add: denied_record_def same_ledger_def ledger_def)
              moreover have "extends_ledger s c t" using extends_ledger_same [OF sv c(2) lg.R_refl] .
              moreover have "x \<noteq> Inr None" using x by (auto split: sum.splits)
              ultimately show thesis using denied False under x osv y by blast
            qed
          qed
        qed
      qed
    qed
  qed
qed

subsection \<open>The call\<close>

definition permitted :: "'w Runtime \<Rightarrow> 'w Tool list \<Rightarrow> string \<Rightarrow> bool" where
  "permitted rt tools name \<longleftrightarrow>
     (\<forall>tool. get_tool tools name = Some tool \<longrightarrow> policy_check (ag_policy rt) (ag_ceiling rt) (tl_permission tool) = ALLOW)"

text \<open>The record of a call, whether it ran, failed or was refused.\<close>

definition call_record :: "'w Runtime \<Rightarrow> ToolCall \<Rightarrow> bool \<Rightarrow> 'w LoopState \<Rightarrow> ToolCallContext \<Rightarrow> bool" where
  "call_record rt call internal s c \<longleftrightarrow> tx_tool_name c = tc_tool_name call \<and> tx_arguments c = tc_arguments call \<and>
     tx_iteration_count c = Some (lp_iteration_count s) \<and>
     (internal \<longrightarrow> map_of (tx_metadata c) ''internal'' = Some (VBool True)) \<and>
     (tx_state c = DENIED \<or> permitted rt (lp_tools s) (tc_tool_name call))"

lemma call_record_ledger: "same_ledger s t \<Longrightarrow> call_record rt call internal t c = call_record rt call internal s c"
  by (simp add: call_record_def same_ledger_def ledger_def)

lemma built_record:
  "state = DENIED \<or> permitted rt (lp_tools s) (tc_tool_name call) \<Longrightarrow>
   call_record rt call internal s (build_tool_call_context call provider state r (lp_iteration_count s) internal)"
  by (simp add: call_record_def build_tool_call_context_def)

lemma run_tool_call_record:
  assumes "run_tool_call (tool_env rt (lp_tools s)) call provider (lp_iteration_count s) internal w = (Inr (c, r), u)"
    and "prepare_call (lp_tools s) call = call"
  shows "call_record rt call internal s c"
proof (cases "get_tool (lp_tools s) (tc_tool_name call)")
  case None
  then have "permitted rt (lp_tools s) (tc_tool_name call)" by (simp add: permitted_def)
  then show ?thesis using assms(1) None by (auto simp: built_record run_tool_call_def tool_env_def)
next
  case (Some tool)
  have prep: "prepare_tool_call tool call = call" using assms(2) Some by (simp add: prepare_call_def)
  show ?thesis
  proof (cases "policy_check (ag_policy rt) (ag_ceiling rt) (tl_permission tool) = DENY")
    case True
    then show ?thesis using assms(1) Some prep by (auto simp: built_record run_tool_call_def tool_env_def Let_def)
  next
    case False
    then have "permitted rt (lp_tools s) (tc_tool_name call)"
      using Some by (cases "policy_check (ag_policy rt) (ag_ceiling rt) (tl_permission tool)") (auto simp: permitted_def)
    then show ?thesis using assms(1) Some prep False
      by (auto simp: built_record run_tool_call_def tool_env_def Let_def split: if_splits sum.splits prod.splits)
  qed
qed

lemma prepare_call_idem: "prepare_call tools (prepare_call tools c) = prepare_call tools c"
  by (auto simp: prepare_call_def prepare_tool_call_idem split: option.split)

lemma tool_attempt_record:
  assumes "tool_attempt rt call internal d s = (Inr (c, r), t)" and "prepare_call (lp_tools s) call = call"
  shows "call_record rt call internal s c"
proof (cases "md_action d = DENY_TOOL")
  case True
  then show ?thesis using assms(1)
    by (auto simp: built_record tool_attempt_def bindM_getM returnM_app middleware_denied_tool_def denied_tool_result_def Let_def)
next
  case False
  then obtain w where "run_tool_call (tool_env rt (lp_tools s)) call (lp_provider s) (lp_iteration_count s) internal
      (pl_world (lp_pipe s)) = (Inr (c, r), w)"
    using assms(1) by (auto simp: tool_attempt_def bindM_getM inWorldE_def inWorld_def pipeM_def worldM_def throwM_app
        returnM_app bindM_Inr_iff split: prod.splits sum.splits)
  then show ?thesis by (rule run_tool_call_record [OF _ assms(2)])
qed

lemma tool_attempts_record:
  assumes "tool_attempts n rt inp call internal d s = (Inr (c, r, after), t)" and "prepare_call (lp_tools s) call = call"
  shows "call_record rt call internal s c"
  using assms
proof (induction n arbitrary: s)
  case (Suc n)
  from Suc.prems(1) obtain c1 r1 s1 a s2 where 1: "tool_attempt rt call internal d s = (Inr (c1, r1), s1)"
    and 2: "hook rt inp AFTER_TOOL_CALL (after_tool_call_context s1 inp call r1 internal) s1 = (Inr a, s2)"
    and 3: "(if md_action a \<noteq> RETRY then returnM (c1, r1, a)
      else bindM (sleep_for rt (md_sleep_seconds a)) (\<lambda>_. tool_attempts n rt inp call internal d)) s2 = (Inr (c, r, after), t)"
    by (auto simp: getM_app elim!: bindM_InrE)
  note s2 = lg.R_trans [OF lg.keepsD [OF ledger_quiet [OF only_world_attempt] 1] lg.keepsD [OF ledger_quiet [OF only_world_hook] 2]]
  show ?case
  proof (cases "md_action a \<noteq> RETRY")
    case True
    then show ?thesis using 3 tool_attempt_record [OF 1 Suc.prems(2)] by (simp add: returnM_app)
  next
    case False
    then obtain s3 where 4: "sleep_for rt (md_sleep_seconds a) s2 = (Inr (), s3)"
      and 5: "tool_attempts n rt inp call internal d s3 = (Inr (c, r, after), t)"
      using 3 by (auto elim!: bindM_InrE)
    have s3: "same_ledger s s3" using lg.R_trans [OF s2 lg.keepsD [OF ledger_quiet [OF only_world_sleep] 4]] .
    then have "lp_tools s3 = lp_tools s" by (simp add: same_ledger_def ledger_def)
    then show ?thesis using Suc.IH [OF 5] Suc.prems(2) call_record_ledger [OF s3] by simp
  qed
qed (simp add: throwM_app)

lemma visible_record: "call_record rt call internal s (with_model_visible_result c v) = call_record rt call internal s c"
    "tx_state (with_model_visible_result c v) = tx_state c"
  by (simp_all add: with_model_visible_result_def call_record_def split: option.split)

text \<open>Whether the failures still leave room after a call.\<close>

definition failures_allow :: "'w Runtime \<Rightarrow> bool \<Rightarrow> ToolCallContext \<Rightarrow> ToolCallContext list \<Rightarrow> bool" where
  "failures_allow rt internal c cs \<longleftrightarrow> internal \<or> tx_state c \<noteq> FAILED \<or>
     (\<forall>ts. ac_tool_settings (ag_config rt) = Some ts \<longrightarrow> failure_budget_stop ts cs = None)"

lemma settle_call_cases:
  assumes "settle_call rt internal after r c s = (x, t)"
  shows "extends_ledger s c t" and "x = Inr (Ran c' r') \<Longrightarrow> c' = c \<and> r' = r \<and> failures_allow rt internal c (lp_contexts t)"
proof -
  obtain u where u: "record_context c s = (Inr (), u)" by (simp add: record_context_def updM_app)
  have rest: "(if md_action after = ABORT_RUN then bindM (aborted rt after) (\<lambda>r. returnM (Ended r))
     else bindM (enforce_tool_settings_after_failure rt c internal) (\<lambda>stop.
       case stop of Some r \<Rightarrow> returnM (Ended r) | None \<Rightarrow> returnM (Ran c r))) u = (x, t)"
    using assms u by (simp add: settle_call_def bindM_Inr)
  have "lg.keeps (if md_action after = ABORT_RUN then bindM (aborted rt after) (\<lambda>r. returnM (Ended r))
     else bindM (enforce_tool_settings_after_failure rt c internal) (\<lambda>stop.
       case stop of Some r \<Rightarrow> returnM (Ended r) | None \<Rightarrow> returnM (Ran c r)))"
    by (intro lg.keeps_rules ledger_quiet quiet)
  then have ut: "same_ledger u t" using lg.keepsD rest by blast
  show "extends_ledger s c t" using extends_ledger_same [OF lg.R_refl record_extends [OF u] ut] .
  assume "x = Inr (Ran c' r')"
  then have "c' = c" "r' = r" and fail: "enforce_tool_settings_after_failure rt c internal u = (Inr None, t)"
    using rest by (auto simp: bindM_Inr_iff returnM_app split: if_splits option.splits)
  have "failures_allow rt internal c (lp_contexts u)" using fail
    by (auto simp: enforce_tool_settings_after_failure_def bindM_getM returnM_app bindM_Inr_iff failures_allow_def
        split: if_splits option.splits)
  then show "c' = c \<and> r' = r \<and> failures_allow rt internal c (lp_contexts t)"
    using \<open>c' = c\<close> \<open>r' = r\<close> ut by (simp add: same_ledger_def ledger_def)
qed

lemma ledger_answer_call [ledgered]: "lg.keeps (answer_call rt call c r after)"
  unfolding answer_call_def by (intro lg.keeps_rules ledgered)

lemma process_tool_call_stages:
  "process_tool_call rt inp call0 s =
     (let call = prepare_call (lp_tools s) call0; internal = tool_name_is_internal (lp_tools s) (tc_tool_name call) in
      bindM (enforce_tool_settings rt call internal) (\<lambda>settled.
        case settled of Some p \<Rightarrow> returnM p | None \<Rightarrow> admit_call rt inp call internal) s)"
  by (simp add: process_tool_call_def bindM_getM Let_def)

lemma run_call_cases:
  assumes "run_call rt inp call internal d s = (x, t)" and "prepare_call (lp_tools s) call = call"
  shows "(same_ledger s t \<and> (\<forall>c r. x \<noteq> Inr (Ran c r))) \<or>
    (\<exists>c. call_record rt call internal s c \<and> extends_ledger s c t \<and>
       (\<forall>c' r. x = Inr (Ran c' r) \<longrightarrow> c' = c \<and> failures_allow rt internal c (lp_contexts t)))"
proof -
  obtain y u where y: "tool_attempts (ri_retry_fuel inp) rt inp call internal d s = (y, u)" by fastforce
  have su: "same_ledger s u" using lg.keepsD [OF ledger_quiet [OF only_world_attempts] y] .
  show ?thesis
  proof (cases y)
    case (Inl h)
    then show ?thesis using assms(1) y su by (auto simp: run_call_def bindM_Inl)
  next
    case (Inr z)
    obtain c r after where z: "z = (c, r, after)" by (cases z) auto
    have c: "call_record rt call internal s c" using tool_attempts_record y Inr z assms(2) by blast
    obtain a v where a: "answer_call rt call c r after u = (a, v)" by fastforce
    have sv: "same_ledger s v" using lg.R_trans [OF su lg.keepsD [OF ledger_answer_call a]] .
    have run: "bindM (answer_call rt call c r after) (settle_call rt internal after r) u = (x, t)"
      using assms(1) y Inr z by (simp add: run_call_def bindM_Inr)
    show ?thesis
    proof (cases a)
      case (Inl h)
      then show ?thesis using run a sv by (auto simp: bindM_Inl)
    next
      case (Inr c')
      have "call_record rt call internal s c'"
        using a Inr c by (auto simp: visible_record answer_call_def bindM_Inr_iff returnM_app split: if_splits)
      moreover have st: "settle_call rt internal after r c' v = (x, t)" using run a Inr by (simp add: bindM_Inr)
      moreover have "extends_ledger s c' t"
        using extends_ledger_same [OF sv settle_call_cases(1) [OF st] lg.R_refl] .
      ultimately show ?thesis using settle_call_cases(2) [OF st] by blast
    qed
  qed
qed

lemma settled_already:
  assumes "bindM m (\<lambda>settled. case settled of Some p \<Rightarrow> returnM p | None \<Rightarrow> k) s = (x, t)" and "m s = (y, u)" and "y \<noteq> Inr None"
  shows "t = u \<and> (\<forall>p. x = Inr p \<longrightarrow> y = Inr (Some p))"
proof (cases y)
  case (Inl e)
  then show ?thesis using assms by (auto simp: bindM_Inl)
next
  case (Inr z)
  then obtain p where "z = Some p" using assms(3) by (cases z) auto
  then show ?thesis using assms(1,2) Inr by (auto simp: bindM_Inr returnM_app)
qed

text \<open>What a tool call leaves in the ledger.\<close>

lemma process_tool_call_cases:
  assumes "process_tool_call rt inp call0 s = (x, t)"
    and "call = prepare_call (lp_tools s) call0" and "internal = tool_name_is_internal (lp_tools s) (tc_tool_name call)"
  obtains (idle) "same_ledger s t" "\<And>c r. x \<noteq> Inr (Ran c r)"
  | (denied) c where "\<not> internal" "under_limits rt call s" "denied_record call s c" "extends_ledger s c t"
  | (called) c where "internal \<or> under_limits rt call s \<and> undenied rt call s" "call_record rt call internal s c"
      "extends_ledger s c t" "\<And>c' r. x = Inr (Ran c' r) \<Longrightarrow> c' = c \<and> failures_allow rt internal c (lp_contexts t)"
proof -
  obtain y u where y: "enforce_tool_settings rt call internal s = (y, u)" by fastforce
  have run: "bindM (enforce_tool_settings rt call internal) (\<lambda>settled.
      case settled of Some p \<Rightarrow> returnM p | None \<Rightarrow> admit_call rt inp call internal) s = (x, t)"
    using assms(1) by (simp only: process_tool_call_stages Let_def assms(2,3))
  from y show thesis
  proof (cases rule: enforce_cases)
    case admitted
    obtain z v where z: "hook rt inp BEFORE_TOOL_CALL (\<lambda>c. c\<lparr>cx_tool_call := Some call, cx_tool_is_internal := internal\<rparr>) u = (z, v)"
      by fastforce
    have sv: "same_ledger s v" using lg.R_trans [OF admitted(2) lg.keepsD [OF ledger_quiet [OF only_world_hook] z]] .
    have run2: "admit_call rt inp call internal u = (x, t)" using run y admitted(1) by (simp add: bindM_Inr)
    show thesis
    proof (cases z)
      case (Inl h)
      then show thesis using idle run2 z sv by (auto simp: admit_call_def bindM_Inl)
    next
      case (Inr d)
      have run3: "(if md_action d = ABORT_RUN then bindM (aborted rt d) (\<lambda>r. returnM (Ended r))
          else run_call rt inp call internal d) v = (x, t)" using run2 z Inr by (simp add: admit_call_def bindM_Inr)
      show thesis
      proof (cases "md_action d = ABORT_RUN")
        case True
        have keep: "lg.keeps (bindM (aborted rt d) (\<lambda>r. returnM (Ended r)))" by (intro lg.keeps_rules ledger_quiet quiet)
        have run4: "bindM (aborted rt d) (\<lambda>r. returnM (Ended r)) v = (x, t)" using run3 True by simp
        have "x \<noteq> Inr (Ran c r)" for c r using run4 by (auto simp: bindM_Inr_iff returnM_app)
        then show thesis using idle lg.R_trans [OF sv lg.keepsD [where m = "bindM (aborted rt d) (\<lambda>r. returnM (Ended r))", OF keep run4]]
          by blast
      next
        case False
        then have rc: "run_call rt inp call internal d v = (x, t)" using run3 by simp
        have prep: "prepare_call (lp_tools v) call = call"
          using sv assms(2) by (simp add: same_ledger_def ledger_def prepare_call_idem)
        from run_call_cases [OF rc prep] show thesis
        proof (elim disjE exE conjE)
          assume "same_ledger v t" "\<forall>c r. x \<noteq> Inr (Ran c r)"
          then show thesis using idle lg.R_trans [OF sv] by blast
        next
          fix c assume c: "call_record rt call internal v c" "extends_ledger v c t"
            "\<forall>c' r. x = Inr (Ran c' r) \<longrightarrow> c' = c \<and> failures_allow rt internal c (lp_contexts t)"
          show thesis using called [OF admitted(3)] call_record_ledger [OF sv] c
              extends_ledger_same [OF sv c(2) lg.R_refl] by blast
        qed
      qed
    qed
  next
    case stopped
    note over = settled_already [OF run y stopped(1)]
    show thesis
    proof (rule idle)
      show "same_ledger s t" using over stopped(2) by simp
      show "x \<noteq> Inr (Ran c r)" for c r using over stopped(3) [of c r] by auto
    qed
  next
    case (denied c d y' v)
    have "t = u" using settled_already [OF run y denied(1)] by simp
    show thesis by (rule that(2) [of c]) (use denied \<open>t = u\<close> in simp_all)
  qed
qed

end
