(* ===== verification/AG_Answers.thy ===== *)
theory AG_Answers
  imports AG_Guards
begin

text \<open>
  The conversation of a run.  Every assistant turn with tool calls is followed by one answer to each
  of them, in their order and under their ids, whenever a pass begins; so it is in every request.
\<close>

subsection \<open>Answered conversations\<close>

text \<open>\<open>answered\<close> reads a conversation with the ids that still wait for their answers.\<close>

fun answered :: "(pyval \<Rightarrow> string) \<Rightarrow> string \<Rightarrow> string list \<Rightarrow> dict list \<Rightarrow> bool" where
  "answered show family waiting [] = (waiting = [])"
| "answered show family [] (m # ms) = answered show family (turn_ids show family m) ms"
| "answered show family (i # waiting) (m # ms) = (answer_id show family m = i \<and> answered show family waiting ms)"

lemma answered_append:
  "answered show family waiting ms \<Longrightarrow> answered show family [] ns \<Longrightarrow> answered show family waiting (ms @ ns)"
  by (induction "show" family waiting ms rule: answered.induct) auto

lemma answered_answers:
  "map (answer_id show family) ms = waiting \<Longrightarrow> answered show family waiting ms"
  by (induction ms arbitrary: waiting) auto

definition plain_message :: "dict \<Rightarrow> bool" where
  "plain_message m \<longleftrightarrow> (\<exists>t. m = user_message t \<or> m = assistant_message t)"

lemma plain_ids: "plain_message m \<Longrightarrow> turn_ids show family m = []"
  by (auto simp: plain_message_def user_message_def assistant_message_def turn_ids_def get_or_none_def list_of_def)

lemma answered_plain: "list_all plain_message ms \<Longrightarrow> answered show family [] ms"
  by (induction ms) (auto simp: plain_ids)

subsection \<open>What a computation says\<close>

definition says :: "dict list \<Rightarrow> 'w LoopState \<Rightarrow> 'w LoopState \<Rightarrow> bool" where
  "says ms s t \<longleftrightarrow> lp_messages t = lp_messages s @ ms \<and> lp_provider t = lp_provider s \<and> lp_handle t = lp_handle s"

lemma says_trans: "says ms s t \<Longrightarrow> says ns t u \<Longrightarrow> says (ms @ ns) s u"
  by (simp add: says_def)

definition silent :: "'w LoopState \<Rightarrow> 'w LoopState \<Rightarrow> bool" where
  "silent s t \<longleftrightarrow> says [] s t"

interpretation sl: state_preorder "silent :: 'w LoopState \<Rightarrow> 'w LoopState \<Rightarrow> bool"
  by unfold_locales (auto simp: silent_def says_def)

lemma silent_says: "silent s t \<Longrightarrow> says ms t u \<Longrightarrow> says ms s u" "says ms s t \<Longrightarrow> silent t u \<Longrightarrow> says ms s u"
  by (simp_all add: silent_def says_def)

lemma silent_accounting: "accounting s t \<Longrightarrow> silent s t"
  by (simp add: silent_def says_def accounting_fields)

lemma silent_quiet: "ow.keeps m \<Longrightarrow> sl.keeps m"
  by (rule keeps_mono [OF ow.state_preorder_axioms sl.state_preorder_axioms])
    (auto simp: only_world_def silent_def says_def)

lemma silent_record: "sl.keeps (record_context c)"
  unfolding record_context_def by (rule sl.keeps_updM) (simp add: silent_def says_def)

lemma silent_settle: "sl.keeps (settle_call rt internal after r c)"
  unfolding settle_call_def by (intro silent_record sl.keeps_rules silent_quiet quiet)

lemma silent_judge: "sl.keeps (judge_contracts rt out)"
proof -
  have rej: "sl.keeps (updM (\<lambda>s. s\<lparr>lp_rejections := lp_rejections s + 1\<rparr>))"
    by (rule sl.keeps_updM) (simp add: silent_def says_def)
  then show ?thesis unfolding judge_contracts_def by (intro rej sl.keeps_rules silent_quiet quiet)
qed

lemma silent_adopt: "sl.keeps (adopt_agent_catalog rt)"
proof -
  have cat: "sl.keeps (updM (\<lambda>s. s\<lparr>lp_catalog_seen := c, lp_tools := tools, lp_tool_schemas := f s\<rparr>))" for c tools f
    by (rule sl.keeps_updM) (simp add: silent_def says_def)
  then show ?thesis unfolding adopt_agent_catalog_def by (intro cat sl.keeps_rules silent_quiet quiet)
qed

text \<open>Plain messages only.\<close>

definition chats :: "'w LoopState \<Rightarrow> 'w LoopState \<Rightarrow> bool" where
  "chats s t \<longleftrightarrow> (\<exists>ms. list_all plain_message ms \<and> says ms s t)"

interpretation ch: state_preorder "chats :: 'w LoopState \<Rightarrow> 'w LoopState \<Rightarrow> bool"
proof
  fix s t u :: "'w LoopState"
  show "chats s s" unfolding chats_def by (rule exI [of _ "[]"]) (simp add: says_def)
  show "chats s t \<Longrightarrow> chats t u \<Longrightarrow> chats s u"
    unfolding chats_def using says_trans by (metis list_all_append)
qed

lemma chats_silent: "sl.keeps m \<Longrightarrow> ch.keeps m"
  by (rule keeps_mono [OF sl.state_preorder_axioms ch.state_preorder_axioms]) (auto simp: silent_def chats_def intro: exI [of _ "[]"])

lemma chats_quiet: "ow.keeps m \<Longrightarrow> ch.keeps m"
  by (rule chats_silent [OF silent_quiet])

lemma chats_append: "ch.keeps (append_message (user_message t))" "ch.keeps (append_message (assistant_message t))"
  unfolding append_message_def by (rule ch.keeps_updM; auto simp: chats_def says_def plain_message_def)+

lemma chats_refuse_draft: "ch.keeps (refuse_draft rt inp draft reason)"
  unfolding refuse_draft_def by (intro chats_append ch.keeps_rules chats_quiet quiet)

lemma chats_accept: "ch.keeps (accept_plain rt inp m draft)"
  unfolding accept_plain_def by (intro chats_append ch.keeps_rules chats_quiet quiet)

lemma chats_verdict:
  "ch.keeps a \<Longrightarrow> (\<And>x y. ch.keeps (f x y)) \<Longrightarrow> ch.keeps b \<Longrightarrow>
   ch.keeps (case v of Met \<Rightarrow> a | Unmet x y \<Rightarrow> f x y | Exhausted \<Rightarrow> b)"
  by (cases v) auto

lemma chats_review:
  "ch.keeps a \<Longrightarrow> (\<And>x. ch.keeps (f x)) \<Longrightarrow> (\<And>x. ch.keeps (g x)) \<Longrightarrow>
   ch.keeps (case v of Accept \<Rightarrow> a | ContinueWith x \<Rightarrow> f x | Stop x \<Rightarrow> g x)"
  by (cases v) auto

lemma chats_finish_plain: "ch.keeps (finish_plain rt inp r)"
  unfolding finish_plain_def
  by (intro chats_refuse_draft chats_accept chats_silent [OF silent_judge] ch.keeps_rules chats_verdict chats_review chats_quiet quiet)

subsection \<open>The answers of a turn\<close>

text \<open>An answer carries the id of its call, whatever the result.\<close>

definition answers :: "'w Runtime \<Rightarrow> 'w LoopState \<Rightarrow> ToolCall list \<Rightarrow> dict list \<Rightarrow> bool" where
  "answers rt s calls ms \<longleftrightarrow> map (answer_id (ag_show rt) (wire_format (Some (lp_provider s)))) ms
     = map (call_key (wire_format (Some (lp_provider s)))) calls"

lemma answers_Nil [simp]: "answers rt s [] ms \<longleftrightarrow> ms = []"
  by (simp add: answers_def)

lemma answers_append: "answers rt s cs ms \<Longrightarrow> answers rt s ds ns \<Longrightarrow> answers rt s (cs @ ds) (ms @ ns)"
  by (simp add: answers_def)

lemma answers_says: "says ns s t \<Longrightarrow> answers rt t cs ms = answers rt s cs ms"
  by (simp add: answers_def says_def)

lemma answers_prepared: "answers rt s [prepare_call tools c] ms = answers rt s [c] ms"
  by (simp add: answers_def call_key_def result_call_id_def split: option.split)

text \<open>\<open>replies rt calls s t\<close>: from \<open>s\<close> to \<open>t\<close> each of the calls was answered, and nothing else was said.\<close>

definition replies :: "'w Runtime \<Rightarrow> ToolCall list \<Rightarrow> 'w LoopState \<Rightarrow> 'w LoopState \<Rightarrow> bool" where
  "replies rt calls s t \<longleftrightarrow> (\<exists>ms. says ms s t \<and> answers rt s calls ms)"

lemma replies_Nil: "replies rt [] s t \<longleftrightarrow> silent s t"
  by (simp add: replies_def silent_def)

lemma replies_append: "replies rt cs s t \<Longrightarrow> replies rt ds t u \<Longrightarrow> replies rt (cs @ ds) s u"
  unfolding replies_def using answers_append answers_says says_trans by metis

lemma replies_Cons: "replies rt [c] s t \<Longrightarrow> replies rt ds t u \<Longrightarrow> replies rt (c # ds) s u"
  using replies_append [of rt "[c]" s t ds u] by simp

lemma replies_before: "silent s t \<Longrightarrow> replies rt cs t u \<Longrightarrow> replies rt cs s u"
  using replies_append [of rt "[]" s t cs u] by (simp add: replies_Nil)

lemma replies_after: "replies rt cs s t \<Longrightarrow> silent t u \<Longrightarrow> replies rt cs s u"
  using replies_append [of rt cs s t "[]" u] by (simp add: replies_Nil)

lemma replies_prepared: "replies rt [prepare_call tools c] s t = replies rt [c] s t"
  by (simp add: replies_def answers_prepared)

lemma append_says: "append_message m s = (x, t) \<Longrightarrow> x = Inr () \<and> says [m] s t"
  by (auto simp: append_message_def updM_app says_def)

lemma answer_says:
  assumes "append_tool_result_message rt call r d capped admit s = (Inr v, t)"
  shows "replies rt [call] s t"
proof -
  from assms obtain v' u where 1: "model_visible_tool_result rt call r d capped admit s = (Inr v', u)"
    and 2: "append_message (format_tool_result (ag_show rt) call (case v' of Some v \<Rightarrow> v | None \<Rightarrow> r) (lp_provider u)) u = (Inr (), t)"
    by (auto simp: append_tool_result_message_def getM_app returnM_app elim!: bindM_InrE)
  let ?m = "format_tool_result (ag_show rt) call (case v' of Some v \<Rightarrow> v | None \<Rightarrow> r) (lp_provider u)"
  have "says [?m] u t" using append_says [OF 2] by simp
  moreover have "answers rt u [call] [?m]"
    by (simp only: answers_def list.map result_ids [OF refl] call_key_def)
  ultimately have "replies rt [call] u t" unfolding replies_def by blast
  then show ?thesis by (rule replies_before [OF sl.keepsD [OF silent_quiet [OF only_world_visible] 1]])
qed

lemma skipped_say: "answer_skipped_tool_calls rt cs s = (Inr x, t) \<Longrightarrow> replies rt cs s t"
proof (induction cs arbitrary: s)
  case Nil
  then show ?case by (auto simp: returnM_app replies_Nil sl.R_refl)
next
  case (Cons c cs)
  then show ?case by (auto elim!: bindM_InrE intro: replies_Cons dest: answer_says)
qed

lemma refuse_says: "refuse_call rt call a skipped s = (Inr x, t) \<Longrightarrow> replies rt (call # skipped) s t"
  by (auto simp: refuse_call_def elim!: bindM_InrE intro: replies_Cons dest: answer_says skipped_say)

lemma denial_says:
  assumes "apply_tool_denial rt call d s = (Inr (Ran c r), t)"
  shows "replies rt [call] s t" and "\<not> answered_by_finish call r"
proof -
  obtain reason meta where d: "d = (reason, meta)" by fastforce
  obtain c' r' where cr: "denied_tool_result call (lp_provider s) (''Tool denied by tool settings: '' @ reason) reason
        (Some reason) meta (lp_iteration_count s) False = (c', r')" by fastforce
  have run: "bindM (record_context c') (\<lambda>_. bindM (append_tool_result_message rt call r' plain_continue False False)
      (\<lambda>_. returnM (Ran c' r'))) s = (Inr (Ran c r), t)"
  proof (cases "case ac_tool_settings (ag_config rt) of Some s \<Rightarrow> aborts_on_deny s | None \<Rightarrow> False")
    case True
    then show ?thesis using assms by (auto simp: apply_tool_denial_def d bindM_Inr_iff returnM_app)
  next
    case False
    then show ?thesis using assms cr by (simp add: apply_tool_denial_def d bindM_getM)
  qed
  then obtain u v where 1: "record_context c' s = (Inr (), u)"
    and 2: "append_tool_result_message rt call r' plain_continue False False u = (Inr v, t)" and r: "r = r'"
    by (auto simp: bindM_Inr_iff returnM_app)
  show "replies rt [call] s t" by (rule replies_before [OF sl.keepsD [OF silent_record 1] answer_says [OF 2]])
  show "\<not> answered_by_finish call r"
    using cr r by (auto simp: denied_tool_result_def Let_def tool_error_def answered_by_finish_def)
qed

text \<open>The calls a step answers: the call, unless it was the accepted finish.\<close>

definition owed :: "ToolCall \<Rightarrow> ToolResult \<Rightarrow> ToolCall list" where
  "owed call r = (if answered_by_finish call r then [] else [call])"

lemma enforce_says:
  assumes "enforce_tool_settings rt call internal s = (Inr p, t)"
  shows "p = None \<Longrightarrow> silent s t" and "p = Some (Ran c r) \<Longrightarrow> replies rt (owed call r) s t"
proof -
  have quiet: "only_world s u \<Longrightarrow> silent s u" for u
    by (auto simp: only_world_def silent_def says_def)
  show "p = None \<Longrightarrow> silent s t"
    using assms by (cases rule: enforce_cases) (auto dest: quiet)
  assume p: "p = Some (Ran c r)"
  from assms show "replies rt (owed call r) s t"
  proof (cases rule: enforce_cases)
    case (denied c' d y v)
    then have den: "apply_tool_denial rt call d v = (Inr (Ran c r), t)" using p by (auto split: sum.splits)
    show ?thesis using denial_says [OF den] replies_before [OF quiet [OF denied(6)]] by (auto simp: owed_def)
  qed (use p in auto)
qed

lemma run_call_says:
  assumes "run_call rt inp call internal d s = (Inr (Ran c r), t)"
  shows "replies rt (owed call r) s t"
proof -
  from assms obtain c1 r1 a u c2 v where 1: "tool_attempts (ri_retry_fuel inp) rt inp call internal d s = (Inr (c1, r1, a), u)"
    and 2: "answer_call rt call c1 r1 a u = (Inr c2, v)" and 3: "settle_call rt internal a r1 c2 v = (Inr (Ran c r), t)"
    by (auto simp: run_call_def elim!: bindM_InrE)
  have r: "r1 = r" using settle_call_cases(2) [OF 3] by simp
  have go: "md_action a \<noteq> ABORT_RUN" using 3 by (auto simp: settle_call_def bindM_Inr_iff returnM_app)
  have "replies rt (owed call r) u v"
  proof (cases "answered_by_finish call r")
    case True
    then show ?thesis using 2 r by (auto simp: answer_call_def returnM_app owed_def replies_Nil sl.R_refl)
  next
    case False
    then show ?thesis using 2 r go by (auto simp: answer_call_def owed_def bindM_Inr_iff returnM_app dest: answer_says)
  qed
  then show ?thesis
    using replies_before [OF sl.keepsD [OF silent_quiet [OF only_world_attempts] 1]] replies_after sl.keepsD [OF silent_settle 3]
    by blast
qed

lemma process_says:
  assumes "process_tool_call rt inp call s = (Inr (Ran c r), t)"
  shows "replies rt (owed call r) s t"
proof -
  let ?call = "prepare_call (lp_tools s) call"
  let ?internal = "tool_name_is_internal (lp_tools s) (tc_tool_name ?call)"
  have owed: "replies rt (owed ?call r) a b = replies rt (owed call r) a b" for a b :: "'a LoopState"
    by (simp add: owed_def answered_by_finish_def replies_prepared)
  obtain p u where p: "enforce_tool_settings rt ?call ?internal s = (Inr p, u)"
    and rest: "(case p of Some p \<Rightarrow> returnM p | None \<Rightarrow> admit_call rt inp ?call ?internal) u = (Inr (Ran c r), t)"
    using assms unfolding process_tool_call_stages Let_def by (rule bindM_InrE)
  show ?thesis
  proof (cases p)
    case (Some q)
    then have "q = Ran c r" "t = u" using rest by (auto simp: returnM_app)
    then show ?thesis using enforce_says(2) [OF p] Some by (simp add: owed)
  next
    case None
    then have "admit_call rt inp ?call ?internal u = (Inr (Ran c r), t)" using rest by simp
    then obtain d v where d: "hook rt inp BEFORE_TOOL_CALL (\<lambda>c. c\<lparr>cx_tool_call := Some ?call, cx_tool_is_internal := ?internal\<rparr>) u = (Inr d, v)"
      and run: "run_call rt inp ?call ?internal d v = (Inr (Ran c r), t)"
      by (auto simp: admit_call_def bindM_Inr_iff returnM_app split: if_splits)
    have "silent s v"
      using sl.R_trans [OF enforce_says(1) [OF p None] sl.keepsD [OF silent_quiet [OF only_world_hook] d]] .
    then show ?thesis using replies_before run_call_says [OF run] owed by blast
  qed
qed

text \<open>A refused finish answers the finish and the calls after it.\<close>

lemma finish_says:
  assumes "finish_by_call rt inp m call r skipped s = (Inr Refused, t)"
  shows "\<exists>u. replies rt (call # skipped) s u \<and> chats u t"
proof -
  from assms obtain d s1 where 1: "after_iteration rt inp (lp_messages s) s = (Inr d, s1)"
    and "md_action d = CONTINUE"
    and rest: "bindM (judge_contracts rt (tres_output r)) (\<lambda>verdict.
       case verdict of
         Exhausted \<Rightarrow> bindM (final_result rt (tres_output r) [] CONTRACT_UNSATISFIED) (\<lambda>stop. returnM (Returns stop None))
       | Unmet missing counters \<Rightarrow>
           bindM (refuse_call rt call (tool_error (tc_tool_name call) (feedback missing counters) []) skipped) (\<lambda>_.
           returnM Refused)
       | Met \<Rightarrow>
           bindM (final_result rt (tres_output r) m IS_DONE) (\<lambda>final.
           bindM (getM lp_messages) (\<lambda>shown.
           bindM (refuse_call rt call (not_accepted call) skipped) (\<lambda>_.
           bindM (review rt inp (\<lambda>c. c\<lparr>cx_tool_call := Some call, cx_tool_result := Some r\<rparr>)) (\<lambda>rv.
           case rv of
             Stop _ \<Rightarrow> bindM (unverified_finish_result rt (tres_output r)) (\<lambda>stop. returnM (Returns stop (Some shown)))
           | ContinueWith reason \<Rightarrow> bindM (append_message (user_message reason)) (\<lambda>_. returnM Refused)
           | Accept \<Rightarrow>
               bindM (continue_finish_attempt final) (\<lambda>again.
               returnM (if again then Refused else Returns final (Some shown)))))))) s1 = (Inr Refused, t)"
    unfolding finish_by_call_def bindM_getM by (auto simp: bindM_Inr_iff returnM_app split: if_splits)
  obtain v s2 where 2: "judge_contracts rt (tres_output r) s1 = (Inr v, s2)"
    using rest by (auto elim!: bindM_InrE)
  have s2: "silent s s2"
    using sl.R_trans [OF sl.keepsD [OF silent_quiet [OF only_world_after_iteration] 1] sl.keepsD [OF silent_judge 2]] .
  show ?thesis
  proof (cases v)
    case Exhausted
    then show ?thesis using rest 2 by (auto simp: bindM_Inr_iff returnM_app)
  next
    case (Unmet missing counters)
    then have "replies rt (call # skipped) s2 t"
      using rest 2 by (auto simp: bindM_Inr_iff returnM_app dest!: refuse_says)
    then show ?thesis using replies_before [OF s2] by (intro exI [of _ t] conjI ch.R_refl) blast
  next
    case Met
    then obtain f s3 s4 rv s5 where 3: "final_result rt (tres_output r) m IS_DONE s2 = (Inr f, s3)"
      and 4: "refuse_call rt call (not_accepted call) skipped s3 = (Inr (), s4)"
      and 5: "review rt inp (\<lambda>c. c\<lparr>cx_tool_call := Some call, cx_tool_result := Some r\<rparr>) s4 = (Inr rv, s5)"
      and 6: "(case rv of
             Stop _ \<Rightarrow> bindM (unverified_finish_result rt (tres_output r)) (\<lambda>stop. returnM (Returns stop (Some (lp_messages s3))))
           | ContinueWith reason \<Rightarrow> bindM (append_message (user_message reason)) (\<lambda>_. returnM Refused)
           | Accept \<Rightarrow>
               bindM (continue_finish_attempt f) (\<lambda>again.
               returnM (if again then Refused else Returns f (Some (lp_messages s3))))) s5 = (Inr Refused, t)"
      using rest 2 by (auto simp: bindM_Inr_iff getM_app)
    obtain reason where "rv = ContinueWith reason"
      using 6 by (cases rv) (auto simp: bindM_Inr_iff returnM_app continue_finish_attempt_def)
    then have "append_message (user_message reason) s5 = (Inr (), t)" using 6 by (auto simp: bindM_Inr_iff returnM_app)
    then have "chats s5 t" using ch.keepsD [OF chats_append(1)] by blast
    moreover have "replies rt (call # skipped) s s5"
      using replies_after [OF replies_before [OF s2 replies_before [OF sl.keepsD [OF silent_quiet [OF only_world_final] 3] refuse_says [OF 4]]]
          sl.keepsD [OF silent_quiet [OF only_world_review] 5]] .
    ultimately show ?thesis by blast
  qed
qed

lemma not_processed: "finish_by_call rt inp m call r skipped s \<noteq> (Inr Processed, t)"
proof
  assume "finish_by_call rt inp m call r skipped s = (Inr Processed, t)"
  then show False
    by (auto simp: finish_by_call_def bindM_Inr_iff getM_app returnM_app continue_finish_attempt_def
        split: if_splits contract_verdict.splits FinishReview.splits
        intro: contract_verdict.exhaust FinishReview.exhaust)
qed

lemma chats_before: "silent s t \<Longrightarrow> chats t u \<Longrightarrow> chats s u"
  by (auto simp: silent_def chats_def says_def)

lemma calls_say:
  "run_tool_calls rt inp m cs s = (Inr e, t) \<Longrightarrow> e = Processed \<or> e = Refused \<Longrightarrow> \<exists>u. replies rt cs s u \<and> chats u t"
proof (induction cs arbitrary: s)
  case Nil
  then show ?case by (auto simp: returnM_app replies_Nil intro!: exI [of _ t] sl.R_refl ch.R_refl)
next
  case (Cons c cs)
  obtain p u where p: "process_tool_call rt inp c s = (Inr p, u)"
    and rest: "(case p of Ended r \<Rightarrow> returnM (Returns r None) | Ran _ r \<Rightarrow>
         if answered_by_finish c r then finish_by_call rt inp m c r cs else run_tool_calls rt inp m cs) u = (Inr e, t)"
    using Cons.prems(1) unfolding run_tool_calls.simps by (rule bindM_InrE)
  obtain c' r where ran: "p = Ran c' r" using rest Cons.prems(2) by (cases p) (auto simp: returnM_app)
  note said = process_says [OF p [unfolded ran]]
  show ?case
  proof (cases "answered_by_finish c r")
    case True
    then have f: "finish_by_call rt inp m c r cs u = (Inr e, t)" using rest ran by simp
    have "e = Refused" using f Cons.prems(2) not_processed by blast
    then show ?thesis using finish_says f replies_before said True by (fastforce simp: owed_def replies_Nil)
  next
    case False
    then have "replies rt [c] s u" using said by (simp add: owed_def)
    moreover obtain v where "replies rt cs u v" "chats v t" using Cons.IH Cons.prems(2) rest ran False by auto
    ultimately show ?thesis using replies_Cons by blast
  qed
qed

subsection \<open>The conversation of a run\<close>

text \<open>
  What the code relies on of the services: the payloads of a runner are those of its provider, for
  the first model and for the models of the chain.
\<close>

definition shaped_answers :: "string \<Rightarrow> (string \<Rightarrow> CallOptions \<Rightarrow> 'w \<Rightarrow> (exn + raw_result) \<times> 'w) \<Rightarrow> bool" where
  "shaped_answers provider invoke \<longleftrightarrow> (\<forall>msg call_options w r u payload.
     invoke msg call_options w = (Inr (Answered r), u) \<longrightarrow> rs_raw r = VDict payload \<longrightarrow>
     provider_shaped (wire_format (Some provider)) payload)"

definition chain_shaped :: "'w Runtime \<Rightarrow> bool" where
  "chain_shaped rt \<longleftrightarrow> (\<forall>f i target invoke. ag_fallback rt = Some f \<longrightarrow> model_at f i = Inr target \<longrightarrow>
     fb_build_runner f i = Inr invoke \<longrightarrow> shaped_answers (fm_provider target) invoke)"

definition conversation_answered :: "'w Runtime \<Rightarrow> 'w LoopState \<Rightarrow> bool" where
  "conversation_answered rt s \<longleftrightarrow> answered (ag_show rt) (wire_format (Some (lp_provider s))) [] (lp_messages s)"

definition well_spoken :: "'w Runtime \<Rightarrow> 'w LoopState \<Rightarrow> bool" where
  "well_spoken rt s \<longleftrightarrow> conversation_answered rt s \<and> rh_provider (lp_handle s) = lp_provider s \<and>
     shaped_answers (lp_provider s) (rh_invoke (lp_handle s))"

lemma well_spoken_silent: "silent s t \<Longrightarrow> well_spoken rt s \<Longrightarrow> well_spoken rt t"
  by (simp add: silent_def says_def well_spoken_def conversation_answered_def)

lemma well_spoken_chats:
  assumes "chats s t" "well_spoken rt s" shows "well_spoken rt t"
proof -
  obtain ms where "list_all plain_message ms" "says ms s t" using assms(1) by (auto simp: chats_def)
  then show ?thesis using assms(2)
    by (simp add: answered_append answered_plain says_def well_spoken_def conversation_answered_def)
qed

lemma well_spoken_switch:
  assumes "switches rt inp e s t" "chain_shaped rt" "well_spoken rt s" shows "well_spoken rt t"
  using assms
  by (auto simp: switches_def switched_def chain_shaped_def well_spoken_def conversation_answered_def is_wire_compatible_def Let_def)

lemma well_spoken_turn:
  assumes "says [turn] s u" "turn_ids (ag_show rt) (wire_format (Some (lp_provider s))) turn =
      map (call_key (wire_format (Some (lp_provider s)))) calls"
    and "replies rt calls u v" "well_spoken rt s"
  shows "well_spoken rt v"
proof -
  let ?show = "ag_show rt" and ?f = "wire_format (Some (lp_provider s))"
  obtain ms where ms: "says ms u v" "answers rt u calls ms" using assms(3) by (auto simp: replies_def)
  have prov: "lp_provider u = lp_provider s" using assms(1) by (simp add: says_def)
  have "answered ?show ?f (turn_ids ?show ?f turn) ms"
    using ms(2) assms(2) prov by (intro answered_answers) (simp add: answers_def)
  then have "answered ?show ?f [] (lp_messages s @ turn # ms)"
    using answered_append [of ?show ?f "[]" "lp_messages s" "turn # ms"] assms(4)
    by (simp add: well_spoken_def conversation_answered_def)
  then show ?thesis using assms(1,4) ms(1) by (simp add: says_def well_spoken_def conversation_answered_def)
qed

lemma silent_leave:
  assumes "leave_turn rt inp e s = (Inr None, t)"
  shows "e = Processed \<or> e = Refused" and "silent s t"
proof -
  show e: "e = Processed \<or> e = Refused"
    using assms by (auto simp: leave_turn_def return_result_Some split: turn_end.splits option.splits)
  have "sl.keeps (close_turn rt inp)" unfolding close_turn_def
    by (intro silent_adopt sl.keeps_rules silent_quiet quiet)
  moreover have "sl.keeps (bindM (adopt_agent_catalog rt) (\<lambda>_. returnM (None :: AgentResult option)))"
    by (intro silent_adopt sl.keeps_rules)
  ultimately show "silent s t"
    using e assms sl.keepsD [of "close_turn rt inp" s] sl.keepsD [of "bindM (adopt_agent_catalog rt) (\<lambda>_. returnM None)" s]
    by (auto simp: leave_turn_def)
qed

lemma well_spoken_tools:
  assumes run: "tool_turn rt inp r calls s = (Inr None, t)" and ws: "well_spoken rt s" and origin: "from_model inp s r"
    and parsed: "parse_tool_calls (ag_show rt) (ag_loads rt) (rs_raw r) (lp_provider s) = Inr calls" and some: "calls \<noteq> []"
  shows "well_spoken rt t"
proof -
  have shaped: "provider_shaped (wire_format (Some (lp_provider s))) payload" if "rs_raw r = VDict payload" for payload
    using ws origin that unfolding well_spoken_def shaped_answers_def from_model_def by blast
  obtain payload turn where raw: "rs_raw r = VDict payload"
    and turn: "format_assistant_tool_calls (ag_show rt) (ag_dumps rt) (rs_raw r) (lp_provider s) = Some turn"
    using echo_exists [OF parsed some shaped] by blast
  have ids: "turn_ids (ag_show rt) (wire_format (Some (lp_provider s))) turn
      = map (call_key (wire_format (Some (lp_provider s)))) calls"
    using echoed_ids parsed turn shaped raw by metis
  obtain u where u: "echo_calls rt r s = (Inr (), u)" "says [turn] s u"
    using turn by (auto simp: echo_calls_def bindM_getM append_message_def updM_app says_def)
  obtain e v where e: "run_tool_calls rt inp (rs_metadata r) calls u = (Inr e, v)" and leave: "leave_turn rt inp e v = (Inr None, t)"
    using run u by (auto simp: tool_turn_def bindM_Inr elim!: bindM_InrE)
  note end' = silent_leave [OF leave]
  obtain w where "replies rt calls u w" "chats w v" using calls_say [OF e end'(1)] by blast
  then show ?thesis
    using well_spoken_silent [OF end'(2)] well_spoken_chats well_spoken_turn [OF u(2) ids _ ws] by blast
qed

interpretation spoken: pass_rule rt inp "\<lambda>s. chain_shaped rt \<longrightarrow> well_spoken rt s" "\<lambda>_. True"
  for rt :: "'w Runtime" and inp
proof
  fix s t :: "'w LoopState" and e r x calls
  let ?P = "\<lambda>s. chain_shaped rt \<longrightarrow> well_spoken rt s"
  show "accounting s t \<Longrightarrow> ?P s \<Longrightarrow> ?P t" using well_spoken_silent [OF silent_accounting] by blast
  show "?P s \<Longrightarrow> ?P (s\<lparr>lp_iteration_count := lp_iteration_count s + 1\<rparr>)"
    by (simp add: well_spoken_def conversation_answered_def)
  show "switches rt inp e s t \<Longrightarrow> ?P s \<Longrightarrow> ?P t" using well_spoken_switch by blast
  show "finish_plain rt inp r s = (x, t) \<Longrightarrow> ?P s \<Longrightarrow> if x = Inr None then ?P t else True"
    using well_spoken_chats [of s t rt] ch.keepsD [OF chats_finish_plain, of rt inp r s x t] by simp
  show "tool_turn rt inp r calls s = (x, t) \<Longrightarrow> ?P s \<Longrightarrow> from_model inp s r \<Longrightarrow> calls \<noteq> [] \<Longrightarrow>
      parse_tool_calls (ag_show rt) (ag_loads rt) (rs_raw r) (lp_provider s) = Inr calls \<Longrightarrow>
      if x = Inr None then ?P t else True"
    using well_spoken_tools [of rt inp r calls s t] by simp
qed simp

end
