(* ===== verification/AG_Budgets.thy ===== *)
theory AG_Budgets
  imports AG_Guards
begin

text \<open>
  The budgets of tool calls over a whole run.  A predicate on the ledger that every single call keeps
  holds in every state the run reaches; the budgets are such predicates.
\<close>

subsection \<open>From one call to the run\<close>

text \<open>\<open>P\<close> holds as long as calls go on, \<open>Q\<close> when one of them ends the run.\<close>

locale turn_rule =
  fixes rt :: "'w Runtime" and inp :: RunInput
    and P :: "'w LoopState \<Rightarrow> bool" and Q :: "'w LoopState \<Rightarrow> bool"
  assumes weaken: "P s \<Longrightarrow> Q s"
    and same: "same_ledger s t \<Longrightarrow> P s \<Longrightarrow> P t"
    and same_end: "same_ledger s t \<Longrightarrow> Q s \<Longrightarrow> Q t"
    and counted: "P s \<Longrightarrow> P (s\<lparr>lp_iteration_count := lp_iteration_count s + 1\<rparr>)"
    and process: "process_tool_call rt inp call s = (x, t) \<Longrightarrow> P s \<Longrightarrow> if \<exists>c r. x = Inr (Ran c r) then P t else Q t"
    and adopt: "adopt_agent_catalog rt s = (y, t) \<Longrightarrow> P s \<Longrightarrow> P t"
begin

lemma calls:
  "run_tool_calls rt inp m cs s = (x, t) \<Longrightarrow> P s \<Longrightarrow> if x = Inr Processed \<or> x = Inr Refused then P t else Q t"
proof (induction cs arbitrary: s)
  case Nil
  then show ?case by (auto simp: returnM_app)
next
  case (Cons c cs)
  obtain y u where y: "process_tool_call rt inp c s = (y, u)" by fastforce
  note u = process [OF y Cons.prems(2)]
  consider (inl) h where "y = Inl h" | (ended) r where "y = Inr (Ended r)" | (ran) c' r where "y = Inr (Ran c' r)"
    by (metis processed.exhaust sum.exhaust)
  then show ?case
  proof cases
    case inl
    then show ?thesis using Cons.prems(1) y u by (auto simp: bindM_Inl)
  next
    case ended
    then show ?thesis using Cons.prems(1) y u by (auto simp: bindM_Inr returnM_app)
  next
    case ran
    then have "P u" using u by simp
    have run: "(if answered_by_finish c r then finish_by_call rt inp m c r cs else run_tool_calls rt inp m cs) u = (x, t)"
      using Cons.prems(1) y ran by (simp add: bindM_Inr)
    show ?thesis
    proof (cases "answered_by_finish c r")
      case True
      then have "same_ledger u t" using run lg.keepsD [OF ledger_finish_by_call] by simp
      then show ?thesis using same \<open>P u\<close> weaken by auto
    next
      case False
      then show ?thesis using run Cons.IH \<open>P u\<close> by simp
    qed
  qed
qed

lemma kept: "lg.keeps m \<Longrightarrow> m s = (x, t) \<Longrightarrow> P s \<Longrightarrow> P t"
  using same lg.keepsD by blast

lemma closing: "close_turn rt inp s = (x, t) \<Longrightarrow> P s \<Longrightarrow> P t"
proof -
  have adopt: "(a, b) = adopt_agent_catalog rt w \<Longrightarrow> P w \<Longrightarrow> P b" for a b w using adopt by metis
  have kept': "lg.keeps m \<Longrightarrow> (a, b) = m w \<Longrightarrow> P w \<Longrightarrow> P b" for m :: "('w, 'c) run" and a b w using kept by metis
  note end_it = kept [OF ledger_quiet [OF only_world_end_iteration]] and spend = kept [OF ledger_quiet [OF only_world_spend]]
    and ret = kept [OF ledger_quiet [OF only_world_return(1)]]
  assume run: "close_turn rt inp s = (x, t)" and "P s"
  obtain a u where a: "end_iteration rt inp s = (a, u)" by fastforce
  then have "P u" using end_it \<open>P s\<close> by blast
  obtain b v where b: "spend_cap_stop rt u = (b, v)" by fastforce
  then have "P v" using spend \<open>P u\<close> by blast
  obtain c w where c: "adopt_agent_catalog rt v = (c, w)" by fastforce
  then have "P w" using adopt \<open>P v\<close> by metis
  have ret: "return_result rt inp r v = (x, t) \<Longrightarrow> P t" for r using ret \<open>P v\<close> by blast
  show "P t" using run a b c \<open>P u\<close> \<open>P v\<close> \<open>P w\<close>
    by (auto simp: close_turn_def bindM_def returnM_app after_tool_iteration_def dest: ret split: sum.splits option.splits prod.splits)
qed

lemma leaving:
  assumes "leave_turn rt inp e s = (x, t)" and "if e = Processed \<or> e = Refused then P s else Q s"
  shows "if x = Inr None then P t else Q t"
proof (cases e)
  case (Returns stop shown)
  have "same_ledger s t" using assms(1) Returns
    by (cases shown) (auto simp: leave_turn_def dest: lg.keepsD [OF ledger_quiet [OF only_world_return(1)]]
        lg.keepsD [OF ledger_quiet [OF only_world_return(2)]])
  moreover have "x \<noteq> Inr None" using assms(1) Returns by (cases shown) (auto simp: leave_turn_def return_result_Some)
  ultimately show ?thesis using assms(2) Returns same_end by simp
next
  case Refused
  obtain c w where c: "adopt_agent_catalog rt s = (c, w)" by fastforce
  then have "P w" using adopt assms(2) Refused by auto
  moreover have "t = w" using assms(1) Refused c by (auto simp: leave_turn_def bindM_def returnM_app split: sum.splits)
  ultimately show ?thesis using weaken by simp
next
  case Processed
  then show ?thesis using assms closing weaken by (auto simp: leave_turn_def)
qed

lemma turn:
  assumes "tool_turn rt inp r cs s = (x, t)" and "P s"
  shows "if x = Inr None then P t else Q t"
proof -
  have keep: "lg.keeps (echo_calls rt r)" unfolding echo_calls_def by (intro lg.keeps_rules ledgered)
  obtain u where u: "echo_calls rt r s = (Inr (), u)"
    by (cases "format_assistant_tool_calls (ag_show rt) (ag_dumps rt) (rs_raw r) (lp_provider s)")
      (auto simp: echo_calls_def append_message_def bindM_getM updM_app returnM_app)
  have "P u" using kept [OF keep u assms(2)] .
  obtain e v where e: "run_tool_calls rt inp (rs_metadata r) cs u = (e, v)" by fastforce
  note v = calls [OF e \<open>P u\<close>]
  show ?thesis
  proof (cases e)
    case (Inl h)
    then show ?thesis using assms(1) u e v by (auto simp: tool_turn_def bindM_Inr bindM_Inl)
  next
    case (Inr en)
    then have run: "leave_turn rt inp en v = (x, t)" using assms(1) u e by (simp add: tool_turn_def bindM_Inr)
    show ?thesis by (rule leaving [OF run]) (use v Inr in simp)
  qed
qed

end

lemma switch_ledger: "switches rt inp e s t \<Longrightarrow> same_ledger s t"
  by (auto simp: switches_def switched_def same_ledger_def ledger_def Let_def)

sublocale turn_rule \<subseteq> run: pass_rule rt inp P Q
proof
  fix s t e r cs x
  show "P s \<Longrightarrow> Q s" by (rule weaken)
  show "accounting s t \<Longrightarrow> P s \<Longrightarrow> P t" using same ledger_accounting by blast
  show "P s \<Longrightarrow> P (s\<lparr>lp_iteration_count := lp_iteration_count s + 1\<rparr>)" by (rule counted)
  show "switches rt inp e s t \<Longrightarrow> P s \<Longrightarrow> P t" using same switch_ledger by blast
  show "finish_plain rt inp r s = (x, t) \<Longrightarrow> P s \<Longrightarrow> if x = Inr None then P t else Q t"
    using same [OF lg.keepsD [OF ledger_finish_plain]] weaken by simp
  show "tool_turn rt inp r cs s = (x, t) \<Longrightarrow> P s \<Longrightarrow> from_model inp s r \<Longrightarrow> cs \<noteq> [] \<Longrightarrow>
      parse_tool_calls (ag_show rt) (ag_loads rt) (rs_raw r) (lp_provider s) = Inr cs \<Longrightarrow>
      if x = Inr None then P t else Q t" by (rule turn)
qed

subsection \<open>The budgets\<close>

text \<open>
  A run whose catalog does not change, with limits that are at least 1.
\<close>

definition positive :: "int option \<Rightarrow> bool" where
  "positive n \<longleftrightarrow> (\<forall>i. n = Some i \<longrightarrow> 1 \<le> i)"

definition settings_positive :: "ToolSettings \<Rightarrow> bool" where
  "settings_positive ts \<longleftrightarrow> positive (ts_max_calls ts) \<and> positive (ts_max_calls_per_iteration ts) \<and>
     positive (ts_max_identical_calls ts) \<and> positive (ts_max_consecutive_failures ts) \<and>
     positive (ts_max_error_calls ts) \<and> positive (ts_sliding_window_max_calls ts) \<and>
     (\<forall>n limit. map_of (ts_max_calls_per_tool ts) n = Some limit \<longrightarrow> positive limit)"

definition limits_positive :: "AgentRuntimeConfig \<Rightarrow> bool" where
  "limits_positive c \<longleftrightarrow> positive (ac_max_tool_calls c) \<and>
     (\<forall>ts. ac_tool_settings c = Some ts \<longrightarrow> settings_positive ts)"

definition fixed_run :: "'w Runtime \<Rightarrow> bool" where
  "fixed_run rt \<longleftrightarrow> ag_catalog rt = None \<and> limits_positive (ag_config rt)"

text \<open>The constructors accept only such limits.\<close>

lemma normalize_int_positive:
  "normalize_int v field 1 = Inr n \<Longrightarrow> positive n"
  by (auto simp: normalize_int_def positive_def Let_def split: if_splits option.splits pyval.splits)

lemma call_limits_positive:
  "call_limits limits d = Inr out \<Longrightarrow> (\<And>n l. map_of limits n = Some l \<Longrightarrow> positive l) \<Longrightarrow> map_of out n = Some l \<Longrightarrow> positive l"
proof (induction limits d rule: call_limits.induct)
  case (2 limits raw_name raw_limit rest)
  from 2(2) obtain k where name: "strip raw_name \<noteq> []" and k: "normalize_int raw_limit (''max_calls_per_tool['' @ quoted (strip raw_name) @ '']'') 1 = Inr k"
    and rest: "call_limits (dict_put (strip raw_name) k limits) rest = Inr out"
    by (auto simp: Let_def elim!: bindE_InrE split: if_splits)
  show ?case
  proof (rule 2(1) [OF refl name k rest _ 2(4)])
    fix n l assume "map_of (dict_put (strip raw_name) k limits) n = Some l"
    then show "positive l" using 2(3) normalize_int_positive [OF k] by (auto split: if_splits)
  qed
qed auto

lemma normalize_call_limits_positive: "normalize_call_limits v = Inr limits \<Longrightarrow> map_of limits n = Some l \<Longrightarrow> positive l"
  by (auto simp: normalize_call_limits_def split: pyval.splits if_splits dest: call_limits_positive)

lemma mk_ToolSettings_positive:
  assumes "mk_ToolSettings show repr raw = Inr ts" shows "settings_positive ts"
proof -
  have "normalize_call_limits (raw_max_calls_per_tool raw) = Inr (ts_max_calls_per_tool ts)"
    using assms by (auto simp: mk_ToolSettings_def elim!: bindE_InrE split: if_splits)
  then have "\<forall>n limit. map_of (ts_max_calls_per_tool ts) n = Some limit \<longrightarrow> positive limit"
    using normalize_call_limits_positive by blast
  then show ?thesis using assms
    by (auto simp: mk_ToolSettings_def settings_positive_def elim!: bindE_InrE dest!: normalize_int_positive split: if_splits)
qed

lemma positive_or_Inr: "positive_or field v = Inr u \<Longrightarrow> positive v"
  by (auto simp: positive_or_def positive_def split: option.splits if_splits)

lemma runtime_config_positive:
  assumes "to_runtime_config received s = Inr c" "\<And>ts. ls_tool_settings s = Some ts \<Longrightarrow> \<exists>show repr raw. mk_ToolSettings show repr raw = Inr ts"
  shows "limits_positive c"
proof -
  have "positive (ac_max_tool_calls c)" "ac_tool_settings c = ls_tool_settings s"
    using assms(1) by (auto simp: to_runtime_config_def mk_AgentRuntimeConfig_def Let_def elim!: bindE_InrE dest!: positive_or_Inr)
  then show ?thesis using assms(2) mk_ToolSettings_positive by (fastforce simp: limits_positive_def)
qed

lemma adopt_fixed: "fixed_run rt \<Longrightarrow> adopt_agent_catalog rt s = (x, t) \<Longrightarrow> t = s"
  by (auto simp: fixed_run_def adopt_agent_catalog_def world_def bindM_getM getM_app returnM_app Let_def)

lemma tool_limits_positive: "fixed_run rt \<Longrightarrow> n \<in> set (tool_limits rt) \<Longrightarrow> 1 \<le> n"
  by (cases "ac_tool_settings (ag_config rt)"; cases "ac_max_tool_calls (ag_config rt)")
    (auto simp: tool_limits_def fixed_run_def limits_positive_def settings_positive_def positive_def split: option.splits)

lemma finite_limits: "tool_limits rt = [] \<or> k < Min (set (tool_limits rt)) \<Longrightarrow> n \<in> set (tool_limits rt) \<Longrightarrow> k < n"
  by (auto intro: less_le_trans Min_le)

text \<open>Counting over one more record.\<close>

lemma count_append [simp]: "count P (xs @ [x]) = count P xs + (if P x then 1 else 0)"
  by (simp add: count_def)

lemma count_Nil [simp]: "count P [] = 0"
  by (simp add: count_def)

lemma count_mono: "(\<And>x. x \<in> set xs \<Longrightarrow> P x \<Longrightarrow> R x) \<Longrightarrow> count P xs \<le> count R xs"
  by (induction xs) (auto simp: count_def)

lemma countable_append: "countable_contexts (cs @ [c]) = countable_contexts cs @ (if is_excluded_context c then [] else [c])"
  by (simp add: countable_contexts_def)

lemma non_internal_append: "non_internal_tool_contexts tools (cs @ [c]) =
    non_internal_tool_contexts tools cs @ (if tool_name_is_internal tools (tx_tool_name c) then [] else [c])"
  by (simp add: non_internal_tool_contexts_def)

lemma internal_excluded: "call_record rt call internal s c \<Longrightarrow> internal \<Longrightarrow> is_excluded_context c"
  by (simp add: call_record_def is_excluded_context_def truthy_meta_def truthy_text_def)

lemma denied_excluded: "denied_record call s c \<Longrightarrow> is_excluded_context c"
  by (simp add: denied_record_def is_excluded_context_def)

text \<open>The number of calls.\<close>

definition calls_in_limit :: "'w Runtime \<Rightarrow> 'w LoopState \<Rightarrow> bool" where
  "calls_in_limit rt s \<longleftrightarrow>
     list_all (\<lambda>n. int (length (non_internal_tool_contexts (lp_tools s) (lp_contexts s))) \<le> n) (tool_limits rt)"

text \<open>How often the countable calls of one iteration, of one window, and of one fingerprint occur.\<close>

definition iterations_past :: "'w LoopState \<Rightarrow> bool" where
  "iterations_past s \<longleftrightarrow>
     (\<forall>c \<in> set (lp_contexts s). \<exists>i. tx_iteration_count c = Some i \<and> i \<le> lp_iteration_count s)"

definition iteration_in_limit :: "ToolSettings \<Rightarrow> 'w LoopState \<Rightarrow> bool" where
  "iteration_in_limit ts s \<longleftrightarrow> (\<forall>limit i. ts_max_calls_per_iteration ts = Some limit \<longrightarrow>
     count (\<lambda>c. tx_iteration_count c = Some i) (countable_contexts (lp_contexts s)) \<le> limit)"

definition window_in_limit :: "ToolSettings \<Rightarrow> 'w LoopState \<Rightarrow> bool" where
  "window_in_limit ts s \<longleftrightarrow> (\<forall>limit window i. ts_sliding_window_max_calls ts = Some limit \<longrightarrow>
     ts_sliding_window_iterations ts = Some window \<longrightarrow>
     count (in_window (max 1 (i - window + 1)) i) (countable_contexts (lp_contexts s)) \<le> limit)"

definition repeats_in_limit :: "(string \<Rightarrow> dict \<Rightarrow> string) \<Rightarrow> ToolSettings \<Rightarrow> 'w LoopState \<Rightarrow> bool" where
  "repeats_in_limit fp ts s \<longleftrightarrow> (\<forall>limit k. ts_max_identical_calls ts = Some limit \<longrightarrow>
     count (\<lambda>c. fp (tx_tool_name c) (tx_arguments c) = k) (countable_contexts (lp_contexts s)) \<le> limit)"

definition calls_in_budget :: "'w Runtime \<Rightarrow> 'w LoopState \<Rightarrow> bool" where
  "calls_in_budget rt s \<longleftrightarrow> iterations_past s \<and> calls_in_limit rt s \<and>
     (\<forall>ts. ac_tool_settings (ag_config rt) = Some ts \<longrightarrow>
        iteration_in_limit ts s \<and> window_in_limit ts s \<and> repeats_in_limit (ag_fingerprint rt) ts s)"

text \<open>A record that the budgets do not count.\<close>

lemma uncounted:
  assumes "calls_in_budget rt s" "is_excluded_context c" "extends_ledger s c t" "tx_iteration_count c = Some (lp_iteration_count s)"
    and "tool_name_is_internal (lp_tools s) (tx_tool_name c) \<or> under_limits rt call s"
  shows "calls_in_budget rt t"
proof -
  have t: "lp_contexts t = lp_contexts s @ [c]" "lp_tools t = lp_tools s" "lp_iteration_count t = lp_iteration_count s"
    using assms(3) by (simp_all add: extends_ledger_def ledger_def)
  have "calls_in_limit rt t"
  proof (cases "tool_name_is_internal (lp_tools s) (tx_tool_name c)")
    case True
    then show ?thesis using assms(1) by (simp add: calls_in_budget_def calls_in_limit_def t non_internal_append)
  next
    case False
    then have "under_limits rt call s" using assms(5) by simp
    then show ?thesis using False finite_limits
      by (fastforce simp: under_limits_def calls_in_limit_def t non_internal_append list_all_iff)
  qed
  moreover have "countable_contexts (lp_contexts t) = countable_contexts (lp_contexts s)"
    using assms(2) by (simp add: t countable_append)
  ultimately show ?thesis using assms(1,4)
    by (auto simp: calls_in_budget_def iterations_past_def iteration_in_limit_def window_in_limit_def repeats_in_limit_def t)
qed

text \<open>A counted call: each guard left room for one more.\<close>

lemma window_grows:
  assumes "window_in_limit ts s" "iterations_past s" "extends_ledger s c t" "tx_iteration_count c = Some (lp_iteration_count s)"
    and "\<not> is_excluded_context c"
    and "sliding_window_budget_stop ts (countable_contexts (lp_contexts s)) (lp_iteration_count s) = None"
  shows "window_in_limit ts t"
  unfolding window_in_limit_def
proof (intro allI impI)
  fix limit window i
  assume w: "ts_sliding_window_max_calls ts = Some limit" "ts_sliding_window_iterations ts = Some window"
  let ?n = "lp_iteration_count s" and ?cs = "countable_contexts (lp_contexts s)"
  have t: "countable_contexts (lp_contexts t) = ?cs @ [c]"
    using assms(3,5) by (simp add: extends_ledger_def ledger_def countable_append)
  have room: "count (in_window (max 1 (?n - window + 1)) ?n) ?cs < limit"
    using assms(6) w by (simp add: sliding_window_budget_stop_def Let_def split: if_splits)
  have old: "count (in_window (max 1 (i - window + 1)) i) ?cs \<le> limit"
    using assms(1) w by (simp add: window_in_limit_def)
  show "count (in_window (max 1 (i - window + 1)) i) (countable_contexts (lp_contexts t)) \<le> limit"
  proof (cases "?n \<le> i")
    case True
    have "count (in_window (max 1 (i - window + 1)) i) ?cs \<le> count (in_window (max 1 (?n - window + 1)) ?n) ?cs"
    proof (rule count_mono)
      fix x assume "x \<in> set ?cs" and x: "in_window (max 1 (i - window + 1)) i x"
      then have "x \<in> set (lp_contexts s)" by (simp add: countable_contexts_def)
      then show "in_window (max 1 (?n - window + 1)) ?n x"
        using assms(2) x True by (auto simp: iterations_past_def in_window_def dest!: bspec)
    qed
    then show ?thesis using room by (simp add: t)
  next
    case False
    then show ?thesis using old assms(4) by (simp add: t in_window_def)
  qed
qed

lemma counted_call:
  assumes "calls_in_budget rt s" "call_record rt call False s c" "extends_ledger s c t" "under_limits rt call s"
    and "\<not> tool_name_is_internal (lp_tools s) (tc_tool_name call)" "\<not> is_excluded_context c"
  shows "calls_in_budget rt t"
proof -
  have t: "lp_contexts t = lp_contexts s @ [c]" "lp_tools t = lp_tools s" "lp_iteration_count t = lp_iteration_count s"
    using assms(3) by (simp_all add: extends_ledger_def ledger_def)
  have c: "tx_tool_name c = tc_tool_name call" "tx_arguments c = tc_arguments call"
    "tx_iteration_count c = Some (lp_iteration_count s)" using assms(2) by (simp_all add: call_record_def)
  have "calls_in_limit rt t" using assms(4,5) finite_limits
    by (fastforce simp: under_limits_def calls_in_limit_def t non_internal_append list_all_iff c)
  moreover have "iterations_past t" using assms(1) by (simp add: calls_in_budget_def iterations_past_def t c)
  moreover have "iteration_in_limit ts t \<and> window_in_limit ts t \<and> repeats_in_limit (ag_fingerprint rt) ts t"
    if ts: "ac_tool_settings (ag_config rt) = Some ts" for ts
  proof -
    have old: "iteration_in_limit ts s" "window_in_limit ts s" "repeats_in_limit (ag_fingerprint rt) ts s" "iterations_past s"
      using assms(1) ts by (simp_all add: calls_in_budget_def)
    have room: "per_iteration_budget_stop ts (countable_contexts (lp_contexts s)) (lp_iteration_count s) = None"
        "sliding_window_budget_stop ts (countable_contexts (lp_contexts s)) (lp_iteration_count s) = None"
        "identical_call_budget_stop (ag_fingerprint rt) ts (tc_tool_name call) (tc_arguments call)
          (countable_contexts (lp_contexts s)) = None"
      using assms(4) ts by (simp_all add: under_limits_def budget_stop_def Let_def)
    have "iteration_in_limit ts t" using old(1) room(1) assms(6)
      by (auto simp: iteration_in_limit_def per_iteration_budget_stop_def Let_def t countable_append c split: if_splits)
    moreover have "window_in_limit ts t" by (rule window_grows [OF old(2,4) assms(3) c(3) assms(6) room(2)])
    moreover have "repeats_in_limit (ag_fingerprint rt) ts t" using old(3) room(3) assms(6)
      by (auto simp: repeats_in_limit_def identical_call_budget_stop_def Let_def t countable_append c split: if_splits)
    ultimately show ?thesis by blast
  qed
  ultimately show ?thesis by (simp add: calls_in_budget_def)
qed

lemma budget_process:
  assumes "process_tool_call rt inp call0 s = (x, t)" and "calls_in_budget rt s"
  shows "calls_in_budget rt t"
  using assms(1) refl refl
proof (cases rule: process_tool_call_cases)
  case idle
  then show ?thesis using assms(2)
    by (simp add: same_ledger_def ledger_def calls_in_budget_def calls_in_limit_def iterations_past_def
        iteration_in_limit_def window_in_limit_def repeats_in_limit_def)
next
  case (denied c)
  then show ?thesis using uncounted [OF assms(2) denied_excluded [OF denied(3)] denied(4)] by (auto simp: denied_record_def)
next
  case (called c)
  let ?call = "prepare_call (lp_tools s) call0"
  have it: "tx_iteration_count c = Some (lp_iteration_count s)" and nm: "tx_tool_name c = tc_tool_name ?call"
    using called(2) by (simp_all add: call_record_def)
  show ?thesis
  proof (cases "is_excluded_context c")
    case True
    then show ?thesis using uncounted [OF assms(2) True called(3) it] called(1) nm by metis
  next
    case False
    then have "\<not> tool_name_is_internal (lp_tools s) (tc_tool_name ?call)" using internal_excluded called(2) by blast
    then show ?thesis using counted_call [OF assms(2) _ called(3)] called(1,2) False by simp
  qed
qed

lemma budget_same: "same_ledger s t \<Longrightarrow> calls_in_budget rt s \<Longrightarrow> calls_in_budget rt t"
  by (simp add: same_ledger_def ledger_def calls_in_budget_def calls_in_limit_def iterations_past_def
      iteration_in_limit_def window_in_limit_def repeats_in_limit_def)

lemma budget_counted: "calls_in_budget rt s \<Longrightarrow> calls_in_budget rt (s\<lparr>lp_iteration_count := lp_iteration_count s + 1\<rparr>)"
  by (fastforce simp: calls_in_budget_def calls_in_limit_def iterations_past_def
      iteration_in_limit_def window_in_limit_def repeats_in_limit_def)

interpretation budget: turn_rule rt inp "\<lambda>s. fixed_run rt \<longrightarrow> calls_in_budget rt s" "\<lambda>s. fixed_run rt \<longrightarrow> calls_in_budget rt s"
  for rt :: "'w Runtime" and inp
proof
  fix s t :: "'w LoopState" and call x y
  let ?P = "\<lambda>s. fixed_run rt \<longrightarrow> calls_in_budget rt s"
  show "same_ledger s t \<Longrightarrow> ?P s \<Longrightarrow> ?P t" using budget_same by blast
  show "?P s \<Longrightarrow> ?P (s\<lparr>lp_iteration_count := lp_iteration_count s + 1\<rparr>)" using budget_counted by blast
  show "process_tool_call rt inp call s = (x, t) \<Longrightarrow> ?P s \<Longrightarrow> if \<exists>c r. x = Inr (Ran c r) then ?P t else ?P t"
    using budget_process [of rt inp call s x t] by simp
  show "adopt_agent_catalog rt s = (y, t) \<Longrightarrow> ?P s \<Longrightarrow> ?P t" using adopt_fixed by blast
qed

subsection \<open>Denials\<close>

text \<open>What ran was permitted: its name, its permission, and the number of calls of the tool.\<close>

definition executed :: "string \<Rightarrow> ToolCallContext \<Rightarrow> bool" where
  "executed name c \<longleftrightarrow> tx_tool_name c = name \<and> tx_state c \<noteq> DENIED"

definition name_allowed :: "AgentRuntimeConfig \<Rightarrow> string \<Rightarrow> bool" where
  "name_allowed c name \<longleftrightarrow>
     (case ac_allowed_tools c of None \<Rightarrow> True | Some names \<Rightarrow> name \<in> set names) \<and>
     (case ac_tool_settings c of None \<Rightarrow> True | Some ts \<Rightarrow> name \<notin> set (ts_denied_tools ts))"

definition ran_permitted :: "'w Runtime \<Rightarrow> 'w LoopState \<Rightarrow> bool" where
  "ran_permitted rt s \<longleftrightarrow>
     (\<forall>c \<in> set (lp_contexts s). tx_state c \<noteq> DENIED \<longrightarrow> permitted rt (lp_tools s) (tx_tool_name c) \<and>
        (tool_name_is_internal (lp_tools s) (tx_tool_name c) \<or> name_allowed (ag_config rt) (tx_tool_name c))) \<and>
     (\<forall>ts name limit. ac_tool_settings (ag_config rt) = Some ts \<longrightarrow> map_of (ts_max_calls_per_tool ts) name = Some (Some limit) \<longrightarrow>
        \<not> tool_name_is_internal (lp_tools s) name \<longrightarrow> count (executed name) (lp_contexts s) \<le> limit)"

lemma executed_counts_count:
  "(case map_of (executed_counts cs) name of None \<Rightarrow> 0 | Some n \<Rightarrow> n) = count (executed name) cs"
  by (induction cs rule: rev_induct) (auto simp: executed_counts_def executed_def)

lemma undenied_room:
  assumes "undenied rt call s" "ac_tool_settings (ag_config rt) = Some ts"
    "map_of (ts_max_calls_per_tool ts) (tc_tool_name call) = Some (Some limit)"
  shows "count (executed (tc_tool_name call)) (lp_contexts s) < limit"
  using assms by (auto simp: undenied_def denial_def executed_counts_count Let_def split: if_splits)

lemma undenied_name: "undenied rt call s \<Longrightarrow> name_allowed (ag_config rt) (tc_tool_name call)"
  by (auto simp: undenied_def name_allowed_def allowed_tools_denial_def denial_def split: option.splits if_splits)

lemma permitted_process:
  assumes "process_tool_call rt inp call0 s = (x, t)" and "ran_permitted rt s"
  shows "ran_permitted rt t"
  using assms(1) refl refl
proof (cases rule: process_tool_call_cases)
  case idle
  then show ?thesis using assms(2) by (simp add: same_ledger_def ledger_def ran_permitted_def)
next
  case (denied c)
  then show ?thesis using assms(2) by (simp add: extends_ledger_def ledger_def ran_permitted_def denied_record_def executed_def)
next
  case (called c)
  let ?call = "prepare_call (lp_tools s) call0"
  have c: "tx_tool_name c = tc_tool_name ?call" "tx_state c = DENIED \<or> permitted rt (lp_tools s) (tc_tool_name ?call)"
    using called(2) by (simp_all add: call_record_def)
  have t: "lp_contexts t = lp_contexts s @ [c]" "lp_tools t = lp_tools s"
    using called(3) by (simp_all add: extends_ledger_def ledger_def)
  have "tool_name_is_internal (lp_tools s) (tx_tool_name c) \<or> name_allowed (ag_config rt) (tx_tool_name c)"
    using called(1) undenied_name [of rt ?call s] c(1) by auto
  moreover have "count (executed name) (lp_contexts t) \<le> limit"
    if "ac_tool_settings (ag_config rt) = Some ts" "map_of (ts_max_calls_per_tool ts) name = Some (Some limit)"
      "\<not> tool_name_is_internal (lp_tools s) name" for ts name limit
  proof (cases "name = tx_tool_name c")
    case True
    then have "undenied rt ?call s" using called(1) that(3) c(1) by auto
    then show ?thesis using undenied_room [OF _ that(1)] that(2) True c(1) by (fastforce simp: t)
  next
    case False
    then show ?thesis using assms(2) that by (auto simp: ran_permitted_def t executed_def)
  qed
  ultimately show ?thesis using assms(2) c by (auto simp: ran_permitted_def t)
qed

interpretation permit: turn_rule rt inp "\<lambda>s. fixed_run rt \<longrightarrow> ran_permitted rt s" "\<lambda>s. fixed_run rt \<longrightarrow> ran_permitted rt s"
  for rt :: "'w Runtime" and inp
proof
  fix s t :: "'w LoopState" and call x y
  let ?P = "\<lambda>s. fixed_run rt \<longrightarrow> ran_permitted rt s"
  show "same_ledger s t \<Longrightarrow> ?P s \<Longrightarrow> ?P t" by (simp add: same_ledger_def ledger_def ran_permitted_def)
  show "?P s \<Longrightarrow> ?P (s\<lparr>lp_iteration_count := lp_iteration_count s + 1\<rparr>)" by (simp add: ran_permitted_def)
  show "process_tool_call rt inp call s = (x, t) \<Longrightarrow> ?P s \<Longrightarrow> if \<exists>c r. x = Inr (Ran c r) then ?P t else ?P t"
    using permitted_process [of rt inp call s x t] by simp
  show "adopt_agent_catalog rt s = (y, t) \<Longrightarrow> ?P s \<Longrightarrow> ?P t" using adopt_fixed by blast
qed

subsection \<open>Failures\<close>

definition failure_streak :: "ToolCallContext list \<Rightarrow> int" where
  "failure_streak cs = int (length (takeWhile (\<lambda>c. tx_state c = FAILED) (rev (countable_contexts cs))))"

definition failures :: "ToolCallContext list \<Rightarrow> int" where
  "failures cs = count (\<lambda>c. tx_state c = FAILED) (countable_contexts cs)"

text \<open>With \<open>slack\<close> 1 the run goes on; the failure that takes the last unit ends it.\<close>

definition failures_in_budget :: "int \<Rightarrow> 'w Runtime \<Rightarrow> 'w LoopState \<Rightarrow> bool" where
  "failures_in_budget slack rt s \<longleftrightarrow> (\<forall>ts. ac_tool_settings (ag_config rt) = Some ts \<longrightarrow>
     (\<forall>limit. ts_max_consecutive_failures ts = Some limit \<longrightarrow> failure_streak (lp_contexts s) + slack \<le> limit) \<and>
     (\<forall>limit. ts_max_error_calls ts = Some limit \<longrightarrow> failures (lp_contexts s) + slack \<le> limit))"

lemma failure_budget_None:
  assumes "failure_budget_stop ts (lp_contexts s) = None" "ac_tool_settings (ag_config rt) = Some ts"
  shows "failures_in_budget 1 rt s"
  using assms by (fastforce simp: failure_budget_stop_def Let_def consecutive_failure_budget_stop_def
      total_error_budget_stop_def failures_in_budget_def failure_streak_def failures_def split: option.splits if_splits)

lemma failures_process:
  assumes "process_tool_call rt inp call0 s = (x, t)" and "failures_in_budget 1 rt s" and "fixed_run rt"
  shows "if \<exists>c r. x = Inr (Ran c r) then failures_in_budget 1 rt t else failures_in_budget 0 rt t"
proof -
  have weak: "failures_in_budget 1 rt u \<Longrightarrow> failures_in_budget 0 rt u" for u :: "'a LoopState"
    by (fastforce simp: failures_in_budget_def)
  have uncounted: "failures_in_budget 1 rt t"
    if "lp_contexts t = lp_contexts s @ [c]" "is_excluded_context c \<or> tx_state c \<noteq> FAILED" for c
    using assms(2,3) that by (auto simp: failures_in_budget_def failure_streak_def failures_def countable_append
        fixed_run_def limits_positive_def settings_positive_def positive_def)
  from assms(1) refl refl show ?thesis
  proof (cases rule: process_tool_call_cases)
    case idle
    then have "failures_in_budget 1 rt t" using assms(2) by (simp add: same_ledger_def ledger_def failures_in_budget_def)
    then show ?thesis using weak by auto
  next
    case (denied c)
    then have "failures_in_budget 1 rt t"
      using uncounted [of c] by (simp add: extends_ledger_def ledger_def denied_excluded)
    then show ?thesis using weak by auto
  next
    case (called c)
    have t: "lp_contexts t = lp_contexts s @ [c]" using called(3) by (simp add: extends_ledger_def ledger_def)
    show ?thesis
    proof (cases "is_excluded_context c \<or> tx_state c \<noteq> FAILED")
      case True
      then show ?thesis using uncounted [OF t] weak by auto
    next
      case False
      then have ex: "\<not> tool_name_is_internal (lp_tools s) (tc_tool_name (prepare_call (lp_tools s) call0))"
        using internal_excluded called(2) by blast
      have "failures_in_budget 0 rt t" using assms(2) False
        by (auto simp: failures_in_budget_def failure_streak_def failures_def countable_append t)
      moreover have "failures_in_budget 1 rt t" if "x = Inr (Ran c' r)" for c' r
        using called(4) [OF that] ex False failure_budget_None [of _ t rt]
        by (cases "ac_tool_settings (ag_config rt)") (auto simp: failures_allow_def failures_in_budget_def [of _ rt])
      ultimately show ?thesis by auto
    qed
  qed
qed

interpretation failing: turn_rule rt inp "\<lambda>s. fixed_run rt \<longrightarrow> failures_in_budget 1 rt s" "\<lambda>s. fixed_run rt \<longrightarrow> failures_in_budget 0 rt s"
  for rt :: "'w Runtime" and inp
proof
  fix s t :: "'w LoopState" and call x y
  let ?P = "\<lambda>s. fixed_run rt \<longrightarrow> failures_in_budget 1 rt s" and ?Q = "\<lambda>s. fixed_run rt \<longrightarrow> failures_in_budget 0 rt s"
  show "?P s \<Longrightarrow> ?Q s" by (fastforce simp: failures_in_budget_def)
  show "same_ledger s t \<Longrightarrow> ?P s \<Longrightarrow> ?P t" by (simp add: same_ledger_def ledger_def failures_in_budget_def)
  show "same_ledger s t \<Longrightarrow> ?Q s \<Longrightarrow> ?Q t" by (simp add: same_ledger_def ledger_def failures_in_budget_def)
  show "?P s \<Longrightarrow> ?P (s\<lparr>lp_iteration_count := lp_iteration_count s + 1\<rparr>)" by (simp add: failures_in_budget_def)
  show "process_tool_call rt inp call s = (x, t) \<Longrightarrow> ?P s \<Longrightarrow> if \<exists>c r. x = Inr (Ran c r) then ?P t else ?Q t"
    using failures_process [of rt inp call s x t] by auto
  show "adopt_agent_catalog rt s = (y, t) \<Longrightarrow> ?P s \<Longrightarrow> ?P t" using adopt_fixed by blast
qed

end
