(* ===== verification/AG_Chain.thy ===== *)
theory AG_Chain
  imports AG_Guards
begin

text \<open>
  The walk through the fallback chain, and what a refused tool call leaves alone.
\<close>

subsection \<open>The chain\<close>

definition step_record :: "'w AgentFallback \<Rightarrow> nat \<Rightarrow> exn \<Rightarrow> FallbackAttempt" where
  "step_record f i e = \<lparr>fa_from = fm_identity (fb_models f ! i), fa_to = fm_identity (fb_models f ! (i + 1)),
     fa_error_type = exn_type e\<rparr>"

text \<open>
  The run has left the first \<open>lp_fallback_index\<close> models of the chain, each for an error the chain
  falls back on, and works with the next one.
\<close>

definition walked :: "'w AgentFallback \<Rightarrow> 'w LoopState \<Rightarrow> bool" where
  "walked f s \<longleftrightarrow>
     length (lp_fallback_errors s) = lp_fallback_index s \<and>
     list_all (is_model_error f) (lp_fallback_errors s) \<and>
     lp_fallback_attempts s = map2 (step_record f) [0..<lp_fallback_index s] (lp_fallback_errors s) \<and>
     (lp_fallback_index s = 0 \<or> lp_fallback_index s < length (fb_models f) \<and>
        lp_provider s = fm_provider (fb_models f ! lp_fallback_index s))"

lemma walked_switch:
  assumes "switches rt inp e s t" "ag_fallback rt = Some f" "walked f s"
  shows "walked f t"
proof -
  from assms(1,2) obtain target invoke attempt where
      f: "is_model_error f e" "lp_fallback_index s + 1 < length (fb_models f)"
    and target: "target = fb_models f ! (lp_fallback_index s + 1)"
    and attempt: "attempt = step_record f (lp_fallback_index s) e"
    and t: "t = switched rt (lp_fallback_index s + 1) target invoke attempt e s"
    by (auto simp: switches_def advance_def model_at_def attempt_record_def step_record_def split: if_splits elim!: bindE_InrE)
  have "lp_fallback_errors t = lp_fallback_errors s @ [e]" "lp_fallback_attempts t = lp_fallback_attempts s @ [attempt]"
    "lp_fallback_index t = lp_fallback_index s + 1" "lp_provider t = fm_provider target"
    by (simp_all add: t switched_def Let_def)
  then show ?thesis using assms(3) f target attempt by (simp add: walked_def zip_append)
qed

lemma walked_turn: "in_turn s t \<Longrightarrow> walked f s \<Longrightarrow> walked f t"
  by (simp add: walked_def in_turn_fields)

interpretation chain: pass_rule rt inp "\<lambda>s. \<forall>f. ag_fallback rt = Some f \<longrightarrow> walked f s" "\<lambda>s. \<forall>f. ag_fallback rt = Some f \<longrightarrow> walked f s"
  for rt :: "'w Runtime" and inp
proof
  fix s t :: "'w LoopState" and e r x calls
  let ?P = "\<lambda>s. \<forall>f. ag_fallback rt = Some f \<longrightarrow> walked f s"
  show "accounting s t \<Longrightarrow> ?P s \<Longrightarrow> ?P t" by (simp add: walked_def accounting_fields)
  show "?P s \<Longrightarrow> ?P (s\<lparr>lp_iteration_count := lp_iteration_count s + 1\<rparr>)" by (simp add: walked_def)
  show "switches rt inp e s t \<Longrightarrow> ?P s \<Longrightarrow> ?P t" using walked_switch by blast
  show "finish_plain rt inp r s = (x, t) \<Longrightarrow> ?P s \<Longrightarrow> if x = Inr None then ?P t else ?P t"
    using walked_turn [of s t] tn.keepsD [OF in_turn_finish_plain, of rt inp r s x t] by simp
  show "tool_turn rt inp r calls s = (x, t) \<Longrightarrow> ?P s \<Longrightarrow> from_model inp s r \<Longrightarrow> calls \<noteq> [] \<Longrightarrow>
      parse_tool_calls (ag_show rt) (ag_loads rt) (rs_raw r) (lp_provider s) = Inr calls \<Longrightarrow> if x = Inr None then ?P t else ?P t"
    using walked_turn [of s t] tn.keepsD [OF in_turn_tool_turn, of rt inp r calls s x t] by simp
qed simp

text \<open>A pinned run stays with its model.\<close>

definition unmoved :: "'w LoopState \<Rightarrow> bool" where
  "unmoved s \<longleftrightarrow> lp_fallback_index s = 0 \<and> lp_fallback_attempts s = []"

interpretation pin: pass_rule rt inp "\<lambda>s. ri_pin_model inp \<longrightarrow> unmoved s" "\<lambda>s. ri_pin_model inp \<longrightarrow> unmoved s"
  for rt :: "'w Runtime" and inp
proof
  fix s t :: "'w LoopState" and e r x calls
  let ?P = "\<lambda>s. ri_pin_model inp \<longrightarrow> unmoved s"
  show "accounting s t \<Longrightarrow> ?P s \<Longrightarrow> ?P t" by (simp add: unmoved_def accounting_fields)
  show "?P s \<Longrightarrow> ?P (s\<lparr>lp_iteration_count := lp_iteration_count s + 1\<rparr>)" by (simp add: unmoved_def)
  show "switches rt inp e s t \<Longrightarrow> ?P s \<Longrightarrow> ?P t" by (auto simp: switches_def)
  show "finish_plain rt inp r s = (x, t) \<Longrightarrow> ?P s \<Longrightarrow> if x = Inr None then ?P t else ?P t"
    using tn.keepsD [OF in_turn_finish_plain, of rt inp r s x t] by (simp add: unmoved_def in_turn_fields)
  show "tool_turn rt inp r calls s = (x, t) \<Longrightarrow> ?P s \<Longrightarrow> from_model inp s r \<Longrightarrow> calls \<noteq> [] \<Longrightarrow>
      parse_tool_calls (ag_show rt) (ag_loads rt) (rs_raw r) (lp_provider s) = Inr calls \<Longrightarrow> if x = Inr None then ?P t else ?P t"
    using tn.keepsD [OF in_turn_tool_turn, of rt inp r calls s x t] by (simp add: unmoved_def in_turn_fields)
qed simp

subsection \<open>Refused calls\<close>

definition still :: "'w LoopState \<Rightarrow> 'w LoopState \<Rightarrow> bool" where
  "still s t \<longleftrightarrow> lp_pipe t = lp_pipe s"

interpretation st: state_preorder "still :: 'w LoopState \<Rightarrow> 'w LoopState \<Rightarrow> bool"
  unfolding still_def by (rule state_preorder_field)

lemma still_world: "st.keeps world"
  by (simp add: world_def st.keeps_getM)

lemma still_stopped: "st.keeps (stopped_result rt out reason)" "st.keeps (stopped rt out reason)"
  unfolding stopped_def stopped_result_def by (intro st.keeps_rules still_world)+

lemma still_spend: "st.keeps (spend_cap_stop rt)"
  unfolding spend_cap_stop_def by (intro st.keeps_rules still_world still_stopped)

lemma still_budget: "st.keeps (tool_settings_budget_stop rt)" "st.keeps (tool_settings_hard_budget_stop rt b)"
  unfolding tool_settings_budget_stop_def tool_settings_hard_budget_stop_def by (intro st.keeps_rules still_stopped)+

lemma still_message: "st.keeps (append_message m)" "st.keeps (record_context c)"
  unfolding append_message_def record_context_def by (rule st.keeps_updM; simp add: still_def)+

text \<open>An error is never stored for the model.\<close>

lemma still_answer:
  assumes "tres_status r \<noteq> SUCCESS"
  shows "st.keeps (append_tool_result_message rt call r d capped admit)"
proof -
  have "apply_primitive_binding rt call r = returnM None"
    using assms by (simp add: apply_primitive_binding_def split: option.split)
  then show ?thesis unfolding append_tool_result_message_def model_visible_tool_result_def
    by (simp only: bindM_returnM) (intro st.keeps_rules still_message)
qed

lemma still_denial: "st.keeps (apply_tool_denial rt call d)"
  unfolding apply_tool_denial_def
  by (intro st.keeps_rules still_stopped still_message still_answer)
    (auto simp: denied_tool_result_def Let_def tool_error_def)

lemma still_enforce: "st.keeps (enforce_tool_settings rt call internal)"
  unfolding enforce_tool_settings_def by (intro st.keeps_rules still_spend still_budget still_denial)

lemma denial_outcome:
  assumes "apply_tool_denial rt call d s = (Inr (Ran c r), t)"
  shows "tx_state c = DENIED \<and> tres_status r = ERROR"
  using assms by (auto simp: apply_tool_denial_def bindM_Inr_iff getM_app returnM_app denied_tool_result_def Let_def
      build_tool_call_context_def tool_error_def split: if_splits prod.splits option.splits)

lemma refused_call:
  assumes "process_tool_call rt inp call0 s = (x, t)" and "call = prepare_call (lp_tools s) call0"
    and "\<not> tool_name_is_internal (lp_tools s) (tc_tool_name call)" and "\<not> (under_limits rt call s \<and> undenied rt call s)"
  shows "lp_pipe t = lp_pipe s" and "x = Inr (Ran c r) \<Longrightarrow> tx_state c = DENIED \<and> tres_status r = ERROR"
proof -
  obtain y u where y: "enforce_tool_settings rt call False s = (y, u)" by fastforce
  have run: "bindM (enforce_tool_settings rt call False) (\<lambda>settled.
      case settled of Some p \<Rightarrow> returnM p | None \<Rightarrow> admit_call rt inp call False) s = (x, t)"
    using assms(1,3) unfolding process_tool_call_stages Let_def assms(2) [symmetric] by simp
  have some: "y \<noteq> Inr None" using y assms(4) by (cases rule: enforce_cases) auto
  note over = settled_already [OF run y some]
  show "lp_pipe t = lp_pipe s" using st.keepsD [OF still_enforce y] over by (simp add: still_def)
  assume x: "x = Inr (Ran c r)"
  then have "y = Inr (Some (Ran c r))" using over by simp
  with y show "tx_state c = DENIED \<and> tres_status r = ERROR"
  proof (cases rule: enforce_cases)
    case (denied c' d z v)
    then have "apply_tool_denial rt call d v = (Inr (Ran c r), u)"
      using \<open>y = Inr (Some (Ran c r))\<close> by (auto split: sum.splits)
    then show ?thesis by (rule denial_outcome)
  qed auto
qed

end
