(* ===== verification/AG_Demo.thy ===== *)
theory AG_Demo
  imports AG_Answers AG_Budgets AG_Chain
begin

text \<open>
  A run small enough to evaluate: the first model of the chain fails, the second calls a tool twice,
  once more than its limit, and then answers.
\<close>

definition shop_settings :: ToolSettings where
  "shop_settings = \<lparr>ts_denied_tools = [], ts_max_calls = Some 5, ts_max_calls_per_tool = [(''search'', Some 1)],
     ts_result_max_chars = None, ts_on_deny = ''continue'', ts_max_calls_per_iteration = Some 3,
     ts_max_identical_calls = Some 2, ts_max_consecutive_failures = Some 2, ts_max_error_calls = Some 3,
     ts_tool_timeout_seconds = None, ts_sliding_window_max_calls = None, ts_sliding_window_iterations = None\<rparr>"

definition shop_config :: AgentRuntimeConfig where
  "shop_config = \<lparr>ac_max_iterations = Some 4, ac_max_tokens = None, ac_max_tool_calls = Some 5, ac_timeout_seconds = None,
     ac_compaction_trigger_tokens = None, ac_compaction_target_tokens = None, ac_tool_settings = Some shop_settings,
     ac_allowed_tools = None, ac_max_spend_usd = None\<rparr>"

definition search_tool :: "nat Tool" where
  "search_tool = \<lparr>tl_object = 1, tl_name = ''search'', tl_metadata = [], tl_permission = READ, tl_binds_to_primitive = None,
     tl_output_schema = None, tl_activity = None, tl_validate_call = (\<lambda>_. Inr None),
     tl_execute = (\<lambda>_ _ w. (Returned (tool_success ''search'' ''found'' []), w))\<rparr>"

definition call_payload :: dict where
  "call_payload = [(''choices'', VList [VDict [(''message'', VDict [(''role'', VStr ''assistant''),
     (''tool_calls'', VList [VDict [(''id'', VStr ''a''), (''function'', VDict [(''name'', VStr ''search''), (''arguments'', VNone)])],
        VDict [(''id'', VStr ''b''), (''function'', VDict [(''name'', VStr ''search''), (''arguments'', VNone)])]])])]])]"

definition text_payload :: dict where
  "text_payload = [(''choices'', VList [VDict [(''message'', VDict [(''role'', VStr ''assistant''), (''content'', VStr ''done'')])]])]"

definition shop_response :: "string \<Rightarrow> dict \<Rightarrow> Response" where
  "shop_response out payload = \<lparr>rs_text = out, rs_metadata = [], rs_usage = VNone, rs_raw = VDict payload, rs_view = (Some out, [])\<rparr>"

definition shop_invoke :: "string \<Rightarrow> CallOptions \<Rightarrow> nat \<Rightarrow> (exn + raw_result) \<times> nat" where
  "shop_invoke msg call_options w =
     (Inr (Answered (if w = 0 then shop_response [] call_payload else shop_response ''done'' text_payload)), w + 1)"

definition down_invoke :: "string \<Rightarrow> CallOptions \<Rightarrow> nat \<Rightarrow> (exn + raw_result) \<times> nat" where
  "down_invoke msg call_options w = (Inl (Exn ''ProviderError'' [''Exception'', ''BaseException''] ''down''), w)"

definition shop_chain :: "nat AgentFallback" where
  "shop_chain = \<lparr>fb_models = [\<lparr>fm_provider = ''openai'', fm_identity = ''openai/one''\<rparr>,
       \<lparr>fm_provider = ''openai'', fm_identity = ''openai/two''\<rparr>], fb_fallback_on = [''ProviderError''],
     fb_build_runner = (\<lambda>_. Inr shop_invoke)\<rparr>"

definition shop_rt :: "nat Runtime" where
  "shop_rt = \<lparr>ag_name = ''shop'', ag_config = shop_config,
     ag_pipeline = \<lparr>pc_middleware = [], pc_sleeper = (\<lambda>_ w. (None, w)), pc_clock = (\<lambda>w. (0, w))\<rparr>,
     ag_policy = \<lparr>pp_allowed = [SAFE, READ]\<rparr>, ag_ceiling = None,
     ag_output_contract = \<lparr>ow_contracts = [], ow_max_rejections = Some 2\<rparr>, ag_output_schema = None, ag_wire_schema = VNone,
     ag_inner = None, ag_fallback = Some shop_chain, ag_catalog = None, ag_upsert = None, ag_admit = (\<lambda>_ r. r),
     ag_top = (\<lambda>_. []), ag_end = (\<lambda>_. []), ag_fixed = [], ag_body = [], ag_zones = (\<lambda>_. []), ag_window_state = (\<lambda>_. []),
     ag_run_state = (\<lambda>_. []), ag_put_run_state = (\<lambda>_ w. w),
     ag_rollup = (\<lambda>_. \<lparr>ur_calls = [], ur_operations = [], ur_cost_usd = None, ur_corrupted = False, ur_unaccounted_call_count = 0\<rparr>),
     ag_record_call = (\<lambda>_ w. w), ag_record_failed_call = (\<lambda>_ _ w. w), ag_record_operation = (\<lambda>_ _ _ w. w),
     ag_cost_spent = (\<lambda>_. 0), ag_provider_schemas = (\<lambda>_ _. VNone), ag_fingerprint = (\<lambda>n _. n), ag_show = (\<lambda>_. []),
     ag_dumps = (\<lambda>_. ''{}''), ag_loads = (\<lambda>_. Inr (VDict []))\<rparr>"

definition shop_inp :: RunInput where
  "shop_inp = \<lparr>ri_message = ''hello'', ri_metadata = [],
     ri_options = \<lparr>co_system = None, co_tools = None, co_messages = None, co_prompt_index = None, co_response_format = None\<rparr>,
     ri_caller_messages = [user_message ''hello''], ri_pin_model = False, ri_retry_fuel = 1\<rparr>"

definition shop_handle :: "nat RunnerHandle" where
  "shop_handle = \<lparr>rh_provider = ''openai'', rh_invoke = down_invoke\<rparr>"

definition shop_pipe :: "nat Pipeline" where
  "shop_pipe = \<lparr>pl_world = 0, pl_events = [], pl_invocations = []\<rparr>"

definition shop_start :: "nat LoopState" where
  "shop_start = initial_state shop_rt shop_inp shop_pipe 0 shop_handle [search_tool] [search_tool] (0, [], [], False)"

text \<open>The state after each of the first passes.\<close>

definition shop_next :: "nat LoopState \<Rightarrow> nat LoopState" where
  "shop_next s = snd (one_pass shop_rt shop_inp s)"

definition goes_on :: "(halt + AgentResult option) \<times> nat LoopState \<Rightarrow> bool" where
  "goes_on r = (case fst r of Inr None \<Rightarrow> True | _ \<Rightarrow> False)"

lemma shop_first: "goes_on (one_pass shop_rt shop_inp shop_start)"
  by code_simp

lemma shop_second: "goes_on (one_pass shop_rt shop_inp (shop_next shop_start))"
  by code_simp

lemma shop_messages: "length (lp_messages (shop_next (shop_next shop_start))) = 4"
  by code_simp

definition shop_run :: "(halt + AgentResult option) \<times> nat LoopState" where
  "shop_run = arun_once 8 shop_rt shop_inp shop_handle [search_tool] [search_tool] None shop_pipe"

text \<open>Two calls recorded, one move in the chain, two answers of a model, a result.\<close>

lemma shop_run_outcome:
  "(case shop_run of (x, s) \<Rightarrow> (map tx_state (lp_contexts s), map fa_to (lp_fallback_attempts s), lp_iteration_count s,
     case x of Inr (Some r) \<Rightarrow> ar_output r | _ \<Rightarrow> [])) = ([SUCCEEDED, DENIED], [''openai/two''], 2, ''done'')"
  by code_simp

lemma shop_run_states:
  "map tx_state (lp_contexts (snd shop_run)) = [SUCCEEDED, DENIED]"
  "map fa_to (lp_fallback_attempts (snd shop_run)) = [''openai/two'']"
  using shop_run_outcome by (simp_all add: case_prod_unfold)

lemma shop_run_pair: "arun_once 8 shop_rt shop_inp shop_handle [search_tool] [search_tool] None shop_pipe = (fst shop_run, snd shop_run)"
  by (simp add: shop_run_def)

text \<open>The settings as a program would write them.\<close>

definition shop_raw :: RawToolSettings where
  "shop_raw = \<lparr>raw_denied_tools = VList [], raw_max_calls = VInt 5, raw_max_calls_per_tool = VDict [(''search'', VInt 1)],
     raw_result_max_chars = VNone, raw_on_deny = VStr ''continue'', raw_max_calls_per_iteration = VInt 3,
     raw_max_identical_calls = VInt 2, raw_max_consecutive_failures = VInt 2, raw_max_error_calls = VInt 3,
     raw_tool_timeout_seconds = VNone, raw_sliding_window_max_calls = VNone, raw_sliding_window_iterations = VNone\<rparr>"

lemma shop_settings_made: "mk_ToolSettings (\<lambda>_. []) (\<lambda>_. []) shop_raw = Inr shop_settings"
  by code_simp

definition shop_loop :: AgentLoopSettings where
  "shop_loop = \<lparr>ls_max_iterations = Some 4, ls_max_tokens = None, ls_max_tool_calls = None, ls_max_queued_prompts = None,
     ls_max_parallel_tool_calls = None, ls_max_retries = None, ls_context_window_budget = None,
     ls_compaction_trigger_tokens = None, ls_compaction_target_tokens = None, ls_max_contract_rejections = Some 2,
     ls_timeout_seconds = None, ls_max_spend_usd = None, ls_allowed_tools = None, ls_tool_error_policy = None,
     ls_tool_settings = Some shop_settings, ls_output_contracts = []\<rparr>"

lemma shop_config_made: "to_runtime_config (\<lambda>_. []) shop_loop = Inr (ag_config shop_rt)"
  by (simp add: shop_loop_def shop_rt_def shop_config_def to_runtime_config_def mk_AgentRuntimeConfig_def positive_or_def
      shop_settings_def Let_def)

lemma shop_fixed: "fixed_run shop_rt"
  using runtime_config_positive [OF shop_config_made] shop_settings_made
  by (auto simp: fixed_run_def shop_loop_def) (auto simp: shop_rt_def)

text \<open>A call of the tool after its only one.\<close>

definition shop_call :: ToolCall where
  "shop_call = \<lparr>tc_tool_name = ''search'', tc_arguments = [], tc_call_id = Some ''c'', tc_metadata = [], tc_activity = None\<rparr>"

definition shop_spent :: "nat LoopState" where
  "shop_spent = shop_start\<lparr>lp_contexts :=
     [build_tool_call_context shop_call ''openai'' SUCCEEDED (tool_success ''search'' ''found'' []) 1 False]\<rparr>"

end
