(* ===== verification/AG_Claims.thy ===== *)
theory AG_Claims
  imports AG_Demo
begin

text \<open>
  The guarantees of a run of the agent loop: its conversation, its budgets, its permissions, its end,
  and its walk through the fallback chain, each with the run of \<open>AG_Demo\<close> as its witness.
\<close>


lemma shop_shaped: "shaped_answers ''openai'' shop_invoke"
proof -
  have "provider_shaped (wire_format (Some ''openai'')) call_payload" "provider_shaped (wire_format (Some ''openai'')) text_payload"
    by (simp_all add: demo_wire provider_shaped_def call_payload_def text_payload_def get_or_none_def list_of_def dict_of_def
        text_or_missing_def)
  then show ?thesis by (auto simp: shaped_answers_def shop_invoke_def shop_response_def split: if_splits)
qed

lemma shop_chain_shaped: "chain_shaped shop_rt"
proof -
  have "m = fm_provider ` set (fb_models shop_chain) \<Longrightarrow> m = {''openai''}" for m by (auto simp: shop_chain_def)
  then show ?thesis using shop_shaped
    by (auto simp: chain_shaped_def shop_rt_def shop_chain_def model_at_def nth_Cons split: if_splits nat.splits)
qed

lemma shop_passes: "passes shop_rt shop_inp shop_start (shop_next (shop_next shop_start))"
proof -
  have step: "goes_on (one_pass shop_rt shop_inp s) \<Longrightarrow> one_pass shop_rt shop_inp s = (Inr None, shop_next s)" for s
    by (cases "one_pass shop_rt shop_inp s") (auto simp: goes_on_def shop_next_def split: sum.splits option.splits)
  show ?thesis
    by (rule passes.onward [OF passes.onward [OF passes.here step [OF shop_first]] step [OF shop_second]])
qed


text \<open>C6:
  Whatever the model asks for and the middlewares decide, and however the run ends, its tool calls stay
  within every budget the settings set: the number of calls, the countable calls of each iteration, of each
  sliding window and of each fingerprint, the failures in a row and the failures in all. The settings are
  any that their constructors accept; the agent adds no tools while it runs.
\<close>

theorem tool_calls_stay_in_budget:
  assumes "arun_once fuel rt inp handle tools catalog resumed p = (x, t)" and "ag_catalog rt = None"
    and "to_runtime_config received s = Inr (ag_config rt)" and "ls_tool_settings s = Some ts"
    and "mk_ToolSettings show repr raw = Inr ts"
  shows "calls_in_budget rt t \<and> failures_in_budget 0 rt t"
proof -
  have "\<exists>show repr raw. mk_ToolSettings show repr raw = Inr ts'" if "ls_tool_settings s = Some ts'" for ts'
    using that assms(4,5) by auto
  then have fixed: "fixed_run rt" unfolding fixed_run_def using runtime_config_positive [OF assms(3)] assms(2) by blast
  obtain index attempts errors reset where
    progress: "(case resumed of Some progress \<Rightarrow> progress | None \<Rightarrow> (0, [], [], False)) = (index, attempts, errors, reset)"
    by (cases "case resumed of Some progress \<Rightarrow> progress | None \<Rightarrow> (0, [], [], False)") auto
  have empty: "lp_contexts (initial_state rt inp q started handle tools catalog (index, attempts, errors, reset)) = []" for q started
    by (simp add: initial_state_def)
  have limits: "list_all (\<lambda>n. 0 \<le> n) (tool_limits rt)" using tool_limits_positive [OF fixed] by (fastforce simp: list_all_iff)
  have pos: "settings_positive ts'" if "ac_tool_settings (ag_config rt) = Some ts'" for ts'
    using fixed that by (simp add: fixed_run_def limits_positive_def)
  note start = empty limits calls_in_budget_def calls_in_limit_def iterations_past_def iteration_in_limit_def window_in_limit_def
    repeats_in_limit_def failures_in_budget_def failure_streak_def failures_def countable_contexts_def
    non_internal_tool_contexts_def
  have "calls_in_budget rt (initial_state rt inp q started handle tools catalog (index, attempts, errors, reset))" for q started
    using pos by (fastforce simp: start settings_positive_def positive_def)
  then have "calls_in_budget rt t" using budget.run.arun_once_ends [OF assms(1)] fixed by (simp add: progress)
  moreover have "failures_in_budget 1 rt (initial_state rt inp q started handle tools catalog (index, attempts, errors, reset))" for q started
    using pos by (auto simp: start settings_positive_def positive_def)
  then have "failures_in_budget 0 rt t" using failing.run.arun_once_ends [OF assms(1)] fixed by (simp add: progress)
  ultimately show ?thesis by blast
qed

theorem tool_calls_stay_in_budget_witness:
  "map tx_state (lp_contexts (snd shop_run)) = [SUCCEEDED, DENIED] \<and>
   calls_in_budget shop_rt (snd shop_run) \<and> failures_in_budget 0 shop_rt (snd shop_run)"
proof -
  have "ag_catalog shop_rt = None" by (simp add: shop_rt_def)
  moreover have "ls_tool_settings shop_loop = Some shop_settings" by (simp add: shop_loop_def)
  ultimately show ?thesis
    using tool_calls_stay_in_budget [OF shop_run_pair _ shop_config_made _ shop_settings_made] shop_run_states(1) by simp
qed



text \<open>C8:
  A run with a limit of iterations never goes on for ever: within as many passes as that limit and the
  models of its fallback chain together it returns a result or raises, whatever the model, the tools and the
  middlewares do, and wherever in the chain it starts. Each pass that goes on is answered by a model, or
  moves to the next one. The retries that a middleware orders inside one pass are bounded apart, by a fuel
  whose end is an outcome of its own.
\<close>

theorem run_returns_within_its_iterations:
  assumes "ac_max_iterations (ag_config rt) = Some limit" and "nat limit + (chain_length rt - 1) < fuel"
  shows "fst (arun_once fuel rt inp handle tools catalog resumed p) \<noteq> Inr None"
proof
  assume none: "fst (arun_once fuel rt inp handle tools catalog resumed p) = Inr None"
  obtain t where t: "arun_once fuel rt inp handle tools catalog resumed p = (Inr None, t)"
    using none by (metis prod.collapse)
  from t obtain q started where run: "run_once fuel rt inp (resumed \<noteq> None) (initial_state rt inp q started handle tools catalog
      (case resumed of Some progress \<Rightarrow> progress | None \<Rightarrow> (0, [], [], False))) = (Inr None, t)"
    by (rule arun_once_start)
  let ?s = "initial_state rt inp q started handle tools catalog
      (case resumed of Some progress \<Rightarrow> progress | None \<Rightarrow> (0, [], [], False))"
  obtain u where "agent_loop fuel rt inp u = (Inr None, t)" and acc: "accounting ?s u"
    using loop_of_run [OF run] by blast
  moreover have "passes_left limit rt u < fuel"
  proof -
    have "lp_iteration_count ?s = 0" by (simp add: initial_state_def split: prod.split)
    then show ?thesis using assms(2) accounting_fields [OF acc] by (simp add: passes_left_def)
  qed
  ultimately show False using agent_loop_returns [OF assms(1)] by blast
qed

theorem run_returns_within_its_iterations_witness: "fst shop_run \<noteq> Inr None"
proof -
  have limit: "ac_max_iterations (ag_config shop_rt) = Some 4" by (simp add: shop_rt_def shop_config_def)
  have "nat 4 + (chain_length shop_rt - 1) < 8" by (simp add: chain_length_def shop_rt_def shop_chain_def)
  from run_returns_within_its_iterations [OF limit this] show ?thesis unfolding shop_run_def by blast
qed





end
