(* ===== verification/AG_Declare.thy ===== *)
theory AG_Declare
  imports AG_Tools
begin

text \<open>
  The declarations of tools to a provider: the rest of \<^verbatim>\<open>vidbyte/lib/tools/formatter.py\<close>
  and the tool specification of \<^verbatim>\<open>vidbyte/lib/dataclasses/tools.py\<close>.  A JSON Schema is a
  dictionary; the schema that pydantic writes for an annotation is part of its declaration.  JSON texts
  and the \<^verbatim>\<open>str\<close> of a value are arguments.  The theorem at the end says that what is
  declared to Gemini stays within the dialect its service accepts.
\<close>

subsection \<open>Specifications\<close>

record ToolParameter =
  tp_name :: string
  tp_type :: string
  tp_description :: string
  tp_required :: bool

definition mk_ToolParameter :: "string \<Rightarrow> string \<Rightarrow> string \<Rightarrow> bool \<Rightarrow> exn + ToolParameter" where
  "mk_ToolParameter name type description required =
     (if strip name = [] then Inl (ValueError ''ToolParameter.name cannot be empty'')
      else if strip type = [] then Inl (ValueError ''ToolParameter.type cannot be empty'')
      else Inr \<lparr>tp_name = name, tp_type = type, tp_description = description, tp_required = required\<rparr>)"

record ActivityDeclaration =
  av_schema :: dict
  av_description :: string
  av_required :: bool

record ToolSpec =
  sp_name :: string
  sp_description :: string
  sp_parameters :: "ToolParameter list"
  sp_permission :: ToolPermission
  sp_input_schema :: "dict option"
  sp_activity :: "ActivityDeclaration option"

definition mk_ToolSpec ::
  "string \<Rightarrow> string \<Rightarrow> ToolParameter list \<Rightarrow> string + ToolPermission \<Rightarrow> dict option \<Rightarrow> ActivityDeclaration option \<Rightarrow> exn + ToolSpec" where
  "mk_ToolSpec name description parameters permission input_schema activity =
     (if strip name = [] then Inl (ValueError ''ToolSpec.name cannot be empty'')
      else if strip description = [] then Inl (ValueError ''ToolSpec.description cannot be empty'')
      else case ToolPermission_of permission of
          None \<Rightarrow> Inl (ValueError ''not a valid ToolPermission'')
        | Some p \<Rightarrow> Inr \<lparr>sp_name = name, sp_description = description, sp_parameters = parameters, sp_permission = p,
              sp_input_schema = input_schema, sp_activity = activity\<rparr>)"

fun texts_of :: "pyval list \<Rightarrow> string list" where
  "texts_of [] = []"
| "texts_of (v # vs) = (case v of VStr s \<Rightarrow> s # texts_of vs | _ \<Rightarrow> texts_of vs)"

definition required_parameter_names :: "ToolSpec \<Rightarrow> string list" where
  "required_parameter_names spec =
     (case (sp_parameters spec, sp_input_schema spec) of
        ([], Some schema) \<Rightarrow> (case map_of schema ''required'' of Some (VList vs) \<Rightarrow> texts_of vs | _ \<Rightarrow> [])
      | (ps, _) \<Rightarrow> map tp_name (filter tp_required ps))"

text \<open>\<open>to_prompt_str\<close>: the same arguments in words.\<close>

definition requirement :: "bool \<Rightarrow> string" where
  "requirement b = (if b then ''required'' else ''optional'')"

definition property_line :: "string list \<Rightarrow> string \<times> pyval \<Rightarrow> string" where
  "property_line required_names = (\<lambda>(name, prop).
     (let p = (case prop of VDict d \<Rightarrow> d | _ \<Rightarrow> []);
          kind = (case map_of p ''type'' of Some (VStr t) \<Rightarrow> t | _ \<Rightarrow> ''any'');
          description = (case map_of p ''description'' of Some (VStr t) \<Rightarrow> t | _ \<Rightarrow> []) in
      ''- '' @ name @ '' ('' @ kind @ '', '' @ requirement (name \<in> set required_names) @ ''): '' @ description))"

definition parameter_lines :: "ToolSpec \<Rightarrow> string list" where
  "parameter_lines spec =
     (if sp_parameters spec \<noteq> []
      then map (\<lambda>p. ''- '' @ tp_name p @ '' ('' @ tp_type p @ '', '' @ requirement (tp_required p) @ ''): '' @ tp_description p)
             (sp_parameters spec)
      else case sp_input_schema spec of
          None \<Rightarrow> []
        | Some schema \<Rightarrow> (case map_of schema ''properties'' of
              Some (VDict ps) \<Rightarrow> map (property_line (required_parameter_names spec)) ps
            | _ \<Rightarrow> []))"

definition to_prompt_str :: "ToolSpec \<Rightarrow> string" where
  "to_prompt_str spec =
     (let arguments = parameter_lines spec @ (case sp_activity spec of
            None \<Rightarrow> []
          | Some a \<Rightarrow> [''- '' @ activity_key @ '' (object, '' @ requirement (av_required a) @ ''): '' @ av_description a]) in
      joined [CHR 0x0A] ([''<tool>'', ''Tool: '' @ sp_name spec, ''Description: '' @ sp_description spec]
        @ (if arguments = [] then [''Parameters: none''] else ''Parameters:'' # arguments)
        @ [''Permission: '' @ permission_value (sp_permission spec), ''</tool>'']))"

subsection \<open>The neutral schema\<close>

definition json_type :: "string \<Rightarrow> string" where
  "json_type raw =
     (let lowered = lower raw in
      case map_of [(''bool'', ''boolean''), (''dict'', ''object''), (''float'', ''number''), (''int'', ''integer''),
          (''list'', ''array''), (''str'', ''string'')] lowered of
        Some t \<Rightarrow> t | None \<Rightarrow> if lowered = [] then ''string'' else lowered)"

text \<open>A later parameter of the name replaces the property of the earlier one.\<close>

definition parameters_schema :: "ToolParameter list \<Rightarrow> dict" where
  "parameters_schema ps =
     [(''type'', VStr ''object''),
      (''properties'', VDict (dict_merge [] (map (\<lambda>p. (tp_name p, VDict [(''type'', VStr (json_type (tp_type p))),
          (''description'', VStr (tp_description p))])) ps))),
      (''required'', VList (map (VStr \<circ> tp_name) (filter tp_required ps))),
      (''additionalProperties'', VBool False)]"

definition input_schema :: "ToolSpec \<Rightarrow> dict" where
  "input_schema spec = (case sp_input_schema spec of Some s \<Rightarrow> s | None \<Rightarrow> parameters_schema (sp_parameters spec))"

definition activity_schema :: "ActivityDeclaration \<Rightarrow> dict" where
  "activity_schema a = dict_put ''description'' (VStr (av_description a)) (av_schema a)"

text \<open>
  The definitions of the annotation move to the root of the schema, where references look for them.
\<close>

fun merge_definitions :: "dict \<Rightarrow> dict \<Rightarrow> exn + dict" where
  "merge_definitions base [] = Inr base"
| "merge_definitions base ((name, d) # ds) =
     (if (case map_of base name of Some d' \<Rightarrow> \<not> py_eq d' d | None \<Rightarrow> False)
      then Inl (ConfigurationError (''Activity schema definition '' @ quoted name @ '' conflicts with the tool schema.''))
      else merge_definitions (dict_put name d base) ds)"

definition hoist_definitions_under ::
  "string \<Rightarrow> dict \<times> dict \<Rightarrow> exn + dict \<times> dict" where
  "hoist_definitions_under key p =
     (case p of (merged, nested) \<Rightarrow>
        let rest = filter (\<lambda>(k, _). k \<noteq> key) nested in
        case map_of nested key of
          Some (VDict definitions) \<Rightarrow>
            bindE (merge_definitions (case map_of merged key of Some (VDict d) \<Rightarrow> d | _ \<Rightarrow> []) definitions)
              (\<lambda>base. Inr (dict_put key (VDict base) merged, rest))
        | _ \<Rightarrow> Inr (merged, rest))"

definition hoist_definitions :: "dict \<Rightarrow> dict \<Rightarrow> exn + dict \<times> dict" where
  "hoist_definitions merged nested =
     bindE (hoist_definitions_under ''$defs'' (merged, nested)) (hoist_definitions_under ''definitions'')"

definition activity_properties :: "dict \<Rightarrow> string \<Rightarrow> exn + dict \<times> dict" where
  "activity_properties merged tool_name =
     (let properties = (case map_of merged ''properties'' of Some (VDict d) \<Rightarrow> d | _ \<Rightarrow> []) in
      if get_or_none merged ''type'' \<noteq> VNone \<and> get_or_none merged ''type'' \<noteq> VStr ''object''
      then Inl (ConfigurationError (''Tool '' @ quoted tool_name @ '' input schema must be an object to declare an activity annotation''))
      else if map_of properties activity_key \<noteq> None
      then Inl (ConfigurationError (''Tool '' @ quoted tool_name @ '' input schema already declares an '' @ quoted activity_key @ '' property''))
      else Inr (properties, if map_of merged ''type'' = None then dict_put ''type'' (VStr ''object'') merged else merged))"

text \<open>The names of the required properties as the schema lists them.\<close>

definition listed_required :: "dict \<Rightarrow> exn + pyval list" where
  "listed_required schema =
     (case get_or_none schema ''required'' of
        VList vs \<Rightarrow> Inr vs
      | VStr s \<Rightarrow> Inr (map (\<lambda>c. VStr [c]) s)
      | VDict d \<Rightarrow> Inr (map (VStr \<circ> fst) d)
      | v \<Rightarrow> if truthy_meta (Some v) then Inl (TypeError ''object is not iterable'') else Inr [])"

definition schema_with_activity ::
  "dict \<Rightarrow> ActivityDeclaration \<Rightarrow> string \<Rightarrow> exn + dict" where
  "schema_with_activity schema a tool_name =
     bindE (hoist_definitions schema (activity_schema a)) (\<lambda>(merged, nested).
     bindE (activity_properties merged tool_name) (\<lambda>(properties, merged).
     let merged = dict_put ''properties'' (VDict (dict_put activity_key (VDict nested) properties)) merged in
     if \<not> av_required a then Inr merged
     else bindE (listed_required merged) (\<lambda>required.
       Inr (dict_put ''required'' (VList (if VStr activity_key \<in> set required then required
            else required @ [VStr activity_key])) merged))))"

definition schema_for_spec :: "ToolSpec \<Rightarrow> exn + dict" where
  "schema_for_spec spec =
     (case sp_activity spec of
        None \<Rightarrow> Inr (input_schema spec)
      | Some a \<Rightarrow> schema_with_activity (input_schema spec) a (sp_name spec))"

subsection \<open>The declarations for the providers\<close>

definition to_openai_tool :: "ToolSpec \<Rightarrow> exn + dict" where
  "to_openai_tool spec =
     bindE (schema_for_spec spec) (\<lambda>schema.
     Inr [(''type'', VStr ''function''),
          (''function'', VDict [(''name'', VStr (sp_name spec)), (''description'', VStr (sp_description spec)),
             (''parameters'', VDict schema)])])"

definition to_anthropic_tool :: "ToolSpec \<Rightarrow> exn + dict" where
  "to_anthropic_tool spec =
     bindE (schema_for_spec spec) (\<lambda>schema.
     Inr [(''name'', VStr (sp_name spec)), (''description'', VStr (sp_description spec)), (''input_schema'', VDict schema)])"

definition to_codex_tool :: "ToolSpec \<Rightarrow> exn + dict" where
  "to_codex_tool spec =
     bindE (schema_for_spec spec) (\<lambda>schema.
     Inr [(''type'', VStr ''function''), (''name'', VStr (sp_name spec)), (''description'', VStr (sp_description spec)),
          (''inputSchema'', VDict schema)])"

subsection \<open>The dialect of Gemini\<close>

definition gemini_schema_keywords :: "string list" where
  "gemini_schema_keywords =
     [''type'', ''format'', ''title'', ''description'', ''nullable'', ''enum'', ''default'', ''example'',
      ''properties'', ''required'', ''items'', ''anyOf'', ''propertyOrdering'',
      ''minimum'', ''maximum'', ''minLength'', ''maxLength'', ''minItems'', ''maxItems'', ''pattern'']"

definition gemini_schema_nodes :: "string list" where
  "gemini_schema_nodes = [''items'', ''anyOf'']"

definition gemini_type_keywords :: "string \<Rightarrow> string list" where
  "gemini_type_keywords name =
     (case map_of [(''object'', [''properties'', ''required'', ''propertyOrdering'']),
         (''array'', [''items'', ''minItems'', ''maxItems'']),
         (''string'', [''minLength'', ''maxLength'', ''pattern'']),
         (''number'', [''minimum'', ''maximum'']), (''integer'', [''minimum'', ''maximum''])] name of
        Some ks \<Rightarrow> ks | None \<Rightarrow> [])"

definition gemini_branch_only_keywords :: "string list" where
  "gemini_branch_only_keywords =
     concat (map gemini_type_keywords [''object'', ''array'', ''string'', ''number'', ''integer''])"

definition gemini_folded_bounds :: "(string \<times> string) list" where
  "gemini_folded_bounds =
     [(''exclusiveMinimum'', ''greater than ''), (''exclusiveMaximum'', ''less than ''), (''multipleOf'', ''a multiple of '')]"

text \<open>\<^verbatim>\<open>dict.fromkeys\<close> keeps the first of equal names.\<close>

definition first_names :: "string list \<Rightarrow> string list" where
  "first_names ns = rev (remdups (rev ns))"

definition gemini_single_type :: "dict \<Rightarrow> dict" where
  "gemini_single_type kept =
     (case map_of kept ''type'' of
        Some (VList types) \<Rightarrow>
          let untyped = filter (\<lambda>(k, _). k \<noteq> ''type'') kept;
              names = first_names (filter (\<lambda>n. n \<noteq> ''null'') (texts_of types));
              collapsed = (if VStr ''null'' \<in> set types then dict_put ''nullable'' (VBool True) untyped else untyped) in
          (case names of
             [] \<Rightarrow> collapsed
           | [name] \<Rightarrow> dict_put ''type'' (VStr name) collapsed
           | _ \<Rightarrow>
               let branches = map (\<lambda>name. VDict ((''type'', VStr name) #
                     filter (\<lambda>(k, _). k \<in> set (gemini_type_keywords name)) kept)) names;
                   outer = filter (\<lambda>(k, _). k \<notin> set gemini_branch_only_keywords) collapsed in
               if map_of outer ''anyOf'' = None then outer @ [(''anyOf'', VList branches)] else outer)
      | _ \<Rightarrow> kept)"

definition with_items :: "dict \<Rightarrow> dict" where
  "with_items d =
     (if map_of d ''type'' = Some (VStr ''array'') \<and> map_of d ''items'' = None then d @ [(''items'', VDict [])] else d)"

definition gemini_array_items :: "dict \<Rightarrow> dict" where
  "gemini_array_items kept =
     (let patched = with_items kept in
      case map_of patched ''anyOf'' of
        Some (VList branches) \<Rightarrow>
          dict_put ''anyOf'' (VList (map (\<lambda>b. case b of VDict d \<Rightarrow> VDict (with_items d) | _ \<Rightarrow> b) branches)) patched
      | _ \<Rightarrow> patched)"

definition is_enum_text :: "pyval \<Rightarrow> bool" where
  "is_enum_text v \<longleftrightarrow> (case v of VStr _ \<Rightarrow> True | VNone \<Rightarrow> True | _ \<Rightarrow> False)"

definition gemini_enum_strings :: "(pyval \<Rightarrow> string) \<Rightarrow> dict \<Rightarrow> dict" where
  "gemini_enum_strings dumps kept =
     (case map_of kept ''enum'' of
        Some (VList vs) \<Rightarrow>
          if list_all is_enum_text vs then kept
          else dict_put ''enum'' (VList (map (\<lambda>v. if is_enum_text v then v else VStr (dumps v)) vs)) kept
      | _ \<Rightarrow> kept)"

definition gemini_fold_bounds :: "(pyval \<Rightarrow> string) \<Rightarrow> dict \<Rightarrow> dict \<Rightarrow> dict" where
  "gemini_fold_bounds show node kept =
     (let clauses = List.map_filter (\<lambda>(k, v). map_option (\<lambda>words. words @ str_of show v) (map_of gemini_folded_bounds k)) node;
          description = strip (str_of show (get_or_default kept ''description'' (VStr []))) in
      if clauses = [] then kept
      else dict_put ''description'' (VStr (strip (description @ '' Must be '' @ joined '', '' clauses @ ''.''))) kept)"

text \<open>The last part of a reference, after its last slash.\<close>

definition ref_target :: "string \<Rightarrow> string" where
  "ref_target ref = rev (takeWhile (\<lambda>c. c \<noteq> CHR ''/'') (rev ref))"

lemma mapE_cong [fundef_cong]:
  "xs = ys \<Longrightarrow> (\<And>x. x \<in> set ys \<Longrightarrow> f x = g x) \<Longrightarrow> mapE f xs = mapE g ys"
  by (induction xs arbitrary: ys) auto

text \<open>
  \<open>reduce\<close> is the reduction of a node below; a value that is no object passes as it is.
\<close>

definition reduce_node :: "(dict \<Rightarrow> exn + dict) \<Rightarrow> pyval \<Rightarrow> exn + pyval" where
  "reduce_node reduce v = (case v of VDict d \<Rightarrow> bindE (reduce d) (\<lambda>r. Inr (VDict r)) | _ \<Rightarrow> Inr v)"

definition gemini_keyword_value :: "(dict \<Rightarrow> exn + dict) \<Rightarrow> string \<Rightarrow> pyval \<Rightarrow> exn + pyval" where
  "gemini_keyword_value reduce key v =
     (case v of
        VDict d \<Rightarrow>
          if key = ''properties''
          then bindE (mapE (\<lambda>(name, sub). bindE (reduce_node reduce sub) (\<lambda>r. Inr (name, r))) d)
                 (\<lambda>rs. Inr (VDict (dict_merge [] rs)))
          else if key \<in> set gemini_schema_nodes then reduce_node reduce v else Inr v
      | VList vs \<Rightarrow>
          if key \<in> set gemini_schema_nodes then bindE (mapE (reduce_node reduce) vs) (\<lambda>rs. Inr (VList rs)) else Inr v
      | _ \<Rightarrow> Inr v)"

text \<open>The nodes that the reduction of a value reaches.\<close>

definition sub_nodes :: "string \<Rightarrow> pyval \<Rightarrow> dict list" where
  "sub_nodes key v =
     (case v of
        VDict d \<Rightarrow> if key = ''properties'' then dicts_of (map snd d) else if key \<in> set gemini_schema_nodes then [d] else []
      | VList vs \<Rightarrow> if key \<in> set gemini_schema_nodes then dicts_of vs else []
      | _ \<Rightarrow> [])"

lemma dicts_of_iff: "e \<in> set (dicts_of vs) \<longleftrightarrow> VDict e \<in> set vs"
  by (induction vs) (auto split: pyval.splits)

lemma gemini_keyword_value_cong [fundef_cong]:
  assumes "key = key'" and "v = v'" and parts: "\<And>e. e \<in> set (sub_nodes key' v') \<Longrightarrow> f e = g e"
  shows "gemini_keyword_value f key v = gemini_keyword_value g key' v'"
proof (cases v')
  case (VDict d)
  have "reduce_node f u = reduce_node g u" if "(n, u) \<in> set d" "key' = ''properties''" for n u
    using parts that VDict by (cases u) (force simp: reduce_node_def sub_nodes_def dicts_of_iff)+
  then have "mapE (\<lambda>(name, sub). bindE (reduce_node f sub) (\<lambda>r. Inr (name, r))) d =
      mapE (\<lambda>(name, sub). bindE (reduce_node g sub) (\<lambda>r. Inr (name, r))) d" if "key' = ''properties''"
    using that by (intro mapE_cong) auto
  then show ?thesis using parts assms(1,2) VDict
    by (auto simp: gemini_keyword_value_def reduce_node_def sub_nodes_def)
next
  case (VList vs)
  have "reduce_node f u = reduce_node g u" if "u \<in> set vs" "key' \<in> set gemini_schema_nodes" for u
    using parts that VList by (cases u) (auto simp: reduce_node_def sub_nodes_def dicts_of_iff)
  then have "mapE (reduce_node f) vs = mapE (reduce_node g) vs" if "key' \<in> set gemini_schema_nodes"
    using that by (intro mapE_cong) auto
  then show ?thesis using assms(1,2) VList by (simp add: gemini_keyword_value_def)
qed (simp_all add: assms(1,2) gemini_keyword_value_def)

text \<open>
  A reference into the definitions is expanded in place unless the expansion is already under way; a
  definition that is no object has no items to read.
\<close>

function gemini_node :: "(pyval \<Rightarrow> string) \<Rightarrow> (pyval \<Rightarrow> string) \<Rightarrow> dict \<Rightarrow> string list \<Rightarrow> dict \<Rightarrow> exn + dict" where
  "gemini_node show dumps defs seen node =
     bindE (mapE (\<lambda>(key, v). bindE (gemini_keyword_value (gemini_node show dumps defs seen) key v) (\<lambda>r. Inr (key, r)))
       (filter (\<lambda>(key, _). key \<in> set gemini_schema_keywords) node)) (\<lambda>entries.
     let kept = gemini_fold_bounds show node
           (gemini_enum_strings dumps (gemini_array_items (gemini_single_type (dict_merge [] entries)))) in
     case get_or_none node ''$ref'' of
       VStr ref \<Rightarrow>
         if ref_target ref \<in> set seen then Inr kept
         else (case map_of defs (ref_target ref) of
             None \<Rightarrow> Inr kept
           | Some (VDict d) \<Rightarrow>
               bindE (gemini_node show dumps defs (seen @ [ref_target ref]) d) (\<lambda>expanded. Inr (dict_merge expanded kept))
           | Some _ \<Rightarrow> Inl (Exn ''AttributeError'' [''Exception'', ''BaseException''] ''items''))
     | _ \<Rightarrow> Inr kept)"
  by pat_completeness auto

text \<open>An expansion uses up a name of the definitions; every other call goes to a part of the node.\<close>

definition expansion_order ::
  "(((pyval \<Rightarrow> string) \<times> (pyval \<Rightarrow> string) \<times> dict \<times> string list \<times> dict) \<times>
    ((pyval \<Rightarrow> string) \<times> (pyval \<Rightarrow> string) \<times> dict \<times> string list \<times> dict)) set" where
  "expansion_order = (\<lambda>(sh, dumps, defs, seen, node). card (fst ` set defs - set seen)) <*mlex*>
     measure (\<lambda>(sh, dumps, defs, seen, node). size (VDict node))"

lemma wf_expansion_order: "wf expansion_order"
  by (simp add: expansion_order_def wf_mlex)

lemma size_dict_entry: "(k, v) \<in> set d \<Longrightarrow> size v < size (VDict d)"
  by (induction d) (auto split: prod.splits)

lemma size_list_item: "v \<in> set vs \<Longrightarrow> size v < size (VList vs)"
  by (induction vs) auto

lemma size_sub_node: "e \<in> set (sub_nodes k v) \<Longrightarrow> size (VDict e) \<le> size v"
proof (cases v)
  case (VDict d)
  then show "e \<in> set (sub_nodes k v) \<Longrightarrow> size (VDict e) \<le> size v"
    using size_dict_entry [of _ "VDict e" d] by (fastforce simp: sub_nodes_def dicts_of_iff split: if_splits)
next
  case (VList vs)
  then show "e \<in> set (sub_nodes k v) \<Longrightarrow> size (VDict e) \<le> size v"
    using size_list_item [of "VDict e" vs] by (auto simp: sub_nodes_def dicts_of_iff split: if_splits)
qed (simp_all add: sub_nodes_def)

lemma part_in_order:
  "size (VDict e) < size (VDict node) \<Longrightarrow> ((sh, dumps, defs, seen, e), sh, dumps, defs, seen, node) \<in> expansion_order"
  by (simp add: expansion_order_def mlex_iff)

lemma expanded_in_order:
  assumes "map_of defs t = Some v" and "t \<notin> set seen"
  shows "((sh, dumps, defs, seen @ [t], e), sh, dumps, defs, seen, node) \<in> expansion_order"
proof -
  have "t \<in> fst ` set defs - set seen" using assms by (force dest: map_of_SomeD)
  then have "card (fst ` set defs - insert t (set seen)) < card (fst ` set defs - set seen)"
    by (intro psubset_card_mono) auto
  then show ?thesis by (simp add: expansion_order_def mlex_iff)
qed

termination gemini_node
proof (relation expansion_order, rule wf_expansion_order, goal_cases)
  case (1 sh dumps defs seen node entry key v e)
  then have "(key, v) \<in> set node" by auto
  from size_dict_entry [OF this] size_sub_node [OF 1(3)] show ?case by (intro part_in_order) simp
next
  case (2 sh dumps defs seen node entries kept ref v d)
  then show ?case by (intro expanded_in_order) auto
qed

declare gemini_node.simps [simp del]

definition gemini_schema :: "(pyval \<Rightarrow> string) \<Rightarrow> (pyval \<Rightarrow> string) \<Rightarrow> dict \<Rightarrow> exn + dict" where
  "gemini_schema show dumps schema =
     (let under = (\<lambda>key. case map_of schema key of
            Some (VDict d) \<Rightarrow> Inr d
          | Some v \<Rightarrow> if truthy_meta (Some v) then Inl (TypeError ''object is not a mapping'') else Inr []
          | None \<Rightarrow> Inr []) in
      bindE (under ''definitions'') (\<lambda>old.
      bindE (under ''$defs'') (\<lambda>new.
      gemini_node show dumps (dict_merge old new) []
        (filter (\<lambda>(k, _). k \<noteq> ''$defs'' \<and> k \<noteq> ''definitions'') schema))))"

definition to_gemini_tool :: "(pyval \<Rightarrow> string) \<Rightarrow> (pyval \<Rightarrow> string) \<Rightarrow> ToolSpec \<Rightarrow> exn + dict" where
  "to_gemini_tool show dumps spec =
     bindE (schema_for_spec spec) (\<lambda>schema.
     bindE (gemini_schema show dumps schema) (\<lambda>reduced.
     Inr [(''function_declarations'', VList [VDict [(''name'', VStr (sp_name spec)),
        (''description'', VStr (sp_description spec)), (''parameters'', VDict reduced)]])]))"

definition format_tools ::
  "(pyval \<Rightarrow> string) \<Rightarrow> (pyval \<Rightarrow> string) \<Rightarrow> ToolSpec list \<Rightarrow> string \<Rightarrow> exn + dict list" where
  "format_tools show dumps specs provider_or_model =
     (let provider = provider_from_model (Some provider_or_model) in
      mapE (if provider = ''anthropic'' then to_anthropic_tool
            else if provider = ''gemini'' then to_gemini_tool show dumps else to_openai_tool) specs)"

subsection \<open>What Gemini accepts\<close>

text \<open>
  A node carries only keywords of the dialect, each once; its type is one name; an array says what its
  items are; the values of an enumeration are texts.  The same holds of every node below it.
\<close>

definition untyped_list :: "dict \<Rightarrow> bool" where
  "untyped_list d \<longleftrightarrow> (case map_of d ''type'' of Some (VList _) \<Rightarrow> False | _ \<Rightarrow> True)"

definition items_given :: "dict \<Rightarrow> bool" where
  "items_given d \<longleftrightarrow> map_of d ''type'' \<noteq> Some (VStr ''array'') \<or> map_of d ''items'' \<noteq> None"

definition enum_texts :: "dict \<Rightarrow> bool" where
  "enum_texts d \<longleftrightarrow> (case map_of d ''enum'' of Some (VList vs) \<Rightarrow> list_all is_enum_text vs | _ \<Rightarrow> True)"

definition known_keys :: "dict \<Rightarrow> bool" where
  "known_keys d \<longleftrightarrow> dict_wf d \<and> list_all (\<lambda>(k, _). k \<in> set gemini_schema_keywords) d"

fun gemini_accepts :: "pyval \<Rightarrow> bool" where
  "gemini_accepts (VDict d) \<longleftrightarrow>
     known_keys d \<and> untyped_list d \<and> items_given d \<and> enum_texts d \<and>
     list_all (\<lambda>(k, v). case v of
         VDict e \<Rightarrow>
           if k = ''properties'' then dict_wf e \<and> list_all (\<lambda>(_, u). gemini_accepts u) e
           else if k \<in> set gemini_schema_nodes then gemini_accepts (VDict e) else True
       | VList vs \<Rightarrow> if k \<in> set gemini_schema_nodes then list_all gemini_accepts vs else True
       | _ \<Rightarrow> True) d"
| "gemini_accepts v = True"

definition entry_ok :: "string \<times> pyval \<Rightarrow> bool" where
  "entry_ok = (\<lambda>(k, v). case v of
         VDict e \<Rightarrow>
           if k = ''properties'' then dict_wf e \<and> list_all (\<lambda>(_, u). gemini_accepts u) e
           else if k \<in> set gemini_schema_nodes then gemini_accepts (VDict e) else True
       | VList vs \<Rightarrow> if k \<in> set gemini_schema_nodes then list_all gemini_accepts vs else True
       | _ \<Rightarrow> True)"

definition sound :: "dict \<Rightarrow> bool" where
  "sound d \<longleftrightarrow> known_keys d \<and> list_all entry_ok d"

lemma gemini_accepts_dict: "gemini_accepts (VDict d) \<longleftrightarrow> sound d \<and> untyped_list d \<and> items_given d \<and> enum_texts d"
  by (subst gemini_accepts.simps(1)) (auto simp only: sound_def entry_ok_def)

declare gemini_accepts.simps(1) [simp del]

lemma known_keys_put: "known_keys d \<Longrightarrow> k \<in> set gemini_schema_keywords \<Longrightarrow> known_keys (dict_put k v d)"
  by (auto simp: known_keys_def list_all_iff dest!: dict_put_values)

lemma sound_put: "sound d \<Longrightarrow> k \<in> set gemini_schema_keywords \<Longrightarrow> entry_ok (k, v) \<Longrightarrow> sound (dict_put k v d)"
  by (auto simp: sound_def known_keys_put list_all_iff dest!: dict_put_values)

lemma sound_filter: "sound d \<Longrightarrow> sound (filter P d)"
  by (auto simp: sound_def known_keys_def list_all_iff dict_wf_def distinct_map_filter)

lemma sound_append: "sound d \<Longrightarrow> k \<in> set gemini_schema_keywords \<Longrightarrow> map_of d k = None \<Longrightarrow> entry_ok (k, v) \<Longrightarrow> sound (d @ [(k, v)])"
  by (auto simp: sound_def known_keys_def list_all_iff dict_wf_def map_of_eq_None_iff)

lemma sound_merge: "sound a \<Longrightarrow> sound b \<Longrightarrow> sound (dict_merge a b)"
proof (induction b arbitrary: a)
  case Nil
  then show ?case by (simp add: dict_merge_def)
next
  case (Cons p b)
  obtain k v where p: "p = (k, v)" by (cases p)
  have "sound b" using Cons.prems by (auto simp: sound_def known_keys_def dict_wf_def)
  moreover have "sound (dict_put k v a)"
    using Cons.prems by (intro sound_put) (auto simp: p sound_def known_keys_def)
  ultimately have "sound (dict_merge (dict_put k v a) b)" using Cons.IH by blast
  then show ?case by (simp add: dict_merge_def p)
qed

text \<open>Each step of the reduction settles one of these conditions and keeps the others.\<close>

lemma keyword_facts:
  "''items'' \<in> set gemini_schema_keywords" "''anyOf'' \<in> set gemini_schema_keywords" "''type'' \<in> set gemini_schema_keywords"
  "''enum'' \<in> set gemini_schema_keywords" "''description'' \<in> set gemini_schema_keywords"
  "''nullable'' \<in> set gemini_schema_keywords"
  by (simp_all add: gemini_schema_keywords_def)

lemma entry_ok_simps [simp]:
  "entry_ok (k, VStr t)" "entry_ok (k, VBool b)" "entry_ok (''enum'', VList vs)"
  "entry_ok (''anyOf'', VList vs) \<longleftrightarrow> list_all gemini_accepts vs" "entry_ok (''items'', VDict e) \<longleftrightarrow> gemini_accepts (VDict e)"
  by (simp_all add: entry_ok_def gemini_schema_nodes_def)

lemma nothing_accepted: "gemini_accepts (VDict [])"
  by (simp add: gemini_accepts.simps known_keys_def untyped_list_def items_given_def enum_texts_def)

lemma with_items_sound: "sound d \<Longrightarrow> sound (with_items d)"
  by (auto simp: with_items_def keyword_facts nothing_accepted intro!: sound_append)

lemma with_items_given: "items_given (with_items d)"
  by (auto simp: with_items_def items_given_def map_add_def split: option.split)

lemma with_items_rest: "k \<noteq> ''items'' \<Longrightarrow> map_of (with_items d) k = map_of d k"
  by (auto simp: with_items_def map_add_def split: option.split)

definition reducible :: "pyval \<Rightarrow> bool" where
  "reducible v \<longleftrightarrow> (case v of VDict d \<Rightarrow> sound d \<and> untyped_list d \<and> enum_texts d | _ \<Rightarrow> True)"

lemma accepted_reducible: "gemini_accepts v \<Longrightarrow> reducible v"
  by (auto simp: reducible_def gemini_accepts_dict split: pyval.split)

lemma reducible_with_items: "reducible (VDict d) \<Longrightarrow> gemini_accepts (VDict (with_items d))"
  by (simp add: reducible_def gemini_accepts_dict with_items_sound with_items_given)
     (simp add: untyped_list_def enum_texts_def with_items_rest)

text \<open>Sound up to the branches, which may still lack their items.\<close>

definition nearly_sound :: "dict \<Rightarrow> bool" where
  "nearly_sound d \<longleftrightarrow> known_keys d \<and>
     list_all (\<lambda>(k, v). case v of VList bs \<Rightarrow> if k = ''anyOf'' then list_all reducible bs else entry_ok (k, v) | _ \<Rightarrow> entry_ok (k, v)) d"

lemma sound_nearly: "sound d \<Longrightarrow> nearly_sound d"
  by (auto simp: sound_def nearly_sound_def list_all_iff accepted_reducible split: pyval.split)

lemma type_keywords: "k \<in> set (gemini_type_keywords name) \<Longrightarrow> k \<noteq> ''type'' \<and> k \<noteq> ''enum'' \<and> k \<noteq> ''anyOf''"
  by (auto simp: gemini_type_keywords_def split: if_splits)

lemma branch_reducible:
  assumes "sound kept"
  shows "reducible (VDict ((''type'', VStr name) # filter (\<lambda>(k, _). k \<in> set (gemini_type_keywords name)) kept))"
proof -
  let ?own = "filter (\<lambda>(k, _). k \<in> set (gemini_type_keywords name)) kept"
  have own: "sound ?own" using assms by (rule sound_filter)
  have absent: "map_of ?own ''type'' = None" "map_of ?own ''enum'' = None"
    by (auto simp: map_of_eq_None_iff dest: type_keywords)
  have "sound ((''type'', VStr name) # ?own)"
    using own absent(1) by (auto simp: sound_def known_keys_def dict_wf_def keyword_facts map_of_eq_None_iff)
  then show ?thesis using absent(2) by (simp add: reducible_def untyped_list_def enum_texts_def)
qed

lemma untyped_list_None: "map_of d ''type'' = None \<Longrightarrow> untyped_list d"
  by (simp add: untyped_list_def)

lemma map_of_filtered: "map_of d k = None \<Longrightarrow> map_of (filter P d) k = None"
  by (auto simp: map_of_eq_None_iff)

lemma nearly_sound_append:
  "nearly_sound d \<Longrightarrow> map_of d ''anyOf'' = None \<Longrightarrow> list_all reducible bs \<Longrightarrow> nearly_sound (d @ [(''anyOf'', VList bs)])"
  by (auto simp: nearly_sound_def known_keys_def dict_wf_def map_of_eq_None_iff keyword_facts)

lemma single_type_steps:
  assumes "sound kept"
  shows "nearly_sound (gemini_single_type kept) \<and> untyped_list (gemini_single_type kept)"
proof (cases "map_of kept ''type''")
  case None
  then show ?thesis using assms by (simp add: gemini_single_type_def sound_nearly untyped_list_None)
next
  case (Some v)
  show ?thesis
  proof (cases v)
    case (VList types)
    define untyped where "untyped = filter (\<lambda>(k, _). k \<noteq> ''type'') kept"
    define collapsed where "collapsed = (if VStr ''null'' \<in> set types then dict_put ''nullable'' (VBool True) untyped else untyped)"
    define outer where "outer = filter (\<lambda>(k, _). k \<notin> set gemini_branch_only_keywords) collapsed"
    have sound: "sound collapsed"
      using assms by (simp add: collapsed_def untyped_def sound_filter sound_put keyword_facts)
    have none: "map_of collapsed ''type'' = None"
      by (auto simp: collapsed_def untyped_def map_of_eq_None_iff)
    have outer: "nearly_sound outer" "map_of outer ''type'' = None"
      using sound none by (simp_all add: outer_def sound_filter sound_nearly map_of_filtered)
    define names where "names = first_names (filter (\<lambda>n. n \<noteq> ''null'') (texts_of types))"
    define branches where "branches = map (\<lambda>name. VDict ((''type'', VStr name) #
                     filter (\<lambda>(k, _). k \<in> set (gemini_type_keywords name)) kept)) names"
    have branches: "list_all reducible branches"
      using branch_reducible [OF assms] by (simp add: branches_def list_all_iff)
    have step: "gemini_single_type kept = (case names of [] \<Rightarrow> collapsed
        | [name] \<Rightarrow> dict_put ''type'' (VStr name) collapsed
        | _ \<Rightarrow> if map_of outer ''anyOf'' = None then outer @ [(''anyOf'', VList branches)] else outer)"
      by (simp add: gemini_single_type_def Some VList names_def branches_def outer_def collapsed_def untyped_def Let_def
          split: list.split)
    consider "names = []" | n where "names = [n]" | a b r where "names = a # b # r"
      by (metis list.exhaust)
    then show ?thesis
    proof cases
      case 1
      then show ?thesis using sound none by (simp add: step sound_nearly untyped_list_None)
    next
      case 2
      then show ?thesis using sound by (simp add: step sound_nearly sound_put keyword_facts) (simp add: untyped_list_def)
    next
      case 3
      then show ?thesis using outer branches
        by (simp add: step nearly_sound_append) (simp add: untyped_list_def map_add_def)
    qed
  qed (use assms Some in \<open>simp_all add: gemini_single_type_def sound_nearly untyped_list_def\<close>)
qed

lemma dict_put_entries:
  "dict_wf d \<Longrightarrow> (k', v') \<in> set (dict_put k v d) \<longleftrightarrow> (if k' = k then v' = v else (k', v') \<in> set d)"
  using dict_wf_lookup [of "dict_put k v d" k' v'] dict_wf_lookup [of d k' v'] by auto

lemma nearly_entry:
  "nearly_sound d \<Longrightarrow> (k, v) \<in> set d \<Longrightarrow> k = ''anyOf'' \<longrightarrow> (\<forall>bs. v \<noteq> VList bs) \<Longrightarrow> entry_ok (k, v)"
  by (cases v) (auto simp: nearly_sound_def list_all_iff)

lemma array_items_steps:
  assumes "nearly_sound d" and "untyped_list d"
  shows "sound (gemini_array_items d) \<and> untyped_list (gemini_array_items d) \<and> items_given (gemini_array_items d)"
proof -
  have near: "nearly_sound (with_items d)"
    using assms(1) by (auto simp: with_items_def nearly_sound_def known_keys_def dict_wf_def keyword_facts nothing_accepted
        map_of_eq_None_iff)
  have rest: "untyped_list (with_items d)" "items_given (with_items d)"
    using assms(2) with_items_given by (simp_all add: untyped_list_def with_items_rest)
  show ?thesis
  proof (cases "\<exists>bs. map_of (with_items d) ''anyOf'' = Some (VList bs)")
    case True
    then obtain bs where bs: "map_of (with_items d) ''anyOf'' = Some (VList bs)" by blast
    have "list_all reducible bs"
      using near map_of_SomeD [OF bs] by (auto simp: nearly_sound_def list_all_iff)
    then have fixed: "list_all gemini_accepts (map (\<lambda>b. case b of VDict d \<Rightarrow> VDict (with_items d) | _ \<Rightarrow> b) bs)"
      by (auto simp: list_all_iff reducible_with_items split: pyval.split)
    have wf: "dict_wf (with_items d)" using near by (simp add: nearly_sound_def known_keys_def)
    have step: "gemini_array_items d = dict_put ''anyOf'' (VList (map (\<lambda>b. case b of VDict d \<Rightarrow> VDict (with_items d) | _ \<Rightarrow> b) bs)) (with_items d)"
      by (simp add: gemini_array_items_def bs)
    have "entry_ok (k, v)" if "(k, v) \<in> set (with_items d)" "k \<noteq> ''anyOf''" for k v
      using nearly_entry [OF near that(1)] that(2) by simp
    then have "list_all entry_ok (gemini_array_items d)"
      using fixed by (auto simp: step list_all_iff dict_put_entries [OF wf] split: if_splits)
    moreover have "known_keys (gemini_array_items d)"
      using near by (simp add: step nearly_sound_def known_keys_put keyword_facts)
    ultimately show ?thesis using rest by (simp add: sound_def step untyped_list_def items_given_def)
  next
    case False
    have wf: "dict_wf (with_items d)" using near by (simp add: nearly_sound_def known_keys_def)
    have "entry_ok (k, v)" if "(k, v) \<in> set (with_items d)" for k v
      using nearly_entry [OF near that] that False dict_wf_lookup [OF wf, of k v] by auto
    then have "sound (with_items d)" using near by (auto simp: sound_def nearly_sound_def list_all_iff)
    moreover have "gemini_array_items d = with_items d"
      using False by (auto simp: gemini_array_items_def Let_def split: option.split pyval.split)
    ultimately show ?thesis using rest by simp
  qed
qed

lemma enum_steps:
  assumes "sound d"
  shows "sound (gemini_enum_strings dumps d) \<and> enum_texts (gemini_enum_strings dumps d) \<and>
    (\<forall>k. k \<noteq> ''enum'' \<longrightarrow> map_of (gemini_enum_strings dumps d) k = map_of d k)"
  using assms by (auto simp: gemini_enum_strings_def enum_texts_def sound_put keyword_facts list_all_iff is_enum_text_def
      split: option.split pyval.split)

lemma fold_bounds_steps:
  "sound d \<Longrightarrow> sound (gemini_fold_bounds show node d) \<and>
    (\<forall>k. k \<noteq> ''description'' \<longrightarrow> map_of (gemini_fold_bounds show node d) k = map_of d k)"
  by (auto simp: gemini_fold_bounds_def Let_def sound_put keyword_facts)

lemma reduced_accepted:
  assumes "sound kept"
  shows "gemini_accepts (VDict (gemini_fold_bounds show node (gemini_enum_strings dumps (gemini_array_items (gemini_single_type kept)))))"
proof -
  let ?a = "gemini_array_items (gemini_single_type kept)"
  have a: "sound ?a" "untyped_list ?a" "items_given ?a" using single_type_steps [OF assms] array_items_steps by blast+
  let ?e = "gemini_enum_strings dumps ?a"
  have e: "sound ?e" "enum_texts ?e" "untyped_list ?e" "items_given ?e"
    using enum_steps [OF a(1), of dumps] a(2,3) by (auto simp: untyped_list_def items_given_def)
  show ?thesis using fold_bounds_steps [OF e(1), of "show" node] e(2,3,4)
    by (auto simp: gemini_accepts_dict untyped_list_def items_given_def enum_texts_def)
qed

lemma merged_accepted:
  assumes "gemini_accepts (VDict a)" and "gemini_accepts (VDict b)"
  shows "gemini_accepts (VDict (dict_merge a b))"
proof -
  have "dict_wf b" using assms(2) by (simp add: gemini_accepts_dict sound_def known_keys_def)
  then have get: "map_of (dict_merge a b) = map_of a ++ map_of b"
    by (simp add: dict_merge_get dict_wf_def map_of_inject_set [of "rev b" b, THEN iffD2] rev_map [symmetric])
  show ?thesis
    using assms by (auto simp: gemini_accepts_dict sound_merge untyped_list_def items_given_def enum_texts_def get map_add_def
        split: option.splits)
qed

text \<open>The entries of a node after the loop over its keywords.\<close>

lemma mapE_values:
  "mapE f xs = Inr ys \<Longrightarrow> (\<And>x y. x \<in> set xs \<Longrightarrow> f x = Inr y \<Longrightarrow> P y) \<Longrightarrow> list_all P ys"
proof (induction xs arbitrary: ys)
  case (Cons x xs)
  then obtain y zs where "f x = Inr y" "mapE f xs = Inr zs" "ys = y # zs" by (auto elim!: bindE_InrE)
  then show ?case using Cons.IH [of zs] Cons.prems(2) by auto
qed simp

lemma sound_entries:
  assumes "list_all (\<lambda>(k, v). k \<in> set gemini_schema_keywords \<and> entry_ok (k, v)) entries" and "sound d"
  shows "sound (dict_merge d entries)"
  using assms
proof (induction entries arbitrary: d)
  case Nil
  then show ?case by (simp add: dict_merge_def)
next
  case (Cons p entries)
  obtain k v where p: "p = (k, v)" by (cases p)
  have "sound (dict_put k v d)" using Cons.prems by (simp add: p sound_put)
  then have "sound (dict_merge (dict_put k v d) entries)" using Cons.IH Cons.prems(1) by simp
  then show ?case by (simp add: dict_merge_def p)
qed

lemma accepted_properties:
  assumes "list_all (\<lambda>(_, u). gemini_accepts u) rs"
  shows "dict_wf (dict_merge [] rs) \<and> list_all (\<lambda>(_, u). gemini_accepts u) (dict_merge [] rs)"
proof -
  have "list_all (\<lambda>(_, u). gemini_accepts u) (dict_merge d rs)" if "list_all (\<lambda>(_, u). gemini_accepts u) d" for d
    using assms that
  proof (induction rs arbitrary: d)
    case Nil
    then show ?case by (simp add: dict_merge_def)
  next
    case (Cons p rs)
    obtain k v where p: "p = (k, v)" by (cases p)
    have "list_all (\<lambda>(_, u). gemini_accepts u) (dict_put k v d)"
      using Cons.prems by (auto simp: p list_all_iff dest!: dict_put_values)
    then have "list_all (\<lambda>(_, u). gemini_accepts u) (dict_merge (dict_put k v d) rs)" using Cons.IH Cons.prems(1) by simp
    then show ?case by (simp add: dict_merge_def p)
  qed
  then show ?thesis by (simp add: dict_merge_wf)
qed

lemma reduce_node_accepted:
  assumes "reduce_node reduce v = Inr r" and "\<And>e r. v = VDict e \<Longrightarrow> reduce e = Inr r \<Longrightarrow> gemini_accepts (VDict r)"
  shows "gemini_accepts r"
  using assms by (cases v) (auto simp: reduce_node_def elim!: bindE_InrE)

lemma keyword_value_ok:
  assumes "gemini_keyword_value reduce key v = Inr r"
    and parts: "\<And>e r. e \<in> set (sub_nodes key v) \<Longrightarrow> reduce e = Inr r \<Longrightarrow> gemini_accepts (VDict r)"
  shows "entry_ok (key, r)"
proof (cases v)
  case (VDict d)
  show ?thesis
  proof (cases "key = ''properties''")
    case True
    then obtain rs where rs: "mapE (\<lambda>(name, sub). bindE (reduce_node reduce sub) (\<lambda>r. Inr (name, r))) d = Inr rs"
      and r: "r = VDict (dict_merge [] rs)"
      using assms(1) VDict by (auto simp: gemini_keyword_value_def elim!: bindE_InrE)
    have "list_all (\<lambda>(_, u). gemini_accepts u) rs"
    proof (rule mapE_values [OF rs])
      fix x y assume x: "x \<in> set d" and y: "(case x of (name, sub) \<Rightarrow> bindE (reduce_node reduce sub) (\<lambda>r. Inr (name, r))) = Inr y"
      obtain n u where xu: "x = (n, u)" by (cases x)
      obtain w where w: "reduce_node reduce u = Inr w" "y = (n, w)" using y xu by (auto elim!: bindE_InrE)
      have "gemini_accepts w"
        by (rule reduce_node_accepted [OF w(1)], rule parts) (use x xu VDict True in \<open>force simp: sub_nodes_def dicts_of_iff\<close>)+
      then show "case y of (_, u) \<Rightarrow> gemini_accepts u" by (simp add: w(2))
    qed
    then show ?thesis using accepted_properties True r by (simp add: entry_ok_def)
  next
    case False
    then show ?thesis using assms VDict reduce_node_accepted [of reduce v r]
      by (auto simp: gemini_keyword_value_def entry_ok_def sub_nodes_def reduce_node_def elim!: bindE_InrE split: if_splits pyval.splits)
  qed
next
  case (VList vs)
  show ?thesis
  proof (cases "key \<in> set gemini_schema_nodes")
    case True
    then obtain rs where rs: "mapE (reduce_node reduce) vs = Inr rs" and r: "r = VList rs"
      using assms(1) VList by (auto simp: gemini_keyword_value_def elim!: bindE_InrE)
    have "list_all gemini_accepts rs"
    proof (rule mapE_values [OF rs])
      fix x y assume x: "x \<in> set vs" and y: "reduce_node reduce x = Inr y"
      show "gemini_accepts y"
        by (rule reduce_node_accepted [OF y], rule parts) (use x VList True in \<open>auto simp: sub_nodes_def dicts_of_iff\<close>)
    qed
    then show ?thesis using True r by (simp add: entry_ok_def)
  next
    case False
    then have "r = VList vs" using assms(1) VList by (simp add: gemini_keyword_value_def)
    then show ?thesis using False by (simp add: entry_ok_def)
  qed
qed (use assms(1) in \<open>auto simp: gemini_keyword_value_def entry_ok_def\<close>)

lemma gemini_node_accepted: "gemini_node sh dumps defs seen node = Inr r \<Longrightarrow> gemini_accepts (VDict r)"
proof (induction sh dumps defs seen node arbitrary: r rule: gemini_node.induct)
  case (1 sh dumps defs seen node)
  obtain entries where entries: "mapE (\<lambda>(key, v). bindE (gemini_keyword_value (gemini_node sh dumps defs seen) key v) (\<lambda>r. Inr (key, r)))
       (filter (\<lambda>(key, _). key \<in> set gemini_schema_keywords) node) = Inr entries"
    using 1(3) by (subst (asm) gemini_node.simps) (auto elim!: bindE_InrE)
  have "list_all (\<lambda>(k, v). k \<in> set gemini_schema_keywords \<and> entry_ok (k, v)) entries"
  proof (rule mapE_values [OF entries])
    fix x y assume x: "x \<in> set (filter (\<lambda>(key, _). key \<in> set gemini_schema_keywords) node)"
      and y: "(case x of (key, v) \<Rightarrow> bindE (gemini_keyword_value (gemini_node sh dumps defs seen) key v) (\<lambda>r. Inr (key, r))) = Inr y"
    obtain k v where kv: "x = (k, v)" by (cases x)
    obtain w where w: "gemini_keyword_value (gemini_node sh dumps defs seen) k v = Inr w" "y = (k, w)"
      using y kv by (auto elim!: bindE_InrE)
    have "entry_ok (k, w)" using keyword_value_ok [OF w(1)] 1(1) [OF x kv [symmetric]] by blast
    then show "case y of (k, v) \<Rightarrow> k \<in> set gemini_schema_keywords \<and> entry_ok (k, v)" using x kv w(2) by simp
  qed
  then have "sound (dict_merge [] entries)" by (rule sound_entries) (simp add: sound_def known_keys_def)
  note kept = reduced_accepted [OF this, of sh node dumps]
  show ?case using 1(3) kept 1(2) [OF entries refl] merged_accepted
    by (subst (asm) gemini_node.simps)
       (auto simp: entries Let_def elim!: bindE_InrE split: pyval.splits option.splits if_splits)
qed


definition number_text :: "pyval \<Rightarrow> string" where
  "number_text v = (case v of VInt n \<Rightarrow> show_int n | _ \<Rightarrow> [])"

definition demo_tree :: dict where
  "demo_tree =
     [(''$defs'', VDict [(''Tree'', VDict [(''type'', VStr ''object''), (''additionalProperties'', VBool False),
        (''properties'', VDict [(''label'', VDict [(''type'', VList [VStr ''string'', VStr ''null''])]),
           (''kind'', VDict [(''enum'', VList [VInt 1, VStr ''leaf''])]),
           (''size'', VDict [(''type'', VStr ''integer''), (''exclusiveMinimum'', VInt 0)]),
           (''children'', VDict [(''type'', VStr ''array''), (''items'', VDict [(''$ref'', VStr ''#/$defs/Tree'')])])])])]),
      (''type'', VStr ''object''),
      (''properties'', VDict [(''root'', VDict [(''$ref'', VStr ''#/$defs/Tree'')]), (''tags'', VDict [(''type'', VStr ''array'')])])]"

definition demo_reduced :: dict where
  "demo_reduced =
     [(''type'', VStr ''object''),
      (''properties'', VDict
        [(''root'', VDict [(''type'', VStr ''object''),
            (''properties'', VDict [(''label'', VDict [(''nullable'', VBool True), (''type'', VStr ''string'')]),
               (''kind'', VDict [(''enum'', VList [VStr ''1'', VStr ''leaf''])]),
               (''size'', VDict [(''type'', VStr ''integer''), (''description'', VStr ''Must be greater than 0.'')]),
               (''children'', VDict [(''type'', VStr ''array''), (''items'', VDict [])])])]),
         (''tags'', VDict [(''type'', VStr ''array''), (''items'', VDict [])])])]"


end
