(* ===== verification/CX_Manager.thy ===== *)
theory CX_Manager
  imports Prelude "HOL-Library.Multiset"
begin

text \<open>
  The manager of the primitives in a context window: \<^verbatim>\<open>vidbyte/context/manager.py\<close>
  with the placements of \<^verbatim>\<open>context/runtime.py\<close>.  A primitive is given by what the
  manager reads of it; its text is a function of its title and id, which are the fields that the manager
  rewrites.  The conversion of unmanaged items to a base context is not part of it.
\<close>

subsection \<open>Items and the manager\<close>

datatype ContextWindowPlacement = TOP_OF_CONTEXT | END_OF_CONTEXT | TOP_OF_CONVERSATION | END_OF_CONVERSATION

definition placement_value :: "ContextWindowPlacement \<Rightarrow> string" where
  "placement_value p = (case p of TOP_OF_CONTEXT \<Rightarrow> ''top_of_context'' | END_OF_CONTEXT \<Rightarrow> ''end_of_context''
     | TOP_OF_CONVERSATION \<Rightarrow> ''top_of_conversation'' | END_OF_CONVERSATION \<Rightarrow> ''end_of_conversation'')"

definition Placement_of :: "string + ContextWindowPlacement \<Rightarrow> exn + ContextWindowPlacement" where
  "Placement_of v =
     (case v of
        Inr p \<Rightarrow> Inr p
      | Inl s \<Rightarrow>
          (case List.find (\<lambda>p. placement_value p = s)
              [TOP_OF_CONTEXT, END_OF_CONTEXT, TOP_OF_CONVERSATION, END_OF_CONVERSATION] of
             Some p \<Rightarrow> Inr p
           | None \<Rightarrow> Inl (ValueError (quoted s @ '' is not a valid ContextWindowPlacement''))))"

record ContextItem =
  ci_kind :: string
  ci_title :: string
  ci_titled :: bool
  ci_id :: "string option"
  ci_frozen :: bool
  ci_dataclass :: bool
  ci_text :: "string \<Rightarrow> string option \<Rightarrow> string"

definition to_context_text :: "ContextItem \<Rightarrow> string" where
  "to_context_text c = ci_text c (ci_title c) (ci_id c)"

definition id_text :: "ContextItem \<Rightarrow> string" where
  "id_text c = (case ci_id c of Some i \<Rightarrow> i | None \<Rightarrow> [])"

record ContextManager =
  cm_items :: "ContextItem list"
  cm_registry :: "(string \<times> ContextItem) list"
  cm_placements :: "(string \<times> ContextWindowPlacement) list"
  cm_counters :: "(string \<times> int) list"

definition new_manager :: "ContextItem list \<Rightarrow> ContextManager" where
  "new_manager items = \<lparr>cm_items = items, cm_registry = [], cm_placements = [], cm_counters = []\<rparr>"

type_synonym 'a managing = "(ContextManager, exn, 'a) sem"

subsection \<open>The registry\<close>

definition upsert :: "ContextItem \<Rightarrow> string + ContextWindowPlacement \<Rightarrow> unit managing" where
  "upsert item placement =
     (if id_text item = []
      then throwM (ValueError (''upsert() requires a primitive with a non-empty primitive_id. '' @
             ''Use add() for unmanaged context items.''))
      else bindM (getM cm_registry) (\<lambda>registry.
        if (case map_of registry (id_text item) of Some old \<Rightarrow> ci_frozen old | None \<Rightarrow> False)
        then throwM (ValueError (''Primitive '' @ quoted (id_text item) @ '' is frozen and cannot be overwritten. '' @
               ''Set primitive_frozen=False to allow updates.''))
        else bindM (liftE id (Placement_of placement)) (\<lambda>p.
          updM (\<lambda>m. m\<lparr>cm_registry := dict_put (id_text item) item (cm_registry m),
                      cm_placements := dict_put (id_text item) p (cm_placements m)\<rparr>))))"

definition generated_id :: "string \<Rightarrow> int \<Rightarrow> string" where
  "generated_id kind n = kind @ '':'' @ show_int n"

text \<open>The first number from \<open>n\<close> on whose id is not taken.\<close>

lemma decimal_value: "foldl (\<lambda>a c. 10 * a + (of_char c - 48)) 0 (decimal n) = n"
proof (induction n rule: decimal.induct)
  case (1 n)
  show ?case
  proof (cases "n < 10")
    case True
    then show ?thesis by (simp add: decimal.simps)
  next
    case False
    then have "foldl (\<lambda>a c. 10 * a + (of_char c - 48)) 0 (decimal (n div 10)) = n div 10" using 1 by simp
    then show ?thesis using False by (subst decimal.simps) simp
  qed
qed

lemma show_int_inject: "0 \<le> m \<Longrightarrow> 0 \<le> n \<Longrightarrow> show_int m = show_int n \<longleftrightarrow> m = n"
  by (metis decimal_value eq_nat_nat_iff not_le show_int_def)

function next_free :: "string \<Rightarrow> (string \<times> ContextItem) list \<Rightarrow> nat \<Rightarrow> nat" where
  "next_free kind registry n =
     (if map_of registry (generated_id kind (int n)) = None then n else next_free kind registry (Suc n))"
  by pat_completeness auto

termination next_free
proof (relation "measure (\<lambda>(kind, registry, n). card {i \<in> fst ` set registry. \<exists>m \<ge> n. i = generated_id kind (int m)})",
    goal_cases)
  case (2 kind registry n)
  let ?from = "\<lambda>n. {i \<in> fst ` set registry. \<exists>m \<ge> n. i = generated_id kind (int m)}"
  have "generated_id kind (int n) \<in> ?from n" using 2 by (auto simp: map_of_eq_None_iff)
  moreover have "generated_id kind (int n) \<notin> ?from (Suc n)" by (auto simp: generated_id_def show_int_inject)
  moreover have "?from (Suc n) \<subseteq> ?from n" by auto (metis Suc_leD)
  ultimately have "?from (Suc n) \<subset> ?from n" by blast
  then show ?case by (simp add: psubset_card_mono)
qed simp

declare next_free.simps [simp del]

definition generate_primitive_id :: "ContextItem \<Rightarrow> string managing" where
  "generate_primitive_id item =
     bindM (getM id) (\<lambda>m.
     let n = next_free (ci_kind item) (cm_registry m)
           (nat ((case map_of (cm_counters m) (ci_kind item) of Some n \<Rightarrow> n | None \<Rightarrow> 0) + 1)) in
     bindM (updM (\<lambda>m. m\<lparr>cm_counters := dict_put (ci_kind item) (int n) (cm_counters m)\<rparr>)) (\<lambda>_.
     returnM (generated_id (ci_kind item) (int n))))"

definition with_primitive_id :: "ContextItem \<Rightarrow> string \<Rightarrow> exn + ContextItem" where
  "with_primitive_id item primitive_id =
     (if \<not> ci_dataclass item
      then Inl (ValueError ''place_*() requires a dataclass context item when primitive_id is missing.'')
      else Inr (item\<lparr>ci_id := Some primitive_id\<rparr>))"

definition place :: "ContextItem \<Rightarrow> ContextWindowPlacement \<Rightarrow> string managing" where
  "place item placement =
     (if strip (id_text item) \<noteq> []
      then bindM (upsert item (Inr placement)) (\<lambda>_. returnM (id_text item))
      else bindM (generate_primitive_id item) (\<lambda>i.
        bindM (liftE id (with_primitive_id item i)) (\<lambda>item.
        bindM (upsert item (Inr placement)) (\<lambda>_. returnM i))))"

definition place_after_system_prompt :: "ContextItem \<Rightarrow> string managing" where
  "place_after_system_prompt item = place item TOP_OF_CONTEXT"

definition place_after_tools :: "ContextItem \<Rightarrow> string managing" where
  "place_after_tools item = place item END_OF_CONTEXT"

definition unknown_primitive :: "string \<Rightarrow> exn" where
  "unknown_primitive i = ValueError (''Primitive '' @ quoted i @ '' does not exist in the context window registry.'')"

definition set_placement :: "string \<Rightarrow> string + ContextWindowPlacement \<Rightarrow> unit managing" where
  "set_placement i placement =
     bindM (getM cm_registry) (\<lambda>registry.
     if map_of registry i = None then throwM (unknown_primitive i)
     else bindM (liftE id (Placement_of placement)) (\<lambda>p.
       updM (\<lambda>m. m\<lparr>cm_placements := dict_put i p (cm_placements m)\<rparr>)))"

definition set_frozen :: "string \<Rightarrow> bool \<Rightarrow> unit managing" where
  "set_frozen i frozen =
     bindM (getM cm_registry) (\<lambda>registry.
     case map_of registry i of
       None \<Rightarrow> throwM (unknown_primitive i)
     | Some item \<Rightarrow>
         if \<not> ci_dataclass item
         then throwM (ValueError (''Primitive '' @ quoted i @ '' is not a dataclass and cannot be frozen.''))
         else updM (\<lambda>m. m\<lparr>cm_registry := dict_put i (item\<lparr>ci_frozen := frozen\<rparr>) (cm_registry m)\<rparr>))"

definition remove_by_id :: "string \<Rightarrow> unit managing" where
  "remove_by_id i = updM (\<lambda>m. m\<lparr>cm_registry := filter (\<lambda>(k, _). k \<noteq> i) (cm_registry m),
     cm_placements := filter (\<lambda>(k, _). k \<noteq> i) (cm_placements m)\<rparr>)"

definition clear_registry :: "unit managing" where
  "clear_registry = updM (\<lambda>m. m\<lparr>cm_registry := [], cm_placements := [], cm_counters := []\<rparr>)"

definition placement_for :: "ContextManager \<Rightarrow> string \<Rightarrow> ContextWindowPlacement option" where
  "placement_for m i = map_of (cm_placements m) i"

definition upsert_preserving_placement :: "ContextItem \<Rightarrow> unit managing" where
  "upsert_preserving_placement item =
     (if id_text item = []
      then throwM (ValueError ''upsert_preserving_placement() requires a primitive with a non-empty primitive_id.'')
      else bindM (getM (\<lambda>m. placement_for m (id_text item))) (\<lambda>p.
        upsert item (Inr (case p of Some p \<Rightarrow> p | None \<Rightarrow> END_OF_CONTEXT))))"

definition recite_title :: "string \<Rightarrow> string" where
  "recite_title t = (if take 8 t = ''Recite: '' then t else ''Recite: '' @ t)"

definition recite :: "string \<Rightarrow> string option \<Rightarrow> string managing" where
  "recite i slot =
     bindM (getM cm_registry) (\<lambda>registry.
     case map_of registry i of
       None \<Rightarrow> throwM (ValueError (''Unknown primitive '' @ quoted i @ ''.''))
     | Some source \<Rightarrow>
         if \<not> ci_dataclass source
         then throwM (ValueError (''Primitive '' @ quoted i @ '' is not a dataclass and cannot be recited.''))
         else let given = strip (case slot of Some s \<Rightarrow> s | None \<Rightarrow> []);
                  target = (if given = [] then ''recite:'' @ i else given) in
           if target = i
           then throwM (ValueError (''slot_id must differ from the source primitive id '' @ quoted i @
                  ''; omit it to use '' @ quoted (''recite:'' @ i) @ ''.''))
           else bindM (upsert (source\<lparr>ci_id := Some target, ci_frozen := False,
                  ci_title := (if ci_titled source then recite_title (ci_title source) else ci_title source)\<rparr>)
                  (Inr END_OF_CONVERSATION)) (\<lambda>_. returnM target))"

subsection \<open>Unmanaged items\<close>

definition add_item :: "ContextItem \<Rightarrow> unit managing" where
  "add_item item = updM (\<lambda>m. m\<lparr>cm_items := cm_items m @ [item]\<rparr>)"

definition extend_items :: "ContextItem list \<Rightarrow> unit managing" where
  "extend_items items = updM (\<lambda>m. m\<lparr>cm_items := cm_items m @ items\<rparr>)"

text \<open>\<open>same\<close> is the equality of two items.\<close>

fun removed_first :: "(ContextItem \<Rightarrow> ContextItem \<Rightarrow> bool) \<Rightarrow> ContextItem \<Rightarrow> ContextItem list \<Rightarrow> exn + ContextItem list" where
  "removed_first same item [] = Inl (ValueError ''list.remove(x): x not in list'')"
| "removed_first same item (c # cs) =
     (if same c item then Inr cs else bindE (removed_first same item cs) (\<lambda>rest. Inr (c # rest)))"

definition remove_item :: "(ContextItem \<Rightarrow> ContextItem \<Rightarrow> bool) \<Rightarrow> ContextItem \<Rightarrow> unit managing" where
  "remove_item same item =
     bindM (getM cm_items) (\<lambda>items.
     bindM (liftE id (removed_first same item items)) (\<lambda>rest. updM (\<lambda>m. m\<lparr>cm_items := rest\<rparr>)))"

definition clear_items :: "unit managing" where
  "clear_items = updM (\<lambda>m. m\<lparr>cm_items := []\<rparr>)"

definition by_kind :: "ContextManager \<Rightarrow> string \<Rightarrow> ContextItem list" where
  "by_kind m kind = filter (\<lambda>c. ci_kind c = kind) (cm_items m)"

subsection \<open>Rendering\<close>

definition placed :: "ContextManager \<Rightarrow> ContextWindowPlacement \<Rightarrow> (string \<times> ContextItem) list" where
  "placed m p = filter (\<lambda>(i, _). (case map_of (cm_placements m) i of Some q \<Rightarrow> q | None \<Rightarrow> END_OF_CONTEXT) = p) (cm_registry m)"

definition items_for_context_zone :: "ContextManager \<Rightarrow> (string \<times> ContextItem) list" where
  "items_for_context_zone m = placed m TOP_OF_CONTEXT @ placed m END_OF_CONTEXT"

fun sections :: "string list \<Rightarrow> string" where
  "sections [] = []"
| "sections [x] = x"
| "sections (x # y # zs) = x @ [CHR 0x0A, CHR 0x0A] @ sections (y # zs)"

definition primitive_section :: "string \<times> ContextItem \<Rightarrow> string" where
  "primitive_section = (\<lambda>(i, c). ''### ['' @ i @ ''] '' @ ci_title c @ [CHR 0x0A] @ to_context_text c)"

definition render_primitives_zone :: "ContextManager \<Rightarrow> string" where
  "render_primitives_zone m =
     (let visible = items_for_context_zone m in
      if visible = [] then [] else sections (''## Context Window Primitives'' # map primitive_section visible))"

definition render_conversation_messages :: "ContextManager \<Rightarrow> ContextWindowPlacement \<Rightarrow> dict list" where
  "render_conversation_messages m p =
     map (\<lambda>(_, c). [(''role'', VStr ''assistant''), (''content'', VStr (to_context_text c))]) (placed m p)"

subsection \<open>Programs of operations\<close>

datatype manager_op =
    Upsert ContextItem "string + ContextWindowPlacement"
  | Place ContextItem ContextWindowPlacement
  | UpsertPreserving ContextItem
  | SetPlacement string "string + ContextWindowPlacement"
  | SetFrozen string bool
  | RemoveById string
  | ClearRegistry
  | Recite string "string option"
  | AddItem ContextItem
  | ClearItems

definition perform :: "manager_op \<Rightarrow> string managing" where
  "perform op =
     (case op of
        Upsert item p \<Rightarrow> bindM (upsert item p) (\<lambda>_. returnM [])
      | Place item p \<Rightarrow> place item p
      | UpsertPreserving item \<Rightarrow> bindM (upsert_preserving_placement item) (\<lambda>_. returnM [])
      | SetPlacement i p \<Rightarrow> bindM (set_placement i p) (\<lambda>_. returnM [])
      | SetFrozen i b \<Rightarrow> bindM (set_frozen i b) (\<lambda>_. returnM [])
      | RemoveById i \<Rightarrow> bindM (remove_by_id i) (\<lambda>_. returnM [])
      | ClearRegistry \<Rightarrow> bindM clear_registry (\<lambda>_. returnM [])
      | Recite i slot \<Rightarrow> recite i slot
      | AddItem item \<Rightarrow> bindM (add_item item) (\<lambda>_. returnM [])
      | ClearItems \<Rightarrow> bindM clear_items (\<lambda>_. returnM []))"

text \<open>An operation that raises leaves the manager as it was, or with a number used up.\<close>

fun run_ops :: "manager_op list \<Rightarrow> ContextManager \<Rightarrow> ContextManager" where
  "run_ops [] m = m"
| "run_ops (op # ops) m = run_ops ops (snd (perform op m))"

text \<open>
  An invariant of the manager needs a proof only for the operations that touch its fields themselves; the
  others, and the programs, are made of these.  \<open>may\<close> are the operations that a program uses.
\<close>

lemma snd_quiet [simp]: "snd (bindM f (\<lambda>_. returnM []) m) = snd (f m)"
  by (auto simp: bindM_def sem_simps split: prod.split sum.split)

locale manager_invariant =
  fixes I :: "ContextManager \<Rightarrow> bool" and may :: "manager_op \<Rightarrow> bool"
  assumes counted: "I m \<Longrightarrow> I (m\<lparr>cm_counters := n\<rparr>)"
    and unmanaged: "I m \<Longrightarrow> I (m\<lparr>cm_items := cs\<rparr>)"
    and upserted: "I m \<Longrightarrow> I (snd (upsert item p m))"
    and moved: "I m \<Longrightarrow> I (snd (set_placement i q m))"
    and refrozen: "I m \<Longrightarrow> may (SetFrozen i b) \<Longrightarrow> I (snd (set_frozen i b m))"
    and removed: "I m \<Longrightarrow> may (RemoveById i) \<Longrightarrow> I (snd (remove_by_id i m))"
    and cleared: "I m \<Longrightarrow> may ClearRegistry \<Longrightarrow> I (snd (clear_registry m))"
begin

lemma placing: "I m \<Longrightarrow> I (snd (place item p m))"
  using upserted by (auto simp: place_def generate_primitive_id_def with_primitive_id_def bindM_def sem_simps Let_def
      split: prod.split sum.split) (metis snd_conv counted)+

lemma reciting: "I m \<Longrightarrow> I (snd (recite i slot m))"
  using upserted by (auto simp: recite_def bindM_def sem_simps Let_def split: prod.split sum.split option.split) (metis snd_conv)+

lemma preserving: "I m \<Longrightarrow> I (snd (upsert_preserving_placement item m))"
  using upserted by (simp add: upsert_preserving_placement_def sem_simps)

lemma performs: "I m \<Longrightarrow> may op \<Longrightarrow> I (snd (perform op m))"
  by (cases op) (simp_all add: perform_def upserted placing preserving moved refrozen removed cleared reciting
      unmanaged add_item_def clear_items_def sem_simps)

lemma runs: "I m \<Longrightarrow> list_all may ops \<Longrightarrow> I (run_ops ops m)"
  by (induction ops arbitrary: m) (simp_all add: performs)

end

text \<open>
  What every operation but \<open>place\<close> does to the two dictionaries comes down to storing, replacing and
  dropping; a placement always belongs to a primitive.
\<close>

definition tidy :: "ContextManager \<Rightarrow> bool" where
  "tidy m \<longleftrightarrow> dict_wf (cm_registry m) \<and> map fst (cm_placements m) = map fst (cm_registry m) \<and>
     list_all (\<lambda>(i, c). i \<noteq> [] \<and> id_text c = i) (cm_registry m)"

lemma tidy_new: "tidy (new_manager items)"
  by (simp add: tidy_def new_manager_def)

lemma tidy_counters [simp]: "tidy (m\<lparr>cm_counters := n\<rparr>) = tidy m" "tidy (m\<lparr>cm_items := cs\<rparr>) = tidy m"
  by (simp_all add: tidy_def)

lemma put_keys: "map fst (dict_put k v d) = (if k \<in> fst ` set d then map fst d else map fst d @ [k])"
  by (induction d) auto

lemma tidy_keys: "tidy m \<Longrightarrow> fst ` set (cm_placements m) = fst ` set (cm_registry m)"
  by (metis tidy_def list.set_map)

lemma tidy_store:
  assumes "tidy m" and "id_text item \<noteq> []"
  shows "tidy (m\<lparr>cm_registry := dict_put (id_text item) item (cm_registry m),
    cm_placements := dict_put (id_text item) p (cm_placements m)\<rparr>)"
proof -
  have "fst ` set (cm_placements m) = fst ` set (cm_registry m)"
    using assms(1) by (rule tidy_keys)
  then show ?thesis using assms by (auto simp: tidy_def put_keys list_all_iff dest!: dict_put_values)
qed

lemma tidy_replace:
  assumes "tidy m" and "map_of (cm_registry m) i = Some item" and "ci_id item' = ci_id item"
  shows "tidy (m\<lparr>cm_registry := dict_put i item' (cm_registry m)\<rparr>)"
proof -
  have "i \<in> fst ` set (cm_registry m)" using assms(2) by (force dest: map_of_SomeD)
  moreover have "i \<noteq> []" "id_text item' = i"
    using assms map_of_SomeD [OF assms(2)] by (auto simp: tidy_def list_all_iff id_text_def)
  ultimately show ?thesis using assms(1) by (auto simp: tidy_def put_keys list_all_iff dest!: dict_put_values)
qed

lemma tidy_move:
  assumes "tidy m" and "map_of (cm_registry m) i \<noteq> None"
  shows "tidy (m\<lparr>cm_placements := dict_put i p (cm_placements m)\<rparr>)"
proof -
  have "i \<in> fst ` set (cm_placements m)"
    using assms(2) unfolding tidy_keys [OF assms(1)] by (simp add: map_of_eq_None_iff)
  then show ?thesis using assms(1) by (simp add: tidy_def put_keys)
qed

lemma map_fst_without: "map fst (filter (\<lambda>(k, _). k \<noteq> i) d) = filter (\<lambda>k. k \<noteq> i) (map fst d)"
  by (induction d) auto

lemma tidy_drop: "tidy m \<Longrightarrow> tidy (m\<lparr>cm_registry := filter (\<lambda>(k, _). k \<noteq> i) (cm_registry m),
     cm_placements := filter (\<lambda>(k, _). k \<noteq> i) (cm_placements m)\<rparr>)"
  by (auto simp: tidy_def map_fst_without dict_wf_def list_all_iff)

definition frozen_at :: "ContextManager \<Rightarrow> string \<Rightarrow> bool" where
  "frozen_at m i \<longleftrightarrow> (case map_of (cm_registry m) i of Some c \<Rightarrow> ci_frozen c | None \<Rightarrow> False)"

lemma upsert_stores:
  "id_text item \<noteq> [] \<Longrightarrow> \<not> frozen_at m (id_text item) \<Longrightarrow> Placement_of p = Inr q \<Longrightarrow>
   upsert item p m = (Inr (), m\<lparr>cm_registry := dict_put (id_text item) item (cm_registry m),
      cm_placements := dict_put (id_text item) q (cm_placements m)\<rparr>)"
  by (simp add: upsert_def sem_simps frozen_at_def)

lemma upsert_fails:
  "id_text item = [] \<or> frozen_at m (id_text item) \<or> Placement_of p = Inl e \<Longrightarrow> \<exists>e. upsert item p m = (Inl e, m)"
  by (auto simp: upsert_def sem_simps frozen_at_def)

lemma upsert_cases:
  obtains (failed) e where "upsert item p m = (Inl e, m)"
  | (stored) q where "upsert item p m = (Inr (), m\<lparr>cm_registry := dict_put (id_text item) item (cm_registry m),
      cm_placements := dict_put (id_text item) q (cm_placements m)\<rparr>)" and "id_text item \<noteq> []"
    and "Placement_of p = Inr q" and "\<not> frozen_at m (id_text item)"
  using upsert_stores upsert_fails by (metis sum.exhaust)

lemma tidy_upsert: "tidy m \<Longrightarrow> tidy (snd (upsert item p m))"
  by (cases rule: upsert_cases [of item p m]) (simp_all add: tidy_store)

lemma tidy_set_placement: "tidy m \<Longrightarrow> tidy (snd (set_placement i p m))"
  by (cases "Placement_of p") (simp_all add: set_placement_def sem_simps tidy_move)

lemma tidy_set_frozen: "tidy m \<Longrightarrow> tidy (snd (set_frozen i b m))"
  by (auto simp: set_frozen_def sem_simps intro!: tidy_replace split: option.split)

lemma tidy_others:
  "tidy m \<Longrightarrow> tidy (snd (remove_by_id i m))" "tidy m \<Longrightarrow> tidy (snd (clear_registry m))"
  "tidy m \<Longrightarrow> tidy (snd (add_item item m))" "tidy m \<Longrightarrow> tidy (snd (clear_items m))"
  by (simp_all add: remove_by_id_def clear_registry_def add_item_def clear_items_def sem_simps tidy_drop)
     (simp add: tidy_def)

interpretation tidiness: manager_invariant tidy "\<lambda>_. True"
  by unfold_locales (simp_all add: tidy_upsert tidy_set_placement tidy_set_frozen tidy_others)

lemma tidy_run: "tidy (run_ops ops (new_manager items))"
  using tidiness.runs [OF tidy_new, of ops] by (simp add: list_all_iff)

subsection \<open>Guarantees\<close>

lemma placed_iff:
  assumes "tidy m"
  shows "(i, c) \<in> set (placed m q) \<longleftrightarrow> map_of (cm_registry m) i = Some c \<and> placement_for m i = Some q"
proof -
  have wf: "dict_wf (cm_registry m)" using assms by (simp add: tidy_def)
  have "i \<in> fst ` set (cm_placements m)" if "(i, c) \<in> set (cm_registry m)"
    using that unfolding tidy_keys [OF assms] by (rule rev_image_eqI) simp
  then have "placement_for m i \<noteq> None" if "(i, c) \<in> set (cm_registry m)"
    using that by (simp add: placement_for_def map_of_eq_None_iff)
  then show ?thesis unfolding dict_wf_lookup [OF wf] by (auto simp: placed_def placement_for_def split: option.splits)
qed

definition shown :: "ContextManager \<Rightarrow> (string \<times> ContextItem) list" where
  "shown m = placed m TOP_OF_CONVERSATION @ items_for_context_zone m @ placed m END_OF_CONVERSATION"

lemma shown_mset: "mset (shown m) = mset (cm_registry m)"
proof -
  have "mset (filter (\<lambda>x. g x = TOP_OF_CONVERSATION) xs) + mset (filter (\<lambda>x. g x = TOP_OF_CONTEXT) xs)
      + mset (filter (\<lambda>x. g x = END_OF_CONTEXT) xs) + mset (filter (\<lambda>x. g x = END_OF_CONVERSATION) xs) = mset xs"
    for g :: "string \<times> ContextItem \<Rightarrow> ContextWindowPlacement" and xs
  proof (induction xs)
    case (Cons x xs)
    then show ?case by (cases "g x") (simp_all add: add.assoc)
  qed simp
  from this [of "\<lambda>x. case map_of (cm_placements m) (fst x) of Some q \<Rightarrow> q | None \<Rightarrow> END_OF_CONTEXT" "cm_registry m"]
  show ?thesis by (simp add: shown_def items_for_context_zone_def placed_def case_prod_unfold add.assoc)
qed

text \<open>C13:
  After any program of operations, failed ones included, each managed primitive is shown exactly once in a
  request, under the place it was given, and nothing else is shown: the messages before and after the
  conversation and the zone of the system prompt together are the registry, whose ids are distinct.
\<close>

theorem primitives_shown_once:
  "mset (shown (run_ops ops (new_manager items))) = mset (cm_registry (run_ops ops (new_manager items))) \<and>
   distinct (map fst (shown (run_ops ops (new_manager items)))) \<and>
   ((i, c) \<in> set (placed (run_ops ops (new_manager items)) q) \<longleftrightarrow>
      map_of (cm_registry (run_ops ops (new_manager items))) i = Some c \<and>
      placement_for (run_ops ops (new_manager items)) i = Some q)"
proof -
  let ?m = "run_ops ops (new_manager items)"
  have tidy: "tidy ?m" by (rule tidy_run)
  then have "distinct (map fst (cm_registry ?m))" by (simp add: tidy_def dict_wf_def)
  then have "distinct (map fst (shown ?m))" using shown_mset [of ?m] by (metis mset_eq_imp_distinct_iff mset_map)
  then show ?thesis using shown_mset placed_iff [OF tidy] by blast
qed

subsection \<open>Frozen primitives and fresh ids\<close>

definition spares :: "string \<Rightarrow> manager_op \<Rightarrow> bool" where
  "spares i op \<longleftrightarrow>
     (case op of SetFrozen j b \<Rightarrow> j \<noteq> i \<or> b | RemoveById j \<Rightarrow> j \<noteq> i | ClearRegistry \<Rightarrow> False | _ \<Rightarrow> True)"

definition held :: "string \<Rightarrow> ContextItem \<Rightarrow> ContextManager \<Rightarrow> bool" where
  "held i c m \<longleftrightarrow> map_of (cm_registry m) i = Some c \<and> ci_frozen c"

lemma held_counters [simp]: "held i c (m\<lparr>cm_counters := n\<rparr>) = held i c m" "held i c (m\<lparr>cm_items := cs\<rparr>) = held i c m"
    "held i c (m\<lparr>cm_placements := ps\<rparr>) = held i c m"
  by (simp_all add: held_def)

lemma held_upsert: "held i c m \<Longrightarrow> held i c (snd (upsert item p m))"
  by (cases rule: upsert_cases [of item p m]) (auto simp: held_def frozen_at_def)

lemma held_set_placement: "held i c m \<Longrightarrow> held i c (snd (set_placement j p m))"
  by (cases "Placement_of p") (simp_all add: set_placement_def sem_simps)

lemma held_set_frozen: "held i c m \<Longrightarrow> j \<noteq> i \<or> b \<Longrightarrow> held i c (snd (set_frozen j b m))"
  by (auto simp: set_frozen_def sem_simps held_def split: option.split)

lemma map_of_without: "j \<noteq> i \<Longrightarrow> map_of (filter (\<lambda>(k, _). k \<noteq> j) d) i = map_of d i"
  by (induction d) auto

lemma held_remove: "held i c m \<Longrightarrow> j \<noteq> i \<Longrightarrow> held i c (snd (remove_by_id j m))"
  by (simp add: remove_by_id_def sem_simps held_def map_of_without)

interpretation holding: manager_invariant "held i c" "spares i" for i c
  by unfold_locales (simp_all add: held_upsert held_set_placement held_set_frozen held_remove spares_def)

text \<open>C14:
  A frozen primitive stays as it is, whatever is placed, replaced, recited or moved, until it is unfrozen,
  removed, or the registry is cleared.
\<close>

theorem frozen_primitives_stay:
  assumes "map_of (cm_registry m) i = Some c" and "ci_frozen c" and "list_all (spares i) ops"
  shows "map_of (cm_registry (run_ops ops m)) i = Some c"
proof -
  have "held i c m" using assms(1,2) by (simp add: held_def)
  then have "held i c (run_ops ops m)" using holding.runs assms(3) by blast
  then show ?thesis by (simp add: held_def)
qed

definition memo :: "string option \<Rightarrow> bool \<Rightarrow> ContextItem" where
  "memo i frozen = \<lparr>ci_kind = ''note'', ci_title = ''Plan'', ci_titled = True, ci_id = i, ci_frozen = frozen,
     ci_dataclass = True, ci_text = (\<lambda>t _. t)\<rparr>"

definition demo_ops :: "manager_op list" where
  "demo_ops = [Upsert (memo (Some ''plan'') False) (Inr TOP_OF_CONTEXT), Place (memo None False) END_OF_CONTEXT,
     SetPlacement ''plan'' (Inl ''end_of_conversation''), Recite ''plan'' (Some ''note:2'')]"

theorem frozen_primitives_stay_witness:
  "map_of (cm_registry (run_ops demo_ops (snd (upsert (memo (Some ''plan'') True) (Inr END_OF_CONTEXT) (new_manager [])))))
     ''plan'' = Some (memo (Some ''plan'') True)"
proof -
  let ?m = "snd (upsert (memo (Some ''plan'') True) (Inr END_OF_CONTEXT) (new_manager []))"
  have held: "map_of (cm_registry ?m) ''plan'' = Some (memo (Some ''plan'') True)"
    by (simp add: upsert_def sem_simps id_text_def memo_def new_manager_def Placement_of_def)
  show ?thesis
    using frozen_primitives_stay [OF held, of demo_ops] by (simp add: memo_def demo_ops_def spares_def)
qed

lemma next_free_is_free: "map_of registry (generated_id kind (int (next_free kind registry n))) = None"
  by (induction kind registry n rule: next_free.induct) (subst next_free.simps, auto split: if_splits)

lemma put_fresh: "map_of d k = None \<Longrightarrow> dict_put k v d = d @ [(k, v)]"
  by (induction d) (auto split: if_splits)

text \<open>C15:
  Placing a primitive that brings no id gives it one that nothing else has: the registry grows by this
  primitive at its end and is otherwise unchanged, whatever ids callers chose for themselves.
\<close>

theorem placing_takes_a_fresh_id:
  assumes "place item p m = (Inr i, t)" and "strip (id_text item) = []"
  shows "map_of (cm_registry m) i = None \<and> cm_registry t = cm_registry m @ [(i, item\<lparr>ci_id := Some i\<rparr>)]"
proof -
  define n where "n = next_free (ci_kind item) (cm_registry m)
    (nat ((case map_of (cm_counters m) (ci_kind item) of Some n \<Rightarrow> n | None \<Rightarrow> 0) + 1))"
  let ?i = "generated_id (ci_kind item) (int n)"
  have free: "map_of (cm_registry m) ?i = None" unfolding n_def by (rule next_free_is_free)
  let ?m = "m\<lparr>cm_counters := dict_put (ci_kind item) (int n) (cm_counters m)\<rparr>" and ?item = "item\<lparr>ci_id := Some ?i\<rparr>"
  have data: "ci_dataclass item" using assms
    by (auto simp: place_def generate_primitive_id_def with_primitive_id_def bindM_def sem_simps Let_def split: if_splits)
  have named: "id_text ?item = ?i" "?i \<noteq> []" by (simp_all add: id_text_def generated_id_def)
  have "\<not> frozen_at ?m (id_text ?item)" using free named by (simp add: frozen_at_def)
  then have "upsert ?item (Inr p) ?m = (Inr (), ?m\<lparr>cm_registry := dict_put ?i ?item (cm_registry ?m),
      cm_placements := dict_put ?i p (cm_placements ?m)\<rparr>)"
    using upsert_stores [of ?item ?m "Inr p" p] named by (simp add: Placement_of_def)
  then have "place item p m = (Inr ?i, ?m\<lparr>cm_registry := dict_put ?i ?item (cm_registry ?m),
      cm_placements := dict_put ?i p (cm_placements ?m)\<rparr>)"
    using assms(2) data
    by (simp add: place_def generate_primitive_id_def with_primitive_id_def bindM_def sem_simps Let_def n_def [symmetric])
  then show ?thesis using assms(1) free by (auto simp: put_fresh)
qed

theorem placing_takes_a_fresh_id_witness:
  "fst (place (memo None False) TOP_OF_CONTEXT (run_ops demo_ops (new_manager []))) = Inr ''note:3'' \<and>
   map_of (cm_registry (run_ops demo_ops (new_manager []))) ''note:3'' = None"
proof -
  let ?r = "place (memo None False) TOP_OF_CONTEXT (run_ops demo_ops (new_manager []))"
  have ran: "fst ?r = Inr ''note:3''" by code_simp
  then have "?r = (Inr ''note:3'', snd ?r)" by (metis prod.collapse)
  from placing_takes_a_fresh_id [OF this] show ?thesis using ran by (simp add: id_text_def memo_def)
qed

end
