(* ===== verification/Spec2Isabelle.thy ===== *)
theory Spec2Isabelle
  imports WF_Claims WF_Validation MW_Limits MW_Retry MW_Tools SE_File SE_Session SE_Usage FR_Reply FR_Exceptions AG_Claims AG_Declare CX_Manager
begin

text \<open>
  A verification library for the Vidbyte SDK, a Python toolkit for model-calling agents (package
  \<^verbatim>\<open>src/vidbyte\<close>).  Six of its subsystems are modelled, the ones that hold its own
  control logic and not the behaviour of a service.

  \<^bold>\<open>Workflows\<close> (\<^verbatim>\<open>workflows/\<close>).  A program declares a graph of stages,
  conditional routes, stage policies with validators, and terminals; the compiler checks it; the
  machine runs it.  \<open>WF_Contracts\<close> has the records of \<^verbatim>\<open>contracts.py\<close> with the checks of
  their constructors, \<open>WF_Graph\<close> the builder and the compiler of \<^verbatim>\<open>graph.py\<close>,
  \<open>WF_Machine\<close> and \<open>WF_Run\<close> the machine of \<^verbatim>\<open>machine.py\<close>, \<open>WF_Validation\<close> the
  validators of \<^verbatim>\<open>validation.py\<close>.  \<open>WF_Effects\<close> states, as locales, the kinds of
  change an operation makes; \<open>WF_Invariant\<close> carries the invariant of a run through the machine;
  \<open>WF_Events\<close> and \<open>WF_Observers\<close> treat the event log and the isolation of observers;
  \<open>WF_Props\<close> and \<open>WF_Guarantees\<close> draw the guarantees and \<open>WF_Claims\<close> states them, applied to
  the run of the workflow that \<open>WF_Example\<close> builds with the builder and compiles.

  \<^bold>\<open>Middleware\<close> (\<^verbatim>\<open>middleware/\<close>).  Hooks around the model and tool calls of a
  run, whose decisions the pipeline combines.  \<open>MW_Core\<close> has the decision and context records and
  the pipeline (\<^verbatim>\<open>pipeline.py\<close>), with the locale of a budget and its refinement for
  budgets that fill themselves; \<open>MW_Limits\<close> the runtime, token, cost and rate limits, each an
  instance of those locales; \<open>MW_Retry\<close> the model and tool retries and the circuit breaker;
  \<open>MW_Tools\<close> the middlewares that watch tool calls.

  \<^bold>\<open>Sessions\<close> (\<^verbatim>\<open>sessions/\<close>).  Checkpoints of a run, linked to their parents, are
  encoded without credentials and kept in a store.  \<open>SE_Codec\<close> has the records, the credential
  key policy and the codec; \<open>SE_Store\<close> the store over the primitives of a backend, the laws a
  backend promises as the locale \<open>checkpoint_store\<close>, in which the store is shown correct, and the
  in-memory backend as its interpretation; \<open>SE_File\<close> interprets it on the backend that keeps files;
  \<open>SE_Portable\<close> has the export and import of bundles; \<open>SE_Session\<close> the facade of a live session
  over a store and an agent, and the programs that hold several sessions on one store; \<open>SE_Usage\<close>
  folds the usage of a session from its history.

  \<^bold>\<open>Failures\<close> (\<^verbatim>\<open>sessions/failure/\<close>).  Every session keeps a bounded ledger of the
  failures of its runs and hands each to the handler bound to its code.  \<open>FR_Failure\<close> has the
  vocabulary and the checked, cleaned record; \<open>FR_Router\<close> the router, its rules and the capture of
  exceptions; \<open>FR_Reply\<close> the failures read off a reply and the middleware that evaluates the rules.
  Handlers may call the router again: \<open>FR_Once\<close> defines the programs of router operations and shows
  that each failure meets its handler once, \<open>FR_Exceptions\<close> that an exception is one failure.

  \<^bold>\<open>Agents\<close> (\<^verbatim>\<open>agents/\<close>).  A run of an agent is a loop: a pass checks the budgets, calls
  the model through the middleware pipeline, replays the turn of the assistant, runs the tool calls it
  asks for and answers them, or judges the answer it gives; an error of the model may move the run to the
  next model of its fallback chain.  \<open>AG_Settings\<close> has the tool settings with their budgets and
  denials (\<^verbatim>\<open>settings/tool.py\<close>), \<open>AG_Contracts\<close> the output contracts, the loop settings and the
  spend cap (\<^verbatim>\<open>contracts/\<close>, \<^verbatim>\<open>contract.py\<close>, \<^verbatim>\<open>settings/loop.py\<close>,
  \<^verbatim>\<open>spend_cap.py\<close>), \<open>AG_Wire\<close> the formats in which calls and answers travel
  (\<^verbatim>\<open>lib/tools/formatter.py\<close>), \<open>AG_Declare\<close> the declarations of tools and their reduction to the
  dialect of one provider, \<open>AG_Tools\<close> the catalog, the permissions and the execution of
  one call (\<^verbatim>\<open>tools/\<close>, \<^verbatim>\<open>lib/permission_ceiling.py\<close>), \<open>AG_Runtime\<close> the loop and the
  fallback chain (\<^verbatim>\<open>runtime.py\<close>, \<^verbatim>\<open>fallback.py\<close>).  \<open>AG_Frames\<close> says what each
  operation leaves alone; \<open>AG_Passes\<close> divides a run into its passes and gives, as the locale
  \<open>pass_rule\<close>, the rule by which an invariant of the passes holds of the run; \<open>AG_Guards\<close> says what
  the guards of a call let through.  On these rest the invariants: \<open>AG_Budgets\<close> for the budgets, the
  permissions and the failures, \<open>AG_Answers\<close> for the answers in the conversation, \<open>AG_Chain\<close> for the
  walk of the chain; each interprets the locale.  \<open>AG_Claims\<close> states the guarantees, applied to the run
  of \<open>AG_Demo\<close>, which falls back once, runs a tool, has a call denied, and finishes.

  \<^bold>\<open>Context windows\<close> (\<^verbatim>\<open>context/\<close>).  \<open>CX_Manager\<close> has the manager of the
  primitives a request shows (\<^verbatim>\<open>manager.py\<close>): its registry, placements and ids, every operation
  on them, and the rendering.  The locale \<open>manager_invariant\<close> carries an invariant from the operations
  that touch the registry to every program; it is interpreted for the order of the registry and for a
  frozen primitive.  The agent loop reads the rendered texts and messages as arguments.

  \<^bold>\<open>How the code is read.\<close>  \<open>Prelude\<close> has the Python values that cross the interfaces
  (\<open>pyval\<close>), exceptions with the names of their classes, dictionaries in insertion order, and the
  monad \<open>sem\<close> of a computation that changes a state and returns or raises; a computation that only
  may raise is a sum.  Each method is one definition with the name of the method, its guards in
  the order of the code and every raise a branch.  Strings are lists of characters below 256;
  integers are unbounded, as in Python; floats are exact rationals with the three non-finite
  values, so rounding is not modelled.  What comes from outside is an argument: readings of the
  clock, random draws, hashes, fresh ids, the JSON text of a value, the dump of a pydantic model,
  and the callbacks of the user, which may return anything, raise, or change the world they share.
  \<open>Untyped\<close> answers a decoded payload whose fields have other types than the dataclass declares,
  which Python would let through unchecked.

  \<^bold>\<open>Bounds.\<close>  The loops of the machine terminate because each round takes a unit of the
  transition budget, the search of the compiler because it visits a declared node once, the binary search
  of the deputy guard because its interval shrinks, the walk of the head chain because it never enters a
  checkpoint twice, the reduction of a schema because it expands no definition inside itself, the search
  for a free id because the registry is finite.  Only the agent loop has fuel, since an agent without limits may run for ever.
  \<open>agent_loop\<close> answers none when its passes are spent, and \<open>run_returns_within_its_iterations\<close> shows
  that the limit of iterations and the length of the chain are enough.  A middleware may order a call of the
  model or of a tool again without end; \<open>ri_retry_fuel\<close> bounds these retries, and running out is the
  outcome \<open>RetryFuel\<close>, which no handler catches.  What holds of a run holds for every fuel.

  \<^bold>\<open>Not modelled.\<close>  Of the agents: the constructor and the entry points of
  \<^verbatim>\<open>base.py\<close>, the assembly of the context, tracing and speed statistics, the outer
  context-window algorithms, and the controllers over several
  agents (Jev, forks, aggregation), whose steps are runs of the loop.  Context-window algorithms, compaction, the conversion of
  context items and pipelines are left out, as are the thin adapters of workflow stages.  Providers, transport, the tools of the operating
  system, fetching of documents, prompts, traces, evaluation and harness drivers, the command line and the
  MCP server pass data between services, and their behaviour is that of the services.
\<close>

end
